(* ===== verification/Prelude.thy ===== *)
theory Prelude
  imports Complex_Main "HOL-Library.Multiset"
begin

text \<open>
  Shared vocabulary of the development: the faults a C function can end in, the two result
  types (\<open>res\<close> for straight-line code, \<open>run\<close> for code with loops that may not end), the
  identifiers of the simulated objects, the collections \<open>heap_simps\<close>, \<open>link_simps\<close> and
  \<open>sched_simps\<close>, and list facts used by several components.
\<close>

section \<open>Collections\<close>

named_theorems res_simps "equations of the result types"
named_theorems heap_simps "definitions of the pointer-level queue operations"
named_theorems link_simps "definitions of the link protocols"
named_theorems sched_simps "definitions of the scheduling operations"

section \<open>Faults and results\<close>

text \<open>
  \<open>Panic\<close> and \<open>Die\<close> stand for the calls of \<open>panic\<close> and \<open>die\<close> (utils/subr.c), which print
  a message and end the simulation; \<open>AssertFailed\<close> for a failing \<open>assert\<close>. The other faults
  are behaviour the C standard leaves undefined: dereferencing NULL, dereferencing freed
  memory, reading a field that was never written, and an access outside an allocated block.
  \<open>NotANumber\<close> stands for a floating point result that is no real number (NaN or an infinity),
  where the model stops.
\<close>

datatype fault =
    Panic string
  | Die string
  | AssertFailed
  | NullDeref
  | Dangling
  | Uninit
  | OutOfBounds
  | NotANumber
  | Overflow

type_synonym 'a res = "fault + 'a"

definition bindE :: "'a res \<Rightarrow> ('a \<Rightarrow> 'b res) \<Rightarrow> 'b res" where
  "bindE m f = (case m of Inl e \<Rightarrow> Inl e | Inr x \<Rightarrow> f x)"

lemma bindE_Inl [simp, res_simps]: "bindE (Inl e) f = Inl e"
  by (simp add: bindE_def)

lemma bindE_Inr [simp, res_simps]: "bindE (Inr x) f = f x"
  by (simp add: bindE_def)

lemma bindE_eq_Inr: "bindE m f = Inr y \<longleftrightarrow> (\<exists>x. m = Inr x \<and> f x = Inr y)"
  by (cases m) auto

lemma bindE_eq_Inl: "bindE m f = Inl e \<longleftrightarrow> m = Inl e \<or> (\<exists>x. m = Inr x \<and> f x = Inl e)"
  by (cases m) auto

lemma bindE_assoc: "bindE (bindE m f) g = bindE m (\<lambda>x. bindE (f x) g)"
  by (cases m) auto

text \<open>
  A \<open>run\<close> is the outcome of code with loops: \<open>None\<close> when it does not return, otherwise a
  \<open>res\<close>.
\<close>

type_synonym 'a run = "'a res option"

definition retR :: "'a \<Rightarrow> 'a run" where
  "retR x = Some (Inr x)"

definition failR :: "fault \<Rightarrow> 'a run" where
  "failR e = Some (Inl e)"

definition bindR :: "'a run \<Rightarrow> ('a \<Rightarrow> 'b run) \<Rightarrow> 'b run" where
  "bindR m f = (case m of None \<Rightarrow> None | Some (Inl e) \<Rightarrow> Some (Inl e) | Some (Inr x) \<Rightarrow> f x)"

lemma bindR_None [simp, res_simps]: "bindR None f = None"
  by (simp add: bindR_def)

lemma bindR_retR [simp, res_simps]: "bindR (retR x) f = f x"
  by (simp add: bindR_def retR_def)

lemma bindR_failR [simp, res_simps]: "bindR (failR e) f = failR e"
  by (simp add: bindR_def failR_def)

lemma retR_eq [simp]: "retR x = retR y \<longleftrightarrow> x = y"
  by (simp add: retR_def)

lemma retR_not_failR [simp]: "retR x \<noteq> failR e" "failR e \<noteq> retR x"
  by (simp_all add: retR_def failR_def)

lemma retR_not_None [simp]: "retR x \<noteq> None" "None \<noteq> retR x"
  by (simp_all add: retR_def)

lemma bindR_eq_retR: "bindR m f = retR y \<longleftrightarrow> (\<exists>x. m = retR x \<and> f x = retR y)"
  by (auto simp: bindR_def retR_def split: option.splits sum.splits)

lemma Some_eq_retR [simp]: "Some r = retR x \<longleftrightarrow> r = Inr x"
  by (simp add: retR_def)

lemma failR_not_None [simp]: "failR e \<noteq> None" "None \<noteq> failR e"
  by (simp_all add: failR_def)

text \<open>What holds of the result when there is one.\<close>

definition yields :: "('a \<Rightarrow> bool) \<Rightarrow> 'a run \<Rightarrow> bool" where
  "yields P r \<longleftrightarrow> (\<forall>x. r = retR x \<longrightarrow> P x)"

lemma yields_simps [simp]: "yields P (retR x) = P x" "yields P (failR e)" "yields P None"
  "yields P (Some (Inl e))" "yields P (Some (Inr x)) = P x"
  by (auto simp: yields_def retR_def failR_def)

lemma yieldsD: "yields P r \<Longrightarrow> r = retR x \<Longrightarrow> P x"
  by (simp add: yields_def)

lemma yields_bind: "yields (\<lambda>x. yields P (f x)) r \<Longrightarrow> yields P (bindR r f)"
  by (auto simp: yields_def bindR_eq_retR)

lemma yields_res: "(\<And>x. r = Inr x \<Longrightarrow> P x) \<Longrightarrow> yields P (Some r)"
  by (simp add: yields_def)

lemma yields_mono: "yields P r \<Longrightarrow> (\<And>x. P x \<Longrightarrow> Q x) \<Longrightarrow> yields Q r"
  by (simp add: yields_def)

lemma yields_then: "yields P r \<Longrightarrow> (\<And>x. P x \<Longrightarrow> yields Q (f x)) \<Longrightarrow> yields Q (bindR r f)"
  by (rule yields_bind) (rule yields_mono)

text \<open>Recursive loops of type \<open>run\<close> may use \<open>bindR\<close>.\<close>

lemma bindR_bind: "bindR m f = Option.bind m (\<lambda>r. case r of Inl e \<Rightarrow> Some (Inl e) | Inr x \<Rightarrow> f x)"
  by (cases m) (auto simp: bindR_def)

lemma bindR_mono [partial_function_mono]:
  assumes "mono_option B" "\<And>y. mono_option (\<lambda>f. C y f)"
  shows "mono_option (\<lambda>f. bindR (B f) (\<lambda>y. C y f))"
  unfolding bindR_bind
proof (rule bind_mono)
  show "mono_option (\<lambda>f. case r of Inl e \<Rightarrow> Some (Inl e) | Inr x \<Rightarrow> C x f)" for r
    by (cases r) (simp_all add: assms(2) partial_function_definitions.const_mono[OF option.partial_function_definitions_axioms])
qed (rule assms(1))

section \<open>Identifiers\<close>

text \<open>
  Threads, tasks, nodes, machines, links and dedicated connections are C structures reached
  through pointers; a model identifies each by a number, and equality of pointers is equality
  of numbers. A pointer that can be NULL is an \<open>option\<close>.
\<close>

type_synonym addr = nat
type_synonym tid = nat
type_synonym taskid = int
type_synonym nodeid = nat
type_synonym machid = nat
type_synonym connid = nat
type_synonym lid = nat

text \<open>\<open>dimemas_timer\<close>, \<open>t_nano\<close> and \<open>t_priority\<close> are \<open>double\<close> in the default build.\<close>

type_synonym timer = real
type_synonym prio = real

section \<open>Lists\<close>

definition hdo :: "'a list \<Rightarrow> 'a option \<Rightarrow> 'a option" where
  "hdo xs d = (case xs of [] \<Rightarrow> d | x # _ \<Rightarrow> Some x)"

definition lasto :: "'a list \<Rightarrow> 'a option \<Rightarrow> 'a option" where
  "lasto xs d = (if xs = [] then d else Some (last xs))"

lemma hdo_simps [simp]: "hdo [] d = d" "hdo (x # xs) d = Some x"
  by (simp_all add: hdo_def)

lemma hdo_append [simp]: "hdo (xs @ ys) d = hdo xs (hdo ys d)"
  by (cases xs) simp_all

lemma lasto_simps [simp]: "lasto [] d = d" "lasto (xs @ [x]) d = Some x"
  by (simp_all add: lasto_def)

lemma lasto_Cons [simp]: "lasto (x # xs) d = lasto xs (Some x)"
  by (simp add: lasto_def)

lemma lasto_append [simp]: "lasto (xs @ ys) d = lasto ys (lasto xs d)"
  by (simp add: lasto_def)

lemma lasto_nonempty: "xs \<noteq> [] \<Longrightarrow> lasto xs d = Some (last xs)"
  by (simp add: lasto_def)

lemma hdo_None_iff [simp]: "hdo xs None = None \<longleftrightarrow> xs = []"
  by (cases xs) simp_all

lemma lasto_None_iff [simp]: "lasto xs None = None \<longleftrightarrow> xs = []"
  by (simp add: lasto_def)

lemma hdo_Some_iff: "hdo xs None = Some a \<longleftrightarrow> (\<exists>ys. xs = a # ys)"
  by (cases xs) auto

lemma lasto_Some_iff: "lasto xs None = Some a \<longleftrightarrow> (\<exists>ys. xs = ys @ [a])"
  by (cases xs rule: rev_cases) auto

lemma dropWhile_hd_False: "dropWhile P xs = y # ys \<Longrightarrow> \<not> P y"
  by (metis hd_dropWhile list.distinct(1) list.sel(1))

lemma mset_take_drop_While [simp]:
  "mset (takeWhile P xs) + mset (dropWhile P xs) = mset xs"
  by (metis mset_append takeWhile_dropWhile_id)

lemma upto_ball: "(\<forall>i\<in>set [0..<n]. P i) \<longleftrightarrow> (\<forall>i<n. P i)"
  by auto

lemma upto_bex: "(\<exists>i\<in>set [0..<n]. P i) \<longleftrightarrow> (\<exists>i<n. P i)"
  by auto

lemma distinct_remove1_mset: "x \<in> set xs \<Longrightarrow> mset (remove1 x xs) + {#x#} = mset xs"
  by simp

end
