(* ===== verification/Queue.thy ===== *)
theory Queue
  imports Prelude
begin

text \<open>
  What the queues of \<^verbatim>\<open>Simulator/utils/list.c\<close> mean to their clients: sequences. The sorted
  insertions of list.c are described by the place where they put the new element; the
  interfaces \<open>ordered_insert\<close> and \<open>stable_insert\<close> state what the ready queues and the event
  queue rely on, and every insertion of list.c is an instance. Theory \<open>ListHeap\<close> proves that
  the pointer code has exactly these sequence-level effects.
\<close>

section \<open>Sequence-level insertions\<close>

definition ins_before :: "('a \<Rightarrow> real) \<Rightarrow> (real \<Rightarrow> bool) \<Rightarrow> 'a \<Rightarrow> 'a list \<Rightarrow> 'a list" where
  "ins_before key P x xs = takeWhile (P \<circ> key) xs @ [x] @ dropWhile (P \<circ> key) xs"

definition ins_after_back :: "('a \<Rightarrow> real) \<Rightarrow> (real \<Rightarrow> bool) \<Rightarrow> 'a \<Rightarrow> 'a list \<Rightarrow> 'a list" where
  "ins_after_back key P x xs =
     rev (dropWhile (P \<circ> key) (rev xs)) @ [x] @ rev (takeWhile (P \<circ> key) (rev xs))"

text \<open>\<open>insert_queue\<close> and \<open>insert_event\<close>; \<open>insert_first_queue\<close>; \<open>insert_queue_from_back\<close>.\<close>

definition seq_insert :: "('a \<Rightarrow> real) \<Rightarrow> 'a \<Rightarrow> 'a list \<Rightarrow> 'a list" where
  "seq_insert key x xs = ins_before key (\<lambda>p. p \<le> key x) x xs"

definition seq_insert_first :: "('a \<Rightarrow> real) \<Rightarrow> 'a \<Rightarrow> 'a list \<Rightarrow> 'a list" where
  "seq_insert_first key x xs = ins_before key (\<lambda>p. p < key x) x xs"

definition seq_insert_back :: "('a \<Rightarrow> real) \<Rightarrow> 'a \<Rightarrow> 'a list \<Rightarrow> 'a list" where
  "seq_insert_back key x xs = ins_after_back key (\<lambda>p. p > key x) x xs"

lemma ins_before_simps [simp]:
  "ins_before key P x [] = [x]"
  "ins_before key P x (y # ys) = (if P (key y) then y # ins_before key P x ys else x # y # ys)"
  by (simp_all add: ins_before_def)

lemma mset_ins_before: "mset (ins_before key P x xs) = add_mset x (mset xs)"
  by (induction xs) auto

lemma set_ins_before [simp]: "set (ins_before key P x xs) = insert x (set xs)"
  by (metis mset_ins_before set_mset_add_mset_insert set_mset_mset)

lemma length_ins_before [simp]: "length (ins_before key P x xs) = Suc (length xs)"
  by (metis mset_ins_before size_add_mset size_mset)

lemma mset_ins_after_back: "mset (ins_after_back key P x xs) = add_mset x (mset xs)"
proof -
  have "mset (takeWhile (P \<circ> key) (rev xs)) + mset (dropWhile (P \<circ> key) (rev xs)) = mset (rev xs)"
    by (rule mset_take_drop_While)
  then show ?thesis
    by (simp add: ins_after_back_def union_commute)
qed

lemma sorted_ins_le: "sorted (map key xs) \<Longrightarrow> sorted (map key (ins_before key (\<lambda>p. p \<le> key x) x xs))"
  by (induction xs) (auto intro: order_trans)

lemma sorted_ins_less: "sorted (map key xs) \<Longrightarrow> sorted (map key (ins_before key (\<lambda>p. p < key x) x xs))"
  by (induction xs) (auto intro: order_trans)

text \<open>On a sorted sequence the insertion from the back finds the place of \<open>seq_insert\<close>.\<close>

lemma sorted_split_le:
  assumes "sorted (map key xs)"
  shows "\<exists>us vs. xs = us @ vs \<and> (\<forall>u \<in> set us. key u \<le> k) \<and> (\<forall>v \<in> set vs. k < key v)"
  using assms
proof (induction xs)
  case Nil
  then show ?case by simp
next
  case (Cons x xs)
  then obtain us vs where s: "xs = us @ vs" "\<forall>u \<in> set us. key u \<le> k" "\<forall>v \<in> set vs. k < key v"
    by auto
  show ?case
  proof (cases "key x \<le> k")
    case True
    with s show ?thesis by (intro exI [of _ "x # us"] exI [of _ vs]) auto
  next
    case False
    with Cons.prems have "\<forall>v \<in> set (x # xs). k < key v" by fastforce
    then show ?thesis by (intro exI [of _ "[]"] exI [of _ "x # xs"]) auto
  qed
qed

lemma takeWhile_dropWhile_split:
  assumes "\<forall>u \<in> set us. P u" and "\<forall>v \<in> set vs. \<not> P v"
  shows "takeWhile P (us @ vs) = us" and "dropWhile P (us @ vs) = vs"
  using assms by (induction us; cases vs; simp)+

lemma seq_insert_back_eq:
  assumes "sorted (map key xs)"
  shows "seq_insert_back key x xs = seq_insert key x xs"
proof -
  obtain us vs where s: "xs = us @ vs" "\<forall>u \<in> set us. key u \<le> key x" "\<forall>v \<in> set vs. key x < key v"
    using sorted_split_le [OF assms] by blast
  let ?P = "(\<lambda>p. p > key x) \<circ> key" and ?Q = "(\<lambda>p. p \<le> key x) \<circ> key"
  have "\<forall>u \<in> set us. ?Q u" "\<forall>v \<in> set vs. \<not> ?Q v"
    and "\<forall>v \<in> set (rev vs). ?P v" "\<forall>u \<in> set (rev us). \<not> ?P u"
    using s by auto
  note t = takeWhile_dropWhile_split [OF this(1,2)] takeWhile_dropWhile_split [OF this(3,4)]
  show ?thesis
    unfolding seq_insert_back_def seq_insert_def ins_before_def ins_after_back_def s(1) rev_append t
    by simp
qed

lemma seq_insert_sorted: "sorted (map key xs) \<Longrightarrow> sorted (map key (seq_insert key x xs))"
  by (simp add: seq_insert_def sorted_ins_le)

section \<open>What the clients rely on\<close>

locale ordered_insert =
  fixes key :: "'a \<Rightarrow> real"
    and ins :: "'a \<Rightarrow> 'a list \<Rightarrow> 'a list"
  assumes ins_mset: "sorted (map key q) \<Longrightarrow> mset (ins x q) = add_mset x (mset q)"
    and ins_sorted: "sorted (map key q) \<Longrightarrow> sorted (map key (ins x q))"
begin

lemma fold_sorted: "sorted (map key q) \<Longrightarrow> sorted (map key (fold ins xs q))"
  by (induction xs arbitrary: q) (auto intro: ins_sorted)

lemma fold_mset: "sorted (map key q) \<Longrightarrow> mset (fold ins xs q) = mset xs + mset q"
  by (induction xs arbitrary: q) (auto simp: ins_mset ins_sorted)

lemma set_ins: "sorted (map key q) \<Longrightarrow> set (ins x q) = insert x (set q)"
  by (metis ins_mset set_mset_add_mset_insert set_mset_mset)

lemma hd_minimal: "sorted (map key q) \<Longrightarrow> y \<in> set q \<Longrightarrow> key (hd q) \<le> key y"
  by (cases q) auto

lemma tl_sorted: "sorted (map key q) \<Longrightarrow> sorted (map key (tl q))"
  by (cases q) auto

end

locale stable_insert = ordered_insert +
  assumes ins_stable:
    "sorted (map key q) \<Longrightarrow>
     filter (\<lambda>y. key y = k) (ins x q) = filter (\<lambda>y. key y = k) q @ (if key x = k then [x] else [])"
begin

text \<open>Elements of equal order leave in the order of their arrival.\<close>

lemma fold_stable:
  "sorted (map key q) \<Longrightarrow>
   filter (\<lambda>y. key y = k) (fold ins xs q) = filter (\<lambda>y. key y = k) q @ filter (\<lambda>y. key y = k) xs"
  by (induction xs arbitrary: q) (auto simp: ins_stable ins_sorted)

end

lemma filter_ins_le:
  "sorted (map key xs) \<Longrightarrow>
   filter (\<lambda>y. key y = k) (ins_before key (\<lambda>p. p \<le> key x) x xs) =
   filter (\<lambda>y. key y = k) xs @ (if key x = k then [x] else [])"
proof (induction xs)
  case Nil
  then show ?case by simp
next
  case (Cons y ys)
  have "filter (\<lambda>z. key z = key x) (y # ys) = []" if "\<not> key y \<le> key x"
    using Cons.prems that by (fastforce simp: filter_empty_conv)
  with Cons show ?case by auto
qed

interpretation by_priority: stable_insert key "seq_insert key" for key :: "'a \<Rightarrow> real"
  by unfold_locales (simp_all add: seq_insert_def mset_ins_before sorted_ins_le filter_ins_le)

interpretation by_priority_first: ordered_insert key "seq_insert_first key" for key :: "'a \<Rightarrow> real"
  by unfold_locales (simp_all add: seq_insert_first_def mset_ins_before sorted_ins_less)

interpretation by_priority_back: stable_insert key "seq_insert_back key" for key :: "'a \<Rightarrow> real"
  by unfold_locales
    (simp_all add: seq_insert_back_eq seq_insert_def mset_ins_before sorted_ins_le filter_ins_le)

end
