(* ===== verification/ListHeap.thy ===== *)
theory ListHeap
  imports Queue
begin

text \<open>
  \<^verbatim>\<open>Simulator/utils/list.c\<close> at the level of its pointers: \<open>t_item\<close> cells in a heap, linked in
  both directions, and a \<open>t_queue\<close> with its \<open>first\<close>, \<open>last\<close> and \<open>curr\<close> pointers and its
  \<open>count\<close>. \<open>malloc\<close> is libc's: the address it returns is the argument \<open>new\<close> of the operation,
  and the lemmas assume that it is not in use. Its fields \<open>next\<close>, \<open>prev\<close> and the union
  \<open>order\<close> (a priority or a time, both \<open>double\<close>) start uninitialised; \<open>iorder = None\<close> says
  that the order of an item was never written, and comparing it is the fault \<open>Uninit\<close>. The
  content is a pointer, \<open>None\<close> for NULL (\<open>A_NIL\<close>).
\<close>

section \<open>Cells and queues\<close>

record 'c t_item =
  inext :: "addr option"
  iprev :: "addr option"
  iorder :: "real option"
  icontent :: "'c option"

record t_queue =
  qfirst :: "addr option"
  qlast :: "addr option"
  qcurr :: "addr option"
  qcount :: int

type_synonym 'c heap = "addr \<Rightarrow> 'c t_item option"
type_synonym 'c qstate = "'c heap \<times> t_queue"

definition rd :: "'c heap \<Rightarrow> addr option \<Rightarrow> 'c t_item run" where
  "rd h p = (case p of None \<Rightarrow> failR NullDeref
     | Some a \<Rightarrow> (case h a of None \<Rightarrow> failR Dangling | Some it \<Rightarrow> retR it))"

definition wr :: "'c heap \<Rightarrow> addr option \<Rightarrow> ('c t_item \<Rightarrow> 'c t_item) \<Rightarrow> 'c heap run" where
  "wr h p f = bindR (rd h p) (\<lambda>it. retR (h(the p \<mapsto> f it)))"

definition fresh_item :: "'c option \<Rightarrow> 'c t_item" where
  "fresh_item c = \<lparr>inext = None, iprev = None, iorder = None, icontent = c\<rparr>"

section \<open>Operations\<close>

definition create_queue :: t_queue where
  "create_queue = \<lparr>qfirst = None, qlast = None, qcurr = None, qcount = 0\<rparr>"

definition inFIFO_queue :: "'c heap \<Rightarrow> t_queue \<Rightarrow> addr \<Rightarrow> 'c option \<Rightarrow> 'c qstate run" where
  "inFIFO_queue h q new c =
     (let h1 = h(new \<mapsto> fresh_item c); tmp = qlast q; q1 = q\<lparr>qlast := Some new\<rparr> in
      case tmp of
        Some t \<Rightarrow> bindR (wr h1 tmp (\<lambda>it. it\<lparr>inext := Some new\<rparr>)) (\<lambda>h2.
                  bindR (wr h2 (Some new) (\<lambda>it. it\<lparr>iprev := Some t\<rparr>)) (\<lambda>h3.
                  retR (h3, q1\<lparr>qcount := qcount q1 + 1\<rparr>)))
      | None \<Rightarrow> retR (h1, q1\<lparr>qfirst := Some new, qcount := qcount q1 + 1\<rparr>))"

definition inLIFO_queue :: "'c heap \<Rightarrow> t_queue \<Rightarrow> addr \<Rightarrow> 'c option \<Rightarrow> 'c qstate run" where
  "inLIFO_queue h q new c =
     (let tmp = qfirst q; h1 = h(new \<mapsto> (fresh_item c)\<lparr>inext := tmp\<rparr>);
          q1 = q\<lparr>qfirst := Some new\<rparr> in
      case tmp of
        None \<Rightarrow> retR (h1, q1\<lparr>qlast := Some new, qcount := qcount q1 + 1\<rparr>)
      | Some t \<Rightarrow> bindR (wr h1 tmp (\<lambda>it. it\<lparr>iprev := Some new\<rparr>)) (\<lambda>h2.
                  retR (h2, q1\<lparr>qcount := qcount q1 + 1\<rparr>)))"

definition outFIFO_queue :: "'c heap \<Rightarrow> t_queue \<Rightarrow> ('c option \<times> 'c qstate) run" where
  "outFIFO_queue h q =
     (case qfirst q of
        None \<Rightarrow> retR (None, h, q)
      | Some e \<Rightarrow> bindR (rd h (Some e)) (\<lambda>it.
          let q1 = q\<lparr>qfirst := inext it\<rparr>;
              q2 = (if qlast q1 = Some e then q1\<lparr>qlast := None\<rparr> else q1) in
          bindR (if inext it \<noteq> None then wr h (inext it) (\<lambda>n. n\<lparr>iprev := None\<rparr>) else retR h) (\<lambda>h1.
          retR (icontent it, h1(e := None), q2\<lparr>qcount := qcount q2 - 1\<rparr>))))"

definition outLIFO_queue :: "'c heap \<Rightarrow> t_queue \<Rightarrow> ('c option \<times> 'c qstate) run" where
  "outLIFO_queue h q =
     (case qlast q of
        None \<Rightarrow> retR (None, h, q)
      | Some e \<Rightarrow> bindR (rd h (Some e)) (\<lambda>it.
          let q1 = q\<lparr>qlast := iprev it\<rparr>;
              q2 = (if qfirst q1 = Some e then q1\<lparr>qfirst := None\<rparr> else q1) in
          bindR (if iprev it \<noteq> None then wr h (iprev it) (\<lambda>n. n\<lparr>inext := None\<rparr>) else retR h) (\<lambda>h1.
          retR (icontent it, h1(e := None), q2\<lparr>qcount := qcount q2 - 1\<rparr>))))"

definition count_queue :: "t_queue \<Rightarrow> int" where
  "count_queue q = qcount q"

definition empty_queue :: "t_queue \<Rightarrow> bool" where
  "empty_queue q = (qcount q = 0)"

definition head_queue :: "'c heap \<Rightarrow> t_queue \<Rightarrow> ('c option \<times> t_queue) run" where
  "head_queue h q =
     (let e = qfirst q; q1 = q\<lparr>qcurr := e\<rparr> in
      if e = None then retR (None, q1)
      else bindR (rd h e) (\<lambda>it. retR (icontent it, q1)))"

definition next_queue :: "'c heap \<Rightarrow> t_queue \<Rightarrow> ('c option \<times> t_queue) run" where
  "next_queue h q =
     (if qcurr q = None then retR (None, q)
      else bindR (rd h (qcurr q)) (\<lambda>it.
        let e = inext it; q1 = q\<lparr>qcurr := e\<rparr> in
        if e = None then retR (None, q1)
        else bindR (rd h e) (\<lambda>it2. retR (icontent it2, q1))))"

definition tail_queue :: "'c heap \<Rightarrow> t_queue \<Rightarrow> ('c option \<times> t_queue) run" where
  "tail_queue h q =
     (let e = qlast q; q1 = q\<lparr>qcurr := e\<rparr> in
      if e = None then retR (None, q1)
      else bindR (rd h e) (\<lambda>it. retR (icontent it, q1)))"

text \<open>Unlike \<open>next_queue\<close>, \<open>prev_queue\<close> does not look whether the step reached NULL.\<close>

definition prev_queue :: "'c heap \<Rightarrow> t_queue \<Rightarrow> ('c option \<times> t_queue) run" where
  "prev_queue h q =
     (if qcurr q = None then retR (None, q)
      else bindR (rd h (qcurr q)) (\<lambda>it.
        let e = iprev it; q1 = q\<lparr>qcurr := e\<rparr> in
        bindR (rd h e) (\<lambda>it2. retR (icontent it2, q1))))"

text \<open>
  The three sorted insertions from the front share their loop and their splicing; they differ
  in the comparison that lets the loop go on. \<open>scan_fwd\<close> is the loop: it returns the final
  \<open>tmp2\<close> and \<open>tmp1\<close>.
\<close>

partial_function (option) scan_fwd ::
  "(real \<Rightarrow> bool) \<Rightarrow> 'c heap \<Rightarrow> addr option \<Rightarrow> addr \<Rightarrow> (addr option \<times> addr option) run" where
  "scan_fwd P h tmp2 tmp1 =
     (case h tmp1 of None \<Rightarrow> failR Dangling
      | Some it \<Rightarrow> (case iorder it of None \<Rightarrow> failR Uninit
        | Some p \<Rightarrow>
            if P p then (case inext it of None \<Rightarrow> retR (Some tmp1, None)
                         | Some n \<Rightarrow> scan_fwd P h (Some tmp1) n)
            else retR (tmp2, Some tmp1)))"

definition insert_fwd ::
  "(real \<Rightarrow> bool) \<Rightarrow> 'c heap \<Rightarrow> t_queue \<Rightarrow> addr \<Rightarrow> 'c option \<Rightarrow> real \<Rightarrow> 'c qstate run" where
  "insert_fwd P h q new c pr =
     (let h1 = h(new \<mapsto> (fresh_item c)\<lparr>iorder := Some pr\<rparr>) in
      case qfirst q of
        None \<Rightarrow> retR (h1, q\<lparr>qfirst := Some new, qlast := Some new, qcount := qcount q + 1\<rparr>)
      | Some f \<Rightarrow> bindR (scan_fwd P h1 None f) (\<lambda>(tmp2, tmp1).
          if tmp2 = None then
            bindR (wr h1 (Some new) (\<lambda>it. it\<lparr>inext := tmp1\<rparr>)) (\<lambda>h2.
            bindR (wr h2 tmp1 (\<lambda>it. it\<lparr>iprev := Some new\<rparr>)) (\<lambda>h3.
            retR (h3, q\<lparr>qfirst := Some new, qcount := qcount q + 1\<rparr>)))
          else
            bindR (wr h1 tmp2 (\<lambda>it. it\<lparr>inext := Some new\<rparr>)) (\<lambda>h2.
            bindR (wr h2 (Some new) (\<lambda>it. it\<lparr>iprev := tmp2, inext := tmp1\<rparr>)) (\<lambda>h3.
            if tmp1 = None then retR (h3, q\<lparr>qlast := Some new, qcount := qcount q + 1\<rparr>)
            else bindR (wr h3 tmp1 (\<lambda>it. it\<lparr>iprev := Some new\<rparr>)) (\<lambda>h4.
                 retR (h4, q\<lparr>qcount := qcount q + 1\<rparr>))))))"

definition insert_queue :: "'c heap \<Rightarrow> t_queue \<Rightarrow> addr \<Rightarrow> 'c option \<Rightarrow> prio \<Rightarrow> 'c qstate run" where
  "insert_queue h q new c pr = insert_fwd (\<lambda>p. p \<le> pr) h q new c pr"

definition insert_first_queue ::
  "'c heap \<Rightarrow> t_queue \<Rightarrow> addr \<Rightarrow> 'c option \<Rightarrow> prio \<Rightarrow> 'c qstate run" where
  "insert_first_queue h q new c pr = insert_fwd (\<lambda>p. p < pr) h q new c pr"

definition insert_event ::
  "('c \<Rightarrow> timer) \<Rightarrow> 'c heap \<Rightarrow> t_queue \<Rightarrow> addr \<Rightarrow> 'c \<Rightarrow> 'c qstate run" where
  "insert_event event_time h q new e =
     insert_fwd (\<lambda>p. p \<le> event_time e) h q new (Some e) (event_time e)"

partial_function (option) scan_bwd ::
  "(real \<Rightarrow> bool) \<Rightarrow> 'c heap \<Rightarrow> addr option \<Rightarrow> addr \<Rightarrow> (addr option \<times> addr option) run" where
  "scan_bwd P h tmp2 tmp1 =
     (case h tmp1 of None \<Rightarrow> failR Dangling
      | Some it \<Rightarrow> (case iorder it of None \<Rightarrow> failR Uninit
        | Some p \<Rightarrow>
            if P p then (case iprev it of None \<Rightarrow> retR (Some tmp1, None)
                         | Some n \<Rightarrow> scan_bwd P h (Some tmp1) n)
            else retR (tmp2, Some tmp1)))"

definition insert_queue_from_back ::
  "'c heap \<Rightarrow> t_queue \<Rightarrow> addr \<Rightarrow> 'c option \<Rightarrow> prio \<Rightarrow> 'c qstate run" where
  "insert_queue_from_back h q new c pr =
     (let h1 = h(new \<mapsto> (fresh_item c)\<lparr>iorder := Some pr\<rparr>) in
      case qlast q of
        None \<Rightarrow> retR (h1, q\<lparr>qfirst := Some new, qlast := Some new, qcount := qcount q + 1\<rparr>)
      | Some l \<Rightarrow> bindR (scan_bwd (\<lambda>p. p > pr) h1 None l) (\<lambda>(tmp2, tmp1).
          if tmp2 = None then
            bindR (wr h1 tmp1 (\<lambda>it. it\<lparr>inext := Some new\<rparr>)) (\<lambda>h2.
            bindR (wr h2 (Some new) (\<lambda>it. it\<lparr>iprev := tmp1\<rparr>)) (\<lambda>h3.
            retR (h3, q\<lparr>qlast := Some new, qcount := qcount q + 1\<rparr>)))
          else
            bindR (wr h1 tmp2 (\<lambda>it. it\<lparr>iprev := Some new\<rparr>)) (\<lambda>h2.
            bindR (wr h2 (Some new) (\<lambda>it. it\<lparr>inext := tmp2, iprev := tmp1\<rparr>)) (\<lambda>h3.
            if tmp1 = None then retR (h3, q\<lparr>qfirst := Some new, qcount := qcount q + 1\<rparr>)
            else bindR (wr h3 tmp1 (\<lambda>it. it\<lparr>inext := Some new\<rparr>)) (\<lambda>h4.
                 retR (h4, q\<lparr>qcount := qcount q + 1\<rparr>))))))"

partial_function (option) query_from :: "'c heap \<Rightarrow> prio \<Rightarrow> addr option \<Rightarrow> 'c option run" where
  "query_from h pr e =
     (case e of None \<Rightarrow> retR None
      | Some a \<Rightarrow> (case h a of None \<Rightarrow> failR Dangling
        | Some it \<Rightarrow> (case iorder it of None \<Rightarrow> failR Uninit
          | Some p \<Rightarrow> if p = pr then retR (icontent it) else query_from h pr (inext it))))"

definition query_prio_queue :: "'c heap \<Rightarrow> t_queue \<Rightarrow> prio \<Rightarrow> 'c option run" where
  "query_prio_queue h q pr = query_from h pr (qfirst q)"

partial_function (option) scan_content ::
  "'c heap \<Rightarrow> 'c option \<Rightarrow> addr option \<Rightarrow> addr \<Rightarrow> (addr option \<times> addr) run" where
  "scan_content h c tmp2 tmp1 =
     (case h tmp1 of None \<Rightarrow> failR Dangling
      | Some it \<Rightarrow>
          if icontent it \<noteq> c then
            (case inext it of
               None \<Rightarrow> failR (Panic ''extract_from_queue: element not found'')
             | Some n \<Rightarrow> scan_content h c (Some tmp1) n)
          else retR (tmp2, tmp1))"

definition extract_from_queue :: "'c heap \<Rightarrow> t_queue \<Rightarrow> 'c option \<Rightarrow> 'c qstate run" where
  "extract_from_queue h q c =
     (case qfirst q of
        None \<Rightarrow> failR (Panic ''extract_from_queue: element not found'')
      | Some f \<Rightarrow> bindR (scan_content h c None f) (\<lambda>(tmp2, tmp1).
          bindR (rd h (Some tmp1)) (\<lambda>it.
          bindR (if tmp2 = None then
                   (let q1 = q\<lparr>qfirst := inext it\<rparr> in
                    if inext it \<noteq> None
                    then bindR (wr h (inext it) (\<lambda>n. n\<lparr>iprev := None\<rparr>)) (\<lambda>h1. retR (h1, q1))
                    else retR (h, q1\<lparr>qlast := None\<rparr>))
                 else if inext it \<noteq> None then
                   bindR (wr h tmp2 (\<lambda>n. n\<lparr>inext := inext it\<rparr>)) (\<lambda>h1.
                   bindR (wr h1 (inext it) (\<lambda>n. n\<lparr>iprev := tmp2\<rparr>)) (\<lambda>h2. retR (h2, q)))
                 else
                   bindR (wr h tmp2 (\<lambda>n. n\<lparr>inext := None\<rparr>)) (\<lambda>h1. retR (h1, q\<lparr>qlast := tmp2\<rparr>)))
            (\<lambda>(h', q').
               let q2 = (if Some tmp1 = qcurr q' then q'\<lparr>qcurr := tmp2\<rparr> else q') in
               retR (h'(tmp1 := None), q2\<lparr>qcount := qcount q2 - 1\<rparr>)))))"

definition create_event :: t_queue where
  "create_event = \<lparr>qfirst = None, qlast = None, qcurr = None, qcount = 0\<rparr>"

definition top_event :: "'c heap \<Rightarrow> t_queue \<Rightarrow> 'c option run" where
  "top_event h q =
     (if qcount q = 0 then retR None else bindR (rd h (qfirst q)) (\<lambda>it. retR (icontent it)))"

definition empty_event :: "'c heap \<Rightarrow> t_queue \<Rightarrow> bool run" where
  "empty_event h q = bindR (top_event h q) (\<lambda>e. retR (e = None))"

definition outFIFO_event :: "'c heap \<Rightarrow> t_queue \<Rightarrow> ('c option \<times> 'c qstate) run" where
  "outFIFO_event h q =
     (case qfirst q of
        None \<Rightarrow> retR (None, h, q)
      | Some e \<Rightarrow> bindR (rd h (Some e)) (\<lambda>it.
          let q1 = q\<lparr>qfirst := inext it\<rparr> in
          bindR (if inext it \<noteq> None then wr h (inext it) (\<lambda>n. n\<lparr>iprev := None\<rparr>) else retR h) (\<lambda>h1.
          let q2 = q1\<lparr>qcount := qcount q1 - 1\<rparr>;
              q3 = (if qlast q2 = Some e then q2\<lparr>qlast := None\<rparr> else q2) in
          retR (icontent it, h1(e := None), q3))))"

definition head_event :: "'c heap \<Rightarrow> t_queue \<Rightarrow> ('c option \<times> t_queue) run" where
  "head_event h q =
     (let e = qfirst q; q1 = q\<lparr>qcurr := e\<rparr> in
      if e = None then retR (None, q1)
      else bindR (rd h e) (\<lambda>it. retR (icontent it, q1)))"

definition next_event :: "'c heap \<Rightarrow> t_queue \<Rightarrow> ('c option \<times> t_queue) run" where
  "next_event h q =
     (if qcurr q = None then retR (None, q)
      else bindR (rd h (qcurr q)) (\<lambda>it.
        let e = inext it; q1 = q\<lparr>qcurr := e\<rparr> in
        if e = None then retR (None, q1)
        else bindR (rd h e) (\<lambda>it2. retR (icontent it2, q1))))"

definition new_queue_accounter :: t_queue where
  "new_queue_accounter = create_queue"

text \<open>
  \<open>drain\<close> is the loop \<open>while ((element = outFIFO_queue(queue)) != NULL)\<close> of the two
  \<open>remove_queue_...\<close> functions; it collects the contents it took out, in order. The first
  function frees each of them, the second hands those that are no original thread to
  \<open>delete_duplicate_thread\<close>: both lists are part of the result.
\<close>

partial_function (option) drain :: "'c heap \<Rightarrow> t_queue \<Rightarrow> 'c list \<Rightarrow> ('c list \<times> 'c qstate) run" where
  "drain h q acc =
     (case outFIFO_queue h q of
        None \<Rightarrow> None
      | Some (Inl e) \<Rightarrow> Some (Inl e)
      | Some (Inr (r, h', q')) \<Rightarrow>
          (case r of None \<Rightarrow> retR (acc, h', q') | Some c \<Rightarrow> drain h' q' (acc @ [c])))"

definition remove_queue_elements :: "'c heap \<Rightarrow> t_queue \<Rightarrow> ('c list \<times> 'c qstate) run" where
  "remove_queue_elements h q =
     (if qcount q = 0 then retR ([], h, q)
      else bindR (drain h q []) (\<lambda>(freed, h1, q1).
        let q2 = q1\<lparr>qfirst := None, qlast := None, qcurr := None\<rparr> in
        if qcount q2 = 0 then retR (freed, h1, q2) else failR AssertFailed))"

definition remove_queue_threads ::
  "('c \<Rightarrow> bool) \<Rightarrow> 'c heap \<Rightarrow> t_queue \<Rightarrow> ('c list \<times> 'c qstate) run" where
  "remove_queue_threads original_thread h q =
     (if qcount q = 0 then retR ([], h, q)
      else bindR (drain h q []) (\<lambda>(ths, h1, q1).
        let q2 = q1\<lparr>qfirst := None, qlast := None, qcurr := None\<rparr> in
        if qcount q2 = 0 then retR (filter (\<lambda>th. \<not> original_thread th) ths, h1, q2)
        else failR AssertFailed))"

text \<open>
  \<open>move_queue_elements\<close> allocates one cell per element; \<open>news\<close> are the addresses the
  successive calls of \<open>malloc\<close> return (an exhausted supply is a \<open>malloc\<close> that returned NULL,
  which \<open>inFIFO_queue\<close> dereferences).
\<close>

partial_function (option) move_queue_elements ::
  "'c heap \<Rightarrow> t_queue \<Rightarrow> t_queue \<Rightarrow> addr list \<Rightarrow> ('c heap \<times> t_queue \<times> t_queue) run" where
  "move_queue_elements h frm to news =
     (if qcount frm > 0 then
        (case outFIFO_queue h frm of
           None \<Rightarrow> None
         | Some (Inl e) \<Rightarrow> Some (Inl e)
         | Some (Inr (r, h1, frm')) \<Rightarrow>
             (case news of
                [] \<Rightarrow> failR NullDeref
              | new # news' \<Rightarrow>
                  (case inFIFO_queue h1 to new r of
                     None \<Rightarrow> None
                   | Some (Inl e) \<Rightarrow> Some (Inl e)
                   | Some (Inr (h2, to')) \<Rightarrow> move_queue_elements h2 frm' to' news')))
      else retR (h, frm, to))"

text \<open>
  The same loop when both arguments are one queue, as in the call
  \<open>move_queue_elements(&task->busy_out_links, &task->busy_out_links)\<close> of
  \<open>SIMULATOR_reset_state\<close> (model/simulator.c). \<open>malloc\<close> gives, for the current heap, the
  address of the next cell.
\<close>

partial_function (option) move_queue_to_itself ::
  "('c heap \<Rightarrow> addr) \<Rightarrow> 'c heap \<Rightarrow> t_queue \<Rightarrow> 'c qstate run" where
  "move_queue_to_itself malloc h q =
     (if qcount q > 0 then
        (case outFIFO_queue h q of
           None \<Rightarrow> None
         | Some (Inl e) \<Rightarrow> Some (Inl e)
         | Some (Inr (r, h1, q1)) \<Rightarrow>
             (case inFIFO_queue h1 q1 (malloc h1) r of
                None \<Rightarrow> None
              | Some (Inl e) \<Rightarrow> Some (Inl e)
              | Some (Inr (h2, q2)) \<Rightarrow> move_queue_to_itself malloc h2 q2))
      else retR (h, q))"

section \<open>Representation\<close>

text \<open>
  \<open>dls h p as n\<close>: the cells at \<open>as\<close> are allocated and doubly linked in this order, the first
  one pointing back to \<open>p\<close> and the last one forward to \<open>n\<close>. \<open>qrep h q as\<close>: the queue \<open>q\<close>
  consists of exactly these cells.
\<close>

fun dls :: "'c heap \<Rightarrow> addr option \<Rightarrow> addr list \<Rightarrow> addr option \<Rightarrow> bool" where
  "dls h p [] n = True"
| "dls h p (a # as) n =
     (\<exists>it. h a = Some it \<and> iprev it = p \<and> inext it = hdo as n \<and> dls h (Some a) as n)"

definition qrep :: "'c heap \<Rightarrow> t_queue \<Rightarrow> addr list \<Rightarrow> bool" where
  "qrep h q as \<longleftrightarrow> distinct as \<and> dls h None as None \<and> qfirst q = hdo as None
     \<and> qlast q = lasto as None \<and> qcount q = int (length as)"

definition item_at :: "'c heap \<Rightarrow> addr \<Rightarrow> real option \<times> 'c option" where
  "item_at h a = (case h a of None \<Rightarrow> (None, None) | Some it \<Rightarrow> (iorder it, icontent it))"

definition items :: "'c heap \<Rightarrow> addr list \<Rightarrow> (real option \<times> 'c option) list" where
  "items h as = map (item_at h) as"

definition conts :: "'c heap \<Rightarrow> addr list \<Rightarrow> 'c option list" where
  "conts h as = map (snd \<circ> item_at h) as"

lemma dls_append: "dls h p (xs @ ys) n \<longleftrightarrow> dls h p xs (hdo ys n) \<and> dls h (lasto xs p) ys n"
  by (induction xs arbitrary: p) auto

lemma dls_frame [simp]: "a \<notin> set xs \<Longrightarrow> dls (h(a := v)) p xs n = dls h p xs n"
  by (induction xs arbitrary: p) auto

lemma dls_alloc: "dls h p xs n \<Longrightarrow> a \<in> set xs \<Longrightarrow> \<exists>it. h a = Some it"
  by (induction xs arbitrary: p) auto

lemma dls_notin: "dls h p xs n \<Longrightarrow> h a = None \<Longrightarrow> a \<notin> set xs"
  using dls_alloc by fastforce

lemma dls_relink_last:
  "dls h p (xs @ [z]) n \<Longrightarrow> z \<notin> set xs \<Longrightarrow> h z = Some it \<Longrightarrow>
   dls (h(z \<mapsto> it\<lparr>inext := m\<rparr>)) p (xs @ [z]) m"
  by (auto simp: dls_append)

lemma dls_relink_first:
  "dls h p (y # ys) n \<Longrightarrow> y \<notin> set ys \<Longrightarrow> h y = Some it \<Longrightarrow>
   dls (h(y \<mapsto> it\<lparr>iprev := m\<rparr>)) m (y # ys) n"
  by auto

lemma dls_cong: "dls h p xs n \<Longrightarrow> (\<And>a. a \<in> set xs \<Longrightarrow> h' a = h a) \<Longrightarrow> dls h' p xs n"
  by (induction xs arbitrary: p) auto

lemma items_frame [simp]: "a \<notin> set xs \<Longrightarrow> items (h(a := v)) xs = items h xs"
  by (auto simp: items_def item_at_def)

lemma item_at_frame [simp]: "a \<noteq> b \<Longrightarrow> item_at (h(b := v)) a = item_at h a"
  by (simp add: item_at_def)

lemma item_at_upd [simp]: "item_at (h(a \<mapsto> it)) a = (iorder it, icontent it)"
  by (simp add: item_at_def)

lemma item_at_link [simp]:
  "h z = Some it \<Longrightarrow> item_at (h(z \<mapsto> it\<lparr>inext := m\<rparr>)) = item_at h"
  "h z = Some it \<Longrightarrow> item_at (h(z \<mapsto> it\<lparr>iprev := m\<rparr>)) = item_at h"
  by (auto simp: item_at_def fun_eq_iff)

lemma items_Nil [simp]: "items h [] = []"
  and items_Cons [simp]: "items h (a # as) = item_at h a # items h as"
  and items_append [simp]: "items h (as @ bs) = items h as @ items h bs"
  by (simp_all add: items_def)

lemma length_items [simp]: "length (items h as) = length as"
  by (simp add: items_def)

lemma rd_Some [simp]: "h a = Some it \<Longrightarrow> rd h (Some a) = retR it"
  by (simp add: rd_def)

lemma rd_None [simp]: "rd h None = failR NullDeref"
  by (simp add: rd_def)

lemma wr_Some [simp]: "h a = Some it \<Longrightarrow> wr h (Some a) f = retR (h(a \<mapsto> f it))"
  by (simp add: wr_def)

lemma fresh_item_sel [simp]:
  "inext (fresh_item c) = None" "iprev (fresh_item c) = None"
  "iorder (fresh_item c) = None" "icontent (fresh_item c) = c"
  by (simp_all add: fresh_item_def)

lemma qrep_cong:
  assumes "qrep h q as" and "\<And>a. a \<in> set as \<Longrightarrow> h' a = h a"
  shows "qrep h' q as" and "items h' as = items h as"
  using assms by (auto simp: qrep_def items_def item_at_def intro: dls_cong)

lemma qrep_notin: "qrep h q as \<Longrightarrow> h a = None \<Longrightarrow> a \<notin> set as"
  by (auto simp: qrep_def dest: dls_notin)

section \<open>The queue at both ends\<close>

lemma inFIFO_queue_refines:
  assumes q: "qrep h q as" and new: "h new = None"
  shows "\<exists>h' q'. inFIFO_queue h q new c = retR (h', q') \<and> qrep h' q' (as @ [new])
    \<and> items h' (as @ [new]) = items h as @ [(None, c)] \<and> qcurr q' = qcurr q
    \<and> (\<forall>a. a \<notin> set as \<and> a \<noteq> new \<longrightarrow> h' a = h a)"
proof (cases as rule: rev_cases)
  case Nil
  with q show ?thesis
    by (auto simp: inFIFO_queue_def qrep_def item_at_def)
next
  case (snoc xs z)
  from q new have notin: "new \<notin> set as" by (auto simp: qrep_def dest: dls_notin)
  from q snoc have d: "dls h None (xs @ [z]) None" and dist: "distinct (xs @ [z])"
    by (auto simp: qrep_def)
  then obtain it where it: "h z = Some it" by (auto simp: dls_append)
  from notin snoc have nz: "new \<noteq> z" "new \<notin> set xs" by auto
  show ?thesis
    using q it nz dist snoc
    by (auto simp: inFIFO_queue_def qrep_def dls_append Let_def item_at_def items_def)
qed

lemma inLIFO_queue_refines:
  assumes q: "qrep h q as" and new: "h new = None"
  shows "\<exists>h' q'. inLIFO_queue h q new c = retR (h', q') \<and> qrep h' q' (new # as)
    \<and> items h' (new # as) = (None, c) # items h as \<and> qcurr q' = qcurr q
    \<and> (\<forall>a. a \<notin> set as \<and> a \<noteq> new \<longrightarrow> h' a = h a)"
proof (cases as)
  case Nil
  with q show ?thesis
    by (auto simp: inLIFO_queue_def qrep_def item_at_def)
next
  case (Cons y ys)
  from q new have notin: "new \<notin> set as" by (auto simp: qrep_def dest: dls_notin)
  from q Cons obtain it where it: "h y = Some it" by (auto simp: qrep_def)
  show ?thesis
    using q it notin Cons
    by (auto simp: inLIFO_queue_def qrep_def Let_def item_at_def items_def)
qed

lemma outFIFO_queue_empty: "qrep h q [] \<Longrightarrow> outFIFO_queue h q = retR (None, h, q)"
  by (simp add: outFIFO_queue_def qrep_def)

lemma outFIFO_queue_refines:
  assumes q: "qrep h q (a # as)"
  shows "\<exists>h' q'. outFIFO_queue h q = retR (snd (item_at h a), h', q') \<and> qrep h' q' as
    \<and> items h' as = items h as \<and> qcurr q' = qcurr q \<and> h' a = None
    \<and> (\<forall>b. b \<notin> set (a # as) \<longrightarrow> h' b = h b)"
proof (cases as)
  case Nil
  with q show ?thesis
    by (auto simp: outFIFO_queue_def qrep_def item_at_def Let_def)
next
  case (Cons y ys)
  from q Cons obtain it it2 where it: "h a = Some it" "h y = Some it2" "inext it = Some y"
    by (auto simp: qrep_def)
  from q Cons have dist: "a \<noteq> y" "a \<notin> set ys" "y \<notin> set ys" "last (y # ys) \<noteq> a"
    by (auto simp: qrep_def)
  have "h(a := None, y \<mapsto> it2\<lparr>iprev := None\<rparr>) = h(y \<mapsto> it2\<lparr>iprev := None\<rparr>, a := None)"
    using dist by auto
  then show ?thesis
    using q it dist Cons
    by (auto simp: outFIFO_queue_def qrep_def Let_def item_at_def items_def lasto_def split: if_splits)
qed

lemma outLIFO_queue_empty: "qrep h q [] \<Longrightarrow> outLIFO_queue h q = retR (None, h, q)"
  by (simp add: outLIFO_queue_def qrep_def)

lemma outLIFO_queue_refines:
  assumes q: "qrep h q (as @ [a])"
  shows "\<exists>h' q'. outLIFO_queue h q = retR (snd (item_at h a), h', q') \<and> qrep h' q' as
    \<and> items h' as = items h as \<and> qcurr q' = qcurr q \<and> h' a = None
    \<and> (\<forall>b. b \<notin> set (as @ [a]) \<longrightarrow> h' b = h b)"
proof (cases as rule: rev_cases)
  case Nil
  with q show ?thesis
    by (auto simp: outLIFO_queue_def qrep_def item_at_def Let_def)
next
  case (snoc xs z)
  from q snoc obtain it it2 where it: "h a = Some it" "h z = Some it2" "iprev it = Some z"
    by (auto simp: qrep_def dls_append)
  from q snoc have dist: "a \<noteq> z" "a \<notin> set xs" "z \<notin> set xs"
    by (auto simp: qrep_def)
  have hd: "hdo xs (Some z) \<noteq> Some a"
    using dist by (cases xs) auto
  show ?thesis
    using q it dist snoc hd
    by (auto simp: outLIFO_queue_def qrep_def Let_def item_at_def items_def dls_append split: if_splits)
qed

section \<open>Sorted insertion\<close>

text \<open>The order of an item that has one, as the sequence-level insertions read it.\<close>

definition ikey :: "real option \<times> 'c \<Rightarrow> real" where
  "ikey x = the (fst x)"

definition keyed :: "(real option \<times> 'c) list \<Rightarrow> bool" where
  "keyed xs \<longleftrightarrow> (\<forall>x \<in> set xs. fst x \<noteq> None)"

lemma keyed_simps [simp]:
  "keyed []" "keyed (x # xs) \<longleftrightarrow> fst x \<noteq> None \<and> keyed xs"
  "keyed (xs @ ys) \<longleftrightarrow> keyed xs \<and> keyed ys"
  by (auto simp: keyed_def)

abbreviation okey :: "'c heap \<Rightarrow> addr \<Rightarrow> real" where
  "okey h a \<equiv> ikey (item_at h a)"

lemma scan_fwd_eq:
  assumes "dls h p (a # as) None" and "keyed (items h (a # as))"
  shows "scan_fwd P h tmp2 a =
    retR (lasto (takeWhile (\<lambda>b. P (okey h b)) (a # as)) tmp2, hdo (dropWhile (\<lambda>b. P (okey h b)) (a # as)) None)"
  using assms
proof (induction as arbitrary: a p tmp2)
  case Nil
  then show ?case
    by (subst scan_fwd.simps) (auto simp: item_at_def ikey_def)
next
  case (Cons b as)
  from Cons.prems obtain it where it: "h a = Some it" "inext it = Some b" "iorder it = Some (okey h a)"
    by (auto simp: item_at_def ikey_def)
  have IH: "scan_fwd P h (Some a) b =
    retR (lasto (takeWhile (\<lambda>b. P (okey h b)) (b # as)) (Some a), hdo (dropWhile (\<lambda>b. P (okey h b)) (b # as)) None)"
    using Cons.prems by (intro Cons.IH [where p = "Some a"]) auto
  show ?case
    by (subst scan_fwd.simps) (simp add: it IH)
qed

lemma scan_bwd_eq:
  assumes "dls h None (as @ [a]) n" and "keyed (items h (as @ [a]))"
  shows "scan_bwd P h tmp2 a =
    retR (hdo (rev (takeWhile (\<lambda>b. P (okey h b)) (a # rev as))) tmp2, hdo (dropWhile (\<lambda>b. P (okey h b)) (a # rev as)) None)"
  using assms
proof (induction as arbitrary: a n tmp2 rule: rev_induct)
  case Nil
  then show ?case
    by (subst scan_bwd.simps) (auto simp: item_at_def ikey_def)
next
  case (snoc b as)
  from snoc.prems obtain it where it: "h a = Some it" "iprev it = Some b" "iorder it = Some (okey h a)"
    by (auto simp: item_at_def ikey_def dls_append)
  have IH: "scan_bwd P h (Some a) b =
    retR (hdo (rev (takeWhile (\<lambda>b. P (okey h b)) (b # rev as))) (Some a), hdo (dropWhile (\<lambda>b. P (okey h b)) (b # rev as)) None)"
    using snoc.prems by (intro snoc.IH [where n = "Some a"]) (auto simp: dls_append)
  show ?case
    by (subst scan_bwd.simps) (simp add: it IH)
qed

text \<open>The heap after a splice between \<open>xs\<close> and \<open>ys\<close>, and what it represents.\<close>

definition set_next :: "addr option \<Rightarrow> addr option \<Rightarrow> 'c heap \<Rightarrow> 'c heap" where
  "set_next p m h = (case p of None \<Rightarrow> h | Some a \<Rightarrow> h(a \<mapsto> (the (h a))\<lparr>inext := m\<rparr>))"

definition set_prev :: "addr option \<Rightarrow> addr option \<Rightarrow> 'c heap \<Rightarrow> 'c heap" where
  "set_prev p m h = (case p of None \<Rightarrow> h | Some a \<Rightarrow> h(a \<mapsto> (the (h a))\<lparr>iprev := m\<rparr>))"

lemma splice_dls:
  assumes d: "dls h None (xs @ ys) None" and dist: "distinct (xs @ ys)" and new: "h new = None"
    and h': "h' = set_prev (hdo ys None) (Some new)
       ((set_next (lasto xs None) (Some new) h)(new \<mapsto> N\<lparr>iprev := lasto xs None, inext := hdo ys None\<rparr>))"
  shows "dls h' None (xs @ [new] @ ys) None \<and> distinct (xs @ [new] @ ys)
    \<and> items h' (xs @ [new] @ ys) = items h xs @ [(iorder N, icontent N)] @ items h ys
    \<and> (\<forall>a. a \<notin> set (xs @ ys) \<and> a \<noteq> new \<longrightarrow> h' a = h a)"
proof -
  have notin: "new \<notin> set (xs @ ys)" using d new by (auto dest: dls_notin)
  show ?thesis
  proof (cases xs rule: rev_cases)
    case Nil
    note xs = this
    show ?thesis
      using d dist notin unfolding h' xs
      by (cases ys) (auto simp: set_prev_def set_next_def item_at_def items_def)
  next
    case (snoc us u)
    note xs = this
    from d obtain it where it: "h u = Some it" by (auto simp: xs dls_append)
    show ?thesis
      using d dist notin it unfolding h' xs
      by (cases ys) (auto simp: set_prev_def set_next_def item_at_def items_def dls_append)
  qed
qed

lemma insert_fwd_refines:
  fixes P :: "real \<Rightarrow> bool" and h :: "'c heap"
  defines "Q \<equiv> \<lambda>b. P (okey h b)"
  assumes q: "qrep h q as" and new: "h new = None" and k: "keyed (items h as)"
  shows "\<exists>h' q'. insert_fwd P h q new c pr = retR (h', q')
    \<and> qrep h' q' (takeWhile Q as @ [new] @ dropWhile Q as)
    \<and> items h' (takeWhile Q as @ [new] @ dropWhile Q as) =
        items h (takeWhile Q as) @ [(Some pr, c)] @ items h (dropWhile Q as)
    \<and> qcurr q' = qcurr q \<and> (\<forall>a. a \<notin> set as \<and> a \<noteq> new \<longrightarrow> h' a = h a)"
proof (cases as)
  case Nil
  with q show ?thesis
    by (auto simp: insert_fwd_def qrep_def item_at_def)
next
  case (Cons f fs)
  define h1 where "h1 = h(new \<mapsto> (fresh_item c)\<lparr>iorder := Some pr\<rparr>)"
  define xs where "xs = takeWhile Q as"
  define ys where "ys = dropWhile Q as"
  have asxy: "as = xs @ ys" by (simp add: xs_def ys_def)
  from q new have notin: "new \<notin> set as" by (auto simp: qrep_def dest: dls_notin)
  from q have d: "dls h None as None" and dist: "distinct as" by (auto simp: qrep_def)
  have Qh1: "(\<lambda>b. P (okey h1 b)) b = Q b" if "b \<in> set as" for b
    using that notin by (auto simp: h1_def Q_def item_at_def)
  have tw: "takeWhile (\<lambda>b. P (okey h1 b)) as = xs" "dropWhile (\<lambda>b. P (okey h1 b)) as = ys"
    unfolding xs_def ys_def by (rule takeWhile_cong dropWhile_cong; use Qh1 in simp)+
  have d1: "dls h1 None (f # fs) None" and k1: "keyed (items h1 (f # fs))"
    using d k notin unfolding h1_def Cons by simp_all
  have scan: "scan_fwd P h1 None f = retR (lasto xs None, hdo ys None)"
    using scan_fwd_eq [OF d1 k1, of P None] unfolding Cons [symmetric] tw .
  let ?N = "(fresh_item c)\<lparr>iorder := Some pr\<rparr>"
  note sp = splice_dls [OF d [unfolded asxy] dist [unfolded asxy] new refl, of ?N]
  have qf: "qfirst q = Some f" using q Cons by (simp add: qrep_def)
  show ?thesis
  proof (cases xs rule: rev_cases)
    case Nil
    then obtain y zs where ys: "ys = y # zs" "as = y # zs" using asxy Cons by (cases ys) auto
    from d ys obtain it where it: "h y = Some it" "iprev it = None" by auto
    show ?thesis
      using sp scan it notin q
      unfolding insert_fwd_def Let_def qf h1_def [symmetric] xs_def [symmetric] ys_def [symmetric]
      by (auto simp: Nil ys h1_def set_prev_def set_next_def qrep_def fun_upd_twist)
  next
    case (snoc us u)
    from d asxy snoc obtain it where it: "h u = Some it" by (auto simp: dls_append)
    have nu: "new \<noteq> u" using notin asxy snoc by auto
    show ?thesis
    proof (cases ys)
      case Nil
      show ?thesis
        using sp scan it notin q nu
        unfolding insert_fwd_def Let_def qf h1_def [symmetric] xs_def [symmetric] ys_def [symmetric]
        by (auto simp: Nil snoc asxy h1_def set_prev_def set_next_def qrep_def fun_upd_twist fresh_item_def)
    next
      case (Cons y zs)
      from d asxy snoc Cons obtain it2 where it2: "h y = Some it2" by (auto simp: dls_append)
      have ny: "new \<noteq> y" "u \<noteq> y" using notin asxy snoc Cons dist by auto
      show ?thesis
        using sp scan it it2 notin q nu ny
        unfolding insert_fwd_def Let_def qf h1_def [symmetric] xs_def [symmetric] ys_def [symmetric]
        by (auto simp: Cons snoc asxy h1_def set_prev_def set_next_def qrep_def fun_upd_twist fresh_item_def)
    qed
  qed
qed

lemma takeWhile_items: "items h (takeWhile (\<lambda>b. P (okey h b)) as) = takeWhile (P \<circ> ikey) (items h as)"
  by (induction as) auto

lemma dropWhile_items: "items h (dropWhile (\<lambda>b. P (okey h b)) as) = dropWhile (P \<circ> ikey) (items h as)"
  by (induction as) auto

text \<open>
  The result of an operation that returns, keeps the rest of the heap and the cursor, and
  leaves the queue representing the given items.
\<close>

definition becomes :: "'c heap \<Rightarrow> t_queue \<Rightarrow> addr list \<Rightarrow> 'c qstate run \<Rightarrow> (real option \<times> 'c option) list \<Rightarrow> addr list \<Rightarrow> bool" where
  "becomes h q dirty r its as' \<longleftrightarrow> (\<exists>h' q'. r = retR (h', q') \<and> qrep h' q' as' \<and> items h' as' = its
     \<and> qcurr q' = qcurr q \<and> (\<forall>a. a \<notin> set dirty \<longrightarrow> h' a = h a))"

lemma insert_fwd_becomes:
  assumes "qrep h q as" and "h new = None" and "keyed (items h as)"
  shows "\<exists>as'. becomes h q (new # as) (insert_fwd P h q new c pr)
           (ins_before ikey P (Some pr, c) (items h as)) as'"
  using insert_fwd_refines [OF assms, of P c pr]
  by (fastforce simp: becomes_def ins_before_def takeWhile_items dropWhile_items)

lemma insert_queue_becomes:
  assumes "qrep h q as" and "h new = None" and "keyed (items h as)"
  shows "\<exists>as'. becomes h q (new # as) (insert_queue h q new c pr)
           (seq_insert ikey (Some pr, c) (items h as)) as'"
  using insert_fwd_becomes [OF assms] by (simp add: insert_queue_def seq_insert_def ikey_def)

lemma insert_first_queue_becomes:
  assumes "qrep h q as" and "h new = None" and "keyed (items h as)"
  shows "\<exists>as'. becomes h q (new # as) (insert_first_queue h q new c pr)
           (seq_insert_first ikey (Some pr, c) (items h as)) as'"
  using insert_fwd_becomes [OF assms] by (simp add: insert_first_queue_def seq_insert_first_def ikey_def)

lemma insert_event_becomes:
  assumes "qrep h q as" and "h new = None" and "keyed (items h as)"
  shows "\<exists>as'. becomes h q (new # as) (insert_event event_time h q new e)
           (seq_insert ikey (Some (event_time e), Some e) (items h as)) as'"
  using insert_fwd_becomes [OF assms] by (simp add: insert_event_def seq_insert_def ikey_def)


lemma insert_queue_from_back_refines:
  fixes h :: "'c heap" and pr :: real
  defines "Q \<equiv> \<lambda>b. okey h b > pr"
  assumes q: "qrep h q as" and new: "h new = None" and k: "keyed (items h as)"
  defines "as' \<equiv> rev (dropWhile Q (rev as)) @ [new] @ rev (takeWhile Q (rev as))"
  shows "\<exists>h' q'. insert_queue_from_back h q new c pr = retR (h', q') \<and> qrep h' q' as'
    \<and> items h' as' = items h (rev (dropWhile Q (rev as))) @ [(Some pr, c)] @ items h (rev (takeWhile Q (rev as)))
    \<and> qcurr q' = qcurr q \<and> (\<forall>a. a \<notin> set as \<and> a \<noteq> new \<longrightarrow> h' a = h a)"
proof (cases as rule: rev_cases)
  case Nil
  with q show ?thesis
    by (auto simp: as'_def insert_queue_from_back_def qrep_def)
next
  case (snoc bs l)
  define h1 where "h1 = h(new \<mapsto> (fresh_item c)\<lparr>iorder := Some pr\<rparr>)"
  define xs where "xs = rev (dropWhile Q (rev as))"
  define ys where "ys = rev (takeWhile Q (rev as))"
  have asxy: "as = xs @ ys"
    by (simp add: xs_def ys_def rev_append [symmetric])
  from q new have notin: "new \<notin> set as" by (auto simp: qrep_def dest: dls_notin)
  from q have d: "dls h None as None" and dist: "distinct as" by (auto simp: qrep_def)
  have Qh1: "(okey h1 b > pr) = Q b" if "b \<in> set (rev as)" for b
    using that notin by (auto simp: h1_def Q_def item_at_def)
  have "takeWhile (\<lambda>b. okey h1 b > pr) (rev as) = takeWhile Q (rev as)"
    and "dropWhile (\<lambda>b. okey h1 b > pr) (rev as) = dropWhile Q (rev as)"
    by (rule takeWhile_cong dropWhile_cong; use Qh1 in simp)+
  then have tw: "takeWhile (\<lambda>b. okey h1 b > pr) (l # rev bs) = rev ys"
    "dropWhile (\<lambda>b. okey h1 b > pr) (l # rev bs) = rev xs"
    by (simp_all add: xs_def ys_def snoc)
  have d1: "dls h1 None (bs @ [l]) None" and k1: "keyed (items h1 (bs @ [l]))"
    using d k notin unfolding h1_def snoc by simp_all
  have scan: "scan_bwd (\<lambda>p. p > pr) h1 None l = retR (hdo ys None, lasto xs None)"
    using scan_bwd_eq [OF d1 k1, of "\<lambda>p. p > pr" None] unfolding tw
    by (cases xs rule: rev_cases) simp_all
  let ?N = "(fresh_item c)\<lparr>iorder := Some pr\<rparr>"
  note sp = splice_dls [OF d [unfolded asxy] dist [unfolded asxy] new refl, of ?N]
  have ql: "qlast q = Some l" using q snoc by (simp add: qrep_def)
  show ?thesis
  proof (cases ys)
    case Nil
    note ys = this
    then obtain us u where xs: "xs = us @ [u]" using asxy snoc by (cases xs rule: rev_cases) auto
    from d asxy xs ys obtain it where it: "h u = Some it" by (auto simp: dls_append)
    have nu: "new \<noteq> u" using notin asxy xs by auto
    show ?thesis
      using sp scan it notin q nu
      unfolding as'_def insert_queue_from_back_def Let_def ql h1_def [symmetric] xs_def [symmetric] ys_def [symmetric]
      by (auto simp: ys xs asxy h1_def set_prev_def set_next_def qrep_def fun_upd_twist fresh_item_def)
  next
    case (Cons y zs)
    note ys = this
    from d asxy Cons obtain it2 where it2: "h y = Some it2" by (auto simp: dls_append)
    have ny: "new \<noteq> y" using notin asxy ys by auto
    show ?thesis
    proof (cases xs rule: rev_cases)
      case Nil
      show ?thesis
        using sp scan it2 notin q ny
        unfolding as'_def insert_queue_from_back_def Let_def ql h1_def [symmetric] xs_def [symmetric] ys_def [symmetric]
        by (auto simp: ys Nil asxy h1_def set_prev_def set_next_def qrep_def fun_upd_twist fresh_item_def)
    next
      case (snoc us u)
      from d asxy snoc Cons obtain it where it: "h u = Some it" by (auto simp: dls_append)
      have nu: "new \<noteq> u" "u \<noteq> y" using notin asxy snoc Cons dist by auto
      show ?thesis
        using sp scan it it2 notin q nu ny
        unfolding as'_def insert_queue_from_back_def Let_def ql h1_def [symmetric] xs_def [symmetric] ys_def [symmetric]
        by (auto simp: Cons snoc asxy h1_def set_prev_def set_next_def qrep_def fun_upd_twist fresh_item_def)
    qed
  qed
qed

lemma items_rev: "items h (rev as) = rev (items h as)"
  by (simp add: items_def rev_map)

lemma insert_queue_from_back_becomes:
  assumes "qrep h q as" and "h new = None" and "keyed (items h as)"
  shows "\<exists>as'. becomes h q (new # as) (insert_queue_from_back h q new c pr)
           (seq_insert_back ikey (Some pr, c) (items h as)) as'"
  using insert_queue_from_back_refines [OF assms, where pr = pr and c = c]
    takeWhile_items [of h "\<lambda>p. pr < p" "rev as"] dropWhile_items [of h "\<lambda>p. pr < p" "rev as"]
  by (fastforce simp: becomes_def seq_insert_back_def ins_after_back_def items_rev ikey_def)

section \<open>Searching and extracting\<close>

lemma query_from_eq:
  assumes "dls h p as None" and "keyed (items h as)"
  shows "query_from h pr (hdo as None) =
    retR (case find (\<lambda>b. okey h b = pr) as of None \<Rightarrow> None | Some a \<Rightarrow> snd (item_at h a))"
  using assms
proof (induction as arbitrary: p)
  case Nil
  then show ?case by (subst query_from.simps) simp
next
  case (Cons a as)
  from Cons.prems obtain it k where it: "h a = Some it" "inext it = hdo as None" "iorder it = Some k"
    and o: "okey h a = k" "snd (item_at h a) = icontent it"
    by (auto simp: item_at_def ikey_def)
  have IH: "query_from h pr (hdo as None) =
    retR (case find (\<lambda>b. okey h b = pr) as of None \<Rightarrow> None | Some a \<Rightarrow> snd (item_at h a))"
    using Cons by auto
  show ?case
    by (subst query_from.simps) (simp add: it o IH)
qed

lemma query_prio_queue_eq:
  assumes "qrep h q as" and "keyed (items h as)"
  shows "query_prio_queue h q pr =
    retR (case find (\<lambda>x. ikey x = pr) (items h as) of None \<Rightarrow> None | Some x \<Rightarrow> snd x)"
proof -
  have "(case find (\<lambda>b. okey h b = pr) as of None \<Rightarrow> None | Some a \<Rightarrow> snd (item_at h a)) =
    (case find (\<lambda>x. ikey x = pr) (items h as) of None \<Rightarrow> None | Some x \<Rightarrow> snd x)"
    by (induction as) auto
  then show ?thesis
    using assms query_from_eq [of h None as pr] by (simp add: query_prio_queue_def qrep_def)
qed

lemma scan_content_eq:
  assumes "dls h p (a # as) None"
  shows "scan_content h c tmp2 a =
    (case dropWhile (\<lambda>b. snd (item_at h b) \<noteq> c) (a # as) of
       [] \<Rightarrow> failR (Panic ''extract_from_queue: element not found'')
     | b # _ \<Rightarrow> retR (lasto (takeWhile (\<lambda>b. snd (item_at h b) \<noteq> c) (a # as)) tmp2, b))"
  using assms
proof (induction as arbitrary: a p tmp2)
  case Nil
  then show ?case by (subst scan_content.simps) (auto simp: item_at_def)
next
  case (Cons b as)
  from Cons.prems obtain it where it: "h a = Some it" "inext it = Some b" "icontent it = snd (item_at h a)"
    by (auto simp: item_at_def)
  from Cons.prems have "dls h (Some a) (b # as) None" by auto
  from Cons.IH [OF this, of "Some a"] show ?case
    by (subst scan_content.simps) (simp add: it cong: list.case_cong)
qed

lemma extract_from_queue_absent:
  assumes "qrep h q as" and "c \<notin> set (map snd (items h as))"
  shows "extract_from_queue h q c = failR (Panic ''extract_from_queue: element not found'')"
proof (cases as)
  case Nil
  with assms show ?thesis by (simp add: extract_from_queue_def qrep_def)
next
  case (Cons a bs)
  have "dropWhile (\<lambda>b. snd (item_at h b) \<noteq> c) as = []"
    using assms(2) by (fastforce simp: dropWhile_eq_Nil_conv items_def)
  then have dw: "dropWhile (\<lambda>b. snd (item_at h b) \<noteq> c) (a # bs) = []"
    by (simp only: Cons)
  have d: "dls h None (a # bs) None" and f: "qfirst q = Some a"
    using assms(1) Cons by (simp_all add: qrep_def)
  have "scan_content h c None a = failR (Panic ''extract_from_queue: element not found'')"
    using scan_content_eq [OF d, of c None] unfolding dw by simp
  then show ?thesis
    by (simp add: extract_from_queue_def f)
qed

lemma unlink_dls:
  assumes d: "dls h None (xs @ a # ys) None" and dist: "distinct (xs @ a # ys)"
    and h': "h' = (set_prev (hdo ys None) (lasto xs None) (set_next (lasto xs None) (hdo ys None) h))(a := None)"
  shows "dls h' None (xs @ ys) None \<and> items h' (xs @ ys) = items h xs @ items h ys \<and> h' a = None
    \<and> (\<forall>b. b \<notin> set (xs @ a # ys) \<longrightarrow> h' b = h b)"
proof (cases xs rule: rev_cases)
  case Nil
  show ?thesis
    using d dist unfolding h' Nil
    by (cases ys) (auto simp: set_prev_def set_next_def item_at_def items_def)
next
  case (snoc us u)
  from d obtain it where it: "h u = Some it" by (auto simp: snoc dls_append)
  show ?thesis
    using d dist it unfolding h' snoc
    by (cases ys) (auto simp: set_prev_def set_next_def item_at_def items_def dls_append)
qed

lemma extract_from_queue_refines:
  assumes q: "qrep h q (xs @ a # ys)" and c: "snd (item_at h a) = c"
    and pre: "\<forall>b \<in> set xs. snd (item_at h b) \<noteq> c"
  shows "\<exists>h' q'. extract_from_queue h q c = retR (h', q') \<and> qrep h' q' (xs @ ys)
    \<and> items h' (xs @ ys) = items h xs @ items h ys
    \<and> qcurr q' = (if qcurr q = Some a then lasto xs None else qcurr q) \<and> h' a = None
    \<and> (\<forall>b. b \<notin> set (xs @ a # ys) \<longrightarrow> h' b = h b)"
proof -
  from q have d: "dls h None (xs @ a # ys) None" and dist: "distinct (xs @ a # ys)"
    by (auto simp: qrep_def)
  obtain f fs where f: "xs @ a # ys = f # fs" by (cases xs) auto
  have "dropWhile (\<lambda>b. snd (item_at h b) \<noteq> c) (xs @ a # ys) = a # ys"
    and "takeWhile (\<lambda>b. snd (item_at h b) \<noteq> c) (xs @ a # ys) = xs"
    using pre c by (auto simp: dropWhile_append2 takeWhile_append2)
  then have scan: "scan_content h c None f = retR (lasto xs None, a)"
    using scan_content_eq [of h None f fs c None] d unfolding f by simp
  have qf: "qfirst q = Some f" using q unfolding f by (simp add: qrep_def)
  obtain ia where ia: "h a = Some ia" "inext ia = hdo ys None" "iprev ia = lasto xs None"
    using d by (auto simp: dls_append)
  note un = unlink_dls [OF d dist refl]
  show ?thesis
  proof (cases xs rule: rev_cases)
    case Nil
    show ?thesis
    proof (cases ys)
      case Nil
      then show ?thesis
        using q ia scan \<open>xs = []\<close> unfolding extract_from_queue_def qf
        by (auto simp: qrep_def Let_def)
    next
      case (Cons y zs)
      from d Cons obtain iy where iy: "h y = Some iy" by (auto simp: dls_append)
      show ?thesis
        using q ia iy scan un \<open>xs = []\<close> Cons unfolding extract_from_queue_def qf
        by (auto simp: qrep_def Let_def set_prev_def set_next_def)
    qed
  next
    case (snoc us u)
    from d obtain iu where iu: "h u = Some iu" by (auto simp: snoc dls_append)
    show ?thesis
    proof (cases ys)
      case Nil
      show ?thesis
        using q ia iu scan un snoc Nil unfolding extract_from_queue_def qf
        by (auto simp: qrep_def Let_def set_prev_def set_next_def)
    next
      case (Cons y zs)
      from d Cons obtain iy where iy: "h y = Some iy" by (auto simp: dls_append)
      from dist snoc Cons have "u \<noteq> y" by auto
      with iy have "(h(u \<mapsto> iu\<lparr>inext := Some y\<rparr>)) y = Some iy" by simp
      then show ?thesis
        using q ia iu iy scan un snoc Cons unfolding extract_from_queue_def qf
        by (auto simp: qrep_def Let_def set_prev_def set_next_def)
    qed
  qed
qed

section \<open>Walking with the cursor\<close>

lemma head_queue_eq:
  assumes "qrep h q as"
  shows "head_queue h q = retR (case as of [] \<Rightarrow> None | a # _ \<Rightarrow> snd (item_at h a), q\<lparr>qcurr := hdo as None\<rparr>)"
  using assms by (cases as) (auto simp: head_queue_def qrep_def Let_def item_at_def)

lemma next_queue_eq:
  assumes "qrep h q (xs @ a # ys)" and "qcurr q = Some a"
  shows "next_queue h q = retR (case ys of [] \<Rightarrow> None | b # _ \<Rightarrow> snd (item_at h b), q\<lparr>qcurr := hdo ys None\<rparr>)"
  using assms by (cases ys) (auto simp: next_queue_def qrep_def Let_def item_at_def dls_append)

lemma tail_queue_eq:
  assumes "qrep h q (as @ [a])"
  shows "tail_queue h q = retR (snd (item_at h a), q\<lparr>qcurr := Some a\<rparr>)"
  using assms by (auto simp: tail_queue_def qrep_def Let_def item_at_def dls_append)

lemma prev_queue_eq:
  assumes "qrep h q (xs @ b # a # ys)" and "qcurr q = Some a"
  shows "prev_queue h q = retR (snd (item_at h b), q\<lparr>qcurr := Some b\<rparr>)"
  using assms by (auto simp: prev_queue_def qrep_def Let_def item_at_def dls_append)

text \<open>Stepping back from the first item dereferences NULL.\<close>

lemma prev_queue_first_faults:
  assumes "qrep h q (a # ys)" and "qcurr q = Some a"
  shows "prev_queue h q = failR NullDeref"
  using assms by (auto simp: prev_queue_def qrep_def Let_def)

text \<open>
  The extraction of the first item does not touch the cursor: when the cursor was on it, the
  next step of an iteration reads a freed cell.
\<close>

lemma outFIFO_leaves_cursor_dangling:
  assumes "qrep h q (a # as)" and "qcurr q = Some a"
  shows "\<exists>c h' q'. outFIFO_queue h q = retR (c, h', q') \<and> next_queue h' q' = failR Dangling"
proof -
  obtain h' q' where o: "outFIFO_queue h q = retR (snd (item_at h a), h', q')"
    and c: "qcurr q' = qcurr q" and n: "h' a = None"
    using outFIFO_queue_refines [OF assms(1)] by blast
  have "next_queue h' q' = failR Dangling"
    using c n assms(2) by (simp add: next_queue_def rd_def)
  with o show ?thesis by blast
qed


section \<open>The event queue\<close>

lemma top_event_eq:
  assumes "qrep h q as"
  shows "top_event h q = retR (case as of [] \<Rightarrow> None | a # _ \<Rightarrow> snd (item_at h a))"
  using assms by (cases as) (auto simp: top_event_def qrep_def item_at_def)

lemma empty_event_eq:
  assumes "qrep h q as" and "None \<notin> set (map snd (items h as))"
  shows "empty_event h q = retR (as = [])"
  using assms top_event_eq [OF assms(1)] by (cases as) (auto simp: empty_event_def)

text \<open>The event versions of the FIFO operations are the queue's.\<close>

lemma outFIFO_event_eq: "outFIFO_event h q = outFIFO_queue h q"
  unfolding outFIFO_event_def outFIFO_queue_def Let_def
  by (auto split: option.split intro!: arg_cong2 [where f = bindR] ext)

lemma head_event_eq: "head_event h q = head_queue h q"
  by (simp add: head_event_def head_queue_def)

lemma next_event_eq: "next_event h q = next_queue h q"
  by (simp add: next_event_def next_queue_def)

section \<open>Emptying and moving\<close>

lemma drain_eq:
  assumes "qrep h q as" and "None \<notin> set (map snd (items h as))"
  shows "\<exists>h' q'. drain h q acc = retR (acc @ map the (map snd (items h as)), h', q')
    \<and> qrep h' q' [] \<and> (\<forall>a \<in> set as. h' a = None) \<and> (\<forall>a. a \<notin> set as \<longrightarrow> h' a = h a)"
  using assms
proof (induction as arbitrary: h q acc)
  case Nil
  then show ?case
    by (subst drain.simps) (auto simp: outFIFO_queue_empty [unfolded retR_def] retR_def)
next
  case (Cons a as)
  obtain h1 q1 where o: "outFIFO_queue h q = retR (snd (item_at h a), h1, q1)"
    and q1: "qrep h1 q1 as" and it: "items h1 as = items h as" and n: "h1 a = None"
    and fr: "\<forall>b. b \<notin> set (a # as) \<longrightarrow> h1 b = h b"
    using outFIFO_queue_refines [OF Cons.prems(1)] by blast
  from Cons.prems(2) obtain c where c: "snd (item_at h a) = Some c"
    by (cases "snd (item_at h a)") auto
  have "None \<notin> set (map snd (items h1 as))" using Cons.prems(2) it by auto
  from Cons.IH [OF q1 this, of "acc @ [c]"] obtain h' q' where
    d: "drain h1 q1 (acc @ [c]) = retR (acc @ [c] @ map the (map snd (items h as)), h', q')"
    and r: "qrep h' q' []" "\<forall>b \<in> set as. h' b = None" "\<forall>b. b \<notin> set as \<longrightarrow> h' b = h1 b"
    using it by auto
  have "drain h q acc = retR (acc @ map the (map snd (items h (a # as))), h', q')"
    by (subst drain.simps) (simp add: o [unfolded retR_def] c d)
  with r n fr show ?case by auto
qed

lemma remove_queue_elements_eq:
  assumes "qrep h q as" and "None \<notin> set (map snd (items h as))"
  shows "\<exists>h' q'. remove_queue_elements h q = retR (map the (map snd (items h as)), h', q')
    \<and> qrep h' q' [] \<and> (\<forall>a \<in> set as. h' a = None) \<and> (\<forall>a. a \<notin> set as \<longrightarrow> h' a = h a)"
proof (cases "as = []")
  case True
  with assms show ?thesis by (auto simp: remove_queue_elements_def qrep_def)
next
  case False
  then have "qcount q \<noteq> 0" using assms(1) by (simp add: qrep_def)
  with drain_eq [OF assms, of "[]"] show ?thesis
    by (auto simp: remove_queue_elements_def qrep_def Let_def)
qed

lemma remove_queue_threads_eq:
  assumes "qrep h q as" and "None \<notin> set (map snd (items h as))"
  shows "\<exists>h' q'. remove_queue_threads orig h q =
      retR (filter (\<lambda>th. \<not> orig th) (map the (map snd (items h as))), h', q') \<and> qrep h' q' []"
proof (cases "as = []")
  case True
  with assms show ?thesis by (auto simp: remove_queue_threads_def qrep_def)
next
  case False
  then have "qcount q \<noteq> 0" using assms(1) by (simp add: qrep_def)
  with drain_eq [OF assms, of "[]"] show ?thesis
    by (auto simp: remove_queue_threads_def qrep_def Let_def)
qed

text \<open>
  Moving a queue onto another one appends its contents, in order, for any addresses that
  \<open>malloc\<close> may return as long as they are not in use.
\<close>

lemma move_queue_elements_eq:
  assumes "qrep h frm as" and "qrep h to bs" and "set as \<inter> set bs = {}"
    and "length news = length as" and "distinct news" and "\<forall>n \<in> set news. h n = None"
  shows "\<exists>h' frm' to' cs. move_queue_elements h frm to news = retR (h', frm', to')
    \<and> qrep h' frm' [] \<and> qrep h' to' cs
    \<and> map snd (items h' cs) = map snd (items h bs) @ map snd (items h as)"
  using assms
proof (induction as arbitrary: h frm to bs news)
  case Nil
  then have "\<not> qcount frm > 0" by (simp add: qrep_def)
  with Nil show ?case by (subst move_queue_elements.simps) auto
next
  case (Cons a as)
  from Cons.prems(4) obtain n ns where news: "news = n # ns" by (cases news) auto
  have pos: "qcount frm > 0" using Cons.prems(1) by (simp add: qrep_def)
  obtain h1 frm1 where o: "outFIFO_queue h frm = retR (snd (item_at h a), h1, frm1)"
    and q1: "qrep h1 frm1 as" and it1: "items h1 as = items h as" and n1: "h1 a = None"
    and fr1: "\<forall>b. b \<notin> set (a # as) \<longrightarrow> h1 b = h b"
    using outFIFO_queue_refines [OF Cons.prems(1)] by blast
  have to1: "qrep h1 to bs" and itb: "items h1 bs = items h bs"
    using fr1 Cons.prems(3) by (auto intro!: qrep_cong [OF Cons.prems(2)])
  have out: "m \<notin> set (a # as) \<and> m \<notin> set bs \<and> h1 m = None" if "m \<in> set news" for m
    using that Cons.prems(6) qrep_notin [OF Cons.prems(1)] qrep_notin [OF Cons.prems(2)] fr1 by auto
  then have fn: "h1 n = None" and notin: "n \<notin> set as" by (simp_all add: news)
  obtain h2 to2 where i: "inFIFO_queue h1 to n (snd (item_at h a)) = retR (h2, to2)"
    and q2: "qrep h2 to2 (bs @ [n])" and it2: "items h2 (bs @ [n]) = items h1 bs @ [(None, snd (item_at h a))]"
    and fr2: "\<forall>b. b \<notin> set bs \<and> b \<noteq> n \<longrightarrow> h2 b = h1 b"
    using inFIFO_queue_refines [OF to1 fn] by blast
  have frm2: "qrep h2 frm1 as" and it3: "items h2 as = items h1 as"
    using fr2 Cons.prems(3) notin by (auto intro!: qrep_cong [OF q1])
  have free: "h2 m = None" if "m \<in> set ns" for m
    using that out [of m] fr2 Cons.prems(5) by (auto simp: news)
  have disj: "set as \<inter> set (bs @ [n]) = {}" using Cons.prems(3) notin by auto
  have "length ns = length as" "distinct ns" using Cons.prems(4,5) news by simp_all
  from Cons.IH [OF frm2 q2 disj this] free obtain h' frm' to' cs where
    m: "move_queue_elements h2 frm1 to2 ns = retR (h', frm', to')" "qrep h' frm' []" "qrep h' to' cs"
    and e: "map snd (items h' cs) = map snd (items h2 (bs @ [n])) @ map snd (items h2 as)"
    by blast
  have "move_queue_elements h frm to news = retR (h', frm', to')"
    by (subst move_queue_elements.simps)
      (simp add: pos o [unfolded retR_def] news i [unfolded retR_def] m)
  with m e it1 it2 it3 itb show ?case by auto
qed

text \<open>One round of the loop on a single queue leaves it as long as it was.\<close>

lemma self_move_round:
  assumes q: "qrep h q (a # as)" and fin: "finite (dom h)"
    and malloc: "\<And>h'. finite (dom h') \<Longrightarrow> h' (malloc h') = None"
  obtains h1 q1 h2 q2 where "outFIFO_queue h q = retR (snd (item_at h a), h1, q1)"
    "inFIFO_queue h1 q1 (malloc h1) (snd (item_at h a)) = retR (h2, q2)"
    "qrep h2 q2 (as @ [malloc h1])" "finite (dom h2)"
proof -
  obtain h1 q1 where o: "outFIFO_queue h q = retR (snd (item_at h a), h1, q1)"
    and q1: "qrep h1 q1 as" and n1: "h1 a = None" and fr1: "\<forall>b. b \<notin> set (a # as) \<longrightarrow> h1 b = h b"
    using outFIFO_queue_refines [OF q] by blast
  have "dom h1 \<subseteq> dom h \<union> set (a # as)" using fr1 by force
  then have f1: "finite (dom h1)" using fin by (meson finite_UnI finite_set finite_subset)
  obtain h2 q2 where i: "inFIFO_queue h1 q1 (malloc h1) (snd (item_at h a)) = retR (h2, q2)"
    and q2: "qrep h2 q2 (as @ [malloc h1])"
    and fr2: "\<forall>b. b \<notin> set as \<and> b \<noteq> malloc h1 \<longrightarrow> h2 b = h1 b"
    using inFIFO_queue_refines [OF q1 malloc [OF f1]] by blast
  have "dom h2 \<subseteq> dom h1 \<union> set (malloc h1 # as)" using fr2 by force
  then have "finite (dom h2)" using f1 by (meson finite_UnI finite_set finite_subset)
  with o i q2 show thesis by (rule that)
qed

definition good_malloc :: "('c heap \<Rightarrow> addr) \<Rightarrow> bool" where
  "good_malloc malloc \<longleftrightarrow> (\<forall>h. finite (dom h) \<longrightarrow> h (malloc h) = None)"

lemma self_move_diverges:
  assumes "move_queue_to_itself malloc h q = Some r" "good_malloc malloc" "finite (dom h)" "qrep h q as"
  shows "as = []"
proof -
  have "move_queue_to_itself malloc h q = Some r \<Longrightarrow>
      good_malloc malloc \<longrightarrow> finite (dom h) \<longrightarrow> (\<forall>as. qrep h q as \<longrightarrow> as = [])"
  proof (rule move_queue_to_itself.raw_induct
      [of "\<lambda>malloc h q r. good_malloc malloc \<longrightarrow> finite (dom h) \<longrightarrow> (\<forall>as. qrep h q as \<longrightarrow> as = [])"])
    fix f :: "('a heap \<Rightarrow> addr) \<Rightarrow> 'a heap \<Rightarrow> t_queue \<Rightarrow> ('a heap \<times> t_queue) run"
    fix malloc :: "'a heap \<Rightarrow> addr" and h q r
    assume IH: "\<And>malloc h q r. f malloc h q = Some r \<Longrightarrow>
      good_malloc malloc \<longrightarrow> finite (dom h) \<longrightarrow> (\<forall>as. qrep h q as \<longrightarrow> as = [])"
    assume b: "(if qcount q > 0 then
        (case outFIFO_queue h q of None \<Rightarrow> None | Some (Inl e) \<Rightarrow> Some (Inl e)
         | Some (Inr (r, h1, q1)) \<Rightarrow>
             (case inFIFO_queue h1 q1 (malloc h1) r of None \<Rightarrow> None | Some (Inl e) \<Rightarrow> Some (Inl e)
              | Some (Inr (h2, q2)) \<Rightarrow> f malloc h2 q2))
      else retR (h, q)) = Some r"
    show "good_malloc malloc \<longrightarrow> finite (dom h) \<longrightarrow> (\<forall>as. qrep h q as \<longrightarrow> as = [])"
    proof (intro allI impI, rule ccontr)
      fix as assume g: "good_malloc malloc" and q: "finite (dom h)" "qrep h q as" "as \<noteq> []"
      then obtain a bs where as: "as = a # bs" by (cases as) auto
      have m: "h' (malloc h') = None" if "finite (dom h')" for h'
        using g that by (simp add: good_malloc_def)
      obtain h1 q1 h2 q2 where s: "outFIFO_queue h q = retR (snd (item_at h a), h1, q1)"
        "inFIFO_queue h1 q1 (malloc h1) (snd (item_at h a)) = retR (h2, q2)"
        "qrep h2 q2 (bs @ [malloc h1])" "finite (dom h2)"
        by (rule self_move_round [OF q(2) [unfolded as] q(1) m])
      have "qcount q > 0" using q(2) as by (simp add: qrep_def)
      with b s(1,2) have "f malloc h2 q2 = Some r" by (simp add: retR_def)
      from IH [OF this] g s(3,4) show False by blast
    qed
  qed
  with assms show ?thesis by blast
qed


section \<open>Properties\<close>

text \<open>A queue of two items, for the concrete instances of the properties.\<close>

definition ex_heap :: "nat heap" where
  "ex_heap = [100 \<mapsto> \<lparr>inext = Some 200, iprev = None, iorder = Some 1, icontent = Some 10\<rparr>,
              200 \<mapsto> \<lparr>inext = None, iprev = Some 100, iorder = Some 3, icontent = Some 20\<rparr>]"

definition ex_queue :: t_queue where
  "ex_queue = \<lparr>qfirst = Some 100, qlast = Some 200, qcurr = Some 100, qcount = 2\<rparr>"

lemma ex_facts:
  "qrep ex_heap ex_queue [100, 200]" "ex_heap 300 = None" "ex_heap 400 = None"
  "items ex_heap [100, 200] = [(Some 1, Some 10), (Some 3, Some 20)]" "qcurr ex_queue = Some 100"
  "item_at ex_heap 100 = (Some 1, Some 10)" "item_at ex_heap 200 = (Some 3, Some 20)"
  by (simp_all add: qrep_def ex_heap_def ex_queue_def items_def item_at_def)

text \<open>
  Property C1. \<open>insert_queue\<close> on any well-formed queue sorted by priority returns (its loop ends
  and it touches no bad pointer), and the queue it leaves is well-formed and holds the old
  items plus the new one, placed behind every item whose priority is not greater: the items
  stay sorted, items of the same priority keep their order and the new one comes last among
  them, and no cell outside the queue changes.
\<close>

theorem insert_queue_correct:
  assumes "qrep h q as" and "h new = None" and "keyed (items h as)"
    and "sorted (map ikey (items h as))"
  shows "\<exists>h' q' as'. insert_queue h q new c pr = retR (h', q') \<and> qrep h' q' as'
    \<and> sorted (map ikey (items h' as'))
    \<and> mset (items h' as') = add_mset (Some pr, c) (mset (items h as))
    \<and> (\<forall>k. filter (\<lambda>x. ikey x = k) (items h' as') =
          filter (\<lambda>x. ikey x = k) (items h as) @ (if pr = k then [(Some pr, c)] else []))
    \<and> qcurr q' = qcurr q \<and> (\<forall>a. a \<notin> set (new # as) \<longrightarrow> h' a = h a)"
proof -
  obtain as' where b: "becomes h q (new # as) (insert_queue h q new c pr)
      (seq_insert ikey (Some pr, c) (items h as)) as'"
    using insert_queue_becomes [OF assms(1-3)] by blast
  note facts = by_priority.ins_sorted [OF assms(4)] by_priority.ins_mset [OF assms(4)]
    by_priority.ins_stable [OF assms(4)]
  from b obtain h' q' where "insert_queue h q new c pr = retR (h', q')" "qrep h' q' as'"
    "items h' as' = seq_insert ikey (Some pr, c) (items h as)" "qcurr q' = qcurr q"
    "\<forall>a. a \<notin> set (new # as) \<longrightarrow> h' a = h a"
    unfolding becomes_def by blast
  then show ?thesis
    using facts [where x = "(Some pr, c)"] by (intro exI [of _ h'] exI [of _ q'] exI [of _ as']) (simp add: ikey_def)
qed

theorem insert_queue_correct_witness:
  "\<exists>h' q' as'. insert_queue ex_heap ex_queue 300 (Some 30) 2 = retR (h', q') \<and> qrep h' q' as'
    \<and> sorted (map ikey (items h' as'))
    \<and> mset (items h' as') = {# (Some 2, Some 30), (Some 1, Some 10), (Some 3, Some 20) #}"
proof -
  have k: "keyed (items ex_heap [100, 200])" "sorted (map ikey (items ex_heap [100, 200]))"
    by (simp_all only: ex_facts) (simp_all add: ikey_def)
  from insert_queue_correct [OF ex_facts(1,2) k, of "Some 30" 2] show ?thesis
    unfolding ex_facts(4) by (elim exE conjE) (intro exI conjI, assumption+, simp)
qed

text \<open>
  \<open>insert_queue_from_back\<close>, the variant that walks from the tail because it is
  faster for the SS_MPI_CP policy, leaves exactly the same sequence of items as \<open>insert_queue\<close>
  on every well-formed sorted queue.
\<close>

theorem insert_queue_from_back_equiv:
  assumes "qrep h q as" and "h new = None" and "keyed (items h as)"
    and "sorted (map ikey (items h as))"
  shows "\<exists>h1 q1 as1 h2 q2 as2.
      insert_queue_from_back h q new c pr = retR (h1, q1) \<and> qrep h1 q1 as1
    \<and> insert_queue h q new c pr = retR (h2, q2) \<and> qrep h2 q2 as2
    \<and> items h1 as1 = items h2 as2"
  using insert_queue_from_back_becomes [OF assms(1-3), of c pr] insert_queue_becomes [OF assms(1-3), of c pr]
  unfolding becomes_def seq_insert_back_eq [OF assms(4)] by metis

theorem insert_queue_from_back_equiv_witness:
  "\<exists>h1 q1 as1 h2 q2 as2.
      insert_queue_from_back ex_heap ex_queue 300 (Some 30) 1 = retR (h1, q1) \<and> qrep h1 q1 as1
    \<and> insert_queue ex_heap ex_queue 300 (Some 30) 1 = retR (h2, q2) \<and> qrep h2 q2 as2
    \<and> items h1 as1 = items h2 as2"
  by (rule insert_queue_from_back_equiv [OF ex_facts(1,2)], simp_all only: ex_facts)
    (simp_all add: ikey_def)

text \<open>
  Property C2. \<open>extract_from_queue\<close> removes the first item with the given content and nothing
  else, frees its cell, and moves the cursor to the previous item exactly when the cursor was
  on the removed one, so that a running iteration can go on; when no item has that content the
  simulation ends with a panic.
\<close>

theorem extract_from_queue_correct:
  assumes "qrep h q as"
  shows "if \<exists>a \<in> set as. snd (item_at h a) = c
    then \<exists>xs a ys h' q'. as = xs @ a # ys \<and> snd (item_at h a) = c \<and> c \<notin> set (map snd (items h xs))
      \<and> extract_from_queue h q c = retR (h', q') \<and> qrep h' q' (xs @ ys)
      \<and> items h' (xs @ ys) = items h xs @ items h ys \<and> h' a = None
      \<and> qcurr q' = (if qcurr q = Some a then lasto xs None else qcurr q)
    else extract_from_queue h q c = failR (Panic ''extract_from_queue: element not found'')"
proof (cases "\<exists>a \<in> set as. snd (item_at h a) = c")
  case True
  then obtain xs a ys where s: "as = xs @ a # ys" "snd (item_at h a) = c"
    "\<forall>b \<in> set xs. snd (item_at h b) \<noteq> c"
    by (rule split_list_first_propE)
  obtain h' q' where r: "extract_from_queue h q c = retR (h', q')" "qrep h' q' (xs @ ys)"
    "items h' (xs @ ys) = items h xs @ items h ys" "h' a = None"
    "qcurr q' = (if qcurr q = Some a then lasto xs None else qcurr q)"
    using extract_from_queue_refines [OF assms [unfolded s(1)] s(2,3)] by blast
  have "c \<notin> set (map snd (items h xs))" using s(3) by (auto simp: items_def)
  then have "\<exists>xs a ys h' q'. as = xs @ a # ys \<and> snd (item_at h a) = c \<and> c \<notin> set (map snd (items h xs))
      \<and> extract_from_queue h q c = retR (h', q') \<and> qrep h' q' (xs @ ys)
      \<and> items h' (xs @ ys) = items h xs @ items h ys \<and> h' a = None
      \<and> qcurr q' = (if qcurr q = Some a then lasto xs None else qcurr q)"
    using s(1,2) r by blast
  with True show ?thesis by simp
next
  case False
  then have "c \<notin> set (map snd (items h as))" by (auto simp: items_def)
  with assms False show ?thesis by (simp add: extract_from_queue_absent)
qed

theorem extract_from_queue_correct_witness:
  "(\<exists>h' q' xs ys. extract_from_queue ex_heap ex_queue (Some 10) = retR (h', q') \<and> qrep h' q' (xs @ ys))
   \<and> extract_from_queue ex_heap ex_queue (Some 99) = failR (Panic ''extract_from_queue: element not found'')"
  using extract_from_queue_correct [OF ex_facts(1), of "Some 10"]
    extract_from_queue_correct [OF ex_facts(1), of "Some 99"]
  by (auto simp: ex_heap_def item_at_def)

text \<open>
  \<open>prev_queue\<close> lacks the NULL test that \<open>next_queue\<close> has: stepping back from the
  first item dereferences NULL, where stepping forward from the last item returns \<open>A_NIL\<close>.
\<close>

theorem prev_queue_null_dereference:
  assumes "qrep h q (a # as)"
  shows "prev_queue h (q\<lparr>qcurr := Some a\<rparr>) = failR NullDeref
    \<and> next_queue h (q\<lparr>qcurr := qlast q\<rparr>) = retR (None, q\<lparr>qcurr := None\<rparr>)"
proof -
  have r: "qrep h (q\<lparr>qcurr := p\<rparr>) (a # as)" for p
    using assms by (simp add: qrep_def)
  obtain xs l where l: "a # as = xs @ [l]" by (cases "a # as" rule: rev_cases) auto
  have "lasto (a # as) None = Some l" unfolding l by simp
  then have "qlast q = Some l" using assms by (simp add: qrep_def del: lasto_Cons)
  then show ?thesis
    using prev_queue_first_faults [OF r] next_queue_eq [of h "q\<lparr>qcurr := Some l\<rparr>" xs l "[]"] r l
    by simp
qed

theorem prev_queue_null_dereference_witness:
  "prev_queue ex_heap (ex_queue\<lparr>qcurr := Some 100\<rparr>) = failR NullDeref"
  using prev_queue_null_dereference [OF ex_facts(1)] by simp

text \<open>
  \<open>move_queue_elements\<close> terminates, empties the source queue and appends its
  contents to the target in order, whatever unused addresses \<open>malloc\<close> returns.
\<close>

theorem move_queue_elements_correct:
  assumes "qrep h frm as" and "qrep h to bs" and "set as \<inter> set bs = {}"
    and "length news = length as" and "distinct news" and "\<forall>n \<in> set news. h n = None"
  shows "\<exists>h' frm' to' cs. move_queue_elements h frm to news = retR (h', frm', to')
    \<and> qrep h' frm' [] \<and> qrep h' to' cs
    \<and> map snd (items h' cs) = map snd (items h bs) @ map snd (items h as)"
  using assms by (rule move_queue_elements_eq)

theorem move_queue_elements_correct_witness:
  "\<exists>h' frm' to' cs. move_queue_elements ex_heap ex_queue create_queue [300, 400] = retR (h', frm', to')
    \<and> qrep h' frm' [] \<and> qrep h' to' cs \<and> map snd (items h' cs) = [Some 10, Some 20]"
proof -
  have "qrep ex_heap create_queue []" by (simp add: qrep_def create_queue_def)
  from move_queue_elements_correct [OF ex_facts(1) this, of "[300, 400]"] show ?thesis
    by (simp add: ex_facts)
qed

text \<open>
  Moving a queue onto itself, which \<open>SIMULATOR_reset_state\<close> does with the busy
  output links of every task, never returns unless the queue is empty, whatever unused addresses
  \<open>malloc\<close> gives.
\<close>

theorem moving_a_queue_to_itself_never_ends:
  assumes "qrep h q as" and "as \<noteq> []" and "finite (dom h)"
    and "good_malloc malloc"
  shows "move_queue_to_itself malloc h q = None"
proof (cases "move_queue_to_itself malloc h q")
  case (Some r)
  from self_move_diverges [OF this assms(4,3,1)] assms(2) show ?thesis by simp
qed

definition ex_malloc :: "nat heap \<Rightarrow> addr" where
  "ex_malloc h = Suc (Max (insert 0 (dom h)))"

theorem moving_a_queue_to_itself_never_ends_witness:
  "move_queue_to_itself ex_malloc ex_heap ex_queue = None"
proof (rule moving_a_queue_to_itself_never_ends [OF ex_facts(1)])
  show "finite (dom ex_heap)" by (simp add: ex_heap_def)
  show "good_malloc ex_malloc"
    unfolding good_malloc_def
  proof (intro allI impI, rule ccontr)
    fix h' :: "nat heap" assume that: "finite (dom h')"
    assume "h' (ex_malloc h') \<noteq> None"
    then have "ex_malloc h' \<in> insert 0 (dom h')" by auto
    then have "ex_malloc h' \<le> Max (insert 0 (dom h'))" using that by (intro Max_ge) auto
    then show False by (simp add: ex_malloc_def)
  qed
qed simp

end
