(* ===== verification/Graph.thy ===== *)
theory Graph
  imports Prelude
begin

unbundle bit_operations_syntax

text \<open>
  \<^verbatim>\<open>Simulator/utils/graph.c\<close>: the dependency graph of the deadlock analysis. \<open>_graph_map\<close> is
  an array with one doubly linked list of dependencies per task; here \<open>gmap\<close> gives each
  task's list, and indexing outside \<open>0 .. _nodes - 1\<close> is the fault \<open>OutOfBounds\<close>. The pointer to
  a dependency is its field \<open>daddr\<close>; \<open>malloc\<close> hands out the increasing addresses \<open>gbrk\<close>.
  The log lines of \<open>DEBUG\<close> are not modelled.
\<close>

section \<open>Constants and data\<close>

definition STRG_DEP :: int where "STRG_DEP = 1"
definition SOFT_DEP :: int where "SOFT_DEP = 2"
definition GLOP_DEP :: int where "GLOP_DEP = 4"
definition SOFT_ACTION_RESOLVED :: int where "SOFT_ACTION_RESOLVED = 65536"
definition GRAPH_TO_ALL :: int where "GRAPH_TO_ALL = -1"
definition GRAPH_ALL_ACTIONS :: int where "GRAPH_ALL_ACTIONS = -1"
definition TAG_ALL :: int where "TAG_ALL = -1"
definition COMMUNIC_ID_ALL :: int where "COMMUNIC_ID_ALL = -1"

definition SEND :: int where "SEND = 2"
definition RECV :: int where "RECV = 3"
definition GLOBAL_OP :: int where "GLOBAL_OP = 11"
definition IRECV :: int where "IRECV = 14"
definition WAIT :: int where "WAIT = 15"

lemmas code_defs = STRG_DEP_def SOFT_DEP_def GLOP_DEP_def SOFT_ACTION_RESOLVED_def GRAPH_TO_ALL_def
  GRAPH_ALL_ACTIONS_def TAG_ALL_def COMMUNIC_ID_ALL_def SEND_def RECV_def GLOBAL_OP_def IRECV_def WAIT_def

text \<open>
  The action a thread is at, with the fields of its descriptor that the analysis reads;
  \<open>Other\<close> carries the code of any other action.
\<close>

datatype trace_action =
    Send (dest: int) (mess_tag: int) (communic_id: int) (rendez_vous: bool)
  | Recv (ori: int) (mess_tag: int) (communic_id: int)
  | Irecv (ori: int) (mess_tag: int) (communic_id: int)
  | Wait (ori: int) (mess_tag: int) (communic_id: int)
  | GlobalOp (glop_id: int) (comm_id: int)
  | Other int

fun action_code :: "trace_action \<Rightarrow> int" where
  "action_code (Send _ _ _ _) = SEND"
| "action_code (Recv _ _ _) = RECV"
| "action_code (Irecv _ _ _) = IRECV"
| "action_code (Wait _ _ _) = WAIT"
| "action_code (GlobalOp _ _) = GLOBAL_OP"
| "action_code (Other c) = c"

text \<open>
  What the analysis reads of a thread: its identifiers, its current action and the offset of
  that action in the trace file (\<open>DAP_get_offset\<close>).
\<close>

record dthread =
  ptaskid :: int
  dtaskid :: int
  dthreadid :: int
  daction_at :: trace_action
  doffset :: nat

record dependency =
  daddr :: nat
  dfrom :: int
  dto :: int
  daction :: int
  dtype :: int
  p2p_tag :: int
  p2p_communic_id :: int
  global_op :: int
  communicator :: "int option"
  file_offset :: nat
  dtime :: timer

record graph =
  gnodes :: nat
  gmap :: "int \<Rightarrow> dependency list"
  gbrk :: nat

definition in_range :: "graph \<Rightarrow> int \<Rightarrow> bool" where
  "in_range g i \<longleftrightarrow> 0 \<le> i \<and> i < int (gnodes g)"

definition gsel :: "graph \<Rightarrow> int \<Rightarrow> dependency list res" where
  "gsel g i = (if in_range g i then Inr (gmap g i) else Inl OutOfBounds)"

section \<open>Operations\<close>

definition GRAPH_init :: "nat \<Rightarrow> graph" where
  "GRAPH_init nodes = \<lparr>gnodes = nodes, gmap = (\<lambda>_. []), gbrk = 0\<rparr>"

text \<open>
  The new dependency. Its \<open>time\<close> comes from a local variable \<open>current_time\<close> of value 0.0,
  which hides the simulation clock; the tag and the communicator of a point-to-point action
  are copied from its descriptor.
\<close>

definition make_dependency :: "graph \<Rightarrow> int \<Rightarrow> int \<Rightarrow> int \<Rightarrow> dthread \<Rightarrow> dependency" where
  "make_dependency g from_taskid to_taskid type thread =
     (let (tag, comm) = (case daction_at thread of
            Send _ t c _ \<Rightarrow> (t, c) | Recv _ t c \<Rightarrow> (t, c) | Irecv _ t c \<Rightarrow> (t, c)
          | Wait _ t c \<Rightarrow> (t, c) | _ \<Rightarrow> (0, 0));
          (glop, gcomm) = (if type = GLOP_DEP
             then (case daction_at thread of GlobalOp i c \<Rightarrow> (i, Some c) | _ \<Rightarrow> (0, None))
             else (0, None))
      in \<lparr>daddr = gbrk g, dfrom = from_taskid, dto = to_taskid,
          daction = action_code (daction_at thread), dtype = type,
          p2p_tag = tag, p2p_communic_id = comm, global_op = glop, communicator = gcomm,
          file_offset = doffset thread, dtime = 0\<rparr>)"

definition link_dependency :: "dependency \<Rightarrow> dependency list \<Rightarrow> dependency list" where
  "link_dependency nd ds =
     takeWhile (\<lambda>d. \<not> dto d \<ge> dto nd) ds @ [nd] @ dropWhile (\<lambda>d. \<not> dto d \<ge> dto nd) ds"

definition GRAPH_add_dependency ::
  "int \<Rightarrow> int \<Rightarrow> int \<Rightarrow> dthread \<Rightarrow> graph \<Rightarrow> (dependency \<times> graph) res" where
  "GRAPH_add_dependency from_taskid to_taskid type thread g =
     (let nd = make_dependency g from_taskid to_taskid type thread in
      if type = GLOP_DEP \<or> type = SOFT_DEP \<or> type = STRG_DEP then
        bindE (gsel g from_taskid) (\<lambda>ds.
          Inr (nd, g\<lparr>gmap := (gmap g)(from_taskid := link_dependency nd ds), gbrk := Suc (gbrk g)\<rparr>))
      else Inl AssertFailed)"

definition GRAPH_remove_dependency_p :: "dependency \<Rightarrow> graph \<Rightarrow> graph res" where
  "GRAPH_remove_dependency_p d g =
     bindE (gsel g (dfrom d)) (\<lambda>ds.
       if daddr d \<in> daddr ` set ds
       then Inr (g\<lparr>gmap := (gmap g)(dfrom d := filter (\<lambda>x. daddr x \<noteq> daddr d) ds)\<rparr>)
       else Inl Dangling)"

definition GRAPH_change_action :: "dependency \<Rightarrow> int \<Rightarrow> graph \<Rightarrow> graph res" where
  "GRAPH_change_action d new_action g =
     bindE (gsel g (dfrom d)) (\<lambda>ds.
       if daddr d \<in> daddr ` set ds
       then Inr (g\<lparr>gmap := (gmap g)(dfrom d :=
              map (\<lambda>x. if daddr x = daddr d then x\<lparr>daction := new_action\<rparr> else x) ds)\<rparr>)
       else Inl Dangling)"

text \<open>The tag test made for the point-to-point actions only.\<close>

definition p2p_match :: "int \<Rightarrow> int \<Rightarrow> int \<Rightarrow> dependency \<Rightarrow> bool" where
  "p2p_match action tag comm d \<longleftrightarrow>
     (if action = SEND \<or> action = RECV \<or> action = WAIT \<or> action = IRECV \<or> action = SOFT_ACTION_RESOLVED
      then (p2p_communic_id d = comm \<and> p2p_tag d = tag) \<or> (tag = TAG_ALL \<and> comm = COMMUNIC_ID_ALL)
      else True)"

fun get_dependency_loop ::
  "int \<Rightarrow> int \<Rightarrow> int \<Rightarrow> int \<Rightarrow> int \<Rightarrow> dependency list \<Rightarrow> dependency option" where
  "get_dependency_loop to_taskid type action tag comm [] = None"
| "get_dependency_loop to_taskid type action tag comm (d # ds) =
     (if dto d = to_taskid \<and> (dtype d AND type) \<noteq> 0 \<and> (daction d AND action) \<noteq> 0 then
        if p2p_match action tag comm d then Some d
        else get_dependency_loop to_taskid type action tag comm ds
      else if dto d > to_taskid then None
      else get_dependency_loop to_taskid type action tag comm ds)"

definition GRAPH_get_dependency ::
  "int \<Rightarrow> int \<Rightarrow> int \<Rightarrow> int \<Rightarrow> int \<Rightarrow> int \<Rightarrow> graph \<Rightarrow> dependency option res" where
  "GRAPH_get_dependency from_taskid to_taskid type action tag comm g =
     bindE (gsel g from_taskid) (\<lambda>ds. Inr (get_dependency_loop to_taskid type action tag comm ds))"

definition GRAPH_get_dependencies ::
  "int \<Rightarrow> int \<Rightarrow> int \<Rightarrow> int \<Rightarrow> int \<Rightarrow> int \<Rightarrow> graph \<Rightarrow> dependency list res" where
  "GRAPH_get_dependencies from_taskid to_taskid type action tag comm g =
     bindE (gsel g from_taskid) (\<lambda>ds. Inr (filter (\<lambda>d.
       (dto d = to_taskid \<or> to_taskid = GRAPH_TO_ALL) \<and> (dtype d AND type) \<noteq> 0
       \<and> ((daction d AND action) \<noteq> 0 \<or> action = GRAPH_ALL_ACTIONS)
       \<and> p2p_match action tag comm d) ds))"

definition GRAPH_reset :: "graph \<Rightarrow> graph" where
  "GRAPH_reset g = g\<lparr>gmap := (\<lambda>i. if in_range g i then [] else gmap g i)\<rparr>"

text \<open>
  The search for a cycle. \<open>cap\<close> is the number of integers the caller allocated for the chain,
  and \<open>pfx\<close> the part of the chain written so far (its length is \<open>*deepness\<close>): a write
  behind the allocated block is the fault \<open>OutOfBounds\<close>. The loop over the dependencies of a
  node restores the depth before each of them.
\<close>

definition blocking :: "dependency \<Rightarrow> bool" where
  "blocking d \<longleftrightarrow> dtype d = STRG_DEP \<or> dtype d = GLOP_DEP"

function (sequential) look_for_cycle :: "nat \<Rightarrow> graph \<Rightarrow> int \<Rightarrow> int \<Rightarrow> int list \<Rightarrow> (bool \<times> int list) res"
  and look_deps :: "nat \<Rightarrow> graph \<Rightarrow> int \<Rightarrow> dependency list \<Rightarrow> int list \<Rightarrow> (bool \<times> int list) res" where
  "look_for_cycle cap g rt from pfx =
     (if length pfx \<ge> cap then Inl OutOfBounds
      else if from = rt then Inr (True, pfx @ [from])
      else (case gsel g from of Inl e \<Rightarrow> Inl e | Inr ds \<Rightarrow> look_deps cap g rt ds (pfx @ [from])))"
| "look_deps cap g rt [] pfx = Inr (False, pfx)"
| "look_deps cap g rt (d # ds) pfx =
     (if blocking d then
        (case look_for_cycle cap g rt (dto d) pfx of
           Inl e \<Rightarrow> Inl e
         | Inr (True, c) \<Rightarrow> Inr (True, c)
         | Inr (False, c) \<Rightarrow> look_deps cap g rt ds pfx)
      else look_deps cap g rt ds pfx)"
  by pat_completeness auto
termination
  by (relation "measures [\<lambda>x. case x of Inl (cap, g, rt, from, pfx) \<Rightarrow> cap - length pfx
                             | Inr (cap, g, rt, ds, pfx) \<Rightarrow> cap - length pfx,
                          \<lambda>x. case x of Inl _ \<Rightarrow> 0 | Inr (cap, g, rt, ds, pfx) \<Rightarrow> Suc (length ds)]") auto

declare look_for_cycle.simps [simp del]

definition GRAPH_look_for_cycle :: "nat \<Rightarrow> graph \<Rightarrow> int \<Rightarrow> (bool \<times> int list) res" where
  "GRAPH_look_for_cycle cap g rt =
     bindE (gsel g rt) (\<lambda>ds. if ds \<noteq> [] \<and> cap = 0 then Inl OutOfBounds else look_deps cap g rt ds [rt])"

section \<open>The graph invariant\<close>

text \<open>
  The list of a task is sorted by the target task, its dependencies start at the task, their
  addresses are those of distinct live blocks, every \<open>type\<close> is one of the three the assertion
  lets through, and every \<open>time\<close> is the 0 that \<open>GRAPH_add_dependency\<close> stores.
\<close>

definition deps_ok :: "int \<Rightarrow> nat \<Rightarrow> dependency list \<Rightarrow> bool" where
  "deps_ok i n ds \<longleftrightarrow> sorted (map dto ds) \<and> distinct (map daddr ds) \<and>
     (\<forall>d\<in>set ds. dfrom d = i \<and> daddr d < n \<and> dtime d = 0 \<and>
        dtype d \<in> {STRG_DEP, SOFT_DEP, GLOP_DEP})"

definition graph_ok :: "graph \<Rightarrow> bool" where
  "graph_ok g \<longleftrightarrow> (\<forall>i. deps_ok i (gbrk g) (gmap g i))"

lemma graph_ok_init [simp]: "graph_ok (GRAPH_init n)"
  by (simp add: graph_ok_def deps_ok_def GRAPH_init_def)

lemma deps_ok_mono: "deps_ok i n ds \<Longrightarrow> n \<le> m \<Longrightarrow> deps_ok i m ds"
  by (auto simp: deps_ok_def)

lemma deps_ok_filter: "deps_ok i n ds \<Longrightarrow> deps_ok i n (filter P ds)"
  by (auto simp: deps_ok_def distinct_map_filter sorted_filter)

lemma deps_ok_change:
  "deps_ok i n ds \<Longrightarrow>
   deps_ok i n (map (\<lambda>x. if daddr x = a then x\<lparr>daction := c\<rparr> else x) ds)"
proof -
  assume ok: "deps_ok i n ds"
  have "map dto (map (\<lambda>x. if daddr x = a then x\<lparr>daction := c\<rparr> else x) ds) = map dto ds"
    and "map daddr (map (\<lambda>x. if daddr x = a then x\<lparr>daction := c\<rparr> else x) ds) = map daddr ds"
    by (simp_all add: comp_def if_distrib cong: if_cong)
  moreover have "\<forall>d\<in>set (map (\<lambda>x. if daddr x = a then x\<lparr>daction := c\<rparr> else x) ds).
      dfrom d = i \<and> daddr d < n \<and> dtime d = 0 \<and> dtype d \<in> {STRG_DEP, SOFT_DEP, GLOP_DEP}"
    using ok by (auto simp: deps_ok_def)
  ultimately show ?thesis using ok by (simp only: deps_ok_def)
qed

lemma set_link_dependency [simp]: "set (link_dependency nd ds) = insert nd (set ds)"
  by (metis Un_insert_right append_Cons append_Nil link_dependency_def list.simps(15) set_append
      sup_assoc takeWhile_dropWhile_id)

lemma mset_link_dependency: "mset (link_dependency nd ds) = add_mset nd (mset ds)"
  unfolding link_dependency_def mset_append
  using mset_take_drop_While[of "\<lambda>d. \<not> dto nd \<le> dto d" ds] by (simp add: union_assoc)

lemma sorted_dropWhile_ge:
  "sorted (map f xs) \<Longrightarrow> y \<in> set (dropWhile (\<lambda>d. \<not> f d \<ge> k) xs) \<Longrightarrow> k \<le> (f y :: 'b :: linorder)"
  by (induction xs) (auto split: if_splits)

lemma sorted_link_dependency:
  assumes "sorted (map dto ds)"
  shows "sorted (map dto (link_dependency nd ds))"
proof -
  define t where "t = takeWhile (\<lambda>d. \<not> dto d \<ge> dto nd) ds"
  define u where "u = dropWhile (\<lambda>d. \<not> dto d \<ge> dto nd) ds"
  have "ds = t @ u" by (simp add: t_def u_def)
  with assms have "sorted (map dto t)" "sorted (map dto u)" "\<forall>x\<in>set t. \<forall>y\<in>set u. dto x \<le> dto y"
    by (auto simp: sorted_append)
  moreover have "\<forall>x\<in>set t. dto x \<le> dto nd" by (auto simp: t_def dest: set_takeWhileD)
  moreover have "\<forall>y\<in>set u. dto nd \<le> dto y"
    unfolding u_def by (rule ballI) (rule sorted_dropWhile_ge[OF assms])
  moreover have "link_dependency nd ds = t @ [nd] @ u" by (simp add: link_dependency_def t_def u_def)
  ultimately show ?thesis by (simp add: sorted_append)
qed

lemma deps_ok_link:
  assumes "deps_ok i n ds" "daddr nd = n" "dfrom nd = i" "dtime nd = 0"
    "dtype nd \<in> {STRG_DEP, SOFT_DEP, GLOP_DEP}"
  shows "deps_ok i (Suc n) (link_dependency nd ds)"
proof -
  have "daddr nd \<notin> daddr ` set ds" using assms by (auto simp: deps_ok_def)
  moreover have "distinct (map daddr ds)" using assms by (simp add: deps_ok_def)
  moreover have "mset (map daddr (link_dependency nd ds)) = mset (map daddr (nd # ds))"
    using arg_cong[OF mset_link_dependency[of nd ds], of "image_mset daddr"] by simp
  then have "distinct (map daddr (link_dependency nd ds)) = distinct (map daddr (nd # ds))"
    by (rule mset_eq_imp_distinct_iff)
  ultimately show ?thesis
    using assms sorted_link_dependency[of ds nd] by (auto simp: deps_ok_def)
qed

lemma make_dependency_fields [simp]:
  "daddr (make_dependency g i j ty th) = gbrk g" "dfrom (make_dependency g i j ty th) = i"
  "dto (make_dependency g i j ty th) = j" "dtype (make_dependency g i j ty th) = ty"
  "dtime (make_dependency g i j ty th) = 0"
  "daction (make_dependency g i j ty th) = action_code (daction_at th)"
  "file_offset (make_dependency g i j ty th) = doffset th"
  by (simp_all add: make_dependency_def Let_def split: prod.splits)

lemma add_dependency_shape:
  assumes "GRAPH_add_dependency i j ty th g = Inr (d, g')"
  shows "in_range g i \<and> d = make_dependency g i j ty th \<and> ty \<in> {STRG_DEP, SOFT_DEP, GLOP_DEP} \<and>
    g' = g\<lparr>gmap := (gmap g)(i := link_dependency d (gmap g i)), gbrk := Suc (gbrk g)\<rparr>"
  using assms by (auto simp: GRAPH_add_dependency_def Let_def gsel_def split: if_splits)

lemma add_dependency_ok:
  assumes "graph_ok g" "GRAPH_add_dependency i j ty th g = Inr (d, g')"
  shows "graph_ok g'" "in_range g i" "d = make_dependency g i j ty th" "gnodes g' = gnodes g"
    "gmap g' = (gmap g)(i := link_dependency d (gmap g i))" "gbrk g' = Suc (gbrk g)"
proof -
  note s = add_dependency_shape[OF assms(2)]
  then show "in_range g i" "d = make_dependency g i j ty th" "gnodes g' = gnodes g"
    "gmap g' = (gmap g)(i := link_dependency d (gmap g i))" "gbrk g' = Suc (gbrk g)"
    by simp_all
  have "deps_ok k (gbrk g) (gmap g k)" for k using assms(1) by (simp add: graph_ok_def)
  moreover from this have "deps_ok k (Suc (gbrk g)) (gmap g k)" for k
    using deps_ok_mono le_SucI by blast
  ultimately show "graph_ok g'"
    using s deps_ok_link[of i "gbrk g" "gmap g i" "make_dependency g i j ty th"]
    by (simp add: graph_ok_def)
qed

lemma remove_dependency_shape:
  assumes "GRAPH_remove_dependency_p d g = Inr g'"
  shows "in_range g (dfrom d) \<and> g' = g\<lparr>gmap := (gmap g)(dfrom d :=
    filter (\<lambda>x. daddr x \<noteq> daddr d) (gmap g (dfrom d)))\<rparr>"
  using assms by (simp add: GRAPH_remove_dependency_p_def gsel_def bindE_def del: image_iff split: if_splits)

lemma remove_dependency_ok:
  assumes "graph_ok g" "GRAPH_remove_dependency_p d g = Inr g'"
  shows "graph_ok g'" "gnodes g' = gnodes g" "gbrk g' = gbrk g" "in_range g (dfrom d)"
    "gmap g' = (gmap g)(dfrom d := filter (\<lambda>x. daddr x \<noteq> daddr d) (gmap g (dfrom d)))"
  using assms(1) remove_dependency_shape[OF assms(2)]
  by (simp_all add: graph_ok_def deps_ok_filter)

lemma change_action_shape:
  assumes "GRAPH_change_action d c g = Inr g'"
  shows "in_range g (dfrom d) \<and> g' = g\<lparr>gmap := (gmap g)(dfrom d :=
    map (\<lambda>x. if daddr x = daddr d then x\<lparr>daction := c\<rparr> else x) (gmap g (dfrom d)))\<rparr>"
  using assms by (simp add: GRAPH_change_action_def gsel_def bindE_def del: image_iff split: if_splits)

lemma change_action_ok:
  assumes "graph_ok g" "GRAPH_change_action d c g = Inr g'"
  shows "graph_ok g'" "gnodes g' = gnodes g" "gbrk g' = gbrk g" "in_range g (dfrom d)"
    "gmap g' = (gmap g)(dfrom d :=
       map (\<lambda>x. if daddr x = daddr d then x\<lparr>daction := c\<rparr> else x) (gmap g (dfrom d)))"
  using assms(1) change_action_shape[OF assms(2)]
  by (simp_all add: graph_ok_def deps_ok_change)

section \<open>Lookup\<close>

definition dep_matches :: "int \<Rightarrow> int \<Rightarrow> int \<Rightarrow> int \<Rightarrow> int \<Rightarrow> dependency \<Rightarrow> bool" where
  "dep_matches j ty a tag comm d \<longleftrightarrow>
     dto d = j \<and> (dtype d AND ty) \<noteq> 0 \<and> (daction d AND a) \<noteq> 0 \<and> p2p_match a tag comm d"

lemma get_dependency_loop_find:
  "sorted (map dto ds) \<Longrightarrow>
   get_dependency_loop j ty a tag comm ds = List.find (dep_matches j ty a tag comm) ds"
proof (induction ds)
  case (Cons d ds)
  have "dto d > j \<Longrightarrow> List.find (dep_matches j ty a tag comm) ds = None"
    using Cons.prems by (auto simp: find_None_iff dep_matches_def)
  moreover have "sorted (map dto ds)" using Cons.prems by simp
  ultimately show ?case
    using Cons.IH by (cases "dto d = j"; cases "p2p_match a tag comm d"; simp add: dep_matches_def[of j ty a tag comm d])
qed simp

lemma get_dependency_find:
  assumes "graph_ok g"
  shows "GRAPH_get_dependency i j ty a tag comm g =
    (if in_range g i then Inr (List.find (dep_matches j ty a tag comm) (gmap g i)) else Inl OutOfBounds)"
proof -
  have "sorted (map dto (gmap g i))" using assms by (simp add: graph_ok_def deps_ok_def)
  then show ?thesis
    by (simp add: GRAPH_get_dependency_def gsel_def get_dependency_loop_find)
qed

lemma get_dependency_SomeD:
  assumes "graph_ok g" "GRAPH_get_dependency i j ty a tag comm g = Inr (Some d)"
  shows "d \<in> set (gmap g i)" "dfrom d = i" "dto d = j" "(dtype d AND ty) \<noteq> 0"
    "(daction d AND a) \<noteq> 0" "p2p_match a tag comm d" "in_range g i"
proof -
  have f: "List.find (dep_matches j ty a tag comm) (gmap g i) = Some d" and r: "in_range g i"
    using assms by (auto simp: get_dependency_find split: if_splits)
  from f have m: "d \<in> set (gmap g i)" "dep_matches j ty a tag comm d"
    by (auto simp: find_Some_iff)
  then show "d \<in> set (gmap g i)" "dto d = j" "(dtype d AND ty) \<noteq> 0" "(daction d AND a) \<noteq> 0"
    "p2p_match a tag comm d" by (simp_all add: dep_matches_def)
  show "dfrom d = i" using assms(1) m(1) by (simp add: graph_ok_def deps_ok_def)
  show "in_range g i" by (rule r)
qed

section \<open>The cycle search\<close>

text \<open>
  The blocking relation: task \<open>i\<close> cannot advance before task \<open>j\<close> does. A chain is a walk
  along it; the code's array holds the walk it is on.
\<close>

definition blocks :: "graph \<Rightarrow> (int \<times> int) set" where
  "blocks g = {(i, j). in_range g i \<and> (\<exists>d\<in>set (gmap g i). blocking d \<and> dto d = j)}"

fun walk :: "graph \<Rightarrow> int list \<Rightarrow> bool" where
  "walk g (a # b # xs) = ((a, b) \<in> blocks g \<and> walk g (b # xs))"
| "walk g xs = True"

lemma walk_trancl:
  "walk g xs \<Longrightarrow> 2 \<le> length xs \<Longrightarrow> (hd xs, last xs) \<in> (blocks g)\<^sup>+"
proof (induction g xs rule: walk.induct)
  case (1 g a b xs)
  then show ?case
    by (cases xs) (auto intro: trancl_into_trancl2)
qed auto

lemma look_unfold:
  "look_for_cycle cap g rt from pfx =
     (if cap \<le> length pfx then Inl OutOfBounds
      else if from = rt then Inr (True, pfx @ [from])
      else if in_range g from then look_deps cap g rt (gmap g from) (pfx @ [from])
      else Inl OutOfBounds)"
  by (subst look_for_cycle.simps) (simp add: gsel_def)

lemma chain_sound:
  "look_for_cycle cap g rt from pfx = Inr (True, c) \<Longrightarrow>
     \<exists>ys. c = pfx @ from # ys \<and> last (from # ys) = rt \<and> walk g (from # ys) \<and> length c \<le> cap"
  "look_deps cap g rt ds pfx = Inr (True, c) \<Longrightarrow>
     \<exists>d\<in>set ds. blocking d \<and> (\<exists>ys. c = pfx @ dto d # ys \<and> last (dto d # ys) = rt
       \<and> walk g (dto d # ys) \<and> length c \<le> cap)"
proof (induction cap g rt "from" pfx and cap g rt ds pfx arbitrary: c and c
    rule: look_for_cycle_look_deps.induct)
  case (1 cap g rt "from" pfx)
  show ?case
  proof (cases "from = rt")
    case True
    with "1.prems" have "\<not> cap \<le> length pfx" "c = pfx @ [from]"
      by (simp_all only: True look_unfold[of cap g rt rt pfx] split: if_splits) simp_all
    with True show ?thesis by auto
  next
    case False
    with "1.prems" have n: "\<not> cap \<le> length pfx" and r: "in_range g from"
      and l: "look_deps cap g rt (gmap g from) (pfx @ [from]) = Inr (True, c)"
      by (simp_all only: look_unfold[of cap g rt "from" pfx] split: if_splits) simp_all
    have gs: "gsel g from = Inr (gmap g from)" using r by (simp add: gsel_def)
    from "1.IH"[OF n False gs l] obtain d ys where d: "d \<in> set (gmap g from)" "blocking d"
      and c: "c = (pfx @ [from]) @ dto d # ys" "last (dto d # ys) = rt" "walk g (dto d # ys)"
        "length c \<le> cap" by blast
    then have "(from, dto d) \<in> blocks g" using r by (auto simp: blocks_def)
    with c show ?thesis by (intro exI[of _ "dto d # ys"]) simp
  qed
next
  case (3 cap g rt d ds pfx)
  show ?case
  proof (cases "blocking d")
    case False
    then have "look_deps cap g rt ds pfx = Inr (True, c)" using "3.prems" by simp
    from "3.IH"(3)[OF False this] show ?thesis by auto
  next
    case True
    then obtain b c1 where r: "look_for_cycle cap g rt (dto d) pfx = Inr (b, c1)"
      using "3.prems" by (cases "look_for_cycle cap g rt (dto d) pfx") auto
    show ?thesis
    proof (cases b)
      case True
      with r \<open>blocking d\<close> "3.prems" have "c1 = c" by simp
      with True r have "look_for_cycle cap g rt (dto d) pfx = Inr (True, c)" by simp
      from "3.IH"(1)[OF \<open>blocking d\<close> this] show ?thesis using \<open>blocking d\<close> by auto
    next
      case F: False
      with r True "3.prems" have "look_deps cap g rt ds pfx = Inr (True, c)" by simp
      with "3.IH"(2)[OF True r _ _ this] F show ?thesis by auto
    qed
  qed
qed simp

lemma chain_complete:
  "look_for_cycle cap g rt from pfx = Inr (False, c) \<Longrightarrow> (from, rt) \<notin> (blocks g)\<^sup>*"
  "look_deps cap g rt ds pfx = Inr (False, c) \<Longrightarrow>
     \<forall>d\<in>set ds. blocking d \<longrightarrow> (dto d, rt) \<notin> (blocks g)\<^sup>*"
proof (induction cap g rt "from" pfx and cap g rt ds pfx arbitrary: c and c
    rule: look_for_cycle_look_deps.induct)
  case (1 cap g rt "from" pfx)
  from "1.prems" have n: "\<not> cap \<le> length pfx" and ne: "from \<noteq> rt" and r: "in_range g from"
    and l: "look_deps cap g rt (gmap g from) (pfx @ [from]) = Inr (False, c)"
    by (simp_all only: look_unfold[of cap g rt "from" pfx] split: if_splits) simp_all
  have gs: "gsel g from = Inr (gmap g from)" using r by (simp add: gsel_def)
  show ?case
  proof
    assume "(from, rt) \<in> (blocks g)\<^sup>*"
    then obtain y where "(from, y) \<in> blocks g" "(y, rt) \<in> (blocks g)\<^sup>*"
      using ne by (metis converse_rtranclE)
    then show False using "1.IH"[OF n ne gs l] by (auto simp: blocks_def)
  qed
next
  case (3 cap g rt d ds pfx)
  show ?case
  proof (cases "blocking d")
    case False
    then have "look_deps cap g rt ds pfx = Inr (False, c)" using "3.prems" by simp
    from "3.IH"(3)[OF False this] False show ?thesis by simp
  next
    case True
    then obtain b c1 where r: "look_for_cycle cap g rt (dto d) pfx = Inr (b, c1)"
      using "3.prems" by (cases "look_for_cycle cap g rt (dto d) pfx") auto
    have b: "b = False" using r True "3.prems" by (cases b) auto
    with r have r': "look_for_cycle cap g rt (dto d) pfx = Inr (False, c1)" by simp
    then have l: "look_deps cap g rt ds pfx = Inr (False, c)" using True "3.prems" by simp
    have "\<forall>d\<in>set ds. blocking d \<longrightarrow> (dto d, rt) \<notin> (blocks g)\<^sup>*"
      using "3.IH"(2)[OF True r _ _ l] b by simp
    with "3.IH"(1)[OF True r'] show ?thesis by simp
  qed
qed simp

lemma chain_error:
  "look_for_cycle cap g rt from pfx = Inl e \<Longrightarrow> e = OutOfBounds"
  "look_deps cap g rt ds pfx = Inl e \<Longrightarrow> e = OutOfBounds"
proof (induction cap g rt "from" pfx and cap g rt ds pfx
    rule: look_for_cycle_look_deps.induct)
  case (1 cap g rt "from" pfx)
  then show ?case
    by (cases "cap \<le> length pfx"; cases "from = rt"; cases "in_range g from")
      (simp_all add: look_unfold[of cap g rt "from" pfx] look_unfold[of cap g rt rt pfx] gsel_def)
next
  case (3 cap g rt d ds pfx)
  then show ?case
    by (auto split: if_splits sum.splits prod.splits bool.splits)
qed simp

text \<open>
  Termination with an answer. Away from the root the blocking relation is acyclic when every
  cycle so far was reported, so the walk in the array never repeats a task and
  \<open>gnodes g + 1\<close> integers are enough.
\<close>

definition avoiding :: "graph \<Rightarrow> int \<Rightarrow> (int \<times> int) set" where
  "avoiding g rt = {(i, j). (i, j) \<in> blocks g \<and> i \<noteq> rt}"

definition targets_ok :: "graph \<Rightarrow> bool" where
  "targets_ok g \<longleftrightarrow> (\<forall>i j. (i, j) \<in> blocks g \<longrightarrow> in_range g j)"

definition chain_ok :: "graph \<Rightarrow> int list \<Rightarrow> bool" where
  "chain_ok g pfx \<longleftrightarrow> distinct pfx \<and> (\<forall>x\<in>set pfx. in_range g x)"

lemma chain_ok_length: "chain_ok g pfx \<Longrightarrow> length pfx \<le> gnodes g"
proof -
  assume "chain_ok g pfx"
  then have "distinct pfx" "set pfx \<subseteq> {0..<int (gnodes g)}"
    by (auto simp: chain_ok_def in_range_def)
  then have "length pfx \<le> card {0..<int (gnodes g)}"
    by (metis card_mono distinct_card finite_atLeastLessThan_int)
  then show ?thesis by simp
qed

lemma chain_total:
  assumes t: "targets_ok g" and ac: "acyclic (avoiding g rt)" and cap: "gnodes g < cap"
  shows "chain_ok g pfx \<Longrightarrow> in_range g from \<Longrightarrow> rt \<in> set pfx \<Longrightarrow>
      \<forall>x\<in>set pfx. x \<noteq> rt \<longrightarrow> (x, from) \<in> (avoiding g rt)\<^sup>+ \<Longrightarrow>
      \<exists>r. look_for_cycle cap g rt from pfx = Inr r"
    and "chain_ok g pfx \<Longrightarrow> in_range g f \<Longrightarrow> rt \<in> set pfx \<Longrightarrow> set ds \<subseteq> set (gmap g f) \<Longrightarrow>
      f \<noteq> rt \<or> set pfx = {rt} \<Longrightarrow>
      \<forall>x\<in>set pfx. x \<noteq> rt \<longrightarrow> (x, f) \<in> (avoiding g rt)\<^sup>* \<Longrightarrow>
      \<exists>r. look_deps cap g rt ds pfx = Inr r"
  using cap t ac
proof (induction cap g rt "from" pfx and cap g rt ds pfx arbitrary: and f
    rule: look_for_cycle_look_deps.induct)
  case (1 cap g rt "from" pfx)
  from chain_ok_length[OF "1.prems"(1)] "1.prems"(5) have n: "\<not> cap \<le> length pfx" by simp
  show ?case
  proof (cases "from = rt")
    case True
    with n have "look_for_cycle cap g rt from pfx = Inr (True, pfx @ [rt])"
      by (simp add: look_unfold[of cap g rt rt pfx])
    then show ?thesis by blast
  next
    case False
    have "from \<notin> set pfx" using "1.prems"(4,7) False by (auto simp: acyclic_def)
    then have "chain_ok g (pfx @ [from])" using "1.prems"(1,2) by (auto simp: chain_ok_def)
    moreover have "gsel g from = Inr (gmap g from)" using "1.prems"(2) by (simp add: gsel_def)
    moreover have "\<forall>x\<in>set (pfx @ [from]). x \<noteq> rt \<longrightarrow> (x, from) \<in> (avoiding g rt)\<^sup>*"
      using "1.prems"(4) by (auto intro: trancl_into_rtrancl)
    ultimately show ?thesis
      using "1.IH"[of "gmap g from" "from"] n False "1.prems"
      by (simp add: look_unfold[of cap g rt "from" pfx])
  qed
next
  case (2 cap g rt pfx)
  have "look_deps cap g rt [] pfx = Inr (False, pfx)" by simp
  then show ?case by blast
next
  case (3 cap g rt d ds pfx)
  have rest: "set ds \<subseteq> set (gmap g f)" and d: "d \<in> set (gmap g f)" using "3.prems"(4) by auto
  show ?case
  proof (cases "blocking d")
    case False
    with "3.IH"(3)[OF False "3.prems"(1-3) rest "3.prems"(5-9)] show ?thesis by simp
  next
    case True
    then have e: "(f, dto d) \<in> blocks g" using d "3.prems"(2) by (auto simp: blocks_def)
    then have r: "in_range g (dto d)" using "3.prems"(8) by (auto simp: targets_ok_def)
    have "\<forall>x\<in>set pfx. x \<noteq> rt \<longrightarrow> (x, dto d) \<in> (avoiding g rt)\<^sup>+"
    proof (intro ballI impI)
      fix x assume x: "x \<in> set pfx" "x \<noteq> rt"
      with "3.prems"(5) have "(f, dto d) \<in> avoiding g rt" using e by (auto simp: avoiding_def)
      with x "3.prems"(6) show "(x, dto d) \<in> (avoiding g rt)\<^sup>+"
        by (meson rtrancl_into_trancl1)
    qed
    from "3.IH"(1)[OF True "3.prems"(1) r "3.prems"(3) this "3.prems"(7-9)]
    obtain b c where l: "look_for_cycle cap g rt (dto d) pfx = Inr (b, c)" by auto
    show ?thesis
    proof (cases b)
      case True
      with l \<open>blocking d\<close> have "look_deps cap g rt (d # ds) pfx = Inr (True, c)" by simp
      then show ?thesis by blast
    next
      case F: False
      have "\<exists>r. look_deps cap g rt ds pfx = Inr r"
        using "3.IH"(2)[OF True l _ _ "3.prems"(1-3) rest "3.prems"(5-9)] F by simp
      with F l True show ?thesis by simp
    qed
  qed
qed

lemma GRAPH_look_for_cycle_result:
  assumes "GRAPH_look_for_cycle cap g rt = Inr (b, c)"
  shows "b \<longleftrightarrow> (rt, rt) \<in> (blocks g)\<^sup>+" "in_range g rt"
    "b \<Longrightarrow> hd c = rt \<and> last c = rt \<and> 2 \<le> length c \<and> length c \<le> cap \<and> walk g c"
proof -
  have r: "in_range g rt" and l: "look_deps cap g rt (gmap g rt) [rt] = Inr (b, c)"
    using assms by (auto simp: GRAPH_look_for_cycle_def gsel_def split: if_splits)
  have chain: "hd c = rt \<and> last c = rt \<and> 2 \<le> length c \<and> length c \<le> cap \<and> walk g c" if b
  proof -
    from l that obtain d ys where d: "d \<in> set (gmap g rt)" "blocking d"
      and c: "c = [rt] @ dto d # ys" "last (dto d # ys) = rt" "walk g (dto d # ys)" "length c \<le> cap"
      using chain_sound(2)[of cap g rt "gmap g rt" "[rt]" c] by auto
    from d r have "(rt, dto d) \<in> blocks g" by (auto simp: blocks_def)
    with c show ?thesis by simp
  qed
  then show "b \<Longrightarrow> hd c = rt \<and> last c = rt \<and> 2 \<le> length c \<and> length c \<le> cap \<and> walk g c" by simp
  show "in_range g rt" by (rule r)
  show "b \<longleftrightarrow> (rt, rt) \<in> (blocks g)\<^sup>+"
  proof (cases b)
    case True
    with chain walk_trancl[of g c] show ?thesis by auto
  next
    case False
    then have "\<forall>d\<in>set (gmap g rt). blocking d \<longrightarrow> (dto d, rt) \<notin> (blocks g)\<^sup>*"
      using chain_complete(2)[of cap g rt "gmap g rt" "[rt]" c] l by simp
    then have "(rt, rt) \<notin> (blocks g)\<^sup>+"
      by (auto simp: blocks_def dest!: tranclD)
    with False show ?thesis by simp
  qed
qed

lemma GRAPH_look_for_cycle_total:
  assumes "targets_ok g" "acyclic (avoiding g rt)" "gnodes g < cap" "in_range g rt"
  shows "\<exists>b c. GRAPH_look_for_cycle cap g rt = Inr (b, c)"
  using chain_total(2)[OF assms(1-3), of "[rt]" rt "gmap g rt"] assms
  by (auto simp: GRAPH_look_for_cycle_def gsel_def chain_ok_def)

lemma deps_ok_dtype:
  "graph_ok g \<Longrightarrow> d \<in> set (gmap g i) \<Longrightarrow> dtype d \<in> {STRG_DEP, SOFT_DEP, GLOP_DEP}"
  by (auto simp: graph_ok_def deps_ok_def)

lemma deps_ok_dfrom: "graph_ok g \<Longrightarrow> d \<in> set (gmap g i) \<Longrightarrow> dfrom d = i"
  by (auto simp: graph_ok_def deps_ok_def)

lemma dep_type_masks:
  assumes "graph_ok g" "d \<in> set (gmap g i)"
  shows "(dtype d AND STRG_DEP) \<noteq> 0 \<longleftrightarrow> dtype d = STRG_DEP"
    "(dtype d AND SOFT_DEP) \<noteq> 0 \<longleftrightarrow> dtype d = SOFT_DEP"
    "(dtype d AND GLOP_DEP) \<noteq> 0 \<longleftrightarrow> dtype d = GLOP_DEP"
    "(dtype d AND (STRG_DEP OR GLOP_DEP)) \<noteq> 0 \<longleftrightarrow> blocking d"
  using deps_ok_dtype[OF assms] by (auto simp: STRG_DEP_def SOFT_DEP_def GLOP_DEP_def blocking_def)

text \<open>How each operation changes the blocking relation.\<close>

lemma mem_blocks:
  "(a, b) \<in> blocks g \<longleftrightarrow> in_range g a \<and> (\<exists>d\<in>set (gmap g a). blocking d \<and> dto d = b)"
  by (simp add: blocks_def)

lemma blocks_add:
  assumes "graph_ok g" "GRAPH_add_dependency i j ty th g = Inr (d, g')"
  shows "blocks g' = (if ty = SOFT_DEP then blocks g else insert (i, j) (blocks g))"
proof -
  note s = add_dependency_ok[OF assms]
  have b: "blocking d \<longleftrightarrow> ty \<noteq> SOFT_DEP"
    using add_dependency_shape[OF assms(2)] by (auto simp: blocking_def code_defs)
  have dj: "dto d = j" using s(3) by simp
  have "(a, b) \<in> blocks g' \<longleftrightarrow> (a, b) \<in> blocks g \<or> (blocking d \<and> (a, b) = (i, j))" for a b
    using s(2) dj by (auto simp: mem_blocks in_range_def s(4,5))
  then show ?thesis using b by auto
qed

lemma blocks_remove:
  assumes "GRAPH_remove_dependency_p d g = Inr g'"
  shows "blocks g' \<subseteq> blocks g"
  using remove_dependency_shape[OF assms] by (auto simp: blocks_def in_range_def split: if_splits)

lemma blocks_change:
  assumes "GRAPH_change_action d c g = Inr g'"
  shows "blocks g' = blocks g"
proof -
  note s = change_action_shape[OF assms]
  have m: "gmap g' = (gmap g)(dfrom d :=
      map (\<lambda>x. if daddr x = daddr d then x\<lparr>daction := c\<rparr> else x) (gmap g (dfrom d)))"
    and n: "gnodes g' = gnodes g" using s by simp_all
  have "(\<exists>x\<in>set (map (\<lambda>x. if daddr x = daddr d then x\<lparr>daction := c\<rparr> else x) ds). blocking x \<and> dto x = j)
      \<longleftrightarrow> (\<exists>x\<in>set ds. blocking x \<and> dto x = j)" for ds j
    by (induction ds) (auto simp: blocking_def)
  then have "(a, b) \<in> blocks g' \<longleftrightarrow> (a, b) \<in> blocks g" for a b
    unfolding mem_blocks in_range_def m n by (cases "a = dfrom d") simp_all
  then show ?thesis by auto
qed

section \<open>Properties\<close>

text \<open>
  Looking a dependency up gives the first one, in the task's list, of the target
  task whose type and action share a bit with the masks and whose tag and communicator agree:
  the early exit at a greater target loses nothing, because every operation keeps the list
  sorted.
\<close>

theorem get_dependency_scans_all:
  assumes "graph_ok g" "in_range g i"
  shows "GRAPH_get_dependency i j ty a tag comm g =
    Inr (List.find (\<lambda>d. dto d = j \<and> (dtype d AND ty) \<noteq> 0 \<and> (daction d AND a) \<noteq> 0 \<and>
       p2p_match a tag comm d) (gmap g i))"
  using get_dependency_find[OF assms(1), of i j ty a tag comm] assms(2)
  by (simp add: dep_matches_def[abs_def])

definition demo_dep :: "nat \<Rightarrow> int \<Rightarrow> int \<Rightarrow> int \<Rightarrow> dependency" where
  "demo_dep ad i j act = \<lparr>daddr = ad, dfrom = i, dto = j, daction = act, dtype = STRG_DEP,
     p2p_tag = 5, p2p_communic_id = 1, global_op = 0, communicator = None, file_offset = 10 * ad,
     dtime = 0\<rparr>"

definition demo_ring :: "nat \<Rightarrow> graph" where
  "demo_ring n = \<lparr>gnodes = n, gmap = (\<lambda>i. if i = 0 then [demo_dep 0 0 1 SEND]
     else if i = 1 then [demo_dep 1 1 0 RECV] else []), gbrk = 2\<rparr>"

lemma demo_ring_ok: "graph_ok (demo_ring n)"
  by (simp add: graph_ok_def deps_ok_def demo_ring_def demo_dep_def)

lemma demo_ring_blocks: "2 \<le> n \<Longrightarrow> blocks (demo_ring n) = {(0, 1), (1, 0)}"
  by (auto simp: blocks_def demo_ring_def demo_dep_def in_range_def blocking_def split: if_splits)

theorem get_dependency_scans_all_witness:
  "GRAPH_get_dependency 1 0 STRG_DEP RECV 5 1 (demo_ring 2) = Inr (Some (demo_dep 1 1 0 RECV))"
  using get_dependency_scans_all[OF demo_ring_ok, of 2 1 0 STRG_DEP RECV 5 1]
  by (simp add: demo_ring_def in_range_def demo_dep_def p2p_match_def code_defs)

text \<open>
  Property C3. The cycle search, given room for one integer more than there are tasks, always
  ends with an answer when the blocking relation is acyclic away from the task it starts from;
  the answer is true exactly when the task is on a cycle of blocked tasks, and the chain it
  then leaves is a walk along the dependencies from the task to itself.
\<close>

theorem cycle_search_correct:
  assumes "targets_ok g" "acyclic (avoiding g rt)" "gnodes g < cap" "in_range g rt"
  shows "\<exists>b c. GRAPH_look_for_cycle cap g rt = Inr (b, c) \<and>
    (b \<longleftrightarrow> (rt, rt) \<in> (blocks g)\<^sup>+) \<and>
    (b \<longrightarrow> hd c = rt \<and> last c = rt \<and> 2 \<le> length c \<and> length c \<le> cap \<and> walk g c)"
proof -
  obtain b c where "GRAPH_look_for_cycle cap g rt = Inr (b, c)"
    using GRAPH_look_for_cycle_total[OF assms] by blast
  with GRAPH_look_for_cycle_result[OF this] show ?thesis by blast
qed

theorem cycle_search_correct_witness:
  "\<exists>b c. GRAPH_look_for_cycle 3 (demo_ring 2) 0 = Inr (b, c) \<and> b \<and> walk (demo_ring 2) c"
proof -
  have bl: "blocks (demo_ring 2) = {(0, 1), (1, 0)}" by (rule demo_ring_blocks) simp
  have t: "targets_ok (demo_ring 2)"
    unfolding targets_ok_def bl by (auto simp: in_range_def demo_ring_def)
  have av: "avoiding (demo_ring 2) 0 = {(1, 0)}" by (auto simp: avoiding_def bl)
  have "acyclic {(1, 0) :: int \<times> int}" by (simp add: acyclic_insert) (simp add: acyclic_def)
  then have ac: "acyclic (avoiding (demo_ring 2) 0)" by (simp only: av)
  have "(0, 1) \<in> (blocks (demo_ring 2))\<^sup>+" "(1, 0) \<in> blocks (demo_ring 2)" by (auto simp: bl)
  then have "(0, 0) \<in> (blocks (demo_ring 2))\<^sup>+" by (rule trancl_into_trancl)
  with cycle_search_correct[OF t ac, of 3] show ?thesis
    by (auto simp: demo_ring_def in_range_def)
qed

text \<open>The operations of the graph as a client calls them.\<close>

datatype graph_op =
    Add int int int dthread
  | Remove dependency
  | Change dependency int
  | Reset

fun graph_step :: "graph_op \<Rightarrow> graph \<Rightarrow> graph res" where
  "graph_step (Add i j ty th) g = bindE (GRAPH_add_dependency i j ty th g) (\<lambda>(_, g1). Inr g1)"
| "graph_step (Remove d) g = GRAPH_remove_dependency_p d g"
| "graph_step (Change d a) g = GRAPH_change_action d a g"
| "graph_step Reset g = Inr (GRAPH_reset g)"

fun graph_run :: "graph_op list \<Rightarrow> graph \<Rightarrow> graph res" where
  "graph_run [] g = Inr g"
| "graph_run (x # xs) g = bindE (graph_step x g) (graph_run xs)"

lemma graph_ok_reset: "graph_ok g \<Longrightarrow> graph_ok (GRAPH_reset g)"
  by (simp add: graph_ok_def GRAPH_reset_def deps_ok_def)

lemma graph_step_ok:
  assumes "graph_step x g = Inr g1" "graph_ok g"
  shows "graph_ok g1"
proof (cases x)
  case (Add i j ty th)
  with assms(1) obtain d where "GRAPH_add_dependency i j ty th g = Inr (d, g1)"
    by (auto simp: bindE_eq_Inr)
  with assms(2) show ?thesis by (rule add_dependency_ok(1))
next
  case (Remove d)
  with assms show ?thesis using remove_dependency_ok(1)[of g d g1] by simp
next
  case (Change d a)
  with assms show ?thesis using change_action_ok(1)[of g d a g1] by simp
next
  case Reset
  with assms graph_ok_reset[of g] show ?thesis by auto
qed

lemma graph_run_ok: "graph_run xs g = Inr g1 \<Longrightarrow> graph_ok g \<Longrightarrow> graph_ok g1"
proof (induction xs arbitrary: g)
  case (Cons x xs)
  then obtain g2 where "graph_step x g = Inr g2" "graph_run xs g2 = Inr g1"
    by (auto simp: bindE_eq_Inr)
  with Cons.IH Cons.prems(2) graph_step_ok show ?case by blast
qed simp

text \<open>
  Property C4. However the analyser adds, removes and relabels dependencies and resets the
  graph, every list stays sorted by target task, holds the dependencies of its own task only,
  and holds no block twice.
\<close>

theorem graph_runs_stay_sorted:
  assumes "graph_run ops (GRAPH_init n) = Inr g"
  shows "sorted (map dto (gmap g i)) \<and> distinct (map daddr (gmap g i)) \<and>
    (\<forall>d\<in>set (gmap g i). dfrom d = i)"
  using graph_run_ok[OF assms graph_ok_init] unfolding graph_ok_def deps_ok_def by blast

definition demo_thread :: "int \<Rightarrow> trace_action \<Rightarrow> dthread" where
  "demo_thread i a = \<lparr>ptaskid = 1, dtaskid = i, dthreadid = 0, daction_at = a, doffset = 40\<rparr>"

theorem graph_runs_stay_sorted_witness:
  "\<exists>g. graph_run [Add 0 2 STRG_DEP (demo_thread 0 (Recv 2 5 1)), Add 0 1 SOFT_DEP (demo_thread 0 (Irecv 1 5 1))]
     (GRAPH_init 3) = Inr g \<and> map dto (gmap g 0) = [1, 2] \<and> sorted (map dto (gmap g 0))"
proof -
  let ?ops = "[Add 0 2 STRG_DEP (demo_thread 0 (Recv 2 5 1)), Add 0 1 SOFT_DEP (demo_thread 0 (Irecv 1 5 1))]"
  obtain g where g: "graph_run ?ops (GRAPH_init 3) = Inr g" and m: "map dto (gmap g 0) = [1, 2]"
    by (simp add: GRAPH_add_dependency_def GRAPH_init_def gsel_def in_range_def link_dependency_def Let_def)
  have "sorted (map dto (gmap g 0))" using graph_runs_stay_sorted[OF g, of 0] by (rule conjunct1)
  with g m show ?thesis by (intro exI[of _ g] conjI)
qed

end
