(* ===== verification/Deadlock.thy ===== *)
theory Deadlock
  imports Graph Queue "HOL-Library.Word"
begin

text \<open>
  \<^verbatim>\<open>Simulator/utils/deadlock_analysis.c\<close>: the online deadlock analyser on top of theory
  \<open>Graph\<close>. Every communication event of a thread updates the dependency graph; a blocking
  event then looks for a cycle through the task and, when there is one, chooses an operation of
  the chain that the restarted simulation will ignore. The progression of the thread in its
  trace (\<open>DAP_get_progression\<close>) is an argument; the \<open>.estats\<close> file is the component
  \<open>extra_stats\<close> of the state (\<open>None\<close> when \<open>stat\<close> fails). Log output is not modelled.
\<close>

section \<open>State\<close>

definition ISEND :: int where "ISEND = 1001"

type_synonym thread_key = "int \<times> int \<times> int"

record trace_operation =
  op_Ptask_id :: int
  op_task_id :: int
  op_thread_id :: int
  op_file_offset :: nat

record t_estats =
  pendent_i_Send :: "32 word"
  pendent_i_Recv :: "32 word"
  pendent_glop :: "32 word"

text \<open>The tasks of an application, with the identity of the first thread of each.\<close>

record task_entry =
  taskid :: int
  thread0 :: thread_key

record analyzer =
  dep_graph :: graph
  total_ranks :: nat
  end_analysis_tpercent :: real
  with_deadlock_analysis :: bool
  simulation_rebooted :: bool
  Ptask_queue :: "task_entry list list"
  communicators :: "int \<Rightarrow> int list option"
  ops_to_be_ignored :: "thread_key \<Rightarrow> trace_operation list"
  extra_stats :: "(int \<Rightarrow> t_estats) option"
  estats_per_rank :: "(int \<Rightarrow> t_estats) option"

definition gop :: "(graph \<Rightarrow> graph res) \<Rightarrow> analyzer \<Rightarrow> analyzer res" where
  "gop f s = bindE (f (dep_graph s)) (\<lambda>g. Inr (s\<lparr>dep_graph := g\<rparr>))"

definition add_dep ::
  "int \<Rightarrow> int \<Rightarrow> int \<Rightarrow> dthread \<Rightarrow> analyzer \<Rightarrow> (dependency \<times> analyzer) res" where
  "add_dep i j ty th s =
     bindE (GRAPH_add_dependency i j ty th (dep_graph s)) (\<lambda>(d, g). Inr (d, s\<lparr>dep_graph := g\<rparr>))"

definition key_of :: "dthread \<Rightarrow> thread_key" where
  "key_of th = (ptaskid th, dtaskid th, dthreadid th)"

definition get_thread_by_task_id :: "int \<Rightarrow> analyzer \<Rightarrow> thread_key option" where
  "get_thread_by_task_id i s =
     map_option thread0 (List.find (\<lambda>t. taskid t = i) (concat (Ptask_queue s)))"

definition DEADLOCK_init :: "nat \<Rightarrow> real \<Rightarrow> analyzer \<Rightarrow> analyzer" where
  "DEADLOCK_init ranks p s =
     s\<lparr>total_ranks := ranks, estats_per_rank := None, end_analysis_tpercent := p,
       dep_graph := GRAPH_init ranks\<rparr>"

definition DEADLOCK_reset :: "analyzer \<Rightarrow> analyzer" where
  "DEADLOCK_reset s = s\<lparr>dep_graph := GRAPH_reset (dep_graph s)\<rparr>"

section \<open>Choosing the operation to ignore\<close>

text \<open>The lookup every user of a chain makes for one of its steps.\<close>

definition chain_dep :: "graph \<Rightarrow> int \<Rightarrow> int \<Rightarrow> dependency res" where
  "chain_dep g a b =
     bindE (GRAPH_get_dependency a b (STRG_DEP OR GLOP_DEP) GRAPH_ALL_ACTIONS TAG_ALL COMMUNIC_ID_ALL g)
       (\<lambda>r. case r of None \<Rightarrow> Inl NullDeref | Some d \<Rightarrow> Inr d)"

fun earlier_loop ::
  "graph \<Rightarrow> bool \<Rightarrow> int \<Rightarrow> int list \<Rightarrow> timer \<times> int \<Rightarrow> (timer \<times> int) res" where
  "earlier_loop g ign i (a # b # cs) (earlier, idx) =
     bindE (chain_dep g a b) (\<lambda>d.
       earlier_loop g ign (i + 1) (b # cs)
         (if idx = -1 then (dtime d, i)
          else if dtime d < earlier \<and> (daction d \<noteq> GLOBAL_OP \<or> \<not> ign) then (dtime d, i)
          else (earlier, idx)))"
| "earlier_loop g ign i _ acc = Inr acc"

definition get_earlier_task_index :: "graph \<Rightarrow> int list \<Rightarrow> bool \<Rightarrow> int res" where
  "get_earlier_task_index g chain ignore_glops =
     bindE (earlier_loop g ignore_glops 0 chain (0, -1)) (\<lambda>(_, i). Inr i)"

datatype pend_field = PSend | PRecv | PGlop

definition pend :: "pend_field \<Rightarrow> t_estats \<Rightarrow> 32 word" where
  "pend f e = (case f of PSend \<Rightarrow> pendent_i_Send e | PRecv \<Rightarrow> pendent_i_Recv e | PGlop \<Rightarrow> pendent_glop e)"

definition pend_dec :: "pend_field \<Rightarrow> t_estats \<Rightarrow> t_estats" where
  "pend_dec f e = (case f of
      PSend \<Rightarrow> e\<lparr>pendent_i_Send := pendent_i_Send e - 1\<rparr>
    | PRecv \<Rightarrow> e\<lparr>pendent_i_Recv := pendent_i_Recv e - 1\<rparr>
    | PGlop \<Rightarrow> e\<lparr>pendent_glop := pendent_glop e - 1\<rparr>)"

text \<open>The \<open>switch\<close> of \<open>breakChainFrom\<close>: which counter an action is compared by.\<close>

definition field_of_action :: "int \<Rightarrow> pend_field res" where
  "field_of_action a =
     (if a = SEND \<or> a = ISEND then Inr PSend
      else if a = IRECV \<or> a = RECV \<or> a = WAIT then Inr PRecv
      else if a = GLOBAL_OP then Inr PGlop
      else Inl AssertFailed)"

record choice =
  pendent_pointer :: "(int \<times> pend_field) option"
  max_pendent :: "32 word"
  position_chosed_thread :: int
  sum_pendent_glops :: "32 word"

fun break_loop :: "graph \<Rightarrow> (int \<Rightarrow> t_estats) \<Rightarrow> int \<Rightarrow> int list \<Rightarrow> choice \<Rightarrow> choice res" where
  "break_loop g ep i (a # b # cs) c =
     bindE (bindE (GRAPH_get_dependency a b (STRG_DEP OR GLOP_DEP) GRAPH_ALL_ACTIONS TAG_ALL COMMUNIC_ID_ALL g)
              (\<lambda>r. case r of None \<Rightarrow> Inl AssertFailed | Some d \<Rightarrow> Inr d)) (\<lambda>d.
     bindE (field_of_action (daction d)) (\<lambda>f.
       let c1 = (if f = PGlop
                 then c\<lparr>sum_pendent_glops := sum_pendent_glops c + pendent_glop (ep a)\<rparr> else c);
           c2 = (if pend f (ep a) > max_pendent c1
                 then c1\<lparr>max_pendent := pend f (ep a), position_chosed_thread := i,
                         pendent_pointer := Some (a, f)\<rparr>
                 else c1)
       in break_loop g ep (i + 1) (b # cs) c2))"
| "break_loop g ep i _ c = Inr c"

definition breakChainFrom :: "int list \<Rightarrow> analyzer \<Rightarrow> (int \<times> analyzer) res" where
  "breakChainFrom chain s =
     bindE (case estats_per_rank s of
              Some ep \<Rightarrow> Inr ep
            | None \<Rightarrow> (case extra_stats s of None \<Rightarrow> Inl AssertFailed | Some ep \<Rightarrow> Inr ep)) (\<lambda>ep.
     let s1 = s\<lparr>estats_per_rank := Some ep\<rparr> in
     bindE (break_loop (dep_graph s) ep 0 chain
              \<lparr>pendent_pointer = None, max_pendent = 0, position_chosed_thread = 0,
               sum_pendent_glops = 0\<rparr>) (\<lambda>c.
     case pendent_pointer c of
       None \<Rightarrow> bindE (get_earlier_task_index (dep_graph s) chain (sum_pendent_glops c = 0))
                 (\<lambda>i. Inr (i, s1))
     | Some (r, f) \<Rightarrow>
         Inr (position_chosed_thread c, s1\<lparr>estats_per_rank := Some (ep(r := pend_dec f (ep r)))\<rparr>)))"

section \<open>Detecting a deadlock\<close>

fun log_chain :: "graph \<Rightarrow> int list \<Rightarrow> unit res" where
  "log_chain g (a # b # cs) = bindE (chain_dep g a b) (\<lambda>_. log_chain g (b # cs))"
| "log_chain g _ = Inr ()"

definition ignore_op :: "thread_key \<Rightarrow> nat \<Rightarrow> analyzer \<Rightarrow> analyzer" where
  "ignore_op k off s =
     s\<lparr>ops_to_be_ignored := (ops_to_be_ignored s)(k :=
         seq_insert (\<lambda>x. real (op_file_offset x))
           \<lparr>op_Ptask_id = fst k, op_task_id = fst (snd k), op_thread_id = snd (snd k),
            op_file_offset = off\<rparr>
           (ops_to_be_ignored s k))\<rparr>"

text \<open>
  \<open>_is_deadlocked\<close> allocates \<open>sizeof(int)*total_ranks+1\<close> bytes for the chain: room for
  \<open>total_ranks\<close> integers, not \<open>total_ranks + 1\<close>.
\<close>

definition chain_capacity :: "analyzer \<Rightarrow> nat" where
  "chain_capacity s = (4 * total_ranks s + 1) div 4"

definition is_deadlocked :: "int \<Rightarrow> analyzer \<Rightarrow> (bool \<times> analyzer) res" where
  "is_deadlocked from s =
     bindE (GRAPH_look_for_cycle (chain_capacity s) (dep_graph s) from) (\<lambda>(r, chain).
     if \<not> r then Inr (False, s) else
     bindE (log_chain (dep_graph s) chain) (\<lambda>_.
     bindE (if extra_stats s = None
            then bindE (get_earlier_task_index (dep_graph s) chain False) (\<lambda>i. Inr (i, s))
            else breakChainFrom chain s) (\<lambda>(pos, s1).
     if pos < 0 \<or> nat pos + 1 \<ge> length chain then Inl OutOfBounds else
     bindE (chain_dep (dep_graph s1) (chain ! nat pos) (chain ! (nat pos + 1))) (\<lambda>d.
     case get_thread_by_task_id (chain ! nat pos) s1 of
       None \<Rightarrow> Inl NullDeref
     | Some k \<Rightarrow> Inr (True, (ignore_op k (file_offset d) s1)\<lparr>simulation_rebooted := True\<rparr>)))))"

text \<open>Add a strong dependency and look for a cycle, the tail of several branches.\<close>

definition add_strong :: "int \<Rightarrow> dthread \<Rightarrow> analyzer \<Rightarrow> (bool \<times> analyzer) res" where
  "add_strong j th s =
     bindE (add_dep (dtaskid th) j STRG_DEP th s) (\<lambda>(_, s1). is_deadlocked (dtaskid th) s1)"

section \<open>The communication events\<close>

definition on_send :: "int \<Rightarrow> int \<Rightarrow> int \<Rightarrow> bool \<Rightarrow> dthread \<Rightarrow> analyzer \<Rightarrow> (bool \<times> analyzer) res" where
  "on_send to tag comm rendez th s =
     (let from = dtaskid th; g = dep_graph s in
      bindE (GRAPH_get_dependency to from STRG_DEP (RECV OR WAIT) tag comm g) (\<lambda>dep.
      bindE (GRAPH_get_dependencies to from SOFT_DEP IRECV tag comm g) (\<lambda>deps.
      case (if \<exists>d. dep = Some d \<and> (daction d = RECV \<or> daction d = WAIT) then dep else None) of
        Some d \<Rightarrow>
          if daction d = RECV then bindE (gop (GRAPH_remove_dependency_p d) s) (\<lambda>s1. Inr (False, s1))
          else (case deps of
                  d0 # _ \<Rightarrow>
                    if daction d0 \<noteq> IRECV then Inl AssertFailed
                    else bindE (gop (GRAPH_remove_dependency_p d) s) (\<lambda>s1.
                         bindE (gop (GRAPH_remove_dependency_p d0) s1) (\<lambda>s2. Inr (False, s2)))
                | [] \<Rightarrow> bindE (add_strong to th s) (\<lambda>(r, s1).
                         if r then Inr (r, s1) else Inl AssertFailed))
      | None \<Rightarrow>
          (case deps of
             d0 # _ \<Rightarrow> bindE (gop (GRAPH_change_action d0 SOFT_ACTION_RESOLVED) s) (\<lambda>s1. Inr (False, s1))
           | [] \<Rightarrow>
               if rendez then add_strong to th s
               else bindE (add_dep from to SOFT_DEP th s) (\<lambda>(nd, s1).
                    bindE (gop (GRAPH_change_action nd SOFT_ACTION_RESOLVED) s1) (\<lambda>s2. Inr (False, s2)))))))"

definition on_recv :: "int \<Rightarrow> int \<Rightarrow> int \<Rightarrow> dthread \<Rightarrow> analyzer \<Rightarrow> (bool \<times> analyzer) res" where
  "on_recv to tag comm th s =
     (let from = dtaskid th; g = dep_graph s in
      bindE (GRAPH_get_dependency to from STRG_DEP SEND tag comm g) (\<lambda>dep.
      case dep of
        Some d \<Rightarrow> bindE (gop (GRAPH_remove_dependency_p d) s) (\<lambda>s1. Inr (False, s1))
      | None \<Rightarrow>
          bindE (GRAPH_get_dependency to from SOFT_DEP SOFT_ACTION_RESOLVED tag comm g) (\<lambda>soft.
          case soft of
            Some d \<Rightarrow> bindE (gop (GRAPH_change_action d SOFT_ACTION_RESOLVED) s) (\<lambda>s1. Inr (False, s1))
          | None \<Rightarrow> add_strong to th s)))"

definition on_wait :: "int \<Rightarrow> int \<Rightarrow> int \<Rightarrow> dthread \<Rightarrow> analyzer \<Rightarrow> (bool \<times> analyzer) res" where
  "on_wait to tag comm th s =
     (let from = dtaskid th; g = dep_graph s in
      bindE (GRAPH_get_dependency from to SOFT_DEP SOFT_ACTION_RESOLVED tag comm g) (\<lambda>deps.
      bindE (GRAPH_get_dependency to from SOFT_DEP SOFT_ACTION_RESOLVED tag comm g) (\<lambda>deps_aux.
      case (if deps \<noteq> None then deps else deps_aux) of
        Some d \<Rightarrow> bindE (gop (GRAPH_remove_dependency_p d) s) (\<lambda>s1. Inr (False, s1))
      | None \<Rightarrow> add_strong to th s)))"

definition on_irecv :: "int \<Rightarrow> int \<Rightarrow> int \<Rightarrow> dthread \<Rightarrow> analyzer \<Rightarrow> (bool \<times> analyzer) res" where
  "on_irecv to tag comm th s =
     (let from = dtaskid th; g = dep_graph s in
      bindE (GRAPH_get_dependency to from STRG_DEP SEND tag comm g) (\<lambda>dep.
      bindE (GRAPH_get_dependency to from SOFT_DEP SOFT_ACTION_RESOLVED tag comm g) (\<lambda>dep_soft.
      case (if dep \<noteq> None then dep else dep_soft) of
        Some d \<Rightarrow>
          bindE (add_dep from to SOFT_DEP th s) (\<lambda>(nd, s1).
          bindE (gop (GRAPH_change_action nd SOFT_ACTION_RESOLVED) s1) (\<lambda>s2.
          bindE (gop (GRAPH_remove_dependency_p d) s2) (\<lambda>s3. Inr (False, s3))))
      | None \<Rightarrow> bindE (add_dep from to SOFT_DEP th s) (\<lambda>(_, s1). Inr (False, s1)))))"

fun glop_loop :: "int list \<Rightarrow> int \<Rightarrow> dthread \<Rightarrow> bool \<Rightarrow> analyzer \<Rightarrow> (bool \<times> analyzer) res" where
  "glop_loop [] glop th blk s = Inr (blk, s)"
| "glop_loop (j # js) glop th blk s =
     (if dtaskid th = j then glop_loop js glop th blk s else
      bindE (GRAPH_get_dependency j (dtaskid th) GLOP_DEP (action_code (daction_at th)) TAG_ALL
               COMMUNIC_ID_ALL (dep_graph s)) (\<lambda>dep.
      case (if \<exists>d. dep = Some d \<and> global_op d = glop then dep else None) of
        Some d \<Rightarrow> bindE (gop (GRAPH_remove_dependency_p d) s) (\<lambda>s1. glop_loop js glop th blk s1)
      | None \<Rightarrow> bindE (add_dep (dtaskid th) j GLOP_DEP th s) (\<lambda>(_, s1). glop_loop js glop th True s1)))"

definition DEADLOCK_manage_global_dependency ::
  "int \<Rightarrow> int \<Rightarrow> dthread \<Rightarrow> analyzer \<Rightarrow> (bool \<times> analyzer) res" where
  "DEADLOCK_manage_global_dependency glop comm th s =
     (case communicators s comm of
        None \<Rightarrow> Inl NullDeref
      | Some ranks \<Rightarrow> glop_loop ranks glop th False s)"

definition DEADLOCK_new_communic_event :: "real \<Rightarrow> dthread \<Rightarrow> analyzer \<Rightarrow> (bool \<times> analyzer) res" where
  "DEADLOCK_new_communic_event prog th s =
     bindE (GRAPH_get_dependencies (dtaskid th) GRAPH_TO_ALL STRG_DEP GRAPH_ALL_ACTIONS TAG_ALL
              COMMUNIC_ID_ALL (dep_graph s)) (\<lambda>_.
     if prog \<ge> end_analysis_tpercent s then Inr (False, s\<lparr>with_deadlock_analysis := False\<rparr>)
     else (case daction_at th of
             Send to tag comm rendez \<Rightarrow> on_send to tag comm rendez th s
           | Recv to tag comm \<Rightarrow> on_recv to tag comm th s
           | Wait to tag comm \<Rightarrow> on_wait to tag comm th s
           | GlobalOp glop comm \<Rightarrow>
               bindE (DEADLOCK_manage_global_dependency glop comm th s) (\<lambda>(blk, s1).
               if blk then is_deadlocked (dtaskid th) s1 else Inr (False, s1))
           | Irecv to tag comm \<Rightarrow> on_irecv to tag comm th s
           | Other _ \<Rightarrow> Inl AssertFailed))"

section \<open>The end of the simulation\<close>

fun ignore_all :: "int \<Rightarrow> dependency list \<Rightarrow> analyzer \<Rightarrow> analyzer res" where
  "ignore_all i [] s = Inr s"
| "ignore_all i (d # ds) s =
     (case get_thread_by_task_id i s of
        None \<Rightarrow> Inl NullDeref
      | Some k \<Rightarrow> ignore_all i ds ((ignore_op k (file_offset d) s)\<lparr>simulation_rebooted := True\<rparr>))"

fun finalized_loop :: "int \<Rightarrow> nat list \<Rightarrow> analyzer \<Rightarrow> analyzer res" where
  "finalized_loop to [] s = Inr s"
| "finalized_loop to (i # is) s =
     (if int i = to then finalized_loop to is s else
      bindE (GRAPH_get_dependencies (int i) to (STRG_DEP OR GLOP_DEP) GRAPH_ALL_ACTIONS TAG_ALL
               COMMUNIC_ID_ALL (dep_graph s)) (\<lambda>ds.
      bindE (ignore_all (int i) ds s) (finalized_loop to is)))"

definition DEADLOCK_thread_finalized :: "dthread \<Rightarrow> analyzer \<Rightarrow> analyzer res" where
  "DEADLOCK_thread_finalized th s = finalized_loop (dtaskid th) [0..<total_ranks s] s"

fun pendent_all :: "dependency list \<Rightarrow> bool \<Rightarrow> analyzer \<Rightarrow> (bool \<times> analyzer) res" where
  "pendent_all [] r s = Inr (r, s)"
| "pendent_all (d # ds) r s =
     (case get_thread_by_task_id (dfrom d) s of
        None \<Rightarrow> Inl NullDeref
      | Some k \<Rightarrow> pendent_all ds True (ignore_op k (file_offset d) s))"

fun check_end_loop :: "nat list \<Rightarrow> bool \<Rightarrow> analyzer \<Rightarrow> (bool \<times> analyzer) res" where
  "check_end_loop [] r s = Inr (r, s)"
| "check_end_loop (i # is) r s =
     bindE (GRAPH_get_dependencies (int i) GRAPH_TO_ALL (STRG_DEP OR SOFT_DEP OR GLOP_DEP)
              GRAPH_ALL_ACTIONS TAG_ALL COMMUNIC_ID_ALL (dep_graph s)) (\<lambda>ds.
     bindE (pendent_all ds r s) (\<lambda>(r1, s1). check_end_loop is r1 s1))"

definition DEADLOCK_check_end :: "analyzer \<Rightarrow> (bool \<times> analyzer) res" where
  "DEADLOCK_check_end s = check_end_loop [0..<total_ranks s] False s"

section \<open>What an event does to the blocking relation\<close>

definition an_inv :: "analyzer \<Rightarrow> bool" where
  "an_inv s \<longleftrightarrow> graph_ok (dep_graph s) \<and> gnodes (dep_graph s) = total_ranks s \<and> targets_ok (dep_graph s)"

abbreviation waits :: "analyzer \<Rightarrow> (int \<times> int) set" where
  "waits s \<equiv> blocks (dep_graph s)"

lemma targets_ok_subset: "targets_ok g \<Longrightarrow> blocks g' \<subseteq> blocks g \<Longrightarrow> gnodes g' = gnodes g \<Longrightarrow> targets_ok g'"
  by (auto simp: targets_ok_def in_range_def)

lemma gop_remove:
  assumes "gop (GRAPH_remove_dependency_p d) s = Inr s1" "an_inv s"
  shows "an_inv s1" "waits s1 \<subseteq> waits s" "total_ranks s1 = total_ranks s"
proof -
  obtain g where g: "GRAPH_remove_dependency_p d (dep_graph s) = Inr g" "s1 = s\<lparr>dep_graph := g\<rparr>"
    using assms(1) by (auto simp: gop_def bindE_eq_Inr)
  note r = remove_dependency_ok[OF _ g(1)] and b = blocks_remove[OF g(1)]
  show "an_inv s1" using r b assms(2) g(2) targets_ok_subset[of "dep_graph s" g] by (simp add: an_inv_def)
  show "waits s1 \<subseteq> waits s" "total_ranks s1 = total_ranks s" using b g(2) by simp_all
qed

lemma gop_change:
  assumes "gop (GRAPH_change_action d c) s = Inr s1" "an_inv s"
  shows "an_inv s1" "waits s1 = waits s" "total_ranks s1 = total_ranks s"
proof -
  obtain g where g: "GRAPH_change_action d c (dep_graph s) = Inr g" "s1 = s\<lparr>dep_graph := g\<rparr>"
    using assms(1) by (auto simp: gop_def bindE_eq_Inr)
  note r = change_action_ok[OF _ g(1)] and b = blocks_change[OF g(1)]
  show "an_inv s1" using r b assms(2) g(2) targets_ok_subset[of "dep_graph s" g] by (simp add: an_inv_def)
  show "waits s1 = waits s" "total_ranks s1 = total_ranks s" using b g(2) by simp_all
qed

lemma add_dep_effect:
  assumes "add_dep i j ty th s = Inr (d, s1)" "an_inv s" "in_range (dep_graph s) j"
  shows "an_inv s1" "total_ranks s1 = total_ranks s"
    "waits s1 = (if ty = SOFT_DEP then waits s else insert (i, j) (waits s))"
    "in_range (dep_graph s) i" "gnodes (dep_graph s1) = gnodes (dep_graph s)"
proof -
  obtain g where g: "GRAPH_add_dependency i j ty th (dep_graph s) = Inr (d, g)" "s1 = s\<lparr>dep_graph := g\<rparr>"
    using assms(1) by (auto simp: add_dep_def bindE_eq_Inr)
  have ok: "graph_ok (dep_graph s)" using assms(2) by (simp add: an_inv_def)
  note r = add_dependency_ok[OF ok g(1)] and b = blocks_add[OF ok g(1)]
  have "targets_ok g" using b r(4) assms(2,3) by (auto simp: targets_ok_def an_inv_def in_range_def)
  then show "an_inv s1" using r g(2) assms(2) by (simp add: an_inv_def)
  show "total_ranks s1 = total_ranks s"
    "waits s1 = (if ty = SOFT_DEP then waits s else insert (i, j) (waits s))"
    "in_range (dep_graph s) i" "gnodes (dep_graph s1) = gnodes (dep_graph s)"
    using b g(2) r by simp_all
qed

lemma get_dependency_range:
  "GRAPH_get_dependency i j ty a t c g = Inr r \<Longrightarrow> in_range g i"
  by (auto simp: GRAPH_get_dependency_def gsel_def split: if_splits)

lemma get_dependencies_range:
  "GRAPH_get_dependencies i j ty a t c g = Inr r \<Longrightarrow> in_range g i"
  by (auto simp: GRAPH_get_dependencies_def gsel_def split: if_splits)

lemma breakChainFrom_frame:
  "breakChainFrom chain s = Inr (i, s1) \<Longrightarrow> dep_graph s1 = dep_graph s \<and> total_ranks s1 = total_ranks s"
  by (auto simp: breakChainFrom_def bindE_eq_Inr Let_def split: option.splits)

lemma ignore_op_frame [simp]:
  "dep_graph (ignore_op k off s) = dep_graph s" "total_ranks (ignore_op k off s) = total_ranks s"
  "Ptask_queue (ignore_op k off s) = Ptask_queue s"
  "simulation_rebooted (ignore_op k off s) = simulation_rebooted s"
  by (simp_all add: ignore_op_def)

lemma is_deadlocked_effect:
  assumes "is_deadlocked f s = Inr (b, s1)"
  shows "dep_graph s1 = dep_graph s" "total_ranks s1 = total_ranks s" "b \<longleftrightarrow> (f, f) \<in> (waits s)\<^sup>+"
proof -
  obtain r c where l: "GRAPH_look_for_cycle (chain_capacity s) (dep_graph s) f = Inr (r, c)"
    using assms by (auto simp: is_deadlocked_def bindE_eq_Inr)
  have "dep_graph s1 = dep_graph s \<and> total_ranks s1 = total_ranks s \<and> b = r"
    using assms l
    by (auto simp: is_deadlocked_def bindE_eq_Inr split: if_splits option.splits
        dest!: breakChainFrom_frame)
  with GRAPH_look_for_cycle_result(1)[OF l]
  show "dep_graph s1 = dep_graph s" "total_ranks s1 = total_ranks s" "b \<longleftrightarrow> (f, f) \<in> (waits s)\<^sup>+"
    by simp_all
qed

text \<open>New edges that all start at one task create cycles through that task only.\<close>

lemma acyclic_from_source:
  assumes r: "r' \<subseteq> r \<union> {f} \<times> UNIV" and ac: "acyclic r"
  shows "acyclic r' \<longleftrightarrow> (f, f) \<notin> r'\<^sup>+"
proof
  assume n: "(f, f) \<notin> r'\<^sup>+"
  have split: "(x, y) \<in> r'\<^sup>+ \<Longrightarrow> (x, y) \<in> r\<^sup>+ \<or> ((x, f) \<in> r'\<^sup>* \<and> (f, y) \<in> r'\<^sup>+)" for x y
  proof (induction rule: trancl_induct)
    case (base y)
    then show ?case using r by auto
  next
    case (step y z)
    then show ?case
    proof (cases "(y, z) \<in> r")
      case True
      with step show ?thesis by (auto intro: trancl_into_trancl)
    next
      case False
      with step(2) r have "y = f" by auto
      with step(1,2) show ?thesis by (auto dest: trancl_into_rtrancl)
    qed
  qed
  show "acyclic r'"
  proof (rule acyclicI, rule allI, rule notI)
    fix x assume "(x, x) \<in> r'\<^sup>+"
    with split ac have "(x, f) \<in> r'\<^sup>*" "(f, x) \<in> r'\<^sup>+" by (auto simp: acyclic_def)
    then have "(f, f) \<in> r'\<^sup>+" by (meson trancl_rtrancl_trancl)
    with n show False ..
  qed
qed (auto simp: acyclic_def)

text \<open>
  What every event guarantees: the invariant, and an answer that is true exactly when the
  blocking relation has become cyclic.
\<close>

definition decides :: "analyzer \<Rightarrow> bool \<times> analyzer \<Rightarrow> bool" where
  "decides s r \<longleftrightarrow> an_inv (snd r) \<and> total_ranks (snd r) = total_ranks s \<and>
     (acyclic (waits s) \<longrightarrow> (fst r \<longleftrightarrow> \<not> acyclic (waits (snd r))))"

lemma decides_quiet:
  "an_inv s1 \<Longrightarrow> total_ranks s1 = total_ranks s \<Longrightarrow> waits s1 \<subseteq> waits s \<Longrightarrow> decides s (False, s1)"
  by (auto simp: decides_def intro: acyclic_subset)

lemma decides_search:
  assumes "an_inv s1" "total_ranks s1 = total_ranks s" "waits s1 \<subseteq> waits s \<union> {f} \<times> UNIV"
    "is_deadlocked f s1 = Inr (b, s2)"
  shows "decides s (b, s2)"
proof -
  note d = is_deadlocked_effect[OF assms(4)]
  have "acyclic (waits s) \<Longrightarrow> b \<longleftrightarrow> \<not> acyclic (waits s2)"
    using acyclic_from_source[OF assms(3)] d by simp
  with d assms(1,2) show ?thesis by (simp add: decides_def an_inv_def)
qed

lemma add_strong_decides:
  assumes "add_strong j th s = Inr r" "an_inv s" "in_range (dep_graph s) j"
  shows "decides s r"
proof -
  obtain d s1 where a: "add_dep (dtaskid th) j STRG_DEP th s = Inr (d, s1)"
    and i: "is_deadlocked (dtaskid th) s1 = Inr (fst r, snd r)"
    using assms(1) by (auto simp: add_strong_def bindE_eq_Inr)
  note e = add_dep_effect[OF a assms(2,3)]
  then have "decides s (fst r, snd r)"
    by (intro decides_search[OF _ _ _ i]) (auto simp: code_defs)
  then show ?thesis by simp
qed

lemma gop_remove_quiet:
  "gop (GRAPH_remove_dependency_p d) s = Inr s1 \<Longrightarrow> an_inv s \<Longrightarrow>
   an_inv s1 \<and> total_ranks s1 = total_ranks s \<and> waits s1 \<subseteq> waits s"
  using gop_remove by blast

lemma gop_change_quiet:
  "gop (GRAPH_change_action d c) s = Inr s1 \<Longrightarrow> an_inv s \<Longrightarrow>
   an_inv s1 \<and> total_ranks s1 = total_ranks s \<and> waits s1 = waits s"
  using gop_change by blast

lemma add_soft_quiet:
  "add_dep i j SOFT_DEP th s = Inr (d, s1) \<Longrightarrow> an_inv s \<Longrightarrow> in_range (dep_graph s) j \<Longrightarrow>
   an_inv s1 \<and> total_ranks s1 = total_ranks s \<and> waits s1 = waits s"
  using add_dep_effect[of i j SOFT_DEP th s d s1] by simp

lemmas quiet_steps = gop_remove_quiet gop_change_quiet add_soft_quiet

lemma on_send_decides:
  assumes h: "on_send to tag comm rz th s = Inr r" and inv: "an_inv s"
  shows "decides s r"
proof -
  from h obtain dep deps where
    g: "GRAPH_get_dependency to (dtaskid th) STRG_DEP (RECV OR WAIT) tag comm (dep_graph s) = Inr dep"
    by (auto simp: on_send_def Let_def bindE_eq_Inr)
  note rng = get_dependency_range[OF g]
  show ?thesis
    using h inv rng
    by (auto simp: on_send_def Let_def bindE_eq_Inr split: option.splits list.splits if_splits
        intro!: decides_quiet dest!: quiet_steps add_strong_decides)
qed

lemma on_recv_decides:
  assumes h: "on_recv to tag comm th s = Inr r" and inv: "an_inv s"
  shows "decides s r"
proof -
  from h obtain dep where
    g: "GRAPH_get_dependency to (dtaskid th) STRG_DEP SEND tag comm (dep_graph s) = Inr dep"
    by (auto simp: on_recv_def Let_def bindE_eq_Inr)
  note rng = get_dependency_range[OF g]
  show ?thesis
    using h inv rng
    by (auto simp: on_recv_def Let_def bindE_eq_Inr split: option.splits
        intro!: decides_quiet dest!: quiet_steps add_strong_decides)
qed

lemma on_wait_decides:
  assumes h: "on_wait to tag comm th s = Inr r" and inv: "an_inv s"
  shows "decides s r"
proof -
  from h obtain dep where
    g: "GRAPH_get_dependency to (dtaskid th) SOFT_DEP SOFT_ACTION_RESOLVED tag comm (dep_graph s) = Inr dep"
    by (auto simp: on_wait_def Let_def bindE_eq_Inr)
  note rng = get_dependency_range[OF g]
  show ?thesis
    using h inv rng
    by (auto simp: on_wait_def Let_def bindE_eq_Inr split: option.splits if_splits
        intro!: decides_quiet dest!: quiet_steps add_strong_decides)
qed

lemma on_irecv_decides:
  assumes h: "on_irecv to tag comm th s = Inr r" and inv: "an_inv s"
  shows "decides s r"
proof -
  from h obtain dep where
    g: "GRAPH_get_dependency to (dtaskid th) STRG_DEP SEND tag comm (dep_graph s) = Inr dep"
    by (auto simp: on_irecv_def Let_def bindE_eq_Inr)
  note rng = get_dependency_range[OF g]
  show ?thesis
    using h inv rng
    by (auto simp: on_irecv_def Let_def bindE_eq_Inr split: option.splits if_splits
        intro!: decides_quiet dest!: quiet_steps; blast)
qed

lemma glop_loop_effect:
  "glop_loop js glop th blk s = Inr (b, s1) \<Longrightarrow> an_inv s \<Longrightarrow>
   an_inv s1 \<and> total_ranks s1 = total_ranks s \<and> waits s1 \<subseteq> waits s \<union> {dtaskid th} \<times> UNIV
   \<and> (blk \<longrightarrow> b) \<and> (\<not> b \<longrightarrow> waits s1 \<subseteq> waits s)"
proof (induction js arbitrary: blk s)
  case (Cons j js)
  show ?case
  proof (cases "dtaskid th = j")
    case True
    with Cons.prems(1) have "glop_loop js glop th blk s = Inr (b, s1)" by simp
    from Cons.IH[OF this Cons.prems(2)] show ?thesis by blast
  next
    case ne: False
    with Cons.prems obtain dep where
      g: "GRAPH_get_dependency j (dtaskid th) GLOP_DEP (action_code (daction_at th)) TAG_ALL
            COMMUNIC_ID_ALL (dep_graph s) = Inr dep"
      by (auto simp: bindE_eq_Inr)
    note rng = get_dependency_range[OF g]
    show ?thesis
    proof (cases "\<exists>d. dep = Some d \<and> global_op d = glop")
      case True
      with Cons.prems ne g obtain d s2 where d: "dep = Some d" "global_op d = glop"
        and m: "gop (GRAPH_remove_dependency_p d) s = Inr s2" "glop_loop js glop th blk s2 = Inr (b, s1)"
        by (auto simp: bindE_eq_Inr)
      note r = gop_remove[OF m(1) Cons.prems(2)]
      show ?thesis using Cons.IH[OF m(2) r(1)] r by auto
    next
      case False
      with Cons.prems ne g obtain d s2 where
        m: "add_dep (dtaskid th) j GLOP_DEP th s = Inr (d, s2)" "glop_loop js glop th True s2 = Inr (b, s1)"
        by (auto simp: bindE_eq_Inr)
      note r = add_dep_effect[OF m(1) Cons.prems(2) rng]
      show ?thesis using Cons.IH[OF m(2) r(1)] r by (auto split: if_splits)
    qed
  qed
qed simp

lemma event_decides:
  assumes h: "DEADLOCK_new_communic_event prog th s = Inr r" and inv: "an_inv s"
  shows "decides s r"
proof (cases "prog \<ge> end_analysis_tpercent s")
  case True
  with h have "r = (False, s\<lparr>with_deadlock_analysis := False\<rparr>)"
    by (auto simp: DEADLOCK_new_communic_event_def bindE_eq_Inr)
  with inv show ?thesis by (auto intro!: decides_quiet simp: an_inv_def)
next
  case False
  show ?thesis
  proof (cases "daction_at th")
    case (GlobalOp glop comm)
    with h False obtain blk s1 where
      m: "DEADLOCK_manage_global_dependency glop comm th s = Inr (blk, s1)"
      and k: "(if blk then is_deadlocked (dtaskid th) s1 else Inr (False, s1)) = Inr (fst r, snd r)"
      by (auto simp: DEADLOCK_new_communic_event_def bindE_eq_Inr)
    then obtain ranks where "glop_loop ranks glop th False s = Inr (blk, s1)"
      by (auto simp: DEADLOCK_manage_global_dependency_def split: option.splits)
    note e = glop_loop_effect[OF this inv]
    have "decides s (fst r, snd r)"
    proof (cases blk)
      case True
      with k have "is_deadlocked (dtaskid th) s1 = Inr (fst r, snd r)" by simp
      from decides_search[OF _ _ _ this] e show ?thesis by simp
    next
      case F: False
      with k e show ?thesis by (auto intro: decides_quiet)
    qed
    then show ?thesis by simp
  qed (use h False inv in \<open>auto simp: DEADLOCK_new_communic_event_def bindE_eq_Inr
      intro: on_send_decides on_recv_decides on_wait_decides on_irecv_decides\<close>)
qed

section \<open>A cycle through every task\<close>

lemma chain_capacity [simp]: "chain_capacity s = total_ranks s"
  by (simp add: chain_capacity_def)

lemma long_cycle_overflows:
  assumes "an_inv s" "(f, f) \<in> (waits s)\<^sup>+"
    and long: "\<And>c. walk (dep_graph s) c \<Longrightarrow> hd c = f \<Longrightarrow> last c = f \<Longrightarrow> 2 \<le> length c \<Longrightarrow>
      total_ranks s < length c"
  shows "is_deadlocked f s = Inl OutOfBounds"
proof (cases "GRAPH_look_for_cycle (chain_capacity s) (dep_graph s) f")
  case (Inl e)
  then have "e = OutOfBounds"
    by (auto simp: GRAPH_look_for_cycle_def gsel_def bindE_eq_Inl dest: chain_error(2) split: if_splits)
  with Inl show ?thesis by (simp add: is_deadlocked_def)
next
  case (Inr r)
  then obtain b c where l: "GRAPH_look_for_cycle (chain_capacity s) (dep_graph s) f = Inr (b, c)"
    by (cases r) simp
  from GRAPH_look_for_cycle_result[OF l] assms(2) long[of c] show ?thesis by auto
qed

section \<open>Which operation is ignored\<close>

lemma chain_dep_walk:
  assumes "graph_ok g" "(a, b) \<in> blocks g" and codes: "\<forall>d\<in>set (gmap g a). daction d \<noteq> 0"
  obtains d where "chain_dep g a b = Inr d" "d \<in> set (gmap g a)" "dto d = b" "blocking d"
proof -
  from assms(2) obtain d0 where r: "in_range g a" and d0: "d0 \<in> set (gmap g a)" "blocking d0" "dto d0 = b"
    by (auto simp: mem_blocks)
  let ?P = "dep_matches b (STRG_DEP OR GLOP_DEP) GRAPH_ALL_ACTIONS TAG_ALL COMMUNIC_ID_ALL"
  have m: "?P d \<longleftrightarrow> dto d = b \<and> blocking d" if "d \<in> set (gmap g a)" for d
    using that dep_type_masks(4)[OF assms(1) that] codes
    by (auto simp: dep_matches_def p2p_match_def GRAPH_ALL_ACTIONS_def TAG_ALL_def COMMUNIC_ID_ALL_def)
  then obtain d where f: "List.find ?P (gmap g a) = Some d"
    using d0 by (cases "List.find ?P (gmap g a)") (auto simp: find_None_iff)
  then have "d \<in> set (gmap g a)" "?P d" by (auto simp: find_Some_iff)
  moreover have "chain_dep g a b = Inr d"
    using f r by (simp add: chain_dep_def get_dependency_find[OF assms(1)])
  ultimately show thesis using that m by blast
qed

definition actions_ok :: "graph \<Rightarrow> bool" where
  "actions_ok g \<longleftrightarrow> (\<forall>i. \<forall>d\<in>set (gmap g i). daction d \<noteq> 0)"

lemma earlier_loop_stays:
  assumes "graph_ok g" "actions_ok g"
  shows "walk g cs \<Longrightarrow> idx \<noteq> -1 \<Longrightarrow> earlier_loop g ign i cs (0, idx) = Inr (0, idx)"
proof (induction cs arbitrary: i)
  case (Cons a cs)
  show ?case
  proof (cases cs)
    case (Cons b ds)
    have ab: "(a, b) \<in> blocks g" using Cons.prems(1) Cons by simp
    have "\<forall>d\<in>set (gmap g a). daction d \<noteq> 0" using assms(2) by (simp add: actions_ok_def)
    from chain_dep_walk[OF assms(1) ab this] obtain d where
      d: "chain_dep g a b = Inr d" "d \<in> set (gmap g a)" by blast
    then have "dtime d = 0" using assms(1) by (auto simp: graph_ok_def deps_ok_def)
    with d Cons Cons.prems Cons.IH[of "i + 1"] show ?thesis by simp
  qed simp
qed simp

lemma earlier_is_first:
  assumes "graph_ok g" "actions_ok g" "walk g chain" "2 \<le> length chain"
  shows "get_earlier_task_index g chain ign = Inr 0"
proof -
  obtain a b cs where c: "chain = a # b # cs"
    using assms(4) by (cases chain; cases "tl chain") auto
  have ab: "(a, b) \<in> blocks g" using assms(3) c by simp
  have "\<forall>d\<in>set (gmap g a). daction d \<noteq> 0" using assms(2) by (simp add: actions_ok_def)
  from chain_dep_walk[OF assms(1) ab this] obtain d where
    d: "chain_dep g a b = Inr d" "d \<in> set (gmap g a)" by blast
  then have "dtime d = 0" using assms(1) by (auto simp: graph_ok_def deps_ok_def)
  moreover have "walk g (b # cs)" using assms(3) c by simp
  ultimately show ?thesis
    using d c earlier_loop_stays[OF assms(1,2), of "b # cs" 0 ign 1]
    by (simp add: get_earlier_task_index_def)
qed

text \<open>The counters \<open>breakChainFrom\<close> compares along the chain.\<close>

definition step_pending :: "graph \<Rightarrow> (int \<Rightarrow> t_estats) \<Rightarrow> int \<Rightarrow> int \<Rightarrow> 32 word" where
  "step_pending g ep a b = (case chain_dep g a b of
     Inr d \<Rightarrow> (case field_of_action (daction d) of Inr f \<Rightarrow> pend f (ep a) | Inl _ \<Rightarrow> 0)
   | Inl _ \<Rightarrow> 0)"

lemma break_loop_max:
  "break_loop g ep i cs c = Inr c' \<Longrightarrow>
   max_pendent c \<le> max_pendent c' \<and>
   (\<forall>k. Suc k < length cs \<longrightarrow> step_pending g ep (cs ! k) (cs ! Suc k) \<le> max_pendent c') \<and>
   ((pendent_pointer c' = pendent_pointer c \<and> max_pendent c' = max_pendent c
       \<and> position_chosed_thread c' = position_chosed_thread c) \<or>
    (\<exists>k f. Suc k < length cs \<and> position_chosed_thread c' = i + int k \<and>
       max_pendent c' = step_pending g ep (cs ! k) (cs ! Suc k) \<and>
       max_pendent c' = pend f (ep (cs ! k)) \<and> pendent_pointer c' = Some (cs ! k, f)))"
proof (induction cs arbitrary: i c)
  case (Cons a ds)
  show ?case
  proof (cases ds)
    case (Cons b cs)
    let ?get = "GRAPH_get_dependency a b (STRG_DEP OR GLOP_DEP) GRAPH_ALL_ACTIONS TAG_ALL COMMUNIC_ID_ALL g"
    from Cons.prems Cons obtain d f c2 where g: "?get = Inr (Some d)" and f: "field_of_action (daction d) = Inr f"
      and rest: "break_loop g ep (i + 1) ds c2 = Inr c'"
      and c2: "c2 = (if pend f (ep a) > max_pendent c
           then (if f = PGlop then c\<lparr>sum_pendent_glops := sum_pendent_glops c + pendent_glop (ep a)\<rparr> else c)
             \<lparr>max_pendent := pend f (ep a), position_chosed_thread := i, pendent_pointer := Some (a, f)\<rparr>
           else (if f = PGlop then c\<lparr>sum_pendent_glops := sum_pendent_glops c + pendent_glop (ep a)\<rparr> else c))"
      by (auto simp: bindE_eq_Inr Let_def split: option.splits if_splits)
    have sp: "step_pending g ep a b = pend f (ep a)"
      using g f by (simp add: step_pending_def chain_dep_def)
    note ih = Cons.IH[OF rest]
    have m: "max_pendent c \<le> max_pendent c2" "pend f (ep a) \<le> max_pendent c2"
      using c2 by (auto split: if_splits)
    have all: "step_pending g ep ((a # ds) ! k) ((a # ds) ! Suc k) \<le> max_pendent c'"
      if "Suc k < length (a # ds)" for k
      using that ih m sp Cons by (cases k) (auto intro: order_trans)
    have lift: "\<exists>k f. Suc k < length (a # ds) \<and> position_chosed_thread c' = i + int k \<and>
        max_pendent c' = step_pending g ep ((a # ds) ! k) ((a # ds) ! Suc k) \<and>
        max_pendent c' = pend f (ep ((a # ds) ! k)) \<and> pendent_pointer c' = Some ((a # ds) ! k, f)"
      if "\<exists>k f. Suc k < length ds \<and> position_chosed_thread c' = i + 1 + int k \<and>
        max_pendent c' = step_pending g ep (ds ! k) (ds ! Suc k) \<and>
        max_pendent c' = pend f (ep (ds ! k)) \<and> pendent_pointer c' = Some (ds ! k, f)"
    proof -
      from that obtain k f where "Suc k < length ds" "position_chosed_thread c' = i + 1 + int k"
        "max_pendent c' = step_pending g ep (ds ! k) (ds ! Suc k)"
        "max_pendent c' = pend f (ep (ds ! k))" "pendent_pointer c' = Some (ds ! k, f)" by blast
      then show ?thesis by (intro exI[of _ "Suc k"] exI[of _ f]) simp
    qed
    have here: ?thesis if "pend f (ep a) > max_pendent c" "pendent_pointer c' = pendent_pointer c2"
      "max_pendent c' = max_pendent c2" "position_chosed_thread c' = position_chosed_thread c2"
      using that c2 sp Cons all m ih
      by (intro conjI disjI2 exI[of _ 0] exI[of _ f]) (auto split: if_splits)
    show ?thesis using ih here lift all m c2 by (auto split: if_splits)
  qed (use Cons.prems in simp)
qed simp

section \<open>Pending operations at the end\<close>

lemma get_dependencies_all:
  assumes "graph_ok g" "in_range g i" "actions_ok g" "ty = STRG_DEP OR SOFT_DEP OR GLOP_DEP"
  shows "GRAPH_get_dependencies i GRAPH_TO_ALL ty GRAPH_ALL_ACTIONS TAG_ALL COMMUNIC_ID_ALL g
    = Inr (gmap g i)"
proof -
  have "(dtype d AND ty) \<noteq> 0" if "d \<in> set (gmap g i)" for d
    using deps_ok_dtype[OF assms(1) that] assms(4) by (auto simp: STRG_DEP_def SOFT_DEP_def GLOP_DEP_def)
  then show ?thesis
    using assms(2) by (auto simp: GRAPH_get_dependencies_def gsel_def p2p_match_def GRAPH_TO_ALL_def
        GRAPH_ALL_ACTIONS_def TAG_ALL_def COMMUNIC_ID_ALL_def filter_id_conv)
qed

lemma get_dependencies_waiting:
  assumes "graph_ok g" "in_range g i" "in_range g j"
  shows "GRAPH_get_dependencies i j (STRG_DEP OR GLOP_DEP) GRAPH_ALL_ACTIONS TAG_ALL COMMUNIC_ID_ALL g
    = Inr (filter (\<lambda>d. dto d = j \<and> blocking d) (gmap g i))"
proof -
  have "j \<noteq> GRAPH_TO_ALL" using assms(3) by (auto simp: in_range_def GRAPH_TO_ALL_def)
  then show ?thesis
    using assms(2) dep_type_masks(4)[OF assms(1)]
    by (auto simp: GRAPH_get_dependencies_def gsel_def p2p_match_def
        GRAPH_ALL_ACTIONS_def TAG_ALL_def COMMUNIC_ID_ALL_def intro!: filter_cong)
qed

definition op_for :: "thread_key \<Rightarrow> nat \<Rightarrow> trace_operation" where
  "op_for k off = \<lparr>op_Ptask_id = fst k, op_task_id = fst (snd k), op_thread_id = snd (snd k),
     op_file_offset = off\<rparr>"

lemma ignore_op_set:
  "set (ops_to_be_ignored (ignore_op k off s) k') =
     (if k' = k then insert (op_for k off) (set (ops_to_be_ignored s k')) else set (ops_to_be_ignored s k'))"
  by (simp add: ignore_op_def op_for_def seq_insert_def)

definition threads_known :: "analyzer \<Rightarrow> bool" where
  "threads_known s \<longleftrightarrow> (\<forall>i<total_ranks s. get_thread_by_task_id (int i) s \<noteq> None)"

definition same_tables :: "analyzer \<Rightarrow> analyzer \<Rightarrow> bool" where
  "same_tables s s1 \<longleftrightarrow> dep_graph s1 = dep_graph s \<and> total_ranks s1 = total_ranks s \<and>
     Ptask_queue s1 = Ptask_queue s \<and>
     (\<forall>k. set (ops_to_be_ignored s k) \<subseteq> set (ops_to_be_ignored s1 k))"

lemma same_tables_refl [simp]: "same_tables s s"
  by (simp add: same_tables_def)

lemma same_tables_trans: "same_tables s s1 \<Longrightarrow> same_tables s1 s2 \<Longrightarrow> same_tables s s2"
  by (fastforce simp: same_tables_def)

lemma same_tables_ignore [simp]:
  "same_tables s (ignore_op k off s)"
  "same_tables s ((ignore_op k off s)\<lparr>simulation_rebooted := True\<rparr>)"
  using ignore_op_set[of k off s] by (auto simp: same_tables_def)

lemma same_tables_kept:
  "same_tables s s1 \<Longrightarrow> x \<in> set (ops_to_be_ignored s k) \<Longrightarrow> x \<in> set (ops_to_be_ignored s1 k)"
  unfolding same_tables_def by blast

lemma same_thread: "same_tables s s1 \<Longrightarrow> get_thread_by_task_id i s1 = get_thread_by_task_id i s"
  by (simp add: same_tables_def get_thread_by_task_id_def)

definition queued :: "analyzer \<Rightarrow> analyzer \<Rightarrow> int \<Rightarrow> dependency \<Rightarrow> bool" where
  "queued s s1 i d \<longleftrightarrow> (case get_thread_by_task_id i s of None \<Rightarrow> False
     | Some k \<Rightarrow> op_for k (file_offset d) \<in> set (ops_to_be_ignored s1 k))"

lemma queued_kept: "queued s s1 i d \<Longrightarrow> same_tables s1 s2 \<Longrightarrow> queued s s2 i d"
  unfolding queued_def by (auto split: option.splits intro: same_tables_kept)

lemma queued_same: "same_tables s s1 \<Longrightarrow> queued s1 s2 i d = queued s s2 i d"
  by (simp add: queued_def same_thread)

lemma queued_ignore: "get_thread_by_task_id i s = Some k \<Longrightarrow>
   queued s ((ignore_op k (file_offset d) s)\<lparr>simulation_rebooted := b\<rparr>) i d"
  "get_thread_by_task_id i s = Some k \<Longrightarrow> queued s (ignore_op k (file_offset d) s) i d"
  using ignore_op_set[of k "file_offset d" s k] by (simp_all add: queued_def)

lemma ignore_all_effect:
  assumes "get_thread_by_task_id i s = Some k"
  shows "\<exists>s1. ignore_all i ds s = Inr s1 \<and> same_tables s s1 \<and>
    (simulation_rebooted s1 \<longleftrightarrow> simulation_rebooted s \<or> ds \<noteq> []) \<and>
    (\<forall>d\<in>set ds. queued s s1 i d)"
  using assms
proof (induction ds arbitrary: s)
  case (Cons d ds)
  let ?s = "(ignore_op k (file_offset d) s)\<lparr>simulation_rebooted := True\<rparr>"
  have st: "same_tables s ?s" by simp
  have "get_thread_by_task_id i ?s = Some k" using Cons.prems by (simp only: same_thread[OF st])
  from Cons.IH[OF this] obtain s1 where s1: "ignore_all i ds ?s = Inr s1" "same_tables ?s s1"
    "simulation_rebooted s1" "\<forall>d\<in>set ds. queued ?s s1 i d"
    by auto
  have "queued s s1 i d" by (rule queued_kept[OF queued_ignore(1)[OF Cons.prems] s1(2)])
  moreover have "\<forall>d\<in>set ds. queued s s1 i d" using s1(4) queued_same[OF st] by blast
  moreover have "ignore_all i (d # ds) s = Inr s1" using s1(1) Cons.prems by simp
  ultimately show ?case
    using s1(3) same_tables_trans[OF st s1(2)] by (intro exI[of _ s1]) auto
qed (simp add: same_tables_refl)

lemma finalized_loop_effect:
  assumes "graph_ok (dep_graph s)" "gnodes (dep_graph s) = total_ranks s" "threads_known s"
    "in_range (dep_graph s) to" "\<forall>i\<in>set is. i < total_ranks s"
  shows "\<exists>s1. finalized_loop to is s = Inr s1 \<and> same_tables s s1 \<and>
    (simulation_rebooted s1 \<longleftrightarrow> simulation_rebooted s \<or>
       (\<exists>i\<in>set is. int i \<noteq> to \<and> (int i, to) \<in> waits s)) \<and>
    (\<forall>i\<in>set is. int i \<noteq> to \<longrightarrow> (\<forall>d\<in>set (gmap (dep_graph s) (int i)). blocking d \<and> dto d = to \<longrightarrow>
       queued s s1 (int i) d))"
  using assms
proof (induction "is" arbitrary: s)
  case (Cons i "is")
  show ?case
  proof (cases "int i = to")
    case True
    with Cons.IH[OF Cons.prems(1-4)] Cons.prems(5) show ?thesis by simp
  next
    case False
    let ?ds = "filter (\<lambda>d. dto d = to \<and> blocking d) (gmap (dep_graph s) (int i))"
    have r: "in_range (dep_graph s) (int i)" using Cons.prems by (simp add: in_range_def)
    have w: "(int i, to) \<in> waits s \<longleftrightarrow> ?ds \<noteq> []"
      using r by (auto simp: mem_blocks filter_empty_conv)
    obtain k where k: "get_thread_by_task_id (int i) s = Some k"
      using Cons.prems by (force simp: threads_known_def)
    from ignore_all_effect[OF this, of ?ds] obtain s1 where
      s1: "ignore_all (int i) ?ds s = Inr s1" "same_tables s s1"
        "simulation_rebooted s1 \<longleftrightarrow> simulation_rebooted s \<or> ?ds \<noteq> []"
        "\<forall>d\<in>set ?ds. queued s s1 (int i) d" by blast
    have g: "dep_graph s1 = dep_graph s" "total_ranks s1 = total_ranks s"
      using s1(2) by (simp_all add: same_tables_def)
    have kn: "threads_known s1"
      using Cons.prems(3) g(2) by (simp only: threads_known_def same_thread[OF s1(2)]) 
    have lt: "\<forall>i\<in>set is. i < total_ranks s1" using Cons.prems(5) g(2) by simp
    from Cons.IH[of s1, unfolded g, OF Cons.prems(1,2) kn Cons.prems(4) lt[unfolded g]]
    obtain s2 where s2: "finalized_loop to is s1 = Inr s2" "same_tables s1 s2"
        "simulation_rebooted s2 \<longleftrightarrow> simulation_rebooted s1 \<or> (\<exists>i\<in>set is. int i \<noteq> to \<and> (int i, to) \<in> waits s)"
        "\<forall>i\<in>set is. int i \<noteq> to \<longrightarrow> (\<forall>d\<in>set (gmap (dep_graph s) (int i)). blocking d \<and> dto d = to \<longrightarrow>
          queued s1 s2 (int i) d)"
      by blast
    have "finalized_loop to (i # is) s = Inr s2"
      using False get_dependencies_waiting[OF Cons.prems(1) r Cons.prems(4)] s1(1) s2(1) by simp
    moreover have "\<forall>d\<in>set ?ds. queued s s2 (int i) d"
      using s1(4) queued_kept[OF _ s2(2)] by blast
    moreover note s1(3) s2(3) w False s2(4)[unfolded queued_same[OF s1(2)]] same_tables_trans[OF s1(2) s2(2)]
    ultimately show ?thesis by (intro exI[of _ s2]) simp
  qed
qed (simp add: same_tables_refl)

lemma pendent_all_effect:
  assumes "get_thread_by_task_id i s = Some k" "\<forall>d\<in>set ds. dfrom d = i"
  shows "\<exists>s1. pendent_all ds r s = Inr (r \<or> ds \<noteq> [], s1) \<and> same_tables s s1 \<and>
    (\<forall>d\<in>set ds. queued s s1 i d)"
  using assms
proof (induction ds arbitrary: s r)
  case (Cons d ds)
  let ?s = "ignore_op k (file_offset d) s"
  have st: "same_tables s ?s" by simp
  have k: "get_thread_by_task_id i ?s = Some k" using Cons.prems(1) by (simp only: same_thread[OF st])
  have "\<forall>d\<in>set ds. dfrom d = i" using Cons.prems(2) by simp
  from Cons.IH[OF k this, of True] obtain s1 where s1: "pendent_all ds True ?s = Inr (True, s1)"
    "same_tables ?s s1" "\<forall>d\<in>set ds. queued ?s s1 i d" by auto
  have "queued s s1 i d" by (rule queued_kept[OF queued_ignore(2)[OF Cons.prems(1)] s1(2)])
  moreover have "\<forall>d\<in>set ds. queued s s1 i d" using s1(3) queued_same[OF st] by blast
  moreover have "pendent_all (d # ds) r s = Inr (True, s1)" using s1(1) Cons.prems by simp
  ultimately show ?case
    using same_tables_trans[OF st s1(2)] by (intro exI[of _ s1]) auto
qed (simp add: same_tables_refl)

lemma check_end_loop_effect:
  assumes "graph_ok (dep_graph s)" "gnodes (dep_graph s) = total_ranks s" "threads_known s"
    "actions_ok (dep_graph s)" "\<forall>i\<in>set is. i < total_ranks s"
  shows "\<exists>s1. check_end_loop is r s = Inr (r \<or> (\<exists>i\<in>set is. gmap (dep_graph s) (int i) \<noteq> []), s1)
    \<and> same_tables s s1 \<and>
    (\<forall>i\<in>set is. \<forall>d\<in>set (gmap (dep_graph s) (int i)). queued s s1 (int i) d)"
  using assms
proof (induction "is" arbitrary: s r)
  case (Cons i "is")
  let ?ds = "gmap (dep_graph s) (int i)"
  have rg: "in_range (dep_graph s) (int i)" using Cons.prems by (simp add: in_range_def)
  have fr: "\<forall>d\<in>set ?ds. dfrom d = int i" using deps_ok_dfrom[OF Cons.prems(1)] by blast
  obtain k where k: "get_thread_by_task_id (int i) s = Some k"
    using Cons.prems by (force simp: threads_known_def)
  from pendent_all_effect[OF this fr, of r] obtain s1 where
    s1: "pendent_all ?ds r s = Inr (r \<or> ?ds \<noteq> [], s1)" "same_tables s s1"
      "\<forall>d\<in>set ?ds. queued s s1 (int i) d" by blast
  have g: "dep_graph s1 = dep_graph s" "total_ranks s1 = total_ranks s"
    using s1(2) by (simp_all add: same_tables_def)
  have kn: "threads_known s1"
    using Cons.prems(3) g(2) by (simp only: threads_known_def same_thread[OF s1(2)])
  have lt: "\<forall>i\<in>set is. i < total_ranks s1" using Cons.prems(5) g(2) by simp
  from Cons.IH[of s1 "r \<or> ?ds \<noteq> []", unfolded g, OF Cons.prems(1,2) kn Cons.prems(4) lt[unfolded g]]
  obtain s2 where s2: "check_end_loop is (r \<or> ?ds \<noteq> []) s1 =
      Inr ((r \<or> ?ds \<noteq> []) \<or> (\<exists>i\<in>set is. gmap (dep_graph s) (int i) \<noteq> []), s2)" "same_tables s1 s2"
      "\<forall>i\<in>set is. \<forall>d\<in>set (gmap (dep_graph s) (int i)). queued s1 s2 (int i) d"
    by blast
  have "\<forall>d\<in>set ?ds. queued s s2 (int i) d"
    using s1(3) queued_kept[OF _ s2(2)] by blast
  moreover have "check_end_loop (i # is) r s =
      Inr (r \<or> (\<exists>i\<in>set (i # is). gmap (dep_graph s) (int i) \<noteq> []), s2)"
    using get_dependencies_all[OF Cons.prems(1) rg Cons.prems(4) refl] s1(1) s2(1) by simp
  moreover note s2(3)[unfolded queued_same[OF s1(2)]] same_tables_trans[OF s1(2) s2(2)]
  ultimately show ?case by (intro exI[of _ s2]) (simp del: check_end_loop.simps)
qed (simp add: same_tables_refl)

section \<open>A collective operation\<close>

text \<open>The collective dependencies of \<open>a\<close> on \<open>b\<close>.\<close>

definition glops :: "graph \<Rightarrow> int \<Rightarrow> int \<Rightarrow> dependency list" where
  "glops g a b = filter (\<lambda>d. dtype d = GLOP_DEP \<and> dto d = b) (gmap g a)"

definition one_glop :: "int \<Rightarrow> dependency list \<Rightarrow> bool" where
  "one_glop k ds \<longleftrightarrow> (\<exists>d. ds = [d] \<and> global_op d = k \<and> daction d = GLOBAL_OP)"

lemma find_hdo: "List.find P xs = hdo (filter P xs) None"
  by (induction xs) auto

lemma get_glop:
  assumes "graph_ok g" "in_range g j" "\<forall>d\<in>set (glops g j f). daction d = GLOBAL_OP"
  shows "GRAPH_get_dependency j f GLOP_DEP GLOBAL_OP TAG_ALL COMMUNIC_ID_ALL g = Inr (hdo (glops g j f) None)"
proof -
  have "filter (dep_matches f GLOP_DEP GLOBAL_OP TAG_ALL COMMUNIC_ID_ALL) (gmap g j) = glops g j f"
    unfolding glops_def
    using assms(3) dep_type_masks(3)[OF assms(1)]
    by (intro filter_cong)
      (auto simp: dep_matches_def p2p_match_def TAG_ALL_def COMMUNIC_ID_ALL_def glops_def GLOBAL_OP_def)
  then show ?thesis by (simp add: get_dependency_find[OF assms(1)] assms(2) find_hdo)
qed

lemma glops_remove:
  assumes "graph_ok g" "GRAPH_remove_dependency_p d g = Inr g'" "glops g j f = [d]"
  shows "glops g' a b = (if a = j \<and> b = f then [] else glops g a b)"
proof -
  have d: "d \<in> set (gmap g j)" "dtype d = GLOP_DEP" "dto d = f"
    using assms(3) by (auto simp: glops_def filter_eq_Cons_iff)
  have dj: "dfrom d = j" using deps_ok_dfrom[OF assms(1) d(1)] .
  note m = remove_dependency_ok(5)[OF assms(1,2)]
  have u: "x = d" if "x \<in> set (gmap g j)" "daddr x = daddr d" for x
    using that d(1) assms(1) by (auto simp: graph_ok_def deps_ok_def dest!: spec[of _ j] inj_onD distinct_map[THEN iffD1, THEN conjunct2, THEN inj_onD])
  show ?thesis
  proof (cases "a = j")
    case True
    have "glops g' j b = filter (\<lambda>x. daddr x \<noteq> daddr d) (glops g j b)"
      using m dj by (auto simp: glops_def intro!: filter_cong)
    also have "\<dots> = (if b = f then [] else glops g j b)"
    proof (cases "b = f")
      case True
      with assms(3) show ?thesis by simp
    next
      case False
      have "daddr x \<noteq> daddr d" if "x \<in> set (glops g j b)" for x
        using that u[of x] d(3) False by (auto simp: glops_def)
      with False show ?thesis by (simp add: filter_id_conv)
    qed
    finally show ?thesis using True by simp
  next
    case False
    then show ?thesis using m dj by (simp add: glops_def)
  qed
qed

lemma filter_link: "filter P (link_dependency nd ds) =
  filter P (takeWhile (\<lambda>d. \<not> dto d \<ge> dto nd) ds) @ (if P nd then [nd] else []) @
  filter P (dropWhile (\<lambda>d. \<not> dto d \<ge> dto nd) ds)"
  by (simp add: link_dependency_def)

lemma filter_split: "filter P ds = filter P (takeWhile Q ds) @ filter P (dropWhile Q ds)"
  by (metis filter_append takeWhile_dropWhile_id)

lemma glops_add:
  assumes "graph_ok g" "GRAPH_add_dependency f j GLOP_DEP th g = Inr (d, g')" "glops g f j = []"
  shows "glops g' a b = (if a = f \<and> b = j then [d] else glops g a b)"
proof -
  note s = add_dependency_ok[OF assms(1,2)]
  have d: "dtype d = GLOP_DEP" "dto d = j" using s(3) by simp_all
  have "filter (\<lambda>d. dtype d = GLOP_DEP \<and> dto d = b) (link_dependency d (gmap g f)) =
      (if b = j then [d] else glops g f b)"
    using d assms(3) filter_split[of "\<lambda>d. dtype d = GLOP_DEP \<and> dto d = b" "gmap g f" "\<lambda>x. \<not> dto x \<ge> dto d"]
    by (auto simp: filter_link glops_def)
  then show ?thesis using s(5) by (auto simp: glops_def)
qed

text \<open>
  The state between arrivals: exactly the tasks of \<open>A\<close> have arrived, each waits for each task of
  the communicator that has not. Within the loop of the arriving task \<open>f\<close>, the tasks of \<open>P\<close>
  have been treated.
\<close>

definition coll_pend :: "int set \<Rightarrow> int \<Rightarrow> int set \<Rightarrow> int \<Rightarrow> int \<Rightarrow> bool" where
  "coll_pend A f P a b \<longleftrightarrow> (b = f \<and> a \<in> A \<and> a \<notin> P) \<or> (a = f \<and> b \<in> P \<and> b \<notin> A \<and> b \<noteq> f) \<or>
     (a \<noteq> f \<and> b \<noteq> f \<and> a \<in> A \<and> b \<notin> A)"

definition coll_state :: "int set \<Rightarrow> int \<Rightarrow> int set \<Rightarrow> int \<Rightarrow> int set \<Rightarrow> graph \<Rightarrow> bool" where
  "coll_state C k A f P g \<longleftrightarrow> (\<forall>a\<in>C. \<forall>b\<in>C.
     if coll_pend A f P a b then one_glop k (glops g a b) else glops g a b = [])"

definition coll_inv :: "int set \<Rightarrow> int \<Rightarrow> int set \<Rightarrow> graph \<Rightarrow> bool" where
  "coll_inv C k A g \<longleftrightarrow> (\<forall>a\<in>C. \<forall>b\<in>C.
     if a \<in> A \<and> b \<notin> A then one_glop k (glops g a b) else glops g a b = [])"

lemma coll_pend_arrived:
  "j \<in> A \<Longrightarrow> f \<notin> A \<Longrightarrow> coll_pend A f (insert j P) a b \<longleftrightarrow> (a, b) \<noteq> (j, f) \<and> coll_pend A f P a b"
  by (auto simp: coll_pend_def)

lemma coll_pend_missing:
  "j \<notin> A \<Longrightarrow> j \<noteq> f \<Longrightarrow> f \<notin> A \<Longrightarrow>
   coll_pend A f (insert j P) a b \<longleftrightarrow> (a, b) = (f, j) \<or> coll_pend A f P a b"
  by (auto simp: coll_pend_def)

lemma coll_pend_self: "f \<notin> A \<Longrightarrow> coll_pend A f (insert f P) a b \<longleftrightarrow> coll_pend A f P a b"
  by (auto simp: coll_pend_def)

lemma coll_start: "f \<notin> A \<Longrightarrow> coll_inv C k A g \<Longrightarrow> coll_state C k A f {} g"
  unfolding coll_inv_def coll_state_def coll_pend_def
  by (intro ballI) (fastforce split: if_splits)

lemma coll_end: "f \<notin> A \<Longrightarrow> f \<in> C \<Longrightarrow> coll_state C k A f C g \<Longrightarrow> coll_inv C k (insert f A) g"
  unfolding coll_inv_def coll_state_def coll_pend_def
  by (intro ballI) (fastforce split: if_splits)

definition arriving :: "int \<Rightarrow> int \<Rightarrow> int \<Rightarrow> dthread \<Rightarrow> bool" where
  "arriving f k comm th \<longleftrightarrow> dtaskid th = f \<and> daction_at th = GlobalOp k comm"

lemma glop_loop_collective:
  assumes "arriving f k comm th" "graph_ok (dep_graph s)" "\<forall>j\<in>C. in_range (dep_graph s) j"
    "f \<in> C" "f \<notin> A" "A \<subseteq> C" "set js \<subseteq> C" "distinct js" "set js \<inter> P = {}"
    "coll_state C k A f P (dep_graph s)"
  shows "\<exists>s1. glop_loop js k th blk s = Inr (blk \<or> \<not> set js \<subseteq> insert f A, s1) \<and>
     graph_ok (dep_graph s1) \<and> gnodes (dep_graph s1) = gnodes (dep_graph s) \<and>
     communicators s1 = communicators s \<and> total_ranks s1 = total_ranks s \<and>
     coll_state C k A f (P \<union> set js) (dep_graph s1)"
  using assms
proof (induction js arbitrary: s blk P)
  case (Cons j js)
  have th: "dtaskid th = f" "action_code (daction_at th) = GLOBAL_OP" "daction_at th = GlobalOp k comm"
    using Cons.prems(1) by (simp_all add: arriving_def)
  have jC: "j \<in> C" "j \<notin> P" "j \<notin> set js" and rj: "in_range (dep_graph s) j" using Cons.prems by auto
  note ok = Cons.prems(2) and cs = Cons.prems(10)
  let ?g = "dep_graph s"
  show ?case
  proof (cases "j = f")
    case True
    have cf: "coll_state C k A f (insert f P) ?g" using cs Cons.prems(5) by (simp add: coll_state_def coll_pend_self)
    from Cons.IH[of s "insert f P" blk] Cons.prems(1-9) cf True jC
    obtain s1 where "glop_loop js k th blk s = Inr (blk \<or> \<not> set js \<subseteq> insert f A, s1)"
      "graph_ok (dep_graph s1)" "gnodes (dep_graph s1) = gnodes ?g" "communicators s1 = communicators s"
      "total_ranks s1 = total_ranks s" "coll_state C k A f (insert f P \<union> set js) (dep_graph s1)" by auto
    with True th show ?thesis by auto
  next
    case ne: False
    show ?thesis
    proof (cases "j \<in> A")
      case True
      have "one_glop k (glops ?g j f)"
        using cs[unfolded coll_state_def, THEN bspec, THEN bspec, of j f] jC Cons.prems(4) True
        by (simp add: coll_pend_def)
      then obtain d where d: "glops ?g j f = [d]" "global_op d = k" "daction d = GLOBAL_OP"
        by (auto simp: one_glop_def)
      have dm: "d \<in> set (gmap ?g j)" using d(1) by (auto simp: glops_def filter_eq_Cons_iff)
      have lk: "GRAPH_get_dependency j f GLOP_DEP GLOBAL_OP TAG_ALL COMMUNIC_ID_ALL ?g = Inr (Some d)"
        using get_glop[OF ok rj, of f] d by simp
      obtain g2 where g2: "GRAPH_remove_dependency_p d ?g = Inr g2"
        using dm rj deps_ok_dfrom[OF ok dm] by (simp add: GRAPH_remove_dependency_p_def gsel_def)
      note r = remove_dependency_ok[OF ok g2] and gr = glops_remove[OF ok g2 d(1)]
      have "coll_state C k A f (insert j P) g2"
        using cs coll_pend_arrived[OF True Cons.prems(5)] unfolding coll_state_def gr by simp
      moreover have "\<forall>j\<in>C. in_range g2 j" using Cons.prems(3) r(2) by (simp add: in_range_def)
      ultimately obtain s1 where "glop_loop js k th blk (s\<lparr>dep_graph := g2\<rparr>) = Inr (blk \<or> \<not> set js \<subseteq> insert f A, s1)"
        "graph_ok (dep_graph s1)" "gnodes (dep_graph s1) = gnodes g2" "communicators s1 = communicators s"
        "total_ranks s1 = total_ranks s" "coll_state C k A f (insert j P \<union> set js) (dep_graph s1)"
        using Cons.IH[of "s\<lparr>dep_graph := g2\<rparr>" "insert j P" blk] Cons.prems(1,4-9) r(1) jC by auto
      with ne th lk g2 d r True show ?thesis by (simp add: gop_def)
    next
      case False
      have e: "glops ?g j f = []" "glops ?g f j = []"
        using cs[unfolded coll_state_def, THEN bspec, THEN bspec, of j f]
          cs[unfolded coll_state_def, THEN bspec, THEN bspec, of f j] jC Cons.prems(4,5) False ne
        by (simp_all add: coll_pend_def)
      have lk: "GRAPH_get_dependency j f GLOP_DEP GLOBAL_OP TAG_ALL COMMUNIC_ID_ALL ?g = Inr None"
        using get_glop[OF ok rj, of f] e by simp
      have rf: "in_range ?g f" using Cons.prems(3,4) by blast
      obtain d g2 where g2: "GRAPH_add_dependency f j GLOP_DEP th ?g = Inr (d, g2)"
        using rf by (simp add: GRAPH_add_dependency_def gsel_def Let_def)
      note r = add_dependency_ok[OF ok g2] and gr = glops_add[OF ok g2 e(2)]
      have "global_op d = k \<and> daction d = GLOBAL_OP"
        using r(3) th by (simp add: make_dependency_def Let_def GLOP_DEP_def)
      then have "one_glop k [d]" by (simp add: one_glop_def)
      then have "coll_state C k A f (insert j P) g2"
        using cs coll_pend_missing[OF False ne Cons.prems(5)] unfolding coll_state_def gr by simp
      moreover have "\<forall>j\<in>C. in_range g2 j" using Cons.prems(3) r(4) by (simp add: in_range_def)
      ultimately obtain s1 where "glop_loop js k th True (s\<lparr>dep_graph := g2\<rparr>) = Inr (True, s1)"
        "graph_ok (dep_graph s1)" "gnodes (dep_graph s1) = gnodes g2" "communicators s1 = communicators s"
        "total_ranks s1 = total_ranks s" "coll_state C k A f (insert j P \<union> set js) (dep_graph s1)"
        using Cons.IH[of "s\<lparr>dep_graph := g2\<rparr>" "insert j P" True] Cons.prems(1,4-9) r(1) jC by auto
      with ne th lk g2 r False show ?thesis by (simp add: add_dep_def)
    qed
  qed
qed simp

fun collective_arrivals ::
  "int \<Rightarrow> int \<Rightarrow> dthread list \<Rightarrow> analyzer \<Rightarrow> (bool list \<times> analyzer) res" where
  "collective_arrivals glop comm [] s = Inr ([], s)"
| "collective_arrivals glop comm (th # ths) s =
     bindE (DEADLOCK_manage_global_dependency glop comm th s) (\<lambda>(b, s1).
     bindE (collective_arrivals glop comm ths s1) (\<lambda>(bs, s2). Inr (b # bs, s2)))"

lemma collective_arrivals_effect:
  assumes "communicators s comm = Some C" "distinct C" "graph_ok (dep_graph s)"
    "\<forall>j\<in>set C. in_range (dep_graph s) j" "coll_inv (set C) k A (dep_graph s)"
    "\<forall>th\<in>set ths. daction_at th = GlobalOp k comm" "distinct (map dtaskid ths)"
    "A \<inter> dtaskid ` set ths = {}" "A \<union> dtaskid ` set ths = set C" "ths \<noteq> []"
  shows "\<exists>s1. collective_arrivals k comm ths s = Inr (replicate (length ths - 1) True @ [False], s1) \<and>
    coll_inv (set C) k (set C) (dep_graph s1)"
  using assms
proof (induction ths arbitrary: s A)
  case (Cons th ths)
  let ?f = "dtaskid th"
  have arr: "arriving ?f k comm th" using Cons.prems(6) by (simp add: arriving_def)
  have f: "?f \<in> set C" "?f \<notin> A" "A \<subseteq> set C" "set C \<inter> {} = {}" using Cons.prems(8,9) by auto
  from glop_loop_collective[OF arr Cons.prems(3,4) f(1-3) subset_refl Cons.prems(2) f(4)
      coll_start[OF f(2) Cons.prems(5)], of False]
  obtain s1 where s1: "glop_loop C k th False s = Inr (\<not> set C \<subseteq> insert ?f A, s1)"
    "graph_ok (dep_graph s1)" "gnodes (dep_graph s1) = gnodes (dep_graph s)"
    "communicators s1 = communicators s" "coll_state (set C) k A ?f (set C) (dep_graph s1)" by auto
  note inv = coll_end[OF f(2,1) s1(5)]
  have m: "DEADLOCK_manage_global_dependency k comm th s = Inr (\<not> set C \<subseteq> insert ?f A, s1)"
    using s1(1) Cons.prems(1) by (simp add: DEADLOCK_manage_global_dependency_def)
  show ?case
  proof (cases ths)
    case Nil
    then have "insert ?f A = set C" using Cons.prems(9) by auto
    with m inv Nil show ?thesis by auto
  next
    case (Cons th2 ths2)
    have ne: "\<not> set C \<subseteq> insert ?f A"
      using Cons.prems(7,8,9) Cons by auto
    have "\<exists>s2. collective_arrivals k comm ths s1 = Inr (replicate (length ths - 1) True @ [False], s2) \<and>
        coll_inv (set C) k (set C) (dep_graph s2)"
    proof (rule Cons.IH)
      show "\<forall>j\<in>set C. in_range (dep_graph s1) j" using Cons.prems(4) s1(3) by (simp add: in_range_def)
      show "insert ?f A \<inter> dtaskid ` set ths = {}" "insert ?f A \<union> dtaskid ` set ths = set C"
        "distinct (map dtaskid ths)" using Cons.prems(7,8,9) by auto
    qed (use Cons.prems s1 inv Cons in auto)
    with m ne Cons show ?thesis by auto
  qed
qed simp

section \<open>The analyser as a state machine\<close>

text \<open>
  The states the simulator brings the analyser to: after initialisation, after an event
  answered with "no deadlock", and after the reset that follows a positive answer.
\<close>

inductive analysis :: "analyzer \<Rightarrow> bool" where
  start: "analysis (DEADLOCK_init n p s)"
| event: "analysis s \<Longrightarrow> DEADLOCK_new_communic_event prog th s = Inr (False, s') \<Longrightarrow> analysis s'"
| restart: "analysis s \<Longrightarrow> DEADLOCK_new_communic_event prog th s = Inr (True, s') \<Longrightarrow>
    analysis (DEADLOCK_reset s')"

lemma blocks_init [simp]: "blocks (GRAPH_init n) = {}"
  by (simp add: blocks_def GRAPH_init_def)

lemma an_inv_init: "an_inv (DEADLOCK_init n p s)"
  by (simp add: an_inv_def DEADLOCK_init_def targets_ok_def) (simp add: GRAPH_init_def)

lemma an_inv_reset: "an_inv s \<Longrightarrow> an_inv (DEADLOCK_reset s) \<and> waits (DEADLOCK_reset s) = {}"
  by (auto simp: an_inv_def DEADLOCK_reset_def targets_ok_def GRAPH_reset_def graph_ok_def deps_ok_def
      blocks_def in_range_def)

lemma analysis_inv: "analysis s \<Longrightarrow> an_inv s \<and> acyclic (waits s)"
proof (induction rule: analysis.induct)
  case (start n p s)
  then show ?case using an_inv_init[of n p s] by (simp add: DEADLOCK_init_def acyclic_def)
next
  case (event s prog th s')
  then show ?case using event_decides[of prog th s "(False, s')"] by (simp add: decides_def)
next
  case (restart s prog th s')
  then show ?case using event_decides[of prog th s "(True, s')"] an_inv_reset[of s']
    by (simp add: decides_def acyclic_def)
qed

section \<open>Properties\<close>

definition demo_base :: analyzer where
  "demo_base = \<lparr>dep_graph = GRAPH_init 0, total_ranks = 0, end_analysis_tpercent = 0,
     with_deadlock_analysis = True, simulation_rebooted = False,
     Ptask_queue = [[\<lparr>taskid = 0, thread0 = (1, 0, 0)\<rparr>, \<lparr>taskid = 1, thread0 = (1, 1, 0)\<rparr>]],
     communicators = (\<lambda>c. if c = 1 then Some [0, 1] else None), ops_to_be_ignored = (\<lambda>_. []),
     extra_stats = None, estats_per_rank = None\<rparr>"

text \<open>
  Property C5. In every state the simulator brings the analyser to, the blocking relation is
  acyclic, and the answer to the next communication event is true exactly when that event makes
  it cyclic: the analyser neither misses a cycle of its graph nor reports one that is not there.
\<close>

theorem analyser_answers_exactly_on_cycles:
  assumes "analysis s" "DEADLOCK_new_communic_event prog th s = Inr (b, s')"
  shows "acyclic (waits s) \<and> (b \<longleftrightarrow> \<not> acyclic (waits s'))"
  using analysis_inv[OF assms(1)] event_decides[OF assms(2)] by (simp add: decides_def)

lemma demo_recv_event:
  "\<exists>s1. DEADLOCK_new_communic_event 0 (demo_thread 0 (Recv 1 5 1)) (DEADLOCK_init 2 1 demo_base)
     = Inr (False, s1)"
  by (simp add: DEADLOCK_new_communic_event_def DEADLOCK_init_def demo_base_def GRAPH_init_def
      GRAPH_get_dependencies_def GRAPH_get_dependency_def gsel_def in_range_def on_recv_def demo_thread_def
      add_strong_def add_dep_def GRAPH_add_dependency_def make_dependency_def Let_def link_dependency_def
      is_deadlocked_def GRAPH_look_for_cycle_def blocking_def look_unfold chain_capacity_def)

theorem analyser_answers_exactly_on_cycles_witness:
  "\<exists>s1. DEADLOCK_new_communic_event 0 (demo_thread 0 (Recv 1 5 1)) (DEADLOCK_init 2 1 demo_base)
     = Inr (False, s1) \<and> acyclic (waits s1)"
proof -
  obtain s1 where e: "DEADLOCK_new_communic_event 0 (demo_thread 0 (Recv 1 5 1))
      (DEADLOCK_init 2 1 demo_base) = Inr (False, s1)"
    using demo_recv_event by blast
  from analyser_answers_exactly_on_cycles[OF analysis.start e] e show ?thesis by blast
qed

text \<open>
  Property C6. The chain is written into a block with room for \<open>total_ranks\<close> integers, but the
  chain of a cycle through all tasks has one integer more: when no shorter cycle leads from the
  task back to itself, detecting that deadlock writes outside the block.
\<close>

theorem cycle_through_all_ranks_overflows:
  assumes "an_inv s" "(f, f) \<in> (waits s)\<^sup>+"
    and "\<And>c. walk (dep_graph s) c \<Longrightarrow> hd c = f \<Longrightarrow> last c = f \<Longrightarrow> 2 \<le> length c \<Longrightarrow>
      total_ranks s < length c"
  shows "is_deadlocked f s = Inl OutOfBounds"
  using assms by (rule long_cycle_overflows)

definition demo_cross :: analyzer where
  "demo_cross = (DEADLOCK_init 2 1 demo_base)\<lparr>dep_graph := demo_ring 2\<rparr>"

theorem cycle_through_all_ranks_overflows_witness:
  "is_deadlocked 0 demo_cross = Inl OutOfBounds"
proof (rule cycle_through_all_ranks_overflows)
  have bl: "waits demo_cross = {(0, 1), (1, 0)}"
    using demo_ring_blocks[of 2] by (simp add: demo_cross_def)
  have "targets_ok (demo_ring 2)"
    unfolding targets_ok_def demo_ring_blocks[of 2, simplified] by (auto simp: in_range_def demo_ring_def)
  moreover have "gnodes (demo_ring 2) = 2" by (simp add: demo_ring_def)
  ultimately show "an_inv demo_cross"
    using demo_ring_ok[of 2] by (simp add: an_inv_def demo_cross_def DEADLOCK_init_def)
  have "(0, 1) \<in> (waits demo_cross)\<^sup>+" "(1, 0) \<in> waits demo_cross" by (auto simp: bl)
  then show "(0, 0) \<in> (waits demo_cross)\<^sup>+" by (rule trancl_into_trancl)
  fix c assume w: "walk (dep_graph demo_cross) c" "hd c = 0" "last c = 0" "2 \<le> length c"
  then obtain a b cs where c: "c = a # b # cs" by (cases c; cases "tl c") auto
  with w bl have "cs \<noteq> []" by auto
  with c show "total_ranks demo_cross < length c"
    by (cases cs) (simp_all add: demo_cross_def DEADLOCK_init_def)
qed

text \<open>
  Property C7. The codes of the actions are compared as if they were bit masks: two tasks that
  receive from each other with the same tag and communicator, which is a deadlock, are taken for
  a matching pair. Both events are answered with "no deadlock" and no dependency is left.
\<close>

theorem receive_pair_is_missed:
  assumes "i \<noteq> j" "0 \<le> i" "i < int n" "0 \<le> j" "j < int n" "prog < p"
    "dtaskid ti = i" "daction_at ti = Recv j tag comm"
    "dtaskid tj = j" "daction_at tj = Recv i tag comm"
  shows "\<exists>s1 s2. DEADLOCK_new_communic_event prog ti (DEADLOCK_init n p s) = Inr (False, s1) \<and>
    waits s1 = {(i, j)} \<and>
    DEADLOCK_new_communic_event prog tj s1 = Inr (False, s2) \<and> waits s2 = {}"
proof -
  let ?s0 = "DEADLOCK_init n p s"
  let ?d = "make_dependency (GRAPH_init n) i j STRG_DEP ti"
  let ?g1 = "(GRAPH_init n)\<lparr>gmap := (\<lambda>_. [])(i := [?d]), gbrk := Suc 0\<rparr>"
  have n: "1 < n" using assms by linarith
  have r: "in_range (GRAPH_init n) i" "in_range (GRAPH_init n) j" "in_range ?g1 i" "in_range ?g1 j"
    using assms by (simp_all add: in_range_def GRAPH_init_def)
  have d: "p2p_tag ?d = tag" "p2p_communic_id ?d = comm" "daction ?d = RECV"
    using assms(8) by (simp_all add: make_dependency_def Let_def STRG_DEP_def GLOP_DEP_def)
  have add: "GRAPH_add_dependency i j STRG_DEP ti (GRAPH_init n) = Inr (?d, ?g1)"
    using r(1) by (simp add: GRAPH_add_dependency_def gsel_def Let_def link_dependency_def GRAPH_init_def)
  have look: "GRAPH_look_for_cycle n ?g1 i = Inr (False, [i])"
    using r n assms(1) by (simp add: GRAPH_look_for_cycle_def gsel_def blocking_def
        look_unfold[of n ?g1 i j] in_range_def)
  let ?s1 = "?s0\<lparr>dep_graph := ?g1\<rparr>"
  have e1: "DEADLOCK_new_communic_event prog ti ?s0 = Inr (False, ?s1)"
    using assms(6-8) r add look
    by (simp add: DEADLOCK_new_communic_event_def on_recv_def Let_def DEADLOCK_init_def
        GRAPH_get_dependencies_def GRAPH_get_dependency_def gsel_def add_strong_def add_dep_def
        is_deadlocked_def GRAPH_init_def)
  have w1: "waits ?s1 = {(i, j)}" using r by (auto simp: blocks_def blocking_def split: if_splits)
  have lk: "GRAPH_get_dependency i j STRG_DEP SEND tag comm ?g1 = Inr (Some ?d)"
    using r d by (simp add: GRAPH_get_dependency_def gsel_def p2p_match_def SEND_def RECV_def STRG_DEP_def)
  let ?g2 = "?g1\<lparr>gmap := (gmap ?g1)(i := [])\<rparr>"
  have rm: "GRAPH_remove_dependency_p ?d ?g1 = Inr ?g2"
    using r by (simp add: GRAPH_remove_dependency_p_def gsel_def)
  have e2: "DEADLOCK_new_communic_event prog tj ?s1 = Inr (False, ?s1\<lparr>dep_graph := ?g2\<rparr>)"
    using assms(6,9,10) r lk rm
    by (simp add: DEADLOCK_new_communic_event_def on_recv_def Let_def DEADLOCK_init_def
        GRAPH_get_dependencies_def gsel_def gop_def)
  have "waits (?s1\<lparr>dep_graph := ?g2\<rparr>) = {}" by (auto simp: blocks_def GRAPH_init_def)
  with e1 w1 e2 show ?thesis by blast
qed

theorem receive_pair_is_missed_witness:
  "\<exists>s1 s2. DEADLOCK_new_communic_event 0 (demo_thread 0 (Recv 1 5 1)) (DEADLOCK_init 2 1 demo_base)
     = Inr (False, s1) \<and> waits s1 = {(0, 1)} \<and>
     DEADLOCK_new_communic_event 0 (demo_thread 1 (Recv 0 5 1)) s1 = Inr (False, s2) \<and> waits s2 = {}"
  by (rule receive_pair_is_missed) (simp_all add: demo_thread_def)

text \<open>
  Without an \<open>.estats\<close> file the analyser means to ignore the earliest of the
  dependencies on the chain, but every dependency carries the time 0: it is always the first
  one, the operation of the task that closed the cycle.
\<close>

theorem earliest_dependency_is_the_first:
  assumes "graph_ok g" "actions_ok g" "walk g chain" "2 \<le> length chain"
  shows "get_earlier_task_index g chain ignore_glops = Inr 0"
  using assms by (rule earlier_is_first)

theorem earliest_dependency_is_the_first_witness:
  "get_earlier_task_index (demo_ring 2) [0, 1, 0] False = Inr 0"
proof (rule earliest_dependency_is_the_first[OF demo_ring_ok])
  show "actions_ok (demo_ring 2)"
    by (auto simp: actions_ok_def demo_ring_def demo_dep_def SEND_def RECV_def)
  show "walk (demo_ring 2) [0, 1, 0]" by (simp add: demo_ring_blocks)
qed simp

text \<open>
  With an \<open>.estats\<close> file the operation to ignore is one with the greatest number
  of pending operations of its kind along the chain, and exactly that counter is decremented;
  only when all of them are zero does the choice fall back on the earliest dependency.
\<close>

theorem break_chain_most_pending:
  assumes "breakChainFrom chain s = Inr (pos, s')" "estats_per_rank s = Some ep"
    "Suc k < length chain" "0 < step_pending (dep_graph s) ep (chain ! k) (chain ! Suc k)"
  shows "\<exists>m f. pos = int m \<and> Suc m < length chain \<and>
    estats_per_rank s' = Some (ep(chain ! m := pend_dec f (ep (chain ! m)))) \<and>
    pend f (ep (chain ! m)) = step_pending (dep_graph s) ep (chain ! m) (chain ! Suc m) \<and>
    (\<forall>i. Suc i < length chain \<longrightarrow> step_pending (dep_graph s) ep (chain ! i) (chain ! Suc i)
       \<le> pend f (ep (chain ! m)))"
proof -
  let ?c0 = "\<lparr>pendent_pointer = None, max_pendent = 0, position_chosed_thread = 0, sum_pendent_glops = 0\<rparr>"
  obtain c where c: "break_loop (dep_graph s) ep 0 chain ?c0 = Inr c"
    using assms(1,2) by (auto simp: breakChainFrom_def bindE_eq_Inr Let_def)
  note m = break_loop_max[OF c]
  have pos: "0 < max_pendent c" using m assms(3,4) by (meson order_less_le_trans)
  then obtain j f where j: "Suc j < length chain" "position_chosed_thread c = int j"
    "max_pendent c = step_pending (dep_graph s) ep (chain ! j) (chain ! Suc j)"
    "max_pendent c = pend f (ep (chain ! j))" "pendent_pointer c = Some (chain ! j, f)"
    using m by auto
  have "pos = int j" "estats_per_rank s' = Some (ep(chain ! j := pend_dec f (ep (chain ! j))))"
    using assms(1,2) c j by (auto simp: breakChainFrom_def Let_def)
  with j m show ?thesis by (intro exI[of _ j] exI[of _ f]) auto
qed

definition demo_estats :: "int \<Rightarrow> t_estats" where
  "demo_estats i = \<lparr>pendent_i_Send = (if i = 0 then 2 else 0), pendent_i_Recv = (if i = 1 then 3 else 0),
     pendent_glop = 0\<rparr>"

lemma demo_chain_deps:
  "GRAPH_get_dependency 0 1 (STRG_DEP OR GLOP_DEP) GRAPH_ALL_ACTIONS TAG_ALL COMMUNIC_ID_ALL (demo_ring 2)
     = Inr (Some (demo_dep 0 0 1 SEND))"
  "GRAPH_get_dependency 1 0 (STRG_DEP OR GLOP_DEP) GRAPH_ALL_ACTIONS TAG_ALL COMMUNIC_ID_ALL (demo_ring 2)
     = Inr (Some (demo_dep 1 1 0 RECV))"
  by (simp_all add: GRAPH_get_dependency_def gsel_def in_range_def demo_ring_def demo_dep_def
      p2p_match_def code_defs)

theorem break_chain_most_pending_witness:
  "\<exists>s'. breakChainFrom [0, 1, 0] (demo_cross\<lparr>estats_per_rank := Some demo_estats\<rparr>) = Inr (1, s') \<and>
     (\<exists>m f. (1::int) = int m \<and> pend f (demo_estats ([0, 1, 0] ! m)) =
        step_pending (demo_ring 2) demo_estats ([0, 1, 0] ! m) ([0, 1, 0] ! Suc m))"
proof -
  let ?s = "demo_cross\<lparr>estats_per_rank := Some demo_estats\<rparr>"
  have f: "field_of_action SEND = Inr PSend" "field_of_action RECV = Inr PRecv"
    by (simp_all add: field_of_action_def code_defs ISEND_def)
  have a: "daction (demo_dep n i j c) = c" for n i j c by (simp add: demo_dep_def)
  have g: "dep_graph ?s = demo_ring 2" by (simp add: demo_cross_def)
  have v: "pend PSend (demo_estats 0) = 2" "pend PRecv (demo_estats 1) = 3"
    by (simp_all add: pend_def demo_estats_def)
  have "PSend \<noteq> PGlop" "PRecv \<noteq> PGlop" by simp_all
  then have "break_loop (demo_ring 2) demo_estats 0 [0, 1, 0]
      \<lparr>pendent_pointer = None, max_pendent = 0, position_chosed_thread = 0, sum_pendent_glops = 0\<rparr> =
    Inr \<lparr>pendent_pointer = Some (1, PRecv), max_pendent = 3, position_chosed_thread = 1,
      sum_pendent_glops = 0\<rparr>"
    by (simp add: demo_chain_deps f a v Let_def)
  then obtain s' where b: "breakChainFrom [0, 1, 0] ?s = Inr (1, s')"
    by (simp add: breakChainFrom_def g Let_def del: break_loop.simps)
  have sp: "0 < step_pending (dep_graph ?s) demo_estats ([0, 1, 0] ! 0) ([0, 1, 0] ! Suc 0)"
    by (simp add: step_pending_def chain_dep_def g demo_chain_deps f a pend_def demo_estats_def)
  have e: "estats_per_rank ?s = Some demo_estats" and l: "Suc 0 < length [0, 1, 0::int]" by simp_all
  from break_chain_most_pending[OF b e l sp] show ?thesis using b unfolding g by blast
qed

text \<open>
  Property C8. When the tasks of a communicator arrive at a collective operation one after the
  other, in whatever order, every arrival but the last blocks and the last one does not; then no
  collective dependency between them is left.
\<close>

theorem collective_releases_at_last_arrival:
  assumes "communicators s comm = Some C" "distinct C" "C \<noteq> []" "graph_ok (dep_graph s)"
    "\<forall>j\<in>set C. in_range (dep_graph s) j" "\<forall>a\<in>set C. \<forall>b\<in>set C. glops (dep_graph s) a b = []"
    "\<forall>th\<in>set ths. daction_at th = GlobalOp k comm" "distinct (map dtaskid ths)"
    "dtaskid ` set ths = set C"
  shows "\<exists>s'. collective_arrivals k comm ths s = Inr (replicate (length ths - 1) True @ [False], s') \<and>
    (\<forall>a\<in>set C. \<forall>b\<in>set C. glops (dep_graph s') a b = [])"
proof -
  have "coll_inv (set C) k {} (dep_graph s)" using assms(6) by (simp add: coll_inv_def)
  moreover have "ths \<noteq> []" using assms(3,9) by auto
  ultimately have "\<exists>s1. collective_arrivals k comm ths s = Inr (replicate (length ths - 1) True @ [False], s1) \<and>
      coll_inv (set C) k (set C) (dep_graph s1)"
    using collective_arrivals_effect[of s comm C k "{}" ths] assms by simp
  then show ?thesis by (auto simp: coll_inv_def)
qed

theorem collective_releases_at_last_arrival_witness:
  "\<exists>s'. collective_arrivals 7 1 [demo_thread 1 (GlobalOp 7 1), demo_thread 0 (GlobalOp 7 1)]
     (DEADLOCK_init 2 1 demo_base) = Inr ([True, False], s') \<and> glops (dep_graph s') 0 1 = []"
proof -
  have "\<exists>s'. collective_arrivals 7 1 [demo_thread 1 (GlobalOp 7 1), demo_thread 0 (GlobalOp 7 1)]
     (DEADLOCK_init 2 1 demo_base) = Inr (replicate (length [demo_thread 1 (GlobalOp 7 1),
       demo_thread 0 (GlobalOp 7 1)] - 1) True @ [False], s') \<and>
     (\<forall>a\<in>set [0, 1]. \<forall>b\<in>set [0, 1]. glops (dep_graph s') a b = [])"
  proof (rule collective_releases_at_last_arrival)
    show "communicators (DEADLOCK_init 2 1 demo_base) 1 = Some [0, 1]"
      by (simp add: DEADLOCK_init_def demo_base_def)
  qed (auto simp: DEADLOCK_init_def GRAPH_init_def in_range_def glops_def demo_thread_def graph_ok_def deps_ok_def)
  then show ?thesis by auto
qed

text \<open>
  When a thread ends, the simulation is marked for a restart exactly when some
  other task is still blocked on its task, and the operation behind every such dependency is put
  on the list of operations the restarted simulation ignores.
\<close>

theorem finalized_thread_releases_waiters:
  assumes "an_inv s" "threads_known s" "in_range (dep_graph s) (dtaskid th)"
  shows "\<exists>s'. DEADLOCK_thread_finalized th s = Inr s' \<and> dep_graph s' = dep_graph s \<and>
    (simulation_rebooted s' \<longleftrightarrow> simulation_rebooted s \<or>
       (\<exists>i<total_ranks s. int i \<noteq> dtaskid th \<and> (int i, dtaskid th) \<in> waits s)) \<and>
    (\<forall>i<total_ranks s. int i \<noteq> dtaskid th \<longrightarrow> (\<forall>d\<in>set (gmap (dep_graph s) (int i)).
       blocking d \<and> dto d = dtaskid th \<longrightarrow> queued s s' (int i) d))"
proof -
  have "\<forall>i\<in>set [0..<total_ranks s]. i < total_ranks s" by simp
  from finalized_loop_effect[OF _ _ assms(2,3) this] assms(1)
  obtain s' where "finalized_loop (dtaskid th) [0..<total_ranks s] s = Inr s'" "same_tables s s'"
    "simulation_rebooted s' \<longleftrightarrow> simulation_rebooted s \<or>
       (\<exists>i\<in>set [0..<total_ranks s]. int i \<noteq> dtaskid th \<and> (int i, dtaskid th) \<in> waits s)"
    "\<forall>i\<in>set [0..<total_ranks s]. int i \<noteq> dtaskid th \<longrightarrow> (\<forall>d\<in>set (gmap (dep_graph s) (int i)).
       blocking d \<and> dto d = dtaskid th \<longrightarrow> queued s s' (int i) d)"
    unfolding an_inv_def by blast
  then show ?thesis
    unfolding upto_ball upto_bex
    by (intro exI[of _ s']) (simp add: DEADLOCK_thread_finalized_def same_tables_def)
qed

lemma demo_cross_an_inv: "an_inv demo_cross"
proof -
  have "targets_ok (demo_ring 2)"
    unfolding targets_ok_def demo_ring_blocks[of 2, simplified] by (auto simp: in_range_def demo_ring_def)
  moreover have "gnodes (demo_ring 2) = 2" by (simp add: demo_ring_def)
  ultimately show ?thesis
    using demo_ring_ok[of 2] by (simp add: an_inv_def demo_cross_def DEADLOCK_init_def)
qed

lemma demo_cross_threads: "threads_known demo_cross"
  by (auto simp: threads_known_def get_thread_by_task_id_def demo_cross_def DEADLOCK_init_def demo_base_def
      less_Suc_eq numeral_2_eq_2)

theorem finalized_thread_releases_waiters_witness:
  "\<exists>s'. DEADLOCK_thread_finalized (demo_thread 0 (Other 0)) demo_cross = Inr s' \<and>
     simulation_rebooted s' \<and> queued demo_cross s' 1 (demo_dep 1 1 0 RECV)"
proof -
  have bl: "waits demo_cross = {(0, 1), (1, 0)}"
    using demo_ring_blocks[of 2] by (simp add: demo_cross_def)
  have r: "in_range (dep_graph demo_cross) (dtaskid (demo_thread 0 (Other 0)))"
    and t: "dtaskid (demo_thread 0 (Other 0)) = 0" "total_ranks demo_cross = 2"
    and d: "demo_dep 1 1 0 RECV \<in> set (gmap (dep_graph demo_cross) (int 1))" "blocking (demo_dep 1 1 0 RECV)"
      "dto (demo_dep 1 1 0 RECV) = 0"
    by (simp_all add: in_range_def demo_cross_def demo_ring_def demo_thread_def DEADLOCK_init_def
        demo_dep_def blocking_def)
  from finalized_thread_releases_waiters[OF demo_cross_an_inv demo_cross_threads r]
  obtain s' where s': "DEADLOCK_thread_finalized (demo_thread 0 (Other 0)) demo_cross = Inr s'"
    "simulation_rebooted s' \<longleftrightarrow> simulation_rebooted demo_cross \<or>
       (\<exists>i<2. int i \<noteq> 0 \<and> (int i, 0) \<in> waits demo_cross)"
    "\<forall>i<2. int i \<noteq> 0 \<longrightarrow> (\<forall>d\<in>set (gmap (dep_graph demo_cross) (int i)).
       blocking d \<and> dto d = 0 \<longrightarrow> queued demo_cross s' (int i) d)"
    unfolding t by blast
  have "simulation_rebooted s'" using s'(2) bl by (auto intro!: exI[of _ "1::nat"])
  moreover have "queued demo_cross s' 1 (demo_dep 1 1 0 RECV)" using s'(3)[rule_format, of 1] d by simp
  ultimately show ?thesis using s'(1) by blast
qed

text \<open>
  At the end of the simulation the analyser answers that a restart is needed
  exactly when some task has a dependency left, and puts the operation of every one of them on
  the list of operations to ignore.
\<close>

theorem check_end_reports_pending:
  assumes "an_inv s" "threads_known s" "actions_ok (dep_graph s)"
  shows "\<exists>s'. DEADLOCK_check_end s = Inr (\<exists>i<total_ranks s. gmap (dep_graph s) (int i) \<noteq> [], s') \<and>
    (\<forall>i<total_ranks s. \<forall>d\<in>set (gmap (dep_graph s) (int i)). queued s s' (int i) d)"
proof -
  have "\<forall>i\<in>set [0..<total_ranks s]. i < total_ranks s" by simp
  from check_end_loop_effect[OF _ _ assms(2,3) this, of False, unfolded upto_ball upto_bex] assms(1)
  show ?thesis unfolding DEADLOCK_check_end_def an_inv_def by auto
qed

theorem check_end_reports_pending_witness:
  "\<exists>s'. DEADLOCK_check_end demo_cross = Inr (True, s') \<and> queued demo_cross s' 0 (demo_dep 0 0 1 SEND)"
proof -
  have ac: "actions_ok (dep_graph demo_cross)"
    by (auto simp: actions_ok_def demo_cross_def demo_ring_def demo_dep_def SEND_def RECV_def)
  have d: "demo_dep 0 0 1 SEND \<in> set (gmap (dep_graph demo_cross) (int 0))" "total_ranks demo_cross = 2"
    by (simp_all add: demo_cross_def demo_ring_def DEADLOCK_init_def)
  from check_end_reports_pending[OF demo_cross_an_inv demo_cross_threads ac]
  obtain s' where s': "DEADLOCK_check_end demo_cross =
      Inr (\<exists>i<2. gmap (dep_graph demo_cross) (int i) \<noteq> [], s')"
    "\<forall>i<2. \<forall>d\<in>set (gmap (dep_graph demo_cross) (int i)). queued demo_cross s' (int i) d"
    unfolding d(2) by blast
  have "\<exists>i<2. gmap (dep_graph demo_cross) (int i) \<noteq> []"
    using d(1) by (intro exI[of _ "0::nat"]) auto
  with s' d(1) show ?thesis by (intro exI[of _ s']) force
qed

end
