(* ===== verification/Events.thy ===== *)
theory Events
  imports Queue
begin

text \<open>
  \<^verbatim>\<open>Simulator/sched/events.c\<close>, the discrete event engine: the event queue, the timers the
  simulated objects set and cancel, and the manager that takes the next event, advances the clock
  and calls the module the event is for. The modules are a record of handlers. The queue is a list
  (theory \<open>ListHeap\<close> relates \<open>insert_event\<close> to \<open>seq_insert\<close>); an event has an address, taken
  from the counter \<open>next_ev\<close>, because threads point to their event. The event being processed is
  freed only after its handler (\<open>in_process\<close>). \<open>USE_EQUEUE\<close> and \<open>VENUS_ENABLED\<close> are off, and log
  output is not modelled.

  The state is the base of the state record of the communication modules.
\<close>

section \<open>State\<close>

datatype modul = M_SCH | M_COM | M_FS | M_PORT | M_MEM | M_CTXT_SW | M_RMA | M_EV

record t_event =
  ev_id :: nat
  event_time :: timer
  ev_module :: modul
  ev_thread :: "tid option"
  ev_info :: int
  ev_daemon :: bool

record engine =
  current_time :: timer
  Event_queue :: "t_event list"
  are_only_daemons :: int
  next_ev :: nat
  in_process :: "t_event option"
  thread_event :: "tid \<Rightarrow> nat option"
  loose_cpu :: "tid \<Rightarrow> bool"
  next_event_timer :: "tid \<Rightarrow> timer"
  reload_done :: bool

definition COM_EXT_NET_TRAFFIC_TIMER :: int where "COM_EXT_NET_TRAFFIC_TIMER = 4"

section \<open>Operations\<close>

definition new_event :: "timer \<Rightarrow> bool \<Rightarrow> modul \<Rightarrow> tid option \<Rightarrow> int \<Rightarrow> nat \<Rightarrow> t_event" where
  "new_event when daemon m ot info i = \<lparr>ev_id = i, event_time = when, ev_module = m, ev_thread = ot,
     ev_info = info, ev_daemon = daemon\<rparr>"

lemma new_event_simps [simp]:
  "ev_id (new_event w d m ot info i) = i" "event_time (new_event w d m ot info i) = w"
  "ev_module (new_event w d m ot info i) = m" "ev_thread (new_event w d m ot info i) = ot"
  "ev_info (new_event w d m ot info i) = info" "ev_daemon (new_event w d m ot info i) = d"
  by (simp_all add: new_event_def)

definition EVENT_timer :: "timer \<Rightarrow> bool \<Rightarrow> modul \<Rightarrow> tid option \<Rightarrow> int \<Rightarrow> 'z engine_scheme
    \<Rightarrow> (nat option \<times> 'z engine_scheme) res" where
  "EVENT_timer when daemon m ot info s =
     (if daemon \<and> are_only_daemons s = int (length (Event_queue s)) \<and> current_time s \<noteq> 0
      then Inr (None, s)
      else
        let s1 = (if daemon then s\<lparr>are_only_daemons := are_only_daemons s + 1\<rparr> else s);
            e = new_event when daemon m ot info (next_ev s1);
            insert_e = (\<lambda>s. s\<lparr>Event_queue := seq_insert event_time e (Event_queue s), next_ev := next_ev s + 1\<rparr>)
        in if m \<noteq> M_CTXT_SW \<and> (m \<noteq> M_COM \<or> info \<noteq> COM_EXT_NET_TRAFFIC_TIMER)
           then (case ot of
                   None \<Rightarrow> Inl NullDeref
                 | Some t \<Rightarrow> Inr (Some (ev_id e), insert_e
                     (s1\<lparr>loose_cpu := (loose_cpu s1)(t := True),
                         next_event_timer := (next_event_timer s1)(t := when)\<rparr>)))
           else Inr (Some (ev_id e), insert_e s1))"

text \<open>The event a thread points to; the memory of an event is gone once it has been processed.\<close>

definition event_at :: "nat \<Rightarrow> 'z engine_scheme \<Rightarrow> t_event option" where
  "event_at i s = List.find (\<lambda>e. ev_id e = i)
     (Event_queue s @ (case in_process s of None \<Rightarrow> [] | Some e \<Rightarrow> [e]))"

definition extract_event :: "t_event \<Rightarrow> 'z engine_scheme \<Rightarrow> (timer \<times> 'z engine_scheme) res" where
  "extract_event e s =
     (if e \<in> set (Event_queue s) then Inr (event_time e, s\<lparr>Event_queue := remove1 e (Event_queue s)\<rparr>)
      else Inl (Panic ''Can't find element to extract from queue''))"

definition EVENT_extract_timer :: "modul \<Rightarrow> tid \<Rightarrow> 'z engine_scheme \<Rightarrow> (timer \<times> 'z engine_scheme) res" where
  "EVENT_extract_timer m t s =
     (let search = (case List.find (\<lambda>e. ev_module e = m \<and> ev_thread e = Some t) (Event_queue s) of
                      None \<Rightarrow> Inl (Panic ''Can't extract requested event'')
                    | Some e \<Rightarrow> extract_event e s)
      in case thread_event s t of
           None \<Rightarrow> search
         | Some i \<Rightarrow>
             (case event_at i s of
                None \<Rightarrow> Inl Dangling
              | Some e \<Rightarrow> if ev_module e = m \<and> ev_thread e = Some t then extract_event e s else search))"

definition EVENT_Init :: "'z engine_scheme \<Rightarrow> 'z engine_scheme" where
  "EVENT_Init s = s\<lparr>Event_queue := []\<rparr>"

definition events_for_thread :: "tid \<Rightarrow> 'z engine_scheme \<Rightarrow> bool" where
  "events_for_thread t s = list_ex (\<lambda>e. ev_thread e = Some t) (Event_queue s)"

text \<open>
  The modules; \<open>reload_events\<close> starts waiting threads on free processors. \<open>event_begin\<close> is the part
  of \<open>event_manager\<close> before the call of the module.
\<close>

record 's modules =
  SCHEDULER_general :: "tid option \<Rightarrow> 's \<Rightarrow> 's run"
  COMMUNIC_general :: "int \<Rightarrow> tid option \<Rightarrow> 's \<Rightarrow> 's run"
  FS_general :: "int \<Rightarrow> tid option \<Rightarrow> 's \<Rightarrow> 's run"
  PORT_general :: "tid option \<Rightarrow> 's \<Rightarrow> 's run"
  MEMORY_general :: "tid option \<Rightarrow> 's \<Rightarrow> 's run"
  SCHEDULER_context_switch :: "int \<Rightarrow> 's \<Rightarrow> 's run"
  reload_events :: "'s \<Rightarrow> 's run"

definition event_begin :: "timer \<Rightarrow> t_event \<Rightarrow> 'z engine_scheme \<Rightarrow> 'z engine_scheme res" where
  "event_begin time_limit e s =
     (if current_time s > event_time e then Inl (Die ''Time is going backwards'')
      else if event_time e > time_limit then Inl (Panic ''Time out of simulation limit'')
      else Inr (s\<lparr>current_time := event_time e, in_process := Some e,
                  are_only_daemons := (if ev_daemon e then are_only_daemons s - 1 else are_only_daemons s)\<rparr>))"

definition dispatch :: "'z engine_scheme modules \<Rightarrow> t_event \<Rightarrow> 'z engine_scheme \<Rightarrow> 'z engine_scheme run" where
  "dispatch M e s = (case ev_module e of
      M_SCH \<Rightarrow> SCHEDULER_general M (ev_thread e) s
    | M_COM \<Rightarrow> COMMUNIC_general M (ev_info e) (ev_thread e) s
    | M_FS \<Rightarrow> FS_general M (ev_info e) (ev_thread e) s
    | M_PORT \<Rightarrow> PORT_general M (ev_thread e) s
    | M_MEM \<Rightarrow> MEMORY_general M (ev_thread e) s
    | M_CTXT_SW \<Rightarrow> SCHEDULER_context_switch M (ev_info e) s
    | _ \<Rightarrow> failR (Panic ''Invalid event type on queue''))"

definition event_manager :: "'z engine_scheme modules \<Rightarrow> timer \<Rightarrow> t_event \<Rightarrow> 'z engine_scheme
    \<Rightarrow> 'z engine_scheme run" where
  "event_manager M time_limit e s =
     bindR (Some (event_begin time_limit e s)) (\<lambda>s1.
     bindR (dispatch M e s1) (\<lambda>s2.
     bindR (if reload_done s2 then bindR (reload_events M s2) (\<lambda>s3. retR (s3\<lparr>reload_done := False\<rparr>))
            else retR s2) (\<lambda>s4.
     retR (s4\<lparr>in_process := None\<rparr>))))"

section \<open>The state of the queue\<close>

text \<open>
  The events are in the order of their times, none lies in the past, and their addresses are all
  different.
\<close>

definition engine_ok :: "'z engine_scheme \<Rightarrow> bool" where
  "engine_ok s \<longleftrightarrow> sorted (map event_time (Event_queue s)) \<and>
     (\<forall>e\<in>set (Event_queue s). current_time s \<le> event_time e) \<and>
     distinct (map ev_id (Event_queue s)) \<and> (\<forall>e\<in>set (Event_queue s). ev_id e < next_ev s) \<and>
     (\<forall>e. in_process s = Some e \<longrightarrow> ev_id e < next_ev s \<and> ev_id e \<notin> ev_id ` set (Event_queue s))"

lemma EVENT_timer_queue:
  assumes "EVENT_timer when d m ot i s = Inr (r, s')"
  shows "(r = None \<and> s' = s) \<or> (r = Some (next_ev s) \<and>
     Event_queue s' = seq_insert event_time (new_event when d m ot i (next_ev s)) (Event_queue s) \<and>
     next_ev s' = next_ev s + 1 \<and> current_time s' = current_time s \<and> in_process s' = in_process s \<and>
     thread_event s' = thread_event s \<and> engine.more s' = engine.more s)"
  using assms by (cases ot) (simp_all add: EVENT_timer_def Let_def split: if_splits, auto)

lemma EVENT_timer_not_refused: "EVENT_timer w False m ot i s = Inr (r, s') \<Longrightarrow> r = Some (next_ev s)"
  by (auto simp: EVENT_timer_def Let_def split: if_splits option.splits)

lemma distinct_seq_insert:
  assumes "distinct (map ev_id q)" "ev_id e \<notin> ev_id ` set q"
  shows "distinct (map ev_id (seq_insert event_time e q))"
proof -
  have "mset (map ev_id (seq_insert event_time e q)) = mset (map ev_id (e # q))"
    by (simp add: seq_insert_def mset_ins_before)
  then have "distinct (map ev_id (seq_insert event_time e q)) = distinct (map ev_id (e # q))"
    by (rule mset_eq_imp_distinct_iff)
  with assms show ?thesis by simp
qed

lemma EVENT_timer_ok:
  assumes "engine_ok s" "current_time s \<le> when" "EVENT_timer when d m ot i s = Inr (r, s')"
  shows "engine_ok s'"
  using EVENT_timer_queue[OF assms(3)]
proof
  assume "r = None \<and> s' = s" with assms(1) show ?thesis by simp
next
  let ?e = "new_event when d m ot i (next_ev s)"
  assume e: "r = Some (next_ev s) \<and>
     Event_queue s' = seq_insert event_time ?e (Event_queue s) \<and>
     next_ev s' = next_ev s + 1 \<and> current_time s' = current_time s \<and> in_process s' = in_process s \<and>
     thread_event s' = thread_event s \<and> engine.more s' = engine.more s"
  have new: "ev_id ?e \<notin> ev_id ` set (Event_queue s)" using assms(1) by (auto simp: engine_ok_def)
  have q: "set (Event_queue s') = insert ?e (set (Event_queue s))" using e by (simp add: seq_insert_def)
  have "distinct (map ev_id (Event_queue s'))"
    using distinct_seq_insert[OF _ new] assms(1) e by (simp add: engine_ok_def)
  moreover have "sorted (map event_time (Event_queue s'))"
    using by_priority.ins_sorted[of event_time "Event_queue s" ?e] assms(1) e by (simp add: engine_ok_def)
  ultimately show ?thesis
    using assms(1,2) e q unfolding engine_ok_def by (auto simp: less_Suc_eq)
qed

lemma extract_event_ok:
  assumes "engine_ok s" "extract_event e s = Inr (w, s')"
  shows "engine_ok s'"
proof -
  have s': "s' = s\<lparr>Event_queue := remove1 e (Event_queue s)\<rparr>"
    using assms(2) by (simp add: extract_event_def split: if_splits)
  have sub: "set (remove1 e (Event_queue s)) \<subseteq> set (Event_queue s)" by (rule set_remove1_subset)
  have "distinct (map ev_id (remove1 e (Event_queue s)))"
    using assms(1) sub by (auto simp: engine_ok_def distinct_map intro: inj_on_subset)
  moreover have "sorted (map event_time (remove1 e (Event_queue s)))"
    using assms(1) by (simp add: engine_ok_def sorted_map_remove1)
  ultimately show ?thesis
    using assms(1) sub unfolding engine_ok_def s' by auto
qed

section \<open>Runs of the engine\<close>

text \<open>
  What happens to the engine while the simulator runs: a module sets a timer that does not lie in
  the past and may keep a pointer to the event, cancels the timer of a thread, changes the rest of
  the state; the manager takes the first event, or frees the event it has processed.
\<close>

inductive ev_step :: "timer \<Rightarrow> 'z engine_scheme \<Rightarrow> 'z engine_scheme \<Rightarrow> bool" for bound :: timer where
  set_timer: "current_time s \<le> w \<Longrightarrow> EVENT_timer w d m ot i s = Inr (r, s') \<Longrightarrow> ev_step bound s s'"
| point: "ev_step bound s (s\<lparr>thread_event := f\<rparr>)"
| cancel: "EVENT_extract_timer m t s = Inr (w, s') \<Longrightarrow> ev_step bound s s'"
| other: "Event_queue s' = Event_queue s \<Longrightarrow> current_time s' = current_time s \<Longrightarrow> next_ev s' = next_ev s \<Longrightarrow>
    in_process s' = in_process s \<Longrightarrow> ev_step bound s s'"
| take: "Event_queue s = e # q \<Longrightarrow> event_begin bound e (s\<lparr>Event_queue := q\<rparr>) = Inr s' \<Longrightarrow> ev_step bound s s'"
| finish: "ev_step bound s (s\<lparr>in_process := None\<rparr>)"

lemma EVENT_extract_timer_Inr:
  assumes "EVENT_extract_timer m t s = Inr (w, s')"
  shows "\<exists>e. extract_event e s = Inr (w, s') \<and> ev_module e = m \<and> ev_thread e = Some t"
proof -
  have f: "List.find P q = Some e \<Longrightarrow> P e" for P :: "t_event \<Rightarrow> bool" and q e
    by (induction q) (auto split: if_splits)
  let ?P = "\<lambda>e. ev_module e = m \<and> ev_thread e = Some t"
  let ?search = "case List.find ?P (Event_queue s) of
      None \<Rightarrow> Inl (Panic ''Can't extract requested event'') | Some e \<Rightarrow> extract_event e s"
  have search: "?search = Inr (w, s') \<Longrightarrow> ?thesis"
    by (auto split: option.splits dest!: f[of ?P])
  show ?thesis
    using assms search
    by (auto simp: EVENT_extract_timer_def Let_def simp del: split_paired_Ex split: option.split_asm if_split_asm)
qed

lemma ev_step_ok: "ev_step bound s s' \<Longrightarrow> engine_ok s \<Longrightarrow> engine_ok s' \<and> current_time s \<le> current_time s'"
proof (induction rule: ev_step.induct)
  case (set_timer s w d m ot i r s')
  then show ?case using EVENT_timer_ok[of s w] EVENT_timer_queue[OF set_timer(2)] by auto
next
  case (cancel m t s w s')
  from EVENT_extract_timer_Inr[OF cancel(1)] obtain e where e: "extract_event e s = Inr (w, s')" by blast
  then have "current_time s' = current_time s" by (auto simp: extract_event_def split: if_splits)
  with extract_event_ok[OF cancel(2) e] show ?case by simp
next
  case (take s e q s')
  then show ?case by (auto simp: engine_ok_def event_begin_def split: if_splits)
qed (auto simp: engine_ok_def)

lemma ev_steps_ok: "(ev_step bound)\<^sup>*\<^sup>* s s' \<Longrightarrow> engine_ok s \<Longrightarrow> engine_ok s' \<and> current_time s \<le> current_time s'"
  by (induction rule: rtranclp_induct) (use ev_step_ok order_trans in blast)+

definition ex_engine :: engine where
  "ex_engine = \<lparr>current_time = 0, Event_queue = [], are_only_daemons = 0, next_ev = 0, in_process = None,
     thread_event = (\<lambda>_. None), loose_cpu = (\<lambda>_. False), next_event_timer = (\<lambda>_. 0), reload_done = False\<rparr>"

lemma ex_engine_ok: "engine_ok ex_engine"
  by (simp add: engine_ok_def ex_engine_def)


definition ex_engine1 :: engine where
  "ex_engine1 = (case EVENT_timer 5 False M_COM (Some 7) 1 ex_engine of Inr (_, s) \<Rightarrow> s | Inl _ \<Rightarrow> ex_engine)"


text \<open>
  Cancelling the timer a thread points to, while it is still queued, gives the time
  the timer was set for and takes exactly this event out of the queue, even when other events of the
  thread and module are queued before it; the order of all other events is unchanged.
\<close>

theorem cancel_takes_the_own_event:
  assumes "engine_ok s" "Event_queue s = us @ e # vs" "thread_event s t = Some (ev_id e)"
    and "ev_module e = m" "ev_thread e = Some t"
  shows "EVENT_extract_timer m t s = Inr (event_time e, s\<lparr>Event_queue := us @ vs\<rparr>)"
proof -
  have d: "distinct (map ev_id (Event_queue s))" using assms(1) by (simp add: engine_ok_def)
  then have "e \<notin> set us" using assms(2) by auto
  have first: "List.find P (xs @ a # ys) = Some a" if "P a" "\<forall>x\<in>set xs. \<not> P x"
    for P :: "t_event \<Rightarrow> bool" and xs ys a using that by (induction xs) auto
  have "ev_id e \<notin> ev_id ` set us" using d assms(2) by simp
  then have "\<forall>x\<in>set us. ev_id x \<noteq> ev_id e" by (auto simp: image_iff)
  then have "event_at (ev_id e) s = Some e"
    unfolding event_at_def assms(2) append_assoc append_Cons by (intro first) auto
  with assms \<open>e \<notin> set us\<close> show ?thesis
    by (simp add: EVENT_extract_timer_def extract_event_def remove1_append)
qed

definition ex_engine2 :: engine where
  "ex_engine2 = ex_engine\<lparr>Event_queue := [new_event 3 False M_SCH (Some 7) 0 100, new_event 4 False M_SCH (Some 7) 0 101],
     next_ev := 102, thread_event := (\<lambda>t. if t = 7 then Some 101 else None)\<rparr>"

theorem cancel_takes_the_own_event_witness:
  "EVENT_extract_timer M_SCH 7 ex_engine2 =
     Inr (event_time (new_event 4 False M_SCH (Some 7) 0 101),
          ex_engine2\<lparr>Event_queue := [new_event 3 False M_SCH (Some 7) 0 100] @ []\<rparr>)"
  by (rule cancel_takes_the_own_event) (auto simp: ex_engine2_def ex_engine_def engine_ok_def)

text \<open>
  A daemon event is refused exactly when the clock has left 0 and nothing but daemon events
  is pending, given that the counter is their number; so daemons alone do not keep the simulation
  alive. Otherwise it is queued behind the events of the same time and counted.
\<close>

theorem daemons_do_not_keep_alive:
  assumes "are_only_daemons s = int (length (filter ev_daemon (Event_queue s)))"
  shows "\<exists>r s'. EVENT_timer when True m (Some t) i s = Inr (r, s') \<and>
    (r = None \<longleftrightarrow> current_time s \<noteq> 0 \<and> (\<forall>e\<in>set (Event_queue s). ev_daemon e)) \<and>
    are_only_daemons s' = int (length (filter ev_daemon (Event_queue s'))) \<and>
    (r \<noteq> None \<longrightarrow> Event_queue s' =
       takeWhile (\<lambda>e. event_time e \<le> when) (Event_queue s) @ [new_event when True m (Some t) i (next_ev s)] @
       dropWhile (\<lambda>e. event_time e \<le> when) (Event_queue s))"
proof -
  have all: "length (filter P xs) = length xs \<longleftrightarrow> (\<forall>x\<in>set xs. P x)" for P :: "t_event \<Rightarrow> bool" and xs
    by (metis filter_id_conv length_filter_less less_irrefl)
  have ins: "seq_insert event_time e q = takeWhile (\<lambda>x. event_time x \<le> event_time e) q @ [e] @
      dropWhile (\<lambda>x. event_time x \<le> event_time e) q" for e q
    by (simp add: seq_insert_def ins_before_def comp_def)
  have "length (filter P (takeWhile Q xs)) + length (filter P (dropWhile Q xs)) = length (filter P xs)"
    for P Q :: "t_event \<Rightarrow> bool" and xs
    by (metis filter_append length_append takeWhile_dropWhile_id)
  then show ?thesis
    using assms all[of ev_daemon "Event_queue s"]
    by (auto simp: EVENT_timer_def Let_def ins simp del: takeWhile_dropWhile_id)
qed

theorem daemons_do_not_keep_alive_witness:
  "\<exists>r s'. EVENT_timer 9 True M_SCH (Some 7) 0 ex_engine2 = Inr (r, s') \<and>
    (r = None \<longleftrightarrow> current_time ex_engine2 \<noteq> 0 \<and> (\<forall>e\<in>set (Event_queue ex_engine2). ev_daemon e)) \<and>
    are_only_daemons s' = int (length (filter ev_daemon (Event_queue s'))) \<and>
    (r \<noteq> None \<longrightarrow> Event_queue s' =
       takeWhile (\<lambda>e. event_time e \<le> 9) (Event_queue ex_engine2) @ [new_event 9 True M_SCH (Some 7) 0 (next_ev ex_engine2)] @
       dropWhile (\<lambda>e. event_time e \<le> 9) (Event_queue ex_engine2))"
  by (rule daemons_do_not_keep_alive) (simp add: ex_engine2_def ex_engine_def)

end
