(* ===== verification/Links.thy ===== *)
theory Links
  imports Events
begin

text \<open>
  \<^verbatim>\<open>Simulator/model/links.c\<close>: the protocols by which a communication reserves and releases
  the links of a task (intra-node memory), a node (internal network), a machine (external
  network) and a dedicated connection. \<open>t_link.info\<close> is a union of the four owners; it is the
  datatype \<open>owner\<close>, and the queues of an owner are its \<open>pool\<close>. Queues are lists here (theory
  \<open>ListHeap\<close> relates them to the pointer code). The network protocol is the default one, in
  which an output link can be taken from a thread that waits for its partner
  (\<open>GESTIO_LINKS_ORIGINAL\<close> is off). Log output is not modelled.

  The state extends the event engine and is an extensible record: the theory of the senders adds
  its buses and messages to it. What a released link wakes up (\<open>really_send\<close>, \<open>really_RMA\<close>, \<open>global_op_reserva_links\<close>,
  \<open>really_port_send\<close>, \<open>really_copy_segment\<close>) is passed to the releasing functions as a record of
  handlers.
\<close>

section \<open>State\<close>

datatype dir = IN_LINK | OUT_LINK

datatype owner = TaskPool taskid | NodePool nodeid | MachinePool machid | ConnPool connid

datatype policy = COMMUNIC_FIFO | COMMUNIC_RR | COMMUNIC_BOOST | COMMUNIC_other

datatype act_kind = A_SEND | A_WAIT_FOR_SEND | A_MPI_OS | A_GLOBAL_OP | A_other

text \<open>The links of ports and of copies also take the value \<open>L_NUL\<close> (-1, no link is needed).\<close>

datatype slot = L_NIL | L_NUL | Lk lid

record t_link =
  link_info :: owner
  link_type :: dir
  link_thread :: "tid option"
  assigned_on :: timer

record pool =
  free_in_links :: "lid list"
  free_out_links :: "lid list"
  busy_in_links :: "lid list"
  busy_out_links :: "lid list"
  th_for_in :: "tid list"
  th_for_out :: "tid list"
  half_duplex_links :: bool
  wait_inlink_port :: "(nat \<times> tid \<times> tid) list"
  wait_outlink_port :: "(nat \<times> tid \<times> tid) list"
  wait_in_copy_segment :: "(tid \<times> nodeid \<times> nodeid) list"
  wait_out_copy_segment :: "(tid \<times> nodeid \<times> nodeid) list"

record t_thread =
  task_of :: taskid
  act :: act_kind
  original_thread :: bool
  last_paraver :: timer
  initial_wait_link_time :: timer
  block_due_link :: timer
  local_link :: "lid option"
  partner_link :: "lid option"
  local_hd_link :: "lid option"
  partner_hd_link :: "lid option"
  partner_node :: "nodeid option"
  port_send_link :: slot
  port_recv_link :: slot
  copy_segment_link_source :: slot
  copy_segment_link_dest :: slot

record net = engine +
  pools :: "owner \<Rightarrow> pool"
  links :: "lid \<Rightarrow> t_link"
  threads :: "tid \<Rightarrow> t_thread"
  node_of_task :: "taskid \<Rightarrow> nodeid"
  machine_of_node :: "nodeid \<Rightarrow> machid"
  comm_policy :: "machid \<Rightarrow> policy"
  infinite_mem_links :: "nodeid \<Rightarrow> bool"
  infinite_net_links :: "nodeid \<Rightarrow> bool"
  conn_ends :: "connid \<Rightarrow> machid \<times> machid"

definition upd_pool :: "owner \<Rightarrow> (pool \<Rightarrow> pool) \<Rightarrow> 'z net_scheme \<Rightarrow> 'z net_scheme" where
  "upd_pool ow f n = n\<lparr>pools := (pools n)(ow := f (pools n ow))\<rparr>"

definition upd_thread :: "tid \<Rightarrow> (t_thread \<Rightarrow> t_thread) \<Rightarrow> 'z net_scheme \<Rightarrow> 'z net_scheme" where
  "upd_thread t f n = n\<lparr>threads := (threads n)(t := f (threads n t))\<rparr>"

definition upd_link :: "lid \<Rightarrow> (t_link \<Rightarrow> t_link) \<Rightarrow> 'z net_scheme \<Rightarrow> 'z net_scheme" where
  "upd_link l f n = n\<lparr>links := (links n)(l := f (links n l))\<rparr>"

definition get_node_of_thread :: "tid \<Rightarrow> 'z net_scheme \<Rightarrow> nodeid" where
  "get_node_of_thread t n = node_of_task n (task_of (threads n t))"

text \<open>The accounting macros; the account is the current one of the thread.\<close>

definition START_LINK_WAIT_TIME :: "tid \<Rightarrow> 'z net_scheme \<Rightarrow> 'z net_scheme" where
  "START_LINK_WAIT_TIME t n = upd_thread t (\<lambda>th. th\<lparr>initial_wait_link_time := current_time n\<rparr>) n"

definition ACCUMULATE_LINK_WAIT_TIME :: "tid \<Rightarrow> 'z net_scheme \<Rightarrow> 'z net_scheme" where
  "ACCUMULATE_LINK_WAIT_TIME t n =
     (let i = initial_wait_link_time (threads n t) in
      if i \<noteq> 0 then upd_thread t (\<lambda>th. th\<lparr>block_due_link := (current_time n - i) + block_due_link th,
                                         initial_wait_link_time := 0\<rparr>) n
      else n)"

text \<open>\<open>extract_from_queue\<close> panics when the element is not in the queue.\<close>

definition q_extract :: "'a \<Rightarrow> 'a list \<Rightarrow> 'a list res" where
  "q_extract x xs = (if x \<in> set xs then Inr (remove1 x xs)
     else Inl (Panic ''Can't find element to extract from queue''))"

section \<open>Waiting for a link\<close>

definition enqueue_waiter :: "bool \<Rightarrow> tid \<Rightarrow> owner \<Rightarrow> dir \<Rightarrow> 'z net_scheme \<Rightarrow> 'z net_scheme" where
  "enqueue_waiter first t ow d n = upd_pool ow (\<lambda>p.
     if d = OUT_LINK then p\<lparr>th_for_out := (if first then t # th_for_out p else th_for_out p @ [t])\<rparr>
     else p\<lparr>th_for_in := (if first then t # th_for_in p else th_for_in p @ [t])\<rparr>) n"

definition link_busy_with :: "policy \<Rightarrow> bool \<Rightarrow> tid \<Rightarrow> owner \<Rightarrow> dir \<Rightarrow> 'z net_scheme \<Rightarrow> 'z net_scheme res" where
  "link_busy_with pol first t ow d n =
     (if pol = COMMUNIC_other then Inl (Panic ''Communication policy not implemented'')
      else Inr (START_LINK_WAIT_TIME t (enqueue_waiter first t ow d n)))"

definition mem_link_busy :: "tid \<Rightarrow> taskid \<Rightarrow> dir \<Rightarrow> 'z net_scheme \<Rightarrow> 'z net_scheme res" where
  "mem_link_busy t tk d n =
     link_busy_with (comm_policy n (machine_of_node n (get_node_of_thread t n))) False t (TaskPool tk) d n"

definition link_busy_prioritat :: "tid \<Rightarrow> nodeid \<Rightarrow> dir \<Rightarrow> bool \<Rightarrow> 'z net_scheme \<Rightarrow> 'z net_scheme res" where
  "link_busy_prioritat t nd d prioritari n =
     link_busy_with (comm_policy n (machine_of_node n nd)) prioritari t (NodePool nd) d n"

definition link_busy :: "tid \<Rightarrow> nodeid \<Rightarrow> dir \<Rightarrow> 'z net_scheme \<Rightarrow> 'z net_scheme res" where
  "link_busy t nd d n = link_busy_prioritat t nd d False n"

definition link_busy_primer :: "tid \<Rightarrow> nodeid \<Rightarrow> dir \<Rightarrow> 'z net_scheme \<Rightarrow> 'z net_scheme res" where
  "link_busy_primer t nd d n = link_busy_prioritat t nd d True n"

definition machine_link_busy :: "tid \<Rightarrow> machid \<Rightarrow> dir \<Rightarrow> 'z net_scheme \<Rightarrow> 'z net_scheme res" where
  "machine_link_busy t m d n = link_busy_with (comm_policy n m) False t (MachinePool m) d n"

text \<open>Dedicated connections are always FIFO.\<close>

definition connection_link_busy :: "tid \<Rightarrow> connid \<Rightarrow> dir \<Rightarrow> 'z net_scheme \<Rightarrow> 'z net_scheme res" where
  "connection_link_busy t c d n = link_busy_with COMMUNIC_FIFO False t (ConnPool c) d n"

section \<open>Taking a link\<close>

text \<open>
  The two blocks every protocol is made of: take an output link of an owner, or an input link,
  unless the thread has one already; in a half duplex owner a link of the other direction goes
  with it. \<open>mark\<close> says whether the fields \<open>thread\<close> of the links are set, which only the
  network protocol does. The answer is false when there is no free link. \<open>take_in\<close> runs
  \<open>hook\<close> between finding the link and recording it.
\<close>

definition set_owner :: "bool \<Rightarrow> lid \<Rightarrow> tid option \<Rightarrow> 'z net_scheme \<Rightarrow> 'z net_scheme" where
  "set_owner mark l ot n = (if mark then upd_link l (\<lambda>k. k\<lparr>link_thread := ot\<rparr>) n else n)"

definition take_hd_in :: "bool \<Rightarrow> owner \<Rightarrow> tid \<Rightarrow> 'z net_scheme \<Rightarrow> 'z net_scheme res" where
  "take_hd_in mark ow t n =
     (if half_duplex_links (pools n ow) then
        (case free_in_links (pools n ow) of
           [] \<Rightarrow> Inl (Panic ''Unable to obtain the Half Duplex link for input'')
         | h # hs \<Rightarrow> Inr (set_owner mark h None
             (upd_pool ow (\<lambda>p. p\<lparr>free_in_links := hs, busy_in_links := busy_in_links p @ [h]\<rparr>)
             (upd_thread t (\<lambda>th. th\<lparr>local_hd_link := Some h\<rparr>) n))))
      else Inr n)"

definition take_hd_out :: "bool \<Rightarrow> owner \<Rightarrow> tid \<Rightarrow> 'z net_scheme \<Rightarrow> 'z net_scheme res" where
  "take_hd_out mark ow t n =
     (if half_duplex_links (pools n ow) then
        (case free_out_links (pools n ow) of
           [] \<Rightarrow> Inl (Panic ''Unable to obtain the Half Duplex link for output'')
         | h # hs \<Rightarrow> Inr (set_owner mark h None
             (upd_pool ow (\<lambda>p. p\<lparr>free_out_links := hs, busy_out_links := busy_out_links p @ [h]\<rparr>)
             (upd_thread t (\<lambda>th. th\<lparr>partner_hd_link := Some h\<rparr>) n))))
      else Inr n)"

definition take_out :: "bool \<Rightarrow> owner \<Rightarrow> tid \<Rightarrow> 'z net_scheme \<Rightarrow> (bool \<times> 'z net_scheme) res" where
  "take_out mark ow t n =
     (case local_link (threads n t) of
        Some _ \<Rightarrow> Inr (True, n)
      | None \<Rightarrow>
          (case free_out_links (pools n ow) of
             [] \<Rightarrow> Inr (False, n)
           | l # ls \<Rightarrow>
               bindE (take_hd_in mark ow t (set_owner mark l (Some t)
                        (upd_pool ow (\<lambda>p. p\<lparr>free_out_links := ls\<rparr>) n))) (\<lambda>n1.
               Inr (True, upd_thread t (\<lambda>th. th\<lparr>local_link := Some l\<rparr>)
                 (upd_pool ow (\<lambda>p. p\<lparr>busy_out_links := busy_out_links p @ [l]\<rparr>)
                 (upd_link l (\<lambda>k. k\<lparr>assigned_on := current_time n\<rparr>) n1))))))"

definition take_in :: "('z net_scheme \<Rightarrow> 'z net_scheme res) \<Rightarrow> bool \<Rightarrow> owner \<Rightarrow> tid \<Rightarrow> 'z net_scheme
    \<Rightarrow> (bool \<times> 'z net_scheme) res" where
  "take_in hook mark ow t n =
     (case partner_link (threads n t) of
        Some _ \<Rightarrow> bindE (hook n) (\<lambda>n1. Inr (True, n1))
      | None \<Rightarrow>
          (case free_in_links (pools n ow) of
             [] \<Rightarrow> Inr (False, n)
           | l # ls \<Rightarrow>
               bindE (hook (upd_pool ow (\<lambda>p. p\<lparr>free_in_links := ls\<rparr>) n)) (\<lambda>n1.
               bindE (take_hd_out mark ow t (set_owner mark l None n1)) (\<lambda>n2.
               Inr (True, upd_thread t (\<lambda>th. th\<lparr>partner_link := Some l\<rparr>)
                 (upd_pool ow (\<lambda>p. p\<lparr>busy_in_links := busy_in_links p @ [l]\<rparr>)
                 (upd_link l (\<lambda>k. k\<lparr>assigned_on := current_time n\<rparr>) n2)))))))"

definition or_wait :: "('z net_scheme \<Rightarrow> 'z net_scheme res) \<Rightarrow> (bool \<times> 'z net_scheme) res
    \<Rightarrow> (bool \<times> 'z net_scheme) res" where
  "or_wait busy r = bindE r (\<lambda>(ok, n). if ok then Inr (True, n) else bindE (busy n) (\<lambda>n1. Inr (False, n1)))"

definition and_then :: "(bool \<times> 'z net_scheme) res \<Rightarrow> ('z net_scheme \<Rightarrow> (bool \<times> 'z net_scheme) res)
    \<Rightarrow> (bool \<times> 'z net_scheme) res" where
  "and_then r f = bindE r (\<lambda>(ok, n). if ok then f n else Inr (False, n))"

section \<open>Memory links\<close>

text \<open>
  The function jumps between the labels \<open>second_src_link\<close> and \<open>first_dest\<close>: the task with the
  smaller number is served first when one of the two is half duplex.
\<close>

datatype mem_label = Second_src_link | First_dest

definition mem_swapped :: "taskid \<Rightarrow> taskid \<Rightarrow> 'z net_scheme \<Rightarrow> bool" where
  "mem_swapped ts tr n \<longleftrightarrow>
     (half_duplex_links (pools n (TaskPool ts)) \<or> half_duplex_links (pools n (TaskPool tr))) \<and> ts > tr"

partial_function (option) mem_labels ::
  "mem_label \<Rightarrow> tid \<Rightarrow> taskid \<Rightarrow> taskid \<Rightarrow> 'z net_scheme \<Rightarrow> (bool \<times> 'z net_scheme) run" where
  "mem_labels lab t ts tr n =
     (case lab of
        Second_src_link \<Rightarrow>
          if \<not> infinite_mem_links n (node_of_task n ts) then
            (case or_wait (mem_link_busy t ts OUT_LINK) (take_out False (TaskPool ts) t n) of
               Inl e \<Rightarrow> failR e
             | Inr (ok, n1) \<Rightarrow>
                 if \<not> ok then retR (False, n1)
                 else if mem_swapped ts tr n1 then retR (True, n1)
                 else mem_labels First_dest t ts tr n1)
          else mem_labels First_dest t ts tr n
      | First_dest \<Rightarrow>
          if \<not> infinite_mem_links n (node_of_task n tr) then
            (case or_wait (mem_link_busy t tr IN_LINK) (take_in Inr False (TaskPool tr) t n) of
               Inl e \<Rightarrow> failR e
             | Inr (ok, n1) \<Rightarrow>
                 if \<not> ok then retR (False, n1)
                 else if mem_swapped ts tr n1 then mem_labels Second_src_link t ts tr n1
                 else retR (True, n1))
          else retR (True, n))"

definition LINKS_get_mem_links :: "tid \<Rightarrow> taskid \<Rightarrow> taskid \<Rightarrow> 'z net_scheme \<Rightarrow> (bool \<times> 'z net_scheme) run" where
  "LINKS_get_mem_links t ts tr n =
     (if ts = tr then retR (True, n)
      else mem_labels (if mem_swapped ts tr n then First_dest else Second_src_link) t ts tr n)"

section \<open>Machine and connection links\<close>

definition wan_swapped :: "machid \<Rightarrow> machid \<Rightarrow> 'z net_scheme \<Rightarrow> bool" where
  "wan_swapped s d n \<longleftrightarrow>
     (half_duplex_links (pools n (MachinePool s)) \<or> half_duplex_links (pools n (MachinePool d))) \<and> s > d"

definition LINKS_get_wan_links :: "tid \<Rightarrow> machid \<Rightarrow> machid \<Rightarrow> 'z net_scheme \<Rightarrow> (bool \<times> 'z net_scheme) res" where
  "LINKS_get_wan_links t s d n =
     (let src = (\<lambda>n. or_wait (machine_link_busy t s OUT_LINK) (take_out False (MachinePool s) t n));
          dst = (\<lambda>n. or_wait (machine_link_busy t d IN_LINK) (take_in Inr False (MachinePool d) t n))
      in if wan_swapped s d n then and_then (dst n) src else and_then (src n) dst)"

definition LINKS_get_single_wan_link :: "tid \<Rightarrow> machid \<Rightarrow> dir \<Rightarrow> 'z net_scheme \<Rightarrow> (bool \<times> 'z net_scheme) res" where
  "LINKS_get_single_wan_link t m d n =
     (case d of
        OUT_LINK \<Rightarrow> or_wait (machine_link_busy t m OUT_LINK) (take_out False (MachinePool m) t n)
      | IN_LINK \<Rightarrow> or_wait (machine_link_busy t m IN_LINK) (take_in Inr False (MachinePool m) t n))"

definition LINKS_get_dedicated_connection_links ::
  "tid \<Rightarrow> connid \<Rightarrow> 'z net_scheme \<Rightarrow> (bool \<times> 'z net_scheme) res" where
  "LINKS_get_dedicated_connection_links t c n =
     (let src = (\<lambda>n. or_wait (connection_link_busy t c OUT_LINK) (take_out False (ConnPool c) t n));
          dst = (\<lambda>n. or_wait (connection_link_busy t c IN_LINK) (take_in Inr False (ConnPool c) t n))
      in if half_duplex_links (pools n (ConnPool c)) \<and> fst (conn_ends n c) > snd (conn_ends n c)
         then and_then (dst n) src else and_then (src n) dst)"

definition LINKS_get_acc_links :: "tid \<Rightarrow> taskid \<Rightarrow> taskid \<Rightarrow> 'z net_scheme \<Rightarrow> bool" where
  "LINKS_get_acc_links t ts tr n \<longleftrightarrow> ts = tr"

section \<open>Network links\<close>

text \<open>
  \<open>roba_out_link\<close> looks for a busy output link of the node whose owner has no link at the other
  end yet, and gives it to the thread: as its output link, or, in a half duplex node, with the
  input link that goes with it. The owner is moved to the head of the queue for output links.
\<close>

definition robbable :: "nodeid \<Rightarrow> 'z net_scheme \<Rightarrow> lid \<Rightarrow> bool" where
  "robbable nd n l \<longleftrightarrow> (case link_thread (links n l) of
      None \<Rightarrow> False
    | Some c \<Rightarrow> local_link (threads n c) = Some l \<and> partner_link (threads n c) = None)"

definition roba_out_link :: "tid \<Rightarrow> nodeid \<Rightarrow> dir \<Rightarrow> bool \<Rightarrow> 'z net_scheme \<Rightarrow> (bool \<times> 'z net_scheme) res" where
  "roba_out_link t nd d test_only n =
     (if d = IN_LINK \<and> \<not> half_duplex_links (pools n (NodePool nd)) then Inr (False, n)
      else case List.find (robbable nd n) (busy_out_links (pools n (NodePool nd))) of
        None \<Rightarrow> Inr (False, n)
      | Some l \<Rightarrow>
          let c = the (link_thread (links n l)) in
          (case partner_node (threads n c) of
             None \<Rightarrow> Inl NullDeref
           | Some pn \<Rightarrow>
               if c \<notin> set (th_for_in (pools n (NodePool pn))) then Inl AssertFailed
               else if test_only then Inr (True, n)
               else
                 let n1 = upd_pool (NodePool pn) (\<lambda>p. p\<lparr>th_for_in := remove1 c (th_for_in p)\<rparr>) n;
                     hd = local_hd_link (threads n c);
                     n2 = (if d = OUT_LINK
                           then upd_thread t (\<lambda>th. th\<lparr>local_link := Some l, local_hd_link := hd\<rparr>)
                                  (upd_link l (\<lambda>k. k\<lparr>link_thread := Some t\<rparr>) n1)
                           else upd_thread t (\<lambda>th. th\<lparr>partner_hd_link := Some l, partner_link := hd\<rparr>)
                                  (upd_link l (\<lambda>k. k\<lparr>link_thread := None\<rparr>) n1));
                     n3 = upd_thread c (\<lambda>th. th\<lparr>local_link := None, local_hd_link := None\<rparr>) n2
                 in bindE (link_busy_primer c nd OUT_LINK n3) (\<lambda>n4. Inr (True, n4))))"

text \<open>A theft that has to succeed.\<close>

definition roba_sure :: "tid \<Rightarrow> nodeid \<Rightarrow> dir \<Rightarrow> 'z net_scheme \<Rightarrow> 'z net_scheme res" where
  "roba_sure t nd d n =
     bindE (roba_out_link t nd d False n) (\<lambda>(ok, n1). if ok then Inr n1 else Inl AssertFailed)"

definition reserved :: "tid \<Rightarrow> 'z net_scheme \<Rightarrow> (bool \<times> 'z net_scheme) res" where
  "reserved t n = Inr (True, upd_thread t (\<lambda>th. th\<lparr>partner_node := None\<rparr>) n)"

definition blocked :: "'z net_scheme res \<Rightarrow> (bool \<times> 'z net_scheme) res" where
  "blocked r = bindE r (\<lambda>n. Inr (False, n))"

definition get_network_in ::
  "tid \<Rightarrow> nodeid \<Rightarrow> nodeid \<Rightarrow> bool \<Rightarrow> 'z net_scheme \<Rightarrow> (bool \<times> 'z net_scheme) res" where
  "get_network_in t nd np out_robable n =
     (if infinite_net_links n np then reserved t n
      else bindE (take_in (if out_robable then roba_sure t nd OUT_LINK else Inr) True (NodePool np) t n) (\<lambda>(ok, n1).
        if ok then reserved t n1
        else bindE (roba_out_link t np IN_LINK True n1) (\<lambda>(in_robable, n2).
          if \<not> in_robable
          then (if \<not> out_robable then blocked (link_busy t np IN_LINK n2)
                else blocked (link_busy t nd OUT_LINK n2))
          else bindE (if out_robable then roba_sure t nd OUT_LINK n2 else Inr n2) (\<lambda>n3.
               bindE (roba_sure t np IN_LINK n3) (reserved t)))))"

definition LINKS_get_network_links ::
  "tid \<Rightarrow> nodeid \<Rightarrow> nodeid \<Rightarrow> 'z net_scheme \<Rightarrow> (bool \<times> 'z net_scheme) res" where
  "LINKS_get_network_links t nd np n =
     (if nd = np then Inr (True, n)
      else let n0 = upd_thread t (\<lambda>th. th\<lparr>partner_node := Some np\<rparr>) n in
        if infinite_net_links n nd then get_network_in t nd np False n0
        else bindE (take_out True (NodePool nd) t n0) (\<lambda>(ok, n1).
          if ok then get_network_in t nd np False n1
          else bindE (roba_out_link t nd OUT_LINK True n1) (\<lambda>(robable, n2).
            if \<not> robable then blocked (link_busy t nd OUT_LINK n2)
            else get_network_in t nd np True n2)))"

section \<open>Ports and copies\<close>

definition slot_take :: "(pool \<Rightarrow> lid list) \<Rightarrow> (lid list \<Rightarrow> pool \<Rightarrow> pool) \<Rightarrow> nodeid
    \<Rightarrow> 'z net_scheme \<Rightarrow> slot \<times> 'z net_scheme" where
  "slot_take get put nd n = (case get (pools n (NodePool nd)) of
      [] \<Rightarrow> (L_NIL, n)
    | l # ls \<Rightarrow> (Lk l, upd_pool (NodePool nd) (put ls) n))"

definition LINKS_get_port_links :: "tid \<Rightarrow> nodeid \<Rightarrow> tid \<Rightarrow> nodeid \<Rightarrow> 'z net_scheme \<Rightarrow> bool \<times> 'z net_scheme" where
  "LINKS_get_port_links ts ns tr nr n =
     (if ns = nr then
        (True, upd_thread tr (\<lambda>th. th\<lparr>port_recv_link := L_NUL\<rparr>)
                 (upd_thread ts (\<lambda>th. th\<lparr>port_send_link := L_NUL\<rparr>) n))
      else
        let (s, n1) = (if port_send_link (threads n ts) = L_NIL
                       then slot_take free_out_links (\<lambda>ls p. p\<lparr>free_out_links := ls\<rparr>) ns n
                       else (port_send_link (threads n ts), n));
            n2 = upd_thread ts (\<lambda>th. th\<lparr>port_send_link := s\<rparr>) n1
        in if s = L_NIL then (False, n2)
           else
             let (r, n3) = (if port_recv_link (threads n2 tr) = L_NIL
                            then slot_take free_in_links (\<lambda>ls p. p\<lparr>free_in_links := ls\<rparr>) nr n2
                            else (port_recv_link (threads n2 tr), n2));
                 n4 = upd_thread tr (\<lambda>th. th\<lparr>port_recv_link := r\<rparr>) n3
             in (r \<noteq> L_NIL, n4))"

definition LINKS_get_memory_copy_links :: "tid \<Rightarrow> nodeid \<Rightarrow> nodeid \<Rightarrow> 'z net_scheme \<Rightarrow> bool \<times> 'z net_scheme" where
  "LINKS_get_memory_copy_links t ns nd n =
     (if ns = nd then
        (True, upd_thread t (\<lambda>th. th\<lparr>copy_segment_link_source := L_NUL, copy_segment_link_dest := L_NUL\<rparr>) n)
      else
        let (s, n1) = (if copy_segment_link_source (threads n t) = L_NIL
                       then slot_take free_out_links (\<lambda>ls p. p\<lparr>free_out_links := ls\<rparr>) ns n
                       else (copy_segment_link_source (threads n t), n));
            n2 = upd_thread t (\<lambda>th. th\<lparr>copy_segment_link_source := s\<rparr>) n1
        in if s = L_NIL then (False, n2)
           else
             let (r, n3) = (if copy_segment_link_dest (threads n2 t) = L_NIL
                            then slot_take free_in_links (\<lambda>ls p. p\<lparr>free_in_links := ls\<rparr>) nd n2
                            else (copy_segment_link_dest (threads n2 t), n2));
                 n4 = upd_thread t (\<lambda>th. th\<lparr>copy_segment_link_dest := r\<rparr>) n3
             in (r \<noteq> L_NIL, n4))"

section \<open>Releasing a link\<close>

record 'n handlers =
  really_send :: "tid \<Rightarrow> 'n \<Rightarrow> 'n run"
  really_RMA :: "tid \<Rightarrow> 'n \<Rightarrow> 'n run"
  global_op_reserva_links :: "tid \<Rightarrow> 'n \<Rightarrow> 'n run"
  really_port_send :: "nat \<times> tid \<times> tid \<Rightarrow> 'n \<Rightarrow> 'n run"
  really_copy_segment :: "tid \<times> nodeid \<times> nodeid \<Rightarrow> 'n \<Rightarrow> 'n run"

text \<open>Continue a thread that waited for a link; only machine links continue collective operations.\<close>

definition wake_up :: "bool \<Rightarrow> 'z net_scheme handlers \<Rightarrow> tid \<Rightarrow> 'z net_scheme \<Rightarrow> 'z net_scheme run" where
  "wake_up glop hs f n =
     (let n1 = ACCUMULATE_LINK_WAIT_TIME f n;
          n2 = (if original_thread (threads n1 f)
                then upd_thread f (\<lambda>th. th\<lparr>last_paraver := current_time n1\<rparr>) n1 else n1)
      in case act (threads n2 f) of
           A_SEND \<Rightarrow> really_send hs f n2
         | A_MPI_OS \<Rightarrow> really_RMA hs f n2
         | A_GLOBAL_OP \<Rightarrow> if glop then global_op_reserva_links hs f n2 else retR n2
         | _ \<Rightarrow> retR n2)"

definition wake_in :: "bool \<Rightarrow> 'z net_scheme handlers \<Rightarrow> owner \<Rightarrow> 'z net_scheme
    \<Rightarrow> ('z net_scheme \<Rightarrow> 'z net_scheme run) \<Rightarrow> 'z net_scheme run" where
  "wake_in glop hs ow n otherwise = (case th_for_in (pools n ow) of
      [] \<Rightarrow> otherwise n
    | f # fs \<Rightarrow> wake_up glop hs f (upd_pool ow (\<lambda>p. p\<lparr>th_for_in := fs\<rparr>) n))"

definition wake_out :: "bool \<Rightarrow> 'z net_scheme handlers \<Rightarrow> owner \<Rightarrow> 'z net_scheme
    \<Rightarrow> ('z net_scheme \<Rightarrow> 'z net_scheme run) \<Rightarrow> 'z net_scheme run" where
  "wake_out glop hs ow n otherwise = (case th_for_out (pools n ow) of
      [] \<Rightarrow> otherwise n
    | f # fs \<Rightarrow> wake_up glop hs f (upd_pool ow (\<lambda>p. p\<lparr>th_for_out := fs\<rparr>) n))"

definition liftR :: "'a res \<Rightarrow> 'a run" where
  "liftR r = Some r"

text \<open>Put a link back: to the tail of the free queue first, then out of the busy queue.\<close>

definition put_back_in :: "owner \<Rightarrow> lid option \<Rightarrow> 'z net_scheme \<Rightarrow> 'z net_scheme res" where
  "put_back_in ow ol n = (case ol of
      None \<Rightarrow> Inl (Panic ''Can't find element to extract from queue'')
    | Some l \<Rightarrow> bindE (q_extract l (busy_in_links (pools n ow))) (\<lambda>bs.
        Inr (upd_pool ow (\<lambda>p. p\<lparr>free_in_links := free_in_links p @ [l], busy_in_links := bs\<rparr>) n)))"

definition put_back_out :: "owner \<Rightarrow> lid option \<Rightarrow> 'z net_scheme \<Rightarrow> 'z net_scheme res" where
  "put_back_out ow ol n = (case ol of
      None \<Rightarrow> Inl (Panic ''Can't find element to extract from queue'')
    | Some l \<Rightarrow> bindE (q_extract l (busy_out_links (pools n ow))) (\<lambda>bs.
        Inr (upd_pool ow (\<lambda>p. p\<lparr>free_out_links := free_out_links p @ [l], busy_out_links := bs\<rparr>) n)))"

text \<open>
  The common shape of the five releasing functions. \<open>rest_in\<close> and \<open>rest_out\<close> are what is tried
  when no thread waits for the direction: nothing, or the ports and copies of a node.
\<close>

definition free_link :: "bool \<Rightarrow> 'z net_scheme handlers \<Rightarrow> (owner \<Rightarrow> 'z net_scheme \<Rightarrow> 'z net_scheme run)
    \<Rightarrow> (owner \<Rightarrow> 'z net_scheme \<Rightarrow> 'z net_scheme run) \<Rightarrow> lid \<Rightarrow> tid \<Rightarrow> 'z net_scheme \<Rightarrow> 'z net_scheme run" where
  "free_link glop hs rest_in rest_out l t n =
     (let ow = link_info (links n l) in
      case link_type (links n l) of
        IN_LINK \<Rightarrow>
          bindR (liftR (put_back_in ow (Some l) n)) (\<lambda>n1.
          bindR (if half_duplex_links (pools n1 ow)
                 then bindR (liftR (put_back_out ow (partner_hd_link (threads n1 t)) n1)) (\<lambda>n2.
                      wake_out glop hs ow n2 retR)
                 else retR n1) (\<lambda>n3.
          wake_in glop hs ow n3 (rest_in ow)))
      | OUT_LINK \<Rightarrow>
          bindR (liftR (put_back_out ow (Some l) n)) (\<lambda>n1.
          bindR (if half_duplex_links (pools n1 ow)
                 then bindR (liftR (put_back_in ow (local_hd_link (threads n1 t)) n1)) (\<lambda>n2.
                      wake_in glop hs ow n2 retR)
                 else retR n1) (\<lambda>n3.
          wake_out glop hs ow n3 (rest_out ow))))"

definition LINKS_free_mem_link :: "'z net_scheme handlers \<Rightarrow> lid \<Rightarrow> tid \<Rightarrow> 'z net_scheme \<Rightarrow> 'z net_scheme run" where
  "LINKS_free_mem_link hs = free_link False hs (\<lambda>_. retR) (\<lambda>_. retR)"

definition LINKS_free_wan_link :: "'z net_scheme handlers \<Rightarrow> lid \<Rightarrow> tid \<Rightarrow> 'z net_scheme \<Rightarrow> 'z net_scheme run" where
  "LINKS_free_wan_link hs = free_link True hs (\<lambda>_. retR) (\<lambda>_. retR)"

definition LINKS_free_dedicated_connection_link ::
  "'z net_scheme handlers \<Rightarrow> lid \<Rightarrow> tid \<Rightarrow> 'z net_scheme \<Rightarrow> 'z net_scheme run" where
  "LINKS_free_dedicated_connection_link hs = free_link False hs (\<lambda>_. retR) (\<lambda>_. retR)"

definition LINKS_free_acc_link :: "'z net_scheme handlers \<Rightarrow> lid \<Rightarrow> tid \<Rightarrow> 'z net_scheme \<Rightarrow> 'z net_scheme run" where
  "LINKS_free_acc_link hs = free_link False hs (\<lambda>_. retR) (\<lambda>_. retR)"

definition wake_port_or_copy :: "'z net_scheme handlers \<Rightarrow> dir \<Rightarrow> owner \<Rightarrow> 'z net_scheme \<Rightarrow> 'z net_scheme run" where
  "wake_port_or_copy hs d ow n =
     (case (if d = IN_LINK then wait_inlink_port (pools n ow) else wait_outlink_port (pools n ow)) of
        b # bs \<Rightarrow> really_port_send hs b (upd_pool ow (\<lambda>p.
            if d = IN_LINK then p\<lparr>wait_inlink_port := bs\<rparr> else p\<lparr>wait_outlink_port := bs\<rparr>) n)
      | [] \<Rightarrow>
          (case (if d = IN_LINK then wait_in_copy_segment (pools n ow) else wait_out_copy_segment (pools n ow)) of
             c # cs \<Rightarrow> really_copy_segment hs c (upd_pool ow (\<lambda>p.
                 if d = IN_LINK then p\<lparr>wait_in_copy_segment := cs\<rparr> else p\<lparr>wait_out_copy_segment := cs\<rparr>) n)
           | [] \<Rightarrow> retR n))"

definition LINKS_free_network_link :: "'z net_scheme handlers \<Rightarrow> lid \<Rightarrow> tid \<Rightarrow> 'z net_scheme \<Rightarrow> 'z net_scheme run" where
  "LINKS_free_network_link hs =
     free_link False hs (wake_port_or_copy hs IN_LINK) (wake_port_or_copy hs OUT_LINK)"

section \<open>What the updates leave alone\<close>

lemma upd_pool_simps [simp]:
  "pools (upd_pool ow f n) = (pools n)(ow := f (pools n ow))"
  "links (upd_pool ow f n) = links n" "threads (upd_pool ow f n) = threads n"
  "current_time (upd_pool ow f n) = current_time n"
  "node_of_task (upd_pool ow f n) = node_of_task n"
  "machine_of_node (upd_pool ow f n) = machine_of_node n" "comm_policy (upd_pool ow f n) = comm_policy n"
  "infinite_mem_links (upd_pool ow f n) = infinite_mem_links n"
  "infinite_net_links (upd_pool ow f n) = infinite_net_links n" "conn_ends (upd_pool ow f n) = conn_ends n"
  by (simp_all add: upd_pool_def)

lemma upd_thread_simps [simp]:
  "pools (upd_thread t g n) = pools n" "links (upd_thread t g n) = links n"
  "threads (upd_thread t g n) = (threads n)(t := g (threads n t))"
  "current_time (upd_thread t g n) = current_time n"
  "node_of_task (upd_thread t g n) = node_of_task n"
  "machine_of_node (upd_thread t g n) = machine_of_node n" "comm_policy (upd_thread t g n) = comm_policy n"
  "infinite_mem_links (upd_thread t g n) = infinite_mem_links n"
  "infinite_net_links (upd_thread t g n) = infinite_net_links n" "conn_ends (upd_thread t g n) = conn_ends n"
  by (simp_all add: upd_thread_def)

lemma upd_link_simps [simp]:
  "pools (upd_link l h n) = pools n" "links (upd_link l h n) = (links n)(l := h (links n l))"
  "threads (upd_link l h n) = threads n" "current_time (upd_link l h n) = current_time n"
  "node_of_task (upd_link l h n) = node_of_task n"
  "machine_of_node (upd_link l h n) = machine_of_node n" "comm_policy (upd_link l h n) = comm_policy n"
  "infinite_mem_links (upd_link l h n) = infinite_mem_links n"
  "infinite_net_links (upd_link l h n) = infinite_net_links n" "conn_ends (upd_link l h n) = conn_ends n"
  by (simp_all add: upd_link_def)

lemma set_owner_simps [simp]:
  "pools (set_owner mark l ot n) = pools n" "threads (set_owner mark l ot n) = threads n"
  "current_time (set_owner mark l ot n) = current_time n" "node_of_task (set_owner mark l ot n) = node_of_task n"
  "machine_of_node (set_owner mark l ot n) = machine_of_node n" "comm_policy (set_owner mark l ot n) = comm_policy n"
  "infinite_mem_links (set_owner mark l ot n) = infinite_mem_links n"
  "infinite_net_links (set_owner mark l ot n) = infinite_net_links n" "conn_ends (set_owner mark l ot n) = conn_ends n"
  "links (set_owner mark l ot n) = (if mark then (links n)(l := links n l \<lparr>link_thread := ot\<rparr>) else links n)"
  by (simp_all add: set_owner_def)

section \<open>Conservation of links\<close>

text \<open>
  No operation creates or loses a link: the free and busy links of an owner, taken together, stay
  the same in both directions. In a half duplex owner equally many input and output links are
  free, which is why the link of the other direction is always there.
\<close>

definition pool_links :: "pool \<Rightarrow> lid multiset \<times> lid multiset" where
  "pool_links p = (mset (free_in_links p) + mset (busy_in_links p),
                   mset (free_out_links p) + mset (busy_out_links p))"

definition balanced :: "pool \<Rightarrow> bool" where
  "balanced p \<longleftrightarrow> (half_duplex_links p \<longrightarrow> length (free_in_links p) = length (free_out_links p))"

definition wait_lists :: "pool \<Rightarrow> (nat \<times> tid \<times> tid) list \<times> (nat \<times> tid \<times> tid) list \<times>
    (tid \<times> nodeid \<times> nodeid) list \<times> (tid \<times> nodeid \<times> nodeid) list" where
  "wait_lists p = (wait_inlink_port p, wait_outlink_port p, wait_in_copy_segment p, wait_out_copy_segment p)"

lemma wait_lists_simps [simp]:
  "wait_lists (p\<lparr>free_in_links := a\<rparr>) = wait_lists p" "wait_lists (p\<lparr>free_out_links := a\<rparr>) = wait_lists p"
  "wait_lists (p\<lparr>busy_in_links := a\<rparr>) = wait_lists p" "wait_lists (p\<lparr>busy_out_links := a\<rparr>) = wait_lists p"
  "wait_lists (p\<lparr>th_for_in := b\<rparr>) = wait_lists p" "wait_lists (p\<lparr>th_for_out := b\<rparr>) = wait_lists p"
  by (simp_all add: wait_lists_def)

definition engine_of :: "'z engine_scheme \<Rightarrow> engine" where
  "engine_of s = engine.truncate s"

lemma engine_of_simps [simp]:
  "engine_of (n\<lparr>pools := a\<rparr>) = engine_of n" "engine_of (n\<lparr>threads := b\<rparr>) = engine_of n"
  "engine_of (n\<lparr>links := c\<rparr>) = engine_of n"
  by (simp_all add: engine_of_def engine.truncate_def)

lemma more_simps [simp]:
  "engine_of (upd_pool ow f n) = engine_of n" "net.more (upd_pool ow f n) = net.more n"
  "engine_of (upd_thread t g n) = engine_of n" "net.more (upd_thread t g n) = net.more n"
  "engine_of (upd_link l h n) = engine_of n" "net.more (upd_link l h n) = net.more n"
  "engine_of (set_owner mark l ot n) = engine_of n" "net.more (set_owner mark l ot n) = net.more n"
  by (simp_all add: upd_pool_def upd_thread_def upd_link_def set_owner_def)

definition same_config :: "'z net_scheme \<Rightarrow> 'z net_scheme \<Rightarrow> bool" where
  "same_config n n' \<longleftrightarrow> node_of_task n' = node_of_task n \<and> machine_of_node n' = machine_of_node n \<and>
     comm_policy n' = comm_policy n \<and> infinite_mem_links n' = infinite_mem_links n \<and>
     infinite_net_links n' = infinite_net_links n \<and> conn_ends n' = conn_ends n \<and>
     (\<forall>l. link_info (links n' l) = link_info (links n l) \<and> link_type (links n' l) = link_type (links n l)) \<and>
     (\<forall>ow. half_duplex_links (pools n' ow) = half_duplex_links (pools n ow)) \<and>
     (\<forall>ow. wait_lists (pools n' ow) = wait_lists (pools n ow)) \<and>
     (\<forall>t. task_of (threads n' t) = task_of (threads n t) \<and> act (threads n' t) = act (threads n t)) \<and>
     engine_of n' = engine_of n \<and> net.more n' = net.more n"

definition net_ok :: "'z net_scheme \<Rightarrow> bool" where
  "net_ok n \<longleftrightarrow> (\<forall>ow. balanced (pools n ow)) \<and> (\<forall>m. comm_policy n m \<noteq> COMMUNIC_other)"

definition keeps :: "'z net_scheme \<Rightarrow> 'z net_scheme \<Rightarrow> bool" where
  "keeps n n' \<longleftrightarrow> same_config n n' \<and> (\<forall>ow. pool_links (pools n' ow) = pool_links (pools n ow)) \<and>
     (net_ok n \<longrightarrow> net_ok n')"

lemma keeps_refl [simp]: "keeps n n"
  by (simp add: keeps_def same_config_def)

lemma keeps_trans: "keeps a b \<Longrightarrow> keeps b c \<Longrightarrow> keeps a c"
  by (auto simp: keeps_def same_config_def)

lemma keepsI:
  assumes "same_config n n'" "\<And>ow. pool_links (pools n' ow) = pool_links (pools n ow)"
    "\<And>ow. balanced (pools n ow) \<Longrightarrow> balanced (pools n' ow)"
  shows "keeps n n'"
  using assms by (auto simp: keeps_def net_ok_def same_config_def)

lemma enqueue_waiter_keeps: "keeps n (enqueue_waiter first t ow d n)"
  by (rule keepsI) (auto simp: enqueue_waiter_def same_config_def pool_links_def balanced_def)

lemma upd_thread_keeps:
  assumes "task_of (g (threads n t)) = task_of (threads n t)" "act (g (threads n t)) = act (threads n t)"
  shows "keeps n (upd_thread t g n)"
  using assms by (intro keepsI) (auto simp: same_config_def)

lemma upd_partner_node_keeps [simp]: "keeps n (upd_thread t (\<lambda>th. th\<lparr>partner_node := x\<rparr>) n)"
  by (rule upd_thread_keeps) simp_all

lemma START_keeps [simp]: "keeps n (START_LINK_WAIT_TIME t n)"
  unfolding START_LINK_WAIT_TIME_def by (rule upd_thread_keeps) simp_all

lemma busy_effect:
  assumes "net_ok n" "pol = COMMUNIC_FIFO \<or> pol = comm_policy n m"
  shows "\<exists>n'. link_busy_with pol first t ow d n = Inr n' \<and> keeps n n' \<and>
    n' = START_LINK_WAIT_TIME t (enqueue_waiter first t ow d n)"
proof -
  have "pol \<noteq> COMMUNIC_other" using assms by (metis net_ok_def policy.distinct(5))
  then show ?thesis
    using keeps_trans[OF enqueue_waiter_keeps START_keeps] by (simp add: link_busy_with_def)
qed

definition queues :: "'z net_scheme \<Rightarrow> owner \<Rightarrow> tid list \<times> tid list" where
  "queues n ow = (th_for_in (pools n ow), th_for_out (pools n ow))"

lemma take_out_effect:
  assumes "net_ok n"
  shows "\<exists>ok n'. take_out mark ow t n = Inr (ok, n') \<and> keeps n n' \<and>
    (ok \<longleftrightarrow> local_link (threads n t) \<noteq> None \<or> free_out_links (pools n ow) \<noteq> []) \<and>
    (ok \<longrightarrow> local_link (threads n' t) \<noteq> None) \<and> (\<not> ok \<longrightarrow> n' = n) \<and>
    partner_link (threads n' t) = partner_link (threads n t) \<and> queues n' = queues n"
proof (cases "local_link (threads n t)")
  case (Some l)
  then show ?thesis by (auto simp: take_out_def)
next
  case None
  show ?thesis
  proof (cases "free_out_links (pools n ow)")
    case Nil
    with None show ?thesis by (auto simp: take_out_def)
  next
    case (Cons l ls)
    have b: "balanced (pools n ow)" using assms by (simp add: net_ok_def)
    show ?thesis
    proof (cases "half_duplex_links (pools n ow)")
      case False
      with None Cons show ?thesis
        by (auto simp: take_out_def take_hd_in_def keeps_def same_config_def pool_links_def net_ok_def balanced_def queues_def fun_eq_iff)
    next
      case True
      with b Cons obtain h hs where "free_in_links (pools n ow) = h # hs"
        by (cases "free_in_links (pools n ow)") (auto simp: balanced_def)
      with None Cons True b show ?thesis
        by (auto simp: take_out_def take_hd_in_def keeps_def same_config_def pool_links_def net_ok_def balanced_def queues_def fun_eq_iff)
    qed
  qed
qed

lemma take_in_effect:
  assumes "net_ok n"
  shows "\<exists>ok n'. take_in Inr mark ow t n = Inr (ok, n') \<and> keeps n n' \<and>
    (ok \<longleftrightarrow> partner_link (threads n t) \<noteq> None \<or> free_in_links (pools n ow) \<noteq> []) \<and>
    (ok \<longrightarrow> partner_link (threads n' t) \<noteq> None) \<and> (\<not> ok \<longrightarrow> n' = n) \<and>
    local_link (threads n' t) = local_link (threads n t) \<and> queues n' = queues n"
proof (cases "partner_link (threads n t)")
  case (Some l)
  then show ?thesis by (auto simp: take_in_def)
next
  case None
  show ?thesis
  proof (cases "free_in_links (pools n ow)")
    case Nil
    with None show ?thesis by (auto simp: take_in_def)
  next
    case (Cons l ls)
    have b: "balanced (pools n ow)" using assms by (simp add: net_ok_def)
    show ?thesis
    proof (cases "half_duplex_links (pools n ow)")
      case False
      with None Cons show ?thesis
        by (auto simp: take_in_def take_hd_out_def keeps_def same_config_def pool_links_def net_ok_def balanced_def queues_def fun_eq_iff)
    next
      case True
      with b Cons obtain h hs where "free_out_links (pools n ow) = h # hs"
        by (cases "free_out_links (pools n ow)") (auto simp: balanced_def)
      with None Cons True b show ?thesis
        by (auto simp: take_in_def take_hd_out_def keeps_def same_config_def pool_links_def net_ok_def balanced_def queues_def fun_eq_iff)
    qed
  qed
qed

definition waits_at :: "tid \<Rightarrow> owner \<Rightarrow> dir \<Rightarrow> 'z net_scheme \<Rightarrow> 'z net_scheme \<Rightarrow> bool" where
  "waits_at t ow d n n' \<longleftrightarrow> queues n' = (queues n)(ow :=
     (if d = IN_LINK then (th_for_in (pools n ow) @ [t], th_for_out (pools n ow))
      else (th_for_in (pools n ow), th_for_out (pools n ow) @ [t])))"

lemma START_fields [simp]:
  "queues (START_LINK_WAIT_TIME t n) = queues n"
  "local_link (threads (START_LINK_WAIT_TIME t n) t') = local_link (threads n t')"
  "partner_link (threads (START_LINK_WAIT_TIME t n) t') = partner_link (threads n t')"
  "local_hd_link (threads (START_LINK_WAIT_TIME t n) t') = local_hd_link (threads n t')"
  "partner_node (threads (START_LINK_WAIT_TIME t n) t') = partner_node (threads n t')"
  "pools (START_LINK_WAIT_TIME t n) = pools n" "links (START_LINK_WAIT_TIME t n) = links n"
  by (simp_all add: START_LINK_WAIT_TIME_def queues_def fun_eq_iff)

lemma enqueue_waiter_fields [simp]:
  "threads (enqueue_waiter first t ow d n) = threads n" "links (enqueue_waiter first t ow d n) = links n"
  "free_in_links (pools (enqueue_waiter first t ow d n) o') = free_in_links (pools n o')"
  "free_out_links (pools (enqueue_waiter first t ow d n) o') = free_out_links (pools n o')"
  "busy_in_links (pools (enqueue_waiter first t ow d n) o') = busy_in_links (pools n o')"
  "busy_out_links (pools (enqueue_waiter first t ow d n) o') = busy_out_links (pools n o')"
  "half_duplex_links (pools (enqueue_waiter first t ow d n) o') = half_duplex_links (pools n o')"
  by (auto simp: enqueue_waiter_def)

lemma enqueue_waits: "waits_at t ow d n (enqueue_waiter False t ow d n)"
  by (cases d) (auto simp: waits_at_def enqueue_waiter_def queues_def fun_eq_iff)

text \<open>A phase of a protocol: take the link or wait for it.\<close>

lemma src_phase:
  assumes ok: "net_ok n" and pol: "pol n = COMMUNIC_FIFO \<or> pol n = comm_policy n m"
  shows "\<exists>b n'. or_wait (\<lambda>n. link_busy_with (pol n) False t ow OUT_LINK n) (take_out mark ow t n) = Inr (b, n') \<and>
    keeps n n' \<and> partner_link (threads n' t) = partner_link (threads n t) \<and>
    (b \<longrightarrow> local_link (threads n' t) \<noteq> None \<and> queues n' = queues n) \<and>
    (\<not> b \<longrightarrow> local_link (threads n' t) = None \<and> local_link (threads n t) = None \<and>
       free_out_links (pools n ow) = [] \<and> waits_at t ow OUT_LINK n n')"
proof -
  obtain b n1 where t: "take_out mark ow t n = Inr (b, n1)" "keeps n n1"
    "b \<longleftrightarrow> local_link (threads n t) \<noteq> None \<or> free_out_links (pools n ow) \<noteq> []"
    "b \<longrightarrow> local_link (threads n1 t) \<noteq> None" "\<not> b \<longrightarrow> n1 = n"
    "partner_link (threads n1 t) = partner_link (threads n t)" "queues n1 = queues n"
    using take_out_effect[OF ok, of mark ow t] by blast
  show ?thesis
  proof (cases b)
    case True
    with t show ?thesis by (auto simp: or_wait_def)
  next
    case False
    with t show ?thesis
      using busy_effect[OF ok pol, of False t ow OUT_LINK] enqueue_waits[of t ow OUT_LINK n]
      by (auto simp: or_wait_def waits_at_def)
  qed
qed

lemma dst_phase:
  assumes ok: "net_ok n" and pol: "pol n = COMMUNIC_FIFO \<or> pol n = comm_policy n m"
  shows "\<exists>b n'. or_wait (\<lambda>n. link_busy_with (pol n) False t ow IN_LINK n) (take_in Inr mark ow t n) = Inr (b, n') \<and>
    keeps n n' \<and> local_link (threads n' t) = local_link (threads n t) \<and>
    (b \<longrightarrow> partner_link (threads n' t) \<noteq> None \<and> queues n' = queues n) \<and>
    (\<not> b \<longrightarrow> partner_link (threads n' t) = None \<and> partner_link (threads n t) = None \<and>
       free_in_links (pools n ow) = [] \<and> waits_at t ow IN_LINK n n')"
proof -
  obtain b n1 where t: "take_in Inr mark ow t n = Inr (b, n1)" "keeps n n1"
    "b \<longleftrightarrow> partner_link (threads n t) \<noteq> None \<or> free_in_links (pools n ow) \<noteq> []"
    "b \<longrightarrow> partner_link (threads n1 t) \<noteq> None" "\<not> b \<longrightarrow> n1 = n"
    "local_link (threads n1 t) = local_link (threads n t)" "queues n1 = queues n"
    using take_in_effect[OF ok, of mark ow t] by blast
  show ?thesis
  proof (cases b)
    case True
    with t show ?thesis by (auto simp: or_wait_def)
  next
    case False
    with t show ?thesis
      using busy_effect[OF ok pol, of False t ow IN_LINK] enqueue_waits[of t ow IN_LINK n]
      by (auto simp: or_wait_def waits_at_def)
  qed
qed

section \<open>What the protocols give\<close>

text \<open>
  The outcome of a protocol for the thread \<open>t\<close>, from \<open>src\<close> to \<open>dst\<close>: it has both links, or it
  has been put at the end of one queue, of an owner with no free link in that direction.
\<close>

definition granted :: "tid \<Rightarrow> 'z net_scheme \<Rightarrow> bool" where
  "granted t n \<longleftrightarrow> local_link (threads n t) \<noteq> None \<and> partner_link (threads n t) \<noteq> None"

lemma and_then_eq: "and_then r f = Inr (b, n') \<longleftrightarrow>
   (\<exists>n1. r = Inr (True, n1) \<and> f n1 = Inr (b, n')) \<or> (\<not> b \<and> r = Inr (False, n'))"
  by (auto simp: and_then_def bindE_eq_Inr split: if_splits)

lemma keeps_swapped: "keeps n n1 \<Longrightarrow> wan_swapped s d n1 = wan_swapped s d n"
  by (simp add: keeps_def same_config_def wan_swapped_def)

lemma keeps_net_ok: "keeps n n1 \<Longrightarrow> net_ok n \<Longrightarrow> net_ok n1"
  by (simp add: keeps_def)

lemma keeps_policy: "keeps n n1 \<Longrightarrow> comm_policy n1 = comm_policy n"
  by (simp add: keeps_def same_config_def)

text \<open>
  Source first, destination second, or the other way round: one lemma for the machine and the
  connection protocol.
\<close>

lemma two_phases:
  fixes n :: "'z net_scheme" and t :: tid and os od :: owner and ps pd :: "'z net_scheme \<Rightarrow> policy"
  assumes ok: "net_ok n" and ps: "\<And>n1. keeps n n1 \<Longrightarrow> ps n1 = COMMUNIC_FIFO \<or> ps n1 = comm_policy n1 ms"
    and pd: "\<And>n1. keeps n n1 \<Longrightarrow> pd n1 = COMMUNIC_FIFO \<or> pd n1 = comm_policy n1 md"
  defines "src \<equiv> \<lambda>n1. or_wait (\<lambda>n. link_busy_with (ps n) False t os OUT_LINK n) (take_out False os t n1)"
    and "dst \<equiv> \<lambda>n1. or_wait (\<lambda>n. link_busy_with (pd n) False t od IN_LINK n) (take_in Inr False od t n1)"
  shows "\<exists>b n'. and_then (src n) dst = Inr (b, n') \<and> keeps n n' \<and> (b \<longrightarrow> granted t n') \<and>
      (\<not> b \<longrightarrow> (waits_at t os OUT_LINK n n' \<and> local_link (threads n' t) = None
                 \<and> partner_link (threads n' t) = partner_link (threads n t))
             \<or> (waits_at t od IN_LINK n n' \<and> partner_link (threads n' t) = None))"
    and "\<exists>b n'. and_then (dst n) src = Inr (b, n') \<and> keeps n n' \<and> (b \<longrightarrow> granted t n') \<and>
      (\<not> b \<longrightarrow> (waits_at t od IN_LINK n n' \<and> partner_link (threads n' t) = None
                 \<and> local_link (threads n' t) = local_link (threads n t))
             \<or> (waits_at t os OUT_LINK n n' \<and> local_link (threads n' t) = None))"
proof -
  obtain b n1 where s: "src n = Inr (b, n1)" "keeps n n1" "partner_link (threads n1 t) = partner_link (threads n t)"
    "b \<longrightarrow> local_link (threads n1 t) \<noteq> None \<and> queues n1 = queues n"
    "\<not> b \<longrightarrow> local_link (threads n1 t) = None \<and> waits_at t os OUT_LINK n n1"
    using src_phase[where pol = ps, OF ok ps[OF keeps_refl], of t os False] unfolding src_def by blast
  obtain c n2 where d: "dst n1 = Inr (c, n2)" "keeps n1 n2" "local_link (threads n2 t) = local_link (threads n1 t)"
    "c \<longrightarrow> partner_link (threads n2 t) \<noteq> None"
    "\<not> c \<longrightarrow> partner_link (threads n2 t) = None \<and> waits_at t od IN_LINK n1 n2"
    using dst_phase[where pol = pd, OF keeps_net_ok[OF s(2) ok] pd[OF s(2)], of t od False] unfolding dst_def by blast
  show "\<exists>b n'. and_then (src n) dst = Inr (b, n') \<and> keeps n n' \<and> (b \<longrightarrow> granted t n') \<and>
      (\<not> b \<longrightarrow> (waits_at t os OUT_LINK n n' \<and> local_link (threads n' t) = None
                 \<and> partner_link (threads n' t) = partner_link (threads n t))
             \<or> (waits_at t od IN_LINK n n' \<and> partner_link (threads n' t) = None))"
  proof (cases b)
    case True
    then have "and_then (src n) dst = Inr (c, n2)" using s d by (simp add: and_then_def)
    with True s d keeps_trans[OF s(2) d(2)] show ?thesis
      by (auto simp: granted_def waits_at_def queues_def fun_eq_iff)
  next
    case False
    then have "and_then (src n) dst = Inr (False, n1)" using s by (simp add: and_then_def)
    with False s show ?thesis by auto
  qed
next
  obtain b n1 where s: "dst n = Inr (b, n1)" "keeps n n1" "local_link (threads n1 t) = local_link (threads n t)"
    "b \<longrightarrow> partner_link (threads n1 t) \<noteq> None \<and> queues n1 = queues n"
    "\<not> b \<longrightarrow> partner_link (threads n1 t) = None \<and> waits_at t od IN_LINK n n1"
    using dst_phase[where pol = pd, OF ok pd[OF keeps_refl], of t od False] unfolding dst_def by blast
  obtain c n2 where d: "src n1 = Inr (c, n2)" "keeps n1 n2" "partner_link (threads n2 t) = partner_link (threads n1 t)"
    "c \<longrightarrow> local_link (threads n2 t) \<noteq> None"
    "\<not> c \<longrightarrow> local_link (threads n2 t) = None \<and> waits_at t os OUT_LINK n1 n2"
    using src_phase[where pol = ps, OF keeps_net_ok[OF s(2) ok] ps[OF s(2)], of t os False] unfolding src_def by blast
  show "\<exists>b n'. and_then (dst n) src = Inr (b, n') \<and> keeps n n' \<and> (b \<longrightarrow> granted t n') \<and>
      (\<not> b \<longrightarrow> (waits_at t od IN_LINK n n' \<and> partner_link (threads n' t) = None
                 \<and> local_link (threads n' t) = local_link (threads n t))
             \<or> (waits_at t os OUT_LINK n n' \<and> local_link (threads n' t) = None))"
  proof (cases b)
    case True
    then have "and_then (dst n) src = Inr (c, n2)" using s d by (simp add: and_then_def)
    with True s d keeps_trans[OF s(2) d(2)] show ?thesis
      by (auto simp: granted_def waits_at_def queues_def fun_eq_iff)
  next
    case False
    then have "and_then (dst n) src = Inr (False, n1)" using s by (simp add: and_then_def)
    with False s show ?thesis by auto
  qed
qed

lemma LINKS_get_wan_links_effect:
  assumes "net_ok n"
  shows "\<exists>b n'. LINKS_get_wan_links t s d n = Inr (b, n') \<and> keeps n n' \<and> (b \<longrightarrow> granted t n') \<and>
    (\<not> b \<longrightarrow> (waits_at t (MachinePool s) OUT_LINK n n' \<and> local_link (threads n' t) = None \<and>
                 (\<not> wan_swapped s d n \<longrightarrow> partner_link (threads n' t) = partner_link (threads n t)))
           \<or> (waits_at t (MachinePool d) IN_LINK n n' \<and> partner_link (threads n' t) = None \<and>
                 (wan_swapped s d n \<longrightarrow> local_link (threads n' t) = local_link (threads n t))))"
  using two_phases[where t = t and ps = "\<lambda>n. comm_policy n s" and pd = "\<lambda>n. comm_policy n d"
      and os = "MachinePool s" and od = "MachinePool d" and ms = s and md = d, OF assms]
  by (cases "wan_swapped s d n") (auto simp: LINKS_get_wan_links_def machine_link_busy_def[abs_def] Let_def)

lemma LINKS_get_dedicated_effect:
  assumes "net_ok n"
  shows "\<exists>b n'. LINKS_get_dedicated_connection_links t c n = Inr (b, n') \<and> keeps n n' \<and> (b \<longrightarrow> granted t n') \<and>
    (\<not> b \<longrightarrow> (waits_at t (ConnPool c) OUT_LINK n n' \<and> local_link (threads n' t) = None)
           \<or> (waits_at t (ConnPool c) IN_LINK n n' \<and> partner_link (threads n' t) = None))"
  using two_phases[where t = t and ps = "\<lambda>n. COMMUNIC_FIFO" and pd = "\<lambda>n. COMMUNIC_FIFO"
      and os = "ConnPool c" and od = "ConnPool c" and ms = 0 and md = 0, OF assms]
  by (cases "half_duplex_links (pools n (ConnPool c)) \<and> fst (conn_ends n c) > snd (conn_ends n c)")
    (auto simp: LINKS_get_dedicated_connection_links_def connection_link_busy_def[abs_def] Let_def)

text \<open>The labels of the memory protocol, one visit each.\<close>

lemma keeps_mem_swapped: "keeps n n1 \<Longrightarrow> mem_swapped ts tr n1 = mem_swapped ts tr n"
  by (simp add: keeps_def same_config_def mem_swapped_def)

lemma keeps_infinite: "keeps n n1 \<Longrightarrow> infinite_mem_links n1 (node_of_task n1 tk) = infinite_mem_links n (node_of_task n tk)"
  by (simp add: keeps_def same_config_def)

lemma mem_src:
  assumes ok: "net_ok n" and fin: "\<not> infinite_mem_links n (node_of_task n ts)"
  shows "\<exists>b n1. keeps n n1 \<and> partner_link (threads n1 t) = partner_link (threads n t) \<and>
    (b \<longrightarrow> local_link (threads n1 t) \<noteq> None \<and> queues n1 = queues n) \<and>
    (\<not> b \<longrightarrow> local_link (threads n1 t) = None \<and> waits_at t (TaskPool ts) OUT_LINK n n1) \<and>
    mem_labels Second_src_link t ts tr n =
      (if \<not> b then retR (False, n1) else if mem_swapped ts tr n then retR (True, n1)
       else mem_labels First_dest t ts tr n1)"
proof -
  let ?pol = "\<lambda>n. comm_policy n (machine_of_node n (get_node_of_thread t n))"
  obtain b n1 where s: "or_wait (mem_link_busy t ts OUT_LINK) (take_out False (TaskPool ts) t n) = Inr (b, n1)"
    "keeps n n1" "partner_link (threads n1 t) = partner_link (threads n t)"
    "b \<longrightarrow> local_link (threads n1 t) \<noteq> None \<and> queues n1 = queues n"
    "\<not> b \<longrightarrow> local_link (threads n1 t) = None \<and> waits_at t (TaskPool ts) OUT_LINK n n1"
    using src_phase[where pol = ?pol, OF ok disjI2[OF refl], of t "TaskPool ts" False]
    unfolding mem_link_busy_def[abs_def] by blast
  then show ?thesis
    by (intro exI[of _ b] exI[of _ n1]) (subst mem_labels.simps, simp add: fin keeps_mem_swapped)
qed

lemma mem_dst:
  assumes ok: "net_ok n" and fin: "\<not> infinite_mem_links n (node_of_task n tr)"
  shows "\<exists>b n1. keeps n n1 \<and> local_link (threads n1 t) = local_link (threads n t) \<and>
    (b \<longrightarrow> partner_link (threads n1 t) \<noteq> None \<and> queues n1 = queues n) \<and>
    (\<not> b \<longrightarrow> partner_link (threads n1 t) = None \<and> waits_at t (TaskPool tr) IN_LINK n n1) \<and>
    mem_labels First_dest t ts tr n =
      (if \<not> b then retR (False, n1) else if mem_swapped ts tr n then mem_labels Second_src_link t ts tr n1
       else retR (True, n1))"
proof -
  let ?pol = "\<lambda>n. comm_policy n (machine_of_node n (get_node_of_thread t n))"
  obtain b n1 where s: "or_wait (mem_link_busy t tr IN_LINK) (take_in Inr False (TaskPool tr) t n) = Inr (b, n1)"
    "keeps n n1" "local_link (threads n1 t) = local_link (threads n t)"
    "b \<longrightarrow> partner_link (threads n1 t) \<noteq> None \<and> queues n1 = queues n"
    "\<not> b \<longrightarrow> partner_link (threads n1 t) = None \<and> waits_at t (TaskPool tr) IN_LINK n n1"
    using dst_phase[where pol = ?pol, OF ok disjI2[OF refl], of t "TaskPool tr" False]
    unfolding mem_link_busy_def[abs_def] by blast
  then show ?thesis
    by (intro exI[of _ b] exI[of _ n1]) (subst mem_labels.simps, simp add: fin keeps_mem_swapped)
qed

lemma waits_same_queues: "waits_at t ow d n1 n2 \<Longrightarrow> queues n1 = queues n \<Longrightarrow> waits_at t ow d n n2"
  by (simp add: waits_at_def) (metis queues_def prod.inject)

definition mem_outcome :: "tid \<Rightarrow> taskid \<Rightarrow> taskid \<Rightarrow> 'z net_scheme \<Rightarrow> bool \<Rightarrow> 'z net_scheme \<Rightarrow> bool" where
  "mem_outcome t ts tr n b n' \<longleftrightarrow> keeps n n' \<and> (b \<longrightarrow> granted t n') \<and>
    (\<not> b \<longrightarrow> (waits_at t (TaskPool ts) OUT_LINK n n' \<and> local_link (threads n' t) = None \<and>
                 (\<not> mem_swapped ts tr n \<longrightarrow> partner_link (threads n' t) = partner_link (threads n t)))
           \<or> (waits_at t (TaskPool tr) IN_LINK n n' \<and> partner_link (threads n' t) = None \<and>
                 (mem_swapped ts tr n \<longrightarrow> local_link (threads n' t) = local_link (threads n t))))"

lemma LINKS_get_mem_links_effect:
  assumes ok: "net_ok n" and ne: "ts \<noteq> tr" and fin: "\<not> infinite_mem_links n (node_of_task n ts)"
    "\<not> infinite_mem_links n (node_of_task n tr)"
  shows "\<exists>b n'. LINKS_get_mem_links t ts tr n = retR (b, n') \<and> mem_outcome t ts tr n b n'"
proof (cases "mem_swapped ts tr n")
  case False
  obtain b n1 where s: "keeps n n1" "partner_link (threads n1 t) = partner_link (threads n t)"
    "b \<longrightarrow> local_link (threads n1 t) \<noteq> None \<and> queues n1 = queues n"
    "\<not> b \<longrightarrow> local_link (threads n1 t) = None \<and> waits_at t (TaskPool ts) OUT_LINK n n1"
    "mem_labels Second_src_link t ts tr n =
      (if \<not> b then retR (False, n1) else if mem_swapped ts tr n then retR (True, n1)
       else mem_labels First_dest t ts tr n1)"
    using mem_src[OF ok fin(1), of t tr] by blast
  obtain c n2 where d: "keeps n1 n2" "local_link (threads n2 t) = local_link (threads n1 t)"
    "c \<longrightarrow> partner_link (threads n2 t) \<noteq> None \<and> queues n2 = queues n1"
    "\<not> c \<longrightarrow> partner_link (threads n2 t) = None \<and> waits_at t (TaskPool tr) IN_LINK n1 n2"
    "mem_labels First_dest t ts tr n1 =
      (if \<not> c then retR (False, n2) else if mem_swapped ts tr n1 then mem_labels Second_src_link t ts tr n2
       else retR (True, n2))"
    using mem_dst[OF keeps_net_ok[OF s(1) ok], of tr t ts] fin(2) keeps_infinite[OF s(1)] by auto
  show ?thesis
    using s d False ne keeps_mem_swapped[OF s(1), of ts tr] keeps_trans[OF s(1) d(1)]
    by (cases b; cases c) (auto simp: LINKS_get_mem_links_def mem_outcome_def granted_def dest: waits_same_queues)
next
  case True
  obtain b n1 where s: "keeps n n1" "local_link (threads n1 t) = local_link (threads n t)"
    "b \<longrightarrow> partner_link (threads n1 t) \<noteq> None \<and> queues n1 = queues n"
    "\<not> b \<longrightarrow> partner_link (threads n1 t) = None \<and> waits_at t (TaskPool tr) IN_LINK n n1"
    "mem_labels First_dest t ts tr n =
      (if \<not> b then retR (False, n1) else if mem_swapped ts tr n then mem_labels Second_src_link t ts tr n1
       else retR (True, n1))"
    using mem_dst[OF ok fin(2), of t ts] by blast
  obtain c n2 where d: "keeps n1 n2" "partner_link (threads n2 t) = partner_link (threads n1 t)"
    "c \<longrightarrow> local_link (threads n2 t) \<noteq> None \<and> queues n2 = queues n1"
    "\<not> c \<longrightarrow> local_link (threads n2 t) = None \<and> waits_at t (TaskPool ts) OUT_LINK n1 n2"
    "mem_labels Second_src_link t ts tr n1 =
      (if \<not> c then retR (False, n2) else if mem_swapped ts tr n1 then retR (True, n2)
       else mem_labels First_dest t ts tr n2)"
    using mem_src[OF keeps_net_ok[OF s(1) ok], of ts t tr] fin(1) keeps_infinite[OF s(1)] by auto
  show ?thesis
    using s d True ne keeps_mem_swapped[OF s(1), of ts tr] keeps_trans[OF s(1) d(1)]
    by (cases b; cases c) (auto simp: LINKS_get_mem_links_def mem_outcome_def granted_def dest: waits_same_queues)
qed

lemma LINKS_get_mem_links_infinite:
  assumes "infinite_mem_links n (node_of_task n ts)" "infinite_mem_links n (node_of_task n tr)"
  shows "LINKS_get_mem_links t ts tr n = retR (True, n)"
proof -
  have "mem_labels First_dest t ts tr n = retR (True, n)"
    by (subst mem_labels.simps) (simp add: assms)
  moreover from this have "mem_labels Second_src_link t ts tr n = retR (True, n)"
    by (subst mem_labels.simps) (simp add: assms)
  ultimately show ?thesis by (simp add: LINKS_get_mem_links_def)
qed

section \<open>The network protocol\<close>

text \<open>
  Stealing a link moves no link between queues: it changes who owns it. What makes it safe is
  that an owner without a partner link waits at its partner's node, and in a half duplex node
  also holds the input link that goes with its output link.
\<close>

definition same_lists :: "'z net_scheme \<Rightarrow> 'z net_scheme \<Rightarrow> bool" where
  "same_lists n n' \<longleftrightarrow> same_config n n' \<and> (\<forall>ow.
     free_in_links (pools n' ow) = free_in_links (pools n ow) \<and>
     free_out_links (pools n' ow) = free_out_links (pools n ow) \<and>
     busy_in_links (pools n' ow) = busy_in_links (pools n ow) \<and>
     busy_out_links (pools n' ow) = busy_out_links (pools n ow))"

lemma same_lists_keeps: "same_lists n n' \<Longrightarrow> keeps n n'"
  by (rule keepsI) (auto simp: same_lists_def same_config_def pool_links_def balanced_def)

lemma same_lists_refl [simp]: "same_lists n n"
  by (simp add: same_lists_def same_config_def)

lemma same_lists_trans: "same_lists a b \<Longrightarrow> same_lists b c \<Longrightarrow> same_lists a c"
  by (auto simp: same_lists_def same_config_def)

lemma same_lists_updI: "same_lists n a \<Longrightarrow> same_lists n (upd_thread t (\<lambda>th. th\<lparr>partner_node := x\<rparr>) a)"
  by (auto simp: same_lists_def same_config_def)

lemma link_busy_with_lists:
  "link_busy_with pol first t ow d n = Inr n' \<Longrightarrow> same_lists n n'"
  by (auto simp: link_busy_with_def same_lists_def same_config_def enqueue_waiter_def START_LINK_WAIT_TIME_def
      split: if_splits)

lemma roba_lists: "roba_out_link t nd d test n = Inr (b, n') \<Longrightarrow> same_lists n n'"
proof -
  assume h: "roba_out_link t nd d test n = Inr (b, n')"
  show ?thesis
  proof (cases "n' = n")
    case False
    with h obtain l c pn n3 where b: "link_busy_primer c nd OUT_LINK n3 = Inr n'"
      and n3: "same_lists n n3"
      by (auto simp: roba_out_link_def Let_def bindE_eq_Inr same_lists_def same_config_def
          split: if_splits option.splits)
    show ?thesis
      using same_lists_trans[OF n3 link_busy_with_lists[OF b[unfolded link_busy_primer_def link_busy_prioritat_def]]] .
  qed simp
qed

lemma roba_sure_lists: "roba_sure t nd d n = Inr n' \<Longrightarrow> same_lists n n'"
  by (auto simp: roba_sure_def bindE_eq_Inr split: if_splits dest: roba_lists)

lemma link_busy_lists: "link_busy t nd d n = Inr n' \<Longrightarrow> same_lists n n'"
  by (auto simp: link_busy_def link_busy_prioritat_def dest: link_busy_with_lists)

text \<open>Whatever it answers, the protocol keeps the links of every node.\<close>

lemma take_out_keeps: "take_out mark ow t n = Inr (b, n') \<Longrightarrow> keeps n n'"
  by (auto simp: take_out_def take_hd_in_def bindE_eq_Inr split: option.splits list.splits if_splits
      intro!: keepsI simp: same_config_def pool_links_def balanced_def)

lemma take_in_keeps:
  assumes h: "take_in hook mark ow t n = Inr (b, n')"
    and hook: "\<And>a a'. hook a = Inr a' \<Longrightarrow> same_lists a a'"
  shows "keeps n n'"
proof (cases "partner_link (threads n t)")
  case (Some l)
  with h obtain n1 where "hook n = Inr n1" "n' = n1" by (auto simp: take_in_def bindE_eq_Inr)
  with hook same_lists_keeps show ?thesis by blast
next
  case None
  show ?thesis
  proof (cases "free_in_links (pools n ow)")
    case Nil
    with h None show ?thesis by (simp add: take_in_def)
  next
    case (Cons l ls)
    let ?n0 = "upd_pool ow (\<lambda>p. p\<lparr>free_in_links := ls\<rparr>) n"
    obtain n1 n2 where n1: "hook ?n0 = Inr n1"
      and n2: "take_hd_out mark ow t (set_owner mark l None n1) = Inr n2"
      and n': "n' = upd_thread t (\<lambda>th. th\<lparr>partner_link := Some l\<rparr>)
                 (upd_pool ow (\<lambda>p. p\<lparr>busy_in_links := busy_in_links p @ [l]\<rparr>)
                 (upd_link l (\<lambda>k. k\<lparr>assigned_on := current_time n\<rparr>) n2))"
      using h None Cons by (auto simp: take_in_def bindE_eq_Inr)
    have s: "same_lists ?n0 n1" by (rule hook[OF n1])
    then have f: "free_out_links (pools n1 o') = free_out_links (pools n o')"
      "busy_in_links (pools n1 o') = busy_in_links (pools n o')"
      "busy_out_links (pools n1 o') = busy_out_links (pools n o')"
      "free_in_links (pools n1 o') = (if o' = ow then ls else free_in_links (pools n o'))"
      "half_duplex_links (pools n1 o') = half_duplex_links (pools n o')" for o'
      by (auto simp: same_lists_def same_config_def)
    show ?thesis
    proof (rule keepsI)
      show "same_config n n'"
        using s n2 n' by (auto simp: same_lists_def same_config_def take_hd_out_def split: if_splits list.splits)
    qed (use n2 n' f Cons in \<open>auto simp: take_hd_out_def pool_links_def balanced_def split: if_splits list.splits\<close>)
  qed
qed

lemma get_network_in_keeps: "get_network_in t nd np r n = Inr (b, n') \<Longrightarrow> keeps n n'"
proof -
  assume h: "get_network_in t nd np r n = Inr (b, n')"
  show ?thesis
  proof (cases "infinite_net_links n np")
    case True
    with h show ?thesis by (auto simp: get_network_in_def reserved_def)
  next
    case False
    obtain ok n1 where t: "take_in (if r then roba_sure t nd OUT_LINK else Inr) True (NodePool np) t n = Inr (ok, n1)"
      using h False by (auto simp: get_network_in_def bindE_eq_Inr)
    have k: "keeps n n1"
      by (rule take_in_keeps[OF t]) (auto split: if_splits dest: roba_sure_lists)
    show ?thesis
    proof (cases ok)
      case True
      with h False t k show ?thesis
        by (auto simp: get_network_in_def reserved_def intro: keeps_trans)
    next
      case nok: False
      have "same_lists n1 n'"
        using h False t nok
        by (auto simp: get_network_in_def reserved_def blocked_def bindE_eq_Inr split: if_splits
            dest!: roba_lists roba_sure_lists link_busy_lists intro!: same_lists_updI
            intro: same_lists_trans[OF same_lists_trans] same_lists_trans)
      with k show ?thesis by (blast intro: keeps_trans same_lists_keeps)
    qed
  qed
qed

lemma LINKS_get_network_links_keeps:
  assumes h: "LINKS_get_network_links t nd np n = Inr (b, n')"
  shows "keeps n n'"
proof (cases "nd = np")
  case True
  with h show ?thesis by (simp add: LINKS_get_network_links_def)
next
  case ne: False
  let ?n0 = "upd_thread t (\<lambda>th. th\<lparr>partner_node := Some np\<rparr>) n"
  show ?thesis
  proof (cases "infinite_net_links n nd")
    case True
    with h ne have "get_network_in t nd np False ?n0 = Inr (b, n')" by (simp add: LINKS_get_network_links_def)
    then show ?thesis using get_network_in_keeps keeps_trans upd_partner_node_keeps by blast
  next
    case False
    with h ne obtain ok n1 where t: "take_out True (NodePool nd) t ?n0 = Inr (ok, n1)"
      by (auto simp: LINKS_get_network_links_def bindE_eq_Inr)
    have k: "keeps n n1" using take_out_keeps[OF t] keeps_trans upd_partner_node_keeps by blast
    show ?thesis
    proof (cases ok)
      case True
      with h ne False t have "get_network_in t nd np False n1 = Inr (b, n')"
        by (simp add: LINKS_get_network_links_def)
      then show ?thesis using get_network_in_keeps k keeps_trans by blast
    next
      case nok: False
      with h ne False t obtain r n2 where r: "roba_out_link t nd OUT_LINK True n1 = Inr (r, n2)"
        "(if \<not> r then blocked (link_busy t nd OUT_LINK n2) else get_network_in t nd np True n2) = Inr (b, n')"
        by (auto simp: LINKS_get_network_links_def bindE_eq_Inr)
      have "keeps n1 n2" using roba_lists[OF r(1)] by (rule same_lists_keeps)
      moreover have "keeps n2 n'"
        using r(2) get_network_in_keeps[of t nd np True n2 b n']
        by (auto simp: blocked_def bindE_eq_Inr split: if_splits dest: link_busy_lists intro: same_lists_keeps)
      ultimately show ?thesis using k keeps_trans by blast
    qed
  qed
qed

text \<open>Every link is in one queue of its owner only, on the side of its type.\<close>

definition wf_links :: "'z net_scheme \<Rightarrow> bool" where
  "wf_links n \<longleftrightarrow> (\<forall>ow l. count (fst (pool_links (pools n ow))) l \<le> 1 \<and>
     count (snd (pool_links (pools n ow))) l \<le> 1 \<and>
     (l \<in># fst (pool_links (pools n ow)) \<longrightarrow> link_info (links n l) = ow \<and> link_type (links n l) = IN_LINK) \<and>
     (l \<in># snd (pool_links (pools n ow)) \<longrightarrow> link_info (links n l) = ow \<and> link_type (links n l) = OUT_LINK))"

lemma wf_links_keeps: "keeps n n' \<Longrightarrow> wf_links n \<Longrightarrow> wf_links n'"
  by (simp add: keeps_def same_config_def wf_links_def)

lemma wf_busy_out: "wf_links n \<Longrightarrow> l \<in> set (busy_out_links (pools n ow)) \<Longrightarrow> link_info (links n l) = ow"
  by (simp add: wf_links_def pool_links_def)

definition waits_for_partner :: "'z net_scheme \<Rightarrow> nodeid \<Rightarrow> tid \<Rightarrow> bool" where
  "waits_for_partner n nd c \<longleftrightarrow>
     (\<exists>pn. partner_node (threads n c) = Some pn \<and> c \<in> set (th_for_in (pools n (NodePool pn)))) \<and>
     (half_duplex_links (pools n (NodePool nd)) \<longrightarrow> local_hd_link (threads n c) \<noteq> None)"

definition owners_wait_but :: "tid set \<Rightarrow> 'z net_scheme \<Rightarrow> bool" where
  "owners_wait_but T n \<longleftrightarrow> (\<forall>nd l c. l \<in> set (busy_out_links (pools n (NodePool nd))) \<longrightarrow>
     link_thread (links n l) = Some c \<longrightarrow> local_link (threads n c) = Some l \<longrightarrow>
     partner_link (threads n c) = None \<longrightarrow> c \<notin> T \<longrightarrow> waits_for_partner n nd c)"

lemma robbable_iff: "robbable nd n l \<longleftrightarrow> (\<exists>c. link_thread (links n l) = Some c \<and>
    local_link (threads n c) = Some l \<and> partner_link (threads n c) = None)"
  by (auto simp: robbable_def split: option.splits)

definition can_rob :: "nodeid \<Rightarrow> dir \<Rightarrow> 'z net_scheme \<Rightarrow> bool" where
  "can_rob nd d n \<longleftrightarrow> (d = IN_LINK \<longrightarrow> half_duplex_links (pools n (NodePool nd))) \<and>
     (\<exists>l\<in>set (busy_out_links (pools n (NodePool nd))). robbable nd n l)"

definition not_victim :: "tid \<Rightarrow> nodeid \<Rightarrow> 'z net_scheme \<Rightarrow> bool" where
  "not_victim t nd n \<longleftrightarrow>
     (\<forall>l. local_link (threads n t) = Some l \<longrightarrow> l \<notin> set (busy_out_links (pools n (NodePool nd))))"

lemma victim:
  assumes "owners_wait_but {t} n" "not_victim t nd n"
    "List.find (robbable nd n) (busy_out_links (pools n (NodePool nd))) = Some l"
  obtains c pn where "l \<in> set (busy_out_links (pools n (NodePool nd)))" "link_thread (links n l) = Some c"
    "local_link (threads n c) = Some l" "partner_link (threads n c) = None" "c \<noteq> t"
    "partner_node (threads n c) = Some pn" "c \<in> set (th_for_in (pools n (NodePool pn)))"
    "half_duplex_links (pools n (NodePool nd)) \<longrightarrow> local_hd_link (threads n c) \<noteq> None"
proof -
  have l: "l \<in> set (busy_out_links (pools n (NodePool nd)))" "robbable nd n l"
    using assms(3) by (auto simp: find_Some_iff)
  then obtain c where c: "link_thread (links n l) = Some c" "local_link (threads n c) = Some l"
    "partner_link (threads n c) = None" by (auto simp: robbable_iff)
  have ct: "c \<noteq> t" using assms(2) l(1) c(2) by (auto simp: not_victim_def)
  with assms(1) l(1) c have "waits_for_partner n nd c" by (auto simp: owners_wait_but_def)
  with that l c ct show thesis by (auto simp: waits_for_partner_def)
qed

lemma roba_test:
  assumes "owners_wait_but {t} n" "not_victim t nd n"
  shows "roba_out_link t nd d True n = Inr (can_rob nd d n, n)"
proof (cases "List.find (robbable nd n) (busy_out_links (pools n (NodePool nd)))")
  case None
  then have "\<forall>l\<in>set (busy_out_links (pools n (NodePool nd))). \<not> robbable nd n l"
    by (auto simp: find_None_iff)
  with None show ?thesis by (simp add: roba_out_link_def can_rob_def)
next
  case (Some l)
  from victim[OF assms Some] obtain c pn where
    v: "l \<in> set (busy_out_links (pools n (NodePool nd)))" "link_thread (links n l) = Some c"
      "local_link (threads n c) = Some l" "partner_link (threads n c) = None"
      "partner_node (threads n c) = Some pn" "c \<in> set (th_for_in (pools n (NodePool pn)))" by metis
  then have "robbable nd n l" by (auto simp: robbable_iff)
  with v Some show ?thesis by (auto simp: roba_out_link_def can_rob_def)
qed

text \<open>A step that touches the thread \<open>t\<close> only keeps the others waiting.\<close>

lemma owners_wait_step:
  assumes "owners_wait_but {t} n" "same_config n n'"
    and step: "\<And>nd l c. c \<noteq> t \<Longrightarrow> l \<in> set (busy_out_links (pools n' (NodePool nd))) \<Longrightarrow>
      link_thread (links n' l) = Some c \<Longrightarrow> local_link (threads n' c) = Some l \<Longrightarrow>
      partner_link (threads n' c) = None \<Longrightarrow>
      l \<in> set (busy_out_links (pools n (NodePool nd))) \<and> link_thread (links n l) = Some c \<and>
      threads n' c = threads n c \<and>
      (\<forall>pn. c \<in> set (th_for_in (pools n (NodePool pn))) \<longrightarrow> c \<in> set (th_for_in (pools n' (NodePool pn))))"
  shows "owners_wait_but {t} n'"
  unfolding owners_wait_but_def
proof (intro allI impI)
  fix nd l c
  assume a: "l \<in> set (busy_out_links (pools n' (NodePool nd)))" "link_thread (links n' l) = Some c"
    "local_link (threads n' c) = Some l" "partner_link (threads n' c) = None" "c \<notin> {t}"
  then have s: "l \<in> set (busy_out_links (pools n (NodePool nd)))" "link_thread (links n l) = Some c"
      "threads n' c = threads n c"
      "\<forall>pn. c \<in> set (th_for_in (pools n (NodePool pn))) \<longrightarrow> c \<in> set (th_for_in (pools n' (NodePool pn)))"
    using step[of c l nd] by auto
  with a assms(1) have "waits_for_partner n nd c" by (auto simp: owners_wait_but_def)
  with s assms(2) show "waits_for_partner n' nd c" by (auto simp: waits_for_partner_def same_config_def)
qed

text \<open>What a thread that asks for links has to start with, and what it has in between.\<close>

definition own_link :: "tid \<Rightarrow> nodeid \<Rightarrow> 'z net_scheme \<Rightarrow> bool" where
  "own_link t nd n \<longleftrightarrow> (\<forall>l. local_link (threads n t) = Some l \<longrightarrow>
     l \<in> set (busy_out_links (pools n (NodePool nd))) \<and>
     (half_duplex_links (pools n (NodePool nd)) \<longrightarrow> local_hd_link (threads n t) \<noteq> None))"

lemma roba_real:
  assumes ow: "owners_wait_but {t} n" and nv: "not_victim t nd n"
    and ok: "\<forall>m. comm_policy n m \<noteq> COMMUNIC_other" and can: "can_rob nd d n"
  shows "\<exists>n'. roba_sure t nd d n = Inr n' \<and> same_lists n n' \<and> owners_wait_but {t} n' \<and>
    (d = OUT_LINK \<longrightarrow> local_link (threads n' t) \<noteq> None \<and> own_link t nd n' \<and>
       partner_link (threads n' t) = partner_link (threads n t)) \<and>
    (d = IN_LINK \<longrightarrow> partner_link (threads n' t) \<noteq> None \<and>
       local_link (threads n' t) = local_link (threads n t) \<and> (\<forall>x. own_link t x n \<longrightarrow> own_link t x n')) \<and>
    (\<forall>nd' d'. nd' \<noteq> nd \<longrightarrow> can_rob nd' d' n \<longrightarrow> wf_links n \<longrightarrow> not_victim t nd' n \<longrightarrow> can_rob nd' d' n')"
proof -
  obtain l where f: "List.find (robbable nd n) (busy_out_links (pools n (NodePool nd))) = Some l"
    using can by (cases "List.find (robbable nd n) (busy_out_links (pools n (NodePool nd)))")
      (auto simp: can_rob_def find_None_iff)
  obtain c pn where v: "l \<in> set (busy_out_links (pools n (NodePool nd)))" "link_thread (links n l) = Some c"
    "local_link (threads n c) = Some l" "partner_link (threads n c) = None" "c \<noteq> t"
    "partner_node (threads n c) = Some pn" "c \<in> set (th_for_in (pools n (NodePool pn)))"
    "half_duplex_links (pools n (NodePool nd)) \<longrightarrow> local_hd_link (threads n c) \<noteq> None"
    by (rule victim[OF ow nv f])
  define n1 where "n1 = upd_pool (NodePool pn) (\<lambda>p. p\<lparr>th_for_in := remove1 c (th_for_in p)\<rparr>) n"
  define n2 where "n2 = (if d = OUT_LINK
     then upd_thread t (\<lambda>th. th\<lparr>local_link := Some l, local_hd_link := local_hd_link (threads n c)\<rparr>)
            (upd_link l (\<lambda>k. k\<lparr>link_thread := Some t\<rparr>) n1)
     else upd_thread t (\<lambda>th. th\<lparr>partner_hd_link := Some l, partner_link := local_hd_link (threads n c)\<rparr>)
            (upd_link l (\<lambda>k. k\<lparr>link_thread := None\<rparr>) n1))"
  define n3 where "n3 = upd_thread c (\<lambda>th. th\<lparr>local_link := None, local_hd_link := None\<rparr>) n2"
  define n' where "n' = START_LINK_WAIT_TIME c (enqueue_waiter True c (NodePool nd) OUT_LINK n3)"
  have pol: "comm_policy n3 = comm_policy n" by (simp add: n3_def n2_def n1_def)
  have "link_busy_primer c nd OUT_LINK n3 = Inr n'"
    using ok by (simp add: link_busy_primer_def link_busy_prioritat_def link_busy_with_def n'_def net_ok_def pol)
  then have r: "roba_out_link t nd d False n = Inr (True, n')"
    using can f v(2,6,7)
    by (cases "d = OUT_LINK") (simp_all add: roba_out_link_def can_rob_def Let_def n3_def n2_def n1_def)
  have th: "threads n' x = threads n x" if "x \<noteq> t" "x \<noteq> c" for x
    using that by (simp add: n'_def n3_def n2_def n1_def START_LINK_WAIT_TIME_def)
  have c0: "local_link (threads n' c) = None" by (simp add: n'_def n3_def)
  have lt: "link_thread (links n' k) = (if k = l then (if d = OUT_LINK then Some t else None) else link_thread (links n k))" for k
    by (simp add: n'_def n3_def n2_def n1_def)
  have bo: "busy_out_links (pools n' ow) = busy_out_links (pools n ow)" for ow
    using roba_lists[OF r] by (simp add: same_lists_def)
  have cfg: "same_config n n'" using roba_lists[OF r] by (simp add: same_lists_def)
  have q: "x \<in> set (th_for_in (pools n' ow))" if "x \<noteq> c" "x \<in> set (th_for_in (pools n ow))" for x ow
    using that by (auto simp: n'_def n3_def n2_def n1_def enqueue_waiter_def)
  have inv: "owners_wait_but {t} n'"
  proof (rule owners_wait_step[OF ow cfg])
    fix nd' l' c' assume a: "c' \<noteq> t" "l' \<in> set (busy_out_links (pools n' (NodePool nd')))"
      "link_thread (links n' l') = Some c'" "local_link (threads n' c') = Some l'"
    then have "c' \<noteq> c" using c0 by auto
    with a th[of c'] lt[of l'] bo q[of c'] show "l' \<in> set (busy_out_links (pools n (NodePool nd'))) \<and>
      link_thread (links n l') = Some c' \<and> threads n' c' = threads n c' \<and>
      (\<forall>pn. c' \<in> set (th_for_in (pools n (NodePool pn))) \<longrightarrow> c' \<in> set (th_for_in (pools n' (NodePool pn))))"
      by (auto split: if_splits)
  qed
  have other: "can_rob nd' d' n'" if ne: "nd' \<noteq> nd" and cr: "can_rob nd' d' n" and wf: "wf_links n"
      and nvt: "not_victim t nd' n" for nd' d'
  proof -
    obtain l' c' where l': "l' \<in> set (busy_out_links (pools n (NodePool nd')))" "link_thread (links n l') = Some c'"
      "local_link (threads n c') = Some l'" "partner_link (threads n c') = None"
      using cr by (auto simp: can_rob_def robbable_iff)
    have "l' \<noteq> l" using ne wf_busy_out[OF wf l'(1)] wf_busy_out[OF wf v(1)] by auto
    moreover from this have "c' \<noteq> c" using l'(3) v(3) by auto
    moreover have "c' \<noteq> t" using nvt l'(1,3) by (auto simp: not_victim_def)
    ultimately have "robbable nd' n' l'" using l' th[of c'] lt[of l'] by (auto simp: robbable_iff)
    with l'(1) bo cr cfg show ?thesis by (auto simp: can_rob_def same_config_def)
  qed
  have hdx: "half_duplex_links (pools n' ow) = half_duplex_links (pools n ow)" for ow
    using cfg by (simp add: same_config_def)
  have "local_link (threads n' t) \<noteq> None \<and> own_link t nd n' \<and>
      partner_link (threads n' t) = partner_link (threads n t)" if "d = OUT_LINK"
  proof -
    have "local_link (threads n' t) = Some l" "local_hd_link (threads n' t) = local_hd_link (threads n c)"
      "partner_link (threads n' t) = partner_link (threads n t)"
      using v(5) that by (simp_all add: n'_def n3_def n2_def n1_def)
    then show ?thesis using v(1,8) bo hdx by (simp add: own_link_def)
  qed
  moreover have "partner_link (threads n' t) \<noteq> None \<and>
      local_link (threads n' t) = local_link (threads n t) \<and> (\<forall>x. own_link t x n \<longrightarrow> own_link t x n')"
    if "d = IN_LINK"
  proof -
    have "partner_link (threads n' t) = local_hd_link (threads n c)"
      "local_link (threads n' t) = local_link (threads n t)"
      "local_hd_link (threads n' t) = local_hd_link (threads n t)"
      using v(5) that by (simp_all add: n'_def n3_def n2_def n1_def)
    then show ?thesis using v(8) can that bo hdx by (simp add: own_link_def can_rob_def)
  qed
  moreover have "roba_sure t nd d n = Inr n'" by (simp add: roba_sure_def r)
  ultimately show ?thesis
    using roba_lists[OF r] inv other v(1) by (intro exI[of _ n']) blast
qed

lemma take_out_own:
  assumes ow: "owners_wait_but {t} n" and own: "own_link t nd n"
    and h: "take_out True (NodePool nd) t n = Inr (b, n1)"
  shows "owners_wait_but {t} n1" "own_link t nd n1"
proof -
  have k: "same_config n n1" using take_out_keeps[OF h] by (simp add: keeps_def)
  show "owners_wait_but {t} n1"
    by (rule owners_wait_step[OF ow k])
      (use h in \<open>auto simp: take_out_def take_hd_in_def bindE_eq_Inr split: option.splits list.splits if_splits\<close>)
  show "own_link t nd n1"
    using own h by (auto simp: own_link_def take_out_def take_hd_in_def bindE_eq_Inr
        split: option.splits list.splits if_splits)
qed

lemma take_in_end_own:
  fixes time :: timer
  assumes ow: "owners_wait_but {t} n" and own: "own_link t nd n"
    and h: "take_hd_out True (NodePool np) t (set_owner True l None n) = Inr n2"
  defines "n3 \<equiv> upd_thread t (\<lambda>th. th\<lparr>partner_link := Some l\<rparr>)
     (upd_pool (NodePool np) (\<lambda>p. p\<lparr>busy_in_links := busy_in_links p @ [l]\<rparr>)
     (upd_link l (\<lambda>k. k\<lparr>assigned_on := time\<rparr>) n2))"
  shows "owners_wait_but {t} n3" "own_link t nd n3"
proof -
  have k: "same_config n n3"
    using h by (auto simp: n3_def take_hd_out_def same_config_def split: list.splits if_splits)
  show "owners_wait_but {t} n3"
    by (rule owners_wait_step[OF ow k])
      (use h in \<open>auto simp: n3_def take_hd_out_def split: list.splits if_splits\<close>)
  show "own_link t nd n3"
    using own h by (auto simp: own_link_def n3_def take_hd_out_def split: list.splits if_splits)
qed

lemma take_in_own:
  assumes ow: "owners_wait_but {t} n" and own: "own_link t nd n"
    and h: "take_in Inr True (NodePool np) t n = Inr (b, n1)"
  shows "owners_wait_but {t} n1" "own_link t nd n1"
proof -
  have "owners_wait_but {t} n1 \<and> own_link t nd n1"
  proof (cases "n1 = n")
    case False
    then obtain l ls n2 where f: "free_in_links (pools n (NodePool np)) = l # ls"
      and n2: "take_hd_out True (NodePool np) t (set_owner True l None
        (upd_pool (NodePool np) (\<lambda>p. p\<lparr>free_in_links := ls\<rparr>) n)) = Inr n2"
      and n1: "n1 = upd_thread t (\<lambda>th. th\<lparr>partner_link := Some l\<rparr>)
         (upd_pool (NodePool np) (\<lambda>p. p\<lparr>busy_in_links := busy_in_links p @ [l]\<rparr>)
         (upd_link l (\<lambda>k. k\<lparr>assigned_on := current_time n\<rparr>) n2))"
      using h by (auto simp: take_in_def bindE_eq_Inr split: option.splits list.splits)
    let ?n0 = "upd_pool (NodePool np) (\<lambda>p. p\<lparr>free_in_links := ls\<rparr>) n"
    have "owners_wait_but {t} ?n0"
      by (rule owners_wait_step[OF ow]) (auto simp: same_config_def split: if_splits)
    moreover have "own_link t nd ?n0" using own by (auto simp: own_link_def)
    ultimately show ?thesis using take_in_end_own[OF _ _ n2, of nd "current_time n"] n1 by simp
  qed (use ow own in simp)
  then show "owners_wait_but {t} n1" "own_link t nd n1" by simp_all
qed

lemma owners_wait_close:
  assumes "owners_wait_but {t} n" "wf_links n" "own_link t nd n"
    "local_link (threads n t) = None \<or> partner_link (threads n t) \<noteq> None \<or>
     (\<exists>pn. partner_node (threads n t) = Some pn \<and> t \<in> set (th_for_in (pools n (NodePool pn))))"
  shows "owners_wait_but {} n"
  unfolding owners_wait_but_def
proof (intro allI impI)
  fix nd' l c
  assume a: "l \<in> set (busy_out_links (pools n (NodePool nd')))" "link_thread (links n l) = Some c"
    "local_link (threads n c) = Some l" "partner_link (threads n c) = None" "c \<notin> {}"
  show "waits_for_partner n nd' c"
  proof (cases "c = t")
    case False
    with a assms(1) show ?thesis by (auto simp: owners_wait_but_def)
  next
    case True
    with a assms(3) have l: "l \<in> set (busy_out_links (pools n (NodePool nd)))"
      and hd: "half_duplex_links (pools n (NodePool nd)) \<longrightarrow> local_hd_link (threads n t) \<noteq> None"
      by (auto simp: own_link_def)
    have "nd' = nd" using wf_busy_out[OF assms(2) a(1)] wf_busy_out[OF assms(2) l] by simp
    with True a hd assms(4) show ?thesis by (auto simp: waits_for_partner_def)
  qed
qed

lemma link_busy_waits:
  assumes "net_ok n"
  shows "\<exists>n'. link_busy t nd d n = Inr n' \<and> waits_at t (NodePool nd) d n n' \<and> same_lists n n' \<and>
    (\<forall>x. local_link (threads n' x) = local_link (threads n x) \<and>
       partner_link (threads n' x) = partner_link (threads n x) \<and>
       local_hd_link (threads n' x) = local_hd_link (threads n x) \<and>
       partner_node (threads n' x) = partner_node (threads n x)) \<and>
    (\<forall>x o'. x \<in> set (th_for_in (pools n o')) \<longrightarrow> x \<in> set (th_for_in (pools n' o'))) \<and> links n' = links n \<and>
    (d = IN_LINK \<longrightarrow> t \<in> set (th_for_in (pools n' (NodePool nd)))) \<and>
    (\<forall>x. x \<noteq> t \<longrightarrow> threads n' x = threads n x)"
proof -
  let ?n = "START_LINK_WAIT_TIME t (enqueue_waiter False t (NodePool nd) d n)"
  have b: "link_busy t nd d n = Inr ?n"
    using assms by (simp add: link_busy_def link_busy_prioritat_def link_busy_with_def net_ok_def)
  have "waits_at t (NodePool nd) d n ?n"
    using enqueue_waits[of t "NodePool nd" d n] by (simp add: waits_at_def)
  with b link_busy_lists[OF b] show ?thesis
    by (intro exI[of _ ?n]) (auto simp: enqueue_waiter_def START_LINK_WAIT_TIME_def)
qed

lemma link_busy_owners:
  assumes "owners_wait_but {t} n" "own_link t x n" "net_ok n" "wf_links n"
    "local_link (threads n t) = None \<or> (d = IN_LINK \<and> partner_node (threads n t) = Some nd)"
  shows "\<exists>n'. blocked (link_busy t nd d n) = Inr (False, n') \<and> owners_wait_but {} n' \<and>
    waits_at t (NodePool nd) d n n'"
proof -
  obtain n' where b: "link_busy t nd d n = Inr n'" "waits_at t (NodePool nd) d n n'" "same_lists n n'"
    "\<forall>x. local_link (threads n' x) = local_link (threads n x) \<and>
       partner_link (threads n' x) = partner_link (threads n x) \<and>
       local_hd_link (threads n' x) = local_hd_link (threads n x) \<and>
       partner_node (threads n' x) = partner_node (threads n x)"
    "\<forall>x o'. x \<in> set (th_for_in (pools n o')) \<longrightarrow> x \<in> set (th_for_in (pools n' o'))"
    "links n' = links n" "d = IN_LINK \<longrightarrow> t \<in> set (th_for_in (pools n' (NodePool nd)))"
    "\<forall>x. x \<noteq> t \<longrightarrow> threads n' x = threads n x"
    using link_busy_waits[OF assms(3), of t nd d] by blast
  have c: "same_config n n'" "\<And>ow. busy_out_links (pools n' ow) = busy_out_links (pools n ow)"
    using b(3) by (simp_all add: same_lists_def)
  have "owners_wait_but {t} n'"
    by (rule owners_wait_step[OF assms(1) c(1)]) (use b c in auto)
  moreover have "wf_links n'" using wf_links_keeps[OF same_lists_keeps[OF b(3)] assms(4)] .
  moreover have "own_link t x n'"
    using assms(2) b(4) c by (simp add: own_link_def same_config_def)
  ultimately have "owners_wait_but {} n'"
    by (rule owners_wait_close) (use assms(5) b(4,7) in auto)
  with b(1,2) show ?thesis by (simp add: blocked_def)
qed

lemma reserved_owners:
  assumes "owners_wait_but {t} n" "own_link t x n" "wf_links n" "granted t n"
  shows "\<exists>n'. reserved t n = Inr (True, n') \<and> owners_wait_but {} n' \<and> granted t n'"
proof -
  let ?n = "upd_thread t (\<lambda>th. th\<lparr>partner_node := None\<rparr>) n"
  have "owners_wait_but {} n"
    by (rule owners_wait_close[OF assms(1,3,2)]) (use assms(4) in \<open>simp add: granted_def\<close>)
  then have "owners_wait_but {} ?n"
    using assms(4) by (auto simp: owners_wait_but_def waits_for_partner_def granted_def)
  with assms(4) show ?thesis by (simp add: reserved_def granted_def)
qed

text \<open>The input side, first without and then with a theft of the output link.\<close>

lemma not_victimI:
  assumes "own_link t nd n" "wf_links n" "np \<noteq> nd"
  shows "not_victim t np n"
  unfolding not_victim_def
proof (intro allI impI notI)
  fix l assume l: "local_link (threads n t) = Some l" "l \<in> set (busy_out_links (pools n (NodePool np)))"
  then have "l \<in> set (busy_out_links (pools n (NodePool nd)))" using assms(1) by (simp add: own_link_def)
  from wf_busy_out[OF assms(2) this] wf_busy_out[OF assms(2) l(2)] assms(3) show False by simp
qed

definition in_ready :: "tid \<Rightarrow> nodeid \<Rightarrow> nodeid \<Rightarrow> 'z net_scheme \<Rightarrow> bool" where
  "in_ready t nd np n \<longleftrightarrow> nd \<noteq> np \<and> \<not> infinite_net_links n np \<and> net_ok n \<and> wf_links n \<and>
     owners_wait_but {t} n \<and> own_link t nd n \<and> partner_node (threads n t) = Some np"

definition net_outcome :: "tid \<Rightarrow> nodeid \<Rightarrow> nodeid \<Rightarrow> 'z net_scheme \<Rightarrow> bool \<Rightarrow> 'z net_scheme \<Rightarrow> bool" where
  "net_outcome t nd np n b n' \<longleftrightarrow> owners_wait_but {} n' \<and> (b \<longrightarrow> granted t n') \<and>
     (\<not> b \<longrightarrow> waits_at t (NodePool nd) OUT_LINK n n' \<or> waits_at t (NodePool np) IN_LINK n n')"

lemma take_in_partner_node:
  "take_in Inr True ow t n = Inr (b, n1) \<Longrightarrow> partner_node (threads n1 t) = partner_node (threads n t)"
  by (auto simp: take_in_def take_hd_out_def bindE_eq_Inr split: option.splits list.splits if_splits)

lemma net_ok_pol: "net_ok n \<Longrightarrow> \<forall>m. comm_policy n m \<noteq> COMMUNIC_other"
  by (simp add: net_ok_def)

lemma in_steal:
  assumes r: "in_ready t nd np n" and loc: "local_link (threads n t) \<noteq> None" and can: "can_rob np IN_LINK n"
  shows "\<exists>n'. bindE (roba_sure t np IN_LINK n) (reserved t) = Inr (True, n') \<and> owners_wait_but {} n' \<and> granted t n'"
proof -
  have i: "nd \<noteq> np" "net_ok n" "wf_links n" "owners_wait_but {t} n" "own_link t nd n"
    using r by (simp_all add: in_ready_def)
  have nv: "not_victim t np n" using not_victimI[OF i(5,3)] i(1) by simp
  obtain n1 where n1: "roba_sure t np IN_LINK n = Inr n1" "same_lists n n1" "owners_wait_but {t} n1"
    "partner_link (threads n1 t) \<noteq> None" "local_link (threads n1 t) = local_link (threads n t)" "own_link t nd n1"
    using roba_real[OF i(4) nv net_ok_pol[OF i(2)] can] i(5) by auto
  have "wf_links n1" using wf_links_keeps[OF same_lists_keeps[OF n1(2)] i(3)] .
  from reserved_owners[OF n1(3,6) this] n1 loc show ?thesis by (simp add: granted_def)
qed

lemma get_network_in_plain:
  assumes r: "in_ready t nd np n" and loc: "local_link (threads n t) \<noteq> None"
  shows "\<exists>b n'. get_network_in t nd np False n = Inr (b, n') \<and> net_outcome t nd np n b n'"
proof -
  have i: "nd \<noteq> np" "\<not> infinite_net_links n np" "net_ok n" "wf_links n" "owners_wait_but {t} n" "own_link t nd n"
    "partner_node (threads n t) = Some np" using r by (simp_all add: in_ready_def)
  obtain b n1 where t: "take_in Inr True (NodePool np) t n = Inr (b, n1)" "keeps n n1"
    "b \<longrightarrow> partner_link (threads n1 t) \<noteq> None" "\<not> b \<longrightarrow> n1 = n"
    "local_link (threads n1 t) = local_link (threads n t)"
    using take_in_effect[OF i(3), of True "NodePool np" t] by blast
  note o = take_in_own[OF i(5,6) t(1)]
  show ?thesis
  proof (cases b)
    case True
    have "granted t n1" using True t loc by (simp add: granted_def)
    from reserved_owners[OF o wf_links_keeps[OF t(2) i(4)] this] True t(1) i(2) show ?thesis
      by (auto simp: get_network_in_def net_outcome_def)
  next
    case False
    then have n1: "n1 = n" using t(4) by simp
    have test: "roba_out_link t np IN_LINK True n = Inr (can_rob np IN_LINK n, n)"
      using roba_test[OF i(5) not_victimI[OF i(6,4)]] i(1) by simp
    show ?thesis
    proof (cases "can_rob np IN_LINK n")
      case True
      with in_steal[OF r loc] test t(1) False n1 i(2) show ?thesis
        by (auto simp: get_network_in_def net_outcome_def)
    next
      case no: False
      have "\<exists>n'. blocked (link_busy t np IN_LINK n) = Inr (False, n') \<and> owners_wait_but {} n' \<and>
          waits_at t (NodePool np) IN_LINK n n'"
        by (rule link_busy_owners[OF i(5,6,3,4)]) (simp add: i(7))
      with no test t(1) False n1 i(2) show ?thesis
        by (auto simp: get_network_in_def net_outcome_def)
    qed
  qed
qed

lemma get_network_in_robbing:
  assumes r: "in_ready t nd np n" and loc: "local_link (threads n t) = None" and can: "can_rob nd OUT_LINK n"
  shows "\<exists>b n'. get_network_in t nd np True n = Inr (b, n') \<and> net_outcome t nd np n b n'"
proof -
  have i: "nd \<noteq> np" "\<not> infinite_net_links n np" "net_ok n" "wf_links n" "owners_wait_but {t} n" "own_link t nd n"
    "partner_node (threads n t) = Some np" using r by (simp_all add: in_ready_def)
  have nv: "not_victim t x n" for x using loc by (simp add: not_victim_def)
  show ?thesis
  proof (cases "partner_link (threads n t)")
    case (Some p)
    obtain n1 where n1: "roba_sure t nd OUT_LINK n = Inr n1" "same_lists n n1" "owners_wait_but {t} n1"
      "local_link (threads n1 t) \<noteq> None" "own_link t nd n1" "partner_link (threads n1 t) = partner_link (threads n t)"
      using roba_real[OF i(5) nv net_ok_pol[OF i(3)] can] by auto
    have "granted t n1" using n1 Some by (simp add: granted_def)
    from reserved_owners[OF n1(3,5) wf_links_keeps[OF same_lists_keeps[OF n1(2)] i(4)] this] Some n1(1) i(2)
    show ?thesis by (auto simp: get_network_in_def take_in_def net_outcome_def)
  next
    case None
    show ?thesis
    proof (cases "free_in_links (pools n (NodePool np))")
      case Nil
      have test: "roba_out_link t np IN_LINK True n = Inr (can_rob np IN_LINK n, n)"
        by (rule roba_test[OF i(5) nv])
      show ?thesis
      proof (cases "can_rob np IN_LINK n")
        case True
        obtain n1 where n1: "roba_sure t nd OUT_LINK n = Inr n1" "same_lists n n1" "owners_wait_but {t} n1"
          "local_link (threads n1 t) \<noteq> None" "own_link t nd n1"
          "can_rob np IN_LINK n1"
          using roba_real[OF i(5) nv net_ok_pol[OF i(3)] can] i(1,4) nv True by auto
        have k: "keeps n n1" using same_lists_keeps[OF n1(2)] .
        have wf: "wf_links n1" using wf_links_keeps[OF k i(4)] .
        have nv1: "not_victim t np n1" using not_victimI[OF n1(5) wf] i(1) by simp
        obtain n2 where n2: "roba_sure t np IN_LINK n1 = Inr n2" "same_lists n1 n2" "owners_wait_but {t} n2"
          "partner_link (threads n2 t) \<noteq> None" "local_link (threads n2 t) = local_link (threads n1 t)" "own_link t nd n2"
          using roba_real[OF n1(3) nv1 net_ok_pol[OF keeps_net_ok[OF k i(3)]] n1(6)] n1(5) by auto
        have "granted t n2" using n2 n1(4) by (simp add: granted_def)
        from reserved_owners[OF n2(3,6) wf_links_keeps[OF same_lists_keeps[OF n2(2)] wf] this]
        show ?thesis using Nil None test True n1(1) n2(1) i(2)
          by (auto simp: get_network_in_def take_in_def net_outcome_def)
      next
        case False
        have "\<exists>n'. blocked (link_busy t nd OUT_LINK n) = Inr (False, n') \<and> owners_wait_but {} n' \<and>
            waits_at t (NodePool nd) OUT_LINK n n'"
          by (rule link_busy_owners[OF i(5,6,3,4)]) (simp add: loc)
        with Nil None test False i(2) show ?thesis
          by (auto simp: get_network_in_def take_in_def net_outcome_def)
      qed
    next
      case (Cons l ls)
      let ?n0 = "upd_pool (NodePool np) (\<lambda>p. p\<lparr>free_in_links := ls\<rparr>) n"
      have o0: "owners_wait_but {t} ?n0"
        by (rule owners_wait_step[OF i(5)]) (auto simp: same_config_def split: if_splits)
      have nv0: "not_victim t nd ?n0" using loc by (simp add: not_victim_def)
      have can0: "can_rob nd OUT_LINK ?n0" using can by (auto simp: can_rob_def robbable_iff)
      obtain n1 where n1: "roba_sure t nd OUT_LINK ?n0 = Inr n1" "same_lists ?n0 n1" "owners_wait_but {t} n1"
        "local_link (threads n1 t) \<noteq> None" "own_link t nd n1"
        using roba_real[OF o0 nv0 _ can0] net_ok_pol[OF i(3)] by auto
      have "balanced (pools n (NodePool np))" using i(3) by (simp add: net_ok_def)
      moreover have "free_out_links (pools n1 (NodePool np)) = free_out_links (pools n (NodePool np))"
        "half_duplex_links (pools n1 (NodePool np)) = half_duplex_links (pools n (NodePool np))"
        using n1(2) by (simp_all add: same_lists_def same_config_def)
      ultimately obtain n2 where n2: "take_hd_out True (NodePool np) t (set_owner True l None n1) = Inr n2"
        using Cons by (cases "free_out_links (pools n (NodePool np))") (auto simp: take_hd_out_def balanced_def)
      define n3 where "n3 = upd_thread t (\<lambda>th. th\<lparr>partner_link := Some l\<rparr>)
        (upd_pool (NodePool np) (\<lambda>p. p\<lparr>busy_in_links := busy_in_links p @ [l]\<rparr>)
        (upd_link l (\<lambda>k. k\<lparr>assigned_on := current_time n\<rparr>) n2))"
      have o3: "owners_wait_but {t} n3" "own_link t nd n3"
        using take_in_end_own[OF n1(3,5) n2, of "current_time n"] by (simp_all add: n3_def)
      have ti: "take_in (roba_sure t nd OUT_LINK) True (NodePool np) t n = Inr (True, n3)"
        using None Cons n1(1) n2 by (simp add: take_in_def n3_def)
      have "keeps n n3" by (rule take_in_keeps[OF ti]) (rule roba_sure_lists)
      then have wf3: "wf_links n3" using wf_links_keeps i(4) by blast
      have "local_link (threads n3 t) = local_link (threads n1 t)"
        using n2 by (auto simp: n3_def take_hd_out_def split: if_splits list.splits)
      then have "granted t n3" using n1(4) by (simp add: granted_def n3_def)
      from reserved_owners[OF o3 wf3 this] ti i(2) show ?thesis
        by (auto simp: get_network_in_def net_outcome_def)
    qed
  qed
qed

lemma LINKS_get_network_links_effect:
  assumes ne: "nd \<noteq> np" and fin: "\<not> infinite_net_links n nd" "\<not> infinite_net_links n np"
    and ok: "net_ok n" and wf: "wf_links n" and ow: "owners_wait_but {t} n" and own: "own_link t nd n"
  shows "\<exists>b n'. LINKS_get_network_links t nd np n = Inr (b, n') \<and> keeps n n' \<and> net_outcome t nd np n b n'"
proof -
  let ?n0 = "upd_thread t (\<lambda>th. th\<lparr>partner_node := Some np\<rparr>) n"
  have k0: "keeps n ?n0" by simp
  have ok0: "net_ok ?n0" using ok by (simp add: net_ok_def)
  have ow0: "owners_wait_but {t} ?n0"
    by (rule owners_wait_step[OF ow]) (auto simp: same_config_def split: if_splits)
  have own0: "own_link t nd ?n0" using own by (simp add: own_link_def)
  obtain b n1 where t: "take_out True (NodePool nd) t ?n0 = Inr (b, n1)" "keeps ?n0 n1"
    "b \<longrightarrow> local_link (threads n1 t) \<noteq> None" "\<not> b \<longrightarrow> n1 = ?n0"
    "b \<longleftrightarrow> local_link (threads ?n0 t) \<noteq> None \<or> free_out_links (pools ?n0 (NodePool nd)) \<noteq> []"
    "queues n1 = queues ?n0"
    using take_out_effect[OF ok0, of True "NodePool nd" t] by blast
  have pn: "partner_node (threads n1 t) = Some np"
    using t(1) by (auto simp: take_out_def take_hd_in_def bindE_eq_Inr split: option.splits list.splits if_splits)
  have q: "queues n1 = queues n" using t(6) by (simp add: queues_def fun_eq_iff)
  have r: "in_ready t nd np n1"
    using ne fin(2) keeps_net_ok[OF t(2) ok0] wf_links_keeps[OF keeps_trans[OF k0 t(2)] wf]
      take_out_own[OF ow0 own0 t(1)] pn t(2)
    by (simp add: in_ready_def keeps_def same_config_def)
  have start: "net_outcome t nd np n1 b' n' \<Longrightarrow> net_outcome t nd np n b' n'" for b' n'
    using q by (auto simp: net_outcome_def dest: waits_same_queues)
  have "\<exists>b n'. LINKS_get_network_links t nd np n = Inr (b, n') \<and> net_outcome t nd np n b n'"
  proof (cases b)
    case True
    with get_network_in_plain[OF r] t(1,3) ne fin(1) show ?thesis
      by (auto simp: LINKS_get_network_links_def intro!: start)
  next
    case False
    then have n1: "n1 = ?n0" and loc: "local_link (threads n1 t) = None" using t(4,5) by auto
    have test: "roba_out_link t nd OUT_LINK True n1 = Inr (can_rob nd OUT_LINK n1, n1)"
      using r loc by (intro roba_test) (simp_all add: in_ready_def not_victim_def)
    show ?thesis
    proof (cases "can_rob nd OUT_LINK n1")
      case True
      with get_network_in_robbing[OF r loc] test False t(1) ne fin(1) show ?thesis
        by (auto simp: LINKS_get_network_links_def n1 intro!: start[unfolded n1])
    next
      case no: False
      have "\<exists>n'. blocked (link_busy t nd OUT_LINK n1) = Inr (False, n') \<and> owners_wait_but {} n' \<and>
          waits_at t (NodePool nd) OUT_LINK n1 n'"
        by (rule link_busy_owners[where x = nd]) (use r loc in \<open>simp_all add: in_ready_def\<close>)
      with no test False t(1) ne fin(1) show ?thesis
        by (auto simp: LINKS_get_network_links_def n1 net_outcome_def intro!: waits_same_queues[OF _ q[unfolded n1]])
    qed
  qed
  with LINKS_get_network_links_keeps show ?thesis by blast
qed

section \<open>Who waits for a link\<close>

text \<open>The memory protocol keeps the links in every case in which it returns.\<close>

lemma or_wait_keeps:
  assumes "or_wait busy r = Inr (b, n')" "\<And>ok n1. r = Inr (ok, n1) \<Longrightarrow> keeps n n1"
    "\<And>n1 n2. busy n1 = Inr n2 \<Longrightarrow> keeps n1 n2"
  shows "keeps n n'"
  using assms(1) by (auto simp: or_wait_def bindE_eq_Inr split: if_splits intro: assms(2) keeps_trans[OF assms(2) assms(3)])

lemma mem_link_busy_keeps: "mem_link_busy t tk d n = Inr n' \<Longrightarrow> keeps n n'"
  unfolding mem_link_busy_def by (rule same_lists_keeps[OF link_busy_with_lists])

lemma mem_src_keeps:
  "or_wait (mem_link_busy t ts OUT_LINK) (take_out False ow t n) = Inr (b, n') \<Longrightarrow> keeps n n'"
  by (rule or_wait_keeps) (auto intro: take_out_keeps mem_link_busy_keeps)

lemma mem_dst_keeps:
  "or_wait (mem_link_busy t tr IN_LINK) (take_in Inr False ow t n) = Inr (b, n') \<Longrightarrow> keeps n n'"
  by (rule or_wait_keeps) (auto intro: take_in_keeps mem_link_busy_keeps)

lemma mem_labels_keeps:
  assumes "mem_labels lab t ts tr n = Some (Inr (b, n'))"
  shows "keeps n n'"
proof -
  have "mem_labels lab t ts tr n = Some (Inr (b, n')) \<Longrightarrow> \<forall>x. Inr (b, n') = (Inr x :: (bool \<times> 'a net_scheme) res) \<longrightarrow> keeps n (snd x)"
  proof (rule mem_labels.raw_induct
      [of "\<lambda>lab t ts tr n r. \<forall>x. r = Inr x \<longrightarrow> keeps n (snd x)"])
    fix f :: "mem_label \<Rightarrow> tid \<Rightarrow> taskid \<Rightarrow> taskid \<Rightarrow> 'a net_scheme \<Rightarrow> (bool \<times> 'a net_scheme) run"
    fix lab t ts tr and n :: "'a net_scheme" and r :: "(bool \<times> 'a net_scheme) res"
    assume IH: "\<And>lab t ts tr n r. f lab t ts tr n = Some r \<Longrightarrow> \<forall>x. r = Inr x \<longrightarrow> keeps n (snd x)"
    assume b: "(case lab of
        Second_src_link \<Rightarrow>
          if \<not> infinite_mem_links n (node_of_task n ts) then
            (case or_wait (mem_link_busy t ts OUT_LINK) (take_out False (TaskPool ts) t n) of
               Inl e \<Rightarrow> failR e
             | Inr (ok, n1) \<Rightarrow>
                 if \<not> ok then retR (False, n1)
                 else if mem_swapped ts tr n1 then retR (True, n1)
                 else f First_dest t ts tr n1)
          else f First_dest t ts tr n
      | First_dest \<Rightarrow>
          if \<not> infinite_mem_links n (node_of_task n tr) then
            (case or_wait (mem_link_busy t tr IN_LINK) (take_in Inr False (TaskPool tr) t n) of
               Inl e \<Rightarrow> failR e
             | Inr (ok, n1) \<Rightarrow>
                 if \<not> ok then retR (False, n1)
                 else if mem_swapped ts tr n1 then f Second_src_link t ts tr n1
                 else retR (True, n1))
          else retR (True, n)) = Some r"
    have IH': "f lab' t ts tr n1 = Some (Inr x) \<Longrightarrow> keeps n1 (snd x)" for lab' n1 x
      using IH by blast
    show "\<forall>x. r = Inr x \<longrightarrow> keeps n (snd x)"
    proof (intro allI impI)
      fix x assume r: "r = Inr x"
      show "keeps n (snd x)"
      proof (cases lab)
        case Second_src_link
        show ?thesis
        proof (cases "infinite_mem_links n (node_of_task n ts)")
          case True
          with b r Second_src_link show ?thesis by (auto dest: IH')
        next
          case False
          with b r Second_src_link obtain ok n1 where o: "or_wait (mem_link_busy t ts OUT_LINK) (take_out False (TaskPool ts) t n) = Inr (ok, n1)"
            by (auto simp: failR_def split: sum.splits)
          from mem_src_keeps[OF this] keeps_trans[OF mem_src_keeps[OF o] IH'] b r Second_src_link False o
          show ?thesis by (auto simp: retR_def split: if_splits)
        qed
      next
        case First_dest
        show ?thesis
        proof (cases "infinite_mem_links n (node_of_task n tr)")
          case True
          with b r First_dest show ?thesis by (auto simp: retR_def)
        next
          case False
          with b r First_dest obtain ok n1 where o: "or_wait (mem_link_busy t tr IN_LINK) (take_in Inr False (TaskPool tr) t n) = Inr (ok, n1)"
            by (auto simp: failR_def split: sum.splits)
          from mem_dst_keeps[OF this] keeps_trans[OF mem_dst_keeps[OF o] IH'] b r First_dest False o
          show ?thesis by (auto simp: retR_def split: if_splits)
        qed
      qed
    qed
  qed
  with assms show ?thesis by simp
qed

lemma LINKS_get_mem_links_keeps: "LINKS_get_mem_links t ts tr n = retR (b, n') \<Longrightarrow> keeps n n'"
  by (auto simp: LINKS_get_mem_links_def retR_def split: if_splits intro: mem_labels_keeps)

lemma LINKS_get_wan_links_keeps: "LINKS_get_wan_links t s d n = Inr (b, n') \<Longrightarrow> keeps n n'"
proof -
  have src: "or_wait (machine_link_busy t m OUT_LINK) (take_out False (MachinePool m) t n) = Inr (b, n') \<Longrightarrow> keeps n n'"
    for m n b n'
    by (rule or_wait_keeps) (auto simp: machine_link_busy_def intro: take_out_keeps same_lists_keeps[OF link_busy_with_lists])
  have dst: "or_wait (machine_link_busy t m IN_LINK) (take_in Inr False (MachinePool m) t n) = Inr (b, n') \<Longrightarrow> keeps n n'"
    for m n b n'
    by (rule or_wait_keeps) (auto simp: machine_link_busy_def intro: take_in_keeps same_lists_keeps[OF link_busy_with_lists])
  assume "LINKS_get_wan_links t s d n = Inr (b, n')"
  then show ?thesis
    by (auto simp: LINKS_get_wan_links_def Let_def and_then_eq split: if_splits dest: src dst
        intro: keeps_trans[OF src dst] keeps_trans[OF dst src])
qed

lemma LINKS_get_dedicated_keeps: "LINKS_get_dedicated_connection_links t c n = Inr (b, n') \<Longrightarrow> keeps n n'"
proof -
  have src: "or_wait (connection_link_busy t c OUT_LINK) (take_out False (ConnPool c) t n) = Inr (b, n') \<Longrightarrow> keeps n n'"
    for n b n'
    by (rule or_wait_keeps) (auto simp: connection_link_busy_def intro: take_out_keeps same_lists_keeps[OF link_busy_with_lists])
  have dst: "or_wait (connection_link_busy t c IN_LINK) (take_in Inr False (ConnPool c) t n) = Inr (b, n') \<Longrightarrow> keeps n n'"
    for n b n'
    by (rule or_wait_keeps) (auto simp: connection_link_busy_def intro: take_in_keeps same_lists_keeps[OF link_busy_with_lists])
  assume "LINKS_get_dedicated_connection_links t c n = Inr (b, n')"
  then show ?thesis
    by (auto simp: LINKS_get_dedicated_connection_links_def Let_def and_then_eq split: if_splits dest: src dst
        intro: keeps_trans[OF src dst] keeps_trans[OF dst src])
qed

section \<open>What a release relies on\<close>

text \<open>
  A relation between the states before and after that every step of a release respects, in
  particular the handlers of the threads it wakes up, holds for the whole release.
\<close>

locale release_clients =
  fixes R :: "'z net_scheme \<Rightarrow> 'z net_scheme \<Rightarrow> bool" and hs :: "'z net_scheme handlers"
  assumes R_refl: "R n n"
    and R_trans: "R n n1 \<Longrightarrow> R n1 n2 \<Longrightarrow> R n n2"
    and R_account: "R n (ACCUMULATE_LINK_WAIT_TIME f n)"
    and R_paraver: "R n (upd_thread f (\<lambda>th. th\<lparr>last_paraver := v\<rparr>) n)"
    and R_pop_in: "th_for_in (pools n ow) = f # fs \<Longrightarrow> R n (upd_pool ow (\<lambda>p. p\<lparr>th_for_in := fs\<rparr>) n)"
    and R_pop_out: "th_for_out (pools n ow) = f # fs \<Longrightarrow> R n (upd_pool ow (\<lambda>p. p\<lparr>th_for_out := fs\<rparr>) n)"
    and R_put_in: "put_back_in ow ol n = Inr n' \<Longrightarrow> R n n'"
    and R_put_out: "put_back_out ow ol n = Inr n' \<Longrightarrow> R n n'"
    and R_send: "act (threads n t) = A_SEND \<Longrightarrow> really_send hs t n = retR n' \<Longrightarrow> R n n'"
    and R_rma: "act (threads n t) = A_MPI_OS \<Longrightarrow> really_RMA hs t n = retR n' \<Longrightarrow> R n n'"
    and R_glop: "act (threads n t) = A_GLOBAL_OP \<Longrightarrow> global_op_reserva_links hs t n = retR n' \<Longrightarrow> R n n'"
    and R_port: "(if d = IN_LINK then wait_inlink_port (pools n ow) else wait_outlink_port (pools n ow)) = b # bs \<Longrightarrow>
      really_port_send hs b (upd_pool ow (\<lambda>p. if d = IN_LINK then p\<lparr>wait_inlink_port := bs\<rparr> else p\<lparr>wait_outlink_port := bs\<rparr>) n) = retR n' \<Longrightarrow> R n n'"
    and R_copy: "(if d = IN_LINK then wait_in_copy_segment (pools n ow) else wait_out_copy_segment (pools n ow)) = c # cs \<Longrightarrow>
      really_copy_segment hs c (upd_pool ow (\<lambda>p. if d = IN_LINK then p\<lparr>wait_in_copy_segment := cs\<rparr> else p\<lparr>wait_out_copy_segment := cs\<rparr>) n) = retR n' \<Longrightarrow> R n n'"
begin

lemma wake_up_R: "wake_up glop hs f n = retR n' \<Longrightarrow> R n n'"
proof -
  define n1 where "n1 = ACCUMULATE_LINK_WAIT_TIME f n"
  define n2 where "n2 = (if original_thread (threads n1 f)
      then upd_thread f (\<lambda>th. th\<lparr>last_paraver := current_time n1\<rparr>) n1 else n1)"
  have r: "R n n2"
    unfolding n2_def n1_def using R_account R_trans[OF R_account R_paraver] by auto
  assume h: "wake_up glop hs f n = retR n'"
  have "R n2 n'"
    using h unfolding wake_up_def Let_def n1_def[symmetric] n2_def[symmetric]
    by (cases "act (threads n2 f)") (auto intro: R_send R_rma R_glop R_refl split: if_splits)
  with r show ?thesis by (rule R_trans)
qed

lemma wake_in_R:
  assumes "wake_in glop hs ow n rest = retR n'" "\<And>n'. rest n = retR n' \<Longrightarrow> R n n'"
  shows "R n n'"
  using assms by (auto simp: wake_in_def split: list.splits intro: R_trans[OF R_pop_in wake_up_R])

lemma wake_out_R:
  assumes "wake_out glop hs ow n rest = retR n'" "\<And>n'. rest n = retR n' \<Longrightarrow> R n n'"
  shows "R n n'"
  using assms by (auto simp: wake_out_def split: list.splits intro: R_trans[OF R_pop_out wake_up_R])

lemma free_link_R:
  assumes h: "free_link glop hs rest_in rest_out l t n = retR n'"
    and rest: "\<And>ow n n'. rest_in ow n = retR n' \<Longrightarrow> R n n'" "\<And>ow n n'. rest_out ow n = retR n' \<Longrightarrow> R n n'"
  shows "R n n'"
proof -
  let ?ow = "link_info (links n l)"
  have in_half: "R n1 n3"
    if "bindR (liftR (put_back_out ?ow ol n1)) (\<lambda>n2. wake_out glop hs ?ow n2 retR) = retR n3" for ol n1 n3
  proof -
    from that obtain n2 where p: "put_back_out ?ow ol n1 = Inr n2" and w: "wake_out glop hs ?ow n2 retR = retR n3"
      unfolding bindR_eq_retR liftR_def Some_eq_retR by blast
    have "R n2 n3" by (rule wake_out_R[OF w]) (simp add: R_refl)
    with R_put_out[OF p] show ?thesis by (rule R_trans)
  qed
  have out_half: "R n1 n3"
    if "bindR (liftR (put_back_in ?ow ol n1)) (\<lambda>n2. wake_in glop hs ?ow n2 retR) = retR n3" for ol n1 n3
  proof -
    from that obtain n2 where p: "put_back_in ?ow ol n1 = Inr n2" and w: "wake_in glop hs ?ow n2 retR = retR n3"
      unfolding bindR_eq_retR liftR_def Some_eq_retR by blast
    have "R n2 n3" by (rule wake_in_R[OF w]) (simp add: R_refl)
    with R_put_in[OF p] show ?thesis by (rule R_trans)
  qed
  show ?thesis
  proof (cases "link_type (links n l)")
    case IN_LINK
    with h obtain n1 n3 where s: "put_back_in ?ow (Some l) n = Inr n1"
      "(if half_duplex_links (pools n1 ?ow)
        then bindR (liftR (put_back_out ?ow (partner_hd_link (threads n1 t)) n1)) (\<lambda>n2. wake_out glop hs ?ow n2 retR)
        else retR n1) = retR n3" "wake_in glop hs ?ow n3 (rest_in ?ow) = retR n'"
      unfolding free_link_def Let_def by (auto simp only: dir.case liftR_def bindR_eq_retR Some_eq_retR)
    have "R n1 n3" using s(2) in_half R_refl by (cases "half_duplex_links (pools n1 ?ow)") simp_all
    moreover have "R n3 n'" by (rule wake_in_R[OF s(3)]) (rule rest(1))
    ultimately show ?thesis using R_trans R_put_in[OF s(1)] by blast
  next
    case OUT_LINK
    with h obtain n1 n3 where s: "put_back_out ?ow (Some l) n = Inr n1"
      "(if half_duplex_links (pools n1 ?ow)
        then bindR (liftR (put_back_in ?ow (local_hd_link (threads n1 t)) n1)) (\<lambda>n2. wake_in glop hs ?ow n2 retR)
        else retR n1) = retR n3" "wake_out glop hs ?ow n3 (rest_out ?ow) = retR n'"
      unfolding free_link_def Let_def by (auto simp only: dir.case liftR_def bindR_eq_retR Some_eq_retR)
    have "R n1 n3" using s(2) out_half R_refl by (cases "half_duplex_links (pools n1 ?ow)") simp_all
    moreover have "R n3 n'" by (rule wake_out_R[OF s(3)]) (rule rest(2))
    ultimately show ?thesis using R_trans R_put_out[OF s(1)] by blast
  qed
qed

lemma free_simple_R: "free_link glop hs (\<lambda>_. retR) (\<lambda>_. retR) l t n = retR n' \<Longrightarrow> R n n'"
  by (erule free_link_R) (auto intro: R_refl)

lemma free_mem_R: "LINKS_free_mem_link hs l t n = retR n' \<Longrightarrow> R n n'"
  unfolding LINKS_free_mem_link_def by (rule free_simple_R)

lemma free_wan_R: "LINKS_free_wan_link hs l t n = retR n' \<Longrightarrow> R n n'"
  unfolding LINKS_free_wan_link_def by (rule free_simple_R)

lemma free_dedicated_R: "LINKS_free_dedicated_connection_link hs l t n = retR n' \<Longrightarrow> R n n'"
  unfolding LINKS_free_dedicated_connection_link_def by (rule free_simple_R)

lemma free_acc_R: "LINKS_free_acc_link hs l t n = retR n' \<Longrightarrow> R n n'"
  unfolding LINKS_free_acc_link_def by (rule free_simple_R)

lemma port_or_copy_R: "wake_port_or_copy hs d ow n = retR n' \<Longrightarrow> R n n'"
  by (auto simp: wake_port_or_copy_def intro: R_port R_copy R_refl split: list.split_asm)

lemma free_network_R: "LINKS_free_network_link hs l t n = retR n' \<Longrightarrow> R n n'"
  unfolding LINKS_free_network_link_def by (erule free_link_R) (auto intro: port_or_copy_R)

end

end
