(* ===== verification/LinkProps.thy ===== *)
theory LinkProps
  imports Links
begin

text \<open>
  The properties of the link protocols of theory \<open>Links\<close>, over a small example network for the
  witnesses. A request has two good outcomes: the thread has both links, or it is at the end of
  one queue. The last theorems show the states in which the network protocol of
  \<^verbatim>\<open>model/links.c\<close> goes wrong.
\<close>

section \<open>An example network\<close>

text \<open>
  Tasks 1 and 2 on node 1 of a machine, task 0 on node 0. Node 0 has the output link 10 and the input link 20,
  node 1 the links 11 and 21; node 2 has infinitely many links. Task \<open>i\<close> has one link of
  each direction, \<open>30 + i\<close> and \<open>40 + i\<close>; the machine has the links 50 and 60.
\<close>

definition ex_pool :: "lid list \<Rightarrow> lid list \<Rightarrow> bool \<Rightarrow> pool" where
  "ex_pool i out half = \<lparr>free_in_links = i, free_out_links = out, busy_in_links = [], busy_out_links = [],
     th_for_in = [], th_for_out = [], half_duplex_links = half, wait_inlink_port = [],
     wait_outlink_port = [], wait_in_copy_segment = [], wait_out_copy_segment = []\<rparr>"

definition ex_thread :: "tid \<Rightarrow> t_thread" where
  "ex_thread t = \<lparr>task_of = int t, act = A_SEND, original_thread = True, last_paraver = 0,
     initial_wait_link_time = 0, block_due_link = 0, local_link = None, partner_link = None,
     local_hd_link = None, partner_hd_link = None, partner_node = None, port_send_link = L_NIL,
     port_recv_link = L_NIL, copy_segment_link_source = L_NIL, copy_segment_link_dest = L_NIL\<rparr>"

definition ex_links :: "lid \<Rightarrow> t_link" where
  "ex_links l = \<lparr>link_info = (if l < 20 then NodePool (l - 10) else if l < 30 then NodePool (l - 20)
       else if l < 40 then TaskPool (int (l - 30)) else if l < 50 then TaskPool (int (l - 40)) else MachinePool 0),
     link_type = (if l < 20 \<or> 30 \<le> l \<and> l < 40 \<or> l = 50 then OUT_LINK else IN_LINK),
     link_thread = None, assigned_on = 0\<rparr>"

definition ex_pools :: "bool \<Rightarrow> owner \<Rightarrow> pool" where
  "ex_pools half ow = (case ow of
     NodePool k \<Rightarrow> if k = 0 then ex_pool [20] [10] half else if k = 1 then ex_pool [21] [11] half else ex_pool [] [] half
   | TaskPool i \<Rightarrow> if i = 0 then ex_pool [40] [30] half else if i = 1 then ex_pool [41] [31] half
                   else if i = 2 then ex_pool [42] [32] half else ex_pool [] [] half
   | MachinePool k \<Rightarrow> if k = 0 then ex_pool [60] [50] half else ex_pool [] [] half
   | ConnPool c \<Rightarrow> ex_pool [] [] half)"

definition ex_net :: "bool \<Rightarrow> net" where
  "ex_net half = \<lparr>current_time = 5, Event_queue = [], are_only_daemons = 0, next_ev = 0, in_process = None,
     thread_event = (\<lambda>_. None), loose_cpu = (\<lambda>_. False), next_event_timer = (\<lambda>_. 0), reload_done = False,
     pools = ex_pools half, links = ex_links, threads = ex_thread,
     node_of_task = (\<lambda>i. if i = 2 then 1 else nat i), machine_of_node = (\<lambda>_. 0), comm_policy = (\<lambda>_. COMMUNIC_FIFO),
     infinite_mem_links = (\<lambda>_. False), infinite_net_links = (\<lambda>k. k = 2), conn_ends = (\<lambda>_. (0, 0))\<rparr>"

lemmas ex_net_defs = ex_net_def ex_pools_def ex_pool_def ex_links_def ex_thread_def

lemma ex_net_ok: "net_ok (ex_net half)"
  by (auto simp: net_ok_def balanced_def ex_net_defs split: owner.splits)

lemma ex_net_wf: "wf_links (ex_net half)"
  by (auto simp: wf_links_def pool_links_def ex_net_defs split: owner.splits)

lemma ex_net_owners: "owners_wait_but T (ex_net half)"
  by (auto simp: owners_wait_but_def ex_net_defs)

lemma ex_net_own: "own_link t nd (ex_net half)"
  by (simp add: own_link_def ex_net_defs)

section \<open>Requests\<close>



text \<open>
  Property C10. The request for the two memory links of a message between two tasks of a node ends
  with an answer, in spite of its jumps between two labels. It keeps every link and the
  balance of half duplex tasks, and takes the links in a fixed order: when the thread ends up
  waiting for the link it asks for first (the one of the task with the smaller number, when one of
  the two is half duplex), it has not taken the other one. In a node with unlimited memory links it
  takes none and is always granted.
\<close>

theorem mem_links_ordered:
  assumes "net_ok n" "ts \<noteq> tr" "node_of_task n ts = node_of_task n tr"
  shows "\<exists>b n'. LINKS_get_mem_links t ts tr n = retR (b, n') \<and> keeps n n' \<and>
    (if infinite_mem_links n (node_of_task n ts) then b \<and> n' = n
     else if b then local_link (threads n' t) \<noteq> None \<and> partner_link (threads n' t) \<noteq> None
     else (waits_at t (TaskPool ts) OUT_LINK n n' \<and> local_link (threads n' t) = None \<and>
             (\<not> mem_swapped ts tr n \<longrightarrow> partner_link (threads n' t) = partner_link (threads n t)))
        \<or> (waits_at t (TaskPool tr) IN_LINK n n' \<and> partner_link (threads n' t) = None \<and>
             (mem_swapped ts tr n \<longrightarrow> local_link (threads n' t) = local_link (threads n t))))"
proof (cases "infinite_mem_links n (node_of_task n ts)")
  case True
  with LINKS_get_mem_links_infinite[of n ts tr t] assms(3) show ?thesis by auto
next
  case False
  with LINKS_get_mem_links_effect[OF assms(1,2), of t] assms(3) obtain b n'
    where "LINKS_get_mem_links t ts tr n = retR (b, n')" "mem_outcome t ts tr n b n'" by auto
  with False show ?thesis
    by (intro exI[of _ b] exI[of _ n']) (auto simp: mem_outcome_def granted_def)
qed

theorem mem_links_ordered_witness:
  "\<exists>b n'. LINKS_get_mem_links 0 2 1 (ex_net True) = retR (b, n') \<and> keeps (ex_net True) n' \<and>
    (if infinite_mem_links (ex_net True) (node_of_task (ex_net True) 2) then b \<and> n' = ex_net True
     else if b then local_link (threads n' 0) \<noteq> None \<and> partner_link (threads n' 0) \<noteq> None
     else (waits_at 0 (TaskPool 2) OUT_LINK (ex_net True) n' \<and> local_link (threads n' 0) = None \<and>
             (\<not> mem_swapped 2 1 (ex_net True) \<longrightarrow> partner_link (threads n' 0) = partner_link (threads (ex_net True) 0)))
        \<or> (waits_at 0 (TaskPool 1) IN_LINK (ex_net True) n' \<and> partner_link (threads n' 0) = None \<and>
             (mem_swapped 2 1 (ex_net True) \<longrightarrow> local_link (threads n' 0) = local_link (threads (ex_net True) 0))))"
  by (rule mem_links_ordered[OF ex_net_ok]) (simp_all add: ex_net_def)

text \<open>
  The request for the links of two machines always returns, keeps every link, and
  grants both links or leaves the thread at the end of one queue; it also takes the links in a
  fixed order, by the number of the machine when one of the two is half duplex.
\<close>

theorem wan_links_ordered:
  assumes "net_ok n"
  shows "\<exists>b n'. LINKS_get_wan_links t s d n = Inr (b, n') \<and> keeps n n' \<and>
    (if b then local_link (threads n' t) \<noteq> None \<and> partner_link (threads n' t) \<noteq> None
     else (waits_at t (MachinePool s) OUT_LINK n n' \<and> local_link (threads n' t) = None \<and>
             (\<not> wan_swapped s d n \<longrightarrow> partner_link (threads n' t) = partner_link (threads n t)))
        \<or> (waits_at t (MachinePool d) IN_LINK n n' \<and> partner_link (threads n' t) = None \<and>
             (wan_swapped s d n \<longrightarrow> local_link (threads n' t) = local_link (threads n t))))"
proof -
  obtain b n' where "LINKS_get_wan_links t s d n = Inr (b, n')" "keeps n n'" "b \<longrightarrow> granted t n'"
    "\<not> b \<longrightarrow> (waits_at t (MachinePool s) OUT_LINK n n' \<and> local_link (threads n' t) = None \<and>
                 (\<not> wan_swapped s d n \<longrightarrow> partner_link (threads n' t) = partner_link (threads n t)))
           \<or> (waits_at t (MachinePool d) IN_LINK n n' \<and> partner_link (threads n' t) = None \<and>
                 (wan_swapped s d n \<longrightarrow> local_link (threads n' t) = local_link (threads n t)))"
    using LINKS_get_wan_links_effect[OF assms, of t s d] by blast
  then show ?thesis
    by (intro exI[of _ b] exI[of _ n']) (auto simp: granted_def)
qed

theorem wan_links_ordered_witness:
  "\<exists>b n'. LINKS_get_wan_links 0 0 1 (ex_net False) = Inr (b, n') \<and> keeps (ex_net False) n' \<and>
    (if b then local_link (threads n' 0) \<noteq> None \<and> partner_link (threads n' 0) \<noteq> None
     else (waits_at 0 (MachinePool 0) OUT_LINK (ex_net False) n' \<and> local_link (threads n' 0) = None \<and>
             (\<not> wan_swapped 0 1 (ex_net False) \<longrightarrow> partner_link (threads n' 0) = partner_link (threads (ex_net False) 0)))
        \<or> (waits_at 0 (MachinePool 1) IN_LINK (ex_net False) n' \<and> partner_link (threads n' 0) = None \<and>
             (wan_swapped 0 1 (ex_net False) \<longrightarrow> local_link (threads n' 0) = local_link (threads (ex_net False) 0))))"
  by (rule wan_links_ordered[OF ex_net_ok])

section \<open>Where the network protocol goes wrong\<close>

text \<open>
  A sender to a node with unlimited links keeps the last output link of its
  own node without having a partner link. The next sender of that node takes it for a thread that
  waits for its partner, wants to find it in the queue of a partner node it no longer has, and
  dereferences NULL. So two messages in transit from a node with one limited output link, the first one
  to a node with unlimited links, end the simulator.
\<close>

theorem theft_from_a_granted_sender_crashes:
  assumes "nd \<noteq> np" "\<not> infinite_net_links n nd" "infinite_net_links n np"
    and "free_out_links (pools n (NodePool nd)) = [l]" "busy_out_links (pools n (NodePool nd)) = []"
    and "\<not> half_duplex_links (pools n (NodePool nd))"
    and "local_link (threads n c) = None" "partner_link (threads n c) = None"
    and "t \<noteq> c" "local_link (threads n t) = None" "np' \<noteq> nd"
  shows "\<exists>n'. LINKS_get_network_links c nd np n = Inr (True, n') \<and>
    LINKS_get_network_links t nd np' n' = Inl NullDeref"
  using assms
  by (simp add: LINKS_get_network_links_def take_out_def take_hd_in_def get_network_in_def reserved_def
      roba_out_link_def robbable_iff set_owner_def)

theorem theft_from_a_granted_sender_crashes_witness:
  "\<exists>n'. LINKS_get_network_links 0 0 2 (ex_net False) = Inr (True, n') \<and>
    LINKS_get_network_links 3 0 1 n' = Inl NullDeref"
  by (rule theft_from_a_granted_sender_crashes[where l = 10]) (simp_all add: ex_net_defs)

text \<open>
  A thread whose node has no free output link but one that could be taken over, and
  whose partner node has unlimited links, is told that its links are reserved although it has no
  output link: the taking over that was tested is never carried out.
\<close>

theorem granted_without_an_output_link:
  assumes "nd \<noteq> np" "\<not> infinite_net_links n nd" "infinite_net_links n np"
    and "free_out_links (pools n (NodePool nd)) = []" "local_link (threads n t) = None"
    and "owners_wait_but {t} n" "can_rob nd OUT_LINK n"
  shows "\<exists>n'. LINKS_get_network_links t nd np n = Inr (True, n') \<and> local_link (threads n' t) = None \<and>
    pools n' = pools n"
proof -
  let ?n0 = "upd_thread t (\<lambda>th. th\<lparr>partner_node := Some np\<rparr>) n"
  have "owners_wait_but {t} ?n0"
    by (rule owners_wait_step[OF assms(6)]) (auto simp: same_config_def split: if_splits)
  moreover have "not_victim t nd ?n0" using assms(5) by (simp add: not_victim_def)
  ultimately have "roba_out_link t nd OUT_LINK True ?n0 = Inr (can_rob nd OUT_LINK ?n0, ?n0)"
    by (rule roba_test)
  moreover have "can_rob nd OUT_LINK ?n0" using assms(7) by (auto simp: can_rob_def robbable_iff)
  ultimately show ?thesis using assms(1-5)
    by (simp add: LINKS_get_network_links_def take_out_def get_network_in_def reserved_def)
qed

text \<open>The example network after thread 3 got the link 10 of node 0 and began to wait at node 1.\<close>

definition ex_waiting :: net where
  "ex_waiting =
     upd_thread 3 (\<lambda>th. th\<lparr>local_link := Some 10, partner_node := Some 1\<rparr>)
     (upd_link 10 (\<lambda>k. k\<lparr>link_thread := Some 3\<rparr>)
     (upd_pool (NodePool 0) (\<lambda>p. p\<lparr>free_out_links := [], busy_out_links := [10]\<rparr>)
     (upd_pool (NodePool 1) (\<lambda>p. p\<lparr>free_in_links := [], busy_in_links := [21], th_for_in := [3]\<rparr>) (ex_net False))))"

theorem granted_without_an_output_link_witness:
  "\<exists>n'. LINKS_get_network_links 0 0 2 ex_waiting = Inr (True, n') \<and> local_link (threads n' 0) = None \<and>
    pools n' = pools ex_waiting"
  by (rule granted_without_an_output_link)
    (simp_all add: ex_waiting_def ex_net_defs owners_wait_but_def waits_for_partner_def can_rob_def robbable_iff
      split: owner.splits)

text \<open>
  The links of a port (and likewise those of a copy) are taken from the free queue
  without entering the busy queue, so releasing one of them panics: \<open>extract_from_queue\<close> does not
  find it.
\<close>

theorem port_link_release_panics:
  assumes "wf_links n" "ns \<noteq> nr" "port_send_link (threads n ts) = L_NIL"
    and "LINKS_get_port_links ts ns tr nr n = (True, n')" "ts \<noteq> tr" "port_send_link (threads n' ts) = Lk l"
  shows "LINKS_free_network_link hs l ts n' = failR (Panic ''Can't find element to extract from queue'')"
proof -
  obtain ls where f: "free_out_links (pools n (NodePool ns)) = l # ls"
    using assms(2-6) by (cases "free_out_links (pools n (NodePool ns))")
      (auto simp: LINKS_get_port_links_def slot_take_def Let_def split: if_splits list.splits)
  have "l \<notin> set (busy_out_links (pools n (NodePool ns)))"
  proof
    assume "l \<in> set (busy_out_links (pools n (NodePool ns)))"
    then have "1 \<le> count (mset (busy_out_links (pools n (NodePool ns)))) l"
      by (simp add: Suc_le_eq)
    then have "2 \<le> count (snd (pool_links (pools n (NodePool ns)))) l"
      by (simp add: pool_links_def f trans_le_add2)
    moreover have "count (snd (pool_links (pools n (NodePool ns)))) l \<le> 1"
      using assms(1) by (simp add: wf_links_def)
    ultimately show False by simp
  qed
  moreover have "l \<in># snd (pool_links (pools n (NodePool ns)))" by (simp add: pool_links_def f)
  then have "link_info (links n l) = NodePool ns" "link_type (links n l) = OUT_LINK"
    using assms(1) unfolding wf_links_def by blast+
  moreover have "links n' = links n" "busy_out_links (pools n' (NodePool ns)) = busy_out_links (pools n (NodePool ns))"
    using assms(2-5) f by (auto simp: LINKS_get_port_links_def slot_take_def Let_def split: if_splits list.splits slot.splits)
  ultimately show ?thesis
    by (simp add: LINKS_free_network_link_def free_link_def put_back_out_def q_extract_def liftR_def bindR_def failR_def)
qed

definition no_handlers :: "net handlers" where
  "no_handlers = \<lparr>really_send = (\<lambda>_. retR), really_RMA = (\<lambda>_. retR), global_op_reserva_links = (\<lambda>_. retR),
     really_port_send = (\<lambda>_. retR), really_copy_segment = (\<lambda>_. retR)\<rparr>"

theorem port_link_release_panics_witness:
  "LINKS_free_network_link no_handlers 10 0 (snd (LINKS_get_port_links 0 0 1 1 (ex_net False))) =
     failR (Panic ''Can't find element to extract from queue'')"
  by (rule port_link_release_panics[OF ex_net_wf, where ns = 0 and nr = 1 and tr = 1])
    (simp_all add: ex_net_defs LINKS_get_port_links_def slot_take_def)

end
