(* ===== verification/EventEncoding.thy ===== *)
theory EventEncoding
  imports Prelude
begin

text \<open>
  \<^verbatim>\<open>common_utilities/EventEncoding.c\<close> and \<^verbatim>\<open>common_utilities/Dimemas2Prv.c\<close>: the numbers of events and blocks that
  the traces of Paraver and Dimemas use, and the questions the simulator asks about events of CUDA and
  OpenCL. The tables are written out with the numbers of the enumerations of \<^verbatim>\<open>EventEncoding.h\<close>. The functions
  that write the definition file of Paraver are left out. An enumeration without negative values is unsigned, so
  an operation or a block is a natural number. \<open>long long\<close> values are integers.
\<close>

section \<open>Types of events\<close>

definition MPITYPE_PTOP :: int where "MPITYPE_PTOP = 50000001"
definition MPITYPE_COLLECTIVE :: int where "MPITYPE_COLLECTIVE = 50000002"
definition MPITYPE_OTHER :: int where "MPITYPE_OTHER = 50000003"
definition MPITYPE_RMA :: int where "MPITYPE_RMA = 50000004"
definition MPITYPE_COMM :: int where "MPITYPE_COMM = MPITYPE_OTHER"
definition MPITYPE_GROUP :: int where "MPITYPE_GROUP = MPITYPE_OTHER"
definition MPITYPE_TOPOLOGIES :: int where "MPITYPE_TOPOLOGIES = MPITYPE_OTHER"
definition MPITYPE_TYPE :: int where "MPITYPE_TYPE = MPITYPE_OTHER"
definition MPITYPE_IO :: int where "MPITYPE_IO = 50000005"
definition IO_READ_EV :: int where "IO_READ_EV = 40000016"
definition IO_WRITE_EV :: int where "IO_WRITE_EV = 40000017"
definition IO_EV :: int where "IO_EV = 40000018"
definition USER_FUNCTION :: int where "USER_FUNCTION = 60000019"
definition USER_CALL :: int where "USER_CALL = 60000020"
definition USER_BLOCK :: int where "USER_BLOCK = 60000021"
definition CLUSTER_ID_EV :: int where "CLUSTER_ID_EV = 90000001"
definition LAPI_EV :: int where "LAPI_EV = 30000000"
definition BASE_USERFUNCTION :: int where "BASE_USERFUNCTION = 200"
definition BASE_CLUSTER_BLOCK :: int where "BASE_CLUSTER_BLOCK = 1000"
definition BASE_USERCALL :: int where "BASE_USERCALL = 10000"
definition BASE_USERBLOCK :: int where "BASE_USERBLOCK = 20000"
definition CUDA_LIB_CALL_EV :: int where "CUDA_LIB_CALL_EV = 63000001"
definition OCL_HOST_CALL_EV :: int where "OCL_HOST_CALL_EV = 64000000"
definition OCL_ACCELERATOR_CALL_EV :: int where "OCL_ACCELERATOR_CALL_EV = 64100000"
definition OCL_KERNEL_NAME_EV :: int where "OCL_KERNEL_NAME_EV = 64200000"
definition CUDA_TAG :: int where "CUDA_TAG = 49370"
definition OCL_TAG :: int where "OCL_TAG = 3121"

lemmas event_types = MPITYPE_PTOP_def MPITYPE_COLLECTIVE_def MPITYPE_OTHER_def MPITYPE_RMA_def MPITYPE_COMM_def MPITYPE_GROUP_def MPITYPE_TOPOLOGIES_def MPITYPE_TYPE_def MPITYPE_IO_def IO_READ_EV_def IO_WRITE_EV_def IO_EV_def USER_FUNCTION_def USER_CALL_def USER_BLOCK_def CLUSTER_ID_EV_def LAPI_EV_def BASE_USERFUNCTION_def BASE_CLUSTER_BLOCK_def BASE_USERCALL_def BASE_USERBLOCK_def CUDA_LIB_CALL_EV_def OCL_HOST_CALL_EV_def OCL_ACCELERATOR_CALL_EV_def OCL_KERNEL_NAME_EV_def CUDA_TAG_def OCL_TAG_def

section \<open>Operations of MPI\<close>

text \<open>
  \<open>MPI_Enable\<close>: the type of the event, the operation, its label and its block. Whether an operation is
  enabled changes and is not part of the table.
\<close>

datatype MPI_Enable = MPI_Enable (mpi_type: int) (mpi_op: nat) (mpi_label: string) (mpi_block: nat)

definition MPI_Table_0 :: "MPI_Enable list" where
  "MPI_Table_0 = [
     MPI_Enable 0 0 ''End'' 0,
     MPI_Enable MPITYPE_PTOP 1 ''MPI_Send'' 1,
     MPI_Enable MPITYPE_PTOP 2 ''MPI_Recv'' 2,
     MPI_Enable MPITYPE_PTOP 3 ''MPI_Isend'' 3,
     MPI_Enable MPITYPE_PTOP 4 ''MPI_Irecv'' 4,
     MPI_Enable MPITYPE_PTOP 5 ''MPI_Wait'' 5,
     MPI_Enable MPITYPE_PTOP 6 ''MPI_Waitall'' 6,
     MPI_Enable MPITYPE_COLLECTIVE 7 ''MPI_Bcast'' 7,
     MPI_Enable MPITYPE_COLLECTIVE 8 ''MPI_Barrier'' 8,
     MPI_Enable MPITYPE_COLLECTIVE 9 ''MPI_Reduce'' 9,
     MPI_Enable MPITYPE_COLLECTIVE 10 ''MPI_Allreduce'' 10,
     MPI_Enable MPITYPE_COLLECTIVE 11 ''MPI_Alltoall'' 11,
     MPI_Enable MPITYPE_COLLECTIVE 12 ''MPI_Alltoallv'' 12,
     MPI_Enable MPITYPE_COLLECTIVE 13 ''MPI_Gather'' 13,
     MPI_Enable MPITYPE_COLLECTIVE 14 ''MPI_Gatherv'' 14,
     MPI_Enable MPITYPE_COLLECTIVE 15 ''MPI_Scatter'' 15,
     MPI_Enable MPITYPE_COLLECTIVE 16 ''MPI_Scatterv'' 16,
     MPI_Enable MPITYPE_COLLECTIVE 17 ''MPI_Allgather'' 17,
     MPI_Enable MPITYPE_COLLECTIVE 18 ''MPI_Allgatherv'' 18,
     MPI_Enable MPITYPE_COMM 19 ''MPI_Comm_rank'' 19,
     MPI_Enable MPITYPE_COMM 20 ''MPI_Comm_size'' 20,
     MPI_Enable MPITYPE_COMM 21 ''MPI_Comm_create'' 21,
     MPI_Enable MPITYPE_COMM 22 ''MPI_Comm_dup'' 22,
     MPI_Enable MPITYPE_COMM 23 ''MPI_Comm_split'' 23,
     MPI_Enable MPITYPE_COMM 24 ''MPI_Comm_group'' 24,
     MPI_Enable MPITYPE_COMM 25 ''MPI_Comm_free'' 25,
     MPI_Enable MPITYPE_COMM 26 ''MPI_Comm_remote_group'' 26,
     MPI_Enable MPITYPE_COMM 27 ''MPI_Comm_remote_size'' 27]"

definition MPI_Table_1 :: "MPI_Enable list" where
  "MPI_Table_1 = [
     MPI_Enable MPITYPE_COMM 28 ''MPI_Comm_test_inter'' 28,
     MPI_Enable MPITYPE_COMM 29 ''MPI_Comm_compare'' 29,
     MPI_Enable MPITYPE_COLLECTIVE 30 ''MPI_Scan'' 30,
     MPI_Enable MPITYPE_OTHER 31 ''MPI_Init'' 31,
     MPI_Enable MPITYPE_OTHER 32 ''MPI_Finalize'' 32,
     MPI_Enable MPITYPE_PTOP 33 ''MPI_Bsend'' 33,
     MPI_Enable MPITYPE_PTOP 34 ''MPI_Ssend'' 34,
     MPI_Enable MPITYPE_PTOP 35 ''MPI_Rsend'' 35,
     MPI_Enable MPITYPE_PTOP 36 ''MPI_Ibsend'' 36,
     MPI_Enable MPITYPE_PTOP 37 ''MPI_Issend'' 37,
     MPI_Enable MPITYPE_PTOP 38 ''MPI_Irsend'' 38,
     MPI_Enable MPITYPE_PTOP 39 ''MPI_Test'' 39,
     MPI_Enable MPITYPE_PTOP 40 ''MPI_Cancel'' 40,
     MPI_Enable MPITYPE_PTOP 41 ''MPI_Sendrecv'' 41,
     MPI_Enable MPITYPE_PTOP 42 ''MPI_Sendrecv_replace'' 42,
     MPI_Enable MPITYPE_TOPOLOGIES 43 ''MPI_Cart_create'' 43,
     MPI_Enable MPITYPE_TOPOLOGIES 44 ''MPI_Cart_shift'' 44,
     MPI_Enable MPITYPE_TOPOLOGIES 45 ''MPI_Cart_coords'' 45,
     MPI_Enable MPITYPE_TOPOLOGIES 46 ''MPI_Cart_get'' 46,
     MPI_Enable MPITYPE_TOPOLOGIES 47 ''MPI_Cart_map'' 47,
     MPI_Enable MPITYPE_TOPOLOGIES 48 ''MPI_Cart_rank'' 48,
     MPI_Enable MPITYPE_TOPOLOGIES 49 ''MPI_Cart_sub'' 49,
     MPI_Enable MPITYPE_TOPOLOGIES 50 ''MPI_Cartdim_get'' 50,
     MPI_Enable MPITYPE_TOPOLOGIES 51 ''MPI_Dims_create'' 51,
     MPI_Enable MPITYPE_TOPOLOGIES 52 ''MPI_Graph_get'' 52,
     MPI_Enable MPITYPE_TOPOLOGIES 53 ''MPI_Graph_map'' 53,
     MPI_Enable MPITYPE_TOPOLOGIES 54 ''MPI_Graph_create'' 54,
     MPI_Enable MPITYPE_TOPOLOGIES 55 ''MPI_Graph_neighbors'' 55]"

definition MPI_Table_2 :: "MPI_Enable list" where
  "MPI_Table_2 = [
     MPI_Enable MPITYPE_TOPOLOGIES 56 ''MPI_Graphdims_get'' 56,
     MPI_Enable MPITYPE_TOPOLOGIES 57 ''MPI_Graph_neighbors_count'' 57,
     MPI_Enable MPITYPE_TOPOLOGIES 58 ''MPI_Topo_test'' 58,
     MPI_Enable MPITYPE_PTOP 59 ''MPI_Waitany'' 59,
     MPI_Enable MPITYPE_PTOP 60 ''MPI_Waitsome'' 60,
     MPI_Enable MPITYPE_PTOP 61 ''MPI_Probe'' 61,
     MPI_Enable MPITYPE_PTOP 62 ''MPI_Iprobe'' 62,
     MPI_Enable MPITYPE_RMA 63 ''MPI_Win_create'' 63,
     MPI_Enable MPITYPE_RMA 64 ''MPI_Win_free'' 64,
     MPI_Enable MPITYPE_RMA 65 ''MPI_Put'' 65,
     MPI_Enable MPITYPE_RMA 66 ''MPI_Get'' 66,
     MPI_Enable MPITYPE_RMA 67 ''MPI_Accumulate'' 67,
     MPI_Enable MPITYPE_RMA 68 ''MPI_Win_fence'' 68,
     MPI_Enable MPITYPE_RMA 69 ''MPI_Win_complete'' 69,
     MPI_Enable MPITYPE_RMA 70 ''MPI_Win_start'' 70,
     MPI_Enable MPITYPE_RMA 71 ''MPI_Win_post'' 71,
     MPI_Enable MPITYPE_RMA 72 ''MPI_Win_wait'' 72,
     MPI_Enable MPITYPE_RMA 73 ''MPI_Win_test'' 73,
     MPI_Enable MPITYPE_RMA 74 ''MPI_Win_lock'' 74,
     MPI_Enable MPITYPE_RMA 75 ''MPI_Win_unlock'' 75,
     MPI_Enable MPITYPE_OTHER 76 ''MPI_Pack'' 76,
     MPI_Enable MPITYPE_OTHER 77 ''MPI_Unpack'' 77,
     MPI_Enable MPITYPE_OTHER 78 ''MPI_Op_create'' 78,
     MPI_Enable MPITYPE_OTHER 79 ''MPI_Op_free'' 79,
     MPI_Enable MPITYPE_COLLECTIVE 80 ''MPI_Reduce_scatter'' 80,
     MPI_Enable MPITYPE_OTHER 81 ''MPI_Attr_delete'' 81,
     MPI_Enable MPITYPE_OTHER 82 ''MPI_Attr_get'' 82,
     MPI_Enable MPITYPE_OTHER 83 ''MPI_Attr_put'' 83]"

definition MPI_Table_3 :: "MPI_Enable list" where
  "MPI_Table_3 = [
     MPI_Enable MPITYPE_GROUP 84 ''MPI_Group_difference'' 84,
     MPI_Enable MPITYPE_GROUP 85 ''MPI_Group_excl'' 85,
     MPI_Enable MPITYPE_GROUP 86 ''MPI_Group_free'' 86,
     MPI_Enable MPITYPE_GROUP 87 ''MPI_Group_incl'' 87,
     MPI_Enable MPITYPE_GROUP 88 ''MPI_Group_intersection'' 88,
     MPI_Enable MPITYPE_GROUP 89 ''MPI_Group_rank'' 89,
     MPI_Enable MPITYPE_GROUP 90 ''MPI_Group_range_excl'' 90,
     MPI_Enable MPITYPE_GROUP 91 ''MPI_Group_range_incl'' 91,
     MPI_Enable MPITYPE_GROUP 92 ''MPI_Group_size'' 92,
     MPI_Enable MPITYPE_GROUP 93 ''MPI_Group_translate_ranks'' 93,
     MPI_Enable MPITYPE_GROUP 94 ''MPI_Group_union'' 94,
     MPI_Enable MPITYPE_GROUP 95 ''MPI_Group_compare'' 95,
     MPI_Enable MPITYPE_OTHER 96 ''MPI_Intercomm_create'' 96,
     MPI_Enable MPITYPE_OTHER 97 ''MPI_Intercomm_merge'' 97,
     MPI_Enable MPITYPE_OTHER 98 ''MPI_Keyval_free'' 98,
     MPI_Enable MPITYPE_OTHER 99 ''MPI_Keyval_create'' 99,
     MPI_Enable MPITYPE_OTHER 100 ''MPI_Abort'' 100,
     MPI_Enable MPITYPE_OTHER 101 ''MPI_Error_class'' 101,
     MPI_Enable MPITYPE_OTHER 102 ''MPI_Errhandler_create'' 102,
     MPI_Enable MPITYPE_OTHER 103 ''MPI_Errhandler_free'' 103,
     MPI_Enable MPITYPE_OTHER 104 ''MPI_Errhandler_get'' 104,
     MPI_Enable MPITYPE_OTHER 105 ''MPI_Error_string'' 105,
     MPI_Enable MPITYPE_OTHER 106 ''MPI_Errhandler_set'' 106,
     MPI_Enable MPITYPE_OTHER 107 ''MPI_Get_processor_name'' 107,
     MPI_Enable MPITYPE_OTHER 108 ''MPI_Initialized'' 108,
     MPI_Enable MPITYPE_OTHER 109 ''MPI_Wtick'' 109,
     MPI_Enable MPITYPE_OTHER 110 ''MPI_Wtime'' 110,
     MPI_Enable MPITYPE_OTHER 111 ''MPI_Address'' 111]"

definition MPI_Table_4 :: "MPI_Enable list" where
  "MPI_Table_4 = [
     MPI_Enable MPITYPE_OTHER 112 ''MPI_Bsend_init'' 112,
     MPI_Enable MPITYPE_OTHER 113 ''MPI_Buffer_attach'' 113,
     MPI_Enable MPITYPE_OTHER 114 ''MPI_Buffer_detach'' 114,
     MPI_Enable MPITYPE_OTHER 115 ''MPI_Request_free'' 115,
     MPI_Enable MPITYPE_OTHER 116 ''MPI_Recv_init'' 116,
     MPI_Enable MPITYPE_OTHER 117 ''MPI_Send_init'' 117,
     MPI_Enable MPITYPE_OTHER 118 ''MPI_Get_count'' 118,
     MPI_Enable MPITYPE_OTHER 119 ''MPI_Get_elements'' 119,
     MPI_Enable MPITYPE_OTHER 120 ''MPI_Pack_size'' 120,
     MPI_Enable MPITYPE_OTHER 121 ''MPI_Rsend_init'' 121,
     MPI_Enable MPITYPE_OTHER 122 ''MPI_Ssend_init'' 122,
     MPI_Enable MPITYPE_OTHER 123 ''MPI_Start'' 123,
     MPI_Enable MPITYPE_OTHER 124 ''MPI_Startall'' 124,
     MPI_Enable MPITYPE_PTOP 125 ''MPI_Testall'' 125,
     MPI_Enable MPITYPE_PTOP 126 ''MPI_Testany'' 126,
     MPI_Enable MPITYPE_OTHER 127 ''MPI_Test_cancelled'' 127,
     MPI_Enable MPITYPE_PTOP 128 ''MPI_Testsome'' 128,
     MPI_Enable MPITYPE_TYPE 129 ''MPI_Type_commit'' 129,
     MPI_Enable MPITYPE_TYPE 130 ''MPI_Type_contiguous'' 130,
     MPI_Enable MPITYPE_TYPE 131 ''MPI_Type_extent'' 131,
     MPI_Enable MPITYPE_TYPE 132 ''MPI_Type_free'' 132,
     MPI_Enable MPITYPE_TYPE 133 ''MPI_Type_hindexed'' 133,
     MPI_Enable MPITYPE_TYPE 134 ''MPI_Type_hvector'' 134,
     MPI_Enable MPITYPE_TYPE 135 ''MPI_Type_indexed'' 135,
     MPI_Enable MPITYPE_TYPE 136 ''MPI_Type_lb'' 136,
     MPI_Enable MPITYPE_TYPE 137 ''MPI_Type_size'' 137,
     MPI_Enable MPITYPE_TYPE 138 ''MPI_Type_struct'' 138,
     MPI_Enable MPITYPE_TYPE 139 ''MPI_Type_ub'' 139]"

definition MPI_Table_5 :: "MPI_Enable list" where
  "MPI_Table_5 = [
     MPI_Enable MPITYPE_TYPE 140 ''MPI_Type_vector'' 140,
     MPI_Enable MPITYPE_IO 141 ''MPI_File_open'' 141,
     MPI_Enable MPITYPE_IO 142 ''MPI_File_close'' 142,
     MPI_Enable MPITYPE_IO 143 ''MPI_File_read'' 143,
     MPI_Enable MPITYPE_IO 144 ''MPI_File_read_all'' 144,
     MPI_Enable MPITYPE_IO 145 ''MPI_File_write'' 145,
     MPI_Enable MPITYPE_IO 146 ''MPI_File_write_all'' 146,
     MPI_Enable MPITYPE_IO 147 ''MPI_File_read_at'' 147,
     MPI_Enable MPITYPE_IO 148 ''MPI_File_read_at_all'' 148,
     MPI_Enable MPITYPE_IO 149 ''MPI_File_write_at'' 149,
     MPI_Enable MPITYPE_IO 150 ''MPI_File_write_at_all'' 150,
     MPI_Enable MPITYPE_COMM 151 ''MPI_Comm_spawn'' 151,
     MPI_Enable MPITYPE_COMM 152 ''MPI_Comm_spawn_multiple'' 152,
     MPI_Enable MPITYPE_OTHER 153 ''MPI_Request_get_status'' 153,
     MPI_Enable MPITYPE_COLLECTIVE 154 ''MPI_Ireduce'' 154,
     MPI_Enable MPITYPE_COLLECTIVE 155 ''MPI_Iallreduce'' 155,
     MPI_Enable MPITYPE_COLLECTIVE 156 ''MPI_Ibarrier'' 156,
     MPI_Enable MPITYPE_COLLECTIVE 157 ''MPI_Ibcast'' 157,
     MPI_Enable MPITYPE_COLLECTIVE 158 ''MPI_Ialltoall'' 158,
     MPI_Enable MPITYPE_COLLECTIVE 159 ''MPI_Ialltoallv'' 159,
     MPI_Enable MPITYPE_COLLECTIVE 160 ''MPI_Iallgather'' 160,
     MPI_Enable MPITYPE_COLLECTIVE 161 ''MPI_Iallgatherv'' 161,
     MPI_Enable MPITYPE_COLLECTIVE 162 ''MPI_Igather'' 162,
     MPI_Enable MPITYPE_COLLECTIVE 163 ''MPI_Igatherv'' 163,
     MPI_Enable MPITYPE_COLLECTIVE 164 ''MPI_Iscatter'' 164,
     MPI_Enable MPITYPE_COLLECTIVE 165 ''MPI_Iscatterv'' 165,
     MPI_Enable MPITYPE_COLLECTIVE 166 ''MPI_Ireduce_scatter'' 166,
     MPI_Enable MPITYPE_COLLECTIVE 167 ''MPI_Iscan'' 167]"

definition MPI_Table_6 :: "MPI_Enable list" where
  "MPI_Table_6 = [
     MPI_Enable MPITYPE_COLLECTIVE 168 ''MPI_Reduce_scatter_block'' 168,
     MPI_Enable MPITYPE_COLLECTIVE 169 ''MPI_Ireduce_scatter_block'' 169,
     MPI_Enable MPITYPE_COLLECTIVE 170 ''MPI_Alltoallw'' 170,
     MPI_Enable MPITYPE_COLLECTIVE 171 ''MPI_Ialltoallw'' 171,
     MPI_Enable MPITYPE_RMA 172 ''MPI_Get_accumulate'' 172,
     MPI_Enable MPITYPE_TOPOLOGIES 173 ''MPI_Dist_graph_create'' 173,
     MPI_Enable MPITYPE_COLLECTIVE 174 ''MPI_Neighbor_allgather'' 174,
     MPI_Enable MPITYPE_COLLECTIVE 175 ''MPI_Ineighbor_allgather'' 175,
     MPI_Enable MPITYPE_COLLECTIVE 176 ''MPI_Neighbor_allgatherv'' 176,
     MPI_Enable MPITYPE_COLLECTIVE 177 ''MPI_Ineighbor_allgatherv'' 177,
     MPI_Enable MPITYPE_COLLECTIVE 178 ''MPI_Neighbor_alltoall'' 178,
     MPI_Enable MPITYPE_COLLECTIVE 179 ''MPI_Neighbor_alltoall'' 179,
     MPI_Enable MPITYPE_COLLECTIVE 180 ''MPI_Neighbor_alltoallv'' 180,
     MPI_Enable MPITYPE_COLLECTIVE 181 ''MPI_Ineighbor_alltoallv'' 181,
     MPI_Enable MPITYPE_COLLECTIVE 182 ''MPI_Neighbor_alltoallw'' 182,
     MPI_Enable MPITYPE_COLLECTIVE 183 ''MPI_Ineighbor_alltoallw'' 183,
     MPI_Enable MPITYPE_RMA 184 ''MPI_Fetch_and_op'' 184,
     MPI_Enable MPITYPE_RMA 185 ''MPI_Compare_and_swap'' 185,
     MPI_Enable MPITYPE_RMA 186 ''MPI_Win_flush'' 186,
     MPI_Enable MPITYPE_RMA 187 ''MPI_Win_flush_all'' 187,
     MPI_Enable MPITYPE_RMA 188 ''MPI_Win_flush_local'' 188,
     MPI_Enable MPITYPE_RMA 189 ''MPI_Win_flush_local_all'' 189,
     MPI_Enable MPITYPE_PTOP 190 ''MPI_Mprobe'' 190,
     MPI_Enable MPITYPE_PTOP 191 ''MPI_Improbe'' 191,
     MPI_Enable MPITYPE_PTOP 192 ''MPI_Mrecv'' 192,
     MPI_Enable MPITYPE_PTOP 193 ''MPI_Imrecv'' 193,
     MPI_Enable MPITYPE_OTHER 194 ''MPI_Init_thread'' 194]"

text \<open>The identifiers of the collective operations, in the order of their own enumeration.\<close>

definition BlockId2GlobalOpId :: "int list" where
  "BlockId2GlobalOpId = [-1, 0, 1, 2, 3, 4, 5, 6, 7, 8, 9, 10, 11, 12, 13, 14, 15, 16, 17, 18, 19, 12, 21, 22, 23, 24, 25, 26, 27, 28, 29, 30, 31]"

definition NUM_MPICALLS :: nat where "NUM_MPICALLS = 195"

definition MPI_Table :: "MPI_Enable list" where
  "MPI_Table = MPI_Table_0 @ MPI_Table_1 @ MPI_Table_2 @ MPI_Table_3 @ MPI_Table_4 @ MPI_Table_5 @ MPI_Table_6"

definition MPIEventEncoding_EnableOperation :: "nat \<Rightarrow> (nat \<Rightarrow> bool) \<Rightarrow> (nat \<Rightarrow> bool) res" where
  "MPIEventEncoding_EnableOperation op en =
     (if \<not> op < NUM_MPICALLS \<or> mpi_op (MPI_Table ! op) \<noteq> op then Inl AssertFailed else Inr (en(op := True)))"

definition MPIEventEncoding_DimemasBlockId :: "nat \<Rightarrow> nat res" where
  "MPIEventEncoding_DimemasBlockId op =
     (if \<not> op < NUM_MPICALLS \<or> mpi_op (MPI_Table ! op) \<noteq> op then Inl AssertFailed
      else Inr (mpi_block (MPI_Table ! op)))"

definition MPIEventEncoding_GetBlockLabel :: "nat \<Rightarrow> string res" where
  "MPIEventEncoding_GetBlockLabel op =
     (if \<not> op < NUM_MPICALLS then Inl AssertFailed else Inr (mpi_label (MPI_Table ! op)))"

text \<open>The table of the collective operations has 33 entries, but is read at any block.\<close>

definition MPIEventEncoding_GlobalOpId :: "nat \<Rightarrow> int res" where
  "MPIEventEncoding_GlobalOpId b =
     (if \<not> b < NUM_MPICALLS then Inl AssertFailed
      else if b < length BlockId2GlobalOpId then Inr (BlockId2GlobalOpId ! b) else Inl OutOfBounds)"

definition MPIEventEncoding_Is_MPIBlock :: "int \<Rightarrow> bool" where
  "MPIEventEncoding_Is_MPIBlock ty \<longleftrightarrow> ty \<in> {MPITYPE_PTOP, MPITYPE_COLLECTIVE, MPITYPE_OTHER, MPITYPE_RMA}"

definition MPIEventEncoding_Is_BlockBegin :: "int \<Rightarrow> bool" where
  "MPIEventEncoding_Is_BlockBegin v \<longleftrightarrow> v \<noteq> 0"

section \<open>Blocks of users, input and output, clusters\<close>

definition MPIEventEncoding_Is_UserBlock :: "int \<Rightarrow> bool" where
  "MPIEventEncoding_Is_UserBlock ty \<longleftrightarrow> ty = USER_FUNCTION \<or> ty = USER_CALL \<or> ty = USER_BLOCK"

text \<open>Without a return for other types: \<open>assert\<close> of a string never fails.\<close>

definition MPIEventEncoding_UserBlockId :: "int \<Rightarrow> int \<Rightarrow> int res" where
  "MPIEventEncoding_UserBlockId ty v =
     (if ty = USER_FUNCTION then Inr (v + BASE_USERFUNCTION)
      else if ty = USER_CALL then Inr (v + BASE_USERCALL)
      else if ty = USER_BLOCK then Inr (v + BASE_USERBLOCK)
      else if ty = CLUSTER_ID_EV then Inr (v + BASE_CLUSTER_BLOCK)
      else Inl Uninit)"

definition EventEncoding_Is_IO :: "int \<Rightarrow> bool" where
  "EventEncoding_Is_IO ty \<longleftrightarrow> ty = IO_READ_EV \<or> ty = IO_WRITE_EV \<or> ty = IO_EV"

definition EventEncoding_DimemasIO_Block :: "int \<Rightarrow> int res" where
  "EventEncoding_DimemasIO_Block ty =
     (if ty = IO_READ_EV then Inr 196 else if ty = IO_WRITE_EV then Inr 197
      else if ty = IO_EV then Inr 198 else Inl (Die ''abort''))"

definition EventEncoding_Is_Flushing :: "int \<Rightarrow> bool" where
  "EventEncoding_Is_Flushing ty \<longleftrightarrow> ty = IO_READ_EV \<or> ty = IO_WRITE_EV \<or> ty = IO_EV"

definition ClusterEventEncoding_Is_ClusterBlock :: "int \<Rightarrow> bool" where
  "ClusterEventEncoding_Is_ClusterBlock ty \<longleftrightarrow> ty = CLUSTER_ID_EV"

definition ClusterEventEncoding_Is_BlockBegin :: "int \<Rightarrow> bool" where
  "ClusterEventEncoding_Is_BlockBegin v \<longleftrightarrow> v \<noteq> 0"

definition ClusterEventEncoding_DimemasBlockId :: "int \<Rightarrow> int" where
  "ClusterEventEncoding_DimemasBlockId v = v + BASE_CLUSTER_BLOCK"

section \<open>Accelerators\<close>

text \<open>The block of CUDA or OpenCL a thread is in.\<close>

record t_event_block =
  block_type :: int
  block_value :: int
  paraver_time :: timer

definition CUDAEventEncoding_Is_CUDABlock :: "int \<Rightarrow> bool" where
  "CUDAEventEncoding_Is_CUDABlock ty \<longleftrightarrow> ty = CUDA_LIB_CALL_EV"

definition CUDAEventEncoding_Is_BlockBegin :: "int \<Rightarrow> bool" where
  "CUDAEventEncoding_Is_BlockBegin v \<longleftrightarrow> v \<noteq> 0"

definition CUDAEventEncoding_Is_CUDAComm :: "int \<Rightarrow> bool" where
  "CUDAEventEncoding_Is_CUDAComm tag \<longleftrightarrow> tag = CUDA_TAG"

definition CUDAEventEncoding_Is_CUDATransferBlock :: "t_event_block \<Rightarrow> bool" where
  "CUDAEventEncoding_Is_CUDATransferBlock e \<longleftrightarrow> block_type e = CUDA_LIB_CALL_EV \<and> block_value e = 3"

definition CUDAEventEconding_Is_CUDAConfigCall :: "t_event_block \<Rightarrow> bool" where
  "CUDAEventEconding_Is_CUDAConfigCall e \<longleftrightarrow> block_type e = CUDA_LIB_CALL_EV \<and> block_value e = 2"

definition CUDAEventEconding_Is_CUDALaunch :: "t_event_block \<Rightarrow> bool" where
  "CUDAEventEconding_Is_CUDALaunch e \<longleftrightarrow> block_type e = CUDA_LIB_CALL_EV \<and> block_value e = 1"

definition CUDAEventEconding_Is_CUDASync :: "t_event_block \<Rightarrow> bool" where
  "CUDAEventEconding_Is_CUDASync e \<longleftrightarrow> block_type e = CUDA_LIB_CALL_EV \<and> (block_value e = 4 \<or> block_value e = 5)"

definition OCLEventEncoding_Is_OCLBlock :: "int \<Rightarrow> bool" where
  "OCLEventEncoding_Is_OCLBlock ty \<longleftrightarrow> ty = OCL_HOST_CALL_EV \<or> ty = OCL_ACCELERATOR_CALL_EV"

definition OCLEventEncoding_Is_BlockBegin :: "int \<Rightarrow> bool" where
  "OCLEventEncoding_Is_BlockBegin v \<longleftrightarrow> v \<noteq> 0"

definition OCLEventEncoding_Is_OCLComm :: "int \<Rightarrow> bool" where
  "OCLEventEncoding_Is_OCLComm tag \<longleftrightarrow> tag = OCL_TAG"

text \<open>The calls that create, build and release objects.\<close>

definition ocl_sched_values :: "int list" where
  "ocl_sched_values = [1, 2, 3, 4, 7, 6, 8, 10, 11, 9, 5, 22, 36, 38, 40, 42, 44, 46, 48]"

definition OCLEventEncoding_Is_OCLSchedBlock :: "t_event_block \<Rightarrow> bool" where
  "OCLEventEncoding_Is_OCLSchedBlock e \<longleftrightarrow>
     (if block_type e = OCL_KERNEL_NAME_EV then True
      else if block_type e \<noteq> OCL_HOST_CALL_EV then False
      else block_value e \<in> set ocl_sched_values \<or> block_value e = 15)"

definition OCLEventEncoding_Is_OCLSchedblock :: "int \<Rightarrow> int \<Rightarrow> bool" where
  "OCLEventEncoding_Is_OCLSchedblock ty v \<longleftrightarrow> ty = OCL_HOST_CALL_EV \<and> v \<in> set ocl_sched_values"

definition OCLEventEncoding_Is_OCLTransferBlock :: "t_event_block \<Rightarrow> bool" where
  "OCLEventEncoding_Is_OCLTransferBlock e \<longleftrightarrow>
     (block_type e = OCL_HOST_CALL_EV \<or> block_type e = OCL_ACCELERATOR_CALL_EV) \<and> block_value e \<in> {18, 19, 20, 21}"

definition OCLEventEncoding_Is_OCLSyncBlock :: "t_event_block \<Rightarrow> bool" where
  "OCLEventEncoding_Is_OCLSyncBlock e \<longleftrightarrow>
     (block_type e = OCL_HOST_CALL_EV \<or> block_type e = OCL_ACCELERATOR_CALL_EV) \<and> block_value e = 25"

definition OCLEventEncoding_Is_OCLKernelRunning :: "t_event_block \<Rightarrow> bool" where
  "OCLEventEncoding_Is_OCLKernelRunning e \<longleftrightarrow> block_type e = OCL_ACCELERATOR_CALL_EV \<and> block_value e = 15"

text \<open>The accelerator block of a thread that transfers data.\<close>

definition transfer_block :: "t_event_block \<Rightarrow> bool" where
  "transfer_block e \<longleftrightarrow> CUDAEventEncoding_Is_CUDATransferBlock e \<or> OCLEventEncoding_Is_OCLTransferBlock e"

section \<open>From blocks to events of Paraver\<close>

text \<open>The last of the 160 entries of the table is not given, so it is 0.\<close>

definition block_dimemas2prv_0 :: "(int \<times> int) list" where
  "block_dimemas2prv_0 = [
     (MPITYPE_COLLECTIVE, 17), (MPITYPE_COLLECTIVE, 18), (MPITYPE_COLLECTIVE, 10), (MPITYPE_COLLECTIVE, 11),
     (MPITYPE_COLLECTIVE, 12), (MPITYPE_COLLECTIVE, 8), (MPITYPE_COLLECTIVE, 7), (MPITYPE_COLLECTIVE, 13),
     (MPITYPE_COLLECTIVE, 14), (MPITYPE_OTHER, 78), (MPITYPE_OTHER, 79), (MPITYPE_COLLECTIVE, 80),
     (MPITYPE_COLLECTIVE, 9), (MPITYPE_COLLECTIVE, 30), (MPITYPE_COLLECTIVE, 15), (MPITYPE_COLLECTIVE, 16),
     (MPITYPE_COLLECTIVE, 170), (MPITYPE_OTHER, 81), (MPITYPE_OTHER, 82), (MPITYPE_OTHER, 83),
     (MPITYPE_COMM, 21), (MPITYPE_COMM, 22), (MPITYPE_COMM, 25), (MPITYPE_COMM, 24),
     (MPITYPE_COMM, 19), (MPITYPE_COMM, 26), (MPITYPE_COMM, 27), (MPITYPE_COMM, 20),
     (MPITYPE_COMM, 23), (MPITYPE_COMM, 28), (MPITYPE_COMM, 29), (MPITYPE_GROUP, 84),
     (MPITYPE_GROUP, 85), (MPITYPE_GROUP, 86), (MPITYPE_GROUP, 87), (MPITYPE_GROUP, 88),
     (MPITYPE_GROUP, 89), (MPITYPE_GROUP, 90), (MPITYPE_GROUP, 91), (MPITYPE_GROUP, 92),
     (MPITYPE_GROUP, 93), (MPITYPE_GROUP, 94), (MPITYPE_GROUP, 95), (MPITYPE_COMM, 96),
     (MPITYPE_COMM, 97), (MPITYPE_OTHER, 98), (MPITYPE_OTHER, 99), (MPITYPE_OTHER, 100),
     (MPITYPE_OTHER, 101), (MPITYPE_OTHER, 102), (MPITYPE_OTHER, 103), (MPITYPE_OTHER, 104),
     (MPITYPE_OTHER, 105), (MPITYPE_OTHER, 106), (MPITYPE_OTHER, 32), (MPITYPE_OTHER, 107),
     (MPITYPE_OTHER, 31), (MPITYPE_OTHER, 108), (MPITYPE_OTHER, 109), (MPITYPE_OTHER, 110),
     (MPITYPE_OTHER, 111), (MPITYPE_PTOP, 33), (MPITYPE_PTOP, 112), (MPITYPE_OTHER, 113),
     (MPITYPE_OTHER, 114), (MPITYPE_PTOP, 40), (MPITYPE_OTHER, 115), (MPITYPE_PTOP, 116),
     (MPITYPE_PTOP, 117), (MPITYPE_OTHER, 118), (MPITYPE_OTHER, 119), (MPITYPE_PTOP, 36),
     (MPITYPE_PTOP, 62), (MPITYPE_PTOP, 4), (MPITYPE_PTOP, 38), (MPITYPE_PTOP, 3),
     (MPITYPE_PTOP, 37), (MPITYPE_OTHER, 76), (MPITYPE_OTHER, 120), (MPITYPE_PTOP, 61)]"

definition block_dimemas2prv_1 :: "(int \<times> int) list" where
  "block_dimemas2prv_1 = [
     (MPITYPE_PTOP, 2), (MPITYPE_PTOP, 35), (MPITYPE_PTOP, 1), (MPITYPE_PTOP, 41),
     (MPITYPE_PTOP, 42), (MPITYPE_PTOP, 34), (MPITYPE_PTOP, 122), (MPITYPE_OTHER, 123),
     (MPITYPE_OTHER, 124), (MPITYPE_PTOP, 39), (MPITYPE_PTOP, 125), (MPITYPE_PTOP, 126),
     (MPITYPE_PTOP, 127), (MPITYPE_PTOP, 128), (MPITYPE_TYPE, 129), (MPITYPE_TYPE, 130),
     (MPITYPE_TYPE, 131), (MPITYPE_TYPE, 132), (MPITYPE_TYPE, 133), (MPITYPE_TYPE, 134),
     (MPITYPE_TYPE, 135), (MPITYPE_TYPE, 136), (MPITYPE_TYPE, 137), (MPITYPE_TYPE, 138),
     (MPITYPE_TYPE, 139), (MPITYPE_TYPE, 140), (MPITYPE_OTHER, 77), (MPITYPE_PTOP, 5),
     (MPITYPE_PTOP, 6), (MPITYPE_PTOP, 59), (MPITYPE_PTOP, 60), (MPITYPE_TOPOLOGIES, 45),
     (MPITYPE_TOPOLOGIES, 43), (MPITYPE_TOPOLOGIES, 46), (MPITYPE_TOPOLOGIES, 47), (MPITYPE_TOPOLOGIES, 48),
     (MPITYPE_TOPOLOGIES, 44), (MPITYPE_TOPOLOGIES, 49), (MPITYPE_TOPOLOGIES, 50), (MPITYPE_TOPOLOGIES, 51),
     (MPITYPE_TOPOLOGIES, 52), (MPITYPE_TOPOLOGIES, 53), (MPITYPE_TOPOLOGIES, 55), (MPITYPE_TOPOLOGIES, 54),
     (MPITYPE_TOPOLOGIES, 56), (MPITYPE_TOPOLOGIES, 57), (MPITYPE_TOPOLOGIES, 58), (USER_BLOCK, 128),
     (IO_READ_EV, 1), (IO_WRITE_EV, 1), (IO_EV, 1), (MPITYPE_RMA, 63),
     (MPITYPE_RMA, 64), (MPITYPE_RMA, 65), (MPITYPE_RMA, 66), (MPITYPE_RMA, 67),
     (MPITYPE_RMA, 68), (MPITYPE_RMA, 70), (MPITYPE_RMA, 69), (MPITYPE_RMA, 71),
     (MPITYPE_RMA, 72), (MPITYPE_RMA, 73), (MPITYPE_RMA, 74), (MPITYPE_RMA, 75),
     (MPITYPE_OTHER, 194), (LAPI_EV, 1), (LAPI_EV, 2), (LAPI_EV, 3),
     (LAPI_EV, 4), (LAPI_EV, 5), (LAPI_EV, 6), (LAPI_EV, 7),
     (LAPI_EV, 8), (LAPI_EV, 9), (LAPI_EV, 10), (MPITYPE_PTOP, 190),
     (MPITYPE_PTOP, 192), (MPITYPE_PTOP, 191), (MPITYPE_PTOP, 193)]"

definition block_dimemas2prv :: "(int \<times> int) list" where
  "block_dimemas2prv = block_dimemas2prv_0 @ block_dimemas2prv_1 @ [(0, 0)]"

definition MIN_TIPUS_MPI_TRF :: int where "MIN_TIPUS_MPI_TRF = 1"
definition MAX_TIPUS_MPI_TRF :: int where "MAX_TIPUS_MPI_TRF = 160"

definition Block_Dimemas2Paraver_TypeAndValue :: "int \<Rightarrow> int \<times> int" where
  "Block_Dimemas2Paraver_TypeAndValue b =
     (if b \<ge> MIN_TIPUS_MPI_TRF \<and> b \<le> MAX_TIPUS_MPI_TRF then block_dimemas2prv ! nat (b - MIN_TIPUS_MPI_TRF)
      else if b < BASE_CLUSTER_BLOCK then (USER_FUNCTION, b - BASE_USERFUNCTION)
      else if b < BASE_USERCALL then (CLUSTER_ID_EV, b - BASE_CLUSTER_BLOCK)
      else if b < BASE_USERBLOCK then (USER_CALL, b - BASE_USERCALL)
      else (USER_BLOCK, b - BASE_USERBLOCK))"

definition Block_Dimemas2Paraver_Type :: "int \<Rightarrow> int" where
  "Block_Dimemas2Paraver_Type b =
     (if b \<ge> MIN_TIPUS_MPI_TRF \<and> b \<le> MAX_TIPUS_MPI_TRF then fst (block_dimemas2prv ! nat (b - MIN_TIPUS_MPI_TRF))
      else if b < BASE_CLUSTER_BLOCK then USER_FUNCTION
      else if b < BASE_USERCALL then CLUSTER_ID_EV
      else if b < BASE_USERBLOCK then USER_CALL
      else USER_BLOCK)"

definition Block_Dimemas2Paraver_Value :: "int \<Rightarrow> int" where
  "Block_Dimemas2Paraver_Value b =
     (if b \<ge> MIN_TIPUS_MPI_TRF \<and> b \<le> MAX_TIPUS_MPI_TRF then snd (block_dimemas2prv ! nat (b - MIN_TIPUS_MPI_TRF))
      else if b < BASE_CLUSTER_BLOCK then b - BASE_USERFUNCTION
      else if b < BASE_USERCALL then b - BASE_CLUSTER_BLOCK
      else if b < BASE_USERBLOCK then b - BASE_USERCALL
      else b - BASE_USERBLOCK)"

text \<open>The names of the collective operations and their identifiers (\<open>DimCollectiveOp\<close>).\<close>

definition GLOP_ID :: "(string \<times> int) list" where
  "GLOP_ID = [
     (''MPI_Barrier'', 0),
     (''MPI_Bcast'', 1),
     (''MPI_Gather'', 2),
     (''MPI_Gatherv'', 3),
     (''MPI_Scatter'', 4),
     (''MPI_Scatterv'', 5),
     (''MPI_Allgather'', 6),
     (''MPI_Allgatherv'', 7),
     (''MPI_Alltoall'', 8),
     (''MPI_Alltoallv'', 9),
     (''MPI_Reduce'', 10),
     (''MPI_Allreduce'', 11),
     (''MPI_Reduce_scatter'', 12),
     (''MPI_Reduce_scatter_block'', 13),
     (''MPI_Scan'', 14),
     (''MPI_Alltoallw'', 15),
     (''MPI_Ibarrier'', 16),
     (''MPI_Ibcast'', 17),
     (''MPI_Igather'', 18),
     (''MPI_Igatherv'', 19),
     (''MPI_Iscatter'', 12),
     (''MPI_Iscatterv'', 21),
     (''MPI_Iallgather'', 22),
     (''MPI_Iallgatherv'', 23),
     (''MPI_Ialltoall'', 24),
     (''MPI_Ialltoallv'', 25),
     (''MPI_Ialltoallw'', 26),
     (''MPI_Ireduce'', 27),
     (''MPI_Iallreduce'', 28),
     (''MPI_Ireduce_scatter'', 29),
     (''MPI_Ireduce_scatter_block'', 30),
     (''MPI_Iscan'', 31)]"

section \<open>Properties\<close>

lemma MPI_Table_columns:
  "map mpi_op MPI_Table = [0..<195]" "map mpi_block MPI_Table = [0..<195]" "length MPI_Table = 195"
  by (simp_all add: MPI_Table_def MPI_Table_0_def MPI_Table_1_def MPI_Table_2_def MPI_Table_3_def MPI_Table_4_def
      MPI_Table_5_def MPI_Table_6_def upt_rec)

text \<open>Every operation has its own entry, which gives a block of its own.\<close>

lemma DimemasBlockId_eq: "MPIEventEncoding_DimemasBlockId op = (if op < 195 then Inr op else Inl AssertFailed)"
proof (cases "op < 195")
  case True
  then have "mpi_op (MPI_Table ! op) = [0..<195] ! op" "mpi_block (MPI_Table ! op) = [0..<195] ! op"
    using MPI_Table_columns by (metis nth_map)+
  with True show ?thesis by (simp add: MPIEventEncoding_DimemasBlockId_def NUM_MPICALLS_def)
qed (simp add: MPIEventEncoding_DimemasBlockId_def NUM_MPICALLS_def)

lemmas dimemas2prv_table = block_dimemas2prv_def block_dimemas2prv_0_def block_dimemas2prv_1_def

lemma dimemas2prv_types:
  "list_all (\<lambda>(ty, v). ty \<notin> {USER_FUNCTION, USER_CALL, CLUSTER_ID_EV} \<and> (ty = USER_BLOCK \<longrightarrow> v = 128)) block_dimemas2prv"
  "length block_dimemas2prv = 160"
  by code_simp+

lemma dimemas2prv_entry:
  assumes "1 \<le> b" "b \<le> 160" "block_dimemas2prv ! nat (b - 1) = (ty, v)"
  shows "ty \<noteq> USER_FUNCTION" "ty \<noteq> USER_CALL" "ty \<noteq> CLUSTER_ID_EV" "ty = USER_BLOCK \<Longrightarrow> v = 128"
proof -
  have "nat (b - 1) < length block_dimemas2prv" using assms(1,2) dimemas2prv_types(2) by simp
  then have "(ty, v) \<in> set block_dimemas2prv" using assms(3) nth_mem by metis
  then show "ty \<noteq> USER_FUNCTION" "ty \<noteq> USER_CALL" "ty \<noteq> CLUSTER_ID_EV" "ty = USER_BLOCK \<Longrightarrow> v = 128"
    using dimemas2prv_types(1) by (auto simp: list_all_iff)
qed

text \<open>The two numbers of a block are the pair of both.\<close>

lemma decode_pair: "Block_Dimemas2Paraver_TypeAndValue b = (Block_Dimemas2Paraver_Type b, Block_Dimemas2Paraver_Value b)"
  by (simp add: Block_Dimemas2Paraver_TypeAndValue_def Block_Dimemas2Paraver_Type_def Block_Dimemas2Paraver_Value_def)

lemma user_types_differ:
  "USER_FUNCTION \<noteq> CLUSTER_ID_EV" "USER_FUNCTION \<noteq> USER_CALL" "USER_FUNCTION \<noteq> USER_BLOCK"
  "CLUSTER_ID_EV \<noteq> USER_CALL" "CLUSTER_ID_EV \<noteq> USER_BLOCK" "USER_CALL \<noteq> USER_BLOCK"
  by (simp_all add: event_types)

lemmas user_types_differ' = user_types_differ user_types_differ[symmetric]

lemma decode_mpi:
  assumes "1 \<le> b" "b \<le> 160" "Block_Dimemas2Paraver_TypeAndValue b = (ty, v)"
  shows "ty \<noteq> USER_FUNCTION" "ty \<noteq> USER_CALL" "ty \<noteq> CLUSTER_ID_EV" "ty = USER_BLOCK \<Longrightarrow> v = 128"
  using dimemas2prv_entry[of b ty v] assms
  by (simp_all add: Block_Dimemas2Paraver_TypeAndValue_def MIN_TIPUS_MPI_TRF_def MAX_TIPUS_MPI_TRF_def)

lemma decode_other:
  assumes "\<not> (1 \<le> b \<and> b \<le> 160)"
  shows "Block_Dimemas2Paraver_TypeAndValue b =
     (if b < 1000 then (USER_FUNCTION, b - 200) else if b < 10000 then (CLUSTER_ID_EV, b - 1000)
      else if b < 20000 then (USER_CALL, b - 10000) else (USER_BLOCK, b - 20000))"
  unfolding Block_Dimemas2Paraver_TypeAndValue_def MIN_TIPUS_MPI_TRF_def MAX_TIPUS_MPI_TRF_def
    BASE_CLUSTER_BLOCK_def BASE_USERCALL_def BASE_USERBLOCK_def BASE_USERFUNCTION_def
  by (simp only: if_not_P[OF assms])

lemma decode_user:
  "Block_Dimemas2Paraver_TypeAndValue b = (USER_FUNCTION, v) \<longleftrightarrow> v = b - 200 \<and> b < 1000 \<and> (b < 1 \<or> 160 < b)"
  "Block_Dimemas2Paraver_TypeAndValue b = (CLUSTER_ID_EV, v) \<longleftrightarrow> v = b - 1000 \<and> 1000 \<le> b \<and> b < 10000"
  "Block_Dimemas2Paraver_TypeAndValue b = (USER_CALL, v) \<longleftrightarrow> v = b - 10000 \<and> 10000 \<le> b \<and> b < 20000"
  "20000 + v = b \<Longrightarrow> Block_Dimemas2Paraver_TypeAndValue b = (USER_BLOCK, v) \<longleftrightarrow> 20000 \<le> b"
  by (cases "1 \<le> b \<and> b \<le> 160"; use decode_mpi[of b] in \<open>force simp: decode_other user_types_differ'\<close>)+

text \<open>
  Property C19. The number of a user block, user call, user function or cluster decodes to the same event
  exactly in a range of values: functions below 800 (and not between -199 and -40, which
  are taken for operations of MPI), calls below 10000, clusters below 9000, blocks from 0 on.
\<close>

theorem user_block_numbers_round_trip:
  "(\<exists>b. MPIEventEncoding_UserBlockId ty v = Inr b \<and> Block_Dimemas2Paraver_TypeAndValue b = (ty, v)) \<longleftrightarrow>
     ty = USER_FUNCTION \<and> v < 800 \<and> (v \<le> - 200 \<or> - 40 < v) \<or>
     ty = USER_CALL \<and> 0 \<le> v \<and> v < 10000 \<or>
     ty = USER_BLOCK \<and> 0 \<le> v \<or>
     ty = CLUSTER_ID_EV \<and> 0 \<le> v \<and> v < 9000"
proof -
  note enc = MPIEventEncoding_UserBlockId_def BASE_CLUSTER_BLOCK_def BASE_USERCALL_def BASE_USERBLOCK_def
    BASE_USERFUNCTION_def
  consider "ty = USER_FUNCTION" | "ty = USER_CALL" | "ty = USER_BLOCK" | "ty = CLUSTER_ID_EV"
    | "ty \<notin> {USER_FUNCTION, USER_CALL, USER_BLOCK, CLUSTER_ID_EV}" by auto
  then show ?thesis
  proof cases
    case 3
    then show ?thesis using user_types_differ' decode_user(4)[of v "v + 20000"] by (simp add: enc)
  qed (simp_all add: enc decode_user user_types_differ', arith+)
qed

lemma decode_column:
  "map (\<lambda>op. Block_Dimemas2Paraver_TypeAndValue (int op)) [0..<195] =
     (USER_FUNCTION, - 200) # block_dimemas2prv @ map (\<lambda>op. (USER_FUNCTION, int op - 200)) [161..<195]"
proof (rule nth_equalityI)
  show "length (map (\<lambda>op. Block_Dimemas2Paraver_TypeAndValue (int op)) [0..<195]) =
      length ((USER_FUNCTION, - 200) # block_dimemas2prv @ map (\<lambda>op. (USER_FUNCTION, int op - 200)) [161..<195])"
    by (simp add: dimemas2prv_types(2))
next
  fix i assume "i < length (map (\<lambda>op. Block_Dimemas2Paraver_TypeAndValue (int op)) [0..<195])"
  then have i: "i < 195" by simp
  note u = Block_Dimemas2Paraver_TypeAndValue_def MIN_TIPUS_MPI_TRF_def MAX_TIPUS_MPI_TRF_def BASE_CLUSTER_BLOCK_def
    BASE_USERFUNCTION_def
  have n: "nat (int i - 1) = i - 1" by simp
  show "map (\<lambda>op. Block_Dimemas2Paraver_TypeAndValue (int op)) [0..<195] ! i =
      ((USER_FUNCTION, - 200) # block_dimemas2prv @ map (\<lambda>op. (USER_FUNCTION, int op - 200)) [161..<195]) ! i"
    using i by (cases "i = 0"; cases "i \<le> 160") (auto simp: u nth_Cons' nth_append dimemas2prv_types(2) n)
qed

lemma round_trip_rows:
  "map fst (filter (\<lambda>(op, ty, d). d = (ty, int op))
     (zip [0..<195] (zip (map mpi_type MPI_Table)
       ((USER_FUNCTION, - 200) # block_dimemas2prv @ map (\<lambda>op. (USER_FUNCTION, int op - 200)) [161..<195])))) =
   [7, 15, 16, 21, 22, 24, 26, 27]"
  by code_simp

lemma mpi_block_round_trips:
  "filter (\<lambda>op. Block_Dimemas2Paraver_TypeAndValue (int op) = (mpi_type (MPI_Table ! op), int op)) [0..<195] =
     [7, 15, 16, 21, 22, 24, 26, 27]"
proof -
  have t: "map mpi_type MPI_Table = map (\<lambda>op. mpi_type (MPI_Table ! op)) [0..<195]"
    by (rule nth_equalityI) (simp_all add: MPI_Table_columns)
  have z: "zip xs (zip (map f xs) (map g xs)) = map (\<lambda>x. (x, f x, g x)) xs" for xs :: "nat list" and f g
    by (induction xs) simp_all
  show ?thesis
    using round_trip_rows unfolding decode_column[symmetric] t z by (simp add: filter_map comp_def)
qed

text \<open>
  The translator numbers the blocks of MPI in the order of the events, the simulator decodes
  them with a table in alphabetical order: of the 195 operations only 8 decode to themselves, and the blocks of input and
  output decode to user functions.
\<close>

theorem mpi_block_numbers_disagree:
  "{op. \<exists>b. MPIEventEncoding_DimemasBlockId op = Inr b \<and>
        Block_Dimemas2Paraver_TypeAndValue (int b) = (mpi_type (MPI_Table ! op), int op)} =
     {7, 15, 16, 21, 22, 24, 26, 27} \<and>
   (\<exists>b. EventEncoding_DimemasIO_Block IO_READ_EV = Inr b \<and>
        Block_Dimemas2Paraver_TypeAndValue b = (USER_FUNCTION, - 4))"
proof
  have "{op. \<exists>b. MPIEventEncoding_DimemasBlockId op = Inr b \<and>
        Block_Dimemas2Paraver_TypeAndValue (int b) = (mpi_type (MPI_Table ! op), int op)} =
      set (filter (\<lambda>op. Block_Dimemas2Paraver_TypeAndValue (int op) = (mpi_type (MPI_Table ! op), int op)) [0..<195])"
    by (auto simp: DimemasBlockId_eq split: if_splits)
  then show "{op. \<exists>b. MPIEventEncoding_DimemasBlockId op = Inr b \<and>
        Block_Dimemas2Paraver_TypeAndValue (int b) = (mpi_type (MPI_Table ! op), int op)} =
     {7, 15, 16, 21, 22, 24, 26, 27}"
    unfolding mpi_block_round_trips by simp
  show "\<exists>b. EventEncoding_DimemasIO_Block IO_READ_EV = Inr b \<and>
        Block_Dimemas2Paraver_TypeAndValue b = (USER_FUNCTION, - 4)"
    by (simp add: EventEncoding_DimemasIO_Block_def decode_user)
qed

lemma collective_ops:
  "list_all (\<lambda>(e, i). mpi_type e = MPITYPE_COLLECTIVE \<longrightarrow>
       (case map_of GLOP_ID (mpi_label e) of None \<Rightarrow> False | Some j \<Rightarrow> i \<noteq> j))
     (zip (take 33 MPI_Table) BlockId2GlobalOpId)"
  by code_simp

lemma collective_op:
  assumes "op < 33" "mpi_type (MPI_Table ! op) = MPITYPE_COLLECTIVE"
  shows "\<exists>j. map_of GLOP_ID (mpi_label (MPI_Table ! op)) = Some j \<and> BlockId2GlobalOpId ! op \<noteq> j"
proof -
  have l: "length BlockId2GlobalOpId = 33" "length MPI_Table = 195"
    by (simp_all add: BlockId2GlobalOpId_def MPI_Table_columns)
  then have "(MPI_Table ! op, BlockId2GlobalOpId ! op) \<in> set (zip (take 33 MPI_Table) BlockId2GlobalOpId)"
    using assms(1) by (auto simp: set_zip intro!: exI[of _ op])
  then show ?thesis using collective_ops assms(2) by (auto simp: list_all_iff split: option.splits)
qed

text \<open>
  The identifier of a collective operation is never the right one: the table is indexed by blocks, but
  ordered by identifiers, so the answer is another operation, or the read is outside the table (every
  operation from number 33 on).
\<close>

theorem collective_id_is_never_right:
  assumes "op < NUM_MPICALLS" "mpi_type (MPI_Table ! op) = MPITYPE_COLLECTIVE"
    and "MPIEventEncoding_DimemasBlockId op = Inr b"
  shows "if b < 33 then \<exists>i j. MPIEventEncoding_GlobalOpId b = Inr i \<and>
           map_of GLOP_ID (mpi_label (MPI_Table ! op)) = Some j \<and> i \<noteq> j
         else MPIEventEncoding_GlobalOpId b = Inl OutOfBounds"
proof -
  have b: "b = op" "op < 195" using assms(1,3) by (simp_all add: DimemasBlockId_eq NUM_MPICALLS_def)
  have l: "length BlockId2GlobalOpId = 33" by (simp add: BlockId2GlobalOpId_def)
  show ?thesis
    using b l collective_op[of op] assms(2) by (auto simp: MPIEventEncoding_GlobalOpId_def NUM_MPICALLS_def)
qed

theorem collective_id_is_never_right_witness:
  "\<exists>i j. MPIEventEncoding_GlobalOpId 8 = Inr i \<and> map_of GLOP_ID (mpi_label (MPI_Table ! 8)) = Some j \<and> i \<noteq> j"
proof -
  have "8 < NUM_MPICALLS" by (simp add: NUM_MPICALLS_def)
  moreover have "mpi_type (MPI_Table ! 8) = MPITYPE_COLLECTIVE"
    by (simp add: MPI_Table_def MPI_Table_0_def)
  moreover have "MPIEventEncoding_DimemasBlockId 8 = Inr 8" by (simp add: DimemasBlockId_eq)
  ultimately show ?thesis using collective_id_is_never_right[of 8 8] by simp
qed

end
