(* ===== verification/Threads.thy ===== *)
theory Threads
  imports Links EventEncoding
begin

text \<open>
  Threads, tasks, processors and the actions of a trace: the structures of \<^verbatim>\<open>include/types.h\<close> that the
  scheduler and the messages work on, and the operations of \<^verbatim>\<open>Simulator/model/task.c\<close>,
  \<^verbatim>\<open>Simulator/model/cpu.c\<close> and \<^verbatim>\<open>Simulator/sched/schedule.c\<close> every module uses (\<open>duplicate_thread\<close>,
  \<open>delete_duplicate_thread\<close>, \<open>more_actions\<close>, \<open>select_free_cpu\<close>, the accounts). A thread has an identifier; its
  links are in theory \<open>Links\<close> and the rest of the structure in \<open>t_exec\<close>. \<open>unread\<close> is the part of its
  trace that has not been read. The union \<open>desc\<close> of the current action is kept in \<open>sends\<close> and
  \<open>recvs\<close>. Traces written for Paraver, the critical path, deadlock analysis, the restart of applications
  (\<open>reload_Ptasks\<close>) and operations ignored or injected after a deadlock are left out.
\<close>

section \<open>Actions\<close>

datatype com_type = MEMORY_COMMUNICATION_TYPE | INTERNAL_NETWORK_COM_TYPE | EXTERNAL_NETWORK_COM_TYPE
  | DEDICATED_CONNECTION_COM_TYPE | EXTERNAL_MODEL_COM_TYPE | ACCELERATOR_COM_TYPE | Other_com_type

record t_send =
  dest :: taskid
  mess_size :: int
  mess_tag :: int
  comm_type :: com_type
  rendez_vous :: bool
  dest_thread :: int
  communic_id :: int
  immediate :: bool

record t_recv =
  ori :: taskid
  ori_thread :: int
  recv_tag :: int
  recv_size :: int
  recv_communic_id :: int
  recv_comm_type :: com_type

datatype sem_op = SEM_WAIT int | SEM_SIGNAL int | SEM_SIGNAL_N int int

text \<open>A collective operation (\<open>synch_type\<close>: 0 without blocking, 1 blocking, 2 wait) and a one-sided one.\<close>

record t_global_op =
  glop_id :: int
  comm_id :: int
  root_rank :: int
  root_thid :: int
  bytes_send :: int
  bytes_recvd :: int
  synch_type :: int

record t_mpi_io =
  which_io :: int
  io_commid :: int
  io_fh :: int
  io_op :: int
  io_size :: int
  io_request :: int

record t_mpi_os =
  which_os :: int
  os_op :: int
  target_rank :: int
  window_id :: int
  os_size :: int
  os_mode :: int
  post_ranks :: "int list"

datatype action =
    AC_NOOP
  | AC_DEAD
  | AC_WORK timer
  | AC_GPU_BURST timer
  | AC_SEND t_send
  | AC_RECV t_recv
  | AC_IRECV t_recv
  | AC_WAIT t_recv
  | AC_WAIT_FOR_SEND t_send
  | AC_EVENT int int
  | AC_FS int
  | AC_SEM sem_op
  | AC_PORT_SEND modul int int
  | AC_PORT_RECV modul int int
  | AC_MEMORY_COPY modul nodeid nodeid int
  | AC_GLOBAL_OP t_global_op
  | AC_MPI_IO t_mpi_io
  | AC_MPI_OS t_mpi_os
  | AC_other

definition kind_of_action :: "action list \<Rightarrow> act_kind" where
  "kind_of_action as = (case as of
      AC_SEND _ # _ \<Rightarrow> A_SEND
    | AC_WAIT_FOR_SEND _ # _ \<Rightarrow> A_WAIT_FOR_SEND
    | AC_MPI_OS _ # _ \<Rightarrow> A_MPI_OS
    | AC_GLOBAL_OP _ # _ \<Rightarrow> A_GLOBAL_OP
    | _ \<Rightarrow> A_other)"

text \<open>\<open>WORK\<close> and \<open>GPU_BURST\<close> occupy a processor.\<close>

definition burst :: "action list \<Rightarrow> timer option" where
  "burst as = (case as of AC_WORK c # _ \<Rightarrow> Some c | AC_GPU_BURST c # _ \<Rightarrow> Some c | _ \<Rightarrow> None)"

definition works :: "action list \<Rightarrow> bool" where
  "works as = (burst as \<noteq> None)"

section \<open>State\<close>

type_synonym cpuid = nat

text \<open>The private data of a scheduling policy for a thread (\<open>sch_parameters\<close>).\<close>

datatype sch_par =
    Par_NIL
  | Par_rr timer
  | Par_prio prio
  | Par_svr4 int int bool
  | Par_boost prio timer
  | Par_ss prio prio

record t_account =
  cpu_time :: timer
  time_ready_without_cpu :: timer
  n_th_in_run :: int
  n_preempt_to_me :: int
  n_preempt_to_other :: int
  n_sends :: int
  n_bytes_send :: int
  n_recvs :: int
  n_bytes_recv :: int
  n_recvs_on_processor :: int
  n_recvs_must_wait :: int
  time_waiting_for_message :: timer
  latency_time :: timer
  block_due_resources :: timer
  initial_wait_bus_time :: timer
  block_due_buses :: timer
  n_group_operations :: int
  block_due_group_operations :: timer
  group_operations_time :: timer

record t_exec =
  threadid :: int
  actions :: "action list"
  twin_thread :: "tid option"
  thread_cpu :: "cpuid option"
  host :: bool
  kernel :: bool
  doing_context_switch :: bool
  to_be_preempted :: bool
  doing_busy_wait :: bool
  doing_startup :: bool
  startup_done :: bool
  doing_copy :: bool
  copy_done :: bool
  doing_roundtrip :: bool
  roundtrip_done :: bool
  put_into_ready :: timer
  min_time_to_be_preempted :: timer
  start_wait_for_message :: timer
  logical_send :: timer
  logical_recv :: timer
  physical_recv :: timer
  sch_parameters :: sch_par
  base_priority :: prio
  idle_block :: bool
  sstask_id :: int
  sstask_type :: int
  first_acc_event_read :: bool
  acc_in_block_event :: t_event_block
  acc_recv_sync :: bool
  acc_sndr_sync :: bool
  doing_acc_comm :: bool
  marked_for_deletion :: bool
  account :: t_account
  freed :: bool

text \<open>What a thread keeps of the transfer of its message.\<close>

record t_comm =
  initial_communication_time :: timer
  physical_send :: timer
  number_buses :: int
  accelerator_link :: bool
  last_comm_ti :: timer
  last_comm_bandwidth :: real
  last_comm_bytes :: int

text \<open>The message queues, which a task has for transfers of MPI and a thread for dependencies.\<close>

record t_msgq =
  mess_recv :: "tid list"
  recvq :: "tid list"
  sendq :: "tid list"
  recv_without_send :: "tid list"
  send_without_recv :: "tid list"
  irecvs_executed :: "(t_recv \<times> timer) list"

record t_cpu =
  current_thread :: "tid option"
  current_thread_context :: "tid option"
  is_gpu :: bool

datatype sch_policy = P_FIFO | P_RR | P_PRIO_FIFO | P_SVR4 | P_BOOST | P_SS_MPI_CP

record t_boost =
  boost_best :: int
  boost_worst :: int
  boost_base_prio :: int
  boost_recv_first :: int
  boost_recv_last :: int
  boost_sender_last :: int

record t_scheduler =
  sch_policy :: sch_policy
  quantum :: timer
  priority_preemptive :: bool
  lost_cpu_on_send :: bool
  context_switch :: timer
  busywait_before_block :: bool
  minimum_quantum :: timer
  quantum_factor :: real
  sch_boost :: t_boost

text \<open>
  The priority next to a thread in a ready queue is the one it was inserted with (0 where the first come
  first served and round robin policies put none).
\<close>

record world = net +
  execs :: "tid \<Rightarrow> t_exec"
  sends :: "tid \<Rightarrow> t_send"
  recvs :: "tid \<Rightarrow> t_recv"
  comms :: "tid \<Rightarrow> t_comm"
  task_q :: "taskid \<Rightarrow> t_msgq"
  thread_q :: "tid \<Rightarrow> t_msgq"
  task_threads :: "taskid \<Rightarrow> tid list"
  task_accelerator :: "taskid \<Rightarrow> bool"
  tasks_count :: int
  unread :: "tid \<Rightarrow> action list"
  next_tid :: tid
  cpus :: "cpuid \<Rightarrow> t_cpu"
  node_cpus :: "nodeid \<Rightarrow> cpuid list"
  ready :: "nodeid \<Rightarrow> (tid \<times> prio) list"
  scheduler :: "machid \<Rightarrow> t_scheduler"
  finished_threads_count :: int

definition upd_exec :: "tid \<Rightarrow> (t_exec \<Rightarrow> t_exec) \<Rightarrow> 'z world_scheme \<Rightarrow> 'z world_scheme" where
  "upd_exec t f s = s\<lparr>execs := (execs s)(t := f (execs s t))\<rparr>"

definition upd_account :: "tid \<Rightarrow> (t_account \<Rightarrow> t_account) \<Rightarrow> 'z world_scheme \<Rightarrow> 'z world_scheme" where
  "upd_account t f s = upd_exec t (\<lambda>x. x\<lparr>account := f (account x)\<rparr>) s"

definition upd_comm :: "tid \<Rightarrow> (t_comm \<Rightarrow> t_comm) \<Rightarrow> 'z world_scheme \<Rightarrow> 'z world_scheme" where
  "upd_comm t f s = s\<lparr>comms := (comms s)(t := f (comms s t))\<rparr>"

definition upd_cpu :: "cpuid \<Rightarrow> (t_cpu \<Rightarrow> t_cpu) \<Rightarrow> 'z world_scheme \<Rightarrow> 'z world_scheme" where
  "upd_cpu c f s = s\<lparr>cpus := (cpus s)(c := f (cpus s c))\<rparr>"

definition upd_ready :: "nodeid \<Rightarrow> ((tid \<times> prio) list \<Rightarrow> (tid \<times> prio) list) \<Rightarrow> 'z world_scheme \<Rightarrow> 'z world_scheme" where
  "upd_ready nd f s = s\<lparr>ready := (ready s)(nd := f (ready s nd))\<rparr>"

definition set_loose_cpu :: "tid \<Rightarrow> bool \<Rightarrow> 'z world_scheme \<Rightarrow> 'z world_scheme" where
  "set_loose_cpu t b s = s\<lparr>loose_cpu := (loose_cpu s)(t := b)\<rparr>"

text \<open>The scheduling parameters of the machine of a thread.\<close>

definition sch_of :: "tid \<Rightarrow> 'z world_scheme \<Rightarrow> t_scheduler" where
  "sch_of t s = scheduler s (machine_of_node s (get_node_of_thread t s))"

section \<open>The current action\<close>

definition set_actions :: "tid \<Rightarrow> action list \<Rightarrow> 'z world_scheme \<Rightarrow> 'z world_scheme" where
  "set_actions t as s =
     (let s1 = upd_exec t (\<lambda>x. x\<lparr>actions := as\<rparr>) (upd_thread t (\<lambda>th. th\<lparr>act := kind_of_action as\<rparr>) s)
      in case as of
           AC_SEND m # _ \<Rightarrow> s1\<lparr>sends := (sends s1)(t := m)\<rparr>
         | AC_WAIT_FOR_SEND m # _ \<Rightarrow> s1\<lparr>sends := (sends s1)(t := m)\<rparr>
         | AC_RECV m # _ \<Rightarrow> s1\<lparr>recvs := (recvs s1)(t := m)\<rparr>
         | AC_IRECV m # _ \<Rightarrow> s1\<lparr>recvs := (recvs s1)(t := m)\<rparr>
         | AC_WAIT m # _ \<Rightarrow> s1\<lparr>recvs := (recvs s1)(t := m)\<rparr>
         | AC_MPI_OS m # _ \<Rightarrow> s1\<lparr>sends := (sends s1)(t := (sends s1 t)\<lparr>dest := target_rank m, mess_size := os_size m\<rparr>)\<rparr>
         | _ \<Rightarrow> s1)"

lemma set_actions_simps [simp]:
  "loose_cpu (set_actions t as s) = loose_cpu s" "scheduler (set_actions t as s) = scheduler s"
  "actions (execs (set_actions t as s) u) = (if u = t then as else actions (execs s u))"
  "account (execs (set_actions t as s) u) = account (execs s u)"
  "sch_parameters (execs (set_actions t as s) u) = sch_parameters (execs s u)"
  "node_of_task (set_actions t as s) = node_of_task s" "task_of (threads (set_actions t as s) u) = task_of (threads s u)"
  "machine_of_node (set_actions t as s) = machine_of_node s"
  by (auto simp: set_actions_def Let_def upd_exec_def upd_thread_def get_node_of_thread_def split: list.split action.split)

lemma unread_set_actions [simp]: "unread (set_actions t as s) = unread s"
  by (auto simp: set_actions_def Let_def upd_exec_def upd_thread_def split: list.split action.split)

text \<open>\<open>thread->action = action->next; READ_free_action (action)\<close>.\<close>

definition next_action :: "tid \<Rightarrow> 'z world_scheme \<Rightarrow> 'z world_scheme res" where
  "next_action t s = (case actions (execs s t) of [] \<Rightarrow> Inl NullDeref | _ # as \<Rightarrow> Inr (set_actions t as s))"

text \<open>
  \<open>more_actions\<close> reads the next action when there is none. A thread without any counts as finished, every
  time it is asked.
\<close>

definition READ_get_next_action :: "tid \<Rightarrow> 'z world_scheme \<Rightarrow> 'z world_scheme" where
  "READ_get_next_action t s = (case unread s t of [] \<Rightarrow> s
     | a # as \<Rightarrow> set_actions t [a] (s\<lparr>unread := (unread s)(t := as)\<rparr>))"

definition more_actions :: "tid \<Rightarrow> 'z world_scheme \<Rightarrow> bool \<times> 'z world_scheme" where
  "more_actions t s =
     (let s1 = (if actions (execs s t) = [] then READ_get_next_action t s else s)
      in case actions (execs s1 t) of
           [] \<Rightarrow> (False, upd_thread t (\<lambda>th. th\<lparr>last_paraver := current_time s1\<rparr>)
                   (s1\<lparr>finished_threads_count := finished_threads_count s1 + 1\<rparr>))
         | AC_DEAD # _ \<Rightarrow> (False, s1)
         | _ \<Rightarrow> (True, s1))"

section \<open>Processors\<close>

definition select_free_cpu :: "nodeid \<Rightarrow> tid \<Rightarrow> 'z world_scheme \<Rightarrow> cpuid option" where
  "select_free_cpu nd t s =
     (let free = filter (\<lambda>c. current_thread (cpus s c) = None \<and> \<not> is_gpu (cpus s c)) (node_cpus s nd)
      in case List.find (\<lambda>c. current_thread_context (cpus s c) = Some t) free of
           Some c \<Rightarrow> Some c
         | None \<Rightarrow> (case free of [] \<Rightarrow> None | c # _ \<Rightarrow> Some c))"

definition num_free_cpu :: "nodeid \<Rightarrow> 'z world_scheme \<Rightarrow> nat" where
  "num_free_cpu nd s = length (filter (\<lambda>c. current_thread (cpus s c) = None \<and> \<not> is_gpu (cpus s c)) (node_cpus s nd))"

text \<open>The scan compares the running thread also with a local variable that was never written.\<close>

definition is_thread_running :: "tid \<Rightarrow> 'z world_scheme \<Rightarrow> bool res" where
  "is_thread_running t s = (case node_cpus s (get_node_of_thread t s) of
      [] \<Rightarrow> Inr False
    | c # _ \<Rightarrow> if current_thread (cpus s c) = Some t then Inr True else Inl Uninit)"

section \<open>Accounts and copies\<close>

text \<open>
  The time spent waiting for links is the field \<open>block_due_link\<close> of theory \<open>Links\<close>; the times an account
  begins and ends at are left out.
\<close>

definition clear_account :: t_account where
  "clear_account = \<lparr>cpu_time = 0, time_ready_without_cpu = 0, n_th_in_run = 0, n_preempt_to_me = 0,
     n_preempt_to_other = 0, n_sends = 0, n_bytes_send = 0, n_recvs = 0, n_bytes_recv = 0,
     n_recvs_on_processor = 0, n_recvs_must_wait = 0, time_waiting_for_message = 0, latency_time = 0,
     block_due_resources = 0, initial_wait_bus_time = 0, block_due_buses = 0, n_group_operations = 0,
     block_due_group_operations = 0, group_operations_time = 0\<rparr>"

definition add_account :: "t_account \<Rightarrow> t_account \<Rightarrow> t_account" where
  "add_account to from = to\<lparr>cpu_time := cpu_time to + cpu_time from,
     time_ready_without_cpu := time_ready_without_cpu to + time_ready_without_cpu from,
     n_th_in_run := n_th_in_run to + n_th_in_run from,
     n_preempt_to_me := n_preempt_to_me to + n_preempt_to_me from,
     n_preempt_to_other := n_preempt_to_other to + n_preempt_to_other from,
     n_sends := n_sends to + n_sends from, n_bytes_send := n_bytes_send to + n_bytes_send from,
     n_recvs := n_recvs to + n_recvs from, n_bytes_recv := n_bytes_recv to + n_bytes_recv from,
     n_recvs_on_processor := n_recvs_on_processor to + n_recvs_on_processor from,
     n_recvs_must_wait := n_recvs_must_wait to + n_recvs_must_wait from,
     time_waiting_for_message := time_waiting_for_message to + time_waiting_for_message from,
     latency_time := latency_time to + latency_time from,
     block_due_resources := block_due_resources to + block_due_resources from,
     block_due_buses := block_due_buses to + block_due_buses from,
     n_group_operations := n_group_operations to + n_group_operations from,
     block_due_group_operations := block_due_group_operations to + block_due_group_operations from,
     group_operations_time := group_operations_time to + group_operations_time from\<rparr>"

text \<open>\<open>locate_thread_of_task\<close>; its asserts end the simulation.\<close>

definition locate_thread_of_task :: "taskid \<Rightarrow> int \<Rightarrow> 'z world_scheme \<Rightarrow> tid res" where
  "locate_thread_of_task tk i s =
     (if 0 \<le> i \<and> i < int (length (task_threads s tk))
      then let t = task_threads s tk ! nat i in
           if threadid (execs s t) = i then Inr t else Inl AssertFailed
      else Inl AssertFailed)"

text \<open>\<open>locate_task\<close> of task.c.\<close>

definition locate_task :: "taskid \<Rightarrow> 'z world_scheme \<Rightarrow> taskid res" where
  "locate_task i s = (if i < 0 \<or> i \<ge> tasks_count s then Inl (Panic ''Incorrect task identifier'') else Inr i)"

end
