(* ===== verification/MessageCost.thy ===== *)
theory MessageCost
  imports Threads
begin

text \<open>
  The cost model of point to point messages in \<^verbatim>\<open>Simulator/model/communic.c\<close>: which kind of
  communication a message is (\<open>get_communication_type\<close>, \<open>connection_can_be_used\<close>), the bandwidth a
  message gets (\<open>recompute_*_bandwidth\<close>, \<open>external_network_bandwidth_ratio\<close>, the traffic of the
  external network) and the time it takes and keeps its resources (\<open>transferencia\<close>). Floating
  point numbers are real numbers; where C gives NaN or an infinity the model ends in \<open>NotANumber\<close>.
  The random numbers of \<^verbatim>\<open>random.c\<close> are an arbitrary stream for each kind of randomness.
\<close>

section \<open>State\<close>

datatype traffic_function = EXP | LOG | LINEAL | CONST | Other_traffic

datatype rand_kind = R_memory_bandwidth | R_network_bandwidth | R_external_network_bandwidth | R_acc_memory_bandwidth
  | R_memory_latency | R_network_latency | R_external_network_latency | R_acc_memory_latency

datatype bus_owner = NodeBus nodeid | MachBus machid | AccBus nodeid

record bus =
  max_messages :: int
  cur_messages :: int
  wait_for_bus :: "tid list"
  on_bus :: "(tid \<times> timer) list"

record t_connection =
  conn_tags :: "int list"
  first_message_size :: int
  first_size_condition :: int
  second_message_size :: int
  second_size_condition :: int
  conn_operation :: int
  conn_bandwidth :: real
  conn_startup :: real
  flight_time :: real

text \<open>
  The platform and the options do not change during a simulation. \<open>external_bandwidth\<close>, \<open>external_startup\<close>
  and \<open>external_kind\<close> are the functions of an external communication library, when one is loaded; they get the
  nodes, the tasks, the tag and the size of a message.
\<close>

record platform =
  node_bandwidth :: "nodeid \<Rightarrow> real"
  remote_bandwidth :: "machid \<Rightarrow> real"
  acc_bandwidth :: "nodeid \<Rightarrow> real"
  accelerator :: "nodeid \<Rightarrow> bool"
  dedicated_connections :: "machid \<Rightarrow> connid list"
  connection :: "connid \<Rightarrow> t_connection"
  wan_bandwidth :: real
  wan_traffic_function :: traffic_function
  max_traffic_value :: real
  flight_times :: "machid \<Rightarrow> machid \<Rightarrow> real"
  external_net_alfa :: real
  external_net_beta :: real
  external_net_gamma :: real
  RTT_enabled :: bool
  RTT_time :: real
  local_startup :: "nodeid \<Rightarrow> real"
  remote_startup :: "nodeid \<Rightarrow> real"
  external_net_startup :: "nodeid \<Rightarrow> real"
  acc_startup :: "nodeid \<Rightarrow> real"
  acc_memory_startup :: "nodeid \<Rightarrow> real"
  DATA_COPY_enabled :: bool
  DATA_COPY_message_size :: int
  wait_logical_recv :: bool
  extra_assert :: bool
  external_bandwidth :: "(nodeid \<Rightarrow> nodeid \<Rightarrow> taskid \<Rightarrow> taskid \<Rightarrow> int \<Rightarrow> int \<Rightarrow> real) option"
  external_startup :: "(nodeid \<Rightarrow> nodeid \<Rightarrow> taskid \<Rightarrow> taskid \<Rightarrow> int \<Rightarrow> int \<Rightarrow> real) option"
  external_kind :: "(nodeid \<Rightarrow> nodeid \<Rightarrow> taskid \<Rightarrow> taskid \<Rightarrow> int \<Rightarrow> int \<Rightarrow> com_type) option"

record sim = world +
  plat :: platform
  buses :: "bus_owner \<Rightarrow> bus"
  suma_missatges :: real
  increment_missatges :: real
  random_numbers :: "rand_kind \<Rightarrow> nat \<Rightarrow> real"
  random_calls :: nat

definition upd_bus :: "bus_owner \<Rightarrow> (bus \<Rightarrow> bus) \<Rightarrow> 'z sim_scheme \<Rightarrow> 'z sim_scheme" where
  "upd_bus b f s = s\<lparr>buses := (buses s)(b := f (buses s b))\<rparr>"

section \<open>Numbers\<close>

text \<open>\<open>long long\<close> sizes are passed as \<open>int\<close> to the functions that look at the kind of message.\<close>

definition to_int :: "int \<Rightarrow> int" where
  "to_int x = (x + 2 ^ 31) mod 2 ^ 32 - 2 ^ 31"

definition PERIODIC_TRAFFIC :: real where "PERIODIC_TRAFFIC = 10000000000"

definition RANDOM_GenerateRandom :: "rand_kind \<Rightarrow> 'z sim_scheme \<Rightarrow> real \<times> 'z sim_scheme" where
  "RANDOM_GenerateRandom k s =
     (random_numbers s k (random_calls s), s\<lparr>random_calls := random_calls s + 1\<rparr>)"

definition bw_ns_per_byte :: "real \<Rightarrow> real" where
  "bw_ns_per_byte bandw = (if bandw \<noteq> 0 then 1000000000 / 2 ^ 20 / bandw else 0)"

section \<open>The kind of a message\<close>

definition size_condition :: "int \<Rightarrow> int \<Rightarrow> int \<Rightarrow> bool" where
  "size_condition c_size c_cond m_size =
     (if c_cond = 0 then m_size < c_size else if c_cond = 1 then m_size = c_size else m_size > c_size)"

definition connection_can_be_used :: "t_connection \<Rightarrow> int \<Rightarrow> int \<Rightarrow> bool" where
  "connection_can_be_used c tag sz =
     (if tag \<notin> set (conn_tags c) then False
      else let res1 = size_condition (first_message_size c) (first_size_condition c) sz;
               res2 = size_condition (second_message_size c) (second_size_condition c) sz
           in if conn_operation c = 0 then res1 \<and> res2 else res1 \<or> res2)"

definition joins :: "machid \<times> machid \<Rightarrow> machid \<Rightarrow> machid \<Rightarrow> bool" where
  "joins ends s d \<longleftrightarrow> ends = (s, d) \<or> ends = (d, s)"

definition get_communication_type :: "taskid \<Rightarrow> taskid \<Rightarrow> int \<Rightarrow> int \<Rightarrow> 'z sim_scheme
    \<Rightarrow> (com_type \<times> connid option) res" where
  "get_communication_type task partner tag sz s =
     (let node = node_of_task s task; node_partner = node_of_task s partner in
      if node = node_partner \<and> (tag = CUDA_TAG \<or> tag = OCL_TAG) then
        (if \<not> accelerator (plat s) node \<or> \<not> task_accelerator s task
         then Inl (Panic ''Error in accelerator communication type in a non-accelerator task'')
         else Inr (ACCELERATOR_COM_TYPE, None))
      else if node = node_partner then Inr (MEMORY_COMMUNICATION_TYPE, None)
      else if machine_of_node s node = machine_of_node s node_partner then Inr (INTERNAL_NETWORK_COM_TYPE, None)
      else
        let sm = machine_of_node s node; dm = machine_of_node s node_partner in
        (case List.find (\<lambda>c. joins (conn_ends s c) sm dm \<and>
                  connection_can_be_used (connection (plat s) c) tag sz)
                (dedicated_connections (plat s) sm) of
           Some c \<Rightarrow> Inr (DEDICATED_CONNECTION_COM_TYPE, Some c)
         | None \<Rightarrow> Inr (EXTERNAL_NETWORK_COM_TYPE, None)))"

section \<open>Bandwidth\<close>

text \<open>The share of a message when more messages than the maximum use the resource.\<close>

definition contention_ratio :: "bus \<Rightarrow> real" where
  "contention_ratio b = (if cur_messages b \<le> max_messages b then 1
     else real_of_int (max_messages b) / real_of_int (cur_messages b))"

definition shared_bandwidth :: "real \<Rightarrow> rand_kind \<Rightarrow> bus \<Rightarrow> 'z sim_scheme \<Rightarrow> (real \<times> 'z sim_scheme) res" where
  "shared_bandwidth bw k b s =
     (let (r, s1) = RANDOM_GenerateRandom k s; bandw = bw_ns_per_byte (bw + r); ratio = contention_ratio b
      in if ratio \<noteq> 0 then Inr (bandw / ratio, s1) else Inl (Panic ''bandw = 0 !''))"

definition recompute_memory_bandwidth :: "tid \<Rightarrow> 'z sim_scheme \<Rightarrow> (real \<times> 'z sim_scheme) res" where
  "recompute_memory_bandwidth t s = (let nd = get_node_of_thread t s in
     shared_bandwidth (node_bandwidth (plat s) nd) R_memory_bandwidth (buses s (NodeBus nd)) s)"

definition recompute_internal_network_bandwidth :: "tid \<Rightarrow> 'z sim_scheme \<Rightarrow> (real \<times> 'z sim_scheme) res" where
  "recompute_internal_network_bandwidth t s = (let m = machine_of_node s (get_node_of_thread t s) in
     shared_bandwidth (remote_bandwidth (plat s) m) R_network_bandwidth (buses s (MachBus m)) s)"

definition recompute_accelerator_bandwidth :: "tid \<Rightarrow> 'z sim_scheme \<Rightarrow> (real \<times> 'z sim_scheme) res" where
  "recompute_accelerator_bandwidth t s = (let nd = get_node_of_thread t s in
     if \<not> accelerator (plat s) nd then Inl AssertFailed
     else shared_bandwidth (acc_bandwidth (plat s) nd) R_acc_memory_bandwidth (buses s (AccBus nd)) s)"

section \<open>The external network\<close>

definition recompute_external_network_traffic :: "int \<Rightarrow> 'z sim_scheme \<Rightarrow> 'z sim_scheme" where
  "recompute_external_network_traffic sz s =
     s\<lparr>increment_missatges := increment_missatges s + real_of_int (to_int sz)\<rparr>"

definition set_traffic_timer :: "'z sim_scheme \<Rightarrow> 'z sim_scheme res" where
  "set_traffic_timer s =
     bindE (EVENT_timer (PERIODIC_TRAFFIC + current_time s) False M_COM None COM_EXT_NET_TRAFFIC_TIMER s)
       (\<lambda>(_, s1). Inr s1)"

definition periodic_external_network_traffic_init :: "'z sim_scheme \<Rightarrow> 'z sim_scheme res" where
  "periodic_external_network_traffic_init s =
     set_traffic_timer (s\<lparr>suma_missatges := 0, increment_missatges := 0\<rparr>)"

definition periodic_recompute_external_network_traffic :: "'z sim_scheme \<Rightarrow> 'z sim_scheme res" where
  "periodic_recompute_external_network_traffic s =
     (let alfa = external_net_alfa (plat s);
          s1 = s\<lparr>suma_missatges := suma_missatges s * alfa +
                    (increment_missatges s / PERIODIC_TRAFFIC) * (1 - alfa), increment_missatges := 0\<rparr>
      in if Event_queue s1 \<noteq> [] then set_traffic_timer s1 else Inr s1)"

definition external_network_general_traffic :: "timer \<Rightarrow> real" where
  "external_network_general_traffic temps = 0"

definition external_network_application_traffic :: "'z sim_scheme \<Rightarrow> real" where
  "external_network_application_traffic s = suma_missatges s"

definition external_network_bandwidth_ratio :: "traffic_function \<Rightarrow> real \<Rightarrow> real \<Rightarrow> real res" where
  "external_network_bandwidth_ratio f max_value traffic =
     (case f of
        EXP \<Rightarrow> Inr (if max_value \<noteq> 0 then exp (- 5 * traffic / max_value) else 1)
      | LOG \<Rightarrow> if max_value \<noteq> 0
               then let x = 10 - 10 * traffic / max_value in if x > 0 then Inr (log 10 x) else Inl NotANumber
               else Inr 1
      | LINEAL \<Rightarrow> Inr (if max_value \<noteq> 0 \<and> traffic \<noteq> 0
               then (if traffic < max_value then (max_value - traffic) / max_value else 0) else 1)
      | _ \<Rightarrow> Inr 1)"

definition recompute_external_network_bandwidth :: "'z sim_scheme \<Rightarrow> (real \<times> 'z sim_scheme) res" where
  "recompute_external_network_bandwidth s =
     (let traffic = external_net_gamma (plat s) * external_network_general_traffic (current_time s) +
                    external_net_beta (plat s) * external_network_application_traffic s
      in bindE (external_network_bandwidth_ratio (wan_traffic_function (plat s)) (max_traffic_value (plat s)) traffic)
         (\<lambda>ratio. let (r, s1) = RANDOM_GenerateRandom R_external_network_bandwidth s in
           if ratio \<noteq> 0 then Inr ((wan_bandwidth (plat s) + r) * ratio, s1)
           else Inl (Panic ''External network ratio equals 0'')))"

section \<open>The time of a message\<close>

definition set_last_comm :: "tid \<Rightarrow> real \<Rightarrow> int \<Rightarrow> 'z sim_scheme \<Rightarrow> 'z sim_scheme" where
  "set_last_comm t bandw sz s = upd_comm t (\<lambda>c. c\<lparr>last_comm_bandwidth := bandw,
     last_comm_bytes := to_int sz, last_comm_ti := current_time s\<rparr>) s"

text \<open>\<open>transferencia\<close> gives the time of the message and the time its resources are in use.\<close>

definition timed :: "tid \<Rightarrow> int \<Rightarrow> real \<Rightarrow> real \<Rightarrow> real \<Rightarrow> 'z sim_scheme \<Rightarrow> (real \<times> real) \<times> 'z sim_scheme" where
  "timed t sz bandw extra full_bw s =
     ((bandw * real_of_int sz + extra, bw_ns_per_byte full_bw * real_of_int sz), set_last_comm t bandw sz s)"

definition transferencia :: "int \<Rightarrow> com_type \<Rightarrow> tid \<Rightarrow> connid \<Rightarrow> 'z sim_scheme
    \<Rightarrow> ((real \<times> real) \<times> 'z sim_scheme) res" where
  "transferencia sz ct t c s =
     (let nd = get_node_of_thread t s; m = machine_of_node s nd; p = plat s in
      bindE (locate_task (dest (sends s t)) s) (\<lambda>partner.
      (case ct of
         MEMORY_COMMUNICATION_TYPE \<Rightarrow>
           if node_bandwidth p nd = 0 then Inr ((0, 0), s)
           else bindE (recompute_memory_bandwidth t s) (\<lambda>(bandw, s1).
             Inr (timed t sz bandw 0 (node_bandwidth p nd) s1))
       | INTERNAL_NETWORK_COM_TYPE \<Rightarrow>
           if remote_bandwidth p m = 0 then Inr ((0, 0), s)
           else bindE (recompute_internal_network_bandwidth t s) (\<lambda>(bandw, s1).
             Inr (timed t sz bandw 0 (remote_bandwidth p m) s1))
       | EXTERNAL_NETWORK_COM_TYPE \<Rightarrow>
           if wan_bandwidth p = 0 then Inr ((0, 0), s)
           else bindE (recompute_external_network_bandwidth (recompute_external_network_traffic sz s)) (\<lambda>(bw, s1).
             Inr (timed t sz (bw_ns_per_byte bw)
               (flight_times p m (machine_of_node s (node_of_task s partner))) (wan_bandwidth p) s1))
       | DEDICATED_CONNECTION_COM_TYPE \<Rightarrow>
           let k = connection p c in
           if conn_bandwidth k = 0 then Inr ((0, 0), s)
           else Inr (timed t sz (bw_ns_per_byte (conn_bandwidth k)) (flight_time k) (conn_bandwidth k) s)
       | EXTERNAL_MODEL_COM_TYPE \<Rightarrow>
           (case external_bandwidth p of
              None \<Rightarrow> Inl (Panic ''Computing transfer time through external model not defined'')
            | Some g \<Rightarrow>
                let bandw = bw_ns_per_byte (g nd (node_of_task s partner) (task_of (threads s t)) partner
                              (mess_tag (sends s t)) (to_int sz));
                    time = bandw * real_of_int sz
                in Inr ((time, time), s))
       | ACCELERATOR_COM_TYPE \<Rightarrow>
           if \<not> accelerator p nd then Inl AssertFailed
           else if acc_bandwidth p nd = 0 then Inr ((0, 0), s)
           else bindE (recompute_accelerator_bandwidth t s) (\<lambda>(bandw, s1).
             Inr (timed t sz bandw 0 (acc_bandwidth p nd) s1))
       | Other_com_type \<Rightarrow> Inl (Panic ''Unknown communication type!''))))"

section \<open>Properties of the cost model\<close>

lemma bw_ns_per_byte_mono: "0 < a \<Longrightarrow> a \<le> b \<Longrightarrow> bw_ns_per_byte b \<le> bw_ns_per_byte a"
  by (simp add: bw_ns_per_byte_def frac_le)

lemma bw_ns_per_byte_nonneg: "0 \<le> a \<Longrightarrow> 0 \<le> bw_ns_per_byte a"
  by (simp add: bw_ns_per_byte_def)

definition bus_sane :: "bus \<Rightarrow> bool" where
  "bus_sane b \<longleftrightarrow> 0 \<le> max_messages b \<and> 0 \<le> cur_messages b"

lemma contention_ratio_range:
  assumes "bus_sane b"
  shows "0 \<le> contention_ratio b" "contention_ratio b \<le> 1"
  using assms by (auto simp: contention_ratio_def bus_sane_def divide_le_eq)

definition no_noise :: "'z sim_scheme \<Rightarrow> bool" where
  "no_noise s \<longleftrightarrow> (\<forall>k i. random_numbers s k i = 0)"

lemma shared_bandwidth_ge:
  assumes "shared_bandwidth bw k b s = Inr (x, s')" "no_noise s" "bus_sane b" "0 \<le> bw"
  shows "bw_ns_per_byte bw \<le> x" "0 \<le> x"
proof -
  have x: "contention_ratio b \<noteq> 0" "x = bw_ns_per_byte bw / contention_ratio b"
    using assms(1,2) by (auto simp: shared_bandwidth_def RANDOM_GenerateRandom_def no_noise_def Let_def split: if_splits)
  have r: "0 < contention_ratio b" "contention_ratio b \<le> 1"
    using contention_ratio_range[OF assms(3)] x(1) by auto
  have "bw_ns_per_byte bw * contention_ratio b \<le> bw_ns_per_byte bw * 1"
    using r bw_ns_per_byte_nonneg[OF assms(4)] by (intro mult_left_mono) auto
  then show "bw_ns_per_byte bw \<le> x" using x(2) r(1) by (simp add: pos_le_divide_eq)
  then show "0 \<le> x" using bw_ns_per_byte_nonneg[OF assms(4)] by linarith
qed

definition platform_sane :: "platform \<Rightarrow> bool" where
  "platform_sane p \<longleftrightarrow> (\<forall>k. 0 \<le> node_bandwidth p k) \<and> (\<forall>k. 0 \<le> remote_bandwidth p k) \<and>
     (\<forall>k. 0 \<le> acc_bandwidth p k) \<and> 0 \<le> wan_bandwidth p \<and> (\<forall>k. 0 \<le> conn_bandwidth (connection p k)) \<and>
     (\<forall>k. 0 \<le> flight_time (connection p k)) \<and> (\<forall>a b. 0 \<le> flight_times p a b) \<and>
     0 \<le> external_net_beta p \<and> 0 \<le> max_traffic_value p"

lemma log_ratio_range:
  assumes "0 \<le> traffic" "0 < mx"
  shows "10 * traffic \<le> 9 * mx \<Longrightarrow> \<exists>r. external_network_bandwidth_ratio LOG mx traffic = Inr r \<and> 0 \<le> r \<and> r \<le> 1"
    and "9 * mx < 10 * traffic \<Longrightarrow> traffic < mx \<Longrightarrow> \<exists>r. external_network_bandwidth_ratio LOG mx traffic = Inr r \<and> r < 0"
    and "mx \<le> traffic \<Longrightarrow> external_network_bandwidth_ratio LOG mx traffic = Inl NotANumber"
proof -
  let ?x = "10 - 10 * traffic / mx"
  have x: "?x = 10 * (mx - traffic) / mx" using assms(2) by (simp add: field_simps)
  show "\<exists>r. external_network_bandwidth_ratio LOG mx traffic = Inr r \<and> 0 \<le> r \<and> r \<le> 1" if "10 * traffic \<le> 9 * mx"
  proof -
    have "1 \<le> ?x" "?x \<le> 10" using that assms by (simp_all add: x pos_le_divide_eq pos_divide_le_eq)
    then show ?thesis using assms by (simp add: external_network_bandwidth_ratio_def log_le_one_cancel_iff)
  qed
  show "\<exists>r. external_network_bandwidth_ratio LOG mx traffic = Inr r \<and> r < 0" if "9 * mx < 10 * traffic" "traffic < mx"
  proof -
    have "0 < ?x" "?x < 1" using that assms by (simp_all add: x pos_less_divide_eq pos_divide_less_eq)
    then show ?thesis using assms by (simp add: external_network_bandwidth_ratio_def)
  qed
  show "external_network_bandwidth_ratio LOG mx traffic = Inl NotANumber" if "mx \<le> traffic"
  proof -
    have "?x \<le> 0" using that assms(2) by (simp add: x divide_nonpos_pos)
    then show ?thesis using assms(2) by (simp add: external_network_bandwidth_ratio_def)
  qed
qed

lemma other_ratio_range:
  assumes "0 \<le> traffic" "0 \<le> mx" "f \<noteq> LOG"
  shows "\<exists>r. external_network_bandwidth_ratio f mx traffic = Inr r \<and> 0 \<le> r \<and> r \<le> 1"
  using assms by (cases f) (auto simp: external_network_bandwidth_ratio_def)

text \<open>
  The ratio that scales the bandwidth of the external network stays between 0 and 1,
  as its comment demands, for every traffic of at least 0 and every function of the traffic but one. The
  logarithmic function falls below 0 as soon as the traffic exceeds nine tenths of its maximum, and
  has no value at all at the maximum.
\<close>

theorem external_ratio_range:
  assumes "0 \<le> traffic" "0 < mx"
  shows "(f \<noteq> LOG \<longrightarrow> (\<exists>r. external_network_bandwidth_ratio f mx traffic = Inr r \<and> 0 \<le> r \<and> r \<le> 1)) \<and>
    (10 * traffic \<le> 9 * mx \<longrightarrow> (\<exists>r. external_network_bandwidth_ratio LOG mx traffic = Inr r \<and> 0 \<le> r \<and> r \<le> 1)) \<and>
    (9 * mx < 10 * traffic \<and> traffic < mx \<longrightarrow>
       (\<exists>r. external_network_bandwidth_ratio LOG mx traffic = Inr r \<and> r < 0)) \<and>
    (mx \<le> traffic \<longrightarrow> external_network_bandwidth_ratio LOG mx traffic = Inl NotANumber)"
  using other_ratio_range[of traffic mx f] log_ratio_range[OF assms] assms by auto

theorem external_ratio_range_witness:
  "(\<exists>r. external_network_bandwidth_ratio LINEAL 100 95 = Inr r \<and> 0 \<le> r \<and> r \<le> 1) \<and>
    (\<exists>r. external_network_bandwidth_ratio LOG 100 50 = Inr r \<and> 0 \<le> r \<and> r \<le> 1) \<and>
    (\<exists>r. external_network_bandwidth_ratio LOG 100 95 = Inr r \<and> r < 0) \<and>
    external_network_bandwidth_ratio LOG 100 120 = Inl NotANumber"
  using external_ratio_range[of 95 100 LINEAL] external_ratio_range[of 50 100 LOG]
    external_ratio_range[of 120 100 LOG] by simp

definition ex_platform :: platform where
  "ex_platform = \<lparr>node_bandwidth = (\<lambda>_. 1000), remote_bandwidth = (\<lambda>_. 250),
     acc_bandwidth = (\<lambda>_. 500), accelerator = (\<lambda>_. False), 
     dedicated_connections = (\<lambda>_. [0]),
     connection = (\<lambda>_. \<lparr>conn_tags = [1], first_message_size = 1000, first_size_condition = 0,
        second_message_size = 1000, second_size_condition = 0, conn_operation = 0, conn_bandwidth = 100,
        conn_startup = 0, flight_time = 10\<rparr>),
     wan_bandwidth = 10, wan_traffic_function = LINEAL, max_traffic_value = 100, flight_times = (\<lambda>_ _. 20),
     external_net_alfa = 1 / 10, external_net_beta = 0, external_net_gamma = 1, RTT_enabled = False,
     RTT_time = 0, local_startup = (\<lambda>_. 0), remote_startup = (\<lambda>_. 0), external_net_startup = (\<lambda>_. 0),
     acc_startup = (\<lambda>_. 0), acc_memory_startup = (\<lambda>_. 0), DATA_COPY_enabled = False,
     DATA_COPY_message_size = 0, wait_logical_recv = False, extra_assert = False,
     external_bandwidth = None, external_startup = None, external_kind = None\<rparr>"

text \<open>
  Two machines: task 0 runs on node 0, task 1 on node 1 and task 2 on node 2 of the second machine.
  All links are limited to one; three threads, one for each task.
\<close>

definition ex_sim_pool :: "owner \<Rightarrow> pool" where
  "ex_sim_pool ow = \<lparr>free_in_links = [0], free_out_links = [1], busy_in_links = [], busy_out_links = [],
     th_for_in = [], th_for_out = [], half_duplex_links = False, wait_inlink_port = [],
     wait_outlink_port = [], wait_in_copy_segment = [], wait_out_copy_segment = []\<rparr>"

definition ex_sim_thread :: "tid \<Rightarrow> t_thread" where
  "ex_sim_thread t = \<lparr>task_of = int (t mod 3), act = A_SEND, original_thread = False, last_paraver = 0,
     initial_wait_link_time = 0, block_due_link = 0, local_link = None, partner_link = None,
     local_hd_link = None, partner_hd_link = None, partner_node = None, port_send_link = L_NIL,
     port_recv_link = L_NIL, copy_segment_link_source = L_NIL, copy_segment_link_dest = L_NIL\<rparr>"

definition ex_sim_send :: t_send where
  "ex_sim_send = \<lparr>dest = 1, mess_size = 1024, mess_tag = 1, comm_type = INTERNAL_NETWORK_COM_TYPE,
     rendez_vous = False, dest_thread = 0, communic_id = 0, immediate = False\<rparr>"

definition ex_sim_recv :: t_recv where
  "ex_sim_recv = \<lparr>ori = 0, ori_thread = 0, recv_tag = 1, recv_size = 1024, recv_communic_id = 0,
     recv_comm_type = INTERNAL_NETWORK_COM_TYPE\<rparr>"

definition ex_sim_queues :: t_msgq where
  "ex_sim_queues = \<lparr>mess_recv = [], recvq = [], sendq = [], recv_without_send = [], send_without_recv = [],
     irecvs_executed = []\<rparr>"

definition ex_sim_exec :: "tid \<Rightarrow> t_exec" where
  "ex_sim_exec t = \<lparr>threadid = 0, actions = [AC_SEND ex_sim_send], twin_thread = None, thread_cpu = Some t,
     host = False, kernel = False, doing_context_switch = False, to_be_preempted = False,
     doing_busy_wait = False, doing_startup = False, startup_done = False, doing_copy = False,
     copy_done = False, doing_roundtrip = False, roundtrip_done = False, put_into_ready = 0,
     min_time_to_be_preempted = 0, start_wait_for_message = 0, logical_send = 0, logical_recv = 0,
     physical_recv = 0, sch_parameters = Par_NIL, base_priority = 0, idle_block = False, sstask_id = 0,
     sstask_type = 0, first_acc_event_read = False,
     acc_in_block_event = \<lparr>block_type = 0, block_value = 0, paraver_time = 0\<rparr>, acc_recv_sync = False, acc_sndr_sync = False, doing_acc_comm = False,
     marked_for_deletion = False, account = clear_account, freed = False\<rparr>"

definition ex_sim_cpu :: "cpuid \<Rightarrow> t_cpu" where
  "ex_sim_cpu c = \<lparr>current_thread = Some c, current_thread_context = Some c, is_gpu = False\<rparr>"

definition ex_sim_scheduler :: t_scheduler where
  "ex_sim_scheduler = \<lparr>sch_policy = P_FIFO, quantum = 0, priority_preemptive = False,
     lost_cpu_on_send = False, context_switch = 0, busywait_before_block = False, minimum_quantum = 0,
     quantum_factor = 0, sch_boost = \<lparr>boost_best = - 5, boost_worst = 5, boost_base_prio = 0,
       boost_recv_first = - 1, boost_recv_last = 1, boost_sender_last = - 1\<rparr>\<rparr>"

definition ex_sim :: sim where
  "ex_sim = \<lparr>current_time = 5, Event_queue = [], are_only_daemons = 0, next_ev = 0, in_process = None,
     thread_event = (\<lambda>_. None), loose_cpu = (\<lambda>_. False), next_event_timer = (\<lambda>_. 0), reload_done = False,
     pools = ex_sim_pool,
     links = (\<lambda>l. \<lparr>link_info = NodePool 0, link_type = IN_LINK, link_thread = None, assigned_on = 0\<rparr>),
     threads = ex_sim_thread, node_of_task = nat, machine_of_node = (\<lambda>k. if k = 2 then 1 else 0),
     comm_policy = (\<lambda>_. COMMUNIC_FIFO), infinite_mem_links = (\<lambda>_. False), infinite_net_links = (\<lambda>_. False),
     conn_ends = (\<lambda>_. (0, 1)), execs = ex_sim_exec, sends = (\<lambda>_. ex_sim_send), recvs = (\<lambda>_. ex_sim_recv),
     comms = (\<lambda>_. \<lparr>initial_communication_time = 0, physical_send = 0,
        number_buses = 0, accelerator_link = False, last_comm_ti = 0, last_comm_bandwidth = 0,
        last_comm_bytes = 0\<rparr>),
     task_q = (\<lambda>_. ex_sim_queues), thread_q = (\<lambda>_. ex_sim_queues),
     task_threads = (\<lambda>i. if i = 0 then [0] else if i = 1 then [1] else if i = 2 then [2] else []),
     task_accelerator = (\<lambda>_. False), tasks_count = 3, unread = (\<lambda>_. []), next_tid = 3,
     cpus = ex_sim_cpu, node_cpus = (\<lambda>k. if k < 3 then [k] else []), ready = (\<lambda>_. []),
     scheduler = (\<lambda>_. ex_sim_scheduler), finished_threads_count = 0, plat = ex_platform,
     buses = (\<lambda>_. \<lparr>max_messages = 1, cur_messages = 0, wait_for_bus = [], on_bus = []\<rparr>),
     suma_missatges = 0, increment_missatges = 0, random_numbers = (\<lambda>_ _. 0), random_calls = 0\<rparr>"

lemmas ex_sim_defs = ex_sim_def ex_sim_pool_def ex_sim_thread_def ex_platform_def ex_sim_send_def ex_sim_recv_def
  ex_sim_queues_def ex_sim_exec_def ex_sim_cpu_def ex_sim_scheduler_def

lemma transfer_resources_le:
  assumes "transferencia sz ct t c s = Inr ((ti, tr), s')"
    and "no_noise s" "platform_sane (plat s)" "\<And>b. bus_sane (buses s b)" "0 \<le> sz"
    and "0 \<le> suma_missatges s" "ct = EXTERNAL_NETWORK_COM_TYPE \<Longrightarrow> wan_traffic_function (plat s) \<noteq> LOG"
  shows "tr \<le> ti"
proof -
  have sz: "0 \<le> real_of_int sz" using assms(5) by simp
  have mono: "x * real_of_int sz \<le> y * real_of_int sz + z" if "x \<le> y" "0 \<le> z" for x y z
    using mult_right_mono[OF that(1) sz] that(2) by linarith
  have shared: "bw_ns_per_byte bw \<le> x" if "shared_bandwidth bw k b s = Inr (x, u)" "bus_sane b" "0 \<le> bw" for bw k b x u
    using shared_bandwidth_ge(1)[OF that(1) assms(2) that(2,3)] .
  have p: "platform_sane (plat s)" by (rule assms(3))
  show ?thesis
  proof (cases ct)
    case EXTERNAL_NETWORK_COM_TYPE
    show ?thesis
    proof (cases "wan_bandwidth (plat s) = 0")
      case True
      with assms(1) EXTERNAL_NETWORK_COM_TYPE show ?thesis by (auto simp: transferencia_def Let_def bindE_eq_Inr)
    next
      case False
      let ?s = "recompute_external_network_traffic sz s"
      obtain bw s1 f where b: "recompute_external_network_bandwidth ?s = Inr (bw, s1)"
        "ti = bw_ns_per_byte bw * real_of_int sz + f" "0 \<le> f" "tr = bw_ns_per_byte (wan_bandwidth (plat s)) * real_of_int sz"
        using assms(1) False EXTERNAL_NETWORK_COM_TYPE p
        by (auto simp: transferencia_def Let_def bindE_eq_Inr timed_def platform_sane_def)
      have same: "plat ?s = plat s" "suma_missatges ?s = suma_missatges s" "random_numbers ?s = random_numbers s"
        by (simp_all add: recompute_external_network_traffic_def)
      let ?tr = "external_net_beta (plat s) * suma_missatges s"
      have "0 \<le> ?tr" using assms(6) p by (simp add: platform_sane_def)
      then obtain r where r: "external_network_bandwidth_ratio (wan_traffic_function (plat s)) (max_traffic_value (plat s)) ?tr = Inr r"
        "0 \<le> r" "r \<le> 1"
        using other_ratio_range[of ?tr "max_traffic_value (plat s)" "wan_traffic_function (plat s)"]
          assms(7)[OF EXTERNAL_NETWORK_COM_TYPE] p unfolding platform_sane_def by blast
      then have bw: "bw = wan_bandwidth (plat s) * r" "r \<noteq> 0"
        using b(1) assms(2) by (auto simp: recompute_external_network_bandwidth_def same RANDOM_GenerateRandom_def
            no_noise_def external_network_general_traffic_def external_network_application_traffic_def
            Let_def bindE_eq_Inr split: if_splits)
      have w: "0 < wan_bandwidth (plat s)" using False p by (simp add: platform_sane_def less_le)
      have "bw_ns_per_byte (wan_bandwidth (plat s)) \<le> bw_ns_per_byte bw"
        using w r(2,3) bw mult_left_mono[of r 1 "wan_bandwidth (plat s)"] by (intro bw_ns_per_byte_mono) auto
      then show ?thesis using b mono by blast
    qed
  qed (use assms(1,4) p in \<open>auto simp: transferencia_def Let_def bindE_eq_Inr timed_def platform_sane_def
        recompute_memory_bandwidth_def recompute_internal_network_bandwidth_def
        recompute_accelerator_bandwidth_def split: if_splits option.splits intro!: mono mult_right_mono[OF _ sz] dest!: shared\<close>)
qed


lemma ex_sim_ok: "no_noise ex_sim" "platform_sane (plat ex_sim)" "bus_sane (buses ex_sim b)"
  by (simp_all add: ex_sim_defs no_noise_def platform_sane_def bus_sane_def)

lemma ex_sim_transfer:
  "\<exists>ti tr s'. transferencia 1024 INTERNAL_NETWORK_COM_TYPE 0 0 ex_sim = Inr ((ti, tr), s')"
  by (simp add: transferencia_def locate_task_def get_node_of_thread_def recompute_internal_network_bandwidth_def
      shared_bandwidth_def RANDOM_GenerateRandom_def contention_ratio_def timed_def Let_def ex_sim_defs)


text \<open>
  The size of a message is a \<open>long long\<close>, but the functions that choose the connection
  take it as an \<open>int\<close>: a message of 2 GB up to 4 GB counts as a negative size, so it is sent over
  a dedicated connection that is reserved to messages below some size, and the conditions on a minimal
  size refuse it.
\<close>

theorem huge_message_counts_as_small:
  assumes "2 ^ 31 \<le> sz" "sz < 2 ^ 32" "tag \<in> set (conn_tags c)" "conn_operation c = 0"
    and "0 \<le> first_message_size c" "0 \<le> second_message_size c"
  shows "connection_can_be_used c tag (to_int sz) \<longleftrightarrow> first_size_condition c = 0 \<and> second_size_condition c = 0"
proof -
  have "sz + 2 ^ 31 = (sz - 2 ^ 31) + 2 ^ 32" by simp
  then have "(sz + 2 ^ 31) mod 2 ^ 32 = (sz - 2 ^ 31) mod 2 ^ 32" by (simp only: mod_add_self2)
  also have "\<dots> = sz - 2 ^ 31" using assms(1,2) by (intro mod_pos_pos_trivial) auto
  finally have "to_int sz = sz - 2 ^ 32" by (simp add: to_int_def)
  then have "to_int sz < 0" using assms(2) by simp
  with assms(3-6) show ?thesis
    by (auto simp: connection_can_be_used_def size_condition_def Let_def)
qed

theorem huge_message_counts_as_small_witness:
  "connection_can_be_used (connection ex_platform 0) 1 (to_int (2 ^ 31)) \<longleftrightarrow>
     first_size_condition (connection ex_platform 0) = 0 \<and> second_size_condition (connection ex_platform 0) = 0"
  by (rule huge_message_counts_as_small) (simp_all add: ex_platform_def)

end
