(* ===== verification/Sends.thy ===== *)
theory Sends
  imports MessageCost
begin

text \<open>
  Sending a message and giving back its resources (\<^verbatim>\<open>Simulator/model/communic.c\<close>: the functions
  \<open>really_send_*\<close> and \<open>*_resources_COM_TIMER_OUT\<close>; \<^verbatim>\<open>memory.c\<close>: \<open>really_RMA\<close>). A sender first gets its
  links (theory \<open>Links\<close>), then a bus; without one it waits in a queue. When it has both, two events are
  scheduled: the release of the resources and the end of the message. A release wakes the first waiter
  of each link queue and then of the bus queue, which runs \<open>really_send\<close> again.

  Collective operations, ports and copies wait in the same queues; what continues them
  (\<open>global_op_get_all_buses\<close>, \<open>global_op_reserva_links\<close>, \<open>really_port_send\<close>, \<open>really_copy_segment\<close>)
  is the argument \<open>g\<close>.
\<close>

section \<open>Buses\<close>

definition START_BUS_WAIT_TIME :: "tid \<Rightarrow> 'z sim_scheme \<Rightarrow> 'z sim_scheme" where
  "START_BUS_WAIT_TIME t s = upd_account t (\<lambda>c. c\<lparr>initial_wait_bus_time := current_time s\<rparr>) s"

definition ACCUMULATE_BUS_WAIT_TIME :: "tid \<Rightarrow> 'z sim_scheme \<Rightarrow> 'z sim_scheme" where
  "ACCUMULATE_BUS_WAIT_TIME t s =
     (let i = initial_wait_bus_time (account (execs s t)) in
      if i \<noteq> 0 then upd_account t (\<lambda>c. c\<lparr>block_due_buses := (current_time s - i) + block_due_buses c,
                                       initial_wait_bus_time := 0\<rparr>) s
      else s)"

text \<open>
  Take a bus or wait for one; \<open>m\<close> is the machine whose policy counts, \<open>note_wait\<close> says whether the
  start of the wait is accounted. A bus owner without limit (0) has nothing to take.
\<close>

definition take_bus :: "bool \<Rightarrow> bus_owner \<Rightarrow> machid \<Rightarrow> tid \<Rightarrow> 'z sim_scheme \<Rightarrow> bool \<times> 'z sim_scheme" where
  "take_bus note_wait b m t s =
     (if max_messages (buses s b) \<noteq> 0 then
        if comm_policy s m = COMMUNIC_FIFO \<and> cur_messages (buses s b) \<ge> max_messages (buses s b)
        then (False, (if note_wait then START_BUS_WAIT_TIME t else id)
                       (upd_bus b (\<lambda>x. x\<lparr>wait_for_bus := wait_for_bus x @ [t]\<rparr>) s))
        else (True, upd_bus b (\<lambda>x. x\<lparr>cur_messages := cur_messages x + 1,
                                      on_bus := on_bus x @ [(t, current_time s)]\<rparr>) s)
      else (True, s))"

section \<open>Sending\<close>

definition COM_TIMER_OUT :: int where "COM_TIMER_OUT = 1"
definition RMA_TIMER_OUT :: int where "RMA_TIMER_OUT = 3"
definition COM_TIMER_OUT_RESOURCES_MEM :: int where "COM_TIMER_OUT_RESOURCES_MEM = 6"
definition COM_TIMER_OUT_RESOURCES_NET :: int where "COM_TIMER_OUT_RESOURCES_NET = 7"
definition COM_TIMER_OUT_RESOURCES_WAN :: int where "COM_TIMER_OUT_RESOURCES_WAN = 8"
definition COM_TIMER_OUT_RESOURCES_DED :: int where "COM_TIMER_OUT_RESOURCES_DED = 9"
definition COM_TIMER_OUT_RESOURCES_EXT_MODEL :: int where "COM_TIMER_OUT_RESOURCES_EXT_MODEL = 10"
definition COM_TIMER_OUT_RESOURCES_ACC :: int where "COM_TIMER_OUT_RESOURCES_ACC = 11"

text \<open>\<open>thread->event = EVENT_timer (when, NOT_DAEMON, M_COM, thread, info)\<close>.\<close>

definition com_timer :: "timer \<Rightarrow> tid \<Rightarrow> int \<Rightarrow> 'z sim_scheme \<Rightarrow> 'z sim_scheme res" where
  "com_timer when t info s = bindE (EVENT_timer when False M_COM (Some t) info s) (\<lambda>(r, s1).
     Inr (s1\<lparr>thread_event := (thread_event s1)(t := r)\<rparr>))"

text \<open>
  The last part of every sender: account for the wait, compute the times, and schedule the release
  of the resources (\<open>info\<close>) and the end of the message. \<open>rtt\<close> is the part of the internal network
  that adds the round trip time of the rendez-vous protocol.
\<close>

definition begin_transfer :: "tid \<Rightarrow> 'z sim_scheme \<Rightarrow> 'z sim_scheme" where
  "begin_transfer t s =
     upd_thread t (\<lambda>th. th\<lparr>last_paraver := current_time s\<rparr>)
       (upd_comm t (\<lambda>c. c\<lparr>physical_send := current_time s\<rparr>)
       (upd_account t (\<lambda>a. a\<lparr>block_due_resources :=
          (current_time s - initial_communication_time (comms s t)) + block_due_resources a\<rparr>) s))"

definition start_transfer :: "com_type \<Rightarrow> connid \<Rightarrow> int \<Rightarrow> (real \<Rightarrow> 'z sim_scheme \<Rightarrow> (real \<times> 'z sim_scheme) res)
    \<Rightarrow> tid \<Rightarrow> 'z sim_scheme \<Rightarrow> 'z sim_scheme res" where
  "start_transfer ct c info rtt t s =
     bindE (transferencia (mess_size (sends s t)) ct t c (begin_transfer t s)) (\<lambda>((ti, t_recursos), s1).
     if t_recursos > ti then Inl (Panic ''resources > transmission time!'')
     else bindE (rtt ti s1) (\<lambda>(ti', s2).
     bindE (EVENT_timer (current_time s + t_recursos) False M_COM (Some t) info s2) (\<lambda>(_, s3).
     com_timer (current_time s + ti') t COM_TIMER_OUT s3)))"

definition no_rtt :: "real \<Rightarrow> 'z sim_scheme \<Rightarrow> (real \<times> 'z sim_scheme) res" where
  "no_rtt ti s = Inr (ti, s)"

text \<open>The test reads the local variable \<open>comm_type\<close>, which was never assigned.\<close>

definition internal_rtt :: "tid \<Rightarrow> real \<Rightarrow> 'z sim_scheme \<Rightarrow> (real \<times> 'z sim_scheme) res" where
  "internal_rtt t ti s =
     (if RTT_enabled (plat s) \<and> rendez_vous (sends s t) then Inl Uninit else Inr (ti, s))"

definition really_send_memory_message :: "tid \<Rightarrow> 'z sim_scheme \<Rightarrow> 'z sim_scheme run" where
  "really_send_memory_message t s =
     (let nd = get_node_of_thread t s; m = machine_of_node s nd in
      bindR (Some (locate_task (dest (sends s t)) s)) (\<lambda>partner.
      bindR (LINKS_get_mem_links t (task_of (threads s t)) partner s) (\<lambda>(ok, s1).
      if \<not> ok then retR s1
      else let (got, s2) = take_bus True (NodeBus nd) m t s1 in
        if \<not> got then retR s2
        else Some (start_transfer MEMORY_COMMUNICATION_TYPE 0 COM_TIMER_OUT_RESOURCES_MEM no_rtt t s2))))"

definition really_send_internal_network :: "tid \<Rightarrow> 'z sim_scheme \<Rightarrow> 'z sim_scheme run" where
  "really_send_internal_network t s =
     (let nd = get_node_of_thread t s; m = machine_of_node s nd in
      bindR (Some (locate_task (dest (sends s t)) s)) (\<lambda>partner.
      bindR (Some (LINKS_get_network_links t nd (node_of_task s partner) s)) (\<lambda>(ok, s1).
      if \<not> ok then retR s1
      else let (got, s2) = take_bus True (MachBus m) m t s1 in
        if \<not> got then retR s2
        else Some (start_transfer INTERNAL_NETWORK_COM_TYPE 0 COM_TIMER_OUT_RESOURCES_NET (internal_rtt t) t s2))))"

definition really_send_external_network :: "tid \<Rightarrow> 'z sim_scheme \<Rightarrow> 'z sim_scheme run" where
  "really_send_external_network t s =
     (let m = machine_of_node s (get_node_of_thread t s) in
      bindR (Some (locate_task (dest (sends s t)) s)) (\<lambda>partner.
      bindR (Some (LINKS_get_wan_links t m (machine_of_node s (node_of_task s partner)) s)) (\<lambda>(ok, s1).
      if \<not> ok then retR s1
      else Some (start_transfer EXTERNAL_NETWORK_COM_TYPE 0 COM_TIMER_OUT_RESOURCES_WAN no_rtt t s1))))"

definition really_send_dedicated_connection :: "tid \<Rightarrow> connid \<Rightarrow> 'z sim_scheme \<Rightarrow> 'z sim_scheme run" where
  "really_send_dedicated_connection t c s =
     bindR (Some (LINKS_get_dedicated_connection_links t c s)) (\<lambda>(ok, s1).
     if \<not> ok then retR s1
     else Some (start_transfer DEDICATED_CONNECTION_COM_TYPE c COM_TIMER_OUT_RESOURCES_DED no_rtt t s1))"

definition really_send_external_model_comm_type :: "tid \<Rightarrow> 'z sim_scheme \<Rightarrow> 'z sim_scheme run" where
  "really_send_external_model_comm_type t s =
     Some (start_transfer EXTERNAL_MODEL_COM_TYPE 0 COM_TIMER_OUT_RESOURCES_EXT_MODEL no_rtt t s)"

definition really_send_acc_message :: "tid \<Rightarrow> 'z sim_scheme \<Rightarrow> 'z sim_scheme run" where
  "really_send_acc_message t s =
     (let nd = get_node_of_thread t s; m = machine_of_node s nd; b = AccBus nd in
      if \<not> accelerator (plat s) nd then failR AssertFailed
      else bindR (Some (locate_task (dest (sends s t)) s)) (\<lambda>partner.
        if \<not> LINKS_get_acc_links t (task_of (threads s t)) partner s then retR s
        else let (got, s1) = take_bus True b m t s;
                 s2 = (if max_messages (buses s b) \<noteq> 0
                       then upd_comm t (\<lambda>c. c\<lparr>accelerator_link := True\<rparr>) s1 else s1)
             in if \<not> got then retR s1
                else Some (start_transfer ACCELERATOR_COM_TYPE 0 COM_TIMER_OUT_RESOURCES_ACC no_rtt t s2)))"

definition really_send_to :: "tid \<Rightarrow> 'z sim_scheme \<Rightarrow> 'z sim_scheme run" where
  "really_send_to t s =
     (let m = sends s t in
      bindR (Some (locate_task (dest m) s)) (\<lambda>partner.
      bindR (Some (get_communication_type (task_of (threads s t)) partner (mess_tag m) (to_int (mess_size m)) s))
        (\<lambda>(_, conn).
      case comm_type m of
        MEMORY_COMMUNICATION_TYPE \<Rightarrow> really_send_memory_message t s
      | INTERNAL_NETWORK_COM_TYPE \<Rightarrow> really_send_internal_network t s
      | EXTERNAL_NETWORK_COM_TYPE \<Rightarrow> really_send_external_network t s
      | DEDICATED_CONNECTION_COM_TYPE \<Rightarrow>
          (case conn of None \<Rightarrow> failR Uninit | Some c \<Rightarrow> really_send_dedicated_connection t c s)
      | EXTERNAL_MODEL_COM_TYPE \<Rightarrow> really_send_external_model_comm_type t s
      | ACCELERATOR_COM_TYPE \<Rightarrow> really_send_acc_message t s
      | Other_com_type \<Rightarrow> failR (Panic ''Incorrect communication type!''))))"

text \<open>
  A one-sided operation. \<open>w\<close> finds the window of the thread: None when there is none, or the
  target task. The boolean \<open>remote_comm\<close> is passed as the kind of communication: 0 is memory and 1 the
  internal network. \<open>transferencia\<close> reads the partner from the union as if the action were a
  send, that is from \<open>target_rank\<close>, which stands in the field \<open>dest\<close> here.
\<close>

definition rma_size :: "'z sim_scheme \<Rightarrow> tid \<Rightarrow> int" where
  "rma_size s t = (case actions (execs s t) of AC_MPI_OS m # _ \<Rightarrow> os_size m | _ \<Rightarrow> mess_size (sends s t))"

definition really_RMA_to :: "(tid \<Rightarrow> taskid option) \<Rightarrow> tid \<Rightarrow> 'z sim_scheme \<Rightarrow> 'z sim_scheme run" where
  "really_RMA_to w t s = (case w t of
      None \<Rightarrow> failR (Panic ''Unable to locate window with identificator'')
    | Some target \<Rightarrow>
        let nd = get_node_of_thread t s; np = node_of_task s target; m = machine_of_node s nd in
        bindR (Some (LINKS_get_network_links t nd np s)) (\<lambda>(ok, s1).
        if \<not> ok then retR s1
        else let (got, s2) = (if nd \<noteq> np then take_bus False (MachBus m) m t s1 else (True, s1)) in
          if \<not> got then retR s2
          else bindR (Some (transferencia (rma_size s t)
                 (if nd \<noteq> np then INTERNAL_NETWORK_COM_TYPE else MEMORY_COMMUNICATION_TYPE) t 0 s2)) (\<lambda>((ti, _), s3).
               Some (com_timer (current_time s3 + ti) t RMA_TIMER_OUT s3))))"

section \<open>Giving back\<close>

record 's others =
  other_get_all_buses :: "tid \<Rightarrow> 's \<Rightarrow> 's run"
  other_reserva_links :: "tid \<Rightarrow> 's \<Rightarrow> 's run"
  other_port_send :: "nat \<times> tid \<times> tid \<Rightarrow> 's \<Rightarrow> 's run"
  other_copy_segment :: "tid \<times> nodeid \<times> nodeid \<Rightarrow> 's \<Rightarrow> 's run"

definition send_handlers :: "(tid \<Rightarrow> taskid option) \<Rightarrow> 'z sim_scheme others \<Rightarrow> 'z sim_scheme handlers" where
  "send_handlers w g = \<lparr>really_send = really_send_to, really_RMA = really_RMA_to w,
     global_op_reserva_links = other_reserva_links g, really_port_send = other_port_send g,
     really_copy_segment = other_copy_segment g\<rparr>"

text \<open>Take the message off its bus; the entry of the sender has to be there.\<close>

definition leave_bus :: "fault \<Rightarrow> bus_owner \<Rightarrow> tid \<Rightarrow> 'z sim_scheme \<Rightarrow> 'z sim_scheme res" where
  "leave_bus err b t s =
     (if max_messages (buses s b) \<noteq> 0 then
        (case List.find (\<lambda>u. fst u = t) (on_bus (buses s b)) of
           None \<Rightarrow> Inl err
         | Some u \<Rightarrow> Inr (upd_bus b (\<lambda>x. x\<lparr>on_bus := remove1 u (on_bus x)\<rparr>) s))
      else Inr s)"

definition one_less :: "bus_owner \<Rightarrow> 'z sim_scheme \<Rightarrow> 'z sim_scheme" where
  "one_less b s = (if cur_messages (buses s b) > 0
     then upd_bus b (\<lambda>x. x\<lparr>cur_messages := cur_messages x - 1\<rparr>) s else s)"

text \<open>
  The first waiter of the bus: a message or a one-sided operation leaves the queue and tries again; a collective
  operation collects buses until it has all of them. \<open>rma\<close> says whether one-sided operations wait here.
\<close>

definition extract_waiter :: "bus_owner \<Rightarrow> tid \<Rightarrow> 'z sim_scheme \<Rightarrow> 'z sim_scheme res" where
  "extract_waiter b t s = bindE (q_extract t (wait_for_bus (buses s b))) (\<lambda>q.
     Inr (upd_bus b (\<lambda>x. x\<lparr>wait_for_bus := q\<rparr>) s))"

definition wake_bus :: "bool \<Rightarrow> (tid \<Rightarrow> taskid option) \<Rightarrow> 'z sim_scheme others \<Rightarrow> bus_owner \<Rightarrow> 'z sim_scheme
    \<Rightarrow> 'z sim_scheme run" where
  "wake_bus rma w g b s =
     (if max_messages (buses s b) = 0 then retR s
      else (case wait_for_bus (buses s b) of
          [] \<Rightarrow> retR s
        | f # _ \<Rightarrow>
            (case act (threads s f) of
               A_SEND \<Rightarrow> bindR (Some (extract_waiter b f (ACCUMULATE_BUS_WAIT_TIME f s))) (really_send_to f)
             | A_WAIT_FOR_SEND \<Rightarrow> bindR (Some (extract_waiter b f (ACCUMULATE_BUS_WAIT_TIME f s))) (really_send_to f)
             | A_MPI_OS \<Rightarrow>
                 if rma then bindR (Some (extract_waiter b f (ACCUMULATE_BUS_WAIT_TIME f s))) (really_RMA_to w f)
                 else retR s
             | A_GLOBAL_OP \<Rightarrow>
                 let aux = max_messages (buses s b) - cur_messages (buses s b);
                     s1 = upd_bus b (\<lambda>x. x\<lparr>cur_messages := cur_messages x + aux\<rparr>)
                            (upd_comm f (\<lambda>c. c\<lparr>number_buses := number_buses c + aux\<rparr>) s)
                 in if number_buses (comms s1 f) = max_messages (buses s1 b)
                    then bindR (Some (extract_waiter b f (ACCUMULATE_BUS_WAIT_TIME f s1))) (other_get_all_buses g f)
                    else retR s1
             | _ \<Rightarrow> retR s)))"

definition free_own :: "('z sim_scheme handlers \<Rightarrow> lid \<Rightarrow> tid \<Rightarrow> 'z sim_scheme \<Rightarrow> 'z sim_scheme run)
    \<Rightarrow> 'z sim_scheme handlers \<Rightarrow> tid \<Rightarrow> (t_thread \<Rightarrow> lid option) \<Rightarrow> 'z sim_scheme \<Rightarrow> 'z sim_scheme run" where
  "free_own free hs t field s = (case field (threads s t) of None \<Rightarrow> retR s | Some l \<Rightarrow> free hs l t s)"

definition COMMUNIC_mem_resources_COM_TIMER_OUT :: "(tid \<Rightarrow> taskid option) \<Rightarrow> 'z sim_scheme others \<Rightarrow> tid
    \<Rightarrow> 'z sim_scheme \<Rightarrow> 'z sim_scheme run" where
  "COMMUNIC_mem_resources_COM_TIMER_OUT w g t s =
     (let b = NodeBus (get_node_of_thread t s); hs = send_handlers w g in
      bindR (Some (leave_bus AssertFailed b t s)) (\<lambda>s1.
      bindR (free_own LINKS_free_mem_link hs t local_link s1) (\<lambda>s2.
      bindR (free_own LINKS_free_mem_link hs t partner_link s2) (\<lambda>s3.
      bindR (Some (recompute_memory_bandwidth t (one_less b s3))) (\<lambda>(_, s4).
      wake_bus True w g b s4)))))"

definition COMMUNIC_internal_resources_COM_TIMER_OUT :: "(tid \<Rightarrow> taskid option) \<Rightarrow> 'z sim_scheme others \<Rightarrow> tid
    \<Rightarrow> 'z sim_scheme \<Rightarrow> 'z sim_scheme run" where
  "COMMUNIC_internal_resources_COM_TIMER_OUT w g t s =
     (let b = MachBus (machine_of_node s (get_node_of_thread t s)); hs = send_handlers w g in
      bindR (Some (leave_bus (Panic ''Unable to locate in bus utilization queue'') b t s)) (\<lambda>s1.
      bindR (free_own LINKS_free_network_link hs t local_link s1) (\<lambda>s2.
      bindR (free_own LINKS_free_network_link hs t partner_link s2) (\<lambda>s3.
      bindR (Some (recompute_internal_network_bandwidth t (one_less b s3))) (\<lambda>(_, s4).
      wake_bus True w g b s4)))))"

text \<open>The external network and the connections have no buses; their links have to be there.\<close>

definition free_present :: "('z sim_scheme handlers \<Rightarrow> lid \<Rightarrow> tid \<Rightarrow> 'z sim_scheme \<Rightarrow> 'z sim_scheme run)
    \<Rightarrow> 'z sim_scheme handlers \<Rightarrow> tid \<Rightarrow> (t_thread \<Rightarrow> lid option) \<Rightarrow> 'z sim_scheme \<Rightarrow> 'z sim_scheme run" where
  "free_present free hs t field s = (case field (threads s t) of None \<Rightarrow> failR NullDeref | Some l \<Rightarrow> free hs l t s)"

definition COMMUNIC_external_resources_COM_TIMER_OUT :: "(tid \<Rightarrow> taskid option) \<Rightarrow> 'z sim_scheme others \<Rightarrow> tid
    \<Rightarrow> 'z sim_scheme \<Rightarrow> 'z sim_scheme run" where
  "COMMUNIC_external_resources_COM_TIMER_OUT w g t s =
     (let hs = send_handlers w g in
      bindR (free_present LINKS_free_wan_link hs t local_link s) (\<lambda>s1.
      bindR (free_present LINKS_free_wan_link hs t partner_link s1) (\<lambda>s2.
      bindR (Some (recompute_external_network_bandwidth s2)) (\<lambda>(_, s3). retR s3))))"

definition COMMUNIC_dedicated_resources_COM_TIMER_OUT :: "(tid \<Rightarrow> taskid option) \<Rightarrow> 'z sim_scheme others \<Rightarrow> tid
    \<Rightarrow> 'z sim_scheme \<Rightarrow> 'z sim_scheme run" where
  "COMMUNIC_dedicated_resources_COM_TIMER_OUT w g t s =
     (let hs = send_handlers w g in
      bindR (free_present LINKS_free_dedicated_connection_link hs t local_link s) (\<lambda>s1.
      free_present LINKS_free_dedicated_connection_link hs t partner_link s1))"

definition COM_TIMER_OUT_free_accelerator_resources :: "(tid \<Rightarrow> taskid option) \<Rightarrow> 'z sim_scheme others \<Rightarrow> tid
    \<Rightarrow> 'z sim_scheme \<Rightarrow> 'z sim_scheme run" where
  "COM_TIMER_OUT_free_accelerator_resources w g t s =
     (let nd = get_node_of_thread t s; b = AccBus nd; hs = send_handlers w g in
      if \<not> accelerator (plat s) nd then failR AssertFailed
      else
      bindR (Some (leave_bus (Panic ''Unable to locate in bus utilization queue'') b t s)) (\<lambda>s1.
      let s2 = upd_comm t (\<lambda>c. c\<lparr>accelerator_link := False\<rparr>) s1 in
      bindR (if local_link (threads s2 t) \<noteq> None \<and> partner_link (threads s2 t) \<noteq> None
             then bindR (free_own LINKS_free_acc_link hs t local_link s2) (free_own LINKS_free_acc_link hs t partner_link)
             else retR s2) (\<lambda>s3.
      bindR (Some (recompute_accelerator_bandwidth t (one_less b s3))) (\<lambda>(_, s4).
      wake_bus False w g b s4))))"

section \<open>The timers of the module\<close>

text \<open>
  \<open>COMMUNIC_general\<close>, without the ends of messages and of collective operations
  (\<open>COM_TIMER_OUT\<close>, \<open>RMA_TIMER_OUT\<close>, \<open>COM_TIMER_GROUP_RESOURCES\<close>, \<open>COM_TIMER_GROUP\<close>), which are the
  argument \<open>rest\<close>. There is no case for \<open>COM_TIMER_OUT_RESOURCES_EXT_MODEL\<close>.
\<close>

definition COM_TIMER_GROUP :: int where "COM_TIMER_GROUP = 2"
definition COM_TIMER_GROUP_RESOURCES :: int where "COM_TIMER_GROUP_RESOURCES = 5"

lemmas com_timer_codes = COM_TIMER_OUT_def RMA_TIMER_OUT_def COM_TIMER_OUT_RESOURCES_MEM_def
  COM_TIMER_OUT_RESOURCES_NET_def COM_TIMER_OUT_RESOURCES_WAN_def COM_TIMER_OUT_RESOURCES_DED_def
  COM_TIMER_OUT_RESOURCES_EXT_MODEL_def COM_TIMER_OUT_RESOURCES_ACC_def COM_TIMER_GROUP_def
  COM_TIMER_GROUP_RESOURCES_def COM_EXT_NET_TRAFFIC_TIMER_def

definition COMMUNIC_general_timer :: "(tid \<Rightarrow> taskid option) \<Rightarrow> 'z sim_scheme others
    \<Rightarrow> (int \<Rightarrow> tid \<Rightarrow> 'z sim_scheme \<Rightarrow> 'z sim_scheme run) \<Rightarrow> int \<Rightarrow> tid \<Rightarrow> 'z sim_scheme \<Rightarrow> 'z sim_scheme run" where
  "COMMUNIC_general_timer w g rest v t s =
     (if v \<in> {RMA_TIMER_OUT, COM_TIMER_OUT, COM_TIMER_GROUP_RESOURCES, COM_TIMER_GROUP} then rest v t s
      else if v = COM_TIMER_OUT_RESOURCES_MEM then COMMUNIC_mem_resources_COM_TIMER_OUT w g t s
      else if v = COM_TIMER_OUT_RESOURCES_NET then COMMUNIC_internal_resources_COM_TIMER_OUT w g t s
      else if v = COM_TIMER_OUT_RESOURCES_WAN then COMMUNIC_external_resources_COM_TIMER_OUT w g t s
      else if v = COM_TIMER_OUT_RESOURCES_DED then COMMUNIC_dedicated_resources_COM_TIMER_OUT w g t s
      else if v = COM_TIMER_OUT_RESOURCES_ACC then COM_TIMER_OUT_free_accelerator_resources w g t s
      else if v = COM_EXT_NET_TRAFFIC_TIMER then Some (periodic_recompute_external_network_traffic s)
      else failR (Panic ''Incorrect command to routine COMMUNIC_general''))"

end
