(* ===== verification/SendProps.thy ===== *)
theory SendProps
  imports Sends
begin

text \<open>
  The properties of the senders of theory \<open>Sends\<close>: the accounting of the buses through every
  sequence of sends and releases, what a woken waiter gets, when the two events of a message take place, and
  the states in which a send ends the simulation.
\<close>

section \<open>What a step of the network keeps\<close>

lemma sim_more:
  fixes s s' :: "'z sim_scheme"
  assumes "net.more s' = net.more s"
  shows "buses s' = buses s" "plat s' = plat s" "comms s' = comms s" "sends s' = sends s"
    "random_numbers s' = random_numbers s" "random_calls s' = random_calls s"
    "suma_missatges s' = suma_missatges s"
  using assms by (cases s; cases s'; simp)+

text \<open>
  Threads of messages and one-sided operations only; collective operations, ports and copies, which the
  model continues by its argument \<open>g\<close>, do not wait anywhere.
\<close>

definition p2p :: "'z sim_scheme \<Rightarrow> bool" where
  "p2p s \<longleftrightarrow> (\<forall>t. act (threads s t) \<noteq> A_GLOBAL_OP) \<and> (\<forall>ow. wait_lists (pools s ow) = ([], [], [], []))"

definition bus_machine :: "'z sim_scheme \<Rightarrow> bus_owner \<Rightarrow> machid" where
  "bus_machine s b = (case b of NodeBus k \<Rightarrow> machine_of_node s k | MachBus m \<Rightarrow> m | AccBus k \<Rightarrow> machine_of_node s k)"

definition bus_grows :: "bool \<Rightarrow> bus \<Rightarrow> bus \<Rightarrow> bool" where
  "bus_grows fifo x y \<longleftrightarrow> max_messages y = max_messages x \<and> cur_messages x \<le> cur_messages y \<and>
     cur_messages y - int (length (on_bus y)) = cur_messages x - int (length (on_bus x)) \<and>
     (fifo \<and> cur_messages x \<le> max_messages x \<longrightarrow> cur_messages y \<le> max_messages x) \<and>
     (max_messages x = 0 \<longrightarrow> cur_messages y = cur_messages x)"

definition same_world :: "'z sim_scheme \<Rightarrow> 'z sim_scheme \<Rightarrow> bool" where
  "same_world s s' \<longleftrightarrow> node_of_task s' = node_of_task s \<and> machine_of_node s' = machine_of_node s \<and>
     comm_policy s' = comm_policy s \<and> plat s' = plat s \<and>
     (\<forall>t. task_of (threads s' t) = task_of (threads s t) \<and> act (threads s' t) = act (threads s t)) \<and>
     (\<forall>ow. wait_lists (pools s' ow) = wait_lists (pools s ow)) \<and>
     (\<forall>ow. pool_links (pools s' ow) = pool_links (pools s ow))"

definition flow :: "'z sim_scheme \<Rightarrow> 'z sim_scheme \<Rightarrow> bool" where
  "flow s s' \<longleftrightarrow> (p2p s \<longrightarrow> same_world s s' \<and>
     (\<forall>b. bus_grows (comm_policy s (bus_machine s b) = COMMUNIC_FIFO) (buses s b) (buses s' b)))"

lemma same_world_refl [simp]: "same_world s s"
  by (simp add: same_world_def)

lemma same_world_trans: "same_world a b \<Longrightarrow> same_world b c \<Longrightarrow> same_world a c"
  by (simp add: same_world_def)

lemma same_world_p2p: "same_world a b \<Longrightarrow> p2p a \<Longrightarrow> p2p b"
  by (simp add: same_world_def p2p_def)

lemma bus_grows_refl [simp]: "bus_grows f x x"
  by (simp add: bus_grows_def)

lemma bus_grows_trans: "bus_grows f x y \<Longrightarrow> bus_grows f y z \<Longrightarrow> bus_grows f x z"
  by (auto simp: bus_grows_def)

lemma flow_refl [simp]: "flow s s"
  by (simp add: flow_def)

lemma flow_trans: "flow a b \<Longrightarrow> flow b c \<Longrightarrow> flow a c"
  unfolding flow_def
  by (metis (no_types, lifting) bus_grows_trans bus_machine_def same_world_def same_world_p2p same_world_trans)

lemma flowI: "same_world s s' \<Longrightarrow> buses s' = buses s \<Longrightarrow> flow s s'"
  by (simp add: flow_def)

lemma keeps_more: "keeps s s' \<Longrightarrow> net.more s' = net.more s"
  by (simp add: keeps_def same_config_def)

lemma keeps_same_world: "keeps s s' \<Longrightarrow> same_world s s'"
  using sim_more(2)[OF keeps_more[of s s']] by (simp add: keeps_def same_config_def same_world_def)

lemma keeps_flow: "keeps s s' \<Longrightarrow> flow s s'"
  by (rule flowI[OF keeps_same_world sim_more(1)[OF keeps_more]])

lemma take_bus_flow:
  assumes "take_bus w b m t s = (ok, s')" "m = bus_machine s b"
  shows "flow s s'"
proof -
  have "same_world s s'"
    using assms(1) by (auto simp: take_bus_def same_world_def upd_bus_def START_BUS_WAIT_TIME_def upd_comm_def upd_account_def upd_exec_def split: if_splits)
  moreover have "bus_grows (comm_policy s (bus_machine s x) = COMMUNIC_FIFO) (buses s x) (buses s' x)" for x
    using assms by (auto simp: take_bus_def bus_grows_def upd_bus_def START_BUS_WAIT_TIME_def upd_comm_def upd_account_def upd_exec_def split: if_splits)
  ultimately show ?thesis by (simp add: flow_def)
qed

text \<open>The cost of a message and its events leave the links, the buses and the threads' links alone.\<close>

definition quiet :: "'z sim_scheme \<Rightarrow> 'z sim_scheme \<Rightarrow> bool" where
  "quiet s s' \<longleftrightarrow> pools s' = pools s \<and> links s' = links s \<and> buses s' = buses s \<and> sends s' = sends s \<and>
     plat s' = plat s \<and> tasks_count s' = tasks_count s \<and> node_of_task s' = node_of_task s \<and>
     machine_of_node s' = machine_of_node s \<and> comm_policy s' = comm_policy s \<and> random_numbers s' = random_numbers s \<and>
     (\<forall>t. task_of (threads s' t) = task_of (threads s t) \<and> act (threads s' t) = act (threads s t) \<and>
          local_link (threads s' t) = local_link (threads s t) \<and>
          partner_link (threads s' t) = partner_link (threads s t)) \<and> sim.more s' = sim.more s"

lemma quiet_refl [simp]: "quiet s s"
  by (simp add: quiet_def)

lemma quiet_trans: "quiet a b \<Longrightarrow> quiet b c \<Longrightarrow> quiet a c"
  by (simp add: quiet_def)

lemma quiet_flow: "quiet s s' \<Longrightarrow> flow s s'"
  by (rule flowI) (simp_all add: quiet_def same_world_def)

lemma engine_more_quiet:
  fixes s s' :: "'z sim_scheme"
  assumes "engine.more s' = engine.more s"
  shows "quiet s s'"
  using assms by (cases s; cases s') (simp add: quiet_def)

lemma EVENT_timer_quiet: "EVENT_timer w d m ot i s = Inr (r, s') \<Longrightarrow> quiet s s'"
  using EVENT_timer_queue[of w d m ot i s r s'] by (auto intro: engine_more_quiet)

lemma com_timer_quiet: "com_timer w t i s = Inr s' \<Longrightarrow> quiet s s'"
proof -
  assume "com_timer w t i s = Inr s'"
  then obtain r s1 where s1: "EVENT_timer w False M_COM (Some t) i s = Inr (r, s1)"
    "s' = s1\<lparr>thread_event := (thread_event s1)(t := r)\<rparr>"
    by (auto simp: com_timer_def bindE_eq_Inr)
  have "quiet s1 s'" unfolding s1(2) by (simp add: quiet_def)
  with EVENT_timer_quiet[OF s1(1)] show ?thesis by (rule quiet_trans)
qed

lemma upd_comm_quiet: "quiet s (upd_comm t f s)"
  by (simp add: quiet_def upd_comm_def upd_account_def upd_exec_def)

lemma upd_account_quiet: "quiet s (upd_account t g s)"
  by (simp add: quiet_def upd_account_def upd_exec_def)

lemma RANDOM_quiet: "RANDOM_GenerateRandom k s = (r, s') \<Longrightarrow> quiet s s'"
  by (auto simp: RANDOM_GenerateRandom_def quiet_def)

lemma shared_bandwidth_quiet: "shared_bandwidth bw k b s = Inr (x, s') \<Longrightarrow> quiet s s'"
  by (auto simp: shared_bandwidth_def Let_def split: prod.splits if_splits dest: RANDOM_quiet)

lemma recompute_external_quiet: "recompute_external_network_bandwidth s = Inr (x, s') \<Longrightarrow> quiet s s'"
  by (auto simp: recompute_external_network_bandwidth_def Let_def bindE_eq_Inr RANDOM_GenerateRandom_def quiet_def split: if_splits)

lemma traffic_quiet: "quiet s (recompute_external_network_traffic sz s)"
  by (simp add: recompute_external_network_traffic_def quiet_def)

lemma timed_quiet: "timed t sz bw f full s = (r, s') \<Longrightarrow> quiet s s'"
  by (auto simp: timed_def set_last_comm_def intro: upd_comm_quiet)

lemma recompute_quiet:
  "recompute_memory_bandwidth t s = Inr (x, s') \<Longrightarrow> quiet s s'"
  "recompute_internal_network_bandwidth t s = Inr (x, s') \<Longrightarrow> quiet s s'"
  "recompute_accelerator_bandwidth t s = Inr (x, s') \<Longrightarrow> quiet s s'"
  by (auto simp: recompute_memory_bandwidth_def recompute_internal_network_bandwidth_def
      recompute_accelerator_bandwidth_def Let_def split: if_splits dest: shared_bandwidth_quiet)

lemma transferencia_quiet:
  assumes "transferencia sz ct t c s = Inr (r, s')"
  shows "quiet s s'"
proof (cases ct)
  case EXTERNAL_NETWORK_COM_TYPE
  with assms show ?thesis
    by (auto simp: transferencia_def Let_def bindE_eq_Inr split: if_splits
        dest!: recompute_external_quiet timed_quiet intro: quiet_trans[OF traffic_quiet] quiet_trans)
qed (use assms in \<open>auto simp: transferencia_def Let_def bindE_eq_Inr split: if_splits option.splits
        dest!: recompute_quiet timed_quiet intro: quiet_trans\<close>)

lemma begin_transfer_quiet: "quiet s (begin_transfer t s)"
  by (simp add: begin_transfer_def quiet_def upd_comm_def upd_account_def upd_exec_def upd_thread_def)

lemma start_transfer_quiet:
  assumes "start_transfer ct c info rtt t s = Inr s'" "\<And>ti s1 r s2. rtt ti s1 = Inr (r, s2) \<Longrightarrow> s2 = s1"
  shows "quiet s s'"
proof -
  obtain ti tr s1 ti' s2 r s3 where h: "transferencia (mess_size (sends s t)) ct t c (begin_transfer t s) = Inr ((ti, tr), s1)"
    "rtt ti s1 = Inr (ti', s2)" "EVENT_timer (current_time s + tr) False M_COM (Some t) info s2 = Inr (r, s3)"
    "com_timer (current_time s + ti') t COM_TIMER_OUT s3 = Inr s'"
    using assms(1) by (auto simp: start_transfer_def bindE_eq_Inr split: if_splits)
  from assms(2)[OF h(2)] show ?thesis
    using quiet_trans[OF begin_transfer_quiet] quiet_trans[OF transferencia_quiet[OF h(1)]]
      quiet_trans[OF EVENT_timer_quiet[OF h(3)]] com_timer_quiet[OF h(4)] by blast
qed

lemma rtt_same: "no_rtt ti s = Inr (r, s') \<Longrightarrow> s' = s" "internal_rtt t ti s = Inr (r, s') \<Longrightarrow> s' = s"
  by (auto simp: no_rtt_def internal_rtt_def split: if_splits)

lemma same_world_bus: "same_world s s' \<Longrightarrow> bus_machine s' b = bus_machine s b"
  by (cases b) (simp_all add: same_world_def bus_machine_def)

lemma bus_then_start:
  assumes k: "flow s s1" "bus_machine s1 b = m"
    and h: "(let (got, s2) = take_bus w b m t s1 in if \<not> got then retR s2 else Some (start_transfer ct c info rtt t (u s2))) = retR s'"
    and r: "\<And>ti s1 r s2. rtt ti s1 = Inr (r, s2) \<Longrightarrow> s2 = s1" and u: "\<And>s. quiet s (u s)"
  shows "flow s s'"
proof -
  obtain got s2 where t: "take_bus w b m t s1 = (got, s2)" by fastforce
  have f: "flow s s2" by (rule flow_trans[OF k(1) take_bus_flow[OF t]]) (simp add: k(2))
  show ?thesis
  proof (cases got)
    case True
    with h t have "start_transfer ct c info rtt t (u s2) = Inr s'" by simp
    from quiet_trans[OF u start_transfer_quiet[OF this r]] have "flow s2 s'" by (rule quiet_flow)
    with f show ?thesis by (rule flow_trans)
  next
    case False
    with h t f show ?thesis by simp
  qed
qed

lemma keeps_bus_machine: "keeps s s1 \<Longrightarrow> bus_machine s1 b = bus_machine s b"
  by (rule same_world_bus[OF keeps_same_world])

lemma memory_flow: "really_send_memory_message t s = retR s' \<Longrightarrow> flow s s'"
proof -
  assume h: "really_send_memory_message t s = retR s'"
  let ?nd = "get_node_of_thread t s" let ?m = "machine_of_node s ?nd"
  obtain p ok s1 where a: "LINKS_get_mem_links t (task_of (threads s t)) p s = retR (ok, s1)"
    "(if \<not> ok then retR s1 else let (got, s2) = take_bus True (NodeBus ?nd) ?m t s1 in
        if \<not> got then retR s2
        else Some (start_transfer MEMORY_COMMUNICATION_TYPE 0 COM_TIMER_OUT_RESOURCES_MEM no_rtt t s2)) = retR s'"
    using h unfolding really_send_memory_message_def Let_def bindR_eq_retR by (auto simp del: Some_eq_retR)
  have k: "keeps s s1" by (rule LINKS_get_mem_links_keeps[OF a(1)])
  show ?thesis
  proof (cases ok)
    case True
    have m: "bus_machine s1 (NodeBus ?nd) = ?m" unfolding keeps_bus_machine[OF k] by (simp add: bus_machine_def)
    show ?thesis
      by (rule bus_then_start[OF keeps_flow[OF k] m, of True t _ _ _ _ "\<lambda>s. s"])
        (use a(2) True in \<open>auto intro: rtt_same\<close>)
  next
    case False
    with a(2) keeps_flow[OF k] show ?thesis by simp
  qed
qed

lemma internal_flow: "really_send_internal_network t s = retR s' \<Longrightarrow> flow s s'"
proof -
  assume h: "really_send_internal_network t s = retR s'"
  let ?nd = "get_node_of_thread t s" let ?m = "machine_of_node s ?nd"
  obtain p ok s1 where a: "LINKS_get_network_links t ?nd p s = Inr (ok, s1)"
    "(if \<not> ok then retR s1 else let (got, s2) = take_bus True (MachBus ?m) ?m t s1 in
        if \<not> got then retR s2
        else Some (start_transfer INTERNAL_NETWORK_COM_TYPE 0 COM_TIMER_OUT_RESOURCES_NET (internal_rtt t) t s2)) = retR s'"
    using h unfolding really_send_internal_network_def Let_def bindR_eq_retR by auto
  have k: "keeps s s1" by (rule LINKS_get_network_links_keeps[OF a(1)])
  show ?thesis
  proof (cases ok)
    case True
    have m: "bus_machine s1 (MachBus ?m) = ?m" by (simp add: bus_machine_def)
    show ?thesis
      by (rule bus_then_start[OF keeps_flow[OF k] m, of True t _ _ _ _ "\<lambda>s. s"])
        (use a(2) True in \<open>auto intro: rtt_same\<close>)
  next
    case False
    with a(2) keeps_flow[OF k] show ?thesis by simp
  qed
qed

lemma links_then_start_flow:
  assumes "keeps s s1" "(if \<not> ok then retR s1 else Some (start_transfer ct c info no_rtt t s1)) = retR s'"
  shows "flow s s'"
proof (cases ok)
  case True
  with assms(2) have "start_transfer ct c info no_rtt t s1 = Inr s'" by simp
  then have "quiet s1 s'" by (rule start_transfer_quiet) (rule rtt_same(1))
  then show ?thesis using flow_trans[OF keeps_flow[OF assms(1)] quiet_flow] by blast
next
  case False
  with assms keeps_flow show ?thesis by auto
qed

lemma external_flow: "really_send_external_network t s = retR s' \<Longrightarrow> flow s s'"
  unfolding really_send_external_network_def Let_def bindR_eq_retR
  by (auto intro: links_then_start_flow LINKS_get_wan_links_keeps)

lemma dedicated_flow: "really_send_dedicated_connection t c s = retR s' \<Longrightarrow> flow s s'"
  unfolding really_send_dedicated_connection_def bindR_eq_retR
  by (auto intro: links_then_start_flow LINKS_get_dedicated_keeps)

lemma external_model_flow: "really_send_external_model_comm_type t s = retR s' \<Longrightarrow> flow s s'"
  unfolding really_send_external_model_comm_type_def
  by (auto intro!: quiet_flow elim!: start_transfer_quiet dest: rtt_same(1))

lemma acc_flow: "really_send_acc_message t s = retR s' \<Longrightarrow> flow s s'"
proof -
  assume h: "really_send_acc_message t s = retR s'"
  let ?nd = "get_node_of_thread t s"
  let ?u = "\<lambda>s2. if max_messages (buses s (AccBus ?nd)) \<noteq> 0
    then upd_comm t (\<lambda>c. c\<lparr>accelerator_link := True\<rparr>) s2 else s2"
  have u: "quiet x (?u x)" for x by (simp add: upd_comm_quiet)
  have m: "bus_machine s (AccBus ?nd) = machine_of_node s ?nd" by (simp add: bus_machine_def)
  obtain p where "(if \<not> LINKS_get_acc_links t (task_of (threads s t)) p s then retR s
      else (let (got, s1) = take_bus True (AccBus ?nd) (machine_of_node s ?nd) t s
            in if \<not> got then retR s1
               else Some (start_transfer ACCELERATOR_COM_TYPE 0 COM_TIMER_OUT_RESOURCES_ACC no_rtt t (?u s1)))) = retR s'"
  proof -
    have acc: "accelerator (plat s) ?nd" using h by (auto simp: really_send_acc_message_def Let_def split: if_splits)
    obtain p where p: "locate_task (dest (sends s t)) s = Inr p"
      using h acc by (cases "locate_task (dest (sends s t)) s") (auto simp: really_send_acc_message_def Let_def bindR_def retR_def)
    show ?thesis
      by (rule that[of p]) (use h acc in \<open>simp add: really_send_acc_message_def Let_def p bindR_def split: if_split_asm\<close>)
  qed
  then show ?thesis
    using bus_then_start[OF flow_refl m, of True t ACCELERATOR_COM_TYPE 0 COM_TIMER_OUT_RESOURCES_ACC no_rtt ?u s'] u rtt_same(1)
    by (cases "LINKS_get_acc_links t (task_of (threads s t)) p s") auto
qed

lemma really_send_flow: "really_send_to t s = retR s' \<Longrightarrow> flow s s'"
  unfolding really_send_to_def Let_def bindR_eq_retR
  by (cases "comm_type (sends s t)")
    (auto intro: memory_flow internal_flow external_flow dedicated_flow external_model_flow acc_flow
      split: option.splits)

lemma RMA_flow: "really_RMA_to w t s = retR s' \<Longrightarrow> flow s s'"
proof -
  assume h: "really_RMA_to w t s = retR s'"
  let ?nd = "get_node_of_thread t s" let ?m = "machine_of_node s ?nd"
  obtain np ok s1 where a: "LINKS_get_network_links t ?nd np s = Inr (ok, s1)"
    "(if \<not> ok then retR s1
      else let (got, s2) = (if ?nd \<noteq> np then take_bus False (MachBus ?m) ?m t s1 else (True, s1)) in
        if \<not> got then retR s2
        else bindR (Some (transferencia (rma_size s t)
               (if ?nd \<noteq> np then INTERNAL_NETWORK_COM_TYPE else MEMORY_COMMUNICATION_TYPE) t 0 s2)) (\<lambda>((ti, _), s3).
             Some (com_timer (current_time s3 + ti) t RMA_TIMER_OUT s3))) = retR s'"
  proof -
    obtain x where x: "w t = Some x" using h by (cases "w t") (auto simp: really_RMA_to_def)
    obtain r where r: "LINKS_get_network_links t ?nd (node_of_task s x) s = Inr r"
      using h by (cases "LINKS_get_network_links t ?nd (node_of_task s x) s")
        (auto simp: really_RMA_to_def x Let_def bindR_def retR_def)
    show ?thesis
      by (rule that[of "node_of_task s x" "fst r" "snd r"])
        (use h in \<open>simp_all add: really_RMA_to_def x Let_def r bindR_def split_beta\<close>)
  qed
  have k: "flow s s1" by (rule keeps_flow[OF LINKS_get_network_links_keeps[OF a(1)]])
  show ?thesis
  proof (cases ok)
    case True
    obtain got s2 where t: "(if ?nd \<noteq> np then take_bus False (MachBus ?m) ?m t s1 else (True, s1)) = (got, s2)"
      by fastforce
    have "flow s1 s2"
      using t take_bus_flow[of False "MachBus ?m" ?m t s1 got s2] by (auto simp: bus_machine_def split: if_splits)
    with k have f: "flow s s2" by (rule flow_trans)
    show ?thesis
    proof (cases got)
      case True
      with a(2) t \<open>ok\<close> obtain ti tr s3 where "transferencia (rma_size s t)
          (if ?nd \<noteq> np then INTERNAL_NETWORK_COM_TYPE else MEMORY_COMMUNICATION_TYPE) t 0 s2 = Inr ((ti, tr), s3)"
        "com_timer (current_time s3 + ti) t RMA_TIMER_OUT s3 = Inr s'"
        by (auto simp: bindR_eq_retR)
      then have "quiet s2 s'" using quiet_trans transferencia_quiet com_timer_quiet by blast
      with f show ?thesis using flow_trans quiet_flow by blast
    next
      case False
      with a(2) t \<open>ok\<close> f show ?thesis by auto
    qed
  next
    case False
    with a(2) k show ?thesis by simp
  qed
qed

text \<open>
  Every release of a link runs the senders only; so the accounting and the links survive it.
\<close>

lemma put_back_same_world:
  "put_back_in ow ol s = Inr s' \<Longrightarrow> same_world s s' \<and> buses s' = buses s"
  "put_back_out ow ol s = Inr s' \<Longrightarrow> same_world s s' \<and> buses s' = buses s"
  by (auto simp: put_back_in_def put_back_out_def bindE_eq_Inr q_extract_def same_world_def pool_links_def upd_pool_def
      split: option.splits if_splits)

interpretation release: release_clients flow "send_handlers w g"
  for w :: "tid \<Rightarrow> taskid option" and g :: "'z sim_scheme others"
proof unfold_locales
  fix s s1 s2 s' :: "'z sim_scheme"
  show "flow s s" by simp
  show "flow s s1 \<Longrightarrow> flow s1 s2 \<Longrightarrow> flow s s2" by (rule flow_trans)
  show "flow s (ACCUMULATE_LINK_WAIT_TIME f s)" for f
    by (rule flowI) (simp_all add: ACCUMULATE_LINK_WAIT_TIME_def same_world_def upd_thread_def Let_def)
  show "flow s (upd_thread f (\<lambda>th. th\<lparr>last_paraver := v\<rparr>) s)" for f v
    by (rule flowI) (simp_all add: same_world_def upd_thread_def)
  show "flow s (upd_pool ow (\<lambda>p. p\<lparr>th_for_in := fs\<rparr>) s)" "flow s (upd_pool ow (\<lambda>p. p\<lparr>th_for_out := fs\<rparr>) s)" for ow fs
    by (rule flowI; simp add: same_world_def upd_pool_def pool_links_def)+
  show "put_back_in ow ol s = Inr s' \<Longrightarrow> flow s s'" "put_back_out ow ol s = Inr s' \<Longrightarrow> flow s s'" for ow ol
    by (auto intro!: flowI dest: put_back_same_world)
  show "really_send (send_handlers w g) t s = retR s' \<Longrightarrow> flow s s'" for t
    by (simp add: send_handlers_def really_send_flow)
  show "really_RMA (send_handlers w g) t s = retR s' \<Longrightarrow> flow s s'" for t
    by (simp add: send_handlers_def RMA_flow)
  show "act (threads s t) = A_GLOBAL_OP \<Longrightarrow> flow s s'" for t by (auto simp: flow_def p2p_def)
  show "(if d = IN_LINK then wait_inlink_port (pools s ow) else wait_outlink_port (pools s ow)) = b # bs \<Longrightarrow> flow s s'"
    for d ow b bs by (auto simp: flow_def p2p_def wait_lists_def split: if_splits)
  show "(if d = IN_LINK then wait_in_copy_segment (pools s ow) else wait_out_copy_segment (pools s ow)) = c # cs \<Longrightarrow> flow s s'"
    for d ow c cs by (auto simp: flow_def p2p_def wait_lists_def split: if_splits)
qed

section \<open>The accounting of the buses\<close>

text \<open>
  The counter of a bus owner is the number of messages on it and, under the first come first served policy,
  never above its limit; an owner without a limit (0) counts nothing.
\<close>

definition bus_accounted :: "bool \<Rightarrow> bus \<Rightarrow> bool" where
  "bus_accounted fifo x \<longleftrightarrow> 0 \<le> max_messages x \<and> cur_messages x = int (length (on_bus x)) \<and>
     (max_messages x = 0 \<longrightarrow> cur_messages x = 0) \<and> (fifo \<longrightarrow> cur_messages x \<le> max_messages x)"

definition accounted :: "'z sim_scheme \<Rightarrow> bool" where
  "accounted s \<longleftrightarrow> (\<forall>b. bus_accounted (comm_policy s (bus_machine s b) = COMMUNIC_FIFO) (buses s b))"

lemma bus_grows_accounted: "bus_grows f x y \<Longrightarrow> bus_accounted f x \<Longrightarrow> bus_accounted f y"
  by (auto simp: bus_grows_def bus_accounted_def)

lemma flow_accounted:
  assumes "flow s s'" "p2p s" "accounted s"
  shows "accounted s' \<and> same_world s s'"
proof -
  have w: "same_world s s'" and g: "\<And>b. bus_grows (comm_policy s (bus_machine s b) = COMMUNIC_FIFO) (buses s b) (buses s' b)"
    using assms(1,2) by (simp_all add: flow_def)
  have "bus_machine s' b = bus_machine s b" "comm_policy s' = comm_policy s" for b
    using same_world_bus[OF w] w by (simp_all add: same_world_def)
  then show ?thesis using assms(3) g w by (auto simp: accounted_def intro: bus_grows_accounted)
qed

lemma leave_bus_length:
  assumes "leave_bus err b t s = Inr s1" "accounted s"
  shows "same_world s s1" and "\<And>x. x \<noteq> b \<Longrightarrow> buses s1 x = buses s x"
    and "max_messages (buses s1 b) = max_messages (buses s b)" and "cur_messages (buses s1 b) = cur_messages (buses s b)"
    and "int (length (on_bus (buses s1 b))) = cur_messages (buses s b) - (if max_messages (buses s b) = 0 then 0 else 1)"
    and "max_messages (buses s b) \<noteq> 0 \<Longrightarrow> 1 \<le> cur_messages (buses s b)"
proof -
  have c: "cur_messages (buses s b) = int (length (on_bus (buses s b)))"
    using assms(2) by (simp add: accounted_def bus_accounted_def)
  have mem: "List.find P xs = Some u \<Longrightarrow> u \<in> set xs" for P :: "tid \<times> timer \<Rightarrow> bool" and xs u
    by (induction xs) (auto split: if_splits)
  have l: "0 < length xs \<and> int (length (remove1 u xs)) = int (length xs) - 1" if "u \<in> set xs" for u :: "tid \<times> timer" and xs
    using that length_pos_if_in_set[OF that] by (simp add: length_remove1 of_nat_diff Suc_le_eq del: length_greater_0_conv)
  show "same_world s s1" "\<And>x. x \<noteq> b \<Longrightarrow> buses s1 x = buses s x"
    "max_messages (buses s1 b) = max_messages (buses s b)" "cur_messages (buses s1 b) = cur_messages (buses s b)"
    using assms(1) by (auto simp: leave_bus_def upd_bus_def same_world_def split: if_splits option.splits)
  show "int (length (on_bus (buses s1 b))) = cur_messages (buses s b) - (if max_messages (buses s b) = 0 then 0 else 1)"
    "max_messages (buses s b) \<noteq> 0 \<Longrightarrow> 1 \<le> cur_messages (buses s b)"
    using assms(1) c by (auto simp: leave_bus_def upd_bus_def split: if_splits option.splits dest!: mem l)
qed

lemma one_less_simps [simp]:
  "pools (one_less b s) = pools s" "threads (one_less b s) = threads s" "node_of_task (one_less b s) = node_of_task s"
  "machine_of_node (one_less b s) = machine_of_node s" "comm_policy (one_less b s) = comm_policy s"
  "plat (one_less b s) = plat s"
  "buses (one_less b s) = (buses s)(b := (buses s b)\<lparr>cur_messages := cur_messages (buses s b) -
     (if cur_messages (buses s b) > 0 then 1 else 0)\<rparr>)"
  by (auto simp: one_less_def upd_bus_def)

text \<open>
  The shape of the three releases with buses: off the bus, free the links, one message less, wake the
  first waiter.
\<close>

lemma release_accounted:
  assumes p: "p2p s" and a: "accounted s" and l: "leave_bus err b t s = Inr s1" and f: "flow s1 s2"
    and q: "quiet (one_less b s2) s3" and f': "flow s3 s'"
  shows "accounted s' \<and> same_world s s'"
proof -
  note L = leave_bus_length[OF l a]
  have p1: "p2p s1" by (rule same_world_p2p[OF L(1) p])
  have w2: "same_world s1 s2" and g: "\<And>x. bus_grows (comm_policy s1 (bus_machine s1 x) = COMMUNIC_FIFO) (buses s1 x) (buses s2 x)"
    using f p1 by (simp_all add: flow_def)
  have w3: "same_world s s3"
    using same_world_trans[OF L(1) w2] q by (simp add: same_world_def quiet_def)
  have b3: "buses s3 = buses (one_less b s2)" using q by (simp add: quiet_def)
  have m: "comm_policy s1 (bus_machine s1 x) = comm_policy s3 (bus_machine s3 x)"
    "comm_policy s (bus_machine s x) = comm_policy s3 (bus_machine s3 x)" for x
    using same_world_bus[OF L(1)] same_world_bus[OF w3] L(1) w3 by (simp_all add: same_world_def)
  have "accounted s3"
    unfolding accounted_def
  proof
    fix x
    have ax: "bus_accounted (comm_policy s3 (bus_machine s3 x) = COMMUNIC_FIFO) (buses s x)"
      using a m(2) by (simp add: accounted_def)
    show "bus_accounted (comm_policy s3 (bus_machine s3 x) = COMMUNIC_FIFO) (buses s3 x)"
    proof (cases "x = b")
      case False
      with g[of x] L(2)[of x] ax show ?thesis unfolding b3 m(1) by (simp add: bus_grows_accounted)
    next
      case True
      show ?thesis
        using g[of b] L(3-6) ax unfolding True b3 m(1)
        by (auto simp: bus_accounted_def bus_grows_def split: if_splits)
    qed
  qed
  moreover have "p2p s3" by (rule same_world_p2p[OF w3 p])
  ultimately show ?thesis using flow_accounted[OF f'] same_world_trans[OF w3] by blast
qed

lemma ACCUMULATE_BUS_quiet: "quiet s (ACCUMULATE_BUS_WAIT_TIME t s)"
  by (simp add: ACCUMULATE_BUS_WAIT_TIME_def Let_def upd_account_quiet)

lemma extract_waiter_flow: "extract_waiter b t s = Inr s' \<Longrightarrow> flow s s'"
  by (auto simp: extract_waiter_def bindE_eq_Inr flow_def same_world_def upd_bus_def bus_grows_def)

lemma wake_bus_flow: "wake_bus rma w g b s = retR s' \<Longrightarrow> flow s s'"
proof -
  assume h: "wake_bus rma w g b s = retR s'"
  have go: "flow s s'" if "bindR (Some (extract_waiter b f (ACCUMULATE_BUS_WAIT_TIME f s))) k = retR s'"
    "\<And>a a'. k a = retR a' \<Longrightarrow> flow a a'" for f k
    using that(1) flow_trans[OF quiet_flow[OF ACCUMULATE_BUS_quiet] flow_trans[OF extract_waiter_flow that(2)]]
    by (auto simp: bindR_eq_retR)
  show ?thesis
  proof (cases "max_messages (buses s b) = 0 \<or> wait_for_bus (buses s b) = []")
    case True
    with h show ?thesis by (auto simp: wake_bus_def split: if_splits)
  next
    case False
    then obtain f fs where f: "max_messages (buses s b) \<noteq> 0" "wait_for_bus (buses s b) = f # fs"
      by (cases "wait_for_bus (buses s b)") auto
    show ?thesis
    proof (cases "act (threads s f) = A_GLOBAL_OP")
      case True
      then show ?thesis by (auto simp: flow_def p2p_def)
    next
      case False
      with h f show ?thesis
        by (cases "act (threads s f)")
          (auto simp: wake_bus_def intro: go really_send_flow RMA_flow split: if_splits)
    qed
  qed
qed

lemma free_own_flow:
  assumes "free_own free hs t field s = retR s'" "\<And>l a a'. free hs l t a = retR a' \<Longrightarrow> flow a a'"
  shows "flow s s'"
  using assms by (auto simp: free_own_def split: option.splits)

lemma free_present_flow:
  assumes "free_present free hs t field s = retR s'" "\<And>l a a'. free hs l t a = retR a' \<Longrightarrow> flow a a'"
  shows "flow s s'"
  using assms by (auto simp: free_present_def split: option.splits)

lemma mem_resources_accounted:
  assumes "COMMUNIC_mem_resources_COM_TIMER_OUT w g t s = retR s'" "p2p s" "accounted s"
  shows "accounted s' \<and> same_world s s'"
proof -
  let ?b = "NodeBus (get_node_of_thread t s)" let ?hs = "send_handlers w g"
  obtain s1 s2 s3 x s4 where h: "leave_bus AssertFailed ?b t s = Inr s1"
    "free_own LINKS_free_mem_link ?hs t local_link s1 = retR s2"
    "free_own LINKS_free_mem_link ?hs t partner_link s2 = retR s3"
    "recompute_memory_bandwidth t (one_less ?b s3) = Inr (x, s4)" "wake_bus True w g ?b s4 = retR s'"
    using assms(1) unfolding COMMUNIC_mem_resources_COM_TIMER_OUT_def Let_def bindR_eq_retR by auto
  have "flow s1 s3"
    using flow_trans[OF free_own_flow[OF h(2) release.free_mem_R] free_own_flow[OF h(3) release.free_mem_R]] .
  from release_accounted[OF assms(2,3) h(1) this recompute_quiet(1)[OF h(4)] wake_bus_flow[OF h(5)]]
  show ?thesis .
qed

lemma internal_resources_accounted:
  assumes "COMMUNIC_internal_resources_COM_TIMER_OUT w g t s = retR s'" "p2p s" "accounted s"
  shows "accounted s' \<and> same_world s s'"
proof -
  let ?b = "MachBus (machine_of_node s (get_node_of_thread t s))" let ?hs = "send_handlers w g"
  obtain s1 s2 s3 x s4 where h: "leave_bus (Panic ''Unable to locate in bus utilization queue'') ?b t s = Inr s1"
    "free_own LINKS_free_network_link ?hs t local_link s1 = retR s2"
    "free_own LINKS_free_network_link ?hs t partner_link s2 = retR s3"
    "recompute_internal_network_bandwidth t (one_less ?b s3) = Inr (x, s4)" "wake_bus True w g ?b s4 = retR s'"
    using assms(1) unfolding COMMUNIC_internal_resources_COM_TIMER_OUT_def Let_def bindR_eq_retR by auto
  have "flow s1 s3"
    using flow_trans[OF free_own_flow[OF h(2) release.free_network_R] free_own_flow[OF h(3) release.free_network_R]] .
  from release_accounted[OF assms(2,3) h(1) this recompute_quiet(2)[OF h(4)] wake_bus_flow[OF h(5)]]
  show ?thesis .
qed

lemma accelerator_resources_accounted:
  assumes "COM_TIMER_OUT_free_accelerator_resources w g t s = retR s'" "p2p s" "accounted s"
  shows "accounted s' \<and> same_world s s'"
proof -
  let ?b = "AccBus (get_node_of_thread t s)" let ?hs = "send_handlers w g"
  let ?u = "upd_comm t (\<lambda>c. c\<lparr>accelerator_link := False\<rparr>)"
  let ?free = "\<lambda>s. if local_link (threads s t) \<noteq> None \<and> partner_link (threads s t) \<noteq> None
     then bindR (free_own LINKS_free_acc_link ?hs t local_link s) (free_own LINKS_free_acc_link ?hs t partner_link)
     else retR s"
  obtain s1 s3 x s4 where h: "leave_bus (Panic ''Unable to locate in bus utilization queue'') ?b t s = Inr s1"
    "?free (?u s1) = retR s3"
    "recompute_accelerator_bandwidth t (one_less ?b s3) = Inr (x, s4)" "wake_bus False w g ?b s4 = retR s'"
    using assms(1) unfolding COM_TIMER_OUT_free_accelerator_resources_def Let_def
    by (cases "accelerator (plat s) (get_node_of_thread t s)") (auto simp: bindR_eq_retR simp del: upd_thread_simps)
  have "flow (?u s1) s3"
    using h(2) flow_trans[OF free_own_flow[OF _ release.free_acc_R] free_own_flow[OF _ release.free_acc_R]]
    by (cases "local_link (threads (?u s1) t) \<noteq> None \<and> partner_link (threads (?u s1) t) \<noteq> None")
      (auto simp: bindR_eq_retR)
  then have "flow s1 s3" using flow_trans[OF quiet_flow[OF upd_comm_quiet]] by blast
  from release_accounted[OF assms(2,3) h(1) this recompute_quiet(3)[OF h(3)] wake_bus_flow[OF h(4)]]
  show ?thesis .
qed

lemma external_resources_flow: "COMMUNIC_external_resources_COM_TIMER_OUT w g t s = retR s' \<Longrightarrow> flow s s'"
  unfolding COMMUNIC_external_resources_COM_TIMER_OUT_def Let_def bindR_eq_retR
  by (auto intro!: flow_trans[OF free_present_flow[OF _ release.free_wan_R] flow_trans[OF free_present_flow[OF _ release.free_wan_R]
        quiet_flow[OF recompute_external_quiet]]])

lemma dedicated_resources_flow: "COMMUNIC_dedicated_resources_COM_TIMER_OUT w g t s = retR s' \<Longrightarrow> flow s s'"
  unfolding COMMUNIC_dedicated_resources_COM_TIMER_OUT_def Let_def bindR_eq_retR
  by (auto intro!: flow_trans[OF free_present_flow[OF _ release.free_dedicated_R] free_present_flow[OF _ release.free_dedicated_R]])

text \<open>A run of the network: threads send, one-sided operations start, resource timers fire.\<close>

inductive comm_step :: "(tid \<Rightarrow> taskid option) \<Rightarrow> 'z sim_scheme others \<Rightarrow> 'z sim_scheme \<Rightarrow> 'z sim_scheme \<Rightarrow> bool"
  for w g where
  send: "really_send_to t s = retR s' \<Longrightarrow> comm_step w g s s'"
| rma: "really_RMA_to w t s = retR s' \<Longrightarrow> comm_step w g s s'"
| timer: "COMMUNIC_general_timer w g (\<lambda>_ _ _. failR NullDeref) v t s = retR s' \<Longrightarrow> comm_step w g s s'"
| clock: "comm_step w g s (s\<lparr>current_time := x\<rparr>)"

lemma traffic_timer_quiet: "periodic_recompute_external_network_traffic s = Inr s' \<Longrightarrow> quiet s s'"
proof -
  assume h: "periodic_recompute_external_network_traffic s = Inr s'"
  define s1 where "s1 = s\<lparr>suma_missatges := suma_missatges s * external_net_alfa (plat s) +
     (increment_missatges s / PERIODIC_TRAFFIC) * (1 - external_net_alfa (plat s)), increment_missatges := 0\<rparr>"
  have q: "quiet s s1" by (simp add: s1_def quiet_def)
  have "s' = s1 \<or> set_traffic_timer s1 = Inr s'"
    using h unfolding periodic_recompute_external_network_traffic_def Let_def s1_def[symmetric]
    by (auto split: if_splits)
  then have "quiet s1 s'"
    by (auto simp: set_traffic_timer_def bindE_eq_Inr dest: EVENT_timer_quiet)
  with q show ?thesis by (rule quiet_trans)
qed

lemma comm_step_accounted:
  assumes "comm_step w g s s'" "p2p s" "accounted s"
  shows "accounted s' \<and> same_world s s'"
  using assms(1)
proof cases
  case (send t)
  then show ?thesis using flow_accounted[OF really_send_flow] assms(2,3) by blast
next
  case (rma t)
  then show ?thesis using flow_accounted[OF RMA_flow] assms(2,3) by blast
next
  case (timer v t)
  then show ?thesis
    using mem_resources_accounted[of w g t s s'] internal_resources_accounted[of w g t s s']
      accelerator_resources_accounted[of w g t s s'] flow_accounted[OF external_resources_flow, of w g t s s']
      flow_accounted[OF dedicated_resources_flow, of w g t s s'] flow_accounted[OF quiet_flow[OF traffic_timer_quiet], of s s']
      assms(2,3)
    by (auto simp: COMMUNIC_general_timer_def split: if_splits)
next
  case (clock x)
  then have "quiet s s'" by (simp add: quiet_def)
  then show ?thesis using flow_accounted[OF quiet_flow] assms(2,3) by blast
qed

text \<open>
  Property C13. Through every run of sends, one-sided operations, releases of resources and advances of
  the clock, while no collective operation, port or copy takes part: the counter of each memory,
  network and accelerator bus is the number of messages in transfer on it, it never exceeds the number of
  buses when the policy is first come first served, and the free and busy links of every task, node,
  machine and connection together stay the same.
\<close>

theorem buses_and_links_accounted:
  assumes "(comm_step w g)\<^sup>*\<^sup>* s s'" "p2p s" "\<forall>b. bus_accounted (comm_policy s (bus_machine s b) = COMMUNIC_FIFO) (buses s b)"
  shows "(\<forall>b. cur_messages (buses s' b) = int (length (on_bus (buses s' b))) \<and>
      (comm_policy s (bus_machine s b) = COMMUNIC_FIFO \<longrightarrow> cur_messages (buses s' b) \<le> max_messages (buses s' b))) \<and>
    (\<forall>ow. pool_links (pools s' ow) = pool_links (pools s ow))"
proof -
  have "accounted s' \<and> same_world s s'"
    using assms(1)
  proof (induction rule: rtranclp_induct)
    case base
    then show ?case using assms(3) by (simp add: accounted_def)
  next
    case (step u v)
    then show ?case
      using comm_step_accounted[OF step(2)] same_world_p2p[OF _ assms(2)] same_world_trans by blast
  qed
  moreover from this have "bus_machine s' b = bus_machine s b" "comm_policy s' = comm_policy s" for b
    using same_world_bus by (auto simp: same_world_def)
  ultimately show ?thesis
    by (auto simp: accounted_def bus_accounted_def same_world_def)
qed

definition no_others :: "sim others" where
  "no_others = \<lparr>other_get_all_buses = (\<lambda>_ _. failR NullDeref), other_reserva_links = (\<lambda>_ _. failR NullDeref),
     other_port_send = (\<lambda>_ _. failR NullDeref), other_copy_segment = (\<lambda>_ _. failR NullDeref)\<rparr>"

lemmas eval_send = really_send_to_def really_send_internal_network_def locate_task_def get_communication_type_def
  LINKS_get_network_links_def take_out_def take_hd_in_def take_in_def take_hd_out_def get_network_in_def reserved_def
  take_bus_def start_transfer_def begin_transfer_def transferencia_def recompute_internal_network_bandwidth_def
  shared_bandwidth_def RANDOM_GenerateRandom_def contention_ratio_def timed_def set_last_comm_def internal_rtt_def
  com_timer_def EVENT_timer_def set_owner_def get_node_of_thread_def upd_pool_def upd_thread_def upd_link_def
  upd_bus_def upd_comm_def upd_account_def upd_exec_def bindR_def retR_def Let_def com_timer_codes

lemma ex_send: "\<exists>s'. really_send_to 0 ex_sim = retR s' \<and> cur_messages (buses s' (MachBus 0)) = 1"
  by (simp add: eval_send ex_sim_defs CUDA_TAG_def OCL_TAG_def)

lemma ex_sim_accounted: "p2p ex_sim" "bus_accounted (comm_policy ex_sim (bus_machine ex_sim b) = COMMUNIC_FIFO) (buses ex_sim b)"
  by (simp_all add: ex_sim_defs p2p_def wait_lists_def bus_accounted_def)

theorem buses_and_links_accounted_witness:
  "\<exists>s'. really_send_to 0 ex_sim = retR s' \<and>
    (\<forall>b. cur_messages (buses s' b) = int (length (on_bus (buses s' b))) \<and>
      (comm_policy ex_sim (bus_machine ex_sim b) = COMMUNIC_FIFO \<longrightarrow> cur_messages (buses s' b) \<le> max_messages (buses s' b))) \<and>
    (\<forall>ow. pool_links (pools s' ow) = pool_links (pools ex_sim ow))"
proof -
  obtain s' where h: "really_send_to 0 ex_sim = retR s'" using ex_send by blast
  have "(comm_step (\<lambda>_. None) no_others)\<^sup>*\<^sup>* ex_sim s'" by (rule r_into_rtranclp, rule comm_step.send[OF h])
  from buses_and_links_accounted[OF this ex_sim_accounted(1)] ex_sim_accounted(2) h show ?thesis by blast
qed

section \<open>The events of a message\<close>

lemma cost_engine:
  "engine_of (upd_comm t f s) = engine_of s" "engine_of (upd_account t g s) = engine_of s"
  "engine_of (s\<lparr>random_calls := i\<rparr>) = engine_of s"
  "engine_of (s\<lparr>increment_missatges := x\<rparr>) = engine_of s" "engine_of (begin_transfer t s) = engine_of s"
  by (simp_all add: upd_comm_def upd_account_def upd_exec_def engine_of_def engine.truncate_def begin_transfer_def upd_thread_def)

lemma shared_bandwidth_engine: "shared_bandwidth bw k b s = Inr (x, s') \<Longrightarrow> engine_of s' = engine_of s"
  by (auto simp: shared_bandwidth_def Let_def RANDOM_GenerateRandom_def cost_engine split: if_splits)

lemma transferencia_engine: "transferencia sz ct t c s = Inr (r, s') \<Longrightarrow> engine_of s' = engine_of s"
  by (cases ct)
    (auto simp: transferencia_def Let_def bindE_eq_Inr timed_def set_last_comm_def cost_engine
      recompute_memory_bandwidth_def recompute_internal_network_bandwidth_def recompute_accelerator_bandwidth_def
      recompute_external_network_bandwidth_def recompute_external_network_traffic_def RANDOM_GenerateRandom_def
      split: if_splits option.splits dest: shared_bandwidth_engine)

lemma engine_fields:
  assumes "engine_of s' = engine_of s"
  shows "Event_queue s' = Event_queue s" "next_ev s' = next_ev s" "current_time s' = current_time s"
    "thread_event s' = thread_event s" "in_process s' = in_process s"
  using assms by (simp_all add: engine_of_def engine.truncate_def)

lemma transferencia_resources_nonneg:
  assumes "transferencia sz ct t c s = Inr ((ti, tr), s')" "platform_sane (plat s)" "0 \<le> sz"
    "ct \<noteq> EXTERNAL_MODEL_COM_TYPE"
  shows "0 \<le> tr"
  using assms
  by (cases ct) (auto simp: transferencia_def Let_def bindE_eq_Inr timed_def platform_sane_def bw_ns_per_byte_def
      split: if_splits)

text \<open>
  Property C14. A message that is started puts exactly two events into the queue, one by one behind the events of
  the same time: the release of its resources and, at the same time or later, its end, to which the
  thread points. Neither lies in the past, so the queue stays fit for the event manager.
\<close>

theorem message_sets_two_timers:
  assumes "start_transfer ct c info no_rtt t s = Inr s'" "platform_sane (plat s)" "0 \<le> mess_size (sends s t)"
    and "ct \<noteq> EXTERNAL_MODEL_COM_TYPE" "engine_ok s"
  shows "engine_ok s' \<and> (\<exists>tr ti. 0 \<le> tr \<and> tr \<le> ti \<and>
    Event_queue s' = seq_insert event_time (new_event (current_time s + ti) False M_COM (Some t) COM_TIMER_OUT (next_ev s + 1))
      (seq_insert event_time (new_event (current_time s + tr) False M_COM (Some t) info (next_ev s)) (Event_queue s)) \<and>
    thread_event s' t = Some (next_ev s + 1))"
proof -
  obtain ti tr s1 r s2 where h: "transferencia (mess_size (sends s t)) ct t c (begin_transfer t s) = Inr ((ti, tr), s1)"
    "tr \<le> ti" "EVENT_timer (current_time s + tr) False M_COM (Some t) info s1 = Inr (r, s2)"
    "com_timer (current_time s + ti) t COM_TIMER_OUT s2 = Inr s'"
    using assms(1) by (auto simp: start_transfer_def bindE_eq_Inr no_rtt_def split: if_splits)
  have e: "engine_of s1 = engine_of s" using transferencia_engine[OF h(1)] by (simp add: cost_engine)
  note e = engine_fields[OF e]
  have tr: "0 \<le> tr"
    using transferencia_resources_nonneg[OF h(1) _ assms(3,4)] assms(2) begin_transfer_quiet[of s t]
    by (simp add: quiet_def)
  have ok1: "engine_ok s1" using assms(5) by (simp add: engine_ok_def e)
  have e2: "Event_queue s2 = seq_insert event_time (new_event (current_time s + tr) False M_COM (Some t) info (next_ev s)) (Event_queue s)"
    "next_ev s2 = next_ev s + 1" "current_time s2 = current_time s"
    using EVENT_timer_queue[OF h(3)] EVENT_timer_not_refused[OF h(3)] by (auto simp: e)
  have ok2: "engine_ok s2" by (rule EVENT_timer_ok[OF ok1 _ h(3)]) (simp add: e tr)
  obtain q s3 where s3: "EVENT_timer (current_time s + ti) False M_COM (Some t) COM_TIMER_OUT s2 = Inr (q, s3)"
    "s' = s3\<lparr>thread_event := (thread_event s3)(t := q)\<rparr>"
    using h(4) by (auto simp: com_timer_def bindE_eq_Inr)
  have "engine_ok s3" by (rule EVENT_timer_ok[OF ok2 _ s3(1)]) (use e2 tr h(2) in simp)
  then have "engine_ok s'" by (simp add: s3(2) engine_ok_def)
  moreover have "q = Some (next_ev s + 1)"
    "Event_queue s3 = seq_insert event_time (new_event (current_time s + ti) False M_COM (Some t) COM_TIMER_OUT (next_ev s + 1)) (Event_queue s2)"
    using EVENT_timer_queue[OF s3(1)] EVENT_timer_not_refused[OF s3(1)] by (auto simp: e2)
  ultimately show ?thesis using tr h(2) e2 s3(2) by auto
qed

lemma ex_start: "\<exists>s'. start_transfer INTERNAL_NETWORK_COM_TYPE 0 COM_TIMER_OUT_RESOURCES_NET no_rtt 0 ex_sim = Inr s'"
  by (simp add: eval_send no_rtt_def ex_sim_defs)

theorem message_sets_two_timers_witness:
  "\<exists>s'. start_transfer INTERNAL_NETWORK_COM_TYPE 0 COM_TIMER_OUT_RESOURCES_NET no_rtt 0 ex_sim = Inr s' \<and> engine_ok s' \<and>
    (\<exists>tr ti. 0 \<le> tr \<and> tr \<le> ti \<and>
      Event_queue s' = seq_insert event_time (new_event (current_time ex_sim + ti) False M_COM (Some 0) COM_TIMER_OUT (next_ev ex_sim + 1))
        (seq_insert event_time (new_event (current_time ex_sim + tr) False M_COM (Some 0) COM_TIMER_OUT_RESOURCES_NET (next_ev ex_sim))
          (Event_queue ex_sim)) \<and>
      thread_event s' 0 = Some (next_ev ex_sim + 1))"
proof -
  obtain s' where h: "start_transfer INTERNAL_NETWORK_COM_TYPE 0 COM_TIMER_OUT_RESOURCES_NET no_rtt 0 ex_sim = Inr s'"
    using ex_start by blast
  have "engine_ok ex_sim" "0 \<le> mess_size (sends ex_sim 0)" by (simp_all add: ex_sim_def ex_sim_send_def engine_ok_def)
  with message_sets_two_timers[OF h ex_sim_ok(2)] h show ?thesis by blast
qed

section \<open>Waking the first waiter\<close>

lemma internal_transfer_defined:
  assumes "0 \<le> dest (sends s t)" "dest (sends s t) < tasks_count s"
    and "cur_messages (buses s (MachBus (machine_of_node s (get_node_of_thread t s))))
       \<le> max_messages (buses s (MachBus (machine_of_node s (get_node_of_thread t s))))"
  shows "\<exists>ti tr s'. transferencia sz INTERNAL_NETWORK_COM_TYPE t c s = Inr ((ti, tr), s')"
  using assms by (simp add: transferencia_def locate_task_def Let_def recompute_internal_network_bandwidth_def
      shared_bandwidth_def RANDOM_GenerateRandom_def contention_ratio_def timed_def)

lemma EVENT_timer_defined:
  "\<exists>s'. EVENT_timer w False m (Some t) i s = Inr (Some (next_ev s), s') \<and>
     length (Event_queue s') = length (Event_queue s) + 1"
  by (simp add: EVENT_timer_def Let_def seq_insert_def)

lemma com_timer_defined:
  "\<exists>s'. com_timer w t i s = Inr s' \<and> length (Event_queue s') = length (Event_queue s) + 1"
proof -
  obtain s1 where "EVENT_timer w False M_COM (Some t) i s = Inr (Some (next_ev s), s1)"
    "length (Event_queue s1) = length (Event_queue s) + 1"
    using EVENT_timer_defined by blast
  then show ?thesis by (simp add: com_timer_def)
qed

lemma start_internal_defined:
  assumes "0 \<le> dest (sends s t)" "dest (sends s t) < tasks_count s"
    and "cur_messages (buses s (MachBus (machine_of_node s (get_node_of_thread t s))))
       \<le> max_messages (buses s (MachBus (machine_of_node s (get_node_of_thread t s))))"
    and "no_noise s" "platform_sane (plat s)" "\<And>b. bus_sane (buses s b)" "0 \<le> mess_size (sends s t)"
    and "0 \<le> suma_missatges s" "\<not> RTT_enabled (plat s)"
  shows "\<exists>s'. start_transfer INTERNAL_NETWORK_COM_TYPE 0 info (internal_rtt t) t s = Inr s' \<and>
     buses s' = buses s \<and> length (Event_queue s') = length (Event_queue s) + 2"
proof -
  let ?b = "begin_transfer t s"
  have q: "quiet s ?b" "suma_missatges ?b = suma_missatges s" "engine_of ?b = engine_of s"
    by (simp_all add: begin_transfer_quiet cost_engine, simp add: begin_transfer_def upd_comm_def upd_account_def upd_exec_def upd_thread_def)
  have "\<exists>ti tr s1. transferencia (mess_size (sends s t)) INTERNAL_NETWORK_COM_TYPE t 0 ?b = Inr ((ti, tr), s1)"
    by (rule internal_transfer_defined) (use q(1) assms(1-3) in \<open>auto simp: quiet_def get_node_of_thread_def\<close>)
  then obtain ti tr s1 where t: "transferencia (mess_size (sends s t)) INTERNAL_NETWORK_COM_TYPE t 0 ?b = Inr ((ti, tr), s1)"
    by blast
  have le: "tr \<le> ti"
    by (rule transfer_resources_le[OF t]) (use q assms(4-8) in \<open>auto simp: quiet_def no_noise_def\<close>)
  have s1: "plat s1 = plat s" "Event_queue s1 = Event_queue s"
    using transferencia_quiet[OF t] q(1) engine_fields(1)[OF transferencia_engine[OF t]] engine_fields(1)[OF q(3)]
    by (simp_all add: quiet_def)
  obtain s2 where s2: "EVENT_timer (current_time s + tr) False M_COM (Some t) info s1 = Inr (Some (next_ev s1), s2)"
    "length (Event_queue s2) = length (Event_queue s1) + 1" using EVENT_timer_defined by blast
  obtain s' where s': "com_timer (current_time s + ti) t COM_TIMER_OUT s2 = Inr s'"
    "length (Event_queue s') = length (Event_queue s2) + 1" using com_timer_defined by blast
  have "start_transfer INTERNAL_NETWORK_COM_TYPE 0 info (internal_rtt t) t s = Inr s'"
    using t le s2(1) s'(1) assms(9) s1(1) by (simp add: start_transfer_def internal_rtt_def)
  moreover from this have "quiet s s'" by (rule start_transfer_quiet) (rule rtt_same)
  ultimately show ?thesis using s' s2 s1 by (auto simp: quiet_def)
qed

text \<open>
  Property C15. When a network bus has been given back and messages wait for one, the message
  that has waited longest and holds its links starts at once: it leaves the queue, takes the bus, and the
  counter goes up again, so no bus stays idle. The others keep their order. (Without random terms, for a
  network of limited links.)
\<close>

theorem freed_bus_goes_to_first_waiter:
  assumes "wait_for_bus (buses s (MachBus m)) = f # fs" "cur_messages (buses s (MachBus m)) < max_messages (buses s (MachBus m))"
    and "\<And>b. bus_sane (buses s b)" "max_messages (buses s (MachBus m)) \<noteq> 0"
    and "act (threads s f) = A_SEND" "comm_type (sends s f) = INTERNAL_NETWORK_COM_TYPE"
    and "machine_of_node s (get_node_of_thread f s) = m" "0 \<le> dest (sends s f)" "dest (sends s f) < tasks_count s"
    and "node_of_task s (dest (sends s f)) = np" "np \<noteq> get_node_of_thread f s" "machine_of_node s np = m"
    and "local_link (threads s f) \<noteq> None" "partner_link (threads s f) \<noteq> None"
    and "\<not> infinite_net_links s (get_node_of_thread f s)" "\<not> infinite_net_links s np"
    and "\<not> RTT_enabled (plat s)" "no_noise s" "platform_sane (plat s)" "0 \<le> mess_size (sends s f)" "0 \<le> suma_missatges s"
  shows "\<exists>s'. wake_bus rma w g (MachBus m) s = retR s' \<and> wait_for_bus (buses s' (MachBus m)) = fs \<and>
    cur_messages (buses s' (MachBus m)) = cur_messages (buses s (MachBus m)) + 1 \<and>
    on_bus (buses s' (MachBus m)) = on_bus (buses s (MachBus m)) @ [(f, current_time s)] \<and>
    length (Event_queue s') = length (Event_queue s) + 2"
proof -
  define s1 where "s1 = upd_bus (MachBus m) (\<lambda>x. x\<lparr>wait_for_bus := fs\<rparr>) (ACCUMULATE_BUS_WAIT_TIME f s)"
  define s1' where "s1' = upd_thread f (\<lambda>th. th\<lparr>partner_node := None\<rparr>) (upd_thread f (\<lambda>th. th\<lparr>partner_node := Some np\<rparr>) s1)"
  define s2 where "s2 = upd_bus (MachBus m) (\<lambda>x. x\<lparr>cur_messages := cur_messages x + 1, on_bus := on_bus x @ [(f, current_time s)]\<rparr>) s1'"
  have q: "quiet s (ACCUMULATE_BUS_WAIT_TIME f s)" by (rule ACCUMULATE_BUS_quiet)
  have i: "infinite_net_links s1 = infinite_net_links s" "current_time s1 = current_time s"
    "suma_missatges s1 = suma_missatges s" "Event_queue s1 = Event_queue s"
    by (simp_all add: s1_def upd_bus_def ACCUMULATE_BUS_WAIT_TIME_def upd_comm_def upd_account_def upd_exec_def Let_def)
  have nd: "get_node_of_thread f s1 = get_node_of_thread f s"
    using q by (simp add: s1_def upd_bus_def get_node_of_thread_def quiet_def)
  have ex: "extract_waiter (MachBus m) f (ACCUMULATE_BUS_WAIT_TIME f s) = Inr s1"
    using q assms(1) by (simp add: extract_waiter_def q_extract_def s1_def quiet_def)
  have lk: "LINKS_get_network_links f (get_node_of_thread f s) np s1 = Inr (True, s1')"
    using assms(11,13-16) q i
    by (auto simp: LINKS_get_network_links_def take_out_def take_in_def get_network_in_def reserved_def s1_def s1'_def
        upd_bus_def quiet_def)
  have f1: "sends s1 = sends s" "plat s1 = plat s" "tasks_count s1 = tasks_count s" "node_of_task s1 = node_of_task s" "machine_of_node s1 = machine_of_node s"
    "task_of (threads s1 f) = task_of (threads s f)" "comm_policy s1 = comm_policy s"
    using q by (simp_all add: s1_def upd_bus_def quiet_def)
  have b1: "buses s1' (MachBus m) = (buses s (MachBus m))\<lparr>wait_for_bus := fs\<rparr>" "current_time s1' = current_time s"
    "comm_policy s1' = comm_policy s"
    using q i by (simp_all add: s1'_def s1_def upd_bus_def upd_thread_def quiet_def)
  have tb: "take_bus True (MachBus m) m f s1' = (True, s2)"
    using assms(2,4) by (simp add: take_bus_def b1 s2_def)
  have f2: "sends s2 = sends s" "plat s2 = plat s" "tasks_count s2 = tasks_count s" "node_of_task s2 = node_of_task s" "machine_of_node s2 = machine_of_node s"
    "get_node_of_thread f s2 = get_node_of_thread f s" "random_numbers s2 = random_numbers s"
    "suma_missatges s2 = suma_missatges s" "Event_queue s2 = Event_queue s"
    "buses s2 = (buses s)(MachBus m := (buses s (MachBus m))\<lparr>wait_for_bus := fs,
       cur_messages := cur_messages (buses s (MachBus m)) + 1,
       on_bus := on_bus (buses s (MachBus m)) @ [(f, current_time s)]\<rparr>)"
    using q i by (simp_all add: s2_def s1'_def s1_def upd_bus_def upd_thread_def get_node_of_thread_def quiet_def)
  have sane: "bus_sane (buses s2 b)" for b using assms(2) assms(3)[of b] by (auto simp: f2 bus_sane_def)
  obtain s' where s': "start_transfer INTERNAL_NETWORK_COM_TYPE 0 COM_TIMER_OUT_RESOURCES_NET (internal_rtt f) f s2 = Inr s'"
    "buses s' = buses s2" "length (Event_queue s') = length (Event_queue s2) + 2"
    using start_internal_defined[of s2 f COM_TIMER_OUT_RESOURCES_NET] assms sane
    by (auto simp: f2 no_noise_def)
  have "really_send_internal_network f s1 = retR s'"
    using assms(7-10) lk tb s'(1) by (simp add: really_send_internal_network_def Let_def locate_task_def f1 nd bindR_def retR_def)
  moreover have "get_communication_type (task_of (threads s1 f)) (dest (sends s f)) (mess_tag (sends s f))
      (to_int (mess_size (sends s f))) s1 = Inr (INTERNAL_NETWORK_COM_TYPE, None)"
    using assms(7,10-12) by (simp add: get_communication_type_def Let_def f1 get_node_of_thread_def)
  ultimately have "really_send_to f s1 = retR s'"
    using assms(6,8,9) by (simp add: really_send_to_def Let_def locate_task_def f1 bindR_def retR_def)
  then have "wake_bus rma w g (MachBus m) s = retR s'"
    using assms(1,4,5) ex by (simp add: wake_bus_def bindR_def)
  then show ?thesis using s'(2,3) by (simp add: f2)
qed

definition ex_wait :: sim where
  "ex_wait = upd_thread 0 (\<lambda>th. th\<lparr>local_link := Some 0, partner_link := Some 1\<rparr>)
     (upd_bus (MachBus 0) (\<lambda>b. b\<lparr>wait_for_bus := [0, 3]\<rparr>) ex_sim)"

theorem freed_bus_goes_to_first_waiter_witness:
  "\<exists>s'. wake_bus True (\<lambda>_. None) no_others (MachBus 0) ex_wait = retR s' \<and> wait_for_bus (buses s' (MachBus 0)) = [3] \<and>
    cur_messages (buses s' (MachBus 0)) = cur_messages (buses ex_wait (MachBus 0)) + 1 \<and>
    on_bus (buses s' (MachBus 0)) = on_bus (buses ex_wait (MachBus 0)) @ [(0, current_time ex_wait)] \<and>
    length (Event_queue s') = length (Event_queue ex_wait) + 2"
  by (rule freed_bus_goes_to_first_waiter[where np = 1])
    (auto simp: ex_wait_def upd_thread_def upd_bus_def ex_sim_defs bus_sane_def get_node_of_thread_def no_noise_def
      platform_sane_def)

section \<open>Random bandwidths\<close>

text \<open>
  A positive random term of the bandwidth ends the simulation: the message takes less
  time than the resources, which are reckoned without the random term, are in use, and the sender takes this for an
  inconsistency.
\<close>

theorem bandwidth_noise_ends_simulation:
  assumes "0 < random_numbers s R_network_bandwidth (random_calls s)"
    and "0 < remote_bandwidth (plat s) (machine_of_node s (get_node_of_thread t s))"
    and "cur_messages (buses s (MachBus (machine_of_node s (get_node_of_thread t s))))
       \<le> max_messages (buses s (MachBus (machine_of_node s (get_node_of_thread t s))))"
    and "0 < mess_size (sends s t)" "0 \<le> dest (sends s t)" "dest (sends s t) < tasks_count s"
  shows "start_transfer INTERNAL_NETWORK_COM_TYPE c info rtt t s = Inl (Panic ''resources > transmission time!'')"
proof -
  let ?b = "begin_transfer t s" let ?m = "machine_of_node s (get_node_of_thread t s)"
  let ?w = "remote_bandwidth (plat s) ?m" let ?r = "random_numbers s R_network_bandwidth (random_calls s)"
  let ?sz = "real_of_int (mess_size (sends s t))"
  have q: "plat ?b = plat s" "buses ?b = buses s" "sends ?b = sends s" "random_numbers ?b = random_numbers s"
    "random_calls ?b = random_calls s" "tasks_count ?b = tasks_count s" "machine_of_node ?b = machine_of_node s" "get_node_of_thread t ?b = get_node_of_thread t s"
    by (simp_all add: begin_transfer_def upd_comm_def upd_account_def upd_exec_def upd_thread_def get_node_of_thread_def)
  have "\<exists>s1. transferencia (mess_size (sends s t)) INTERNAL_NETWORK_COM_TYPE t c ?b =
      Inr ((bw_ns_per_byte (?w + ?r) * ?sz, bw_ns_per_byte ?w * ?sz), s1)"
    using assms by (simp add: transferencia_def locate_task_def Let_def recompute_internal_network_bandwidth_def
        shared_bandwidth_def RANDOM_GenerateRandom_def contention_ratio_def timed_def q)
  then obtain s1 where t: "transferencia (mess_size (sends s t)) INTERNAL_NETWORK_COM_TYPE t c ?b =
      Inr ((bw_ns_per_byte (?w + ?r) * ?sz, bw_ns_per_byte ?w * ?sz), s1)" ..
  have "bw_ns_per_byte (?w + ?r) < bw_ns_per_byte ?w"
    using assms(1,2) by (auto simp: bw_ns_per_byte_def intro!: divide_strict_left_mono)
  then have "bw_ns_per_byte (?w + ?r) * ?sz < bw_ns_per_byte ?w * ?sz"
    using assms(4) by simp
  then show ?thesis by (simp add: start_transfer_def t)
qed

theorem bandwidth_noise_ends_simulation_witness:
  "start_transfer INTERNAL_NETWORK_COM_TYPE 0 COM_TIMER_OUT_RESOURCES_NET no_rtt 0
     (ex_sim\<lparr>random_numbers := (\<lambda>_ _. 3)\<rparr>) = Inl (Panic ''resources > transmission time!'')"
  by (rule bandwidth_noise_ends_simulation) (simp_all add: ex_sim_defs get_node_of_thread_def)

end
