(* ===== verification/Policies.thy ===== *)
theory Policies
  imports Threads
begin

text \<open>
  What the scheduling policies of \<^verbatim>\<open>Simulator/sched\<close> keep for a thread and how long a thread may run:
  \<^verbatim>\<open>SCH_fifo.c\<close>, \<^verbatim>\<open>SCH_rr.c\<close>, \<^verbatim>\<open>SCH_prio_fifo.c\<close>, \<^verbatim>\<open>SCH_svr4.c\<close>, \<^verbatim>\<open>SCH_boost.c\<close>, \<^verbatim>\<open>SCH_ss_mpi_cp.c\<close>. The table
  \<open>SCH\<close> of \<^verbatim>\<open>sched_vars.c\<close> is a case distinction on \<open>sch_policy\<close>. How a policy makes a thread ready needs
  preemption and is in theory \<open>Scheduler\<close>. Reading the files of the policies (\<open>*_init\<close>) is left out; their
  results are the fields of \<open>t_scheduler\<close>.
\<close>

section \<open>UNIX SVR4\<close>

definition BEST_PRIO :: int where "BEST_PRIO = 59"

text \<open>The columns of \<open>config_ts_dptbl\<close> the code reads: quantum, priority after a full quantum, priority after sleeping.\<close>

definition ts_quantum :: "int \<Rightarrow> int" where
  "ts_quantum p = (if p < 10 then 200000 else if p < 20 then 160000 else if p < 30 then 120000
     else if p < 40 then 80000 else if p < 59 then 40000 else 20000)"

definition ts_tqexp :: "int \<Rightarrow> int" where
  "ts_tqexp p = (if p < 10 then 0 else p - 10)"

definition ts_slpret :: "int \<Rightarrow> int" where
  "ts_slpret p = (if p < 10 then 50 else if p < 20 then 51 else if p < 30 then 52 else if p < 35 then 53
     else if p < 40 then 54 else if p < 45 then 55 else if p = 45 then 56 else if p = 46 then 57
     else if p < 59 then 58 else 59)"

text \<open>A \<open>long\<close> takes the integral part.\<close>

definition to_long :: "real \<Rightarrow> int" where
  "to_long x = (if 0 \<le> x then \<lfloor>x\<rfloor> else \<lceil>x\<rceil>)"

definition svr4_quantum :: "t_scheduler \<Rightarrow> int \<Rightarrow> real" where
  "svr4_quantum sc p = real_of_int (ts_quantum p) * quantum_factor sc / 100"

section \<open>Parameters\<close>

definition set_par :: "tid \<Rightarrow> sch_par \<Rightarrow> 'z world_scheme \<Rightarrow> 'z world_scheme" where
  "set_par t p s = upd_exec t (\<lambda>x. x\<lparr>sch_parameters := p\<rparr>) s"

definition par :: "tid \<Rightarrow> 'z world_scheme \<Rightarrow> sch_par" where
  "par t s = sch_parameters (execs s t)"

text \<open>
  The first event of a thread under SVR4 reads \<open>thread->cpu\<close>, which is written when the thread first runs.
\<close>

definition init_scheduler_parameters :: "tid \<Rightarrow> 'z world_scheme \<Rightarrow> 'z world_scheme res" where
  "init_scheduler_parameters t s = (case sch_policy (sch_of t s) of
      P_FIFO \<Rightarrow> Inr (set_par t Par_NIL s)
    | P_RR \<Rightarrow> Inr (set_par t (Par_rr 0) s)
    | P_PRIO_FIFO \<Rightarrow> Inr (set_par t (Par_prio (base_priority (execs s t))) s)
    | P_SVR4 \<Rightarrow> (case thread_cpu (execs s t) of None \<Rightarrow> Inl Uninit
                 | Some _ \<Rightarrow> Inr (set_par t (Par_svr4 BEST_PRIO 0 False) s))
    | P_BOOST \<Rightarrow> Inr (set_par t (Par_boost (base_priority (execs s t)) 0) s)
    | P_SS_MPI_CP \<Rightarrow> Inr (set_par t (Par_ss 0 0) s))"

text \<open>
  The parameters of the original are copied; under SVR4 not all of them, so the rest stays as
  \<open>init_scheduler_parameters\<close> wrote it. The policy is that of the original.
\<close>

definition copy_parameters :: "tid \<Rightarrow> tid \<Rightarrow> 'z world_scheme \<Rightarrow> 'z world_scheme res" where
  "copy_parameters t d s = (case sch_policy (sch_of t s) of
      P_FIFO \<Rightarrow> Inr s
    | P_SVR4 \<Rightarrow> (case (par t s, par d s) of
          (Par_svr4 p _ _, Par_svr4 _ q f) \<Rightarrow> Inr (set_par d (Par_svr4 p q f) s)
        | _ \<Rightarrow> Inl NullDeref)
    | _ \<Rightarrow> (if par t s = Par_NIL \<or> par d s = Par_NIL then Inl NullDeref else Inr (set_par d (par t s) s)))"

definition SCHEDULER_free_parameters :: "tid \<Rightarrow> 'z world_scheme \<Rightarrow> 'z world_scheme" where
  "SCHEDULER_free_parameters t s = s"

definition modify_priority :: "tid \<Rightarrow> prio \<Rightarrow> 'z world_scheme \<Rightarrow> 'z world_scheme res" where
  "modify_priority t p s = (case sch_policy (sch_of t s) of
      P_SS_MPI_CP \<Rightarrow> (case par t s of Par_ss _ f \<Rightarrow> Inr (set_par t (Par_ss p f) s) | _ \<Rightarrow> Inl NullDeref)
    | _ \<Rightarrow> Inr s)"

definition modify_preemption :: "tid \<Rightarrow> prio \<Rightarrow> 'z world_scheme \<Rightarrow> 'z world_scheme res" where
  "modify_preemption t f s = (case sch_policy (sch_of t s) of
      P_SS_MPI_CP \<Rightarrow> (case par t s of Par_ss p _ \<Rightarrow> Inr (set_par t (Par_ss p f) s) | _ \<Rightarrow> Inl NullDeref)
    | _ \<Rightarrow> Inr s)"

section \<open>What a communication tells the policy\<close>

datatype sch_info = SCH_INFO_RECV_HIT | SCH_INFO_SEND | SCH_INFO_RECV_MISS | SCH_PRIORITY

definition bounded_priority :: "t_boost \<Rightarrow> prio \<Rightarrow> prio" where
  "bounded_priority b p =
     (let p1 = (if p < real_of_int (boost_best b) then real_of_int (boost_best b) else p)
      in if p1 > real_of_int (boost_worst b) then real_of_int (boost_worst b) else p1)"

text \<open>
  Boost changes the priority of the sender or of the receiver and keeps it in its bounds. The machine is
  that of the sender. \<open>SCH_PRIORITY\<close> only asks. A changed priority is written to the trace with the
  processor of the thread.
\<close>

definition SCH_boost_info :: "t_boost \<Rightarrow> sch_info \<Rightarrow> tid \<Rightarrow> tid option \<Rightarrow> 'z world_scheme \<Rightarrow> 'z world_scheme res" where
  "SCH_boost_info b i th_s th_r s =
     (let change = (\<lambda>t d. case par t s of
            Par_boost p q \<Rightarrow>
              (let p1 = bounded_priority b (p + real_of_int d)
               in if p1 \<noteq> p \<and> thread_cpu (execs s t) = None then Inl Uninit
                  else Inr (set_par t (Par_boost p1 q) s))
          | _ \<Rightarrow> Inl NullDeref);
          receiver = (\<lambda>d. case th_r of None \<Rightarrow> Inl NullDeref | Some t \<Rightarrow> change t d)
      in case i of
           SCH_INFO_SEND \<Rightarrow> change th_s (boost_sender_last b)
         | SCH_INFO_RECV_MISS \<Rightarrow> receiver (boost_recv_first b)
         | SCH_INFO_RECV_HIT \<Rightarrow> receiver (boost_recv_last b)
         | SCH_PRIORITY \<Rightarrow> Inr s)"

text \<open>SVR4 raises a thread that has to wait for its message.\<close>

definition svr4_info :: "sch_info \<Rightarrow> tid \<Rightarrow> tid option \<Rightarrow> 'z world_scheme \<Rightarrow> 'z world_scheme res" where
  "svr4_info i th_s th_r s =
     (if i \<noteq> SCH_INFO_RECV_MISS then Inr s
      else case th_r of None \<Rightarrow> Inl NullDeref
         | Some t \<Rightarrow> (case par t s of
               Par_svr4 p q f \<Rightarrow> if p \<noteq> ts_slpret p \<and> thread_cpu (execs s t) = None then Inl Uninit
                 else Inr (set_par t (Par_svr4 (ts_slpret p) q f) s)
             | _ \<Rightarrow> Inl NullDeref))"

definition COMMUNICATION_INFO :: "sch_info \<Rightarrow> tid \<Rightarrow> tid option \<Rightarrow> 'z world_scheme \<Rightarrow> 'z world_scheme res" where
  "COMMUNICATION_INFO i th_s th_r s = (case sch_policy (sch_of th_s s) of
      P_SVR4 \<Rightarrow> svr4_info i th_s th_r s
    | P_BOOST \<Rightarrow> SCH_boost_info (sch_boost (sch_of th_s s)) i th_s th_r s
    | _ \<Rightarrow> Inr s)"

section \<open>How long a thread runs\<close>

text \<open>Take \<open>x\<close> off the burst; an empty burst is over.\<close>

definition consume :: "tid \<Rightarrow> timer \<Rightarrow> 'z world_scheme \<Rightarrow> 'z world_scheme" where
  "consume t x s = (case actions (execs s t) of
      AC_WORK c # as \<Rightarrow> if c - x = 0 then set_actions t as s else set_actions t (AC_WORK (c - x) # as) s
    | _ \<Rightarrow> s)"

definition whole_burst :: "tid \<Rightarrow> 'z world_scheme \<Rightarrow> (timer \<times> 'z world_scheme) res" where
  "whole_burst t s = (case actions (execs s t) of
      AC_WORK c # as \<Rightarrow> Inr (c, set_actions t as s)
    | _ \<Rightarrow> Inl (Panic ''Trying to work when innaproppiate''))"

definition FIFO_get_execution_time :: "tid \<Rightarrow> 'z world_scheme \<Rightarrow> (timer \<times> 'z world_scheme) res" where
  "FIFO_get_execution_time t s = (case actions (execs s t) of
      AC_WORK c # as \<Rightarrow> Inr (c, set_actions t as s)
    | AC_GPU_BURST c # as \<Rightarrow> Inr (c, set_actions t as s)
    | _ \<Rightarrow> Inl Uninit)"

text \<open>Round robin and boost: the time slice, and the part of it that is used already.\<close>

definition slice :: "timer \<Rightarrow> bool \<Rightarrow> timer \<Rightarrow> timer \<Rightarrow> timer \<times> timer" where
  "slice q lost used c =
     (if lost \<or> used = q then (min c q, min c q) else (min (q - used) c, used + min (q - used) c))"

definition RR_get_execution_time :: "tid \<Rightarrow> 'z world_scheme \<Rightarrow> (timer \<times> 'z world_scheme) res" where
  "RR_get_execution_time t s = (case actions (execs s t) of
      AC_WORK c # as \<Rightarrow>
        (case par t s of
           Par_rr used \<Rightarrow>
             (let (x, u) = slice (quantum (sch_of t s)) (loose_cpu s t) used c
              in Inr (x, set_loose_cpu t True (consume t x (set_par t (Par_rr u) s))))
         | _ \<Rightarrow> Inl NullDeref)
    | _ \<Rightarrow> Inl (Panic ''Trying to work when innaproppiate''))"

definition SCH_boost_get_execution_time :: "tid \<Rightarrow> 'z world_scheme \<Rightarrow> (timer \<times> 'z world_scheme) res" where
  "SCH_boost_get_execution_time t s = (case actions (execs s t) of
      AC_WORK c # as \<Rightarrow>
        (case par t s of
           Par_boost p used \<Rightarrow>
             (let (x, u) = slice (quantum (sch_of t s)) (loose_cpu s t) used c
              in Inr (x, set_loose_cpu t True (consume t x (set_par t (Par_boost p u) s))))
         | _ \<Rightarrow> Inl NullDeref)
    | _ \<Rightarrow> Inl (Panic ''Trying to work when innaproppiate''))"

definition svr4_get_execution_time :: "tid \<Rightarrow> 'z world_scheme \<Rightarrow> (timer \<times> 'z world_scheme) res" where
  "svr4_get_execution_time t s = (case par t s of
      Par_svr4 p used full \<Rightarrow>
        (case burst (actions (execs s t)) of
           None \<Rightarrow> Inl Uninit
         | Some c \<Rightarrow>
             (let q = svr4_quantum (sch_of t s) p;
                  (x, u) = (if real_of_int used < q \<and> \<not> loose_cpu s t
                            then (let x = min c (q - real_of_int used) in (x, to_long (real_of_int used + x)))
                            else (let x = min c q in (x, to_long x)));
                  s1 = set_par t (Par_svr4 p u (full \<or> real_of_int u = q)) s
              in Inr (x, case actions (execs s1 t) of
                    AC_GPU_BURST c # as \<Rightarrow> if c - x = 0 then set_actions t as s1
                                           else set_actions t (AC_GPU_BURST (c - x) # as) s1
                  | _ \<Rightarrow> consume t x s1)))
    | _ \<Rightarrow> Inl NullDeref)"

definition policy_get_execution_time :: "tid \<Rightarrow> 'z world_scheme \<Rightarrow> (timer \<times> 'z world_scheme) res" where
  "policy_get_execution_time t s = (case sch_policy (sch_of t s) of
      P_FIFO \<Rightarrow> FIFO_get_execution_time t s
    | P_RR \<Rightarrow> RR_get_execution_time t s
    | P_SVR4 \<Rightarrow> svr4_get_execution_time t s
    | P_BOOST \<Rightarrow> SCH_boost_get_execution_time t s
    | _ \<Rightarrow> whole_burst t s)"

definition SCHEDULER_get_execution_time :: "tid \<Rightarrow> 'z world_scheme \<Rightarrow> (timer \<times> 'z world_scheme) res" where
  "SCHEDULER_get_execution_time t s =
     (if actions (execs s t) = [] then Inl NullDeref
      else if \<not> works (actions (execs s t)) then Inl (Panic ''Trying to work when innaproppiate'')
      else bindE (policy_get_execution_time t s) (\<lambda>(x, s1).
        Inr (x, upd_account t (\<lambda>a. a\<lparr>cpu_time := cpu_time a + x\<rparr>) s1)))"

section \<open>Copies of a thread\<close>

text \<open>\<open>memcpy\<close> and the fields that are set anew.\<close>

definition clone_thread :: "tid \<Rightarrow> tid \<Rightarrow> 'z world_scheme \<Rightarrow> 'z world_scheme" where
  "clone_thread t d s = s\<lparr>
     threads := (threads s)(d := (threads s t)\<lparr>original_thread := False, initial_wait_link_time := 0, block_due_link := 0\<rparr>),
     loose_cpu := (loose_cpu s)(d := loose_cpu s t),
     next_event_timer := (next_event_timer s)(d := next_event_timer s t),
     thread_event := (thread_event s)(d := thread_event s t),
     sends := (sends s)(d := sends s t), recvs := (recvs s)(d := recvs s t),
     comms := (comms s)(d := comms s t), thread_q := (thread_q s)(d := thread_q s t),
     execs := (execs s)(d := (execs s t)\<lparr>twin_thread := Some t, doing_context_switch := False,
       doing_busy_wait := False, sch_parameters := Par_NIL, account := clear_account\<rparr>)\<rparr>"

text \<open>
  \<open>duplicate_thread\<close>: the copy has the current action only, an account of its own and remembers its twin.
\<close>

definition duplicate_thread :: "tid \<Rightarrow> 'z world_scheme \<Rightarrow> (tid \<times> 'z world_scheme) res" where
  "duplicate_thread t s =
     (let d = next_tid s in
      bindE (init_scheduler_parameters d (clone_thread t d (s\<lparr>next_tid := d + 1\<rparr>))) (\<lambda>s1.
      bindE (copy_parameters t d s1) (\<lambda>s2.
      case actions (execs s t) of
        [] \<Rightarrow> Inl NullDeref
      | a # _ \<Rightarrow> Inr (d, set_actions d [a] s2))))"

text \<open>\<open>delete_duplicate_thread\<close> adds the account to that of the twin; a thread without a twin has none.\<close>

definition delete_duplicate_thread :: "tid \<Rightarrow> 'z world_scheme \<Rightarrow> 'z world_scheme res" where
  "delete_duplicate_thread t s = (case twin_thread (execs s t) of
      None \<Rightarrow> Inl NullDeref
    | Some orig \<Rightarrow> Inr (upd_exec t (\<lambda>x. x\<lparr>freed := True\<rparr>)
        (upd_thread orig (\<lambda>th. th\<lparr>block_due_link := block_due_link th + block_due_link (threads s t)\<rparr>)
        (upd_account orig (\<lambda>a. add_account a (account (execs s t))) (SCHEDULER_free_parameters t s)))))"

end
