(* ===== verification/Scheduler.thy ===== *)
theory Scheduler
  imports Policies
begin

text \<open>
  \<^verbatim>\<open>Simulator/sched/schedule.c\<close>: putting threads on processors, preemption, ready queues, and the
  loop that gives the next action of a thread to the module that executes it. The modules are a record
  of operations; a processor, a ready queue and a burst are as in theory \<open>Threads\<close>. The ready queues of
  the policies with priorities use the insertions of theory \<open>Queue\<close>. Output for Paraver and the critical path
  is left out.
\<close>

section \<open>Running\<close>

definition NO_CONTEXT_SWITCH :: timer where "NO_CONTEXT_SWITCH = 0"

definition sch_timer :: "timer \<Rightarrow> tid \<Rightarrow> tid \<Rightarrow> 'z world_scheme \<Rightarrow> 'z world_scheme res" where
  "sch_timer when p t s = bindE (EVENT_timer when False M_SCH (Some t) 0 s) (\<lambda>(r, s1).
     Inr (s1\<lparr>thread_event := (thread_event s1)(p := r)\<rparr>))"

definition assign_cpu :: "tid \<Rightarrow> cpuid \<Rightarrow> 'z world_scheme \<Rightarrow> 'z world_scheme" where
  "assign_cpu t c s =
     (let s1 = upd_exec t (\<lambda>x. x\<lparr>thread_cpu := Some c\<rparr>) (upd_cpu c (\<lambda>u. u\<lparr>current_thread := Some t\<rparr>) s)
      in if current_thread_context (cpus s c) \<noteq> Some t
         then upd_cpu c (\<lambda>u. u\<lparr>current_thread_context := Some t\<rparr>)
                (upd_account t (\<lambda>a. a\<lparr>n_th_in_run := n_th_in_run a + 1\<rparr>) s1)
         else s1)"

text \<open>The loop over the processors of a kernel does not stop at the first free GPU.\<close>

definition assign_gpus :: "tid \<Rightarrow> nodeid \<Rightarrow> 'z world_scheme \<Rightarrow> 'z world_scheme" where
  "assign_gpus t nd s = fold (\<lambda>c u. if is_gpu (cpus u c) \<and> current_thread (cpus u c) = None
     then assign_cpu t c u else u) (node_cpus s nd) s"

text \<open>The processor is read before the test that there is one.\<close>

definition take_cpu :: "tid \<Rightarrow> nodeid \<Rightarrow> 'z world_scheme \<Rightarrow> 'z world_scheme res" where
  "take_cpu t nd s =
     (let acc = task_accelerator s (task_of (threads s t)) in
      if acc \<and> kernel (execs s t) then Inr (assign_gpus t nd s)
      else if \<not> acc \<or> host (execs s t) then
        (case select_free_cpu nd t s of None \<Rightarrow> Inl NullDeref | Some c \<Rightarrow> Inr (assign_cpu t c s))
      else Inr s)"

definition put_thread_on_run :: "tid \<Rightarrow> nodeid \<Rightarrow> 'z world_scheme \<Rightarrow> 'z world_scheme res" where
  "put_thread_on_run t nd s =
     (let sc = scheduler s (machine_of_node s nd); now = current_time s;
          s1 = (if \<not> kernel (execs s t) \<and> \<not> host (execs s t)
                then upd_thread t (\<lambda>th. th\<lparr>last_paraver := now\<rparr>) s else s);
          s2 = upd_account t (\<lambda>a. a\<lparr>time_ready_without_cpu := (now - put_into_ready (execs s t)) + time_ready_without_cpu a\<rparr>) s1
      in bindE (take_cpu t nd s2) (\<lambda>s3.
         if context_switch sc \<noteq> NO_CONTEXT_SWITCH then
           sch_timer (now + context_switch sc) t t
             (upd_exec t (\<lambda>x. x\<lparr>doing_context_switch := True, to_be_preempted := False,
                min_time_to_be_preempted := context_switch sc + (now + minimum_quantum sc)\<rparr>) s3)
         else
           bindE (SCHEDULER_get_execution_time t
             (upd_exec t (\<lambda>x. x\<lparr>min_time_to_be_preempted := now + minimum_quantum sc\<rparr>) s3)) (\<lambda>(ti, s4).
           sch_timer (now + ti) t t s4)))"

definition SCHEDULER_next_thread_to_run :: "nodeid \<Rightarrow> 'z world_scheme \<Rightarrow> 'z world_scheme res" where
  "SCHEDULER_next_thread_to_run nd s = (case ready s nd of
      [] \<Rightarrow> Inl (Panic ''Null thread scheduled to run!'')
    | (t, _) # _ \<Rightarrow> put_thread_on_run t nd (upd_ready nd tl s))"

section \<open>Preemption\<close>

text \<open>\<open>COMMUNIC_block_after_busy_wait\<close> of communic.c: the thread waits for its message without a processor.\<close>

definition COMMUNIC_block_after_busy_wait :: "tid \<Rightarrow> 'z world_scheme \<Rightarrow> 'z world_scheme" where
  "COMMUNIC_block_after_busy_wait t s =
     (let s1 = upd_exec t (\<lambda>x. x\<lparr>start_wait_for_message := current_time s\<rparr>)
                 (upd_account t (\<lambda>a. a\<lparr>n_recvs_must_wait := n_recvs_must_wait a + 1\<rparr>) s)
      in if ori_thread (recvs s t) = - 1
         then s1\<lparr>task_q := (task_q s1)(task_of (threads s t) :=
                (task_q s1 (task_of (threads s t)))\<lparr>recvq := recvq (task_q s1 (task_of (threads s t))) @ [t]\<rparr>)\<rparr>
         else s1\<lparr>thread_q := (thread_q s1)(t := (thread_q s1 t)\<lparr>recvq := recvq (thread_q s1 t) @ [t]\<rparr>)\<rparr>)"

definition USER_EVENT_TYPE_TASKID_START_TASK :: int where "USER_EVENT_TYPE_TASKID_START_TASK = 7001"
definition USER_EVENT_TYPE_TASKTYPE_START_TASK :: int where "USER_EVENT_TYPE_TASKTYPE_START_TASK = 7003"
definition PRIORITY_SET_EVENT :: int where "PRIORITY_SET_EVENT = 6999"

text \<open>What a preempted thread still has to do: the rest of its burst, behind the events that mark its task again.\<close>

definition resumed_actions :: "t_exec \<Rightarrow> timer \<Rightarrow> action list" where
  "resumed_actions x rest =
     (let as1 = AC_WORK rest # actions x;
          as2 = (if sstask_id x > 0 then AC_EVENT USER_EVENT_TYPE_TASKID_START_TASK (sstask_id x) # as1 else as1);
          as3 = (if sstask_type x > 0 then AC_EVENT USER_EVENT_TYPE_TASKTYPE_START_TASK (sstask_type x) # as2 else as2)
      in if sstask_id x > 0 \<or> sstask_type x > 0 then AC_WORK 0 # as3 else as3)"

text \<open>
  The thread that runs too short keeps the processor until its minimal quantum is over; the new event
  is stored in the preempting thread.
\<close>

definition preempt_later :: "tid \<Rightarrow> tid \<Rightarrow> 'z world_scheme \<Rightarrow> 'z world_scheme res" where
  "preempt_later t cur s =
     (let m = min_time_to_be_preempted (execs s cur) in
      if next_event_timer s cur > m then
        bindE (EVENT_extract_timer M_SCH cur s) (\<lambda>(when, s1).
        let rest = when - current_time s;
            s2 = upd_account cur (\<lambda>a. a\<lparr>cpu_time := cpu_time a - rest\<rparr>) s1;
            s3 = (case actions (execs s2 cur) of
                    AC_WORK c # as \<Rightarrow> set_actions cur (AC_WORK (c + rest) # as) s2
                  | as \<Rightarrow> set_actions cur (AC_WORK rest # as) s2)
        in sch_timer m t cur s3)
      else Inr s)"

text \<open>Take the running thread off its processor; the rest of its burst comes back.\<close>

definition suspend :: "tid \<Rightarrow> 'z world_scheme \<Rightarrow> 'z world_scheme res" where
  "suspend cur s =
     bindE (EVENT_extract_timer M_SCH cur s) (\<lambda>(when, s1).
     let rest = when - current_time s;
         s2 = upd_account cur (\<lambda>a. a\<lparr>cpu_time := cpu_time a - rest\<rparr>)
                (upd_exec cur (\<lambda>x. x\<lparr>put_into_ready := current_time s\<rparr>) s1);
         s3 = set_actions cur (resumed_actions (execs s2 cur) rest) s2
     in Inr (upd_thread cur (\<lambda>th. th\<lparr>last_paraver := current_time s\<rparr>) s3))"

text \<open>The result is the thread that has to be put into the ready queue, if any.\<close>

definition SCHEDULER_preemption :: "tid \<Rightarrow> cpuid \<Rightarrow> 'z world_scheme \<Rightarrow> (tid option \<times> 'z world_scheme) res" where
  "SCHEDULER_preemption t c s = (case current_thread (cpus s c) of
      None \<Rightarrow> Inl NullDeref
    | Some cur \<Rightarrow>
        let finish = (\<lambda>out s1.
              if actions (execs s1 t) = [] then Inl NullDeref
              else if \<not> works (actions (execs s1 t)) then Inl (Panic ''Next action must be work'')
              else bindE (put_thread_on_run t (get_node_of_thread t s1) s1) (\<lambda>s2.
                Inr (out, upd_account t (\<lambda>a. a\<lparr>n_preempt_to_other := n_preempt_to_other a + 1\<rparr>)
                       (upd_account cur (\<lambda>a. a\<lparr>n_preempt_to_me := n_preempt_to_me a + 1\<rparr>) s2))))
        in
        if doing_busy_wait (execs s cur) then
          bindE (EVENT_extract_timer M_SCH cur s) (\<lambda>(_, s1).
          finish None (upd_cpu c (\<lambda>u. u\<lparr>current_thread := None\<rparr>)
            (COMMUNIC_block_after_busy_wait cur
              (upd_exec cur (\<lambda>x. x\<lparr>doing_busy_wait := False\<rparr>)
                (upd_thread cur (\<lambda>th. th\<lparr>last_paraver := current_time s\<rparr>) s1)))))
        else if min_time_to_be_preempted (execs s cur) > current_time s then
          bindE (preempt_later t cur s) (\<lambda>s1. Inr (Some t, s1))
        else
          bindE (suspend cur (upd_cpu c (\<lambda>u. u\<lparr>current_thread := None\<rparr>) s)) (\<lambda>s1. finish (Some cur) s1))"

section \<open>Getting ready\<close>

definition prio_of :: "sch_par \<Rightarrow> prio option" where
  "prio_of p = (case p of Par_prio q \<Rightarrow> Some q | Par_boost q _ \<Rightarrow> Some q | Par_ss q _ \<Rightarrow> Some q
     | Par_svr4 q _ _ \<Rightarrow> Some (real_of_int q) | _ \<Rightarrow> None)"

text \<open>
  The processor to preempt: the last one whose thread has a greater value than the thread and than those found
  before. All processors are looked at, a GPU too, and an idle one has no thread to look at.
\<close>

fun cpu_to_preempt :: "prio \<Rightarrow> prio \<Rightarrow> cpuid option \<Rightarrow> cpuid list \<Rightarrow> 'z world_scheme \<Rightarrow> cpuid option res" where
  "cpu_to_preempt own best found [] s = Inr found"
| "cpu_to_preempt own best found (c # cs) s = (case current_thread (cpus s c) of
      None \<Rightarrow> Inl NullDeref
    | Some u \<Rightarrow> (case prio_of (par u s) of
          None \<Rightarrow> Inl NullDeref
        | Some p \<Rightarrow> if p > own \<and> p > best then cpu_to_preempt own p (Some c) cs s
                    else cpu_to_preempt own best found cs s))"

definition try_preempt :: "bool \<Rightarrow> tid \<Rightarrow> 'z world_scheme \<Rightarrow> ((tid option \<times> bool) \<times> 'z world_scheme) res" where
  "try_preempt wanted t s =
     (let nd = get_node_of_thread t s in
      if wanted \<and> select_free_cpu nd t s = None then
        (case prio_of (par t s) of
           None \<Rightarrow> Inl NullDeref
         | Some p \<Rightarrow> bindE (cpu_to_preempt p p None (node_cpus s nd) s) (\<lambda>found.
             case found of
               None \<Rightarrow> Inr ((Some t, False), s)
             | Some c \<Rightarrow> bindE (SCHEDULER_preemption t c s) (\<lambda>(out, s1). Inr ((out, True), s1))))
      else Inr ((Some t, False), s))"

definition FIFO_thread_to_ready :: "tid \<Rightarrow> 'z world_scheme \<Rightarrow> 'z world_scheme res" where
  "FIFO_thread_to_ready t s =
     (let nd = get_node_of_thread t s in
      Inr (upd_ready nd (\<lambda>q. if loose_cpu s t \<or> lost_cpu_on_send (sch_of t s) then q @ [(t, 0)] else (t, 0) # q) s))"

definition RR_thread_to_ready :: "tid \<Rightarrow> 'z world_scheme \<Rightarrow> 'z world_scheme res" where
  "RR_thread_to_ready t s =
     (if actions (execs s t) = [] then Inl (Panic ''Queuing thread without actions'') else FIFO_thread_to_ready t s)"

text \<open>Fixed priorities and boost have the same code. \<open>nd\<close> is the node of the thread that asked.\<close>

definition insert_by_priority :: "bool \<Rightarrow> nodeid \<Rightarrow> tid \<Rightarrow> prio \<Rightarrow> 'z world_scheme \<Rightarrow> 'z world_scheme" where
  "insert_by_priority behind nd t p s =
     upd_ready nd (if behind then seq_insert snd (t, p) else seq_insert_first snd (t, p)) s"

definition PRIO_FIFO_thread_to_ready :: "tid \<Rightarrow> 'z world_scheme \<Rightarrow> 'z world_scheme res" where
  "PRIO_FIFO_thread_to_ready t s =
     (let nd = get_node_of_thread t s; sc = sch_of t s in
      bindE (try_preempt (priority_preemptive sc) t s) (\<lambda>((out, _), s1).
      case out of
        None \<Rightarrow> Inr s1
      | Some u \<Rightarrow> (case prio_of (par u s1) of
            None \<Rightarrow> Inl NullDeref
          | Some p \<Rightarrow>
              if actions (execs s1 u) = [] then Inl (Panic ''Thread to ready without actions'')
              else Inr (insert_by_priority (loose_cpu s1 u \<or> lost_cpu_on_send sc) nd u p s1))))"

definition SS_MPI_CP_thread_to_ready :: "tid \<Rightarrow> 'z world_scheme \<Rightarrow> 'z world_scheme res" where
  "SS_MPI_CP_thread_to_ready t s = (case par t s of
      Par_ss _ forces \<Rightarrow>
        let nd = get_node_of_thread t s; sc = sch_of t s in
        bindE (try_preempt (forces = 1) t s) (\<lambda>((out, preempted), s1).
        case out of
          None \<Rightarrow> Inr s1
        | Some u \<Rightarrow> (case prio_of (par u s1) of
              None \<Rightarrow> Inl NullDeref
            | Some p \<Rightarrow>
                if actions (execs s1 u) = [] then Inl (Panic ''Thread to ready without actions'')
                else if loose_cpu s1 u \<or> lost_cpu_on_send sc then
                  (if preempted then Inr (insert_by_priority True nd u p s1)
                   else if p = 0 then Inr (insert_by_priority False nd u p s1)
                   else Inr (upd_ready nd (seq_insert_back snd (u, p)) s1))
                else Inr (insert_by_priority False nd u p s1)))
    | _ \<Rightarrow> Inl NullDeref)"

text \<open>SVR4 orders by the distance to the best priority, but compares the priorities themselves.\<close>

definition svr4_thread_to_ready :: "tid \<Rightarrow> 'z world_scheme \<Rightarrow> 'z world_scheme res" where
  "svr4_thread_to_ready t s = (case par t s of
      Par_svr4 p q full \<Rightarrow>
        if full \<and> p \<noteq> ts_tqexp p \<and> thread_cpu (execs s t) = None then Inl Uninit
        else
        let nd = get_node_of_thread t s; sc = sch_of t s;
            s0 = (if full then set_par t (Par_svr4 (ts_tqexp p) q False) s else s)
        in bindE (try_preempt (priority_preemptive sc) t s0) (\<lambda>((out, _), s1).
        case out of
          None \<Rightarrow> Inr s1
        | Some u \<Rightarrow> (case par u s1 of
              Par_svr4 p1 _ _ \<Rightarrow> Inr (insert_by_priority (loose_cpu s1 u) nd u (real_of_int (BEST_PRIO - p1)) s1)
            | _ \<Rightarrow> Inl NullDeref))
    | _ \<Rightarrow> Inl NullDeref)"

definition policy_thread_to_ready :: "tid \<Rightarrow> 'z world_scheme \<Rightarrow> 'z world_scheme res" where
  "policy_thread_to_ready t s = (case sch_policy (sch_of t s) of
      P_FIFO \<Rightarrow> FIFO_thread_to_ready t s
    | P_RR \<Rightarrow> RR_thread_to_ready t s
    | P_PRIO_FIFO \<Rightarrow> PRIO_FIFO_thread_to_ready t s
    | P_SVR4 \<Rightarrow> svr4_thread_to_ready t s
    | P_BOOST \<Rightarrow> PRIO_FIFO_thread_to_ready t s
    | P_SS_MPI_CP \<Rightarrow> SS_MPI_CP_thread_to_ready t s)"

text \<open>An action that is no burst gets an empty one in front of it.\<close>

definition SCHEDULER_thread_to_ready :: "tid \<Rightarrow> 'z world_scheme \<Rightarrow> 'z world_scheme res" where
  "SCHEDULER_thread_to_ready t s =
     (let (more, s1) = more_actions t s in
      if \<not> more then Inl (Panic ''Trying to run without actions'')
      else let s2 = (if works (actions (execs s1 t)) then s1
                     else set_actions t (AC_WORK 0 # actions (execs s1 t)) s1);
               s3 = upd_exec t (\<lambda>x. x\<lparr>put_into_ready := current_time s\<rparr>) s2
           in bindE (policy_thread_to_ready t s3) (\<lambda>s4. Inr (s4\<lparr>reload_done := True\<rparr>)))"

definition SCHEDULER_thread_to_ready_return :: "modul \<Rightarrow> tid \<Rightarrow> timer \<Rightarrow> int \<Rightarrow> 'z world_scheme \<Rightarrow> 'z world_scheme res" where
  "SCHEDULER_thread_to_ready_return m t ti i s =
     (let as = actions (execs s t) in
      if m \<in> {M_CTXT_SW, M_EV} then Inl (Panic ''Invalid module identifier'')
      else SCHEDULER_thread_to_ready t
             (set_actions t (AC_WORK ti # (if m = M_FS then AC_FS i # as else as)) s))"

definition SCHEDULER_thread_to_busy_wait :: "tid \<Rightarrow> 'z world_scheme \<Rightarrow> 'z world_scheme res" where
  "SCHEDULER_thread_to_busy_wait t s = (case thread_cpu (execs s t) of
      None \<Rightarrow> Inl Uninit
    | Some c \<Rightarrow> sch_timer (current_time s + context_switch (sch_of t s)) t t
        (upd_exec t (\<lambda>x. x\<lparr>doing_busy_wait := True, min_time_to_be_preempted := current_time s\<rparr>)
          (upd_cpu c (\<lambda>u. u\<lparr>current_thread := Some t\<rparr>) s)))"

text \<open>The next action when the last one is over: \<open>thread->loose_cpu = b; SCHEDULER_thread_to_ready (thread)\<close>.\<close>

definition ready_if_more :: "bool \<Rightarrow> tid \<Rightarrow> 'z world_scheme \<Rightarrow> 'z world_scheme res" where
  "ready_if_more b t s = (let (more, s1) = more_actions t s in
     if more then SCHEDULER_thread_to_ready t (set_loose_cpu t b s1) else Inr s1)"

definition continue_thread :: "tid \<Rightarrow> 'z world_scheme \<Rightarrow> 'z world_scheme res" where
  "continue_thread t s = bindE (next_action t s) (ready_if_more False t)"

section \<open>The next operation of a thread\<close>

record 's ops =
  do_send :: "tid \<Rightarrow> 's \<Rightarrow> 's run"
  do_recv :: "tid \<Rightarrow> 's \<Rightarrow> 's run"
  do_irecv :: "tid \<Rightarrow> 's \<Rightarrow> 's run"
  do_wait :: "tid \<Rightarrow> 's \<Rightarrow> 's run"
  do_event :: "int \<Rightarrow> int \<Rightarrow> tid \<Rightarrow> 's \<Rightarrow> 's run"
  do_fs :: "int \<Rightarrow> tid \<Rightarrow> 's \<Rightarrow> 's run"
  do_sem_wait :: "int \<Rightarrow> tid \<Rightarrow> 's \<Rightarrow> 's run"
  do_sem_signal :: "int \<Rightarrow> tid \<Rightarrow> 's \<Rightarrow> 's run"
  do_sem_signal_n :: "int \<Rightarrow> int \<Rightarrow> tid \<Rightarrow> 's \<Rightarrow> 's run"
  do_port_send :: "modul \<Rightarrow> int \<Rightarrow> int \<Rightarrow> tid \<Rightarrow> 's \<Rightarrow> 's run"
  do_port_recv :: "modul \<Rightarrow> int \<Rightarrow> int \<Rightarrow> tid \<Rightarrow> 's \<Rightarrow> 's run"
  do_memory_copy :: "modul \<Rightarrow> nodeid \<Rightarrow> nodeid \<Rightarrow> int \<Rightarrow> tid \<Rightarrow> 's \<Rightarrow> 's run"
  do_global_op :: "t_global_op \<Rightarrow> tid \<Rightarrow> 's \<Rightarrow> 's run"
  do_mpi_io :: "tid \<Rightarrow> 's \<Rightarrow> 's run"
  do_mpi_os :: "tid \<Rightarrow> 's \<Rightarrow> 's run"

text \<open>
  An event of an accelerator is the block the thread is in from now on; the kernel waits at a synchronisation.
  The states of the processor it ends are output.
\<close>

definition acc_event :: "int \<Rightarrow> int \<Rightarrow> timer \<Rightarrow> t_exec \<Rightarrow> t_exec" where
  "acc_event ty v now x =
     (let b = (acc_in_block_event x)\<lparr>block_type := ty, block_value := v\<rparr>;
          x1 = x\<lparr>first_acc_event_read := True, acc_in_block_event := b\<rparr>
      in if CUDAEventEconding_Is_CUDASync b \<and> kernel x then x1\<lparr>acc_recv_sync := True\<rparr>
         else x1\<lparr>acc_in_block_event := b\<lparr>paraver_time := now\<rparr>\<rparr>)"

definition treat_acc_event :: "int \<Rightarrow> int \<Rightarrow> tid \<Rightarrow> 'z world_scheme \<Rightarrow> 'z world_scheme" where
  "treat_acc_event ty v t s =
     (if \<not> CUDAEventEncoding_Is_CUDABlock ty \<and> \<not> OCLEventEncoding_Is_OCLBlock ty then s
      else upd_exec t (acc_event ty v (current_time s)) s)"

text \<open>The events that change the scheduling of the thread itself.\<close>

definition scheduling_event :: "int \<Rightarrow> int \<Rightarrow> tid \<Rightarrow> 'z world_scheme \<Rightarrow> 'z world_scheme res" where
  "scheduling_event ty v t s =
     bindE (if ty = PRIORITY_SET_EVENT then
              (if v = 0 then bindE (modify_priority t 0 s) (modify_preemption t 1)
               else modify_priority t (1 / real_of_int v) s)
            else Inr s) (\<lambda>s1.
     let s2 = (if ty = USER_EVENT_TYPE_TASKID_START_TASK then upd_exec t (\<lambda>x. x\<lparr>sstask_id := v\<rparr>) s1 else s1)
     in Inr (treat_acc_event ty v t
          (if ty = USER_EVENT_TYPE_TASKTYPE_START_TASK then upd_exec t (\<lambda>x. x\<lparr>sstask_type := v\<rparr>) s2 else s2)))"

text \<open>
  One round of the loop (the jump to \<open>next_op\<close>); the boolean asks for another one. \<open>NOOP\<close> and events take no
  time, so the loop goes on with the next action unless it is a burst. Ports and copies step to the
  action behind the one they were called for, whatever the module did to the list.
\<close>

definition stop_with :: "'s run \<Rightarrow> (bool \<times> 's) run" where
  "stop_with r = bindR r (\<lambda>s. retR (False, s))"

definition after_instant :: "tid \<Rightarrow> 'z world_scheme \<Rightarrow> (bool \<times> 'z world_scheme) run" where
  "after_instant t s =
     (let (more, s1) = more_actions t s in
      if \<not> more then retR (False, s1)
      else if works (actions (execs s1 t)) then stop_with (Some (SCHEDULER_thread_to_ready t (set_loose_cpu t False s1)))
      else retR (True, s1))"

definition op_round :: "'z world_scheme ops \<Rightarrow> tid \<Rightarrow> 'z world_scheme \<Rightarrow> (bool \<times> 'z world_scheme) run" where
  "op_round M t s =
     (let (more, s1) = more_actions t s in
      if \<not> more then retR (False, s1)
      else case actions (execs s1 t) of
        [] \<Rightarrow> failR NullDeref
      | a # as \<Rightarrow>
        (case a of
           AC_NOOP \<Rightarrow> after_instant t (set_actions t as s1)
         | AC_EVENT ty v \<Rightarrow>
             bindR (do_event M ty v t s1) (\<lambda>s2.
             bindR (Some (scheduling_event ty v t s2)) (\<lambda>s3. after_instant t (set_actions t as s3)))
         | AC_WORK _ \<Rightarrow> stop_with (Some (SCHEDULER_thread_to_ready t (set_loose_cpu t True s1)))
         | AC_GPU_BURST _ \<Rightarrow> stop_with (Some (SCHEDULER_thread_to_ready t (set_loose_cpu t True s1)))
         | AC_SEND _ \<Rightarrow> stop_with (do_send M t s1)
         | AC_RECV _ \<Rightarrow> stop_with (do_recv M t s1)
         | AC_IRECV _ \<Rightarrow> stop_with (do_irecv M t s1)
         | AC_WAIT _ \<Rightarrow> stop_with (do_wait M t s1)
         | AC_WAIT_FOR_SEND _ \<Rightarrow> failR (Panic ''wait for send, I did not expect that'')
         | AC_FS i \<Rightarrow> stop_with (do_fs M i t (set_loose_cpu t False s1))
         | AC_SEM (SEM_WAIT i) \<Rightarrow> stop_with (do_sem_wait M i t (set_actions t as s1))
         | AC_SEM (SEM_SIGNAL i) \<Rightarrow>
             stop_with (bindR (do_sem_signal M i t s1) (\<lambda>s2. Some (ready_if_more False t (set_actions t as s2))))
         | AC_SEM (SEM_SIGNAL_N i n) \<Rightarrow>
             stop_with (bindR (do_sem_signal_n M i n t s1) (\<lambda>s2. Some (ready_if_more False t (set_actions t as s2))))
         | AC_PORT_SEND md p z \<Rightarrow> stop_with (bindR (do_port_send M md p z t s1) (\<lambda>s2. retR (set_actions t as s2)))
         | AC_PORT_RECV md p z \<Rightarrow> stop_with (bindR (do_port_recv M md p z t s1) (\<lambda>s2. retR (set_actions t as s2)))
         | AC_MEMORY_COPY md x y z \<Rightarrow> stop_with (bindR (do_memory_copy M md x y z t s1) (\<lambda>s2. retR (set_actions t as s2)))
         | AC_GLOBAL_OP c \<Rightarrow> stop_with (do_global_op M c t s1)
         | AC_MPI_IO _ \<Rightarrow> stop_with (do_mpi_io M t s1)
         | AC_MPI_OS _ \<Rightarrow> stop_with (do_mpi_os M t s1)
         | _ \<Rightarrow> failR (Panic ''Unkown action'')))"

partial_function (option) next_op :: "'z world_scheme ops \<Rightarrow> tid \<Rightarrow> 'z world_scheme \<Rightarrow> 'z world_scheme run" where
  "next_op M t s = bindR (op_round M t s) (\<lambda>x. if fst x then next_op M t (snd x) else retR (snd x))"

text \<open>The flags a finished burst leaves: the startup, the copy or the round trip that it stood for is done.\<close>

definition burst_over :: "t_exec \<Rightarrow> t_exec" where
  "burst_over x =
     (if doing_acc_comm x then x\<lparr>doing_acc_comm := False, startup_done := True, doing_startup := False\<rparr>
      else if doing_startup x then x\<lparr>startup_done := True, doing_startup := False\<rparr>
      else if doing_copy x then x\<lparr>copy_done := True, doing_copy := False\<rparr>
      else if doing_roundtrip x then x\<lparr>roundtrip_done := True, doing_roundtrip := False\<rparr>
      else x)"

definition run_ready :: "nodeid \<Rightarrow> 'z world_scheme \<Rightarrow> 'z world_scheme res" where
  "run_ready nd s = (if ready s nd \<noteq> [] \<and> num_free_cpu nd s > 0 then SCHEDULER_next_thread_to_run nd s else Inr s)"

text \<open>\<open>SCHEDULER_general\<close> for \<open>SCH_TIMER_OUT\<close>.\<close>

definition SCHEDULER_timer_out :: "'z world_scheme ops \<Rightarrow> tid \<Rightarrow> 'z world_scheme \<Rightarrow> 'z world_scheme run" where
  "SCHEDULER_timer_out M t s = (case thread_cpu (execs s t) of
      None \<Rightarrow> failR Uninit
    | Some c \<Rightarrow>
      let nd = get_node_of_thread t s; sc = sch_of t s;
          s1 = upd_cpu c (\<lambda>u. u\<lparr>current_thread := None\<rparr>)
                 (upd_thread t (\<lambda>th. th\<lparr>last_paraver := current_time s\<rparr>) (upd_exec t burst_over s))
      in
      if doing_context_switch (execs s1 t) then
        let s2 = upd_exec t (\<lambda>x. x\<lparr>doing_context_switch := False\<rparr>) s1 in
        if to_be_preempted (execs s2 t) then
          bindR (Some (SCHEDULER_thread_to_ready t (set_loose_cpu t False s2))) (\<lambda>s3.
          Some (SCHEDULER_next_thread_to_run nd s3))
        else
          bindR (Some (SCHEDULER_get_execution_time t (upd_cpu c (\<lambda>u. u\<lparr>current_thread := Some t\<rparr>) s2))) (\<lambda>(ti, s3).
          Some (sch_timer (current_time s + ti) t t
            (upd_exec t (\<lambda>x. x\<lparr>min_time_to_be_preempted := minimum_quantum sc + current_time s\<rparr>) s3)))
      else if doing_busy_wait (execs s1 t) then
        let s2 = COMMUNIC_block_after_busy_wait t (upd_exec t (\<lambda>x. x\<lparr>doing_busy_wait := False\<rparr>) s1) in
        if ready s2 nd \<noteq> [] then Some (SCHEDULER_next_thread_to_run nd s2) else retR s2
      else
        bindR (next_op M t s1) (\<lambda>s2.
        Some (run_ready nd (if kernel (execs s2 t) then set_loose_cpu t False s2 else s2))))"

text \<open>\<open>SCHEDULER_general\<close> for \<open>SCH_NEW_JOB\<close>.\<close>

definition SCHEDULER_new_job :: "tid \<Rightarrow> 'z world_scheme \<Rightarrow> 'z world_scheme res" where
  "SCHEDULER_new_job t s =
     (let nd = get_node_of_thread t s in
      if num_free_cpu nd s > 0 then SCHEDULER_next_thread_to_run nd s else Inr s)"

text \<open>\<open>SCHEDULER_Init\<close>: every thread has to begin with a burst; then as many threads run as there are processors.\<close>

definition init_thread :: "tid \<Rightarrow> 'z world_scheme \<Rightarrow> 'z world_scheme res" where
  "init_thread t s =
     (if actions (execs s t) = [] then Inl (Panic ''initialized without actions'')
      else if \<not> works (actions (execs s t)) then Inl (Panic ''must begin execution with work'')
      else bindE (init_scheduler_parameters t
             (set_loose_cpu t (\<not> (task_accelerator s (task_of (threads s t)) \<and> kernel (execs s t))) s))
             (SCHEDULER_thread_to_ready t))"

fun each :: "('a \<Rightarrow> 's \<Rightarrow> 's res) \<Rightarrow> 'a list \<Rightarrow> 's \<Rightarrow> 's res" where
  "each f [] s = Inr s"
| "each f (x # xs) s = bindE (f x s) (each f xs)"

fun times :: "nat \<Rightarrow> ('s \<Rightarrow> 's res) \<Rightarrow> 's \<Rightarrow> 's res" where
  "times 0 f s = Inr s"
| "times (Suc n) f s = bindE (f s) (times n f)"

definition SCHEDULER_Init :: "taskid list \<Rightarrow> nodeid list \<Rightarrow> 'z world_scheme \<Rightarrow> 'z world_scheme res" where
  "SCHEDULER_Init tks nds s =
     bindE (each init_thread (concat (map (task_threads s) tks)) s) (\<lambda>s1.
     each (\<lambda>nd u. times (min (length (ready u nd)) (length (node_cpus u nd))) (SCHEDULER_next_thread_to_run nd) u) nds s1)"

end
