(* ===== verification/SchedQueues.thy ===== *)
theory SchedQueues
  imports Scheduler MessageCost
begin

text \<open>
  What the operations of the scheduler do to the ready queues and to the parameters of the policies: the queues
  stay sorted and the priorities legal through every run.
\<close>

section \<open>What the operations leave alone\<close>

definition par_ok :: "real \<Rightarrow> real \<Rightarrow> sch_par \<Rightarrow> bool" where
  "par_ok lo hi p \<longleftrightarrow> (case p of Par_svr4 q _ _ \<Rightarrow> 0 \<le> q \<and> q \<le> BEST_PRIO
     | Par_boost q _ \<Rightarrow> lo \<le> q \<and> q \<le> hi
     | _ \<Rightarrow> True)"

definition calm :: "real \<Rightarrow> real \<Rightarrow> 'z world_scheme \<Rightarrow> 'z world_scheme \<Rightarrow> bool" where
  "calm lo hi s s' \<longleftrightarrow> ready s' = ready s \<and> scheduler s' = scheduler s \<and> machine_of_node s' = machine_of_node s \<and>
     (\<forall>t. base_priority (execs s' t) = base_priority (execs s t)) \<and>
     (\<forall>t. par_ok lo hi (par t s) \<longrightarrow> par_ok lo hi (par t s')) \<and> world.more s' = world.more s"

lemma calm_refl [simp, intro!]: "calm lo hi s s"
  by (simp add: calm_def)

lemma calm_trans [trans]: "calm lo hi x y \<Longrightarrow> calm lo hi y z \<Longrightarrow> calm lo hi x z"
  by (auto simp: calm_def)

lemma calmI: "ready s' = ready s \<Longrightarrow> scheduler s' = scheduler s \<Longrightarrow> machine_of_node s' = machine_of_node s \<Longrightarrow>
  (\<And>t. base_priority (execs s' t) = base_priority (execs s t) \<and> sch_parameters (execs s' t) = sch_parameters (execs s t)) \<Longrightarrow>
  world.more s' = world.more s \<Longrightarrow>
  calm lo hi s s'"
  by (simp add: calm_def par_def)

lemma calm_upd:
  "calm lo hi s (upd_thread t f s)" "calm lo hi s (upd_account t g s)" "calm lo hi s (upd_cpu c h s)" "calm lo hi s (set_loose_cpu t v s)"
  "calm lo hi s (s\<lparr>thread_event := e\<rparr>)" "calm lo hi s (s\<lparr>reload_done := v\<rparr>)" "calm lo hi s (s\<lparr>current_time := w\<rparr>)"
  by (rule calmI; simp add: upd_thread_def upd_account_def upd_exec_def upd_cpu_def set_loose_cpu_def)+

lemma calm_upd_exec:
  "(\<And>x. base_priority (f x) = base_priority x \<and> sch_parameters (f x) = sch_parameters x) \<Longrightarrow> calm lo hi s (upd_exec t f s)"
  by (rule calmI) (simp_all add: upd_exec_def)

lemma calm_set_actions: "calm lo hi s (set_actions t as s)"
  by (rule calmI) (auto simp: set_actions_def Let_def upd_exec_def upd_thread_def split: list.split action.split)

lemma calm_more_actions: "more_actions t s = (mo, s') \<Longrightarrow> calm lo hi s s'"
proof -
  have "calm lo hi s (READ_get_next_action t s)"
    unfolding READ_get_next_action_def
    by (cases "unread s t") (auto intro!: calm_trans[OF _ calm_set_actions] calmI)
  then show "more_actions t s = (mo, s') \<Longrightarrow> calm lo hi s s'"
    unfolding more_actions_def Let_def
    by (auto split: if_splits list.splits action.splits intro!: calm_trans[OF _ calm_upd(1)] elim!: calm_trans intro: calmI)
qed

lemma world_of_engine:
  fixes s s' :: "'z world_scheme"
  assumes "engine.more s' = engine.more s"
  shows "calm lo hi s s'"
  using assms by (intro calmI) (cases s; cases s'; simp)+

lemma calm_EVENT_timer: "EVENT_timer w d m ot i s = Inr (r, s') \<Longrightarrow> calm lo hi s s'"
  using EVENT_timer_queue[of w d m ot i s r s'] by (auto intro: world_of_engine)

lemma calm_extract: "EVENT_extract_timer m t s = Inr (w, s') \<Longrightarrow> calm lo hi s s'"
proof -
  assume "EVENT_extract_timer m t s = Inr (w, s')"
  from EVENT_extract_timer_Inr[OF this] obtain e where "extract_event e s = Inr (w, s')" by blast
  then have "engine.more s' = engine.more s" by (auto simp: extract_event_def split: if_splits)
  then show "calm lo hi s s'" by (rule world_of_engine)
qed

lemma calm_sch_timer: "sch_timer w p t s = Inr s' \<Longrightarrow> calm lo hi s s'"
  by (auto simp: sch_timer_def bindE_eq_Inr intro: calm_trans[OF calm_EVENT_timer calm_upd(5)])

lemma calm_assign: "calm lo hi s (assign_cpu t c s)"
  by (rule calmI) (simp_all add: assign_cpu_def Let_def upd_exec_def upd_cpu_def upd_account_def)

lemma calm_fold: "(\<And>c u. calm lo hi u (f c u)) \<Longrightarrow> calm lo hi s (fold f cs s)"
  by (induction cs arbitrary: s) (auto intro: calm_trans)

lemma calm_take_cpu: "take_cpu t nd s = Inr s' \<Longrightarrow> calm lo hi s s'"
  by (auto simp: take_cpu_def Let_def assign_gpus_def split: if_splits option.splits intro!: calm_fold calm_assign)

lemma calm_consume: "calm lo hi s (consume t x s)"
  by (auto simp: consume_def calm_set_actions split: list.split action.split)

lemma calm_set_par: "(par_ok lo hi (par t s) \<Longrightarrow> par_ok lo hi p) \<Longrightarrow> calm lo hi s (set_par t p s)"
  by (simp add: calm_def set_par_def upd_exec_def par_def)

lemma calm_execution_time: "SCHEDULER_get_execution_time t s = Inr (x, s') \<Longrightarrow> calm lo hi s s'"
proof -
  have fifo: "FIFO_get_execution_time t s = Inr (x, s') \<Longrightarrow> calm lo hi s s'" "whole_burst t s = Inr (x, s') \<Longrightarrow> calm lo hi s s'" for s'
    by (auto simp: FIFO_get_execution_time_def whole_burst_def calm_set_actions split: list.splits action.splits)
  have rr: "RR_get_execution_time t s = Inr (x, s') \<Longrightarrow> calm lo hi s s'"
    "SCH_boost_get_execution_time t s = Inr (x, s') \<Longrightarrow> calm lo hi s s'" for s'
    by (auto simp: RR_get_execution_time_def SCH_boost_get_execution_time_def Let_def par_ok_def
        split: list.splits action.splits sch_par.splits prod.splits
        intro!: calm_trans[OF _ calm_upd(4)] calm_trans[OF _ calm_consume] calm_set_par)
  have svr4: "calm lo hi s s'" if h: "svr4_get_execution_time t s = Inr (x, s')" for s'
  proof -
    obtain p used full where p: "par t s = Par_svr4 p used full"
      using h by (auto simp: svr4_get_execution_time_def split: sch_par.splits)
    have c: "calm lo hi s (set_par t (Par_svr4 p u f) s)" for u f
      by (rule calm_set_par) (simp add: p par_ok_def)
    show ?thesis
      using h
      by (auto simp: svr4_get_execution_time_def p Let_def split: option.splits prod.splits list.splits action.splits if_splits
          intro!: calm_trans[OF c] calm_consume calm_set_actions)
  qed
  assume "SCHEDULER_get_execution_time t s = Inr (x, s')"
  then obtain s1 where "policy_get_execution_time t s = Inr (x, s1)"
    "s' = upd_account t (\<lambda>a. a\<lparr>cpu_time := cpu_time a + x\<rparr>) s1"
    by (auto simp: SCHEDULER_get_execution_time_def bindE_eq_Inr split: if_splits)
  then show ?thesis
    by (auto simp: policy_get_execution_time_def split: sch_policy.splits dest: fifo rr svr4
        intro: calm_trans[OF _ calm_upd(2)])
qed

lemma calm_put_thread_on_run: 
  assumes "put_thread_on_run t nd s = Inr s'"
  shows "calm lo hi s s'"
proof -
  define s1 where "s1 = (if \<not> kernel (execs s t) \<and> \<not> host (execs s t)
     then upd_thread t (\<lambda>th. th\<lparr>last_paraver := current_time s\<rparr>) s else s)"
  define s2 where "s2 = upd_account t (\<lambda>a. a\<lparr>time_ready_without_cpu :=
     (current_time s - put_into_ready (execs s t)) + time_ready_without_cpu a\<rparr>) s1"
  have "calm lo hi s s1" by (auto simp: s1_def calm_upd)
  then have c2: "calm lo hi s s2" unfolding s2_def by (rule calm_trans) (rule calm_upd)
  obtain s3 where t: "take_cpu t nd s2 = Inr s3"
    using assms by (cases "take_cpu t nd s2") (auto simp: put_thread_on_run_def Let_def s1_def[symmetric] s2_def[symmetric])
  have c3: "calm lo hi s s3" by (rule calm_trans[OF c2 calm_take_cpu[OF t]])
  obtain f u w where f: "calm lo hi s3 u" "sch_timer w t t u = Inr s'"
  proof (cases "context_switch (scheduler s (machine_of_node s nd)) \<noteq> NO_CONTEXT_SWITCH")
    case True
    show ?thesis
      by (rule that[OF calm_upd_exec]) (use assms True t in
        \<open>auto simp: put_thread_on_run_def Let_def s1_def[symmetric] s2_def[symmetric]\<close>)
  next
    case False
    let ?s4 = "upd_exec t (\<lambda>x. x\<lparr>min_time_to_be_preempted := current_time s + minimum_quantum (scheduler s (machine_of_node s nd))\<rparr>) s3"
    obtain ti s5 where h: "SCHEDULER_get_execution_time t ?s4 = Inr (ti, s5)" "sch_timer (current_time s + ti) t t s5 = Inr s'"
      using assms False t by (auto simp: put_thread_on_run_def Let_def s1_def[symmetric] s2_def[symmetric] bindE_eq_Inr)
    have "calm lo hi s3 ?s4" by (rule calm_upd_exec) simp
    from that[OF calm_trans[OF this calm_execution_time[OF h(1)]] h(2)] show ?thesis .
  qed
  show ?thesis by (rule calm_trans[OF c3 calm_trans[OF f(1) calm_sch_timer[OF f(2)]]])
qed

lemma calm_block: "calm lo hi s (COMMUNIC_block_after_busy_wait t s)"
  by (rule calmI) (simp_all add: COMMUNIC_block_after_busy_wait_def Let_def upd_exec_def upd_account_def)

lemma calm_suspend: "suspend cur s = Inr s' \<Longrightarrow> calm lo hi s s'"
proof -
  assume h: "suspend cur s = Inr s'"
  then obtain w s1 where e: "EVENT_extract_timer M_SCH cur s = Inr (w, s1)"
    by (cases "EVENT_extract_timer M_SCH cur s") (auto simp: suspend_def)
  define s2 where "s2 = upd_account cur (\<lambda>a. a\<lparr>cpu_time := cpu_time a - (w - current_time s)\<rparr>)
    (upd_exec cur (\<lambda>x. x\<lparr>put_into_ready := current_time s\<rparr>) s1)"
  define s3 where "s3 = set_actions cur (resumed_actions (execs s2 cur) (w - current_time s)) s2"
  have s': "s' = upd_thread cur (\<lambda>th. th\<lparr>last_paraver := current_time s\<rparr>) s3"
    using h by (simp add: suspend_def e Let_def s2_def s3_def)
  have "calm lo hi s1 (upd_exec cur (\<lambda>x. x\<lparr>put_into_ready := current_time s\<rparr>) s1)" by (rule calm_upd_exec) simp
  from calm_trans[OF this calm_upd(2)] have c2: "calm lo hi s1 s2" unfolding s2_def .
  have "calm lo hi s2 s3" unfolding s3_def by (rule calm_set_actions)
  from calm_trans[OF calm_extract[OF e] calm_trans[OF c2 calm_trans[OF this calm_upd(1)]]]
  show ?thesis unfolding s' .
qed

lemma calm_preempt_later: "preempt_later t cur s = Inr s' \<Longrightarrow> calm lo hi s s'"
proof (cases "next_event_timer s cur > min_time_to_be_preempted (execs s cur)")
  case True
  assume h: "preempt_later t cur s = Inr s'"
  then obtain w s1 where e: "EVENT_extract_timer M_SCH cur s = Inr (w, s1)"
    by (cases "EVENT_extract_timer M_SCH cur s") (auto simp: preempt_later_def True)
  let ?s2 = "upd_account cur (\<lambda>a. a\<lparr>cpu_time := cpu_time a - (w - current_time s)\<rparr>) s1"
  obtain as where t: "sch_timer (min_time_to_be_preempted (execs s cur)) t cur (set_actions cur as ?s2) = Inr s'"
    using h by (auto simp: preempt_later_def True e Let_def split: list.splits action.splits)
  show ?thesis
    by (rule calm_trans[OF calm_extract[OF e] calm_trans[OF calm_upd(2) calm_trans[OF calm_set_actions calm_sch_timer[OF t]]]])
qed (simp add: preempt_later_def)

lemma calm_preemption: "SCHEDULER_preemption t c s = Inr (out, s') \<Longrightarrow> calm lo hi s s'"
proof -
  assume h: "SCHEDULER_preemption t c s = Inr (out, s')"
  then obtain cur where cur: "current_thread (cpus s c) = Some cur"
    by (cases "current_thread (cpus s c)") (auto simp: SCHEDULER_preemption_def)
  have fin: "calm lo hi s (upd_account t f (upd_account cur g v))" if "calm lo hi s u" "put_thread_on_run t nd u = Inr v"
    for u v nd f g
    by (rule calm_trans[OF that(1) calm_trans[OF calm_put_thread_on_run[OF that(2)] calm_trans[OF calm_upd(2) calm_upd(2)]]])
  show ?thesis
  proof (cases "doing_busy_wait (execs s cur)")
    case True
    then obtain w s1 where e: "EVENT_extract_timer M_SCH cur s = Inr (w, s1)"
      using h by (cases "EVENT_extract_timer M_SCH cur s") (auto simp: SCHEDULER_preemption_def cur)
    let ?a = "upd_exec cur (\<lambda>x. x\<lparr>doing_busy_wait := False\<rparr>) (upd_thread cur (\<lambda>th. th\<lparr>last_paraver := current_time s\<rparr>) s1)"
    have "calm lo hi s1 ?a" by (rule calm_trans[OF calm_upd(1) calm_upd_exec]) simp
    from calm_trans[OF calm_extract[OF e] calm_trans[OF this calm_trans[OF calm_block calm_upd(3)]]]
    show ?thesis
      using h True by (auto simp: SCHEDULER_preemption_def cur e Let_def bindE_eq_Inr split: if_splits intro: fin)
  next
    case False
    show ?thesis
    proof (cases "min_time_to_be_preempted (execs s cur) > current_time s")
      case True
      with h False show ?thesis
        by (auto simp: SCHEDULER_preemption_def cur bindE_eq_Inr intro: calm_preempt_later)
    next
      case False
      with h \<open>\<not> doing_busy_wait (execs s cur)\<close> obtain s1 where
        e: "suspend cur (upd_cpu c (\<lambda>u. u\<lparr>current_thread := None\<rparr>) s) = Inr s1"
        by (auto simp: SCHEDULER_preemption_def cur bindE_eq_Inr)
      from calm_trans[OF calm_upd(3) calm_suspend[OF e]] show ?thesis
        using h False \<open>\<not> doing_busy_wait (execs s cur)\<close>
        by (auto simp: SCHEDULER_preemption_def cur e Let_def bindE_eq_Inr split: if_splits intro: fin)
    qed
  qed
qed

lemma calm_try_preempt: "try_preempt w t s = Inr (x, s') \<Longrightarrow> calm lo hi s s'"
  unfolding try_preempt_def Let_def
  by (auto simp: bindE_eq_Inr split: if_splits option.splits intro: calm_preemption)

lemma calm_busy_wait: "SCHEDULER_thread_to_busy_wait t s = Inr s' \<Longrightarrow> calm lo hi s s'"
proof -
  assume h: "SCHEDULER_thread_to_busy_wait t s = Inr s'"
  then obtain c where c: "thread_cpu (execs s t) = Some c"
    by (cases "thread_cpu (execs s t)") (auto simp: SCHEDULER_thread_to_busy_wait_def)
  let ?u = "upd_exec t (\<lambda>x. x\<lparr>doing_busy_wait := True, min_time_to_be_preempted := current_time s\<rparr>)
    (upd_cpu c (\<lambda>u. u\<lparr>current_thread := Some t\<rparr>) s)"
  have "calm lo hi s ?u" by (rule calm_trans[OF calm_upd(3) calm_upd_exec]) simp
  from calm_trans[OF this calm_sch_timer] show ?thesis
    using h by (simp add: SCHEDULER_thread_to_busy_wait_def c)
qed

section \<open>Ready queues and priorities\<close>

text \<open>
  The queues of the first come first served and round robin policies are the ones without priorities. The
  bounds \<open>lo\<close> and \<open>hi\<close> contain those of all machines: a message between machines applies the bounds of the
  sender to the receiver.
\<close>

definition unordered :: "nodeid \<Rightarrow> 'z world_scheme \<Rightarrow> bool" where
  "unordered nd s \<longleftrightarrow> sch_policy (scheduler s (machine_of_node s nd)) \<in> {P_FIFO, P_RR}"

definition ready_ok :: "nodeid \<Rightarrow> 'z world_scheme \<Rightarrow> (tid \<times> prio) list \<Rightarrow> bool" where
  "ready_ok nd s q \<longleftrightarrow> sorted (map snd q) \<and> (unordered nd s \<longrightarrow> (\<forall>x\<in>set q. snd x = 0))"

definition sane :: "real \<Rightarrow> real \<Rightarrow> 'z world_scheme \<Rightarrow> bool" where
  "sane lo hi s \<longleftrightarrow>
     (\<forall>m. lo \<le> real_of_int (boost_best (sch_boost (scheduler s m))) \<and>
        boost_best (sch_boost (scheduler s m)) \<le> boost_worst (sch_boost (scheduler s m)) \<and>
        real_of_int (boost_worst (sch_boost (scheduler s m))) \<le> hi) \<and>
     (\<forall>t. lo \<le> base_priority (execs s t) \<and> base_priority (execs s t) \<le> hi \<and> par_ok lo hi (par t s)) \<and>
     (\<forall>nd. ready_ok nd s (ready s nd))"

lemma ready_ok_cong: "scheduler s' = scheduler s \<Longrightarrow> machine_of_node s' = machine_of_node s \<Longrightarrow> ready_ok nd s' q = ready_ok nd s q"
  by (simp add: ready_ok_def unordered_def)

lemma sane_calm: "calm lo hi s s' \<Longrightarrow> sane lo hi s \<Longrightarrow> sane lo hi s'"
  by (simp add: calm_def sane_def ready_ok_def unordered_def)

lemma sane_par: "sane lo hi s \<Longrightarrow> par_ok lo hi (par t s)"
  by (simp add: sane_def)

lemma sane_set_par: "sane lo hi s \<Longrightarrow> par_ok lo hi p \<Longrightarrow> sane lo hi (set_par t p s)"
  by (simp add: sane_def set_par_def upd_exec_def par_def ready_ok_def unordered_def)

lemma sane_upd_ready: "sane lo hi s \<Longrightarrow> ready_ok nd s (f (ready s nd)) \<Longrightarrow> sane lo hi (upd_ready nd f s)"
  by (simp add: sane_def upd_ready_def ready_ok_def unordered_def par_def)

lemma ready_ok_insert:
  assumes "ready_ok nd s q" "unordered nd s \<Longrightarrow> p = 0"
  shows "ready_ok nd s (seq_insert snd (t, p) q)" "ready_ok nd s (seq_insert_first snd (t, p) q)"
    "ready_ok nd s (seq_insert_back snd (t, p) q)"
proof -
  have so: "sorted (map snd q)" using assms(1) by (simp add: ready_ok_def)
  show first: "ready_ok nd s (seq_insert snd (t, p) q)"
    using assms by (auto simp: ready_ok_def by_priority.set_ins[OF so] by_priority.ins_sorted)
  show "ready_ok nd s (seq_insert_first snd (t, p) q)"
    using assms by (auto simp: ready_ok_def by_priority_first.set_ins[OF so] by_priority_first.ins_sorted)
  show "ready_ok nd s (seq_insert_back snd (t, p) q)"
    using first by (simp add: seq_insert_back_eq[OF so])
qed

lemma sane_ready: "sane lo hi s \<Longrightarrow> ready_ok nd s (ready s nd)"
  by (simp add: sane_def)

lemma sane_insert:
  assumes "sane lo hi s" "unordered nd s \<Longrightarrow> p = 0"
  shows "sane lo hi (insert_by_priority b nd u p s)" "sane lo hi (upd_ready nd (seq_insert_back snd (u, p)) s)"
  using sane_ready[OF assms(1)] assms(2)
  by (auto simp: insert_by_priority_def intro!: sane_upd_ready[OF assms(1)] ready_ok_insert)

lemma sane_FIFO: "sane lo hi s \<Longrightarrow> unordered (get_node_of_thread t s) s \<Longrightarrow> FIFO_thread_to_ready t s = Inr s' \<Longrightarrow> sane lo hi s'"
proof -
  assume s: "sane lo hi s" and u: "unordered (get_node_of_thread t s) s" and h: "FIFO_thread_to_ready t s = Inr s'"
  let ?nd = "get_node_of_thread t s"
  have "ready_ok ?nd s (ready s ?nd)" by (rule sane_ready[OF s])
  then have z: "\<forall>x\<in>set (ready s ?nd). snd x = 0" using u by (simp add: ready_ok_def)
  have "sorted (map snd q)" if "\<forall>x\<in>set q. snd x = 0" for q :: "(tid \<times> prio) list"
    using that by (induction q) auto
  then have "ready_ok ?nd s q" if "\<forall>x\<in>set q. snd x = 0" for q using that by (simp add: ready_ok_def)
  with z h show ?thesis
    by (auto simp: FIFO_thread_to_ready_def Let_def intro!: sane_upd_ready[OF s])
qed

lemma calm_unordered: "calm lo hi s s' \<Longrightarrow> unordered nd s' = unordered nd s"
  by (simp add: calm_def unordered_def)

lemma sane_PRIO: 
  assumes "sane lo hi s" "\<not> unordered (get_node_of_thread t s) s" "PRIO_FIFO_thread_to_ready t s = Inr s'"
  shows "sane lo hi s'"
proof -
  obtain out pre s1 where t: "try_preempt (priority_preemptive (sch_of t s)) t s = Inr ((out, pre), s1)"
    using assms(3) by (auto simp: PRIO_FIFO_thread_to_ready_def Let_def bindE_eq_Inr)
  note c = calm_try_preempt[OF t]
  have s1: "sane lo hi s1" "\<not> unordered (get_node_of_thread t s) s1"
    using sane_calm[OF c assms(1)] calm_unordered[OF c] assms(2) by auto
  show ?thesis
    using assms(3) s1
    by (auto simp: PRIO_FIFO_thread_to_ready_def Let_def t split: option.splits if_splits intro!: sane_insert)
qed

lemma sane_SS:
  assumes "sane lo hi s" "\<not> unordered (get_node_of_thread t s) s" "SS_MPI_CP_thread_to_ready t s = Inr s'"
  shows "sane lo hi s'"
proof -
  obtain f p out pre s1 where f: "par t s = Par_ss p f" and t: "try_preempt (f = 1) t s = Inr ((out, pre), s1)"
    using assms(3) by (auto simp: SS_MPI_CP_thread_to_ready_def Let_def bindE_eq_Inr split: sch_par.splits)
  note c = calm_try_preempt[OF t]
  have s1: "sane lo hi s1" "\<not> unordered (get_node_of_thread t s) s1"
    using sane_calm[OF c assms(1)] calm_unordered[OF c] assms(2) by auto
  show ?thesis
    using assms(3) s1
    by (auto simp: SS_MPI_CP_thread_to_ready_def Let_def t f split: option.splits if_splits intro!: sane_insert)
qed

lemma ts_range: "0 \<le> p \<Longrightarrow> p \<le> BEST_PRIO \<Longrightarrow> 0 \<le> ts_tqexp p \<and> ts_tqexp p \<le> BEST_PRIO"
  "0 \<le> p \<Longrightarrow> p \<le> BEST_PRIO \<Longrightarrow> 0 \<le> ts_slpret p \<and> ts_slpret p \<le> BEST_PRIO"
  by (simp_all add: ts_tqexp_def ts_slpret_def BEST_PRIO_def)

lemma sane_svr4:
  assumes "sane lo hi s" "\<not> unordered (get_node_of_thread t s) s" "svr4_thread_to_ready t s = Inr s'"
  shows "sane lo hi s'"
proof -
  obtain p q full where p: "par t s = Par_svr4 p q full"
    using assms(3) by (auto simp: svr4_thread_to_ready_def split: sch_par.splits)
  define s0 where "s0 = (if full then set_par t (Par_svr4 (ts_tqexp p) q False) s else s)"
  have "par_ok lo hi (Par_svr4 (ts_tqexp p) q False)"
    using sane_par[OF assms(1), of t] ts_range(1)[of p] by (simp add: p par_ok_def)
  then have "calm lo hi s s0" unfolding s0_def by (auto intro: calm_set_par)
  moreover obtain out pre s1 where t: "try_preempt (priority_preemptive (sch_of t s)) t s0 = Inr ((out, pre), s1)"
    using assms(3) by (auto simp: svr4_thread_to_ready_def Let_def p s0_def[symmetric] bindE_eq_Inr split: if_splits)
  ultimately have c: "calm lo hi s s1" using calm_try_preempt[OF t] calm_trans by blast
  have s1: "sane lo hi s1" "\<not> unordered (get_node_of_thread t s) s1"
    using sane_calm[OF c assms(1)] calm_unordered[OF c] assms(2) by auto
  show ?thesis
    using assms(3) s1
    by (auto simp: svr4_thread_to_ready_def Let_def p s0_def[symmetric] t split: option.splits if_splits sch_par.splits
        intro!: sane_insert)
qed

lemma sane_thread_to_ready:
  assumes "sane lo hi s" "SCHEDULER_thread_to_ready t s = Inr s'"
  shows "sane lo hi s'"
proof -
  obtain mo s1 where m: "more_actions t s = (mo, s1)" by fastforce
  define s2 where "s2 = (if works (actions (execs s1 t)) then s1 else set_actions t (AC_WORK 0 # actions (execs s1 t)) s1)"
  define s3 where "s3 = upd_exec t (\<lambda>x. x\<lparr>put_into_ready := current_time s\<rparr>) s2"
  have c2: "calm lo hi s1 s2" unfolding s2_def by (auto simp: calm_set_actions)
  have c3: "calm lo hi s2 s3" unfolding s3_def by (rule calm_upd_exec) simp
  have s3: "sane lo hi s3"
    by (rule sane_calm[OF calm_trans[OF calm_more_actions[OF m] calm_trans[OF c2 c3]] assms(1)])
  obtain s4 where s4: "policy_thread_to_ready t s3 = Inr s4" "s' = s4\<lparr>reload_done := True\<rparr>"
    using assms(2) by (auto simp: SCHEDULER_thread_to_ready_def Let_def m s2_def[symmetric] s3_def[symmetric] bindE_eq_Inr split: if_splits)
  have un: "unordered (get_node_of_thread t s3) s3 \<longleftrightarrow> sch_policy (sch_of t s3) \<in> {P_FIFO, P_RR}"
    by (simp add: unordered_def sch_of_def)
  have "sane lo hi s4"
    using s4(1) sane_FIFO[OF s3] sane_PRIO[OF s3] sane_SS[OF s3] sane_svr4[OF s3] un
    by (auto simp: policy_thread_to_ready_def RR_thread_to_ready_def split: sch_policy.splits if_splits)
  then show ?thesis using sane_calm[OF calm_upd(6)] s4(2) by blast
qed

lemma sane_next:
  assumes "sane lo hi s" "SCHEDULER_next_thread_to_run nd s = Inr s'"
  shows "sane lo hi s'"
proof -
  obtain t p q where q: "ready s nd = (t, p) # q"
    using assms(2) by (auto simp: SCHEDULER_next_thread_to_run_def split: list.splits)
  have "sane lo hi (upd_ready nd tl s)"
    using sane_ready[OF assms(1), of nd] by (intro sane_upd_ready[OF assms(1)]) (auto simp: ready_ok_def q)
  then show ?thesis
    using assms(2) q by (auto simp: SCHEDULER_next_thread_to_run_def intro: sane_calm[OF calm_put_thread_on_run])
qed

lemma sane_init:
  assumes "sane lo hi s" "init_scheduler_parameters t s = Inr s'"
  shows "sane lo hi s'"
proof -
  have b: "lo \<le> base_priority (execs s t)" "base_priority (execs s t) \<le> hi" using assms(1) by (simp_all add: sane_def)
  show ?thesis
    using assms(2) b
    by (auto simp: init_scheduler_parameters_def par_ok_def BEST_PRIO_def split: sch_policy.splits option.splits
        intro!: sane_set_par[OF assms(1)])
qed

lemma sane_copy_parameters:
  assumes "sane lo hi s" "copy_parameters t d s = Inr s'"
  shows "sane lo hi s'"
proof -
  have "par_ok lo hi (Par_svr4 p q f)" if "par t s = Par_svr4 p q' f'" for p q q' f f'
    using sane_par[OF assms(1), of t] that by (simp add: par_ok_def)
  then show ?thesis
    using assms sane_par[OF assms(1), of t]
    by (auto simp: copy_parameters_def split: sch_policy.splits sch_par.splits if_splits intro!: sane_set_par)
qed

lemma sane_modify:
  assumes "sane lo hi s"
  shows "modify_priority t p s = Inr s' \<Longrightarrow> sane lo hi s'" "modify_preemption t p s = Inr s' \<Longrightarrow> sane lo hi s'"
  using assms
  by (auto simp: modify_priority_def modify_preemption_def par_ok_def split: sch_policy.splits sch_par.splits intro!: sane_set_par)

lemma bounded_priority_range:
  "boost_best b \<le> boost_worst b \<Longrightarrow> real_of_int (boost_best b) \<le> bounded_priority b p \<and> bounded_priority b p \<le> real_of_int (boost_worst b)"
  by (simp add: bounded_priority_def Let_def)

lemma sane_boost_info:
  assumes "sane lo hi s" "SCH_boost_info (sch_boost (scheduler s m)) i a b s = Inr s'"
  shows "sane lo hi s'"
proof -
  have "lo \<le> real_of_int (boost_best (sch_boost (scheduler s m)))"
    "boost_best (sch_boost (scheduler s m)) \<le> boost_worst (sch_boost (scheduler s m))"
    "real_of_int (boost_worst (sch_boost (scheduler s m))) \<le> hi"
    using assms(1) by (simp_all add: sane_def)
  then have "par_ok lo hi (Par_boost (bounded_priority (sch_boost (scheduler s m)) p) q)" for p q
    using bounded_priority_range[of "sch_boost (scheduler s m)" p] by (simp add: par_ok_def)
  then show ?thesis
    using assms
    by (auto simp: SCH_boost_info_def Let_def split: sch_info.splits option.splits sch_par.splits if_splits intro!: sane_set_par)
qed

lemma sane_svr4_info:
  assumes "sane lo hi s" "svr4_info i a b s = Inr s'"
  shows "sane lo hi s'"
proof -
  have "par_ok lo hi (Par_svr4 (ts_slpret p) q f)" if "par t s = Par_svr4 p q f" for t p q f
    using sane_par[OF assms(1), of t] that ts_range(2)[of p] by (simp add: par_ok_def)
  then show ?thesis
    using assms by (auto simp: svr4_info_def split: option.splits sch_par.splits if_splits intro!: sane_set_par)
qed

lemma sane_info: "sane lo hi s \<Longrightarrow> COMMUNICATION_INFO i a b s = Inr s' \<Longrightarrow> sane lo hi s'"
  unfolding COMMUNICATION_INFO_def sch_of_def
  by (auto split: sch_policy.splits dest: sane_boost_info sane_svr4_info)

lemma sane_duplicate:
  assumes "sane lo hi s" "duplicate_thread t s = Inr (d, s')"
  shows "sane lo hi s'"
proof -
  define s1 where "s1 = clone_thread t (next_tid s) (s\<lparr>next_tid := next_tid s + 1\<rparr>)"
  have s1: "sane lo hi s1"
    using assms(1) by (simp add: s1_def clone_thread_def sane_def ready_ok_def unordered_def par_def par_ok_def)
  obtain s2 where i: "init_scheduler_parameters (next_tid s) s1 = Inr s2"
    using assms(2) unfolding duplicate_thread_def Let_def s1_def[symmetric] by (auto simp: bindE_eq_Inr)
  obtain s3 where c: "copy_parameters t (next_tid s) s2 = Inr s3"
    using assms(2) unfolding duplicate_thread_def Let_def s1_def[symmetric] by (auto simp: i bindE_eq_Inr)
  have "sane lo hi s3" by (rule sane_copy_parameters[OF sane_init[OF s1 i] c])
  then show ?thesis
    using assms(2) sane_calm[OF calm_set_actions] unfolding duplicate_thread_def Let_def s1_def[symmetric]
    by (auto simp: i c split: list.splits)
qed

lemma calm_delete: "delete_duplicate_thread t s = Inr s' \<Longrightarrow> calm lo hi s s'"
proof -
  assume h: "delete_duplicate_thread t s = Inr s'"
  then obtain orig where "s' = upd_exec t (\<lambda>x. x\<lparr>freed := True\<rparr>)
     (upd_thread orig (\<lambda>th. th\<lparr>block_due_link := block_due_link th + block_due_link (threads s t)\<rparr>)
     (upd_account orig (\<lambda>a. add_account a (account (execs s t))) s))"
    by (auto simp: delete_duplicate_thread_def SCHEDULER_free_parameters_def split: option.splits)
  moreover have "calm lo hi u (upd_exec t (\<lambda>x. x\<lparr>freed := True\<rparr>) u)" for u :: "'a world_scheme" by (rule calm_upd_exec) simp
  ultimately show ?thesis using calm_trans[OF calm_trans[OF calm_upd(2) calm_upd(1)]] by blast
qed

lemma sane_set_loose: "sane lo hi s \<Longrightarrow> sane lo hi (set_loose_cpu t b s)"
  by (rule sane_calm[OF calm_upd(4)])

lemma sane_ready_if_more: "sane lo hi s \<Longrightarrow> ready_if_more b t s = Inr s' \<Longrightarrow> sane lo hi s'"
  unfolding ready_if_more_def
  by (auto split: prod.splits if_splits elim!: sane_thread_to_ready[rotated]
      intro!: sane_set_loose elim: sane_calm[OF calm_more_actions])

text \<open>Every operation of the modules keeps a property of the state.\<close>

definition stays :: "('s \<Rightarrow> bool) \<Rightarrow> 's ops \<Rightarrow> bool" where
  "stays P M \<longleftrightarrow> (\<forall>s t i j k x y c md. P s \<longrightarrow>
     yields P (do_send M t s) \<and> yields P (do_recv M t s) \<and> yields P (do_irecv M t s) \<and> yields P (do_wait M t s) \<and>
     yields P (do_event M i j t s) \<and> yields P (do_fs M i t s) \<and> yields P (do_sem_wait M i t s) \<and>
     yields P (do_sem_signal M i t s) \<and> yields P (do_sem_signal_n M i j t s) \<and> yields P (do_port_send M md i j t s) \<and>
     yields P (do_port_recv M md i j t s) \<and> yields P (do_memory_copy M md x y k t s) \<and> yields P (do_global_op M c t s) \<and>
     yields P (do_mpi_io M t s) \<and> yields P (do_mpi_os M t s))"

lemma stays_D:
  assumes "stays P M" "P s"
  shows "yields P (do_send M t s)" "yields P (do_recv M t s)" "yields P (do_irecv M t s)" "yields P (do_wait M t s)"
    "yields P (do_event M i j t s)" "yields P (do_fs M i t s)" "yields P (do_sem_wait M i t s)"
    "yields P (do_sem_signal M i t s)" "yields P (do_sem_signal_n M i j t s)" "yields P (do_port_send M md i j t s)"
    "yields P (do_port_recv M md i j t s)" "yields P (do_memory_copy M md x y k t s)" "yields P (do_global_op M c t s)"
    "yields P (do_mpi_io M t s)" "yields P (do_mpi_os M t s)"
  using assms unfolding stays_def by blast+

lemma sane_set_actions: "sane lo hi s \<Longrightarrow> sane lo hi (set_actions t as s)"
  by (rule sane_calm[OF calm_set_actions])

lemma sane_more_actions: "more_actions t s = (mo, s') \<Longrightarrow> sane lo hi s \<Longrightarrow> sane lo hi s'"
  by (rule sane_calm[OF calm_more_actions])

lemma calm_acc_event: "calm lo hi s (treat_acc_event ty v t s)"
  by (auto simp: treat_acc_event_def acc_event_def Let_def intro!: calm_upd_exec)

lemma sane_scheduling_event:
  assumes "sane lo hi s" "scheduling_event ty v t s = Inr s'"
  shows "sane lo hi s'"
proof -
  obtain s1 where s1: "(if ty = PRIORITY_SET_EVENT then
              (if v = 0 then bindE (modify_priority t 0 s) (modify_preemption t 1)
               else modify_priority t (1 / real_of_int v) s)
            else Inr s) = Inr s1"
    using assms(2) by (auto simp: scheduling_event_def bindE_eq_Inr)
  have "sane lo hi s1"
    using s1 assms(1) by (auto simp: bindE_eq_Inr split: if_splits dest: sane_modify)
  moreover have "calm lo hi u (upd_exec t (\<lambda>x. x\<lparr>sstask_id := v\<rparr>) u)" "calm lo hi u (upd_exec t (\<lambda>x. x\<lparr>sstask_type := v\<rparr>) u)"
    for u :: "'a world_scheme" by (rule calm_upd_exec, simp)+
  ultimately show ?thesis
    using assms(2) unfolding scheduling_event_def s1 bindE_Inr Let_def
    by (auto split: if_splits intro!: sane_calm[OF calm_acc_event] intro: sane_calm[rotated] calm_trans)
qed

lemma sane_after_instant:
  assumes "sane lo hi s"
  shows "yields (\<lambda>x. sane lo hi (snd x)) (after_instant t s)"
proof -
  obtain mo s1 where m: "more_actions t s = (mo, s1)" by fastforce
  have s1: "sane lo hi s1" by (rule sane_more_actions[OF m assms])
  have "yields (\<lambda>x. sane lo hi (snd x)) (stop_with (Some (SCHEDULER_thread_to_ready t (set_loose_cpu t False s1))))"
    unfolding stop_with_def
    by (intro yields_bind yields_res) (simp add: sane_thread_to_ready[OF sane_set_loose[OF s1]])
  then show ?thesis using s1 by (simp add: after_instant_def m)
qed

lemma yields_stop: "yields P r \<Longrightarrow> yields (\<lambda>x. P (snd x)) (stop_with r)"
  unfolding stop_with_def by (rule yields_bind) (simp add: yields_def)

lemma yields_ready: "sane lo hi s \<Longrightarrow> yields (sane lo hi) (Some (SCHEDULER_thread_to_ready t s))"
  by (rule yields_res) (rule sane_thread_to_ready)

lemma yields_if_more: "sane lo hi s \<Longrightarrow> yields (sane lo hi) (Some (ready_if_more b t s))"
  by (rule yields_res) (rule sane_ready_if_more)

lemma sane_op_round:
  assumes M: "stays (sane lo hi) M" and s: "sane lo hi s"
  shows "yields (\<lambda>x. sane lo hi (snd x)) (op_round M t s)"
proof -
  obtain mo s1 where m: "more_actions t s = (mo, s1)" by fastforce
  have s1: "sane lo hi s1" by (rule sane_more_actions[OF m s])
  note ops = stays_D[OF M]
  have step: "yields (sane lo hi) (Some (ready_if_more False t (set_actions t as u)))" "yields (sane lo hi) (retR (set_actions t as u))"
    if "sane lo hi u" for u as
    using that by (simp_all add: yields_if_more sane_set_actions)
  show ?thesis
  proof (cases "mo \<and> actions (execs s1 t) \<noteq> []")
    case False
    then show ?thesis using s1 by (cases mo) (simp_all add: op_round_def m)
  next
    case True
    then obtain a as where a: "mo" "actions (execs s1 t) = a # as" by (cases "actions (execs s1 t)") auto
    have after: "yields (\<lambda>x. sane lo hi (snd x)) (after_instant t (set_actions t as u))" if "sane lo hi u" for u
      by (rule sane_after_instant[OF sane_set_actions[OF that]])
    have ev: "yields (\<lambda>x. sane lo hi (snd x)) (bindR (Some (scheduling_event ty v t u)) (\<lambda>s3. after_instant t (set_actions t as s3)))"
      if "sane lo hi u" for u ty v
      by (rule yields_bind, rule yields_res, rule after) (rule sane_scheduling_event[OF that])
    note unf = op_round_def m a
    have stop: "yields (\<lambda>x. sane lo hi (snd x)) (stop_with r)" if "yields (sane lo hi) r" for r
      by (rule yields_stop[OF that])
    have then_more: "yields (\<lambda>x. sane lo hi (snd x)) (stop_with (bindR r (\<lambda>s2. Some (ready_if_more False t (set_actions t as s2)))))"
      and then_next: "yields (\<lambda>x. sane lo hi (snd x)) (stop_with (bindR r (\<lambda>s2. retR (set_actions t as s2))))"
      if "yields (sane lo hi) r" for r
      by (rule stop, rule yields_then[OF that], erule step)+
    have loose: "sane lo hi (set_loose_cpu t b s1)" for b by (rule sane_set_loose[OF s1])
    show ?thesis
    proof (cases a)
      case (AC_SEM op)
      then show ?thesis
        by (cases op) (simp_all add: unf stop[OF ops(7)[OF sane_set_actions[OF s1]]] then_more[OF ops(8)[OF s1]] then_more[OF ops(9)[OF s1]])
    qed (simp_all add: unf after[OF s1] yields_then[OF ops(5)[OF s1] ev] stop[OF yields_ready[OF loose]] stop[OF ops(1)[OF s1]] stop[OF ops(2)[OF s1]]
        stop[OF ops(3)[OF s1]] stop[OF ops(4)[OF s1]] stop[OF ops(6)[OF loose]] then_next[OF ops(10)[OF s1]]
        then_next[OF ops(11)[OF s1]] then_next[OF ops(12)[OF s1]] stop[OF ops(13)[OF s1]] stop[OF ops(14)[OF s1]] stop[OF ops(15)[OF s1]])
  qed
qed

lemma sane_next_op:
  assumes M: "stays (sane lo hi) M"
  shows "next_op M t s = retR s' \<Longrightarrow> sane lo hi s \<Longrightarrow> sane lo hi s'"
  unfolding retR_def
proof -
  have "next_op M t s = Some r \<Longrightarrow> stays (sane lo hi) M \<longrightarrow> sane lo hi s \<longrightarrow> (\<forall>x. r = Inr x \<longrightarrow> sane lo hi x)" for r
  proof (rule next_op.raw_induct [of "\<lambda>M t s r. stays (sane lo hi) M \<longrightarrow> sane lo hi s \<longrightarrow> (\<forall>x. r = Inr x \<longrightarrow> sane lo hi x)"])
    fix f :: "'a world_scheme ops \<Rightarrow> tid \<Rightarrow> 'a world_scheme \<Rightarrow> 'a world_scheme run" and M t s r
    assume IH: "\<And>M t s r. f M t s = Some r \<Longrightarrow> stays (sane lo hi) M \<longrightarrow> sane lo hi s \<longrightarrow> (\<forall>x. r = Inr x \<longrightarrow> sane lo hi x)"
      and b: "bindR (op_round M t s) (\<lambda>x. if fst x then f M t (snd x) else retR (snd x)) = Some r"
    show "stays (sane lo hi) M \<longrightarrow> sane lo hi s \<longrightarrow> (\<forall>x. r = Inr x \<longrightarrow> sane lo hi x)"
    proof (intro impI allI)
      fix x assume "stays (sane lo hi) M" "sane lo hi s" "r = Inr x"
      with b obtain y where y: "op_round M t s = retR y" "(if fst y then f M t (snd y) else retR (snd y)) = retR x"
        by (auto simp: retR_def[symmetric] bindR_eq_retR)
      have "sane lo hi (snd y)" using yieldsD[OF sane_op_round y(1)] \<open>stays (sane lo hi) M\<close> \<open>sane lo hi s\<close> by simp
      then show "sane lo hi x"
        using y(2) IH[of M t "snd y" r] \<open>stays (sane lo hi) M\<close> \<open>r = Inr x\<close> by (auto simp: retR_def split: if_splits)
    qed
  qed
  then show "next_op M t s = Some (Inr s') \<Longrightarrow> sane lo hi s \<Longrightarrow> sane lo hi s'" using M by blast
qed

lemma sane_block: "sane lo hi s \<Longrightarrow> sane lo hi (COMMUNIC_block_after_busy_wait t s)"
  by (rule sane_calm[OF calm_block])

lemma sane_upd_exec:
  "(\<And>x. base_priority (f x) = base_priority x \<and> sch_parameters (f x) = sch_parameters x) \<Longrightarrow> sane lo hi s \<Longrightarrow> sane lo hi (upd_exec t f s)"
  by (rule sane_calm[OF calm_upd_exec])

lemma yields_next: "sane lo hi s \<Longrightarrow> yields (sane lo hi) (Some (SCHEDULER_next_thread_to_run nd s))"
  by (rule yields_res) (rule sane_next)

lemma sane_timer_out:
  assumes M: "stays (sane lo hi) M" and s: "sane lo hi s"
  shows "yields (sane lo hi) (SCHEDULER_timer_out M t s)"
proof (cases "thread_cpu (execs s t)")
  case (Some c)
  define s1 where "s1 = upd_cpu c (\<lambda>u. u\<lparr>current_thread := None\<rparr>)
     (upd_thread t (\<lambda>th. th\<lparr>last_paraver := current_time s\<rparr>) (upd_exec t burst_over s))"
  have s1: "sane lo hi s1"
    unfolding s1_def by (intro sane_calm[OF calm_upd(3)] sane_calm[OF calm_upd(1)] sane_upd_exec s) (simp add: burst_over_def)
  define s2 where "s2 = upd_exec t (\<lambda>x. x\<lparr>doing_context_switch := False\<rparr>) s1"
  have s2: "sane lo hi s2" unfolding s2_def by (rule sane_upd_exec[OF _ s1]) simp
  define s3 where "s3 = COMMUNIC_block_after_busy_wait t (upd_exec t (\<lambda>x. x\<lparr>doing_busy_wait := False\<rparr>) s1)"
  have s3: "sane lo hi s3" unfolding s3_def by (rule sane_block, rule sane_upd_exec[OF _ s1]) simp
  let ?nd = "get_node_of_thread t s"
  have preempted: "yields (sane lo hi) (bindR (Some (SCHEDULER_thread_to_ready t (set_loose_cpu t False s2)))
      (\<lambda>u. Some (SCHEDULER_next_thread_to_run ?nd u)))"
    by (rule yields_then[OF yields_ready[OF sane_set_loose[OF s2]] yields_next])
  have switched: "yields (sane lo hi) (bindR (Some (SCHEDULER_get_execution_time t (upd_cpu c (\<lambda>u. u\<lparr>current_thread := Some t\<rparr>) s2)))
      (\<lambda>(ti, u). Some (sch_timer (current_time s + ti) t t (upd_exec t (\<lambda>x. x\<lparr>min_time_to_be_preempted := z\<rparr>) u))))" for z
  proof (rule yields_bind, rule yields_res, clarify, rule yields_res)
    fix ti u v assume h: "SCHEDULER_get_execution_time t (upd_cpu c (\<lambda>u. u\<lparr>current_thread := Some t\<rparr>) s2) = Inr (ti, u)"
      and t: "sch_timer (current_time s + ti) t t (upd_exec t (\<lambda>x. x\<lparr>min_time_to_be_preempted := z\<rparr>) u) = Inr v"
    have "sane lo hi u" by (rule sane_calm[OF calm_trans[OF calm_upd(3) calm_execution_time[OF h]] s2])
    then show "sane lo hi v" by (intro sane_calm[OF calm_sch_timer[OF t]] sane_upd_exec) simp_all
  qed
  have idle: "yields (sane lo hi) (bindR (next_op M t s1) (\<lambda>u. Some (run_ready ?nd (if kernel (execs u t) then set_loose_cpu t False u else u))))"
  proof (rule yields_bind, unfold yields_def, intro allI impI)
    fix u x assume n: "next_op M t s1 = retR u" and r: "Some (run_ready ?nd (if kernel (execs u t) then set_loose_cpu t False u else u)) = retR x"
    then have "sane lo hi (if kernel (execs u t) then set_loose_cpu t False u else u)"
      using sane_next_op[OF M n s1] by (simp add: sane_set_loose)
    from sane_next[OF this] this show "sane lo hi x" using r by (simp add: run_ready_def split: if_splits)
  qed
  show ?thesis
    using preempted switched idle s3
    unfolding SCHEDULER_timer_out_def Some option.case Let_def s1_def[symmetric] s2_def[symmetric] s3_def[symmetric]
    by (simp add: yields_next)
qed (simp add: SCHEDULER_timer_out_def)

lemma sane_ready_return: "sane lo hi s \<Longrightarrow> SCHEDULER_thread_to_ready_return m t ti i s = Inr s' \<Longrightarrow> sane lo hi s'"
  by (auto simp: SCHEDULER_thread_to_ready_return_def Let_def split: if_splits intro: sane_thread_to_ready[OF sane_set_actions])

lemma each_keeps: "(\<And>x s s'. P s \<Longrightarrow> f x s = Inr s' \<Longrightarrow> P s') \<Longrightarrow> P s \<Longrightarrow> each f xs s = Inr s' \<Longrightarrow> P s'"
  by (induction xs arbitrary: s) (auto simp: bindE_eq_Inr)

lemma times_keeps: "(\<And>s s'. P s \<Longrightarrow> f s = Inr s' \<Longrightarrow> P s') \<Longrightarrow> P s \<Longrightarrow> times n f s = Inr s' \<Longrightarrow> P s'"
  by (induction n arbitrary: s) (auto simp: bindE_eq_Inr)

lemma sane_init_thread:
  assumes "sane lo hi u" "init_thread t u = Inr u'"
  shows "sane lo hi u'"
proof -
  obtain v where v: "init_scheduler_parameters t (set_loose_cpu t (\<not> (task_accelerator u (task_of (threads u t)) \<and> kernel (execs u t))) u) = Inr v"
    "SCHEDULER_thread_to_ready t v = Inr u'"
    using assms(2) unfolding init_thread_def bindE_eq_Inr by (auto split: if_splits simp: bindE_eq_Inr)
  show ?thesis by (rule sane_thread_to_ready[OF sane_init[OF sane_set_loose[OF assms(1)] v(1)] v(2)])
qed

lemma sane_Init:
  assumes "sane lo hi s" "SCHEDULER_Init tks nds s = Inr s'"
  shows "sane lo hi s'"
proof -
  obtain s1 where s1: "each init_thread (concat (map (task_threads s) tks)) s = Inr s1"
    "each (\<lambda>nd u. times (min (length (ready u nd)) (length (node_cpus u nd))) (SCHEDULER_next_thread_to_run nd) u) nds s1 = Inr s'"
    using assms(2) unfolding SCHEDULER_Init_def bindE_eq_Inr by blast
  have "sane lo hi s1" by (rule each_keeps[where P = "sane lo hi", OF sane_init_thread assms(1) s1(1)])
  moreover have "sane lo hi v" if "sane lo hi u" "times n (SCHEDULER_next_thread_to_run nd) u = Inr v" for n nd u v
    by (rule times_keeps[where P = "sane lo hi", OF sane_next that])
  ultimately show ?thesis using each_keeps[OF _ _ s1(2), of "sane lo hi"] by blast
qed

section \<open>Runs of the scheduler\<close>

text \<open>
  What the scheduler does between two operations of the modules, and the events it handles; \<open>clock\<close> is the event
  manager. The modules \<open>M\<close> are called by \<open>timer_out\<close>.
\<close>

inductive sched_step :: "'z world_scheme ops \<Rightarrow> 'z world_scheme \<Rightarrow> 'z world_scheme \<Rightarrow> bool" for M where
  init: "SCHEDULER_Init tks nds s = Inr s' \<Longrightarrow> sched_step M s s'"
| timer_out: "SCHEDULER_timer_out M t s = retR s' \<Longrightarrow> sched_step M s s'"
| new_job: "SCHEDULER_new_job t s = Inr s' \<Longrightarrow> sched_step M s s'"
| to_ready: "SCHEDULER_thread_to_ready t s = Inr s' \<Longrightarrow> sched_step M s s'"
| to_ready_return: "SCHEDULER_thread_to_ready_return m t ti i s = Inr s' \<Longrightarrow> sched_step M s s'"
| next_to_run: "SCHEDULER_next_thread_to_run nd s = Inr s' \<Longrightarrow> sched_step M s s'"
| to_busy_wait: "SCHEDULER_thread_to_busy_wait t s = Inr s' \<Longrightarrow> sched_step M s s'"
| communication: "COMMUNICATION_INFO i a b s = Inr s' \<Longrightarrow> sched_step M s s'"
| copy: "duplicate_thread t s = Inr (d, s') \<Longrightarrow> sched_step M s s'"
| copy_done: "delete_duplicate_thread t s = Inr s' \<Longrightarrow> sched_step M s s'"
| clock: "engine.more s' = engine.more s \<Longrightarrow> sched_step M s s'"

lemma sane_step:
  assumes "sched_step M s s'" "stays (sane lo hi) M" "sane lo hi s"
  shows "sane lo hi s'"
  using assms
proof cases
  case (timer_out t)
  with assms show ?thesis by (blast intro: yieldsD sane_timer_out)
next
  case (new_job t)
  with assms(3) show ?thesis
    by (auto simp: SCHEDULER_new_job_def Let_def split: if_splits intro: sane_next)
qed (use assms(3) in \<open>blast intro: sane_Init sane_thread_to_ready sane_ready_return sane_next sane_info sane_duplicate
    sane_calm[OF calm_busy_wait] sane_calm[OF calm_delete] sane_calm[OF world_of_engine]\<close>)+

lemma sane_run: "(sched_step M)\<^sup>*\<^sup>* s s' \<Longrightarrow> stays (sane lo hi) M \<Longrightarrow> sane lo hi s \<Longrightarrow> sane lo hi s'"
  by (induction rule: rtranclp_induct) (auto intro: sane_step)


definition ex_ops :: "'s ops" where
  "ex_ops = \<lparr>do_send = \<lambda>_. retR, do_recv = \<lambda>_. retR, do_irecv = \<lambda>_. retR, do_wait = \<lambda>_. retR,
     do_event = \<lambda>_ _ _. retR, do_fs = \<lambda>_ _. retR, do_sem_wait = \<lambda>_ _. retR, do_sem_signal = \<lambda>_ _. retR,
     do_sem_signal_n = \<lambda>_ _ _. retR, do_port_send = \<lambda>_ _ _ _. retR, do_port_recv = \<lambda>_ _ _ _. retR,
     do_memory_copy = \<lambda>_ _ _ _ _. retR, do_global_op = \<lambda>_ _. retR, do_mpi_io = \<lambda>_. retR, do_mpi_os = \<lambda>_. retR\<rparr>"

definition ex_sch :: "sch_policy \<Rightarrow> (tid \<Rightarrow> sch_par) \<Rightarrow> sim" where
  "ex_sch pol pr = ex_sim\<lparr>
     scheduler := (\<lambda>_. ex_sim_scheduler\<lparr>sch_policy := pol, priority_preemptive := True, quantum := 4\<rparr>),
     execs := (\<lambda>t. (ex_sim_exec t)\<lparr>actions := [AC_WORK 10], sch_parameters := pr t\<rparr>),
     Event_queue := [\<lparr>ev_id = 0, event_time = 9, ev_module = M_SCH, ev_thread = Some 0, ev_info = 0, ev_daemon = False\<rparr>],
     next_ev := 1, thread_event := (\<lambda>_. None)(0 := Some 0)\<rparr>"

lemmas ex_sch_defs = ex_sch_def ex_sim_defs

lemmas eval_sch = SCHEDULER_thread_to_ready_def more_actions_def READ_get_next_action_def works_def burst_def upd_exec_def
  upd_account_def upd_thread_def upd_cpu_def upd_ready_def set_loose_cpu_def policy_thread_to_ready_def sch_of_def get_node_of_thread_def
  PRIO_FIFO_thread_to_ready_def SCHEDULER_preemption_def try_preempt_def select_free_cpu_def prio_of_def par_def Let_def
  suspend_def EVENT_extract_timer_def event_at_def extract_event_def put_thread_on_run_def take_cpu_def assign_cpu_def
  NO_CONTEXT_SWITCH_def SCHEDULER_get_execution_time_def policy_get_execution_time_def whole_burst_def sch_timer_def EVENT_timer_def
  set_actions_def kind_of_action_def resumed_actions_def clear_account_def insert_by_priority_def seq_insert_def ins_before_def

lemma ex_preempted: "\<exists>s'. SCHEDULER_thread_to_ready 3 (ex_sch P_PRIO_FIFO (\<lambda>t. Par_prio (if t = 0 then 5 else 1))) = Inr s'"
  by (simp add: eval_sch ex_sch_defs)


end
