(* ===== verification/SchedProps.thy ===== *)
theory SchedProps
  imports SchedQueues
begin

text \<open>
  The properties of time slices and preemption: how a burst is cut into slices, that scheduling loses no work, which
  thread is preempted, and when fixed priorities are first come first served.
\<close>

section \<open>Time slices\<close>

fun slices :: "nat \<Rightarrow> tid \<Rightarrow> 'z world_scheme \<Rightarrow> (timer list \<times> 'z world_scheme) res" where
  "slices 0 t s = Inr ([], s)"
| "slices (Suc n) t s = bindE (SCHEDULER_get_execution_time t s) (\<lambda>(x, s1).
     bindE (slices n t s1) (\<lambda>(xs, s2). Inr (x # xs, s2)))"

definition rr_state :: "timer \<Rightarrow> timer \<Rightarrow> action list \<Rightarrow> timer \<Rightarrow> tid \<Rightarrow> 'z world_scheme \<Rightarrow> bool" where
  "rr_state q c as cpu t s \<longleftrightarrow> sch_policy (sch_of t s) = P_RR \<and> quantum (sch_of t s) = q \<and>
     actions (execs s t) = AC_WORK c # as \<and> (\<exists>u. par t s = Par_rr u) \<and> loose_cpu s t \<and>
     cpu_time (account (execs s t)) = cpu"

lemma slice_step:
  assumes "rr_state q c as cpu t s"
  shows "\<exists>s1. SCHEDULER_get_execution_time t s = Inr (min c q, s1) \<and>
    (if c - min c q = 0 then actions (execs s1 t) = as \<and> cpu_time (account (execs s1 t)) = cpu + min c q
     else rr_state q (c - min c q) as (cpu + min c q) t s1)"
proof -
  obtain u where u: "par t s = Par_rr u" using assms by (auto simp: rr_state_def)
  let ?s1 = "upd_account t (\<lambda>a. a\<lparr>cpu_time := cpu_time a + min c q\<rparr>)
    (set_loose_cpu t True (consume t (min c q) (set_par t (Par_rr (min c q)) s)))"
  have "SCHEDULER_get_execution_time t s = Inr (min c q, ?s1)"
    using assms u by (simp add: rr_state_def SCHEDULER_get_execution_time_def works_def burst_def policy_get_execution_time_def
        RR_get_execution_time_def slice_def)
  moreover have "if c - min c q = 0 then actions (execs ?s1 t) = as \<and> cpu_time (account (execs ?s1 t)) = cpu + min c q
     else rr_state q (c - min c q) as (cpu + min c q) t ?s1"
    using assms by (simp add: rr_state_def consume_def set_par_def par_def upd_exec_def upd_account_def set_loose_cpu_def sch_of_def
      get_node_of_thread_def)
  ultimately show ?thesis by blast
qed

lemma slices_sum:
  assumes "rr_state q c as cpu t s" "0 < q" "0 < c"
  shows "\<exists>xs s'. slices (nat \<lceil>c / q\<rceil>) t s = Inr (xs, s') \<and> sum_list xs = c \<and> (\<forall>x\<in>set xs. 0 < x \<and> x \<le> q) \<and>
    actions (execs s' t) = as \<and> cpu_time (account (execs s' t)) = cpu + c"
  using assms(1,3)
proof (induction "nat \<lceil>c / q\<rceil>" arbitrary: c cpu s)
  case 0
  then have "0 < \<lceil>c / q\<rceil>" using assms(2) by simp
  with 0 show ?case by linarith
next
  case (Suc n)
  from slice_step[OF Suc.prems(1)] obtain s1 where s1: "SCHEDULER_get_execution_time t s = Inr (min c q, s1)"
    "if c - min c q = 0 then actions (execs s1 t) = as \<and> cpu_time (account (execs s1 t)) = cpu + min c q
     else rr_state q (c - min c q) as (cpu + min c q) t s1" by blast
  show ?case
  proof (cases "c \<le> q")
    case True
    then have "c / q \<le> 1" using assms(2) by simp
    then have "\<lceil>c / q\<rceil> \<le> 1" by (simp add: ceiling_le_iff)
    then have "n = 0" using Suc.hyps(2) by linarith
    then show ?thesis using True s1 Suc.prems(2) unfolding Suc.hyps(2)[symmetric] by simp
  next
    case False
    then have r: "rr_state q (c - q) as (cpu + q) t s1" using s1(2) by (simp add: min_def)
    have "(c - q) / q = c / q - 1" using assms(2) by (simp add: diff_divide_distrib)
    then have "n = nat \<lceil>(c - q) / q\<rceil>" using Suc.hyps(2) by simp
    from Suc.hyps(1)[OF this r] False obtain xs s' where "slices n t s1 = Inr (xs, s')" "sum_list xs = c - q"
      "\<forall>x\<in>set xs. 0 < x \<and> x \<le> q" "actions (execs s' t) = as" "cpu_time (account (execs s' t)) = cpu + q + (c - q)"
      using \<open>n = nat \<lceil>(c - q) / q\<rceil>\<close> by auto
    then show ?thesis using False s1(1) assms(2) unfolding Suc.hyps(2)[symmetric] by (simp add: min_def)
  qed
qed

lemma slices_zero:
  assumes "rr_state 0 c as cpu t s" "0 < c"
  shows "\<exists>s'. slices n t s = Inr (replicate n 0, s') \<and> rr_state 0 c as cpu t s'"
  using assms(1)
proof (induction n arbitrary: s)
  case (Suc n)
  from slice_step[OF Suc.prems] obtain s1 where "SCHEDULER_get_execution_time t s = Inr (0, s1)" "rr_state 0 c as cpu t s1"
    using assms(2) by (auto simp: min_def)
  with Suc.IH[of s1] show ?case by auto
qed simp



section \<open>Work is conserved\<close>

definition work_of :: "action \<Rightarrow> timer" where
  "work_of a = (case a of AC_WORK c \<Rightarrow> c | AC_GPU_BURST c \<Rightarrow> c | _ \<Rightarrow> 0)"

definition work :: "action list \<Rightarrow> timer" where
  "work as = sum_list (map work_of as)"

lemma work_simps [simp]: "work [] = 0" "work (a # as) = work_of a + work as"
  by (simp_all add: work_def)

lemma work_of_simps [simp]: "work_of (AC_WORK c) = c" "work_of (AC_GPU_BURST c) = c" "work_of (AC_EVENT i j) = 0"
  by (simp_all add: work_of_def)

text \<open>The time a thread was given, what is left of its current actions, and what was not read yet.\<close>

definition total_work :: "tid \<Rightarrow> 'z world_scheme \<Rightarrow> timer" where
  "total_work u s = cpu_time (account (execs s u)) + work (actions (execs s u)) + work (unread s u)"

definition conserves :: "'z world_scheme \<Rightarrow> 'z world_scheme \<Rightarrow> bool" where
  "conserves s s' \<longleftrightarrow> (\<forall>u. total_work u s' = total_work u s)"

lemma conserves_refl [simp]: "conserves s s"
  by (simp add: conserves_def)

lemma conserves_trans [trans]: "conserves x y \<Longrightarrow> conserves y z \<Longrightarrow> conserves x z"
  by (simp add: conserves_def)

lemma conserves_upd:
  "conserves s (upd_thread t f s)" "conserves s (upd_cpu c h s)" "conserves s (set_loose_cpu t v s)"
  "conserves s (s\<lparr>thread_event := e\<rparr>)" "conserves s (s\<lparr>reload_done := v\<rparr>)" "conserves s (upd_ready nd g s)"
  by (simp_all add: conserves_def total_work_def upd_thread_def upd_cpu_def set_loose_cpu_def upd_ready_def)

lemma conserves_upd_exec:
  "(\<And>x. cpu_time (account (f x)) = cpu_time (account x) \<and> actions (f x) = actions x) \<Longrightarrow> conserves s (upd_exec t f s)"
  by (simp add: conserves_def total_work_def upd_exec_def)

lemma conserves_upd_account:
  "(\<And>a. cpu_time (f a) = cpu_time a) \<Longrightarrow> conserves s (upd_account t f s)"
  unfolding upd_account_def by (rule conserves_upd_exec) simp

lemma conserves_engine: "engine.more s' = engine.more s \<Longrightarrow> conserves s s'"
  for s s' :: "'z world_scheme"
  by (cases s; cases s') (simp add: conserves_def total_work_def)

lemma conserves_EVENT_timer: "EVENT_timer w d m ot i s = Inr (r, s') \<Longrightarrow> conserves s s'"
  using EVENT_timer_queue[of w d m ot i s r s'] by (auto intro: conserves_engine)

lemma engine_more_extract: "EVENT_extract_timer m t s = Inr (w, s') \<Longrightarrow> engine.more s' = engine.more s"
  by (drule EVENT_extract_timer_Inr) (auto simp: extract_event_def split: if_splits)

lemma conserves_sch_timer: "sch_timer w p t s = Inr s' \<Longrightarrow> conserves s s'"
  by (auto simp: sch_timer_def bindE_eq_Inr intro: conserves_trans[OF conserves_EVENT_timer conserves_upd(4)])

lemma total_work_set_actions:
  "total_work u (set_actions t as s) = total_work u s + (if u = t then work as - work (actions (execs s t)) else 0)"
  by (simp add: total_work_def)

lemma total_work_set_par [simp]: "total_work u (set_par t p s) = total_work u s" "actions (execs (set_par t p s) u) = actions (execs s u)"
  by (simp_all add: total_work_def set_par_def upd_exec_def)

lemma total_work_loose [simp]: "total_work u (set_loose_cpu t v s) = total_work u s"
  by (simp add: total_work_def set_loose_cpu_def)

lemma total_work_consume:
  "actions (execs s t) = AC_WORK c # as \<Longrightarrow> total_work u (consume t x s) = total_work u s - (if u = t then x else 0)"
  by (simp add: consume_def total_work_set_actions)

lemma policy_consumes:
  assumes "policy_get_execution_time t s = Inr (x, s')"
  shows "total_work u s' = total_work u s - (if u = t then x else 0)"
proof -
  have whole: "FIFO_get_execution_time t s = Inr (x, s') \<Longrightarrow> ?thesis" "whole_burst t s = Inr (x, s') \<Longrightarrow> ?thesis"
    by (auto simp: FIFO_get_execution_time_def whole_burst_def total_work_set_actions split: list.splits action.splits)
  have rr: "RR_get_execution_time t s = Inr (x, s') \<Longrightarrow> ?thesis" "SCH_boost_get_execution_time t s = Inr (x, s') \<Longrightarrow> ?thesis"
    by (auto simp: RR_get_execution_time_def SCH_boost_get_execution_time_def Let_def total_work_consume
        split: list.splits action.splits sch_par.splits prod.splits)
  have svr4: "?thesis" if h: "svr4_get_execution_time t s = Inr (x, s')"
  proof -
    obtain p used full c where p: "par t s = Par_svr4 p used full" "burst (actions (execs s t)) = Some c"
      using h by (auto simp: svr4_get_execution_time_def split: sch_par.splits option.splits)
    obtain v s1 where s1: "s1 = set_par t v s"
      "s' = (case actions (execs s1 t) of AC_GPU_BURST c # as \<Rightarrow> if c - x = 0 then set_actions t as s1
               else set_actions t (AC_GPU_BURST (c - x) # as) s1 | _ \<Rightarrow> consume t x s1)"
      using h by (auto simp: svr4_get_execution_time_def p Let_def split: if_splits)
    obtain as where "actions (execs s t) = AC_WORK c # as \<or> actions (execs s t) = AC_GPU_BURST c # as"
      using p(2) by (auto simp: burst_def split: list.splits action.splits)
    then show ?thesis by (auto simp: s1 total_work_consume total_work_set_actions)
  qed
  show ?thesis
    using assms unfolding policy_get_execution_time_def by (cases "sch_policy (sch_of t s)") (simp_all add: whole rr svr4)
qed

lemma conserves_execution_time:
  assumes "SCHEDULER_get_execution_time t s = Inr (x, s')"
  shows "conserves s s'"
proof -
  obtain s1 where s1: "policy_get_execution_time t s = Inr (x, s1)" "s' = upd_account t (\<lambda>a. a\<lparr>cpu_time := cpu_time a + x\<rparr>) s1"
    using assms by (auto simp: SCHEDULER_get_execution_time_def bindE_eq_Inr split: if_splits)
  have "total_work u s' = total_work u s1 + (if u = t then x else 0)" for u
    by (simp add: s1(2) total_work_def upd_account_def upd_exec_def)
  then show ?thesis using policy_consumes[OF s1(1)] by (simp add: conserves_def)
qed

lemma conserves_assign: "conserves s (assign_cpu t c s)"
proof -
  have "conserves s (upd_exec t (\<lambda>x. x\<lparr>thread_cpu := Some c\<rparr>) (upd_cpu c (\<lambda>u. u\<lparr>current_thread := Some t\<rparr>) s))" (is "conserves s ?s1")
    by (rule conserves_trans[OF conserves_upd(2) conserves_upd_exec]) simp
  moreover have "conserves ?s1 (upd_cpu c (\<lambda>u. u\<lparr>current_thread_context := Some t\<rparr>)
      (upd_account t (\<lambda>a. a\<lparr>n_th_in_run := n_th_in_run a + 1\<rparr>) ?s1))"
    by (rule conserves_trans[OF conserves_upd_account conserves_upd(2)]) simp
  ultimately show ?thesis by (auto simp: assign_cpu_def Let_def intro: conserves_trans)
qed

lemma conserves_fold: "(\<And>c u. conserves u (f c u)) \<Longrightarrow> conserves s (fold f cs s)"
  by (induction cs arbitrary: s) (auto intro: conserves_trans)

lemma conserves_take_cpu: "take_cpu t nd s = Inr s' \<Longrightarrow> conserves s s'"
  by (auto simp: take_cpu_def Let_def assign_gpus_def split: if_splits option.splits intro!: conserves_fold conserves_assign)

lemma conserves_put_thread_on_run:
  assumes "put_thread_on_run t nd s = Inr s'"
  shows "conserves s s'"
proof -
  define s1 where "s1 = (if \<not> kernel (execs s t) \<and> \<not> host (execs s t)
     then upd_thread t (\<lambda>th. th\<lparr>last_paraver := current_time s\<rparr>) s else s)"
  define s2 where "s2 = upd_account t (\<lambda>a. a\<lparr>time_ready_without_cpu :=
     (current_time s - put_into_ready (execs s t)) + time_ready_without_cpu a\<rparr>) s1"
  have "conserves s s1" by (simp add: s1_def conserves_upd)
  then have c2: "conserves s s2" unfolding s2_def by (rule conserves_trans) (rule conserves_upd_account, simp)
  obtain s3 where t: "take_cpu t nd s2 = Inr s3"
    using assms by (cases "take_cpu t nd s2") (auto simp: put_thread_on_run_def Let_def s1_def[symmetric] s2_def[symmetric])
  have c3: "conserves s s3" by (rule conserves_trans[OF c2 conserves_take_cpu[OF t]])
  show ?thesis
  proof (cases "context_switch (scheduler s (machine_of_node s nd)) \<noteq> NO_CONTEXT_SWITCH")
    case True
    then obtain f w where "sch_timer w t t (upd_exec t f s3) = Inr s'" "\<And>x. account (f x) = account x \<and> actions (f x) = actions x"
      using assms t by (auto simp: put_thread_on_run_def Let_def s1_def[symmetric] s2_def[symmetric])
    then show ?thesis
      by (intro conserves_trans[OF c3 conserves_trans[OF conserves_upd_exec conserves_sch_timer]]) auto
  next
    case False
    let ?s4 = "upd_exec t (\<lambda>x. x\<lparr>min_time_to_be_preempted := current_time s + minimum_quantum (scheduler s (machine_of_node s nd))\<rparr>) s3"
    obtain ti s5 where h: "SCHEDULER_get_execution_time t ?s4 = Inr (ti, s5)" "sch_timer (current_time s + ti) t t s5 = Inr s'"
      using assms False t by (auto simp: put_thread_on_run_def Let_def s1_def[symmetric] s2_def[symmetric] bindE_eq_Inr)
    have "conserves s3 ?s4" by (rule conserves_upd_exec) simp
    from conserves_trans[OF c3 conserves_trans[OF this conserves_trans[OF conserves_execution_time[OF h(1)] conserves_sch_timer[OF h(2)]]]]
    show ?thesis .
  qed
qed

lemma work_resumed: "work (resumed_actions x r) = r + work (actions x)"
  by (simp add: resumed_actions_def Let_def)

text \<open>Time that was given and is taken back is work again.\<close>

lemma taken_back:
  assumes "engine.more s1 = engine.more s" "work as = r + work (actions (execs s cur))"
    "\<And>x. account (f x) = account x \<and> actions (f x) = actions x"
  shows "conserves s (set_actions cur as (upd_account cur (\<lambda>a. a\<lparr>cpu_time := cpu_time a - r\<rparr>) (upd_exec cur f s1)))"
proof -
  have "execs s1 = execs s" "unread s1 = unread s" using assms(1) by (cases s; cases s1; simp)+
  then show ?thesis
    using assms(2,3) by (simp add: conserves_def total_work_def upd_account_def upd_exec_def)
qed

lemma conserves_suspend: "suspend cur s = Inr s' \<Longrightarrow> conserves s s'"
proof -
  assume h: "suspend cur s = Inr s'"
  then obtain w s1 where e: "EVENT_extract_timer M_SCH cur s = Inr (w, s1)"
    by (cases "EVENT_extract_timer M_SCH cur s") (auto simp: suspend_def)
  note m = engine_more_extract[OF e]
  let ?x = "upd_account cur (\<lambda>a. a\<lparr>cpu_time := cpu_time a - (w - current_time s)\<rparr>)
    (upd_exec cur (\<lambda>x. x\<lparr>put_into_ready := current_time s\<rparr>) s1)"
  have a: "actions (execs ?x cur) = actions (execs s cur)"
    using m by (cases s; cases s1; simp add: upd_account_def upd_exec_def)
  have "conserves s (set_actions cur (resumed_actions (execs ?x cur) (w - current_time s)) ?x)"
    by (rule taken_back[OF m]) (simp_all add: work_resumed a)
  then show ?thesis
    using h conserves_upd(1) by (auto simp: suspend_def e Let_def intro: conserves_trans)
qed

lemma upd_exec_id [simp]: "upd_exec t (\<lambda>x. x) s = s"
  by (simp add: upd_exec_def)

lemma conserves_preempt_later: "preempt_later t cur s = Inr s' \<Longrightarrow> conserves s s'"
proof (cases "next_event_timer s cur > min_time_to_be_preempted (execs s cur)")
  case True
  assume h: "preempt_later t cur s = Inr s'"
  then obtain w s1 where e: "EVENT_extract_timer M_SCH cur s = Inr (w, s1)"
    by (cases "EVENT_extract_timer M_SCH cur s") (auto simp: preempt_later_def True)
  note m = engine_more_extract[OF e]
  let ?r = "w - current_time s"
  let ?s2 = "upd_account cur (\<lambda>a. a\<lparr>cpu_time := cpu_time a - ?r\<rparr>) s1"
  have a: "actions (execs ?s2 cur) = actions (execs s cur)"
    using m by (cases s; cases s1; simp add: upd_account_def upd_exec_def)
  obtain as where as: "sch_timer (min_time_to_be_preempted (execs s cur)) t cur (set_actions cur as ?s2) = Inr s'"
    "work as = ?r + work (actions (execs s cur))"
    using h unfolding preempt_later_def by (auto simp: True e Let_def a split: list.splits action.splits)
  have "conserves s (set_actions cur as ?s2)"
    using taken_back[OF m as(2), of "\<lambda>x. x"] by simp
  from conserves_trans[OF this conserves_sch_timer[OF as(1)]] show ?thesis .
qed (simp add: preempt_later_def)

lemma conserves_block: "conserves s (COMMUNIC_block_after_busy_wait t s)"
proof -
  let ?s1 = "upd_exec t (\<lambda>x. x\<lparr>start_wait_for_message := current_time s\<rparr>)
                 (upd_account t (\<lambda>a. a\<lparr>n_recvs_must_wait := n_recvs_must_wait a + 1\<rparr>) s)"
  have "conserves s ?s1" by (rule conserves_trans[OF conserves_upd_account conserves_upd_exec]) simp_all
  moreover have "conserves u (u\<lparr>task_q := q\<rparr>)" "conserves u (u\<lparr>thread_q := p\<rparr>)" for u :: "'a world_scheme" and q p
    by (simp_all add: conserves_def total_work_def)
  ultimately show ?thesis by (auto simp: COMMUNIC_block_after_busy_wait_def Let_def intro: conserves_trans)
qed

lemma conserves_preemption: "SCHEDULER_preemption t c s = Inr (out, s') \<Longrightarrow> conserves s s'"
proof -
  assume h: "SCHEDULER_preemption t c s = Inr (out, s')"
  then obtain cur where cur: "current_thread (cpus s c) = Some cur"
    by (cases "current_thread (cpus s c)") (auto simp: SCHEDULER_preemption_def)
  have counters: "conserves v (upd_account t (\<lambda>a. a\<lparr>n_preempt_to_other := n_preempt_to_other a + 1\<rparr>)
      (upd_account cur (\<lambda>a. a\<lparr>n_preempt_to_me := n_preempt_to_me a + 1\<rparr>) v))" for v :: "'a world_scheme"
    by (rule conserves_trans[OF conserves_upd_account conserves_upd_account]) simp_all
  have fin: "conserves s (upd_account t (\<lambda>a. a\<lparr>n_preempt_to_other := n_preempt_to_other a + 1\<rparr>)
      (upd_account cur (\<lambda>a. a\<lparr>n_preempt_to_me := n_preempt_to_me a + 1\<rparr>) v))"
    if "conserves s u" "put_thread_on_run t nd u = Inr v" for u v nd
    by (rule conserves_trans[OF that(1) conserves_trans[OF conserves_put_thread_on_run[OF that(2)] counters]])
  show ?thesis
  proof (cases "doing_busy_wait (execs s cur)")
    case True
    then obtain w s1 where e: "EVENT_extract_timer M_SCH cur s = Inr (w, s1)"
      using h by (cases "EVENT_extract_timer M_SCH cur s") (auto simp: SCHEDULER_preemption_def cur)
    let ?a = "upd_exec cur (\<lambda>x. x\<lparr>doing_busy_wait := False\<rparr>) (upd_thread cur (\<lambda>th. th\<lparr>last_paraver := current_time s\<rparr>) s1)"
    have "conserves s1 ?a" by (rule conserves_trans[OF conserves_upd(1) conserves_upd_exec]) simp
    from conserves_trans[OF conserves_engine[OF engine_more_extract[OF e]]
        conserves_trans[OF this conserves_trans[OF conserves_block conserves_upd(2)]]]
    show ?thesis
      using h True by (auto simp: SCHEDULER_preemption_def cur e Let_def bindE_eq_Inr split: if_splits intro: fin)
  next
    case False
    show ?thesis
    proof (cases "min_time_to_be_preempted (execs s cur) > current_time s")
      case True
      with h False show ?thesis
        by (auto simp: SCHEDULER_preemption_def cur bindE_eq_Inr intro: conserves_preempt_later)
    next
      case False
      with h \<open>\<not> doing_busy_wait (execs s cur)\<close> obtain s1 where
        e: "suspend cur (upd_cpu c (\<lambda>u. u\<lparr>current_thread := None\<rparr>) s) = Inr s1"
        by (auto simp: SCHEDULER_preemption_def cur bindE_eq_Inr)
      from conserves_trans[OF conserves_upd(2) conserves_suspend[OF e]] show ?thesis
        using h False \<open>\<not> doing_busy_wait (execs s cur)\<close>
        by (auto simp: SCHEDULER_preemption_def cur e Let_def bindE_eq_Inr split: if_splits intro: fin)
    qed
  qed
qed

lemma conserves_try_preempt: "try_preempt w t s = Inr (x, s') \<Longrightarrow> conserves s s'"
  unfolding try_preempt_def Let_def
  by (auto simp: bindE_eq_Inr split: if_splits option.splits intro: conserves_preemption)

lemma conserves_set_par: "conserves s (set_par t p s)"
  by (simp add: conserves_def)

lemma conserves_insert: "conserves s (insert_by_priority b nd u p s)"
  unfolding insert_by_priority_def by (rule conserves_upd(6))

lemma conserves_policy_to_ready: "policy_thread_to_ready t s = Inr s' \<Longrightarrow> conserves s s'"
proof -
  have fifo: "FIFO_thread_to_ready t s = Inr s' \<Longrightarrow> conserves s s'"
    by (auto simp: FIFO_thread_to_ready_def Let_def intro: conserves_upd)
  have prio: "conserves s s'" if h: "PRIO_FIFO_thread_to_ready t s = Inr s'"
  proof -
    obtain out pre s1 where t: "try_preempt (priority_preemptive (sch_of t s)) t s = Inr ((out, pre), s1)"
      using h by (auto simp: PRIO_FIFO_thread_to_ready_def Let_def bindE_eq_Inr)
    show ?thesis
      using h conserves_try_preempt[OF t] conserves_trans[OF conserves_try_preempt[OF t] conserves_insert]
      by (auto simp: PRIO_FIFO_thread_to_ready_def Let_def t split: option.splits if_splits)
  qed
  have ss: "conserves s s'" if h: "SS_MPI_CP_thread_to_ready t s = Inr s'"
  proof -
    obtain f p out pre s1 where f: "par t s = Par_ss p f" and t: "try_preempt (f = 1) t s = Inr ((out, pre), s1)"
      using h by (auto simp: SS_MPI_CP_thread_to_ready_def Let_def bindE_eq_Inr split: sch_par.splits)
    show ?thesis
      using h conserves_try_preempt[OF t] conserves_trans[OF conserves_try_preempt[OF t] conserves_insert]
        conserves_trans[OF conserves_try_preempt[OF t] conserves_upd(6)]
      by (auto simp: SS_MPI_CP_thread_to_ready_def Let_def t f split: option.splits if_splits)
  qed
  have svr4: "conserves s s'" if h: "svr4_thread_to_ready t s = Inr s'"
  proof -
    obtain p q full where p: "par t s = Par_svr4 p q full"
      using h by (auto simp: svr4_thread_to_ready_def split: sch_par.splits)
    define s0 where "s0 = (if full then set_par t (Par_svr4 (ts_tqexp p) q False) s else s)"
    have s0: "conserves s s0" by (simp add: s0_def conserves_set_par)
    obtain out pre s1 where t: "try_preempt (priority_preemptive (sch_of t s)) t s0 = Inr ((out, pre), s1)"
      using h by (auto simp: svr4_thread_to_ready_def Let_def p s0_def[symmetric] bindE_eq_Inr split: if_splits)
    note c = conserves_trans[OF s0 conserves_try_preempt[OF t]]
    show ?thesis
      using h c conserves_trans[OF c conserves_insert]
      by (auto simp: svr4_thread_to_ready_def Let_def p s0_def[symmetric] t split: option.splits if_splits sch_par.splits)
  qed
  assume "policy_thread_to_ready t s = Inr s'"
  then show ?thesis
    using fifo prio ss svr4 by (auto simp: policy_thread_to_ready_def RR_thread_to_ready_def split: sch_policy.splits if_splits)
qed

lemma conserves_more_actions:
  assumes "more_actions t s = (mo, s')"
  shows "conserves s s'"
proof -
  define s1 where "s1 = (if actions (execs s t) = [] then READ_get_next_action t s else s)"
  have "conserves s s1"
    by (auto simp: s1_def READ_get_next_action_def conserves_def total_work_def split: list.split)
  moreover have "conserves s1 s'"
    using assms unfolding more_actions_def Let_def s1_def[symmetric]
    by (auto simp: conserves_def total_work_def upd_thread_def split: list.splits action.splits)
  ultimately show ?thesis by (rule conserves_trans)
qed

lemma conserves_thread_to_ready:
  assumes "SCHEDULER_thread_to_ready t s = Inr s'"
  shows "conserves s s'"
proof -
  obtain mo s1 where m: "more_actions t s = (mo, s1)" by fastforce
  define s2 where "s2 = (if works (actions (execs s1 t)) then s1 else set_actions t (AC_WORK 0 # actions (execs s1 t)) s1)"
  define s3 where "s3 = upd_exec t (\<lambda>x. x\<lparr>put_into_ready := current_time s\<rparr>) s2"
  have c2: "conserves s1 s2" by (simp add: s2_def conserves_def total_work_set_actions)
  have c3: "conserves s2 s3" unfolding s3_def by (rule conserves_upd_exec) simp
  obtain s4 where s4: "policy_thread_to_ready t s3 = Inr s4" "s' = s4\<lparr>reload_done := True\<rparr>"
    using assms by (auto simp: SCHEDULER_thread_to_ready_def Let_def m s2_def[symmetric] s3_def[symmetric] bindE_eq_Inr split: if_splits)
  from conserves_trans[OF conserves_more_actions[OF m] conserves_trans[OF c2 conserves_trans[OF c3
      conserves_trans[OF conserves_policy_to_ready[OF s4(1)] conserves_upd(5)]]]]
  show ?thesis unfolding s4(2) .
qed

lemma conserves_next: "SCHEDULER_next_thread_to_run nd s = Inr s' \<Longrightarrow> conserves s s'"
  by (auto simp: SCHEDULER_next_thread_to_run_def split: list.splits
      intro: conserves_trans[OF conserves_upd(6) conserves_put_thread_on_run])

text \<open>The moves between operations: a thread gets ready, takes a processor, another thread's processor, or waits busily.\<close>

inductive sched_move :: "'z world_scheme \<Rightarrow> 'z world_scheme \<Rightarrow> bool" where
  get_ready: "SCHEDULER_thread_to_ready t s = Inr s' \<Longrightarrow> sched_move s s'"
| run: "SCHEDULER_next_thread_to_run nd s = Inr s' \<Longrightarrow> sched_move s s'"
| preempt: "SCHEDULER_preemption t c s = Inr (out, s') \<Longrightarrow> sched_move s s'"
| busy_wait: "SCHEDULER_thread_to_busy_wait t s = Inr s' \<Longrightarrow> sched_move s s'"

lemma conserves_busy_wait: "SCHEDULER_thread_to_busy_wait t s = Inr s' \<Longrightarrow> conserves s s'"
proof -
  assume h: "SCHEDULER_thread_to_busy_wait t s = Inr s'"
  then obtain c where c: "thread_cpu (execs s t) = Some c"
    by (cases "thread_cpu (execs s t)") (auto simp: SCHEDULER_thread_to_busy_wait_def)
  let ?u = "upd_exec t (\<lambda>x. x\<lparr>doing_busy_wait := True, min_time_to_be_preempted := current_time s\<rparr>)
    (upd_cpu c (\<lambda>u. u\<lparr>current_thread := Some t\<rparr>) s)"
  have "conserves s ?u" by (rule conserves_trans[OF conserves_upd(2) conserves_upd_exec]) simp
  from conserves_trans[OF this conserves_sch_timer] show ?thesis
    using h by (simp add: SCHEDULER_thread_to_busy_wait_def c)
qed

lemma conserves_move: "sched_move s s' \<Longrightarrow> conserves s s'"
  by (induction rule: sched_move.induct)
    (auto intro: conserves_thread_to_ready conserves_next conserves_preemption conserves_busy_wait)

text \<open>
  Property C17. Scheduling neither loses nor invents work, whatever the policy: through every sequence of
  threads getting ready, taking processors and preempting each other, the time every thread was given, the bursts
  left in its current actions and those it has not read yet add up to the same. A preempted thread gives back
  exactly the part of its slice that it did not run.
\<close>

theorem scheduling_conserves_work:
  assumes "sched_move\<^sup>*\<^sup>* s s'"
  shows "cpu_time (account (execs s' u)) + work (actions (execs s' u)) + work (unread s' u) =
    cpu_time (account (execs s u)) + work (actions (execs s u)) + work (unread s u)"
proof -
  have "conserves s s'"
    using assms by (induction rule: rtranclp_induct) (auto intro: conserves_trans conserves_move)
  then show ?thesis by (simp add: conserves_def total_work_def)
qed

theorem scheduling_conserves_work_witness:
  "\<exists>s'. SCHEDULER_thread_to_ready 3 (ex_sch P_PRIO_FIFO (\<lambda>t. Par_prio (if t = 0 then 5 else 1))) = Inr s' \<and>
     cpu_time (account (execs s' 0)) + work (actions (execs s' 0)) + work (unread s' 0) = 10"
proof -
  let ?s = "ex_sch P_PRIO_FIFO (\<lambda>t. Par_prio (if t = 0 then 5 else 1))"
  obtain s' where s': "SCHEDULER_thread_to_ready 3 ?s = Inr s'" using ex_preempted by blast
  from get_ready[OF s'] have "sched_move\<^sup>*\<^sup>* ?s s'" by (rule r_into_rtranclp)
  from scheduling_conserves_work[OF this, of 0] s' show ?thesis by (simp add: ex_sch_defs clear_account_def)
qed

section \<open>Which thread is preempted\<close>

lemma find_max_Cons:
  fixes lvl :: "'c \<Rightarrow> real"
  assumes "y \<in> set cs" "lvl c \<le> lvl y"
  shows "List.find (\<lambda>d. \<forall>c'\<in>set (c # cs). lvl c' \<le> lvl d) cs = List.find (\<lambda>d. \<forall>c'\<in>set cs. lvl c' \<le> lvl d) cs"
proof (rule find_cong[OF refl])
  fix x assume "x \<in> set cs"
  have "lvl c \<le> lvl x" if "\<forall>c'\<in>set cs. lvl c' \<le> lvl x" using that assms order_trans by blast
  then show "(\<forall>c'\<in>set (c # cs). lvl c' \<le> lvl x) = (\<forall>c'\<in>set cs. lvl c' \<le> lvl x)" by auto
qed

lemma victim_step:
  assumes "\<forall>c\<in>set cs. \<exists>u. current_thread (cpus s c) = Some u \<and> prio_of (par u s) = Some (lvl c)" "own \<le> best"
  shows "cpu_to_preempt own best found cs s =
    Inr (if \<forall>c\<in>set cs. lvl c \<le> best then found else List.find (\<lambda>c. \<forall>c'\<in>set cs. lvl c' \<le> lvl c) cs)"
  using assms
proof (induction own best found cs s rule: cpu_to_preempt.induct)
  case (2 own best found c cs s)
  from 2(3) obtain u where u: "current_thread (cpus s c) = Some u" "prio_of (par u s) = Some (lvl c)"
    and rest: "\<forall>c\<in>set cs. \<exists>u. current_thread (cpus s c) = Some u \<and> prio_of (par u s) = Some (lvl c)" by auto
  show ?case
  proof (cases "own < lvl c \<and> best < lvl c")
    case True
    have h: "cpu_to_preempt own (lvl c) (Some c) cs s = Inr (if \<forall>c'\<in>set cs. lvl c' \<le> lvl c then Some c
        else List.find (\<lambda>c. \<forall>c'\<in>set cs. lvl c' \<le> lvl c) cs)"
      using 2(1)[OF u True rest] True by simp
    show ?thesis
    proof (cases "\<forall>c'\<in>set cs. lvl c' \<le> lvl c")
      case False
      then obtain y where y: "y \<in> set cs" "lvl c < lvl y" by (auto simp: not_le)
      then have nc: "\<not> (\<forall>c'\<in>set (c # cs). lvl c' \<le> lvl c)" by (auto simp: not_le)
      have nb: "\<not> (\<forall>d\<in>set (c # cs). lvl d \<le> best)" using True by auto
      have "cpu_to_preempt own best found (c # cs) s = cpu_to_preempt own (lvl c) (Some c) cs s" using True u by simp
      then show ?thesis
        by (simp only: h if_not_P[OF False] if_not_P[OF nb] find.simps(2) if_not_P[OF nc] find_max_Cons[OF y(1) less_imp_le[OF y(2)]])
    qed (use True u h in auto)
  next
    case False
    then have le: "lvl c \<le> best" using 2(4) by linarith
    have h: "cpu_to_preempt own best found cs s = Inr (if \<forall>c\<in>set cs. lvl c \<le> best then found
        else List.find (\<lambda>c. \<forall>c'\<in>set cs. lvl c' \<le> lvl c) cs)"
      by (rule 2(2)[OF u False rest 2(4)])
    show ?thesis
    proof (cases "\<forall>c\<in>set cs. lvl c \<le> best")
      case nb: False
      then obtain y where y: "y \<in> set cs" "best < lvl y" by (auto simp: not_le)
      then have cy: "lvl c < lvl y" using le by linarith
      with y(1) have nc: "\<not> (\<forall>c'\<in>set (c # cs). lvl c' \<le> lvl c)" by (auto simp: not_le)
      have nb': "\<not> (\<forall>d\<in>set (c # cs). lvl d \<le> best)" using y by (auto simp: not_le)
      have "cpu_to_preempt own best found (c # cs) s = cpu_to_preempt own best found cs s" using False u by auto
      then show ?thesis
        by (simp only: h if_not_P[OF nb] if_not_P[OF nb'] find.simps(2) if_not_P[OF nc] find_max_Cons[OF y(1) less_imp_le[OF cy]])
    qed (use False u h le in auto)
  qed
qed simp

text \<open>
  The processor to preempt is the first one whose thread has the greatest value of the priority, provided
  that this is greater than the value of the thread that gets ready; when no thread has a greater value, no
  processor is preempted.
\<close>

theorem preemption_victim:
  assumes "\<forall>c\<in>set cs. \<exists>u. current_thread (cpus s c) = Some u \<and> prio_of (par u s) = Some (lvl c)"
  shows "cpu_to_preempt own own None cs s = Inr (List.find (\<lambda>c. own < lvl c \<and> (\<forall>c'\<in>set cs. lvl c' \<le> lvl c)) cs)"
proof (cases "\<forall>c\<in>set cs. lvl c \<le> own")
  case True
  then have "List.find (\<lambda>c. own < lvl c \<and> (\<forall>c'\<in>set cs. lvl c' \<le> lvl c)) cs = None" by (auto simp: find_None_iff not_less)
  with True victim_step[OF assms, of own own None] show ?thesis by simp
next
  case False
  then obtain x where x: "x \<in> set cs" "own < lvl x" by (auto simp: not_le)
  have "own < lvl c" if "\<forall>c'\<in>set cs. lvl c' \<le> lvl c" for c using that x order_less_le_trans by blast
  then have "(\<lambda>c. \<forall>c'\<in>set cs. lvl c' \<le> lvl c) = (\<lambda>c. own < lvl c \<and> (\<forall>c'\<in>set cs. lvl c' \<le> lvl c))" by auto
  with victim_step[OF assms, of own own None] False show ?thesis by (simp only: if_False)
qed

theorem preemption_victim_witness:
  "cpu_to_preempt 1 1 None [1, 0, 2] (ex_sch P_PRIO_FIFO (\<lambda>t. Par_prio (if t = 0 then 5 else 1))) = Inr (Some 0)"
  by (subst preemption_victim[where lvl = "\<lambda>c. if c = 0 then 5 else 1"])
    (simp_all add: prio_of_def par_def ex_sch_defs)

section \<open>Equal priorities\<close>

lemma zero_insert: 
  assumes "\<forall>x\<in>set q. snd x = (0 :: real)"
  shows "seq_insert snd (t, 0) q = q @ [(t, 0)]" "seq_insert_first snd (t, 0) q = (t, 0) # q"
proof -
  have "takeWhile ((\<lambda>p. p \<le> 0) \<circ> snd) q = q" "dropWhile ((\<lambda>p. p \<le> 0) \<circ> snd) q = []"
    using assms by (auto simp: takeWhile_eq_all_conv dropWhile_eq_Nil_conv)
  then show "seq_insert snd (t, 0) q = q @ [(t, 0)]" by (simp add: seq_insert_def ins_before_def)
  show "seq_insert_first snd (t, 0) q = (t, 0) # q"
    using assms by (cases q) (auto simp: seq_insert_first_def ins_before_def)
qed

text \<open>
  When all priorities are 0, which they always are at the start because the loader sets every
  \<open>base_priority\<close> to 0, fixed priorities with preemption queue a thread exactly like first come first served.
\<close>

theorem equal_priorities_are_fifo:
  assumes "\<forall>u. par u s = Par_prio 0" "actions (execs s t) \<noteq> []" "\<forall>x\<in>set (ready s (get_node_of_thread t s)). snd x = 0"
    and "\<forall>c\<in>set (node_cpus s (get_node_of_thread t s)). \<not> is_gpu (cpus s c)"
  shows "PRIO_FIFO_thread_to_ready t s = FIFO_thread_to_ready t s"
proof -
  let ?nd = "get_node_of_thread t s"
  have "try_preempt w t s = Inr ((Some t, False), s)" for w
  proof (cases "w \<and> select_free_cpu ?nd t s = None")
    case True
    then have "filter (\<lambda>c. current_thread (cpus s c) = None \<and> \<not> is_gpu (cpus s c)) (node_cpus s ?nd) = []"
      by (auto simp: select_free_cpu_def Let_def split: option.splits list.splits)
    then have "\<forall>c\<in>set (node_cpus s ?nd). \<exists>u. current_thread (cpus s c) = Some u \<and> prio_of (par u s) = Some 0"
      using assms(1,4) by (auto simp: filter_empty_conv prio_of_def)
    from victim_step[OF this, of 0 0 None] show ?thesis
      using True assms(1) by (simp add: try_preempt_def prio_of_def)
  qed (auto simp: try_preempt_def Let_def)
  then have "PRIO_FIFO_thread_to_ready t s = Inr (insert_by_priority (loose_cpu s t \<or> lost_cpu_on_send (sch_of t s)) ?nd t 0 s)"
    using assms(1,2) by (simp add: PRIO_FIFO_thread_to_ready_def Let_def prio_of_def)
  then show ?thesis
    using zero_insert[OF assms(3)] by (simp add: FIFO_thread_to_ready_def insert_by_priority_def upd_ready_def Let_def)
qed

theorem equal_priorities_are_fifo_witness:
  "PRIO_FIFO_thread_to_ready 3 (ex_sch P_PRIO_FIFO (\<lambda>_. Par_prio 0)) = FIFO_thread_to_ready 3 (ex_sch P_PRIO_FIFO (\<lambda>_. Par_prio 0))"
  by (rule equal_priorities_are_fifo) (simp_all add: par_def ex_sch_defs)

section \<open>SVR4\<close>

text \<open>
  Under SVR4 a greater level is better: its threads stand further ahead in the ready queue. But a
  thread that gets ready takes the processor of a thread of a better level than its own, and waits for one of a
  worse level.
\<close>

theorem svr4_preempts_the_better_thread:
  assumes "par t s = Par_svr4 p q False" "par u s = Par_svr4 pu qu fu" "get_node_of_thread t s = nd"
    and "node_cpus s nd = [c]" "current_thread (cpus s c) = Some u" "priority_preemptive (sch_of t s)"
  shows "(pu \<le> p \<longrightarrow> svr4_thread_to_ready t s = Inr (insert_by_priority (loose_cpu s t) nd t (real_of_int (BEST_PRIO - p)) s)) \<and>
    (p < pu \<longrightarrow> svr4_thread_to_ready t s = bindE (SCHEDULER_preemption t c s) (\<lambda>(out, s1). case out of
       None \<Rightarrow> Inr s1
     | Some v \<Rightarrow> (case par v s1 of
           Par_svr4 pv _ _ \<Rightarrow> Inr (insert_by_priority (loose_cpu s1 v) nd v (real_of_int (BEST_PRIO - pv)) s1)
         | _ \<Rightarrow> Inl NullDeref)))"
  using assms
  by (auto simp: svr4_thread_to_ready_def Let_def try_preempt_def select_free_cpu_def prio_of_def bindE_assoc
      intro!: arg_cong[where f = "bindE _"] split: option.split)

theorem svr4_preempts_the_better_thread_witness:
  "svr4_thread_to_ready 3 (ex_sch P_SVR4 (\<lambda>t. Par_svr4 (if t = 0 then 20 else 40) 0 False)) =
     Inr (insert_by_priority False 0 3 19 (ex_sch P_SVR4 (\<lambda>t. Par_svr4 (if t = 0 then 20 else 40) 0 False)))"
  using svr4_preempts_the_better_thread[of 3 "ex_sch P_SVR4 (\<lambda>t. Par_svr4 (if t = 0 then 20 else 40) 0 False)" 40 0 0 20 0 False 0 0]
  by (simp add: par_def sch_of_def BEST_PRIO_def ex_sch_defs get_node_of_thread_def)

end
