(* ===== verification/Matching.thy ===== *)
theory Matching
  imports Scheduler Sends
begin

text \<open>
  The point to point protocol of \<^verbatim>\<open>Simulator/model/communic.c\<close>: which message a receive takes
  (\<open>locate_receiver_*\<close>, \<open>is_message_awaiting_*\<close>), the arrival of a message (\<open>message_received\<close>,
  \<open>COMMUNIC_COM_TIMER_OUT\<close>), the rendez-vous (\<open>COMMUNIC_send_reached_*\<close>, \<open>COMMUNIC_recv_reached_*\<close>,
  \<open>Start_communication_if_partner_ready_for_rendez_vous_*\<close>) and the operations \<open>COMMUNIC_send\<close>,
  \<open>COMMUNIC_recv\<close>, \<open>COMMUNIC_Irecv\<close> and \<open>COMMUNIC_wait\<close>.

  A transfer of MPI (thread -1) is matched in the queues of its task, a dependency between threads of a
  task in the queues of the thread that receives; \<open>box\<close> is the owner of the queues. A communication that PARAVER
  would draw is logged in \<open>p2p_comms\<close>. The analysis of deadlocks, Venus, energy efficient Ethernet and the startup of
  non-blocking collective operations are left out.
\<close>

section \<open>State\<close>

record p2p =
  p2p_sender :: tid
  p2p_receiver :: tid
  p2p_logical_send :: timer
  p2p_physical_send :: timer
  p2p_logical_recv :: timer
  p2p_physical_recv :: timer
  p2p_size :: int
  p2p_tag :: int

record comm_sim = sim +
  p2p_comms :: "p2p list"

datatype box = Of_task taskid | Of_thread tid

definition box_q :: "box \<Rightarrow> 'z world_scheme \<Rightarrow> t_msgq" where
  "box_q b s = (case b of Of_task k \<Rightarrow> task_q s k | Of_thread t \<Rightarrow> thread_q s t)"

definition upd_box :: "box \<Rightarrow> (t_msgq \<Rightarrow> t_msgq) \<Rightarrow> 'z world_scheme \<Rightarrow> 'z world_scheme" where
  "upd_box b f s = (case b of
      Of_task k \<Rightarrow> s\<lparr>task_q := (task_q s)(k := f (task_q s k))\<rparr>
    | Of_thread t \<Rightarrow> s\<lparr>thread_q := (thread_q s)(t := f (thread_q s t))\<rparr>)"

text \<open>The queues of the receiver of a message for thread \<open>i\<close> of task \<open>k\<close>.\<close>

definition box_of :: "taskid \<Rightarrow> int \<Rightarrow> 'z world_scheme \<Rightarrow> box res" where
  "box_of k i s = (if i = - 1 then Inr (Of_task k)
     else bindE (locate_thread_of_task k i s) (\<lambda>t. Inr (Of_thread t)))"

definition own_box :: "tid \<Rightarrow> bool \<Rightarrow> 'z world_scheme \<Rightarrow> box" where
  "own_box t mpi s = (if mpi then Of_task (task_of (threads s t)) else Of_thread t)"

definition log_p2p :: "tid \<Rightarrow> tid \<Rightarrow> timer \<Rightarrow> 'z comm_sim_scheme \<Rightarrow> 'z comm_sim_scheme" where
  "log_p2p t p lr s = s\<lparr>p2p_comms := p2p_comms s @ [\<lparr>p2p_sender = t, p2p_receiver = p,
     p2p_logical_send = logical_send (execs s t), p2p_physical_send = physical_send (comms s t),
     p2p_logical_recv = lr, p2p_physical_recv = physical_recv (execs s t),
     p2p_size = mess_size (sends s t), p2p_tag = mess_tag (sends s t)\<rparr>]\<rparr>"

definition set_last_paraver :: "tid \<Rightarrow> 'z world_scheme \<Rightarrow> 'z world_scheme" where
  "set_last_paraver t s = upd_thread t (\<lambda>th. th\<lparr>last_paraver := current_time s\<rparr>) s"

section \<open>Searches\<close>

text \<open>Every search through a queue: each element is first asserted to be fit for the queue.\<close>

fun scan :: "('a \<Rightarrow> bool) \<Rightarrow> ('a \<Rightarrow> bool) \<Rightarrow> 'a list \<Rightarrow> 'a option res" where
  "scan ok fits [] = Inr None"
| "scan ok fits (x # xs) =
     (if \<not> ok x then Inl AssertFailed else if fits x then Inr (Some x) else scan ok fits xs)"

text \<open>The waiting receiver \<open>r\<close> (with the identifier \<open>i\<close> in its task) takes the message \<open>m\<close> of thread \<open>oth\<close> of task \<open>otk\<close>.\<close>

definition takes :: "int \<Rightarrow> t_recv \<Rightarrow> taskid \<Rightarrow> int \<Rightarrow> t_send \<Rightarrow> bool" where
  "takes i r otk oth m \<longleftrightarrow> (i = dest_thread m \<or> dest_thread m = - 1) \<and> recv_tag r = mess_tag m \<and>
     recv_communic_id r = communic_id m \<and> (ori r = otk \<or> ori r = - 1) \<and> (ori_thread r = oth \<or> ori_thread r = - 1)"

definition takes_from :: "tid \<Rightarrow> tid \<Rightarrow> 'z world_scheme \<Rightarrow> bool" where
  "takes_from p t s \<longleftrightarrow> takes (threadid (execs s p)) (recvs s p) (task_of (threads s t)) (threadid (execs s t)) (sends s t)"

definition locate_receiver_real_MPI_transfer :: "tid list \<Rightarrow> tid \<Rightarrow> 'z world_scheme \<Rightarrow> tid option res" where
  "locate_receiver_real_MPI_transfer q t s =
     (if dest_thread (sends s t) \<noteq> - 1 then Inl AssertFailed
      else scan (\<lambda>p. ori_thread (recvs s p) = - 1) (\<lambda>p. takes_from p t s) q)"

definition locate_receiver_dependencies_synchronization :: "tid list \<Rightarrow> tid \<Rightarrow> 'z world_scheme \<Rightarrow> tid option res" where
  "locate_receiver_dependencies_synchronization q t s =
     (if dest_thread (sends s t) = - 1 then Inl AssertFailed
      else scan (\<lambda>p. ori_thread (recvs s p) \<noteq> - 1) (\<lambda>p. takes_from p t s) q)"

definition locate_receiver :: "box \<Rightarrow> tid \<Rightarrow> 'z world_scheme \<Rightarrow> tid option res" where
  "locate_receiver b t s = (case b of
      Of_task _ \<Rightarrow> locate_receiver_real_MPI_transfer (recvq (box_q b s)) t s
    | Of_thread _ \<Rightarrow> locate_receiver_dependencies_synchronization (recvq (box_q b s)) t s)"

text \<open>The time of the \<open>IRECV\<close> a receive belongs to, if it was noted; the note is removed.\<close>

definition get_logical_receive :: "bool \<Rightarrow> taskid \<Rightarrow> int \<Rightarrow> int \<Rightarrow> int \<Rightarrow> timer \<Rightarrow> (t_recv \<times> timer) list
    \<Rightarrow> timer \<times> (t_recv \<times> timer) list" where
  "get_logical_receive wait otk oth tag cid stored notes =
     (if wait then (stored, notes)
      else case List.find (\<lambda>(r, _). (ori r = otk \<or> ori r = - 1) \<and> (ori_thread r = oth \<or> ori_thread r = - 1) \<and>
                 recv_tag r = tag \<and> recv_communic_id r = cid) notes of
             None \<Rightarrow> (stored, notes)
           | Some n \<Rightarrow> (snd n, remove1 n notes))"

definition logical_receive_in :: "box \<Rightarrow> taskid \<Rightarrow> int \<Rightarrow> int \<Rightarrow> int \<Rightarrow> timer \<Rightarrow> 'z sim_scheme \<Rightarrow> timer \<times> 'z sim_scheme" where
  "logical_receive_in b otk oth tag cid stored s =
     (let (ti, notes) = get_logical_receive (wait_logical_recv (plat s)) otk oth tag cid stored (irecvs_executed (box_q b s))
      in (ti, upd_box b (\<lambda>q. q\<lparr>irecvs_executed := notes\<rparr>) s))"

section \<open>Startup and copy\<close>

definition compute_startup :: "tid \<Rightarrow> taskid \<Rightarrow> taskid \<Rightarrow> nodeid \<Rightarrow> nodeid \<Rightarrow> int \<Rightarrow> int \<Rightarrow> com_type \<Rightarrow> connid option
    \<Rightarrow> 'z sim_scheme \<Rightarrow> (timer \<times> 'z sim_scheme) res" where
  "compute_startup t send_tk recv_tk send_nd recv_nd tag sz kind conn s =
     (let p = plat s;
          draw = (\<lambda>base k. let (r, s1) = RANDOM_GenerateRandom k s in Inr (base + r, s1));
          block = acc_in_block_event (execs s t)
      in bindE (case kind of
           MEMORY_COMMUNICATION_TYPE \<Rightarrow> draw (local_startup p send_nd) R_memory_latency
         | INTERNAL_NETWORK_COM_TYPE \<Rightarrow> draw (remote_startup p send_nd) R_network_latency
         | EXTERNAL_NETWORK_COM_TYPE \<Rightarrow> draw (external_net_startup p send_nd) R_external_network_latency
         | DEDICATED_CONNECTION_COM_TYPE \<Rightarrow>
             (case conn of None \<Rightarrow> Inl Uninit | Some c \<Rightarrow> Inr (conn_startup (connection p c), s))
         | EXTERNAL_MODEL_COM_TYPE \<Rightarrow>
             (case external_startup p of
                None \<Rightarrow> Inl (Panic ''Error computing startup through the external library (not loaded)'')
              | Some g \<Rightarrow> Inr (g send_nd recv_nd send_tk recv_tk tag sz, s))
         | ACCELERATOR_COM_TYPE \<Rightarrow>
             if \<not> accelerator p send_nd
             then Inl (Panic ''Error computing accelerator comm startup through a non-accelerator node'')
             else draw (if CUDAEventEncoding_Is_CUDATransferBlock block \<and> sz = 0 then acc_startup p send_nd
                        else if transfer_block block then acc_memory_startup p send_nd
                        else acc_startup p send_nd) R_acc_memory_latency
         | Other_com_type \<Rightarrow> Inl (Panic ''Error computing startup: unknown comm type''))
         (\<lambda>(x, s1). Inr (if x < 1 then 0 else x, s1)))"

definition compute_copy_latency :: "nodeid \<Rightarrow> int \<Rightarrow> com_type \<Rightarrow> 'z sim_scheme \<Rightarrow> timer res" where
  "compute_copy_latency nd sz kind s =
     (if kind = ACCELERATOR_COM_TYPE \<and> \<not> accelerator (plat s) nd
      then Inl (Panic ''Communication is ACCELERATOR_TYPE in a non-accelerator node'')
      else Inr (bw_ns_per_byte (if kind = ACCELERATOR_COM_TYPE then acc_bandwidth (plat s) nd else node_bandwidth (plat s) nd)
                * real_of_int sz))"

text \<open>A latency is accounted and taken off the time of the processor.\<close>

definition pay_latency :: "timer \<Rightarrow> t_account \<Rightarrow> t_account" where
  "pay_latency ti a = a\<lparr>latency_time := latency_time a + ti, cpu_time := cpu_time a - ti\<rparr>"

text \<open>The thread computes for the time of a latency and then tries the operation again.\<close>

definition spend :: "(t_exec \<Rightarrow> t_exec) \<Rightarrow> tid \<Rightarrow> timer \<Rightarrow> 'z sim_scheme \<Rightarrow> 'z sim_scheme res" where
  "spend f t ti s = SCHEDULER_thread_to_ready_return M_COM t ti 0
     (upd_account t (pay_latency ti) (upd_exec t f (set_loose_cpu t False s)))"

definition acc_comm :: "int \<Rightarrow> bool" where
  "acc_comm tag \<longleftrightarrow> CUDAEventEncoding_Is_CUDAComm tag \<or> OCLEventEncoding_Is_OCLComm tag"

definition start_startup :: "int \<Rightarrow> t_exec \<Rightarrow> t_exec" where
  "start_startup tag x =
     (let x1 = x\<lparr>doing_startup := True\<rparr> in if acc_comm tag then x1\<lparr>doing_acc_comm := True\<rparr> else x1)"

section \<open>The arrival of a message\<close>

text \<open>
  With \<open>extra_assert\<close> a receiver of the task that waits actively ends the simulation. The test reads an
  uninitialised variable unless the thread runs on the first processor.
\<close>

fun no_busy_waiter :: "tid list \<Rightarrow> 'z world_scheme \<Rightarrow> unit res" where
  "no_busy_waiter [] s = Inr ()"
| "no_busy_waiter (p # ps) s = bindE (is_thread_running p s) (\<lambda>r.
     if r \<and> doing_busy_wait (execs s p) then Inl (Panic ''espera activa'') else no_busy_waiter ps s)"

text \<open>No receiver waits: the message goes to the queue of received messages.\<close>

definition keep_message :: "taskid \<Rightarrow> box \<Rightarrow> tid \<Rightarrow> 'z sim_scheme \<Rightarrow> 'z sim_scheme res" where
  "keep_message k b t s =
     bindE (if extra_assert (plat s) then no_busy_waiter (task_threads s k) s else Inr ()) (\<lambda>_.
     Inr (upd_box b (\<lambda>q. q\<lparr>mess_recv := mess_recv q @ [t]\<rparr>) s))"

text \<open>What a message of an accelerator does: whether it is drawn, whether the receiver goes on, whether the host has a startup.\<close>

definition paraver_comm :: "t_send \<Rightarrow> bool \<Rightarrow> bool" where
  "paraver_comm m transf \<longleftrightarrow>
     \<not> (communic_id m = 0 \<and> CUDAEventEncoding_Is_CUDAComm (mess_tag m) \<and> transf) \<and>
     \<not> (OCLEventEncoding_Is_OCLComm (mess_tag m) \<and> communic_id m = 0 \<and> transf)"

definition partner_next_action :: "t_send \<Rightarrow> bool \<Rightarrow> bool \<Rightarrow> bool" where
  "partner_next_action m transf partner_host \<longleftrightarrow>
     \<not> (partner_host \<and> transf \<and> CUDAEventEncoding_Is_CUDAComm (mess_tag m)) \<or> OCLEventEncoding_Is_OCLComm (mess_tag m)"

definition host_startup :: "t_send \<Rightarrow> bool \<Rightarrow> bool" where
  "host_startup m transf \<longleftrightarrow> \<not> OCLEventEncoding_Is_OCLComm (mess_tag m) \<and>
     CUDAEventEncoding_Is_CUDAComm (mess_tag m) \<and> transf \<and> communic_id m \<noteq> 0"

text \<open>The host of a communication with an accelerator and the kernel; without either the variables are never written.\<close>

definition original_of :: "tid \<Rightarrow> 'z world_scheme \<Rightarrow> tid option" where
  "original_of t s = (if original_thread (threads s t) then Some t else twin_thread (execs s t))"

definition host_and_kernel :: "tid \<Rightarrow> tid \<Rightarrow> 'z world_scheme \<Rightarrow> (tid \<times> tid) res" where
  "host_and_kernel t p s =
     (let pick = (\<lambda>h k. case original_of h s of None \<Rightarrow> Inl NullDeref | Some x \<Rightarrow> Inr (x, k)) in
      if host (execs s t) then pick t p else if host (execs s p) then pick p t else Inl Uninit)"

definition start_host :: "tid \<Rightarrow> tid \<Rightarrow> nodeid \<Rightarrow> 'z sim_scheme \<Rightarrow> 'z sim_scheme res" where
  "start_host t p nd s =
     bindE (host_and_kernel t p s) (\<lambda>(h, k).
     bindE (compute_startup h (task_of (threads s h)) (task_of (threads s k)) nd nd 0 0 ACCELERATOR_COM_TYPE None s)
       (\<lambda>(x, s1).
        if x = 0 then Inr s1
        else com_timer (current_time s1 + x) h COM_TIMER_OUT
               (upd_account h (pay_latency x)
               (upd_exec h (\<lambda>e. e\<lparr>doing_acc_comm := True\<rparr>) (set_loose_cpu h False s1)))))"

definition hand_over :: "taskid \<Rightarrow> box \<Rightarrow> tid \<Rightarrow> tid \<Rightarrow> 'z comm_sim_scheme \<Rightarrow> 'z comm_sim_scheme res" where
  "hand_over k b p t s =
     (let m = sends s t;
          s1 = upd_account p (\<lambda>a. a\<lparr>n_bytes_recv := n_bytes_recv a + mess_size m, time_waiting_for_message :=
                 time_waiting_for_message a + (current_time s - start_wait_for_message (execs s p))\<rparr>) s
      in bindE (q_extract p (recvq (box_q b s1))) (\<lambda>q.
      let s2 = upd_box b (\<lambda>x. x\<lparr>recvq := q\<rparr>) s1;
          (lr, s3) = logical_receive_in (Of_task (task_of (threads s2 p))) (task_of (threads s2 t))
                       (threadid (execs s2 t)) (mess_tag m) (communic_id m) (logical_recv (execs s2 p)) s2;
          transf = transfer_block (acc_in_block_event (execs s3 t));
          s4 = (if paraver_comm m transf then set_last_paraver p (log_p2p t p lr s3) else s3)
      in
      bindE (if partner_next_action m transf (host (execs s4 p)) then
               bindE (next_action p s4) (\<lambda>s5.
               let (more, s6) = more_actions p s5 in
               if more then bindE (SCHEDULER_thread_to_ready p (set_loose_cpu p True s6)) (SCHEDULER_new_job p)
               else Inr s6)
             else Inr s4) (\<lambda>s7.
      let s8 = (if \<not> original_thread (threads s7 t) then upd_exec t (\<lambda>x. x\<lparr>marked_for_deletion := True\<rparr>) s7 else s7)
      in if host_startup m transf then start_host t p (get_node_of_thread t s8) s8 else Inr s8)))"

definition message_received :: "tid \<Rightarrow> 'z comm_sim_scheme \<Rightarrow> 'z comm_sim_scheme res" where
  "message_received t s =
     bindE (locate_task (dest (sends s t)) s) (\<lambda>k.
     let s1 = upd_exec t (\<lambda>x. x\<lparr>physical_recv := current_time s\<rparr>) s in
     bindE (box_of k (dest_thread (sends s t)) s1) (\<lambda>b.
     bindE (locate_receiver b t s1) (\<lambda>found.
     case found of
       None \<Rightarrow> keep_message k b t s1
     | Some p \<Rightarrow> hand_over k b p t s1)))"

text \<open>
  \<open>COM_TIMER_OUT\<close>: the transfer is over. A thread that is no copy goes on with its next action; the copy of the
  sender is deleted when its message was handed over.
\<close>

definition COMMUNIC_COM_TIMER_OUT :: "(tid \<Rightarrow> 'z comm_sim_scheme \<Rightarrow> 'z comm_sim_scheme run) \<Rightarrow> tid
    \<Rightarrow> 'z comm_sim_scheme \<Rightarrow> 'z comm_sim_scheme run" where
  "COMMUNIC_COM_TIMER_OUT os_completed t s =
     bindR (if original_thread (threads s t) \<and> \<not> doing_acc_comm (execs s t) then Some (duplicate_thread t s)
            else retR (t, s)) (\<lambda>(copy, s1).
     bindR (case actions (execs s1 t) of
              [] \<Rightarrow> failR NullDeref
            | a # _ \<Rightarrow>
                let s2 = upd_exec t (\<lambda>x. x\<lparr>doing_acc_comm := False\<rparr>) s1 in
                (case a of
                   AC_SEND _ \<Rightarrow> if doing_acc_comm (execs s1 t) then retR s2 else Some (message_received copy s1)
                 | AC_MPI_OS _ \<Rightarrow> os_completed copy s1
                 | AC_GLOBAL_OP _ \<Rightarrow> retR s2
                 | AC_RECV _ \<Rightarrow> retR s2
                 | _ \<Rightarrow> retR s1)) (\<lambda>s3.
     if \<not> doing_acc_comm (execs s3 t) \<and> (acc_sndr_sync (execs s3 t) \<or> original_thread (threads s3 t))
     then Some (continue_thread t (upd_exec t (\<lambda>x. x\<lparr>acc_sndr_sync := False\<rparr>) s3))
     else if \<not> original_thread (threads s3 t) \<and> marked_for_deletion (execs s3 t)
     then Some (delete_duplicate_thread t s3)
     else retR s3))"

section \<open>Is the message there?\<close>

definition message_fits :: "tid \<Rightarrow> tid \<Rightarrow> 'z world_scheme \<Rightarrow> bool" where
  "message_fits u t s \<longleftrightarrow>
     (let r = recvs s t; m = sends s u in
      (threadid (execs s u) = ori_thread r \<or> ori_thread r = - 1) \<and> (task_of (threads s u) = ori r \<or> ori r = - 1) \<and>
      recv_tag r = mess_tag m \<and> recv_communic_id r = communic_id m \<and>
      (dest_thread m = threadid (execs s t) \<or> dest_thread m = - 1))"

definition accept_message :: "box \<Rightarrow> tid \<Rightarrow> tid \<Rightarrow> 'z comm_sim_scheme \<Rightarrow> 'z comm_sim_scheme res" where
  "accept_message b u t s =
     (let r = recvs s t;
          s1 = upd_account t (\<lambda>a. a\<lparr>n_bytes_recv := n_bytes_recv a + mess_size (sends s u)\<rparr>) s
      in bindE (q_extract u (mess_recv (box_q b s1))) (\<lambda>q.
         bindE (COMMUNICATION_INFO SCH_INFO_RECV_HIT u (Some t) (upd_box b (\<lambda>x. x\<lparr>mess_recv := q\<rparr>) s1)) (\<lambda>s2.
         let (lr, s3) = logical_receive_in b (ori r) (ori_thread r) (recv_tag r) (recv_communic_id r)
                          (logical_recv (execs s2 t)) s2
         in delete_duplicate_thread u (set_last_paraver t (log_p2p u t lr s3)))))"

text \<open>
  After the search, successful or not, the policy is told of a miss, with the first thread of the source; a receive
  from any source has none.
\<close>

definition tell_miss :: "tid \<Rightarrow> 'z world_scheme \<Rightarrow> 'z world_scheme res" where
  "tell_miss t s = bindE (locate_task (ori (recvs s t)) s) (\<lambda>k.
     case task_threads s k of [] \<Rightarrow> Inl OutOfBounds | u # _ \<Rightarrow> COMMUNICATION_INFO SCH_INFO_RECV_MISS u (Some t) s)"

definition is_message_awaiting :: "tid \<Rightarrow> 'z comm_sim_scheme \<Rightarrow> (bool \<times> 'z comm_sim_scheme) res" where
  "is_message_awaiting t s =
     (let r = recvs s t; mpi = (ori_thread r = - 1); k = task_of (threads s t); b = own_box t mpi s;
          ok = (\<lambda>u. (dest_thread (sends s u) = - 1 \<longleftrightarrow> mpi) \<and> dest (sends s u) = k)
      in if \<not> mpi \<and> ori r \<noteq> k then Inl AssertFailed
         else bindE (scan ok (\<lambda>u. message_fits u t s) (mess_recv (box_q b s))) (\<lambda>found.
           case found of
             None \<Rightarrow> bindE (tell_miss t s) (\<lambda>s1. Inr (False, s1))
           | Some u \<Rightarrow> bindE (accept_message b u t s) (\<lambda>s1. bindE (tell_miss t s1) (\<lambda>s2. Inr (True, s2)))))"

section \<open>Rendez-vous\<close>

text \<open>
  A send that finds no receive announces itself with a copy of its thread in \<open>send_without_recv\<close>, a receive that
  finds no announced send in \<open>recv_without_send\<close>. The answer is whether a synchronous send waits for the receive, or whether an
  \<open>IRECV\<close> waits for the send.
\<close>

definition announced :: "tid \<Rightarrow> 'z world_scheme \<Rightarrow> tid \<Rightarrow> bool" where
  "announced t s u \<longleftrightarrow> dest (sends s u) = task_of (threads s t) \<and>
     (dest_thread (sends s u) = - 1 \<longleftrightarrow> ori_thread (recvs s t) = - 1)"

definition COMMUNIC_recv_reached :: "tid \<Rightarrow> 'z world_scheme \<Rightarrow> (bool \<times> 'z world_scheme) res" where
  "COMMUNIC_recv_reached t s =
     (let r = recvs s t; mpi = (ori_thread r = - 1); b = own_box t mpi s
      in if \<not> mpi \<and> ori r \<noteq> task_of (threads s t) then Inl AssertFailed
         else bindE (scan (announced t s) (\<lambda>u. message_fits u t s) (send_without_recv (box_q b s))) (\<lambda>found.
           case found of
             Some u \<Rightarrow>
               bindE (q_extract u (send_without_recv (box_q b s))) (\<lambda>q.
               bindE (delete_duplicate_thread u (upd_box b (\<lambda>x. x\<lparr>send_without_recv := q\<rparr>) s)) (\<lambda>s1.
               Inr (rendez_vous (sends s u), s1)))
           | None \<Rightarrow>
               bindE (duplicate_thread t s) (\<lambda>(c, s1).
               Inr (False, upd_box b (\<lambda>x. x\<lparr>recv_without_send := recv_without_send x @ [c]\<rparr>) s1))))"

definition is_irecv :: "tid \<Rightarrow> 'z world_scheme \<Rightarrow> bool" where
  "is_irecv p s \<longleftrightarrow> (case actions (execs s p) of AC_IRECV _ # _ \<Rightarrow> True | _ \<Rightarrow> False)"

definition COMMUNIC_send_reached :: "box \<Rightarrow> tid \<Rightarrow> 'z world_scheme \<Rightarrow> (bool \<times> 'z world_scheme) res" where
  "COMMUNIC_send_reached b t s =
     bindE (scan (\<lambda>p. task_of (threads s p) = dest (sends s t)) (\<lambda>p. takes_from p t s)
             (recv_without_send (box_q b s))) (\<lambda>found.
     case found of
       Some p \<Rightarrow>
         bindE (q_extract p (recv_without_send (box_q b s))) (\<lambda>q.
         bindE (delete_duplicate_thread p (upd_box b (\<lambda>x. x\<lparr>recv_without_send := q\<rparr>) s)) (\<lambda>s1.
         Inr (is_irecv p s, s1)))
     | None \<Rightarrow>
         bindE (duplicate_thread t s) (\<lambda>(c, s1).
         Inr (False, upd_box b (\<lambda>x. x\<lparr>send_without_recv := send_without_recv x @ [c]\<rparr>) s1)))"

text \<open>The sender \<open>u\<close> that waits for a rendez-vous can start for the receive of \<open>t\<close>.\<close>

definition offers :: "tid \<Rightarrow> tid \<Rightarrow> 'z world_scheme \<Rightarrow> bool" where
  "offers u t s \<longleftrightarrow>
     (let r = recvs s t; m = sends s u in
      (threadid (execs s u) = ori_thread r \<or> ori_thread r = - 1) \<and> mess_tag m = recv_tag r \<and>
      communic_id m = recv_communic_id r \<and> (dest_thread m = threadid (execs s t) \<or> dest_thread m = - 1))"

definition offers_task :: "tid \<Rightarrow> tid \<Rightarrow> 'z world_scheme \<Rightarrow> bool" where
  "offers_task u t s \<longleftrightarrow> offers u t s \<and> (dest (sends s u) = task_of (threads s t) \<or> dest (sends s u) = - 1)"

text \<open>
  The search for any source steps to the next sender after it found one, and goes on with the first sender of every
  other task.
\<close>

fun any_scan :: "('a \<Rightarrow> bool) \<Rightarrow> ('a \<Rightarrow> bool) \<Rightarrow> bool \<Rightarrow> 'a list \<Rightarrow> (bool \<times> 'a option) res" where
  "any_scan ok fits trobat [] = Inr (trobat, None)"
| "any_scan ok fits trobat (u # us) =
     (if trobat then Inr (True, Some u) else if \<not> ok u then Inl AssertFailed else any_scan ok fits (fits u) us)"

fun any_source :: "tid \<Rightarrow> bool \<Rightarrow> (taskid \<times> tid option) res \<Rightarrow> taskid list \<Rightarrow> 'z world_scheme \<Rightarrow> (taskid \<times> tid option) res" where
  "any_source t trobat prev [] s = prev"
| "any_source t trobat prev (k # ks) s =
     bindE (any_scan (\<lambda>u. dest_thread (sends s u) = - 1) (\<lambda>u. offers_task u t s) trobat (sendq (task_q s k)))
       (\<lambda>(trobat', u). any_source t trobat' (Inr (k, u)) ks s)"

definition locate_sender :: "tid \<Rightarrow> 'z world_scheme \<Rightarrow> (taskid \<times> tid option) res" where
  "locate_sender t s =
     (let i = ori (recvs s t) in
      if i \<noteq> - 1 then
        bindE (locate_task i s) (\<lambda>k.
        bindE (scan (\<lambda>u. dest_thread (sends s u) = - 1 \<and> task_of (threads s u) = i \<and> i \<ge> 0 \<and> dest (sends s u) \<ge> 0)
                 (\<lambda>u. offers_task u t s) (sendq (task_q s k))) (\<lambda>u. Inr (k, u)))
      else any_source t False (Inl Uninit) (map int [0..<nat (tasks_count s)]) s)"

text \<open>The communication starts; \<open>go_on\<close> says that the sender itself continues with its next action.\<close>

definition launch :: "tid \<Rightarrow> 'z sim_scheme \<Rightarrow> 'z sim_scheme run" where
  "launch c s = really_send_to c (set_last_paraver c
     (upd_comm c (\<lambda>x. x\<lparr>initial_communication_time := current_time s\<rparr>) s))"

definition Start_communication_real_MPI_transfer :: "tid \<Rightarrow> 'z sim_scheme \<Rightarrow> 'z sim_scheme run" where
  "Start_communication_real_MPI_transfer t s =
     bindR (Some (locate_sender t s)) (\<lambda>(k, found).
     case found of
       None \<Rightarrow> retR s
     | Some u \<Rightarrow>
         bindR (Some (q_extract u (sendq (task_q s k)))) (\<lambda>q.
         let s1 = upd_box (Of_task k) (\<lambda>x. x\<lparr>sendq := q\<rparr>) s; orig = original_thread (threads s1 u) in
         bindR (if orig then Some (duplicate_thread u (set_last_paraver u s1)) else retR (u, s1)) (\<lambda>(c, s2).
         bindR (launch c s2) (\<lambda>s3.
         if original_thread (threads s3 u) then Some (continue_thread u s3) else retR s3))))"

definition Start_communication_dependency_synchronization :: "tid \<Rightarrow> 'z sim_scheme \<Rightarrow> 'z sim_scheme run" where
  "Start_communication_dependency_synchronization t s =
     (let r = recvs s t in
      if ori r \<noteq> task_of (threads s t) then failR AssertFailed
      else
      bindR (Some (locate_thread_of_task (task_of (threads s t)) (ori_thread r) s)) (\<lambda>th.
      bindR (Some (scan (\<lambda>u. dest (sends s u) = ori r \<and> task_of (threads s u) = ori r) (\<lambda>u. offers u t s)
                    (sendq (thread_q s th)))) (\<lambda>found.
      case found of
        None \<Rightarrow> retR s
      | Some u \<Rightarrow>
          bindR (Some (q_extract u (sendq (thread_q s th)))) (\<lambda>q.
          let s1 = upd_box (Of_thread th) (\<lambda>x. x\<lparr>sendq := q\<rparr>) s;
              orig = original_thread (threads s1 u);
              s2 = (if orig \<and> (CUDAEventEncoding_Is_CUDATransferBlock (acc_in_block_event (execs s1 u)) \<or>
                               OCLEventEncoding_Is_OCLTransferBlock (acc_in_block_event (execs s1 t)))
                    then upd_exec u (\<lambda>x. x\<lparr>acc_sndr_sync := True\<rparr>) s1 else s1);
              s3 = (if orig \<and> \<not> host (execs s2 u) \<and> \<not> kernel (execs s2 u) then set_last_paraver u s2 else s2)
          in
          bindR (if orig \<and> \<not> acc_sndr_sync (execs s3 u) then Some (duplicate_thread u s3) else retR (u, s3)) (\<lambda>(c, s4).
          bindR (launch c s4) (\<lambda>s5.
          if \<not> acc_sndr_sync (execs s5 u) \<and> original_thread (threads s5 u) then Some (continue_thread u s5) else retR s5))))))"

definition Start_communication_if_partner_ready_for_rendez_vous :: "tid \<Rightarrow> 'z sim_scheme \<Rightarrow> 'z sim_scheme run" where
  "Start_communication_if_partner_ready_for_rendez_vous t s =
     (if ori_thread (recvs s t) = - 1 then Start_communication_real_MPI_transfer t s
      else Start_communication_dependency_synchronization t s)"

section \<open>Send\<close>

text \<open>The phases before an operation: the thread has to spend a time first (\<open>Inl\<close>), or not (\<open>Inr\<close>).\<close>

definition external_or :: "com_type \<Rightarrow> com_type \<Rightarrow> nodeid \<Rightarrow> nodeid \<Rightarrow> taskid \<Rightarrow> taskid \<Rightarrow> int \<Rightarrow> int
    \<Rightarrow> 'z sim_scheme \<Rightarrow> com_type" where
  "external_or when kind nd_s nd_r tk_s tk_r tag sz s =
     (case external_kind (plat s) of
        Some g \<Rightarrow> if kind = when then g nd_s nd_r tk_s tk_r tag sz else kind
      | None \<Rightarrow> kind)"

definition copy_phase :: "tid \<Rightarrow> nodeid \<Rightarrow> int \<Rightarrow> com_type \<Rightarrow> bool \<Rightarrow> 'z sim_scheme \<Rightarrow> (bool \<times> 'z sim_scheme) res" where
  "copy_phase t nd sz kind mark s =
     (if DATA_COPY_enabled (plat s) \<and> sz \<le> DATA_COPY_message_size (plat s) \<and> \<not> copy_done (execs s t) then
        bindE (compute_copy_latency nd (to_int sz) kind s) (\<lambda>ti.
        if ti \<noteq> 0 then bindE (spend (\<lambda>x. x\<lparr>doing_copy := True\<rparr>) t ti s) (\<lambda>s1. Inr (False, s1))
        else Inr (True, if mark then upd_exec t (\<lambda>x. x\<lparr>copy_done := True\<rparr>) s else s))
      else Inr (True, s))"

definition roundtrip_phase :: "tid \<Rightarrow> com_type \<Rightarrow> 'z sim_scheme \<Rightarrow> (bool \<times> 'z sim_scheme) res" where
  "roundtrip_phase t kind s =
     (if RTT_enabled (plat s) \<and> rendez_vous (sends s t) \<and> kind = INTERNAL_NETWORK_COM_TYPE \<and>
         \<not> roundtrip_done (execs s t) then
        if RTT_time (plat s) \<noteq> 0
        then bindE (spend (\<lambda>x. x\<lparr>doing_roundtrip := True\<rparr>) t (RTT_time (plat s) / 2) s) (\<lambda>s1. Inr (False, s1))
        else Inr (True, upd_exec t (\<lambda>x. x\<lparr>roundtrip_done := True\<rparr>) s)
      else Inr (True, s))"

definition send_startup_phase :: "tid \<Rightarrow> taskid \<Rightarrow> com_type \<Rightarrow> connid option \<Rightarrow> 'z sim_scheme \<Rightarrow> (bool \<times> 'z sim_scheme) res" where
  "send_startup_phase t k kind conn s =
     (if startup_done (execs s t) then Inr (True, s)
      else
        let m = sends s t; own = task_of (threads s t); now = current_time s in
        bindE (compute_startup t own k (node_of_task s own) (node_of_task s k) (mess_tag m) (to_int (mess_size m)) kind conn s)
          (\<lambda>(x, s1).
           if x \<noteq> 0 then
             bindE (spend (start_startup (mess_tag m)) t x (upd_exec t (\<lambda>e. e\<lparr>logical_send := now\<rparr>) s1)) (\<lambda>s2.
             Inr (False, s2))
           else Inr (True, upd_exec t (\<lambda>e. e\<lparr>startup_done := True, logical_send := now\<rparr>) s1)))"

definition then_phase :: "(bool \<times> 's) res \<Rightarrow> ('s \<Rightarrow> (bool \<times> 's) res) \<Rightarrow> (bool \<times> 's) res" where
  "then_phase r f = bindE r (\<lambda>(go, s). if go then f s else Inr (False, s))"

text \<open>A copy of the thread sends; the thread goes on.\<close>

definition send_copy :: "tid \<Rightarrow> 'z sim_scheme \<Rightarrow> 'z sim_scheme run" where
  "send_copy t s = bindR (Some (duplicate_thread t s)) (\<lambda>(c, s1). launch c s1)"

definition wait_for_receiver :: "tid \<Rightarrow> 'z sim_scheme \<Rightarrow> 'z sim_scheme res" where
  "wait_for_receiver t s =
     (let b = own_box t (dest_thread (sends s t) = - 1) s; put = (\<lambda>c. upd_box b (\<lambda>x. x\<lparr>sendq := sendq x @ [c]\<rparr>)) in
      if immediate (sends s t) then bindE (duplicate_thread t s) (\<lambda>(c, s1). continue_thread t (put c s1))
      else Inr (put t s))"

definition send_synchronously :: "tid \<Rightarrow> 'z sim_scheme \<Rightarrow> 'z sim_scheme run" where
  "send_synchronously t s =
     (let sync = original_thread (threads s t) \<and> transfer_block (acc_in_block_event (execs s t)) in
      bindR (if sync then really_send_to t (upd_exec t (\<lambda>x. x\<lparr>acc_sndr_sync := True\<rparr>) s) else send_copy t s) (\<lambda>s1.
      if acc_sndr_sync (execs s1 t) then retR s1 else Some (continue_thread t s1)))"

text \<open>What a send does when its phases are over.\<close>

definition send_now :: "box \<Rightarrow> tid \<Rightarrow> 'z sim_scheme \<Rightarrow> 'z sim_scheme run" where
  "send_now b t s =
     (let s1 = upd_account t (\<lambda>a. a\<lparr>n_sends := n_sends a + 1, n_bytes_send := n_bytes_send a + mess_size (sends s t)\<rparr>) s in
      bindR (Some (COMMUNIC_send_reached b t s1)) (\<lambda>(hi_ha_irecv, s2).
      bindR (Some (locate_receiver b t s2)) (\<lambda>partner.
      bindR (Some (if partner \<noteq> None then COMMUNICATION_INFO SCH_INFO_SEND t None s2 else Inr s2)) (\<lambda>s3.
      if rendez_vous (sends s3 t) then
        (if \<not> hi_ha_irecv \<and> partner = None then Some (wait_for_receiver t s3) else send_synchronously t s3)
      else bindR (send_copy t s3) (\<lambda>s4. Some (continue_thread t s4))))))"

definition COMMUNIC_send :: "tid \<Rightarrow> 'z sim_scheme \<Rightarrow> 'z sim_scheme run" where
  "COMMUNIC_send t s = (case actions (execs s t) of
      AC_SEND m # as \<Rightarrow>
        let own = task_of (threads s t) in
        bindR (Some (locate_task (dest m) s)) (\<lambda>k.
        bindR (Some (box_of k (dest_thread m) s)) (\<lambda>b.
        bindR (Some (get_communication_type own k (mess_tag m) (to_int (mess_size m)) s)) (\<lambda>(kind0, conn).
        let kind = external_or INTERNAL_NETWORK_COM_TYPE kind0 (node_of_task s own) (node_of_task s k) own k
                     (mess_tag m) (to_int (mess_size m)) s;
            s1 = set_actions t (AC_SEND (m\<lparr>comm_type := kind\<rparr>) # as) s
        in
        bindR (Some (then_phase (then_phase (send_startup_phase t k kind conn s1)
                 (copy_phase t (node_of_task s own) (mess_size m) kind True))
                 (roundtrip_phase t kind))) (\<lambda>(go, s2).
        if \<not> go then retR s2
        else send_now b t (upd_exec t (\<lambda>x. x\<lparr>startup_done := False, copy_done := False, roundtrip_done := False\<rparr>) s2)))))
    | [] \<Rightarrow> failR NullDeref
    | _ \<Rightarrow> failR (Panic ''Calling COMMUNIC_send and action is not Send''))"

section \<open>Receive\<close>

text \<open>The kind of the communication of a receive; \<open>when\<close> is the kind an external library may change.\<close>

definition recv_kind :: "com_type \<Rightarrow> tid \<Rightarrow> 'z sim_scheme \<Rightarrow> (nodeid \<times> com_type \<times> connid option) res" where
  "recv_kind when t s =
     (let r = recvs s t; own = task_of (threads s t) in
      if ori r < 0 \<or> ori r \<ge> tasks_count s then Inl (Panic ''Incorrect task identifier'')
      else
      let nd_s = node_of_task s (ori r) in
      bindE (locate_task (ori r) s) (\<lambda>src.
      bindE (get_communication_type src own (recv_tag r) (to_int (recv_size r)) s) (\<lambda>(kind, conn).
      Inr (nd_s, external_or when kind nd_s (get_node_of_thread t s) (ori r) own (recv_tag r) (to_int (recv_size r)) s, conn))))"

definition recv_startup_phase :: "(timer \<Rightarrow> t_exec \<Rightarrow> t_exec) \<Rightarrow> bool \<Rightarrow> tid \<Rightarrow> nodeid \<Rightarrow> com_type \<Rightarrow> connid option
    \<Rightarrow> 'z sim_scheme \<Rightarrow> (bool \<times> 'z sim_scheme) res" where
  "recv_startup_phase note_time acc t nd kind conn s =
     (if startup_done (execs s t) then Inr (True, s)
      else
        let r = recvs s t; own = task_of (threads s t); now = current_time s in
        bindE (compute_startup t (ori r) own nd (get_node_of_thread t s) (recv_tag r) (to_int (recv_size r)) kind conn s)
          (\<lambda>(x, s1).
           let s2 = upd_exec t (note_time now) s1 in
           if x \<noteq> 0 then
             bindE (spend (if acc then start_startup (recv_tag r) else (\<lambda>e. e\<lparr>doing_startup := True\<rparr>)) t x s2) (\<lambda>s3.
             Inr (False, s3))
           else Inr (True, upd_exec t (\<lambda>e. e\<lparr>startup_done := True\<rparr>) s2)))"

text \<open>Take the message that is there, or let the sender start and wait for it.\<close>

definition take_or_wait :: "tid \<Rightarrow> 'z comm_sim_scheme \<Rightarrow> 'z comm_sim_scheme run" where
  "take_or_wait t s =
     bindR (Some (is_message_awaiting t s)) (\<lambda>(there, s1).
     if there then
       Some (continue_thread t (upd_account t (\<lambda>a. a\<lparr>n_recvs_on_processor := n_recvs_on_processor a + 1\<rparr>) s1))
     else
       bindR (Start_communication_if_partner_ready_for_rendez_vous t s1) (\<lambda>s2.
       if busywait_before_block (sch_of t s2) then Some (SCHEDULER_thread_to_busy_wait t s2)
       else retR (upd_box (own_box t (ori_thread (recvs s2 t) = - 1) s2) (\<lambda>q. q\<lparr>recvq := recvq q @ [t]\<rparr>)
              (upd_exec t (\<lambda>x. x\<lparr>start_wait_for_message := current_time s2\<rparr>)
                (upd_account t (\<lambda>a. a\<lparr>n_recvs_must_wait := n_recvs_must_wait a + 1\<rparr>) s2)))))"

definition count_recv :: "tid \<Rightarrow> 'z sim_scheme \<Rightarrow> 'z sim_scheme" where
  "count_recv t s = upd_account t (\<lambda>a. a\<lparr>n_recvs := n_recvs a + 1\<rparr>)
     (upd_exec t (\<lambda>x. x\<lparr>startup_done := False, copy_done := False\<rparr>) s)"

definition COMMUNIC_recv :: "tid \<Rightarrow> 'z comm_sim_scheme \<Rightarrow> 'z comm_sim_scheme run" where
  "COMMUNIC_recv t s = (case actions (execs s t) of
      AC_RECV m # as \<Rightarrow>
        bindR (Some (recv_kind INTERNAL_NETWORK_COM_TYPE t s)) (\<lambda>(nd, kind, conn).
        let s1 = set_actions t (AC_RECV (m\<lparr>recv_comm_type := kind\<rparr>) # as) s in
        bindR (Some (then_phase (recv_startup_phase (\<lambda>now x. x\<lparr>logical_recv := now\<rparr>) True t nd kind conn s1)
                 (copy_phase t nd (recv_size m) kind True))) (\<lambda>(go, s2).
        if \<not> go then retR s2
        else bindR (Some (COMMUNIC_recv_reached t (count_recv t s2))) (\<lambda>(_, s3). take_or_wait t s3)))
    | [] \<Rightarrow> failR NullDeref
    | _ \<Rightarrow> failR (Panic ''Calling COMMUNIC_recv and action is not receive''))"

text \<open>
  \<open>wait\<close> does not announce itself, takes the external network where the others take the internal one, and notes the time of the receive only
  with the option.
\<close>

definition COMMUNIC_wait :: "tid \<Rightarrow> 'z comm_sim_scheme \<Rightarrow> 'z comm_sim_scheme run" where
  "COMMUNIC_wait t s = (case actions (execs s t) of
      AC_WAIT m # as \<Rightarrow>
        bindR (Some (recv_kind EXTERNAL_NETWORK_COM_TYPE t s)) (\<lambda>(nd, kind, conn).
        let s1 = set_actions t (AC_WAIT (m\<lparr>recv_comm_type := kind\<rparr>) # as) s in
        bindR (Some (then_phase (recv_startup_phase (\<lambda>_ x. x) False t nd kind conn s1)
                 (copy_phase t nd (recv_size m) kind False))) (\<lambda>(go, s2).
        if \<not> go then retR s2
        else
          let s3 = count_recv t s2 in
          take_or_wait t (if wait_logical_recv (plat s3)
                          then upd_exec t (\<lambda>x. x\<lparr>logical_recv := current_time s3\<rparr>) s3 else s3)))
    | [] \<Rightarrow> failR NullDeref
    | _ \<Rightarrow> failR (Panic ''Calling COMMUNIC_wait and action is not Wait''))"

text \<open>\<open>IRECV\<close> only announces the receive and starts a synchronous send that waits for it.\<close>

definition COMMUNIC_Irecv :: "tid \<Rightarrow> 'z sim_scheme \<Rightarrow> 'z sim_scheme run" where
  "COMMUNIC_Irecv t s = (case actions (execs s t) of
      AC_IRECV m # as \<Rightarrow>
        bindR (Some (COMMUNIC_recv_reached t s)) (\<lambda>(hi_ha_send_sync, s1).
        let s2 = (if wait_logical_recv (plat s1) then s1
                  else upd_box (own_box t (ori_thread m = - 1) s1)
                         (\<lambda>q. q\<lparr>irecvs_executed := irecvs_executed q @ [(recvs s1 t, current_time s)]\<rparr>) s1) in
        bindR (if hi_ha_send_sync then Start_communication_if_partner_ready_for_rendez_vous t s2 else retR s2) (\<lambda>s3.
        Some (continue_thread t s3)))
    | [] \<Rightarrow> failR NullDeref
    | _ \<Rightarrow> failR (Panic ''Calling COMMUNIC_Irecv and action is not Ireceive''))"

text \<open>The operations of the scheduler for messages.\<close>

definition message_ops :: "'z comm_sim_scheme ops \<Rightarrow> 'z comm_sim_scheme ops" where
  "message_ops M = M\<lparr>do_send := COMMUNIC_send, do_recv := COMMUNIC_recv, do_irecv := COMMUNIC_Irecv,
     do_wait := COMMUNIC_wait\<rparr>"

text \<open>The timers: \<open>rest\<close> are the ends of collective operations and of one-sided operations.\<close>

definition message_timers :: "(tid \<Rightarrow> taskid option) \<Rightarrow> 'z comm_sim_scheme others
    \<Rightarrow> (tid \<Rightarrow> 'z comm_sim_scheme \<Rightarrow> 'z comm_sim_scheme run) \<Rightarrow> (int \<Rightarrow> tid \<Rightarrow> 'z comm_sim_scheme \<Rightarrow> 'z comm_sim_scheme run)
    \<Rightarrow> int \<Rightarrow> tid \<Rightarrow> 'z comm_sim_scheme \<Rightarrow> 'z comm_sim_scheme run" where
  "message_timers w g os rest v t s = COMMUNIC_general_timer w g
     (\<lambda>v t. if v = COM_TIMER_OUT \<or> v = RMA_TIMER_OUT then COMMUNIC_COM_TIMER_OUT os t else rest v t) v t s"

end
