(* ===== verification/CollCost.thy ===== *)
theory CollCost
  imports MessageCost "HOL-Library.Signed_Division"
begin

text \<open>
  The time of a collective operation (\<^verbatim>\<open>communic.c\<close>: \<open>provide_log\<close>, \<open>compute_contention_stage\<close>,
  \<open>calcula_fan\<close>, \<open>calcula_temps_maxim_intra_nodes\<close>, \<open>calcula_maxim_flight_times\<close>, and the sums of
  \<open>calcula_temps_operacio_global\<close>). An operation gathers data to the root (fan in) and spreads the result (fan out), inside the
  nodes, between the nodes of each machine and between machines; each phase has a model of its cost and a choice of the size.
\<close>

section \<open>Phases\<close>

definition GOP_MODEL_0 :: int where "GOP_MODEL_0 = 0"
definition GOP_MODEL_CTE :: int where "GOP_MODEL_CTE = 1"
definition GOP_MODEL_LIN :: int where "GOP_MODEL_LIN = 2"
definition GOP_MODEL_LOG :: int where "GOP_MODEL_LOG = 3"
definition GOP_SIZE_CURR :: int where "GOP_SIZE_CURR = 0"
definition GOP_SIZE_MIN :: int where "GOP_SIZE_MIN = 1"
definition GOP_SIZE_MAX :: int where "GOP_SIZE_MAX = 2"
definition GOP_SIZE_MEAN :: int where "GOP_SIZE_MEAN = 3"
definition GOP_SIZE_2MAX :: int where "GOP_SIZE_2MAX = 4"
definition GOP_SIZE_SIR :: int where "GOP_SIZE_SIR = 5"

datatype fan = FAN_IN | FAN_OUT

record t_glop_info =
  FIN_model :: int
  FIN_size :: int
  FOUT_model :: int
  FOUT_size :: int

text \<open>The first \<open>i\<close> below \<open>n\<close> with \<open>2 ^ i \<ge> n\<close>.\<close>

definition provide_log :: "nat \<Rightarrow> nat" where
  "provide_log n = (case List.find (\<lambda>i. n \<le> 2 ^ i) [0..<n] of Some i \<Rightarrow> i | None \<Rightarrow> 0)"

text \<open>The pairs that communicate in one stage: \<open>j\<close> steps through the senders.\<close>

function parallel_comms :: "nat \<Rightarrow> nat \<Rightarrow> nat \<Rightarrow> nat" where
  "parallel_comms step n j = (if 0 < step \<and> j + 1 < n then 1 + parallel_comms step n (j + step) else 0)"
  by pat_completeness auto
termination by (relation "measure (\<lambda>(step, n, j). n - j)") auto

declare parallel_comms.simps [simp del]

definition stage_steps :: "nat \<Rightarrow> nat \<Rightarrow> nat" where
  "stage_steps parallel busos = (if parallel mod busos = 0 then parallel div busos else 1 + parallel div busos)"

definition compute_contention_stage :: "nat \<Rightarrow> nat \<Rightarrow> nat" where
  "compute_contention_stage ntasks busos =
     (let loga = provide_log ntasks in
      if busos = 0 then loga
      else sum_list (map (\<lambda>i. stage_steps (parallel_comms (2 ^ (i + 1)) ntasks (2 ^ i - 1)) busos) [0..<loga]))"

text \<open>The size a phase counts with; the arithmetic is that of \<open>int\<close>.\<close>

definition int_fits :: "int \<Rightarrow> int res" where
  "int_fits x = (if - (2 ^ 31) \<le> x \<and> x < 2 ^ 31 then Inr x else Inl Overflow)"

definition fan_size :: "fan \<Rightarrow> int \<Rightarrow> int \<Rightarrow> int \<Rightarrow> int res" where
  "fan_size f size_type sent recvd =
     (if size_type = GOP_SIZE_CURR then Inr (case f of FAN_IN \<Rightarrow> sent | FAN_OUT \<Rightarrow> recvd)
      else if size_type = GOP_SIZE_MIN then Inr (min sent recvd)
      else if size_type = GOP_SIZE_MAX then Inr (max sent recvd)
      else if size_type = GOP_SIZE_MEAN then bindE (int_fits (sent + recvd)) (\<lambda>x. Inr (x sdiv 2))
      else if size_type = GOP_SIZE_2MAX then int_fits (2 * max sent recvd)
      else if size_type = GOP_SIZE_SIR then int_fits (sent + recvd)
      else Inl (Panic ''Invalid size FIN/OUT for global operation''))"

text \<open>The time of a phase and the latency in it.\<close>

definition calcula_fan :: "real \<Rightarrow> nat \<Rightarrow> nat \<Rightarrow> fan \<Rightarrow> int \<Rightarrow> int \<Rightarrow> int \<Rightarrow> int \<Rightarrow> real \<Rightarrow> (real \<times> real) res" where
  "calcula_fan bandw partners busos f model size_type sent recvd startup =
     bindE (fan_size f size_type (to_int sent) (to_int recvd)) (\<lambda>sz.
     let one = startup + real_of_int sz * bw_ns_per_byte bandw;
         repeated = (\<lambda>factor. Inr (one * factor, startup * factor))
     in if model = GOP_MODEL_0 then Inr (0, 0)
        else if model = GOP_MODEL_CTE then Inr (one, startup)
        else if model = GOP_MODEL_LIN then repeated (real partners - 1)
        else if model = GOP_MODEL_LOG then repeated (real (compute_contention_stage partners busos))
        else Inl (Panic ''Invalid model FIN/OUT for global operation''))"

text \<open>Gathering and spreading: the times of both and their latencies.\<close>

record fans =
  t_in :: real
  l_in :: real
  t_out :: real
  l_out :: real

definition no_fans :: fans where
  "no_fans = \<lparr>t_in = 0, l_in = 0, t_out = 0, l_out = 0\<rparr>"

definition total :: "fans \<Rightarrow> real" where
  "total f = t_in f + l_in f + t_out f + l_out f"

definition both_fans :: "real \<Rightarrow> nat \<Rightarrow> nat \<Rightarrow> t_glop_info \<Rightarrow> int \<Rightarrow> int \<Rightarrow> real \<Rightarrow> fans res" where
  "both_fans bandw partners busos info sent recvd startup =
     bindE (calcula_fan bandw partners busos FAN_IN (FIN_model info) (FIN_size info) sent recvd startup) (\<lambda>(a, b).
     bindE (calcula_fan bandw partners busos FAN_OUT (FOUT_model info) (FOUT_size info) sent recvd startup) (\<lambda>(c, d).
     Inr \<lparr>t_in = a, l_in = b, t_out = c, l_out = d\<rparr>))"

section \<open>Inside the nodes of a machine\<close>

text \<open>The greatest total so far is kept; \<open>tasks\<close> are the tasks of the communicator on each node.\<close>

fun calcula_temps_maxim_intra_nodes :: "platform \<Rightarrow> (nodeid \<Rightarrow> nat option) \<Rightarrow> t_glop_info \<Rightarrow> int \<Rightarrow> int \<Rightarrow> fans \<Rightarrow> nodeid list
    \<Rightarrow> fans res" where
  "calcula_temps_maxim_intra_nodes p tasks info sent recvd best [] = Inr best"
| "calcula_temps_maxim_intra_nodes p tasks info sent recvd best (nd # nds) =
     (case tasks nd of
        None \<Rightarrow> Inl NullDeref
      | Some n \<Rightarrow> bindE (both_fans (node_bandwidth p nd) n 0 info sent recvd (local_startup p nd)) (\<lambda>f.
          calcula_temps_maxim_intra_nodes p tasks info sent recvd (if total f > total best then f else best) nds))"

section \<open>Between the nodes of a machine\<close>

text \<open>
  One machine: its nodes, its buses, the node of the thread that stands for it. The times between the nodes are written only if the machine has
  several nodes and some of them take part; otherwise the variables keep the times of the machine before.
\<close>

record coll_machine =
  cm_machine :: machid
  cm_node :: nodeid
  cm_info :: "t_glop_info option"
  cm_several_nodes :: bool
  cm_nodes :: "nodeid list"
  cm_busos :: nat

definition inter_nodes :: "platform \<Rightarrow> int \<Rightarrow> int \<Rightarrow> coll_machine \<Rightarrow> t_glop_info \<Rightarrow> fans \<Rightarrow> fans res" where
  "inter_nodes p sent recvd m info previous =
     (if cm_several_nodes m \<and> cm_nodes m \<noteq> []
      then both_fans (remote_bandwidth p (cm_machine m)) (length (cm_nodes m)) (cm_busos m) info sent recvd
             (remote_startup p (cm_node m))
      else Inr previous)"

text \<open>The machine with the greatest sum gives the times inside and between its nodes.\<close>

fun machines_time :: "platform \<Rightarrow> (nodeid \<Rightarrow> nat option) \<Rightarrow> int \<Rightarrow> int \<Rightarrow> fans \<Rightarrow> fans \<times> fans \<Rightarrow> coll_machine list
    \<Rightarrow> (fans \<times> fans) res" where
  "machines_time p tasks sent recvd previous best [] = Inr best"
| "machines_time p tasks sent recvd previous best (m # ms) =
     (case cm_info m of
        None \<Rightarrow> Inl (Panic ''Global operation undefined'')
      | Some info \<Rightarrow>
          bindE (inter_nodes p sent recvd m info previous) (\<lambda>between.
          bindE (calcula_temps_maxim_intra_nodes p tasks info sent recvd no_fans (cm_nodes m)) (\<lambda>intra.
          machines_time p tasks sent recvd between
            (if total between + total intra > total (fst best) + total (snd best) then (intra, between) else best) ms)))"

section \<open>Between machines\<close>

fun calcula_maxim_flight_times :: "platform \<Rightarrow> machid \<Rightarrow> real \<times> real \<Rightarrow> machid list \<Rightarrow> real \<times> real" where
  "calcula_maxim_flight_times p own best [] = best"
| "calcula_maxim_flight_times p own best (m # ms) = calcula_maxim_flight_times p own
     (let i = flight_times p m own; x = flight_times p own m
      in (if i > fst best then i else fst best, if x > snd best then x else snd best)) ms"

text \<open>The latency, the time the resources are in use and the time of the operation.\<close>

definition add_times :: "fans \<Rightarrow> fans \<Rightarrow> fans \<Rightarrow> real \<times> real \<Rightarrow> timer \<times> timer \<times> timer" where
  "add_times intra between ext flight =
     (let temps = t_in intra + t_out intra + t_in between + t_out between + t_in ext + t_out ext;
          latencia = l_in intra + l_out intra + l_in between + l_out between + l_in ext + l_out ext
      in (latencia, temps, temps + (fst flight + snd flight)))"


section \<open>Stages\<close>

lemma parallel_comms_closed:
  "0 < step \<Longrightarrow> parallel_comms step n j = (if j + 1 < n then (n - 2 - j) div step + 1 else 0)"
proof (induction step n j rule: parallel_comms.induct)
  case (1 step n j)
  show ?case
  proof (cases "j + 1 < n")
    case True
    have "parallel_comms step n (j + step) = (n - 2 - j) div step"
    proof (cases "j + step + 1 < n")
      case t: True
      then have e: "n - 2 - (j + step) + step = n - 2 - j" by simp
      have "(n - 2 - (j + step) + step) div step = (n - 2 - (j + step)) div step + 1" using 1(2) by simp
      then have "(n - 2 - j) div step = (n - 2 - (j + step)) div step + 1" unfolding e .
      then show ?thesis using 1 True t by simp
    next
      case False
      then have "(n - 2 - j) div step = 0" using True by (intro div_less) linarith
      then show ?thesis using 1 True False by simp
    qed
    then show ?thesis using True 1(2) by (subst parallel_comms.simps) simp
  qed (subst parallel_comms.simps, simp)
qed

text \<open>The senders of the stage \<open>i\<close> are the numbers below \<open>n\<close> that are divisible by \<open>2 ^ i\<close> and not by \<open>2 ^ (i + 1)\<close>.\<close>

lemma parallel_comms_stage:
  "parallel_comms (2 ^ (i + 1)) n (2 ^ i - 1) = (n - 1) div 2 ^ i - (n - 1) div 2 ^ (i + 1)"
proof -
  define d where "d = (2::nat) ^ i"
  define y where "y = (n - 1) div d"
  have d: "0 < d" "(2::nat) ^ (i + 1) = d * 2" by (simp_all add: d_def)
  have half: "(n - 1) div (d * 2) = y div 2" by (simp add: y_def div_mult2_eq)
  have "parallel_comms (d * 2) n (d - 1) = y - y div 2"
  proof (cases "d < n")
    case True
    then have y: "1 \<le> y" using d div_le_mono[of d "n - 1" d] by (simp add: y_def)
    have "n - 2 - (d - 1) = n - 1 - d" using d by simp
    moreover have "(n - 1 - d) div d = y - 1" using True d by (simp add: y_def le_div_geq)
    ultimately have "parallel_comms (d * 2) n (d - 1) = (y - 1) div 2 + 1"
      using True d by (simp add: parallel_comms_closed div_mult2_eq)
    then show ?thesis using y by arith
  next
    case False
    then show ?thesis using d by (cases "n = 0") (simp_all add: parallel_comms_closed y_def)
  qed
  then show ?thesis unfolding d(2) d_def[symmetric] half y_def[symmetric] by simp
qed

lemma provide_log_ceiling:
  assumes "0 < n"
  shows "n \<le> 2 ^ provide_log n" "i < provide_log n \<Longrightarrow> 2 ^ i < n"
proof -
  have "\<exists>i\<in>set [0..<n]. n \<le> 2 ^ i"
  proof (rule bexI[of _ "n - 1"])
    show "n \<le> 2 ^ (n - 1)" using assms less_exp[of "n - 1"] by linarith
  qed (use assms in simp)
  then obtain k where k: "List.find (\<lambda>i. n \<le> 2 ^ i) [0..<n] = Some k"
    by (cases "List.find (\<lambda>i. n \<le> 2 ^ i) [0..<n]") (auto simp: find_None_iff)
  then have "n \<le> 2 ^ k" "\<forall>j<k. \<not> n \<le> 2 ^ j" by (auto simp: find_Some_iff)
  moreover have "provide_log n = k" by (simp add: provide_log_def k)
  ultimately show "n \<le> 2 ^ provide_log n" "i < provide_log n \<Longrightarrow> 2 ^ i < n" by auto
qed

lemma sum_stages:
  assumes "0 < n"
  shows "(\<Sum>i<provide_log n. parallel_comms (2 ^ (i + 1)) n (2 ^ i - 1)) = n - 1"
proof -
  have "(\<Sum>i<k. (n - 1) div 2 ^ i - (n - 1) div 2 ^ (i + 1)) = (n - 1) - (n - 1) div 2 ^ k" for k
  proof (induction k)
    case (Suc k)
    have telescope: "m - a + (a - b) = m - b" if "b \<le> a" "a \<le> m" for m a b :: nat using that by simp
    have "(n - 1) div 2 ^ (k + 1) \<le> (n - 1) div 2 ^ k" "(n - 1) div 2 ^ k \<le> n - 1"
      by (simp_all add: div_le_mono2)
    from telescope[OF this] Suc show ?case by simp
  qed simp
  moreover have "(n - 1) div 2 ^ provide_log n = 0"
    using provide_log_ceiling(1)[OF assms] assms by (intro div_less) linarith
  ultimately show ?thesis by (simp only: parallel_comms_stage)
qed

lemma stage_steps_ceiling:
  assumes "0 < b"
  shows "stage_steps p b \<le> p" "0 < p \<Longrightarrow> 1 \<le> stage_steps p b" "b \<le> c \<Longrightarrow> stage_steps p c \<le> stage_steps p b"
    "p \<le> b * stage_steps p b" "p \<le> b * x \<Longrightarrow> stage_steps p b \<le> x"
proof -
  have least: "stage_steps p b \<le> x" if "p \<le> b * x" "0 < b" for p b x
  proof -
    have "p div b \<le> x" using div_le_mono[OF that(1), of b] that(2) by simp
    moreover have "p div b \<noteq> x" if "p mod b \<noteq> 0"
      using \<open>p \<le> b * x\<close> that div_mult_mod_eq[of p b] by (metis add_gr_0 gr0I le_antisym less_add_same_cancel1 mult.commute not_le)
    ultimately show ?thesis by (auto simp: stage_steps_def)
  qed
  have enough: "p \<le> b * stage_steps p b" if "0 < b" for p b
  proof (cases "p mod b = 0")
    case True
    then show ?thesis using div_mult_mod_eq[of p b] by (simp add: stage_steps_def mult.commute)
  next
    case False
    have "p mod b \<le> b" using that by (simp add: less_imp_le)
    then have "p \<le> p div b * b + b" using div_mult_mod_eq[of p b] by linarith
    then show ?thesis using False by (simp add: stage_steps_def algebra_simps)
  qed
  show "stage_steps p b \<le> p" by (rule least) (use assms in auto)
  show "p \<le> b * stage_steps p b" by (rule enough[OF assms])
  then show "0 < p \<Longrightarrow> 1 \<le> stage_steps p b" by (cases "stage_steps p b") auto
  show "p \<le> b * x \<Longrightarrow> stage_steps p b \<le> x" by (rule least[OF _ assms])
  assume "b \<le> c"
  show "stage_steps p c \<le> stage_steps p b"
  proof (rule least)
    show "p \<le> c * stage_steps p b"
      using enough[OF assms, of p] \<open>b \<le> c\<close> mult_le_mono1[of b c "stage_steps p b"] by linarith
  qed (use assms \<open>b \<le> c\<close> in linarith)
qed

lemma contention_sum:
  "0 < b \<Longrightarrow> compute_contention_stage n b = (\<Sum>i<provide_log n. stage_steps (parallel_comms (2 ^ (i + 1)) n (2 ^ i - 1)) b)"
  by (simp add: compute_contention_stage_def Let_def sum_list_sum_nth atLeast0LessThan)

text \<open>
  Property C26. The stages of the logarithmic model for \<open>n\<close> partners: with unlimited buses the binary logarithm rounded up,
  with one bus \<open>n - 1\<close>, as many as in the linear model, between the two for every other number of buses, and never
  more when there are more buses.
\<close>

theorem contention_stages_between_log_and_linear:
  assumes "0 < n"
  shows "n \<le> 2 ^ compute_contention_stage n 0 \<and> (\<forall>i<compute_contention_stage n 0. 2 ^ i < n) \<and>
    compute_contention_stage n 1 = n - 1 \<and>
    (\<forall>b c. 0 < b \<and> b \<le> c \<longrightarrow> compute_contention_stage n 0 \<le> compute_contention_stage n c \<and>
       compute_contention_stage n c \<le> compute_contention_stage n b \<and> compute_contention_stage n b \<le> n - 1)"
proof (intro conjI allI impI)
  have z: "compute_contention_stage n 0 = provide_log n" by (simp add: compute_contention_stage_def)
  show "n \<le> 2 ^ compute_contention_stage n 0" unfolding z by (rule provide_log_ceiling(1)[OF assms])
  show "2 ^ i < n" if "i < compute_contention_stage n 0" for i
    using that unfolding z by (rule provide_log_ceiling(2)[OF assms])
  show "compute_contention_stage n 1 = n - 1"
    using sum_stages[OF assms] by (simp add: contention_sum stage_steps_def)
  fix b c :: nat assume bc: "0 < b \<and> b \<le> c"
  then have c: "0 < c" by linarith
  have p: "0 < parallel_comms (2 ^ (i + 1)) n (2 ^ i - 1)" if "i < provide_log n" for i
    using provide_log_ceiling(2)[OF assms that] by (simp add: parallel_comms_closed)
  have "(\<Sum>i<provide_log n. 1) \<le> compute_contention_stage n c"
    unfolding contention_sum[OF c] by (rule sum_mono) (use p stage_steps_ceiling(2)[OF c] in simp)
  then show "compute_contention_stage n 0 \<le> compute_contention_stage n c" by (simp add: z)
  show "compute_contention_stage n c \<le> compute_contention_stage n b"
    using bc c by (simp add: contention_sum sum_mono stage_steps_ceiling(3))
  have "compute_contention_stage n b \<le> (\<Sum>i<provide_log n. parallel_comms (2 ^ (i + 1)) n (2 ^ i - 1))"
    using bc by (simp add: contention_sum sum_mono stage_steps_ceiling(1) del: power_Suc)
  then show "compute_contention_stage n b \<le> n - 1" unfolding sum_stages[OF assms] .
qed

theorem contention_stages_between_log_and_linear_witness:
  "compute_contention_stage 6 1 = 5 \<and> compute_contention_stage 6 2 \<le> 5"
proof -
  have six: "0 < (6::nat)" by simp
  note s = contention_stages_between_log_and_linear[OF six]
  have "compute_contention_stage 6 1 = 6 - 1" by (rule s[THEN conjunct2, THEN conjunct2, THEN conjunct1])
  moreover have "compute_contention_stage 6 2 \<le> 6 - 1"
    using s[THEN conjunct2, THEN conjunct2, THEN conjunct2, rule_format, of 2 2] by simp
  ultimately show ?thesis by simp
qed

section \<open>Machines\<close>

text \<open>The node with the greatest total gives the time inside a machine.\<close>

lemma intra_nodes_greatest:
  assumes "calcula_temps_maxim_intra_nodes p tasks info sent recvd best nds = Inr r"
  shows "total best \<le> total r \<and>
    (\<forall>nd\<in>set nds. \<exists>n f. tasks nd = Some n \<and>
       both_fans (node_bandwidth p nd) n 0 info sent recvd (local_startup p nd) = Inr f \<and> total f \<le> total r) \<and>
    (r = best \<or> (\<exists>nd\<in>set nds. \<exists>n. tasks nd = Some n \<and>
       both_fans (node_bandwidth p nd) n 0 info sent recvd (local_startup p nd) = Inr r))"
  using assms
proof (induction nds arbitrary: best)
  case (Cons nd nds)
  obtain n f where f: "tasks nd = Some n" "both_fans (node_bandwidth p nd) n 0 info sent recvd (local_startup p nd) = Inr f"
    and r: "calcula_temps_maxim_intra_nodes p tasks info sent recvd (if total f > total best then f else best) nds = Inr r"
    using Cons.prems by (auto simp: bindE_eq_Inr split: option.splits)
  from Cons.IH[OF r] f show ?case by (auto split: if_splits)
qed simp

text \<open>
  The time between the nodes is kept from one machine to the next: a machine that has one node, and no traffic
  between nodes, is charged with that of the machine before it, and the sum of both is the time of the operation if
  the second machine is the slower one inside its node. In the other order the operation takes the time of the slower machine only.
\<close>

theorem one_node_machine_pays_for_another:
  assumes "cm_info a = Some ia" "cm_info b = Some ib" "cm_several_nodes a" "cm_nodes a \<noteq> []" "\<not> cm_several_nodes b"
    and "inter_nodes p sent recvd a ia no_fans = Inr inter_a"
    and "calcula_temps_maxim_intra_nodes p tasks ia sent recvd no_fans (cm_nodes a) = Inr intra_a"
    and "calcula_temps_maxim_intra_nodes p tasks ib sent recvd no_fans (cm_nodes b) = Inr intra_b"
    and "0 < total inter_a" "0 \<le> total intra_a" "total intra_a < total intra_b"
  shows "machines_time p tasks sent recvd no_fans (no_fans, no_fans) [a, b] = Inr (intra_b, inter_a) \<and>
    machines_time p tasks sent recvd no_fans (no_fans, no_fans) [b, a] =
      Inr (if total inter_a + total intra_a > total intra_b then (intra_a, inter_a) else (intra_b, no_fans))"
proof -
  have z: "total no_fans = 0" by (simp add: total_def no_fans_def)
  have again: "inter_nodes p sent recvd a ia x = Inr inter_a" for x
    using assms(3,4,6) by (simp add: inter_nodes_def)
  have one: "inter_nodes p sent recvd b ib x = Inr x" for x using assms(5) by (simp add: inter_nodes_def)
  show ?thesis using assms z by (simp add: again one)
qed

text \<open>Two nodes of machine 0 and one node of machine 1; the second is slower.\<close>

definition ex_info :: t_glop_info where
  "ex_info = \<lparr>FIN_model = GOP_MODEL_CTE, FIN_size = GOP_SIZE_MAX, FOUT_model = GOP_MODEL_0, FOUT_size = GOP_SIZE_MAX\<rparr>"

definition ex_two_nodes :: coll_machine where
  "ex_two_nodes = \<lparr>cm_machine = 0, cm_node = 0, cm_info = Some ex_info, cm_several_nodes = True, cm_nodes = [0, 1], cm_busos = 0\<rparr>"

definition ex_one_node :: coll_machine where
  "ex_one_node = \<lparr>cm_machine = 1, cm_node = 2, cm_info = Some ex_info, cm_several_nodes = False, cm_nodes = [2], cm_busos = 0\<rparr>"

definition ex_coll_platform :: platform where
  "ex_coll_platform = ex_platform\<lparr>remote_startup := (\<lambda>_. 7), local_startup := (\<lambda>nd. if nd = 2 then 5 else 1)\<rparr>"

theorem one_node_machine_pays_for_another_witness:
  "map_option total (case machines_time ex_coll_platform (\<lambda>_. Some 1) 0 0 no_fans (no_fans, no_fans) [ex_two_nodes, ex_one_node] of
     Inl _ \<Rightarrow> None | Inr (a, b) \<Rightarrow> Some b) = Some 14 \<and>
   machines_time ex_coll_platform (\<lambda>_. Some 1) 0 0 no_fans (no_fans, no_fans) [ex_two_nodes, ex_one_node] =
     Inr (\<lparr>t_in = 5, l_in = 5, t_out = 0, l_out = 0\<rparr>, \<lparr>t_in = 7, l_in = 7, t_out = 0, l_out = 0\<rparr>)"
proof -
  note e = ex_two_nodes_def ex_one_node_def ex_info_def inter_nodes_def both_fans_def calcula_fan_def fan_size_def to_int_def
    GOP_MODEL_0_def GOP_MODEL_CTE_def GOP_SIZE_CURR_def GOP_SIZE_MIN_def GOP_SIZE_MAX_def no_fans_def total_def ex_coll_platform_def ex_platform_def
  have "machines_time ex_coll_platform (\<lambda>_. Some 1) 0 0 no_fans (no_fans, no_fans) [ex_two_nodes, ex_one_node] =
     Inr (\<lparr>t_in = 5, l_in = 5, t_out = 0, l_out = 0\<rparr>, \<lparr>t_in = 7, l_in = 7, t_out = 0, l_out = 0\<rparr>)"
    by (rule one_node_machine_pays_for_another[of ex_two_nodes ex_info ex_one_node ex_info,
          where intra_a = "\<lparr>t_in = 1, l_in = 1, t_out = 0, l_out = 0\<rparr>", THEN conjunct1])
      (simp_all add: e)
  then show ?thesis by (simp add: total_def)
qed

end
