(* ===== verification/Collectives.thy ===== *)
theory Collectives
  imports Matching CollCost
begin

text \<open>
  Collective operations (\<^verbatim>\<open>communic.c\<close>: \<open>GLOBAL_operation\<close>, \<open>GLOBAL_wait_operation\<close>, \<open>start_global_op\<close>, the
  functions \<open>global_op_*\<close>, \<open>free_global_communication_resources\<close>, \<open>close_global_*\<close>,
  \<open>ACCELERATOR_synchronization\<close>, the table of operations). The threads of a communicator arrive one by one and block;
  the last one chooses a thread of every machine, which takes all buses of its machine and, if there are several
  machines, a link of the external network in both directions. When all are served the operation starts; one timer gives the resources back
  and another one lets the threads go on. An operation without blocking runs on copies of the threads.

  A communicator is found by its identifier. A queue ordered by keys is a list of pairs, in \<open>seq_insert\<close> order of the
  keys. The queues of the operations without blocking are queues of queues, under the index of the operation.
  Deadlock analysis and output are left out.
\<close>

section \<open>State\<close>

record t_communicator =
  communicator_id :: int
  comm_size :: nat
  comm_ranks :: "taskid list"
  comm_threads :: "tid list"
  machines_threads :: "(tid \<times> int) list"
  m_threads_with_links :: "tid list"
  nodes_per_machine :: "machid \<Rightarrow> (nodeid \<times> int) list"
  tasks_per_node :: "(nat \<times> int) list"
  current_root :: "tid option"
  in_flight_op :: bool
  nb_threads :: "(tid list \<times> int) list"
  nb_machine_threads :: "((tid \<times> int) list \<times> int) list"
  nb_current_root :: "(tid \<times> int) list"
  nb_with_links :: "(tid list \<times> int) list"
  same_machine :: bool
  same_node :: bool
  sharing_node :: bool

text \<open>What a thread keeps for collective operations.\<close>

record t_coll =
  nb_glob_index :: int
  nb_glob_index_master :: int
  n_nonblock_glob_in_flight :: int
  n_nonblock_glob_waiting :: int
  n_nonblock_glob_done :: int
  nonblock_glop_done_threads :: "tid list"
  arrive_to_collective :: timer
  sync_time :: timer
  with_resources :: timer
  conclude_communication :: timer
  blckd_in_global_op :: bool

record t_external_glop =
  external_get_global_op_type :: "int \<Rightarrow> int \<Rightarrow> int \<Rightarrow> int \<Rightarrow> int"
  external_compute_global_operation_time :: "int \<Rightarrow> int \<Rightarrow> int \<Rightarrow> int \<Rightarrow> timer \<times> timer"

record coll_sim = comm_sim +
  communicators :: "int \<Rightarrow> t_communicator option"
  colls :: "tid \<Rightarrow> t_coll"
  Global_op :: "(string \<times> int) list"
  machine_glops :: "machid \<Rightarrow> (t_glop_info \<times> int) list"
  wan_glops :: "(t_glop_info \<times> int) list"
  machine_glop_model :: "machid \<Rightarrow> int"
  wan_glop_model :: int
  number_machines :: nat
  number_of_nodes :: "machid \<Rightarrow> nat"
  host_sync :: "taskid \<Rightarrow> tid option"
  kernel_sync :: "taskid \<Rightarrow> tid option"
  kernel_by_comm :: "taskid \<Rightarrow> int"
  external_glop :: "t_external_glop option"

definition GLOBAL_OP_ASYN :: int where "GLOBAL_OP_ASYN = 0"
definition GLOBAL_OP_SYNC :: int where "GLOBAL_OP_SYNC = 1"
definition GLOBAL_OP_WAIT :: int where "GLOBAL_OP_WAIT = 2"
definition EXTERNAL_GLOBAL_OP_MODEL :: int where "EXTERNAL_GLOBAL_OP_MODEL = 1"

definition upd_comms :: "int \<Rightarrow> (t_communicator \<Rightarrow> t_communicator) \<Rightarrow> 'z coll_sim_scheme \<Rightarrow> 'z coll_sim_scheme" where
  "upd_comms k f s = s\<lparr>communicators := (communicators s)(k := map_option f (communicators s k))\<rparr>"

definition upd_coll :: "tid \<Rightarrow> (t_coll \<Rightarrow> t_coll) \<Rightarrow> 'z coll_sim_scheme \<Rightarrow> 'z coll_sim_scheme" where
  "upd_coll t f s = s\<lparr>colls := (colls s)(t := f (colls s t))\<rparr>"

section \<open>Queues ordered by keys\<close>

definition kq_query :: "int \<Rightarrow> ('a \<times> int) list \<Rightarrow> 'a option" where
  "kq_query k q = map_option fst (List.find (\<lambda>e. snd e = k) q)"

definition kq_insert :: "'a \<Rightarrow> int \<Rightarrow> ('a \<times> int) list \<Rightarrow> ('a \<times> int) list" where
  "kq_insert x k q = seq_insert (\<lambda>e. real_of_int (snd e)) (x, k) q"

text \<open>What the first element with the key points to changes.\<close>

fun kq_set :: "int \<Rightarrow> 'a \<Rightarrow> ('a \<times> int) list \<Rightarrow> ('a \<times> int) list" where
  "kq_set k x [] = []"
| "kq_set k x (e # q) = (if snd e = k then (x, k) # q else e # kq_set k x q)"

fun kq_remove :: "int \<Rightarrow> ('a \<times> int) list \<Rightarrow> ('a \<times> int) list" where
  "kq_remove k [] = []"
| "kq_remove k (e # q) = (if snd e = k then q else e # kq_remove k q)"

definition kq_the :: "int \<Rightarrow> ('a \<times> int) list \<Rightarrow> 'a res" where
  "kq_the k q = (case kq_query k q of None \<Rightarrow> Inl NullDeref | Some x \<Rightarrow> Inr x)"

section \<open>The table of operations\<close>

definition get_global_op_id_by_name :: "string \<Rightarrow> 'z coll_sim_scheme \<Rightarrow> int" where
  "get_global_op_id_by_name name s = (case List.find (\<lambda>e. fst e = name) (Global_op s) of Some e \<Rightarrow> snd e | None \<Rightarrow> - 1)"

definition inicialitza_info_nova_globalop :: "int \<Rightarrow> int \<Rightarrow> (t_glop_info \<times> int) list \<Rightarrow> (t_glop_info \<times> int) list res" where
  "inicialitza_info_nova_globalop model i q =
     (if model \<notin> {GOP_MODEL_0, GOP_MODEL_CTE, GOP_MODEL_LIN, GOP_MODEL_LOG} then Inl (Panic ''Unexpected Global operation model'')
      else Inr (kq_insert \<lparr>FIN_model = model, FIN_size = GOP_SIZE_CURR, FOUT_model = model, FOUT_size = GOP_SIZE_CURR\<rparr> i q))"

fun info_for_machines :: "int \<Rightarrow> machid list \<Rightarrow> 'z coll_sim_scheme \<Rightarrow> 'z coll_sim_scheme res" where
  "info_for_machines i [] s = Inr s"
| "info_for_machines i (m # ms) s =
     bindE (inicialitza_info_nova_globalop (machine_glop_model s m) i (machine_glops s m)) (\<lambda>q.
     info_for_machines i ms (s\<lparr>machine_glops := (machine_glops s)(m := q)\<rparr>))"

definition new_global_op :: "int \<Rightarrow> string \<Rightarrow> 'z coll_sim_scheme \<Rightarrow> 'z coll_sim_scheme res" where
  "new_global_op i name s =
     bindE (info_for_machines i [0..<number_machines s] (s\<lparr>Global_op := kq_insert name i (Global_op s)\<rparr>)) (\<lambda>s1.
     bindE (inicialitza_info_nova_globalop (wan_glop_model s1) i (wan_glops s1)) (\<lambda>q.
     Inr (s1\<lparr>wan_glops := q\<rparr>)))"

fun add_from :: "int \<Rightarrow> string list \<Rightarrow> 'z coll_sim_scheme \<Rightarrow> 'z coll_sim_scheme res" where
  "add_from i [] s = Inr s"
| "add_from i (l # ls) s = bindE (new_global_op i l s) (add_from (i + 1) ls)"

definition Global_Ops_Labels :: "string list" where
  "Global_Ops_Labels = [''MPI_Barrier'', ''MPI_Bcast'', ''MPI_Gather'', ''MPI_Gatherv'', ''MPI_Scatter'', ''MPI_Scatterv'', ''MPI_Allgather'', ''MPI_Allgatherv'',
     ''MPI_Alltoall'', ''MPI_Alltoallv'', ''MPI_Reduce'', ''MPI_Allreduce'', ''MPI_Reduce_Scatter'', ''MPI_Reduce_Scatter_block'', ''MPI_Scan'', ''MPI_Alltoallw'']"

definition add_global_ops :: "'z coll_sim_scheme \<Rightarrow> 'z coll_sim_scheme res" where
  "add_global_ops s = add_from 0 Global_Ops_Labels s"


section \<open>The operation of a thread\<close>

text \<open>The operation is read from the action, whatever that is; the communicator and the operation have to be known.\<close>

definition glop_of :: "tid \<Rightarrow> 'z coll_sim_scheme \<Rightarrow> t_global_op res" where
  "glop_of t s = (case actions (execs s t) of [] \<Rightarrow> Inl NullDeref | AC_GLOBAL_OP g # _ \<Rightarrow> Inr g | _ # _ \<Rightarrow> Inl Uninit)"

definition locate_communicator :: "int \<Rightarrow> 'z coll_sim_scheme \<Rightarrow> t_communicator res" where
  "locate_communicator k s = (case communicators s k of
     None \<Rightarrow> Inl (Panic ''Communication through an invalid communicator'') | Some c \<Rightarrow> Inr c)"

definition check_glop :: "int \<Rightarrow> 'z coll_sim_scheme \<Rightarrow> unit res" where
  "check_glop i s = (if kq_query i (Global_op s) = None then Inl (Panic ''Global operation undefined'') else Inr ())"

definition async :: "t_global_op \<Rightarrow> bool" where
  "async g \<longleftrightarrow> synch_type g = GLOBAL_OP_ASYN"

definition machine_of_thread :: "tid \<Rightarrow> 'z coll_sim_scheme \<Rightarrow> machid" where
  "machine_of_thread t s = machine_of_node s (get_node_of_thread t s)"

text \<open>The queues of the communicator the operation works on.\<close>

definition threads_queue :: "bool \<Rightarrow> int \<Rightarrow> t_communicator \<Rightarrow> tid list res" where
  "threads_queue a i c = (if a then kq_the i (nb_threads c) else Inr (comm_threads c))"

definition set_threads :: "bool \<Rightarrow> int \<Rightarrow> tid list \<Rightarrow> t_communicator \<Rightarrow> t_communicator" where
  "set_threads a i q c = (if a then c\<lparr>nb_threads := kq_set i q (nb_threads c)\<rparr> else c\<lparr>comm_threads := q\<rparr>)"

definition machines_queue :: "bool \<Rightarrow> int \<Rightarrow> t_communicator \<Rightarrow> (tid \<times> int) list res" where
  "machines_queue a i c = (if a then kq_the i (nb_machine_threads c) else Inr (machines_threads c))"

definition set_machines :: "bool \<Rightarrow> int \<Rightarrow> (tid \<times> int) list \<Rightarrow> t_communicator \<Rightarrow> t_communicator" where
  "set_machines a i q c = (if a then c\<lparr>nb_machine_threads := kq_set i q (nb_machine_threads c)\<rparr> else c\<lparr>machines_threads := q\<rparr>)"

definition links_queue :: "bool \<Rightarrow> int \<Rightarrow> t_communicator \<Rightarrow> tid list res" where
  "links_queue a i c = (if a then kq_the i (nb_with_links c) else Inr (m_threads_with_links c))"

definition set_links :: "bool \<Rightarrow> int \<Rightarrow> tid list \<Rightarrow> t_communicator \<Rightarrow> t_communicator" where
  "set_links a i q c = (if a then c\<lparr>nb_with_links := kq_set i q (nb_with_links c)\<rparr> else c\<lparr>m_threads_with_links := q\<rparr>)"

definition root_of :: "bool \<Rightarrow> int \<Rightarrow> t_communicator \<Rightarrow> tid option" where
  "root_of a i c = (if a then kq_query i (nb_current_root c) else current_root c)"

definition set_root :: "bool \<Rightarrow> int \<Rightarrow> tid \<Rightarrow> t_communicator \<Rightarrow> t_communicator" where
  "set_root a i t c = (if a then c\<lparr>nb_current_root := kq_insert t i (nb_current_root c)\<rparr> else c\<lparr>current_root := Some t\<rparr>)"

section \<open>The start of the operation\<close>

definition coll_machine_of :: "int \<Rightarrow> t_communicator \<Rightarrow> 'z coll_sim_scheme \<Rightarrow> tid \<Rightarrow> coll_machine" where
  "coll_machine_of i c s t = (let m = machine_of_thread t s in
     \<lparr>cm_machine = m, cm_node = get_node_of_thread t s, cm_info = kq_query i (machine_glops s m),
      cm_several_nodes = (1 < number_of_nodes s m), cm_nodes = map fst (nodes_per_machine c m),
      cm_busos = nat (max_messages (buses s (MachBus m)))\<rparr>)"

text \<open>The latency, the time with the resources and the whole time; the external network starts with the startup of the last machine.\<close>

definition calcula_temps_operacio_global :: "tid \<Rightarrow> 'z coll_sim_scheme \<Rightarrow> ((timer \<times> timer \<times> timer) \<times> 'z coll_sim_scheme) res" where
  "calcula_temps_operacio_global t s =
     bindE (glop_of t s) (\<lambda>g.
     bindE (locate_communicator (comm_id g) s) (\<lambda>c.
     bindE (check_glop (glop_id g) s) (\<lambda>_.
     bindE (machines_queue (async g) (nb_glob_index (colls s t)) c) (\<lambda>ms.
     let p = plat s; sent = bytes_send g; recvd = bytes_recvd g; ths = map fst ms in
     bindE (machines_time p (\<lambda>nd. kq_query (int nd) (tasks_per_node c)) sent recvd no_fans (no_fans, no_fans)
              (map (coll_machine_of (glop_id g) c s) ths)) (\<lambda>(intra, between).
     if length ms \<le> 1 then Inr (add_times intra between no_fans (0, 0), s)
     else
       (case kq_query (glop_id g) (wan_glops s) of
          None \<Rightarrow> Inl (Panic ''Global operation undefined'')
        | Some info \<Rightarrow>
            bindE (if wan_bandwidth p \<noteq> 0 then recompute_external_network_bandwidth s else Inr (0, s)) (\<lambda>(bw, s1).
            bindE (both_fans bw (comm_size c) 0 info sent recvd (external_net_startup p (get_node_of_thread (last ths) s))) (\<lambda>ext.
            Inr (add_times intra between ext
                  (calcula_maxim_flight_times p (machine_of_thread t s) (0, 0)
                    (map (\<lambda>o'. machine_of_thread o' s) (filter (\<lambda>o'. o' \<noteq> t) ths))), s1)))))))))"

text \<open>Every thread of a blocking operation is accounted from now on.\<close>

fun note_start :: "timer \<Rightarrow> tid list \<Rightarrow> 'z coll_sim_scheme \<Rightarrow> 'z coll_sim_scheme" where
  "note_start lat [] s = s"
| "note_start lat (t # ts) s = note_start lat ts
     (upd_thread t (\<lambda>th. th\<lparr>last_paraver := (if lat \<noteq> 0 then current_time s + lat else current_time s)\<rparr>)
       (upd_coll t (\<lambda>x. x\<lparr>with_resources := current_time s\<rparr>) s))"

definition group_timer :: "timer \<Rightarrow> tid \<Rightarrow> int \<Rightarrow> 'z coll_sim_scheme \<Rightarrow> 'z coll_sim_scheme res" where
  "group_timer when t info s = bindE (EVENT_timer when False M_COM (Some t) info s) (\<lambda>(_, s1). Inr s1)"

definition start_global_op :: "tid \<Rightarrow> bool \<Rightarrow> 'z coll_sim_scheme \<Rightarrow> 'z coll_sim_scheme res" where
  "start_global_op t external s =
     bindE (glop_of t s) (\<lambda>g.
     bindE (locate_communicator (comm_id g) s) (\<lambda>c.
     bindE (check_glop (glop_id g) s) (\<lambda>_.
     bindE (if \<not> external then
              bindE (calcula_temps_operacio_global t s) (\<lambda>((lat, busy, final), s1).
              bindE (group_timer (current_time s1 + busy) t COM_TIMER_GROUP_RESOURCES s1) (\<lambda>s2. Inr (lat, final, s2)))
            else (case external_glop s of
                None \<Rightarrow> Inl (Panic ''Executing global operation through external model library not loaded'')
              | Some x \<Rightarrow>
                  let (lat, time) = external_compute_global_operation_time x (comm_id g) (glop_id g)
                        (to_int (bytes_send g)) (to_int (bytes_recvd g))
                  in Inr (lat, lat + time, s))) (\<lambda>(lat, final, s3).
     bindE (group_timer (current_time s3 + final) t COM_TIMER_GROUP s3) (\<lambda>s4.
     Inr (if async g then s4 else note_start lat (comm_threads c) s4))))))"

section \<open>Resources\<close>

text \<open>
  All links of the external network are there: the thread joins the others, and with the last one
  of them the operation starts.
\<close>

definition global_op_get_all_in_links :: "tid \<Rightarrow> 'z coll_sim_scheme \<Rightarrow> 'z coll_sim_scheme res" where
  "global_op_get_all_in_links t s =
     bindE (glop_of t s) (\<lambda>g.
     bindE (locate_communicator (comm_id g) s) (\<lambda>c.
     bindE (check_glop (glop_id g) s) (\<lambda>_.
     let a = async g; i = nb_glob_index (colls s t) in
     bindE (threads_queue a i c) (\<lambda>q.
     let s1 = upd_comms (comm_id g) (set_threads a i (q @ [t])) s in
     if length (q @ [t]) \<noteq> comm_size c then Inr s1
     else bindE (links_queue a i c) (\<lambda>_.
       (case root_of a i c of
          None \<Rightarrow> Inl NullDeref
        | Some r \<Rightarrow> start_global_op r False (upd_comms (comm_id g) (set_links a i []) s1)))))))"

text \<open>The link out is there. When every machine has its own, they all ask for the link in.\<close>

fun links_in :: "tid list \<Rightarrow> 'z coll_sim_scheme \<Rightarrow> 'z coll_sim_scheme res" where
  "links_in [] s = Inr s"
| "links_in (t # ts) s =
     bindE (LINKS_get_single_wan_link t (machine_of_thread t s) IN_LINK s) (\<lambda>(ok, s1).
     bindE (if ok then global_op_get_all_in_links t s1 else Inr s1) (links_in ts))"

definition global_op_get_all_out_links :: "tid \<Rightarrow> 'z coll_sim_scheme \<Rightarrow> 'z coll_sim_scheme res" where
  "global_op_get_all_out_links t s =
     bindE (glop_of t s) (\<lambda>g.
     bindE (locate_communicator (comm_id g) s) (\<lambda>c.
     bindE (check_glop (glop_id g) s) (\<lambda>_.
     let a = async g; i = nb_glob_index (colls s t) in
     bindE (machines_queue a i c) (\<lambda>ms.
     if length ms \<le> 1 then global_op_get_all_in_links t s
     else bindE (links_queue a i c) (\<lambda>l.
       let s1 = upd_comms (comm_id g) (set_links a i (l @ [t])) s in
       if length (l @ [t]) \<noteq> length ms then Inr s1 else links_in (map fst ms) s1)))))"

text \<open>
  The buses of the machine: when some are in use the thread keeps the free ones and waits for the others; a thread that
  has collected all of them takes them.
\<close>

definition global_op_get_all_buses :: "tid \<Rightarrow> 'z coll_sim_scheme \<Rightarrow> 'z coll_sim_scheme res" where
  "global_op_get_all_buses t s =
     (let m = machine_of_thread t s; b = MachBus m; all = max_messages (buses s b); used = cur_messages (buses s b) in
      if all \<noteq> 0 \<and> number_buses (comms s t) = 0 \<and> used \<noteq> 0
      then Inr (START_BUS_WAIT_TIME t
             (upd_bus b (\<lambda>x. x\<lparr>cur_messages := all, wait_for_bus := wait_for_bus x @ [t]\<rparr>)
               (upd_comm t (\<lambda>x. x\<lparr>number_buses := all - used\<rparr>) s)))
      else
        bindE (glop_of t s) (\<lambda>g.
        bindE (locate_communicator (comm_id g) s) (\<lambda>c.
        bindE (check_glop (glop_id g) s) (\<lambda>_.
        let s1 = upd_bus b (\<lambda>x. x\<lparr>cur_messages := all, on_bus := on_bus x @ replicate (nat all) (t, current_time s)\<rparr>) s in
        bindE (machines_queue (async g) (nb_glob_index (colls s t)) c) (\<lambda>ms.
        if length ms > 1 then
          bindE (LINKS_get_single_wan_link t m OUT_LINK s1) (\<lambda>(ok, s2).
          if ok then global_op_get_all_out_links t s2 else Inr s2)
        else global_op_get_all_out_links t s1)))))"

text \<open>A thread that waited for a link asks again. The links of the blocking operation are counted, whatever the operation is.\<close>

definition global_op_reserva_links :: "tid \<Rightarrow> 'z coll_sim_scheme \<Rightarrow> 'z coll_sim_scheme res" where
  "global_op_reserva_links t s =
     bindE (glop_of t s) (\<lambda>g.
     bindE (locate_communicator (comm_id g) s) (\<lambda>c.
     bindE (machines_queue (async g) (nb_glob_index (colls s t)) c) (\<lambda>ms.
     if length ms \<noteq> length (m_threads_with_links c) then
       bindE (LINKS_get_single_wan_link t (machine_of_thread t s) OUT_LINK s) (\<lambda>(ok, s1).
       if ok then global_op_get_all_out_links t s1 else Inr s1)
     else
       bindE (LINKS_get_single_wan_link t (machine_of_thread t s) IN_LINK s) (\<lambda>(ok, s1).
       if ok then global_op_get_all_in_links t s1 else Inr s1))))"

text \<open>The collective operations for the senders of messages; ports and copies stay an argument.\<close>

definition coll_others :: "'z coll_sim_scheme others \<Rightarrow> 'z coll_sim_scheme others" where
  "coll_others g = g\<lparr>other_get_all_buses := \<lambda>t s. Some (global_op_get_all_buses t s),
     other_reserva_links := \<lambda>t s. Some (global_op_reserva_links t s)\<rparr>"

section \<open>Giving the resources back\<close>

text \<open>The waiters of a machine, as long as there are free buses, at most as many as there were at first.\<close>

fun wake_waiters :: "(tid \<Rightarrow> taskid option) \<Rightarrow> machid \<Rightarrow> nat \<Rightarrow> 'z coll_sim_scheme \<Rightarrow> 'z coll_sim_scheme run" where
  "wake_waiters w m 0 s = retR s"
| "wake_waiters w m (Suc k) s =
     (let b = MachBus m in
      if cur_messages (buses s b) \<ge> max_messages (buses s b) then retR s
      else (case wait_for_bus (buses s b) of
          [] \<Rightarrow> failR NullDeref
        | f # _ \<Rightarrow>
            bindR (case act (threads s f) of
                A_SEND \<Rightarrow> bindR (Some (extract_waiter b f (ACCUMULATE_BUS_WAIT_TIME f s))) (really_send_to f)
              | A_MPI_OS \<Rightarrow> bindR (Some (extract_waiter b f (ACCUMULATE_BUS_WAIT_TIME f s))) (really_RMA_to w f)
              | A_GLOBAL_OP \<Rightarrow>
                  let aux = max_messages (buses s b) - cur_messages (buses s b);
                      s1 = upd_bus b (\<lambda>x. x\<lparr>cur_messages := cur_messages x + aux\<rparr>)
                             (upd_comm f (\<lambda>c. c\<lparr>number_buses := number_buses c + aux\<rparr>) s)
                  in if number_buses (comms s1 f) = max_messages (buses s1 b)
                     then bindR (Some (extract_waiter b f (ACCUMULATE_BUS_WAIT_TIME f s1)))
                            (\<lambda>s2. Some (global_op_get_all_buses f s2))
                     else retR s1
              | _ \<Rightarrow> retR s)
            (wake_waiters w m k)))"

definition free_machine :: "(tid \<Rightarrow> taskid option) \<Rightarrow> 'z coll_sim_scheme others \<Rightarrow> nat \<Rightarrow> tid \<Rightarrow> 'z coll_sim_scheme
    \<Rightarrow> 'z coll_sim_scheme run" where
  "free_machine w g machines t s =
     (let m = machine_of_thread t s; b = MachBus m; hs = send_handlers w (coll_others g);
          s1 = upd_bus b (\<lambda>x. x\<lparr>cur_messages := 0, on_bus := drop (nat (max_messages x)) (on_bus x)\<rparr>)
                 (upd_comm t (\<lambda>x. x\<lparr>number_buses := 0\<rparr>) s) in
      bindR (if machines > 1 then
               bindR (free_present LINKS_free_wan_link hs t local_link s1) (\<lambda>s2.
               bindR (free_present LINKS_free_wan_link hs t partner_link s2) (\<lambda>s3.
               retR (upd_thread t (\<lambda>th. th\<lparr>local_link := None, partner_link := None\<rparr>) s3)))
             else retR s1) (\<lambda>s4.
      wake_waiters w m (length (wait_for_bus (buses s4 b))) s4))"

partial_function (option) free_machines :: "(tid \<Rightarrow> taskid option) \<Rightarrow> 'z coll_sim_scheme others \<Rightarrow> int \<Rightarrow> bool \<Rightarrow> int \<Rightarrow> nat
    \<Rightarrow> 'z coll_sim_scheme \<Rightarrow> 'z coll_sim_scheme run" where
  "free_machines w g k a i machines s =
     bindR (Some (locate_communicator k s)) (\<lambda>c.
     bindR (Some (machines_queue a i c)) (\<lambda>ms.
     if ms = [] then retR s
     else bindR (free_machine w g machines (fst (hd ms)) (upd_comms k (set_machines a i (tl ms)) s))
            (free_machines w g k a i machines)))"

definition free_global_communication_resources :: "(tid \<Rightarrow> taskid option) \<Rightarrow> 'z coll_sim_scheme others \<Rightarrow> tid
    \<Rightarrow> 'z coll_sim_scheme \<Rightarrow> 'z coll_sim_scheme run" where
  "free_global_communication_resources w g t s =
     bindR (Some (glop_of t s)) (\<lambda>o'.
     bindR (Some (locate_communicator (comm_id o') s)) (\<lambda>c.
     bindR (Some (check_glop (glop_id o') s)) (\<lambda>_.
     let i = nb_glob_index (colls s t) in
     bindR (Some (machines_queue (async o') i c)) (\<lambda>ms.
     free_machines w g (comm_id o') (async o') i (length ms) s))))"

section \<open>The end of the operation\<close>

text \<open>The time to the start and the time of the operation are accounted.\<close>

definition account_glop :: "tid \<Rightarrow> 'z coll_sim_scheme \<Rightarrow> 'z coll_sim_scheme" where
  "account_glop t s =
     (let s1 = upd_coll t (\<lambda>x. x\<lparr>conclude_communication := current_time s\<rparr>) s; x = colls s1 t in
      upd_account t (\<lambda>c. c\<lparr>
        block_due_group_operations := (with_resources x - arrive_to_collective x) + block_due_group_operations c,
        group_operations_time := (conclude_communication x - with_resources x) + group_operations_time c\<rparr>) s1)"

definition resume :: "tid \<Rightarrow> 'z coll_sim_scheme \<Rightarrow> 'z coll_sim_scheme res" where
  "resume t s = bindE (next_action t s) (\<lambda>s1.
     let (more, s2) = more_actions t s1 in
     if more then bindE (SCHEDULER_thread_to_ready t (set_loose_cpu t True s2)) (\<lambda>s3. Inr (s3\<lparr>reload_done := True\<rparr>))
     else Inr s2)"

definition clean_counters :: "nat \<Rightarrow> t_communicator \<Rightarrow> t_communicator" where
  "clean_counters machines c =
     c\<lparr>nodes_per_machine := (\<lambda>m. if m < machines then [] else nodes_per_machine c m), tasks_per_node := []\<rparr>"

fun close_threads :: "int \<Rightarrow> tid list \<Rightarrow> 'z coll_sim_scheme \<Rightarrow> 'z coll_sim_scheme res" where
  "close_threads k [] s = Inr s"
| "close_threads k (t # ts) s =
     bindE (resume t (set_last_paraver t (account_glop t (upd_comms k (\<lambda>c. c\<lparr>comm_threads := ts\<rparr>) s))))
       (close_threads k ts)"

definition close_global_communication :: "tid \<Rightarrow> 'z coll_sim_scheme \<Rightarrow> 'z coll_sim_scheme res" where
  "close_global_communication t s =
     bindE (glop_of t s) (\<lambda>g.
     bindE (locate_communicator (comm_id g) s) (\<lambda>c.
     let s1 = upd_comms (comm_id g) (\<lambda>c. clean_counters (number_machines s) (c\<lparr>current_root := None, in_flight_op := False\<rparr>)) s in
     bindE (check_glop (glop_id g) s1) (\<lambda>_. close_threads (comm_id g) (comm_threads c) s1)))"

text \<open>
  Without blocking every copy of a thread ends: its thread goes on if it waits for it, otherwise the end is noted.
\<close>

definition close_copy :: "tid \<Rightarrow> 'z coll_sim_scheme \<Rightarrow> 'z coll_sim_scheme res" where
  "close_copy u s =
     (if original_thread (threads s u) then Inl AssertFailed
      else case twin_thread (execs s u) of
        None \<Rightarrow> Inl NullDeref
      | Some t \<Rightarrow>
          let s1 = account_glop u s in
          bindE (if n_nonblock_glob_waiting (colls s1 t) > 0 then
                   bindE (delete_duplicate_thread u s1) (\<lambda>s2.
                   resume t (upd_coll t (\<lambda>x. x\<lparr>n_nonblock_glob_waiting := n_nonblock_glob_waiting x - 1\<rparr>) s2))
                 else Inr (upd_coll t (\<lambda>x. x\<lparr>n_nonblock_glob_done := n_nonblock_glob_done x + 1,
                             nonblock_glop_done_threads := nonblock_glop_done_threads x @ [u]\<rparr>) s1)) (\<lambda>s3.
          Inr (upd_coll t (\<lambda>x. x\<lparr>n_nonblock_glob_in_flight := n_nonblock_glob_in_flight x - 1\<rparr>) s3)))"

fun close_copies :: "int \<Rightarrow> int \<Rightarrow> tid list \<Rightarrow> 'z coll_sim_scheme \<Rightarrow> 'z coll_sim_scheme res" where
  "close_copies k i [] s = Inr s"
| "close_copies k i (u # us) s = bindE (close_copy u (upd_comms k (set_threads True i us) s)) (close_copies k i us)"

definition close_global_nonblock_communication :: "tid \<Rightarrow> 'z coll_sim_scheme \<Rightarrow> 'z coll_sim_scheme res" where
  "close_global_nonblock_communication t s =
     bindE (glop_of t s) (\<lambda>g.
     bindE (locate_communicator (comm_id g) s) (\<lambda>c.
     let k = comm_id g; i = nb_glob_index (colls s t) in
     bindE (if kq_query i (nb_current_root c) = None then Inl (Panic ''Can't find element to extract from queue'') else Inr ()) (\<lambda>_.
     let s1 = upd_comms k (\<lambda>c. clean_counters (number_machines s) (c\<lparr>nb_current_root := kq_remove i (nb_current_root c)\<rparr>)) s in
     bindE (check_glop (glop_id g) s1) (\<lambda>_.
     bindE (kq_the i (nb_threads c)) (\<lambda>us.
     if length us \<noteq> comm_size c then Inl AssertFailed
     else bindE (close_copies k i us s1) (\<lambda>s2.
       Inr (upd_comms k (\<lambda>c. c\<lparr>nb_threads := kq_remove i (nb_threads c)\<rparr>) s2)))))))"

definition COMM_TIMER_GROUP_end :: "tid \<Rightarrow> 'z coll_sim_scheme \<Rightarrow> 'z coll_sim_scheme res" where
  "COMM_TIMER_GROUP_end t s = bindE (glop_of t s) (\<lambda>g.
     if async g then close_global_nonblock_communication t s else close_global_communication t s)"


section \<open>Arrival\<close>

text \<open>The startup of an operation without blocking: the greatest of the latencies between machines, between nodes and inside nodes.\<close>

definition glop_startup :: "tid \<Rightarrow> 'z coll_sim_scheme \<Rightarrow> timer res" where
  "glop_startup t s =
     bindE (glop_of t s) (\<lambda>g.
     case communicators s (comm_id g) of
       None \<Rightarrow> Inl NullDeref
     | Some c \<Rightarrow>
         let nd = get_node_of_thread t s; p = plat s;
             x = max 0 (max (if same_machine c then 0 else external_net_startup p nd)
                  (max (if same_node c then 0 else remote_startup p nd) (if sharing_node c then local_startup p nd else 0)))
         in Inr (if x < 1 then 0 else x))"

text \<open>\<open>duplicate_thread\<close> copies what a thread keeps for collective operations, too.\<close>

definition duplicate_coll :: "tid \<Rightarrow> 'z coll_sim_scheme \<Rightarrow> (tid \<times> 'z coll_sim_scheme) res" where
  "duplicate_coll t s = bindE (duplicate_thread t s) (\<lambda>(c, s1). Inr (c, s1\<lparr>colls := (colls s1)(c := colls s1 t)\<rparr>))"

text \<open>
  The thread goes on at once (\<open>timer_out\<close> is \<open>SCHEDULER_general\<close> with \<open>SCH_TIMER_OUT\<close>, so its next operations run now), its copy
  gets the next index of the thread and new queues.
\<close>

definition leave_copy :: "(tid \<Rightarrow> 'z coll_sim_scheme \<Rightarrow> 'z coll_sim_scheme run) \<Rightarrow> tid \<Rightarrow> int \<Rightarrow> 'z coll_sim_scheme
    \<Rightarrow> (tid \<times> 'z coll_sim_scheme) run" where
  "leave_copy timer_out t k s =
     bindR (Some (duplicate_coll t (upd_exec t (\<lambda>x. x\<lparr>startup_done := False\<rparr>) s))) (\<lambda>(u, s1).
     bindR (Some (next_action t (set_last_paraver t s1))) (\<lambda>s2.
     let (more, s3) = more_actions t s2 in
     bindR (if more then timer_out t (set_loose_cpu t False s3) else retR s3) (\<lambda>s4.
     let i = nb_glob_index_master (colls s4 t);
         s5 = upd_coll t (\<lambda>x. x\<lparr>n_nonblock_glob_in_flight := n_nonblock_glob_in_flight x + 1, nb_glob_index_master := i + 1\<rparr>) s4;
         s6 = upd_coll u (\<lambda>x. x\<lparr>nb_glob_index := i\<rparr>) s5
     in retR (u, upd_comms k (\<lambda>c. c\<lparr>nb_threads := kq_insert [] i (nb_threads c),
           nb_machine_threads := kq_insert [] i (nb_machine_threads c), nb_with_links := kq_insert [] i (nb_with_links c)\<rparr>) s6))))"

text \<open>Operations without blocking pay the startup first and then leave a copy; \<open>None\<close> says that the thread has to come back.\<close>

definition glop_startup_phase :: "(tid \<Rightarrow> 'z coll_sim_scheme \<Rightarrow> 'z coll_sim_scheme run) \<Rightarrow> tid \<Rightarrow> int \<Rightarrow> 'z coll_sim_scheme
    \<Rightarrow> (tid option \<times> 'z coll_sim_scheme) run" where
  "glop_startup_phase timer_out t k s =
     (if startup_done (execs s t) then bindR (leave_copy timer_out t k s) (\<lambda>(u, s1). retR (Some u, s1))
      else bindR (Some (glop_startup t s)) (\<lambda>x.
        let startup = real_of_int \<lfloor>x\<rfloor> in
        if startup \<noteq> 0
        then bindR (Some (spend (\<lambda>e. e\<lparr>doing_startup := True\<rparr>) t startup s)) (\<lambda>s1. retR (None, s1))
        else bindR (leave_copy timer_out t k (upd_exec t (\<lambda>e. e\<lparr>startup_done := True\<rparr>) s)) (\<lambda>(u, s1). retR (Some u, s1))))"

text \<open>The nodes of each machine and the tasks on each node that take part.\<close>

definition count_node :: "machid \<Rightarrow> nodeid \<Rightarrow> t_communicator \<Rightarrow> t_communicator" where
  "count_node m nd c =
     c\<lparr>nodes_per_machine := (nodes_per_machine c)(m :=
         (let q = nodes_per_machine c m in if kq_query (int nd) q = None then kq_insert nd (int nd) q else q)),
       tasks_per_node := (case kq_query (int nd) (tasks_per_node c) of
           None \<Rightarrow> kq_insert 1 (int nd) (tasks_per_node c)
         | Some n \<Rightarrow> kq_set (int nd) (n + 1) (tasks_per_node c))\<rparr>"

text \<open>
  The choice of a thread of each machine. The loop works with the cursor of the queue: the element under it is the current one,
  taking out the first element leaves no cursor, and then the loop goes on with the first one that is left.
\<close>

definition after_cursor :: "nat option \<Rightarrow> 'a list \<Rightarrow> nat option" where
  "after_cursor cur xs = (case cur of None \<Rightarrow> None | Some j \<Rightarrow> if Suc j < length xs then Some (Suc j) else None)"

definition extract_at :: "nat \<Rightarrow> tid list \<Rightarrow> tid list \<times> nat option" where
  "extract_at j xs =
     (let f = length (takeWhile (\<lambda>x. x \<noteq> xs ! j) xs) in
      (take f xs @ drop (Suc f) xs, if f = j \<and> j = 0 then None else Some (j - 1)))"

fun pick_machines :: "nat \<Rightarrow> (tid \<Rightarrow> int) \<Rightarrow> nat option \<Rightarrow> tid list \<Rightarrow> (tid \<times> int) list \<Rightarrow> (tid list \<times> (tid \<times> int) list) res" where
  "pick_machines 0 mach cur xs ms = Inr (xs, ms)"
| "pick_machines (Suc r) mach cur xs ms =
     (case cur of
        None \<Rightarrow> Inl NullDeref
      | Some j \<Rightarrow>
          let t = xs ! j; new = (kq_query (mach t) ms = None);
              (xs1, cur1) = (if new then extract_at j xs else (xs, Some j));
              cur2 = after_cursor cur1 xs1
          in pick_machines r mach (if cur2 = None \<and> 0 < r \<and> xs1 \<noteq> [] then Some 0 else cur2) xs1
               (if new then kq_insert t (mach t) ms else ms))"

fun all_buses :: "tid list \<Rightarrow> 'z coll_sim_scheme \<Rightarrow> 'z coll_sim_scheme res" where
  "all_buses [] s = Inr s"
| "all_buses (t # ts) s = bindE (global_op_get_all_buses t s) (all_buses ts)"

text \<open>Everybody has arrived: the root stands for its machine, the first other thread of each other machine for that.\<close>

definition contend :: "t_global_op \<Rightarrow> int \<Rightarrow> tid \<Rightarrow> tid list \<Rightarrow> 'z coll_sim_scheme \<Rightarrow> 'z coll_sim_scheme res" where
  "contend g i root' q s =
     bindE (locate_communicator (comm_id g) s) (\<lambda>c.
     bindE (machines_queue (async g) i c) (\<lambda>ms.
     let mach = (\<lambda>t. int (machine_of_thread t s)) in
     bindE (q_extract root' q) (\<lambda>q1.
     bindE (pick_machines (comm_size c - 1) mach (if q1 = [] then None else Some 0) q1 (kq_insert root' (mach root') ms)) (\<lambda>(q2, ms2).
     all_buses (map fst ms2) (upd_comms (comm_id g) (\<lambda>c. set_machines (async g) i ms2 (set_threads (async g) i q2 c)) s)))))"

fun synchronise :: "bool \<Rightarrow> tid list \<Rightarrow> 'z coll_sim_scheme \<Rightarrow> 'z coll_sim_scheme" where
  "synchronise blocking [] s = s"
| "synchronise blocking (t # ts) s = synchronise blocking ts
     ((if blocking then set_last_paraver t else id) (upd_coll t (\<lambda>x. x\<lparr>sync_time := current_time s\<rparr>) s))"

text \<open>The last thread arrives.\<close>

definition glop_complete :: "t_global_op \<Rightarrow> int \<Rightarrow> tid \<Rightarrow> tid list \<Rightarrow> 'z coll_sim_scheme \<Rightarrow> 'z coll_sim_scheme res" where
  "glop_complete g i u q s =
     (let k = comm_id g; a = async g;
          s1 = upd_coll u (\<lambda>x. x\<lparr>sync_time := current_time s\<rparr>) (set_last_paraver u (upd_comm u (\<lambda>x. x\<lparr>number_buses := 0\<rparr>) s));
          s2 = upd_comms k (set_threads a i (q @ [u])) (synchronise (synch_type g = GLOBAL_OP_SYNC) q s1)
      in bindE (locate_communicator k s2) (\<lambda>c.
         let root' = (case root_of a i c of None \<Rightarrow> u | Some r \<Rightarrow> r);
             s3 = (if root_of a i c = None then upd_comms k (set_root a i u) s2 else s2) in
         bindE (case external_glop s3 of
                  None \<Rightarrow> Inr False
                | Some x \<Rightarrow> bindE (glop_of root' s3) (\<lambda>o'. Inr (external_get_global_op_type x (comm_id o') (glop_id o')
                     (to_int (bytes_send o')) (to_int (bytes_recvd o')) = EXTERNAL_GLOBAL_OP_MODEL))) (\<lambda>ext.
         if ext then start_global_op root' True s3 else contend g i root' (q @ [u]) s3)))"

text \<open>The thread (or copy) \<open>u\<close> arrives at the communicator and blocks unless it is the last one.\<close>

definition glop_arrive :: "t_global_op \<Rightarrow> tid \<Rightarrow> 'z coll_sim_scheme \<Rightarrow> 'z coll_sim_scheme res" where
  "glop_arrive g u s =
     (let k = comm_id g; a = async g; i = nb_glob_index (colls s u); nd = get_node_of_thread u s; m = machine_of_node s nd;
          s1 = upd_coll u (\<lambda>x. x\<lparr>arrive_to_collective := current_time s\<rparr>)
                 (upd_comms k (\<lambda>c. (if root_rank g = 1 then set_root a i u else id)
                   (count_node m nd (if a then c else c\<lparr>in_flight_op := True\<rparr>))) s)
      in bindE (locate_communicator k s1) (\<lambda>c.
         bindE (threads_queue a i c) (\<lambda>q.
         if comm_size c \<noteq> length q + 1
         then Inr (upd_comms k (set_threads a i (q @ [u])) (if a then s1 else set_last_paraver u s1))
         else glop_complete g i u q s1)))"

definition GLOBAL_operation :: "(tid \<Rightarrow> 'z coll_sim_scheme \<Rightarrow> 'z coll_sim_scheme run) \<Rightarrow> t_global_op \<Rightarrow> tid \<Rightarrow> 'z coll_sim_scheme
    \<Rightarrow> 'z coll_sim_scheme run" where
  "GLOBAL_operation timer_out g t s =
     (if root_thid g < 0 \<or> to_int (bytes_send g) < 0 \<or> to_int (bytes_recvd g) < 0 then failR AssertFailed
      else
      let s1 = upd_account t (\<lambda>a. a\<lparr>n_group_operations := n_group_operations a + 1\<rparr>) s in
      bindR (Some (locate_communicator (comm_id g) s1)) (\<lambda>c.
      if task_of (threads s1 t) \<notin> set (take (comm_size c) (comm_ranks c)) then failR (Panic ''Thread not valid for communicator'')
      else
      bindR (Some (check_glop (glop_id g) s1)) (\<lambda>_.
      bindR (if async g then glop_startup_phase timer_out t (comm_id g) s1 else retR (Some t, s1)) (\<lambda>(who, s2).
      case who of None \<Rightarrow> retR s2 | Some u \<Rightarrow> Some (glop_arrive g u s2)))))"

text \<open>The wait for any operation without blocking of the thread.\<close>

definition GLOBAL_wait_operation :: "tid \<Rightarrow> 'z coll_sim_scheme \<Rightarrow> 'z coll_sim_scheme res" where
  "GLOBAL_wait_operation t s =
     bindE (if startup_done (execs s t) then Inr 0 else glop_startup t s) (\<lambda>startup.
     if startup \<noteq> 0 then spend (\<lambda>e. e\<lparr>doing_startup := True\<rparr>) t startup s
     else
       let s1 = upd_exec t (\<lambda>e. e\<lparr>startup_done := False, copy_done := False\<rparr>) s; x = colls s1 t in
       if n_nonblock_glob_done x = 0
       then Inr (upd_coll t (\<lambda>x. x\<lparr>n_nonblock_glob_waiting := n_nonblock_glob_waiting x + 1\<rparr>) s1)
       else (case nonblock_glop_done_threads x of
           [] \<Rightarrow> Inl NullDeref
         | u # us \<Rightarrow>
             bindE (delete_duplicate_thread u (upd_coll t (\<lambda>x. x\<lparr>n_nonblock_glob_done := n_nonblock_glob_done x - 1,
                 nonblock_glop_done_threads := us\<rparr>) s1)) (continue_thread t)))"

section \<open>Synchronisation with an accelerator\<close>

definition acc_latency :: "tid \<Rightarrow> tid \<Rightarrow> nodeid \<Rightarrow> 'z coll_sim_scheme \<Rightarrow> (timer \<times> 'z coll_sim_scheme) res" where
  "acc_latency t u nd s = compute_startup t (task_of (threads s t)) (task_of (threads s u)) nd nd 0 0 ACCELERATOR_COM_TYPE None s"

definition begin_acc :: "t_exec \<Rightarrow> t_exec" where
  "begin_acc x = x\<lparr>doing_startup := True, doing_acc_comm := True\<rparr>"

definition ACCELERATOR_check_sync_status :: "tid \<Rightarrow> bool \<Rightarrow> 'z coll_sim_scheme \<Rightarrow> 'z coll_sim_scheme res" where
  "ACCELERATOR_check_sync_status t is_host s =
     (let tk = task_of (threads s t); nd = node_of_task s tk in
      case (host_sync s tk, kernel_sync s tk) of
        (Some hs, Some ks) \<Rightarrow>
          let h = (if is_host then t else hs); k = (if is_host then ks else t) in
          if \<not> accelerator (plat s) nd \<or> \<not> task_accelerator s tk
          then Inl (Panic ''Error in accelerator communication type in a non-accelerator task'')
          else
          bindE (if startup_done (execs s h) then Inr (0, s) else acc_latency h k nd s) (\<lambda>(x, s1).
          if x \<noteq> 0 then spend begin_acc h x s1
          else
          bindE (if startup_done (execs s1 k) then Inr (0, s1)
                 else
                   let s2 = (if acc_recv_sync (execs s1 k)
                             then set_last_paraver k (upd_exec k (\<lambda>e. e\<lparr>acc_recv_sync := False,
                                    acc_in_block_event := (acc_in_block_event e)\<lparr>paraver_time := current_time s1\<rparr>\<rparr>) s1)
                             else s1)
                   in bindE (acc_latency k h nd s2) (\<lambda>(y, s3).
                      Inr (if OCLEventEncoding_Is_OCLSyncBlock (acc_in_block_event (execs s3 h)) then 0 else y, s3))) (\<lambda>(y, s4).
          if y \<noteq> 0 then spend begin_acc k y s4
          else
          bindE (resume k (upd_exec k (\<lambda>e. e\<lparr>startup_done := False\<rparr>) (upd_exec h (\<lambda>e. e\<lparr>startup_done := False\<rparr>) s4))) (\<lambda>s5.
          bindE (acc_latency h k nd s5) (\<lambda>(z0, s6).
          let z = (if OCLEventEncoding_Is_OCLSyncBlock (acc_in_block_event (execs s6 h)) then 0 else z0) in
          bindE (com_timer (current_time s6 + z) h COM_TIMER_OUT
                  (upd_account h (pay_latency z) (upd_exec h (\<lambda>e. e\<lparr>doing_acc_comm := True\<rparr>) (set_loose_cpu h False s6)))) (\<lambda>s7.
          Inr (upd_coll k (\<lambda>x. x\<lparr>blckd_in_global_op := False\<rparr>) (upd_coll h (\<lambda>x. x\<lparr>blckd_in_global_op := False\<rparr>)
            (s7\<lparr>host_sync := (host_sync s7)(tk := None), kernel_sync := (kernel_sync s7)(tk := None),
                kernel_by_comm := (kernel_by_comm s7)(tk := - 1)\<rparr>))))))))
      | _ \<Rightarrow> Inr s)"

definition ACCELERATOR_synchronization :: "tid \<Rightarrow> int \<Rightarrow> 'z coll_sim_scheme \<Rightarrow> 'z coll_sim_scheme res" where
  "ACCELERATOR_synchronization t cid s =
     (let tk = task_of (threads s t); blocked = blckd_in_global_op (colls s t); block = upd_coll t (\<lambda>x. x\<lparr>blckd_in_global_op := True\<rparr>) in
      if host (execs s t) then
        (if host_sync s tk \<noteq> None \<and> \<not> blocked then Inl (Die ''Simultaneous accelerator synchronizations on a single host'')
         else ACCELERATOR_check_sync_status t True
           (if blocked then s
            else block (s\<lparr>host_sync := (host_sync s)(tk := Some t),
                   kernel_by_comm := (kernel_by_comm s)(tk := if cid \<noteq> - 1 then - 1 * (cid + 2) else - 1)\<rparr>)))
      else if kernel (execs s t) then
        (if kernel_sync s tk \<noteq> None \<and> \<not> blocked then Inl (Die ''More than one accelerator thread during synchronization'')
         else if \<not> (kernel_sync s tk \<noteq> None \<and> \<not> blocked) \<and> host_sync s tk \<noteq> None \<and> kernel_by_comm s tk \<noteq> - 1 \<and>
                 kernel_by_comm s tk \<noteq> threadid (execs s t)
         then Inl (Die ''In accelerator synchronization host was waiting another thread'')
         else ACCELERATOR_check_sync_status t False (block (s\<lparr>kernel_sync := (kernel_sync s)(tk := Some t)\<rparr>)))
      else Inl (Die ''A non-accelerator thread is doing and accelerator synchronization''))"

section \<open>The operation of the scheduler and the timers\<close>

definition do_glop :: "(tid \<Rightarrow> 'z coll_sim_scheme \<Rightarrow> 'z coll_sim_scheme run) \<Rightarrow> t_global_op \<Rightarrow> tid \<Rightarrow> 'z coll_sim_scheme
    \<Rightarrow> 'z coll_sim_scheme run" where
  "do_glop timer_out g t s =
     (if comm_id g \<ge> 0 then
        if synch_type g \<noteq> GLOBAL_OP_WAIT then GLOBAL_operation timer_out g t s else Some (GLOBAL_wait_operation t s)
      else Some (ACCELERATOR_synchronization t (comm_id g) s))"

text \<open>The timers of point to point messages and of collective operations together.\<close>

definition group_timers :: "(tid \<Rightarrow> taskid option) \<Rightarrow> 'z coll_sim_scheme others \<Rightarrow> (tid \<Rightarrow> 'z coll_sim_scheme \<Rightarrow> 'z coll_sim_scheme run)
    \<Rightarrow> int \<Rightarrow> tid \<Rightarrow> 'z coll_sim_scheme \<Rightarrow> 'z coll_sim_scheme run" where
  "group_timers w g os = message_timers w (coll_others g) os
     (\<lambda>v t s. if v = COM_TIMER_GROUP_RESOURCES then free_global_communication_resources w g t s
              else Some (COMM_TIMER_GROUP_end t s))"

end
