(* ===== verification/MatchProps.thy ===== *)
theory MatchProps
  imports Matching SchedQueues
begin

text \<open>
  Properties of the point to point protocol (theory \<open>Matching\<close>): what announcements leave behind, which
  message a receive takes, how a rendez-vous waits and starts, and where messages get lost.
\<close>

section \<open>Searches, copies and what they keep\<close>

lemma scan_Some:
  "scan ok fits xs = Inr (Some x) \<longleftrightarrow>
     (\<exists>ys zs. xs = ys @ x # zs \<and> fits x \<and> ok x \<and> (\<forall>y\<in>set ys. ok y \<and> \<not> fits y))"
proof
  show "scan ok fits xs = Inr (Some x) \<Longrightarrow>
     \<exists>ys zs. xs = ys @ x # zs \<and> fits x \<and> ok x \<and> (\<forall>y\<in>set ys. ok y \<and> \<not> fits y)"
  proof (induction xs)
    case (Cons a xs)
    show ?case
    proof (cases "fits a")
      case True
      with Cons.prems have "a # xs = [] @ x # xs \<and> fits x \<and> ok x" by (auto split: if_splits)
      then show ?thesis by fastforce
    next
      case False
      then have "ok a" "scan ok fits xs = Inr (Some x)" using Cons.prems by (auto split: if_splits)
      with Cons.IH obtain ys zs where "a # xs = (a # ys) @ x # zs" "fits x" "ok x" "\<forall>y\<in>set (a # ys). ok y \<and> \<not> fits y"
        using False by auto
      then show ?thesis by blast
    qed
  qed simp
next
  have "fits x \<Longrightarrow> ok x \<Longrightarrow> (\<forall>y\<in>set ys. ok y \<and> \<not> fits y) \<Longrightarrow> scan ok fits (ys @ x # zs) = Inr (Some x)" for ys zs
    by (induction ys) auto
  then show "\<exists>ys zs. xs = ys @ x # zs \<and> fits x \<and> ok x \<and> (\<forall>y\<in>set ys. ok y \<and> \<not> fits y) \<Longrightarrow>
     scan ok fits xs = Inr (Some x)" by blast
qed

lemma scan_None: "scan ok fits xs = Inr None \<longleftrightarrow> (\<forall>x\<in>set xs. ok x \<and> \<not> fits x)"
  by (induction xs) auto

lemma takes_from_iff: "takes_from p u s \<longleftrightarrow> message_fits u p s"
  by (auto simp: takes_from_def takes_def message_fits_def Let_def)

lemma box_q_upd_box: "box_q b (upd_box b' f s) = (if b = b' then f (box_q b s) else box_q b s)"
  by (auto simp: box_q_def upd_box_def split: box.split)

lemma upd_box_simps [simp]:
  "threads (upd_box b f s) = threads s" "execs (upd_box b f s) = execs s" "sends (upd_box b f s) = sends s"
  "recvs (upd_box b f s) = recvs s" "comms (upd_box b f s) = comms s" "next_tid (upd_box b f s) = next_tid s"
  "current_time (upd_box b f s) = current_time s" "Event_queue (upd_box b f s) = Event_queue s"
  "pools (upd_box b f s) = pools s" "links (upd_box b f s) = links s" "scheduler (upd_box b f s) = scheduler s"
  "node_of_task (upd_box b f s) = node_of_task s" "machine_of_node (upd_box b f s) = machine_of_node s"
  "task_threads (upd_box b f s) = task_threads s" "tasks_count (upd_box b f s) = tasks_count s"
  by (simp_all add: upd_box_def split: box.split)

text \<open>What a search compares of a thread.\<close>

definition key :: "'z world_scheme \<Rightarrow> tid \<Rightarrow> int \<times> taskid \<times> t_send \<times> t_recv" where
  "key s c = (threadid (execs s c), task_of (threads s c), sends s c, recvs s c)"

lemma takes_from_key: "key s' p = key s p \<Longrightarrow> key s' u = key s u \<Longrightarrow> takes_from p u s' = takes_from p u s"
  by (simp add: key_def takes_from_def)

lemma key_set_actions: "key (set_actions t as s) u = (if u = t then
    (threadid (execs s t), task_of (threads s t),
     (case as of AC_SEND m # _ \<Rightarrow> m | AC_WAIT_FOR_SEND m # _ \<Rightarrow> m
       | AC_MPI_OS m # _ \<Rightarrow> (sends s t)\<lparr>dest := target_rank m, mess_size := os_size m\<rparr> | _ \<Rightarrow> sends s t),
     (case as of AC_RECV m # _ \<Rightarrow> m | AC_IRECV m # _ \<Rightarrow> m | AC_WAIT m # _ \<Rightarrow> m | _ \<Rightarrow> recvs s t))
  else key s u)"
  by (auto simp: key_def set_actions_def Let_def upd_exec_def upd_thread_def split: list.split action.split)

lemma set_actions_queues [simp]:
  "task_q (set_actions t as s) = task_q s" "thread_q (set_actions t as s) = thread_q s" "next_tid (set_actions t as s) = next_tid s"
  "Event_queue (set_actions t as s) = Event_queue s" "current_time (set_actions t as s) = current_time s"
  "pools (set_actions t as s) = pools s" "links (set_actions t as s) = links s"
  "tasks_count (set_actions t as s) = tasks_count s" "task_threads (set_actions t as s) = task_threads s"
  "comms (set_actions t as s) = comms s"
  by (auto simp: set_actions_def Let_def upd_exec_def upd_thread_def split: list.split action.split)

text \<open>Scheduling parameters change nothing a search compares, and no queue.\<close>

definition same_queues :: "'z world_scheme \<Rightarrow> 'z world_scheme \<Rightarrow> bool" where
  "same_queues s s' \<longleftrightarrow> task_q s' = task_q s \<and> thread_q s' = thread_q s \<and> next_tid s' = next_tid s \<and> key s' = key s \<and>
     Event_queue s' = Event_queue s \<and> current_time s' = current_time s \<and> pools s' = pools s \<and> links s' = links s \<and>
     comms s' = comms s \<and> (\<forall>t. actions (execs s' t) = actions (execs s t)) \<and>
     (\<forall>t. freed (execs s' t) = freed (execs s t)) \<and> original_thread \<circ> threads s' = original_thread \<circ> threads s"

lemma same_queues_refl [simp, intro!]: "same_queues s s"
  by (simp add: same_queues_def)

lemma same_queues_trans: "same_queues a b \<Longrightarrow> same_queues b c \<Longrightarrow> same_queues a c"
  by (simp add: same_queues_def)

lemma same_queues_set_par [simp]: "same_queues s (set_par t p s)"
  by (auto simp: same_queues_def set_par_def upd_exec_def key_def)

lemma same_queues_init: "init_scheduler_parameters t s = Inr s' \<Longrightarrow> same_queues s s'"
  by (auto simp: init_scheduler_parameters_def split: sch_policy.splits option.splits)

lemma same_queues_copy: "copy_parameters t d s = Inr s' \<Longrightarrow> same_queues s s'"
  by (auto simp: copy_parameters_def split: sch_policy.splits sch_par.splits if_splits prod.splits)

lemma boost_sets_par: "SCH_boost_info x i a b s = Inr s' \<Longrightarrow> s' = s \<or> (\<exists>t p. s' = set_par t p s)"
  unfolding SCH_boost_info_def Let_def
  by (cases i; cases b) (auto split: if_splits sch_par.splits)

lemma svr4_sets_par: "svr4_info i a b s = Inr s' \<Longrightarrow> s' = s \<or> (\<exists>t p. s' = set_par t p s)"
  unfolding svr4_info_def by (auto split: if_splits option.splits sch_par.splits)

lemma same_queues_info: "COMMUNICATION_INFO i a b s = Inr s' \<Longrightarrow> same_queues s s'"
  unfolding COMMUNICATION_INFO_def
  by (cases "sch_policy (sch_of a s)") (simp_all, (metis boost_sets_par svr4_sets_par same_queues_refl same_queues_set_par)+)

lemma same_queues_box: "same_queues s s' \<Longrightarrow> box_q b s' = box_q b s"
  by (auto simp: same_queues_def box_q_def split: box.split)

lemma same_queues_takes: "same_queues s s' \<Longrightarrow> takes_from p u s' = takes_from p u s"
  by (rule takes_from_key) (simp_all add: same_queues_def)

text \<open>A copy is a new thread that looks like the old one.\<close>

lemma duplicate_thread_copy:
  assumes "duplicate_thread t s = Inr (c, s')"
  shows "c = next_tid s" "next_tid s' = Suc c" "task_q s' = task_q s" "thread_q s' = (thread_q s)(c := thread_q s t)"
    "u \<noteq> c \<Longrightarrow> key s' u = key s u" "u \<noteq> c \<Longrightarrow> actions (execs s' u) = actions (execs s u)"
    "Event_queue s' = Event_queue s" "current_time s' = current_time s" "pools s' = pools s" "links s' = links s"
    "\<exists>a as. actions (execs s t) = a # as \<and> actions (execs s' c) = [a] \<and>
       (a = AC_SEND (sends s t) \<or> a = AC_RECV (recvs s t) \<or> a = AC_IRECV (recvs s t) \<longrightarrow> key s' c = key s t)"
proof -
  define s0 where "s0 = clone_thread t (next_tid s) (s\<lparr>next_tid := next_tid s + 1\<rparr>)"
  obtain s1 s2 a as where st: "init_scheduler_parameters (next_tid s) s0 = Inr s1"
      "copy_parameters t (next_tid s) s1 = Inr s2" "actions (execs s t) = a # as"
    and r: "c = next_tid s" "s' = set_actions (next_tid s) [a] s2"
    using assms unfolding duplicate_thread_def Let_def s0_def[symmetric] bindE_eq_Inr
    by (cases "actions (execs s t)") auto
  have q: "same_queues s0 s2"
    using same_queues_trans[OF same_queues_init[OF st(1)] same_queues_copy[OF st(2)]] .
  have z: "task_q s0 = task_q s" "thread_q s0 = (thread_q s)(next_tid s := thread_q s t)" "next_tid s0 = Suc (next_tid s)"
    "Event_queue s0 = Event_queue s" "current_time s0 = current_time s" "pools s0 = pools s" "links s0 = links s"
    "key s0 (next_tid s) = key s t" "u \<noteq> next_tid s \<Longrightarrow> key s0 u = key s u"
    "u \<noteq> next_tid s \<Longrightarrow> actions (execs s0 u) = actions (execs s u)" for u
    by (simp_all add: s0_def clone_thread_def key_def)
  note q' = q[unfolded same_queues_def]
  show "c = next_tid s" by (rule r(1))
  show "next_tid s' = Suc c" "task_q s' = task_q s" "thread_q s' = (thread_q s)(c := thread_q s t)"
    "Event_queue s' = Event_queue s" "current_time s' = current_time s" "pools s' = pools s" "links s' = links s"
    using q' z by (simp_all add: r)
  show "u \<noteq> c \<Longrightarrow> key s' u = key s u" "u \<noteq> c \<Longrightarrow> actions (execs s' u) = actions (execs s u)"
    using q' z(9,10)[of u] by (simp_all add: r key_set_actions)
  have k: "key s2 (next_tid s) = key s t" using q' z(8) by simp
  have "a = AC_SEND (sends s t) \<or> a = AC_RECV (recvs s t) \<or> a = AC_IRECV (recvs s t) \<Longrightarrow> key s' c = key s t"
    using k by (auto simp: r key_set_actions) (auto simp: key_def)
  then show "\<exists>a as. actions (execs s t) = a # as \<and> actions (execs s' c) = [a] \<and>
       (a = AC_SEND (sends s t) \<or> a = AC_RECV (recvs s t) \<or> a = AC_IRECV (recvs s t) \<longrightarrow> key s' c = key s t)"
    using st(3) by (auto simp: r)
qed

lemma delete_duplicate_thread_keeps:
  assumes "delete_duplicate_thread u s = Inr s'"
  shows "task_q s' = task_q s" "thread_q s' = thread_q s" "next_tid s' = next_tid s" "key s' v = key s v" "freed (execs s' u)"
    "Event_queue s' = Event_queue s" "actions (execs s' v) = actions (execs s v)"
  using assms by (auto simp: delete_duplicate_thread_def SCHEDULER_free_parameters_def key_def upd_exec_def upd_thread_def
    upd_account_def split: option.splits)

section \<open>Announcements\<close>

text \<open>The queues of announcements; nothing in them matches.\<close>

definition all_matched :: "'z world_scheme \<Rightarrow> bool" where
  "all_matched s \<longleftrightarrow> (\<forall>b. \<forall>u\<in>set (send_without_recv (box_q b s)). \<forall>p\<in>set (recv_without_send (box_q b s)). \<not> takes_from p u s)"

definition announcers :: "'z world_scheme \<Rightarrow> tid set" where
  "announcers s = (\<Union>b. set (send_without_recv (box_q b s)) \<union> set (recv_without_send (box_q b s)))"

definition known :: "'z world_scheme \<Rightarrow> bool" where
  "known s \<longleftrightarrow> (\<forall>u\<in>announcers s. u < next_tid s)"

text \<open>
  A run of announcements of threads that exist. Between them the simulation does other things, which touch neither the copies in the
  queues nor the queues; a copy of a thread has a copy of its queues.
\<close>

definition leaves_announcements :: "'z world_scheme \<Rightarrow> 'z world_scheme \<Rightarrow> bool" where
  "leaves_announcements s s' \<longleftrightarrow> next_tid s \<le> next_tid s' \<and> (\<forall>u\<in>announcers s. key s' u = key s u) \<and>
     (\<forall>b. \<exists>b'. send_without_recv (box_q b s') = send_without_recv (box_q b' s) \<and>
                recv_without_send (box_q b s') = recv_without_send (box_q b' s))"

definition existing :: "box \<Rightarrow> 'z world_scheme \<Rightarrow> bool" where
  "existing b s \<longleftrightarrow> (case b of Of_task _ \<Rightarrow> True | Of_thread t \<Rightarrow> t < next_tid s)"

inductive announcing :: "'z world_scheme \<Rightarrow> 'z world_scheme \<Rightarrow> bool" where
  announce_recv: "COMMUNIC_recv_reached t s = Inr (r, s') \<Longrightarrow> t < next_tid s \<Longrightarrow>
     actions (execs s t) = AC_RECV (recvs s t) # as \<or> actions (execs s t) = AC_IRECV (recvs s t) # as \<Longrightarrow> announcing s s'"
| announce_send: "box_of (dest (sends s t)) (dest_thread (sends s t)) s = Inr b \<Longrightarrow> existing b s \<Longrightarrow>
     COMMUNIC_send_reached b t s = Inr (r, s') \<Longrightarrow> actions (execs s t) = AC_SEND (sends s t) # as \<Longrightarrow> announcing s s'"
| other_step: "leaves_announcements s s' \<Longrightarrow> announcing s s'"

lemma announcersI:
  "u \<in> set (send_without_recv (box_q b s)) \<Longrightarrow> u \<in> announcers s"
  "u \<in> set (recv_without_send (box_q b s)) \<Longrightarrow> u \<in> announcers s"
  by (auto simp: announcers_def)

text \<open>Taking announcements out, with nothing else changed.\<close>

lemma fewer_announcements:
  assumes "all_matched s" "known s" "next_tid s' = next_tid s" "\<And>u. key s' u = key s u"
    and "\<And>b. set (send_without_recv (box_q b s')) \<subseteq> set (send_without_recv (box_q b s))"
    and "\<And>b. set (recv_without_send (box_q b s')) \<subseteq> set (recv_without_send (box_q b s))"
  shows "all_matched s' \<and> known s'"
proof -
  have k: "takes_from p u s' = takes_from p u s" for p u
    by (rule takes_from_key[OF assms(4) assms(4)])
  show ?thesis
    using assms(1,2,5,6) unfolding all_matched_def known_def announcers_def k assms(3) by blast
qed

text \<open>A copy goes into a queue.\<close>

lemma one_more_announcement:
  assumes inv: "all_matched s" "known s" and dup: "duplicate_thread t s = Inr (c, s1)"
    and s': "s' = upd_box b f s1"
    and f: "f = (\<lambda>x. x\<lparr>recv_without_send := recv_without_send x @ [c]\<rparr>) \<or>
            f = (\<lambda>x. x\<lparr>send_without_recv := send_without_recv x @ [c]\<rparr>)"
    and b: "b \<noteq> Of_thread (next_tid s)"
    and new: "\<And>u. u \<in> set (send_without_recv (box_q b s)) \<Longrightarrow>
        f = (\<lambda>x. x\<lparr>recv_without_send := recv_without_send x @ [c]\<rparr>) \<Longrightarrow> \<not> takes_from t u s"
      "\<And>p. p \<in> set (recv_without_send (box_q b s)) \<Longrightarrow>
        f = (\<lambda>x. x\<lparr>send_without_recv := send_without_recv x @ [c]\<rparr>) \<Longrightarrow> \<not> takes_from p t s"
    and same: "key s1 c = key s t"
  shows "all_matched s' \<and> known s'"
proof -
  note d = duplicate_thread_copy[OF dup]
  have c: "c = next_tid s" by (rule d(1))
  have box: "box_q b' s1 = box_q (if b' = Of_thread c then Of_thread t else b') s" for b'
    using d(3,4) by (auto simp: box_q_def split: box.split)
  have key: "key s' u = (if u = c then key s t else key s u)" for u
    using d(5)[of u] same by (simp add: s' key_def)
  have lt: "u \<noteq> c" if "u \<in> announcers s" for u
    using that inv(2) by (auto simp: known_def c)
  have t_old: "takes_from p u s' = takes_from p u s" if "p \<in> announcers s" "u \<in> announcers s" for p u
    using lt[OF that(1)] lt[OF that(2)] by (intro takes_from_key) (simp_all add: key)
  have t_new1: "takes_from c u s' = takes_from t u s" if "u \<in> announcers s" for u
    using lt[OF that] key[of c] key[of u] by (simp add: takes_from_def key_def)
  have t_new2: "takes_from p c s' = takes_from p t s" if "p \<in> announcers s" for p
    using lt[OF that] key[of c] key[of p] by (simp add: takes_from_def key_def)
  have bx: "box_q b' s' = (if b' = b then f (box_q b s) else box_q (if b' = Of_thread c then Of_thread t else b') s)" for b'
    using b by (auto simp: s' box_q_upd_box box c)
  have old: "\<not> takes_from p u s'" if "u \<in> set (send_without_recv (box_q b' s))" "p \<in> set (recv_without_send (box_q b' s))" for u p b'
    using inv(1) that t_old[OF announcersI(2)[OF that(2)] announcersI(1)[OF that(1)]] by (auto simp: all_matched_def)
  have "\<not> takes_from p u s'" if "u \<in> set (send_without_recv (box_q b' s'))" "p \<in> set (recv_without_send (box_q b' s'))" for u p b'
  proof (cases "b' = b")
    case True
    from f show ?thesis
    proof
      assume g: "f = (\<lambda>x. x\<lparr>recv_without_send := recv_without_send x @ [c]\<rparr>)"
      then have "u \<in> set (send_without_recv (box_q b s))" "p = c \<or> p \<in> set (recv_without_send (box_q b s))"
        using that True by (auto simp: bx)
      then show ?thesis using new(1)[OF _ g] old t_new1 announcersI(1) by blast
    next
      assume g: "f = (\<lambda>x. x\<lparr>send_without_recv := send_without_recv x @ [c]\<rparr>)"
      then have "p \<in> set (recv_without_send (box_q b s))" "u = c \<or> u \<in> set (send_without_recv (box_q b s))"
        using that True by (auto simp: bx)
      then show ?thesis using new(2)[OF _ g] old t_new2 announcersI(2) by blast
    qed
  next
    case False
    then show ?thesis using that old by (simp add: bx)
  qed
  moreover have "u < next_tid s'" if "u \<in> announcers s'" for u
  proof -
    from that obtain b' where "u \<in> set (send_without_recv (box_q b' s')) \<union> set (recv_without_send (box_q b' s'))"
      by (auto simp: announcers_def)
    then have "u = c \<or> u \<in> announcers s" using f by (auto simp: bx announcers_def split: if_splits)
    then show ?thesis using inv(2) d(2) by (auto simp: s' known_def c)
  qed
  ultimately show ?thesis by (simp add: all_matched_def known_def)
qed

lemma recv_not_send:
  "(\<lambda>x. x\<lparr>recv_without_send := recv_without_send x @ [c]\<rparr>) \<noteq>
     (\<lambda>x. x\<lparr>send_without_recv := send_without_recv x @ [d]\<rparr> :: t_msgq)"
proof
  assume "(\<lambda>x. x\<lparr>recv_without_send := recv_without_send x @ [c]\<rparr>) =
     (\<lambda>x. x\<lparr>send_without_recv := send_without_recv x @ [d]\<rparr> :: t_msgq)"
  from arg_cong[OF fun_cong[OF this], of recv_without_send] show False by simp
qed

lemma recv_reached_keeps:
  assumes inv: "all_matched s" "known s" and r: "COMMUNIC_recv_reached t s = Inr (r, s')" and t: "t < next_tid s"
    and a: "actions (execs s t) = AC_RECV (recvs s t) # as \<or> actions (execs s t) = AC_IRECV (recvs s t) # as"
  shows "all_matched s' \<and> known s'"
proof -
  define b where "b = own_box t (ori_thread (recvs s t) = - 1) s"
  obtain found where found: "scan (announced t s) (\<lambda>u. message_fits u t s) (send_without_recv (box_q b s)) = Inr found"
    using r by (auto simp: COMMUNIC_recv_reached_def b_def Let_def bindE_eq_Inr split: if_splits)
  show ?thesis
  proof (cases found)
    case None
    obtain c s1 where d: "duplicate_thread t s = Inr (c, s1)"
      and s': "s' = upd_box b (\<lambda>x. x\<lparr>recv_without_send := recv_without_send x @ [c]\<rparr>) s1"
      using r found None by (auto simp: COMMUNIC_recv_reached_def b_def[symmetric] Let_def bindE_eq_Inr split: if_splits)
    have "b \<noteq> Of_thread (next_tid s)" using t by (auto simp: b_def own_box_def)
    moreover have "\<not> takes_from t u s" if "u \<in> set (send_without_recv (box_q b s))" for u
      using found that by (simp add: None scan_None takes_from_iff)
    moreover have "key s1 c = key s t" using duplicate_thread_copy(11)[OF d] a by auto
    ultimately show ?thesis using one_more_announcement[OF inv d s'] recv_not_send by blast
  next
    case (Some u)
    obtain q s1 where q: "q_extract u (send_without_recv (box_q b s)) = Inr q"
      and d: "delete_duplicate_thread u (upd_box b (\<lambda>x. x\<lparr>send_without_recv := q\<rparr>) s) = Inr s'"
      using r found Some by (auto simp: COMMUNIC_recv_reached_def b_def[symmetric] Let_def bindE_eq_Inr split: if_splits)
    note k = delete_duplicate_thread_keeps[OF d]
    have "box_q b' s' = box_q b' (upd_box b (\<lambda>x. x\<lparr>send_without_recv := q\<rparr>) s)" for b'
      by (simp add: box_q_def k split: box.split)
    then have "box_q b' s' = (if b' = b then (box_q b s)\<lparr>send_without_recv := q\<rparr> else box_q b' s)" for b'
      by (simp add: box_q_upd_box)
    moreover have "set q \<subseteq> set (send_without_recv (box_q b s))"
      using q by (auto simp: q_extract_def split: if_splits dest: subsetD[OF set_remove1_subset])
    ultimately show ?thesis
      using k by (intro fewer_announcements[OF inv]) (auto simp: key_def)
  qed
qed

lemma send_reached_keeps:
  assumes inv: "all_matched s" "known s" and r: "COMMUNIC_send_reached b t s = Inr (r, s')" and b: "existing b s"
    and a: "actions (execs s t) = AC_SEND (sends s t) # as"
  shows "all_matched s' \<and> known s'"
proof -
  obtain found where found: "scan (\<lambda>p. task_of (threads s p) = dest (sends s t)) (\<lambda>p. takes_from p t s)
      (recv_without_send (box_q b s)) = Inr found"
    using r by (auto simp: COMMUNIC_send_reached_def bindE_eq_Inr)
  show ?thesis
  proof (cases found)
    case None
    obtain c s1 where d: "duplicate_thread t s = Inr (c, s1)"
      and s': "s' = upd_box b (\<lambda>x. x\<lparr>send_without_recv := send_without_recv x @ [c]\<rparr>) s1"
      using r found None by (auto simp: COMMUNIC_send_reached_def bindE_eq_Inr)
    have "b \<noteq> Of_thread (next_tid s)" using b by (auto simp: existing_def)
    moreover have "\<not> takes_from p t s" if "p \<in> set (recv_without_send (box_q b s))" for p
      using found that by (simp add: None scan_None)
    moreover have "key s1 c = key s t" using duplicate_thread_copy(11)[OF d] a by auto
    ultimately show ?thesis using one_more_announcement[OF inv d s'] recv_not_send by metis
  next
    case (Some p)
    obtain q where q: "q_extract p (recv_without_send (box_q b s)) = Inr q"
      and d: "delete_duplicate_thread p (upd_box b (\<lambda>x. x\<lparr>recv_without_send := q\<rparr>) s) = Inr s'"
      using r found Some by (auto simp: COMMUNIC_send_reached_def bindE_eq_Inr)
    note k = delete_duplicate_thread_keeps[OF d]
    have "box_q b' s' = box_q b' (upd_box b (\<lambda>x. x\<lparr>recv_without_send := q\<rparr>) s)" for b'
      by (simp add: box_q_def k split: box.split)
    then have "box_q b' s' = (if b' = b then (box_q b s)\<lparr>recv_without_send := q\<rparr> else box_q b' s)" for b'
      by (simp add: box_q_upd_box)
    moreover have "set q \<subseteq> set (recv_without_send (box_q b s))"
      using q by (auto simp: q_extract_def split: if_splits dest: subsetD[OF set_remove1_subset])
    ultimately show ?thesis
      using k by (intro fewer_announcements[OF inv]) (auto simp: key_def)
  qed
qed

lemma other_step_keeps:
  assumes inv: "all_matched s" "known s" and l: "leaves_announcements s s'"
  shows "all_matched s' \<and> known s'"
proof -
  have k: "next_tid s \<le> next_tid s'" "u \<in> announcers s \<Longrightarrow> key s' u = key s u" for u
    using l by (simp_all add: leaves_announcements_def)
  obtain from_box where fb: "send_without_recv (box_q b s') = send_without_recv (box_q (from_box b) s)"
      "recv_without_send (box_q b s') = recv_without_send (box_q (from_box b) s)" for b
    using l unfolding leaves_announcements_def by metis
  have "\<not> takes_from p u s'" if "u \<in> set (send_without_recv (box_q b s'))" "p \<in> set (recv_without_send (box_q b s'))" for b p u
  proof -
    have b': "u \<in> set (send_without_recv (box_q (from_box b) s))" "p \<in> set (recv_without_send (box_q (from_box b) s))"
      using that by (simp_all add: fb)
    have "takes_from p u s' = takes_from p u s"
      by (rule takes_from_key[OF k(2)[OF announcersI(2)[OF b'(2)]] k(2)[OF announcersI(1)[OF b'(1)]]])
    then show ?thesis using inv(1) b' by (simp add: all_matched_def)
  qed
  moreover have "u < next_tid s'" if "u \<in> announcers s'" for u
  proof -
    have "u \<in> announcers s" using that fb by (auto simp: announcers_def)
    then show ?thesis using inv(2) k(1) by (auto simp: known_def)
  qed
  ultimately show ?thesis by (simp add: all_matched_def known_def)
qed

lemma announcing_step_keeps: "announcing s s' \<Longrightarrow> all_matched s \<Longrightarrow> known s \<Longrightarrow> all_matched s' \<and> known s'"
proof (induction rule: announcing.induct)
  case (announce_recv t s r s' as)
  then show ?case using recv_reached_keeps by blast
next
  case (announce_send t s b r s' as)
  then show ?case using send_reached_keeps by blast
next
  case (other_step s s')
  then show ?case using other_step_keeps by blast
qed

lemma announcing_keeps: "announcing\<^sup>*\<^sup>* s s' \<Longrightarrow> all_matched s \<and> known s \<Longrightarrow> all_matched s' \<and> known s'"
  by (induction rule: rtranclp_induct) (auto dest: announcing_step_keeps)

text \<open>
  Property C20. Announcements are complete: after any run of arriving sends and receives, from
  empty queues, no announced send fits an announced receive of the same task or thread. So a pair of a send and a
  receive that fit is found, whichever comes first.
\<close>

theorem announcements_never_match:
  assumes "announcing\<^sup>*\<^sup>* s s'"
    and "\<forall>b. send_without_recv (box_q b s) = [] \<and> recv_without_send (box_q b s) = []"
    and "u \<in> set (send_without_recv (box_q b s'))" "p \<in> set (recv_without_send (box_q b s'))"
  shows "\<not> takes_from p u s'"
proof -
  have "all_matched s \<and> known s" using assms(2) by (simp add: all_matched_def known_def announcers_def)
  with announcing_keeps[OF assms(1)] assms(3,4) show ?thesis by (auto simp: all_matched_def)
qed

text \<open>Thread 0 sends to task 1; thread 1, of task 1, receives another tag.\<close>

definition ex_msg :: sim where
  "ex_msg = ex_sim\<lparr>sends := (\<lambda>_. ex_sim_send\<lparr>dest_thread := - 1\<rparr>),
     recvs := (\<lambda>_. ex_sim_recv\<lparr>ori_thread := - 1, recv_tag := 2\<rparr>),
     execs := (\<lambda>t. (ex_sim_exec t)\<lparr>actions := [if t = 1 then AC_RECV (ex_sim_recv\<lparr>ori_thread := - 1, recv_tag := 2\<rparr>)
        else AC_SEND (ex_sim_send\<lparr>dest_thread := - 1\<rparr>)]\<rparr>)\<rparr>"

lemmas eval_msg = COMMUNIC_send_reached_def COMMUNIC_recv_reached_def duplicate_thread_def clone_thread_def
  init_scheduler_parameters_def copy_parameters_def set_actions_def upd_exec_def upd_thread_def upd_box_def box_q_def own_box_def
  par_def set_par_def takes_from_def takes_def announced_def message_fits_def sch_of_def get_node_of_thread_def Let_def

lemma returns_iff: "(case x of Inl _ \<Rightarrow> False | Inr (a, b) \<Rightarrow> P a b) \<longleftrightarrow> (\<exists>a b. x = Inr (a, b) \<and> P a b)"
  by (cases x) auto

lemma ex_announce:
  "case COMMUNIC_send_reached (Of_task 1) 0 ex_msg of Inl _ \<Rightarrow> False
   | Inr (w, s1) \<Rightarrow> \<not> w \<and> next_tid s1 = 4 \<and> recvs s1 1 = recvs ex_msg 1 \<and> actions (execs s1 1) = [AC_RECV (recvs ex_msg 1)] \<and>
       (case COMMUNIC_recv_reached 1 s1 of Inl _ \<Rightarrow> False
        | Inr (v, s2) \<Rightarrow> \<not> v \<and> send_without_recv (box_q (Of_task 1) s2) = [3] \<and> recv_without_send (box_q (Of_task 1) s2) = [4])"
  by (simp add: eval_msg ex_msg_def ex_sim_defs)

theorem announcements_never_match_witness:
  "\<exists>s1 s2. COMMUNIC_send_reached (Of_task 1) 0 ex_msg = Inr (False, s1) \<and> COMMUNIC_recv_reached 1 s1 = Inr (False, s2) \<and>
     send_without_recv (box_q (Of_task 1) s2) = [3] \<and> recv_without_send (box_q (Of_task 1) s2) = [4] \<and> \<not> takes_from 4 3 s2"
proof -
  obtain s1 s2 where h: "COMMUNIC_send_reached (Of_task 1) 0 ex_msg = Inr (False, s1)" "COMMUNIC_recv_reached 1 s1 = Inr (False, s2)"
    "send_without_recv (box_q (Of_task 1) s2) = [3]" "recv_without_send (box_q (Of_task 1) s2) = [4]"
    "next_tid s1 = 4" "actions (execs s1 1) = [AC_RECV (recvs s1 1)]" using ex_announce by (auto simp: returns_iff)
  have "announcing ex_msg s1"
    by (rule announce_send[OF _ _ h(1)]) (simp_all add: box_of_def existing_def ex_msg_def ex_sim_defs)
  moreover have "announcing s1 s2"
    by (rule announce_recv[OF h(2), where as = "[]"]) (use h(5,6) in simp_all)
  ultimately have "announcing\<^sup>*\<^sup>* ex_msg s2" by simp
  moreover have "\<forall>b. send_without_recv (box_q b ex_msg) = [] \<and> recv_without_send (box_q b ex_msg) = []"
    by (simp add: box_q_def ex_msg_def ex_sim_defs split: box.split)
  ultimately have "\<not> takes_from 4 3 s2"
    by (rule announcements_never_match[where b = "Of_task 1"]) (simp_all add: h)
  with h show ?thesis by blast
qed

section \<open>A receiver that waits actively\<close>

text \<open>
  Property C22. A receiver that waits actively loses its message: when the message it waits for arrives
  in its time slice, the message goes to the received ones; at the end of the slice the receiver enters the queue of
  receivers without a look at them. Then the receiver and the message it would take wait in the two queues of the same task.
\<close>

theorem busy_waiter_misses_its_message:
  assumes "locate_task (dest (sends s t)) s = Inr (task_of (threads s p))" "dest_thread (sends s t) = - 1"
    and "ori_thread (recvs s p) = - 1" "takes_from p t s"
    and "recvq (task_q s (task_of (threads s p))) = []" "\<not> extra_assert (plat s)"
    and "doing_busy_wait (execs s p)" "\<not> doing_context_switch (execs s p)" "thread_cpu (execs s p) = Some c"
    and "ready s (get_node_of_thread p s) = []"
  shows "\<exists>s1 s2. message_received t s = Inr s1 \<and> SCHEDULER_timer_out M p s1 = retR s2 \<and>
    t \<in> set (mess_recv (task_q s2 (task_of (threads s2 p)))) \<and> p \<in> set (recvq (task_q s2 (task_of (threads s2 p)))) \<and>
    takes_from p t s2"
proof -
  let ?k = "task_of (threads s p)"
  define s1 where "s1 = upd_box (Of_task ?k) (\<lambda>q. q\<lparr>mess_recv := mess_recv q @ [t]\<rparr>)
    (upd_exec t (\<lambda>x. x\<lparr>physical_recv := current_time s\<rparr>) s)"
  have a: "message_received t s = Inr s1"
    using assms(1,2,5,6)
    by (simp add: message_received_def Let_def box_of_def locate_receiver_def locate_receiver_real_MPI_transfer_def
        box_q_def upd_exec_def keep_message_def s1_def)
  have e: "doing_busy_wait (execs s1 p)" "\<not> doing_context_switch (execs s1 p)" "thread_cpu (execs s1 p) = Some c"
    "threadid (execs s1 u) = threadid (execs s u)" "threads s1 = threads s" "recvs s1 = recvs s" "sends s1 = sends s"
    "ready s1 = ready s" "node_of_task s1 = node_of_task s" "task_q s1 ?k = (task_q s ?k)\<lparr>mess_recv := mess_recv (task_q s ?k) @ [t]\<rparr>" for u
    using assms(7-9) by (auto simp: s1_def upd_exec_def upd_box_def)
  define s2 where "s2 = COMMUNIC_block_after_busy_wait p (upd_exec p (\<lambda>x. x\<lparr>doing_busy_wait := False\<rparr>)
    (upd_cpu c (\<lambda>u. u\<lparr>current_thread := None\<rparr>)
      (upd_thread p (\<lambda>th. th\<lparr>last_paraver := current_time s1\<rparr>) (upd_exec p burst_over s1))))"
  have n: "get_node_of_thread p s1 = get_node_of_thread p s" by (simp add: get_node_of_thread_def e)
  have "ready s2 = ready s"
    by (simp add: s2_def COMMUNIC_block_after_busy_wait_def Let_def upd_exec_def upd_cpu_def upd_thread_def upd_account_def e)
  then have b: "SCHEDULER_timer_out M p s1 = retR s2"
    using e(1-3) assms(10)
    by (simp add: SCHEDULER_timer_out_def Let_def n upd_exec_def upd_cpu_def upd_thread_def burst_over_def
        s2_def[unfolded upd_exec_def upd_cpu_def upd_thread_def burst_over_def, simplified, symmetric])
  have q: "task_q s2 ?k = (task_q s1 ?k)\<lparr>recvq := recvq (task_q s1 ?k) @ [p]\<rparr>" "task_of (threads s2 u) = task_of (threads s u)"
    "sends s2 = sends s" "recvs s2 = recvs s" "threadid (execs s2 u) = threadid (execs s u)" for u
    using assms(3)
    by (simp_all add: s2_def COMMUNIC_block_after_busy_wait_def Let_def upd_exec_def upd_cpu_def upd_thread_def upd_account_def burst_over_def e)
  have "takes_from p t s2" using assms(4) by (simp add: takes_from_def q)
  with a b show ?thesis by (intro exI[of _ s1] exI[of _ s2]) (simp add: q e)
qed


definition ex_busy :: comm_sim where
  "ex_busy = sim.extend (ex_msg\<lparr>recvs := (\<lambda>_. ex_sim_recv\<lparr>ori_thread := - 1\<rparr>),
     execs := (\<lambda>t. (ex_sim_exec t)\<lparr>doing_busy_wait := True\<rparr>)\<rparr>) \<lparr>p2p_comms = []\<rparr>"

theorem busy_waiter_misses_its_message_witness:
  "\<exists>s1 s2. message_received 0 ex_busy = Inr s1 \<and> SCHEDULER_timer_out ex_ops 1 s1 = retR s2 \<and>
    0 \<in> set (mess_recv (task_q s2 (task_of (threads s2 1)))) \<and> 1 \<in> set (recvq (task_q s2 (task_of (threads s2 1)))) \<and>
    takes_from 1 0 s2"
  by (rule busy_waiter_misses_its_message[where c = 1])
    (simp_all add: ex_busy_def sim.defs ex_msg_def ex_sim_defs locate_task_def takes_from_def takes_def)

section \<open>The message a receive takes\<close>

lemma info_log: "COMMUNICATION_INFO i a b s = Inr s' \<Longrightarrow> p2p_comms s' = p2p_comms s"
  unfolding COMMUNICATION_INFO_def
  by (cases "sch_policy (sch_of a s)") (auto simp: set_par_def upd_exec_def dest!: boost_sets_par svr4_sets_par)

lemma tell_miss_keeps:
  "tell_miss t s = Inr s' \<Longrightarrow> same_queues s s' \<and> p2p_comms s' = p2p_comms s"
proof -
  assume h: "tell_miss t s = Inr s'"
  then obtain k where k: "(case task_threads s k of [] \<Rightarrow> Inl OutOfBounds | u # _ \<Rightarrow> COMMUNICATION_INFO SCH_INFO_RECV_MISS u (Some t) s) = Inr s'"
    by (auto simp: tell_miss_def bindE_eq_Inr)
  then show ?thesis by (cases "task_threads s k") (auto simp: info_log same_queues_info)
qed

lemma accept_message_keeps:
  assumes "accept_message b u t s = Inr s'"
  shows "mess_recv (box_q b s') = remove1 u (mess_recv (box_q b s))" "freed (execs s' u)"
    "b' \<noteq> b \<Longrightarrow> box_q b' s' = box_q b' s" "recvq (box_q b s') = recvq (box_q b s)" "sendq (box_q b s') = sendq (box_q b s)"
    "\<exists>n. p2p_comms s' = p2p_comms s @ [n] \<and> p2p_sender n = u \<and> p2p_receiver n = t \<and>
       p2p_size n = mess_size (sends s u) \<and> p2p_tag n = mess_tag (sends s u)"
proof -
  define s1 where "s1 = upd_account t (\<lambda>a. a\<lparr>n_bytes_recv := n_bytes_recv a + mess_size (sends s u)\<rparr>) s"
  obtain q s2 where q: "q_extract u (mess_recv (box_q b s1)) = Inr q"
    and i: "COMMUNICATION_INFO SCH_INFO_RECV_HIT u (Some t) (upd_box b (\<lambda>x. x\<lparr>mess_recv := q\<rparr>) s1) = Inr s2"
    and d: "(let (lr, s3) = logical_receive_in b (ori (recvs s t)) (ori_thread (recvs s t)) (recv_tag (recvs s t))
              (recv_communic_id (recvs s t)) (logical_recv (execs s2 t)) s2
             in delete_duplicate_thread u (set_last_paraver t (log_p2p u t lr s3))) = Inr s'"
    using assms unfolding accept_message_def Let_def s1_def[symmetric] bindE_eq_Inr by blast
  obtain lr s3 where l: "logical_receive_in b (ori (recvs s t)) (ori_thread (recvs s t)) (recv_tag (recvs s t))
      (recv_communic_id (recvs s t)) (logical_recv (execs s2 t)) s2 = (lr, s3)" by (cases rule: prod.exhaust)
  from d l have d': "delete_duplicate_thread u (set_last_paraver t (log_p2p u t lr s3)) = Inr s'" by simp
  note k = delete_duplicate_thread_keeps[OF d']
  obtain nts where s3: "s3 = upd_box b (\<lambda>q. q\<lparr>irecvs_executed := nts\<rparr>) s2"
    using l by (auto simp: logical_receive_in_def split: prod.splits)
  have s2: "same_queues (upd_box b (\<lambda>x. x\<lparr>mess_recv := q\<rparr>) s1) s2" by (rule same_queues_info[OF i])
  have box: "box_q b' s' = (if b' = b then (box_q b s)\<lparr>mess_recv := q, irecvs_executed := nts\<rparr> else box_q b' s)" for b'
  proof -
    have "box_q b' s' = box_q b' s3" by (simp add: box_q_def k set_last_paraver_def upd_thread_def log_p2p_def split: box.split)
    also have "\<dots> = (if b' = b then (box_q b s2)\<lparr>irecvs_executed := nts\<rparr> else box_q b' s2)" by (simp add: s3 box_q_upd_box)
    finally show ?thesis
      by (simp add: same_queues_box[OF s2] box_q_upd_box s1_def) (simp add: box_q_def upd_account_def upd_exec_def split: box.split)
  qed
  have "box_q b s1 = box_q b s" by (simp add: s1_def box_q_def upd_account_def upd_exec_def split: box.split)
  then have "q = remove1 u (mess_recv (box_q b s))" using q by (auto simp: q_extract_def split: if_splits)
  then show "mess_recv (box_q b s') = remove1 u (mess_recv (box_q b s))" "freed (execs s' u)"
    "b' \<noteq> b \<Longrightarrow> box_q b' s' = box_q b' s" "recvq (box_q b s') = recvq (box_q b s)" "sendq (box_q b s') = sendq (box_q b s)"
    using k(5) by (simp_all add: box)
  have "p2p_comms s' = p2p_comms (log_p2p u t lr s3)"
    using d' by (auto simp: delete_duplicate_thread_def SCHEDULER_free_parameters_def upd_exec_def upd_thread_def
        upd_account_def set_last_paraver_def split: option.splits)
  moreover have "p2p_comms s3 = p2p_comms s2" by (simp add: s3 upd_box_def split: box.split)
  moreover have "p2p_comms s2 = p2p_comms s"
    using info_log[OF i] by (simp add: upd_box_def s1_def upd_account_def upd_exec_def split: box.split)
  moreover have "sends s3 u = sends s u"
  proof -
    have "key s2 = key (upd_box b (\<lambda>x. x\<lparr>mess_recv := q\<rparr>) s1)" using s2 by (simp add: same_queues_def)
    from fun_cong[OF this, of u] have "sends s2 u = sends s u"
      by (simp add: key_def s1_def upd_account_def upd_exec_def)
    then show ?thesis by (simp add: s3)
  qed
  ultimately show "\<exists>n. p2p_comms s' = p2p_comms s @ [n] \<and> p2p_sender n = u \<and> p2p_receiver n = t \<and>
       p2p_size n = mess_size (sends s u) \<and> p2p_tag n = mess_tag (sends s u)"
    by (simp add: log_p2p_def)
qed

text \<open>
  Property C21. A receive takes the first message that fits among those received, and no other: the
  message leaves the queue and the rest keeps its order, exactly one communication is logged, from its sender and with its
  size, and the copy of the sender is freed. It answers that it found none only if none fits, and then queues and log are unchanged.
\<close>

theorem receive_takes_the_first_that_fits:
  assumes "is_message_awaiting t s = Inr (there, s')"
  shows "let b = own_box t (ori_thread (recvs s t) = - 1) s in
    if there then
      (\<exists>xs u ys. mess_recv (box_q b s) = xs @ u # ys \<and> message_fits u t s \<and> (\<forall>x\<in>set xs. \<not> message_fits x t s) \<and>
         mess_recv (box_q b s') = xs @ ys \<and> freed (execs s' u) \<and>
         (\<exists>n. p2p_comms s' = p2p_comms s @ [n] \<and> p2p_sender n = u \<and> p2p_receiver n = t \<and> p2p_size n = mess_size (sends s u)))
    else (\<forall>u\<in>set (mess_recv (box_q b s)). \<not> message_fits u t s) \<and> (\<forall>b. box_q b s' = box_q b s) \<and> p2p_comms s' = p2p_comms s"
proof -
  define b where "b = own_box t (ori_thread (recvs s t) = - 1) s"
  define ok where "ok = (\<lambda>u. (dest_thread (sends s u) = - 1 \<longleftrightarrow> ori_thread (recvs s t) = - 1) \<and> dest (sends s u) = task_of (threads s t))"
  obtain found where f: "scan ok (\<lambda>u. message_fits u t s) (mess_recv (box_q b s)) = Inr found"
    and r: "(case found of None \<Rightarrow> bindE (tell_miss t s) (\<lambda>s1. Inr (False, s1))
           | Some u \<Rightarrow> bindE (accept_message b u t s) (\<lambda>s1. bindE (tell_miss t s1) (\<lambda>s2. Inr (True, s2)))) = Inr (there, s')"
    using assms unfolding is_message_awaiting_def Let_def b_def[symmetric] ok_def[symmetric]
    by (auto simp: bindE_eq_Inr[of "scan ok f q" for f q] split: if_splits)
  show ?thesis
  proof (cases found)
    case None
    then have "tell_miss t s = Inr s'" "\<not> there" using r by (auto simp: bindE_eq_Inr)
    with f show ?thesis
      using tell_miss_keeps[of t s s'] same_queues_box[of s s'] by (auto simp: Let_def b_def[symmetric] None scan_None)
  next
    case (Some u)
    then obtain s1 where a: "accept_message b u t s = Inr s1" "tell_miss t s1 = Inr s'" "there"
      using r by (auto simp: bindE_eq_Inr)
    obtain xs ys where x: "mess_recv (box_q b s) = xs @ u # ys" "message_fits u t s" "\<forall>x\<in>set xs. ok x \<and> \<not> message_fits x t s"
      using f by (auto simp: Some scan_Some)
    then have "u \<notin> set xs" by blast
    then have "mess_recv (box_q b s1) = xs @ ys" using accept_message_keeps(1)[OF a(1)] by (simp add: x remove1_append)
    moreover have "freed (execs s' u)" "box_q b s' = box_q b s1" "p2p_comms s' = p2p_comms s1"
      using tell_miss_keeps[OF a(2)] accept_message_keeps(2)[OF a(1)] same_queues_box by (auto simp: same_queues_def)
    ultimately show ?thesis
      using x accept_message_keeps(6)[OF a(1)] a(3) unfolding Let_def b_def[symmetric] by fastforce
  qed
qed


definition ex_received :: comm_sim where
  "ex_received = sim.extend (ex_msg\<lparr>recvs := (\<lambda>_. ex_sim_recv\<lparr>ori_thread := - 1\<rparr>),
     execs := (\<lambda>t. (ex_sim_exec t)\<lparr>twin_thread := Some (t mod 3)\<rparr>),
     task_q := (\<lambda>_. ex_sim_queues\<lparr>mess_recv := [5, 3]\<rparr>)\<rparr>) \<lparr>p2p_comms = []\<rparr>"

lemma ex_takes: "\<exists>s'. is_message_awaiting 1 ex_received = Inr (True, s')"
  by (simp add: is_message_awaiting_def accept_message_def tell_miss_def ex_received_def sim.defs ex_msg_def ex_sim_defs
      eval_msg q_extract_def COMMUNICATION_INFO_def logical_receive_in_def get_logical_receive_def delete_duplicate_thread_def
      SCHEDULER_free_parameters_def set_last_paraver_def log_p2p_def upd_account_def locate_task_def)

theorem receive_takes_the_first_that_fits_witness:
  "\<exists>s' n. is_message_awaiting 1 ex_received = Inr (True, s') \<and> mess_recv (box_q (Of_task 1) s') = [5] \<and>
     p2p_comms s' = [n] \<and> p2p_sender n = 3"
proof -
  obtain s' where h: "is_message_awaiting 1 ex_received = Inr (True, s')" using ex_takes by blast
  have b: "own_box 1 (ori_thread (recvs ex_received 1) = - 1) ex_received = Of_task 1"
    "mess_recv (box_q (Of_task 1) ex_received) = [5, 3]" "p2p_comms ex_received = []"
    by (simp_all add: own_box_def box_q_def ex_received_def sim.defs ex_msg_def ex_sim_defs)
  have m: "\<not> message_fits 5 1 ex_received"
    by (simp add: message_fits_def ex_received_def sim.defs ex_msg_def ex_sim_defs)
  from receive_takes_the_first_that_fits[OF h]
  obtain xs u ys n where x: "[5, 3] = xs @ u # ys" "message_fits u 1 ex_received" "mess_recv (box_q (Of_task 1) s') = xs @ ys"
    "p2p_comms s' = [n]" "p2p_sender n = u" unfolding Let_def b if_True by auto
  from x(1,2) m have "xs = [5]" "u = 3" "ys = []" by (auto simp: Cons_eq_append_conv)
  with h x show ?thesis by auto
qed

section \<open>Any source\<close>

lemma any_scan_found:
  "any_scan ok fits tr xs = Inr (tr', r) \<Longrightarrow>
     (tr' \<longrightarrow> tr \<or> (\<exists>u\<in>set xs. fits u)) \<and>
     (\<forall>u. r = Some u \<longrightarrow> u \<in> set xs \<and> (tr \<or> (\<exists>ys v zs. xs = ys @ v # u # zs \<and> fits v)))"
proof (induction xs arbitrary: tr)
  case (Cons a xs)
  show ?case
  proof (cases tr)
    case False
    then have a: "any_scan ok fits (fits a) xs = Inr (tr', r)" using Cons.prems by (auto split: if_splits)
    note IH = Cons.IH[OF a]
    have "\<exists>ys v zs. a # xs = ys @ v # u # zs \<and> fits v" if r: "r = Some u" for u
    proof (cases "fits a")
      case True
      then have "xs = u # tl xs" using a r by (cases xs) auto
      then have "a # xs = [] @ a # u # tl xs" by simp
      then show ?thesis using True by blast
    next
      case False
      then obtain ys v zs where "a # xs = (a # ys) @ v # u # zs" "fits v" using IH r by auto
      then show ?thesis by blast
    qed
    then show ?thesis using IH by auto
  qed (use Cons.prems in auto)
qed simp

lemma any_source_last:
  assumes "any_source t tr prev ks s = Inr (k, Some u)" "ks \<noteq> []"
  shows "k = last ks \<and> u \<in> set (sendq (task_q s k)) \<and> (tr \<or> (\<exists>j\<in>set (butlast ks). \<exists>v\<in>set (sendq (task_q s j)). offers_task v t s) \<or>
    (\<exists>ys v zs. sendq (task_q s k) = ys @ v # u # zs \<and> offers_task v t s))"
  using assms
proof (induction ks arbitrary: tr prev)
  case (Cons i ks)
  from Cons.prems obtain tr' r where a: "any_scan (\<lambda>u. dest_thread (sends s u) = - 1) (\<lambda>u. offers_task u t s) tr (sendq (task_q s i)) = Inr (tr', r)"
    and b: "any_source t tr' (Inr (i, r)) ks s = Inr (k, Some u)" by (auto simp: bindE_eq_Inr)
  note f = any_scan_found[OF a]
  show ?case
  proof (cases "ks = []")
    case True
    then show ?thesis using b f by auto
  next
    case False
    have l: "last (i # ks) = last ks" "butlast (i # ks) = i # butlast ks" using False by simp_all
    from Cons.IH[OF b False] f show ?thesis unfolding l by (simp only: list.set) blast
  qed
qed simp

text \<open>
  A receive from any source that finds an announced synchronous send never starts the first sender that fits: it only starts a
  sender of the last task, and only when another one that fits comes before, in a task before or as the one just before it
  in the queue; the one that is started need not fit.
\<close>

theorem any_source_skips_the_first_that_fits:
  assumes "ori (recvs s t) = - 1" "locate_sender t s = Inr (k, Some u)" "0 < tasks_count s"
  shows "k = tasks_count s - 1 \<and> u \<in> set (sendq (task_q s k)) \<and>
    ((\<exists>j v. 0 \<le> j \<and> j < k \<and> v \<in> set (sendq (task_q s j)) \<and> offers_task v t s) \<or>
     (\<exists>ys v zs. sendq (task_q s k) = ys @ v # u # zs \<and> offers_task v t s))"
proof -
  let ?ks = "map int [0..<nat (tasks_count s)]"
  have ne: "?ks \<noteq> []" using assms(3) by simp
  have a: "any_source t False (Inl Uninit) ?ks s = Inr (k, Some u)"
    using assms(1,2) by (simp add: locate_sender_def)
  have l: "last ?ks = tasks_count s - 1" using ne assms(3) by (simp add: last_map)
  have b: "0 \<le> j \<and> j < tasks_count s - 1" if "j \<in> set (butlast ?ks)" for j
    using that assms(3) by (cases "nat (tasks_count s)") (auto simp: butlast_append)
  from any_source_last[OF a ne] b show ?thesis unfolding l by blast
qed


text \<open>Thread 1 receives from any source; the threads 0 and 2 wait, the second with a message to another task.\<close>

definition ex_any :: sim where
  "ex_any = ex_msg\<lparr>recvs := (\<lambda>_. ex_sim_recv\<lparr>ori := - 1, ori_thread := - 1\<rparr>),
     sends := (\<lambda>t. ex_sim_send\<lparr>dest_thread := - 1, dest := (if t = 2 then 0 else 1)\<rparr>),
     task_q := (\<lambda>k. ex_sim_queues\<lparr>sendq := (if k = 1 then [] else [nat k])\<rparr>)\<rparr>"

theorem any_source_skips_the_first_that_fits_witness:
  "locate_sender 1 ex_any = Inr (2, Some 2) \<and> \<not> offers_task 2 1 ex_any \<and> offers_task 0 1 ex_any \<and>
   (2 = tasks_count ex_any - 1 \<and> 2 \<in> set (sendq (task_q ex_any 2)))"
proof -
  have a: "locate_sender 1 ex_any = Inr (2, Some 2)" "\<not> offers_task 2 1 ex_any" "offers_task 0 1 ex_any"
    by (simp_all add: locate_sender_def offers_task_def offers_def Let_def upt_rec ex_any_def ex_msg_def ex_sim_defs)
  from any_source_skips_the_first_that_fits[OF _ a(1)]
  have "2 = tasks_count ex_any - 1 \<and> 2 \<in> set (sendq (task_q ex_any 2))" by (simp add: ex_any_def ex_msg_def ex_sim_defs)
  with a show ?thesis by blast
qed

section \<open>Rendez-vous\<close>

lemma duplicate_thread_buses: "duplicate_thread t s = Inr (c, s') \<Longrightarrow> buses s' = buses s"
proof -
  have a: "init_scheduler_parameters d u = Inr v \<Longrightarrow> buses v = buses u" for d u v
    by (auto simp: init_scheduler_parameters_def set_par_def upd_exec_def split: sch_policy.splits option.splits)
  have b: "copy_parameters e d u = Inr v \<Longrightarrow> buses v = buses u" for e d u v
    by (auto simp: copy_parameters_def set_par_def upd_exec_def split: sch_policy.splits sch_par.splits if_splits)
  have c: "buses (set_actions d as u) = buses u" for d as u
    by (auto simp: set_actions_def Let_def upd_exec_def upd_thread_def split: list.split action.split)
  assume "duplicate_thread t s = Inr (c, s')"
  then obtain s1 s2 where "init_scheduler_parameters c (clone_thread t c (s\<lparr>next_tid := next_tid s + 1\<rparr>)) = Inr s1"
      "copy_parameters t c s1 = Inr s2" "buses s' = buses s2"
    by (cases "actions (execs s t)") (auto simp: duplicate_thread_def Let_def bindE_eq_Inr c)
  with a b show ?thesis by (fastforce simp: clone_thread_def)
qed

lemma info_buses: "COMMUNICATION_INFO i a b s = Inr s' \<Longrightarrow> buses s' = buses s"
  unfolding COMMUNICATION_INFO_def
  by (cases "sch_policy (sch_of a s)") (auto simp: set_par_def upd_exec_def dest!: boost_sets_par svr4_sets_par)

text \<open>
  A blocking synchronous send for which no receive is announced and no receiver waits only waits: it does not
  go on with its next action, sets no timer, takes no link and no bus, and is queued once as a sender, behind the others; a copy of it
  announces the message.
\<close>

theorem rendez_vous_waits_without_resources:
  assumes "send_now b t s = retR s'" "rendez_vous (sends s t)" "\<not> immediate (sends s t)"
    and "\<forall>p\<in>set (recv_without_send (box_q b s)). \<not> takes_from p t s"
    and "\<forall>p\<in>set (recvq (box_q b s)). p < next_tid s \<and> \<not> takes_from p t s" "existing b s" "t < next_tid s"
    and "actions (execs s t) = AC_SEND (sends s t) # as"
  shows "actions (execs s' t) = actions (execs s t) \<and> Event_queue s' = Event_queue s \<and> pools s' = pools s \<and> links s' = links s \<and>
    buses s' = buses s \<and>
    (let own = own_box t (dest_thread (sends s t) = - 1) s in
     sendq (box_q own s') = sendq (box_q own s) @ [t] \<and>
     send_without_recv (box_q b s') = send_without_recv (box_q b s) @ [next_tid s] \<and> sends s' (next_tid s) = sends s t)"
proof -
  define s1 where "s1 = upd_account t (\<lambda>a. a\<lparr>n_sends := n_sends a + 1, n_bytes_send := n_bytes_send a + mess_size (sends s t)\<rparr>) s"
  have z: "key s1 u = key s u" "actions (execs s1 u) = actions (execs s u)" "next_tid s1 = next_tid s" "task_q s1 = task_q s"
    "thread_q s1 = thread_q s" "Event_queue s1 = Event_queue s" "pools s1 = pools s" "links s1 = links s" "buses s1 = buses s"
    "threads s1 = threads s" "sends s1 = sends s" "box_q b' s1 = box_q b' s" "existing b' s1 = existing b' s" for u b'
    by (simp_all add: s1_def key_def upd_account_def upd_exec_def box_q_def existing_def split: box.split)
  have tf: "takes_from p t s1 = takes_from p t s" for p by (rule takes_from_key) (simp_all add: z)
  obtain hi s2 where r: "COMMUNIC_send_reached b t s1 = Inr (hi, s2)"
    using assms(1) unfolding send_now_def Let_def s1_def[symmetric]
    by (cases "COMMUNIC_send_reached b t s1") (auto simp: bindR_def retR_def)
  have nr: "\<not> takes_from p t s1" if "p \<in> set (recv_without_send (box_q b s1))" for p using that assms(4) by (simp add: tf z)
  obtain x where x: "scan (\<lambda>p. task_of (threads s1 p) = dest (sends s1 t)) (\<lambda>p. takes_from p t s1)
      (recv_without_send (box_q b s1)) = Inr x"
    using r by (auto simp: COMMUNIC_send_reached_def bindE_eq_Inr)
  have none: "scan (\<lambda>p. task_of (threads s1 p) = dest (sends s1 t)) (\<lambda>p. takes_from p t s1)
      (recv_without_send (box_q b s1)) = Inr None"
  proof (cases x)
    case (Some p)
    then obtain ys zs where "recv_without_send (box_q b s1) = ys @ p # zs" "takes_from p t s1" using x by (auto simp: scan_Some)
    then show ?thesis using nr[of p] by simp
  qed (use x in simp)
  obtain c s0 where d: "duplicate_thread t s1 = Inr (c, s0)" and s2: "\<not> hi"
      "s2 = upd_box b (\<lambda>x. x\<lparr>send_without_recv := send_without_recv x @ [c]\<rparr>) s0"
    using r none by (auto simp: COMMUNIC_send_reached_def bindE_eq_Inr)
  note k = duplicate_thread_copy[OF d]
  have c: "c = next_tid s" using k(1) z(3) by simp
  have key0: "key s0 u = (if u = c then key s t else key s u)" for u
    using k(5)[of u] k(11) assms(8) z(1)[of t] z(1)[of u] z(2)[of t] z(11) by auto
  have box0: "box_q b' s0 = box_q b' s" if "b' \<noteq> Of_thread c" for b'
    using that z(4,5) k(3,4) by (auto simp: box_q_def split: box.split)
  have bc: "b \<noteq> Of_thread c" using assms(6) by (auto simp: existing_def c)
  have tc: "t \<noteq> c" using assms(7) by (simp add: c)
  have key2: "key s2 u = key s0 u" for u by (simp add: s2 key_def)
  have kt: "sends s2 t = sends s t" "threadid (execs s2 t) = threadid (execs s t)" "task_of (threads s2 t) = task_of (threads s t)"
    using key2[of t] key0[of t] tc by (simp_all add: key_def)
  have q2: "recvq (box_q b s2) = recvq (box_q b s)" by (simp add: s2(2) box_q_upd_box box0[OF bc])
  have nt: "\<not> takes_from p t s2" if "p \<in> set (recvq (box_q b s2))" for p
  proof -
    have "p \<noteq> c" "\<not> takes_from p t s" using that assms(5) by (auto simp: q2 c)
    then show ?thesis using takes_from_key[of s2 p s t] key2 key0[of p] key0[of t] tc by simp
  qed
  obtain partner where l: "locate_receiver b t s2 = Inr partner"
    using assms(1) r unfolding send_now_def Let_def s1_def[symmetric]
    by (cases "locate_receiver b t s2") (auto simp: bindR_def retR_def)
  have pn: "partner = None"
  proof (cases partner)
    case (Some p)
    obtain ok where "scan ok (\<lambda>p. takes_from p t s2) (recvq (box_q b s2)) = Inr (Some p)"
      using l unfolding Some locate_receiver_def locate_receiver_real_MPI_transfer_def locate_receiver_dependencies_synchronization_def
      by (cases b) (simp_all split: if_splits)
    then have "p \<in> set (recvq (box_q b s2))" "takes_from p t s2" by (auto simp: scan_Some)
    with nt show ?thesis by blast
  qed
  have s': "s' = upd_box (own_box t (dest_thread (sends s t) = - 1) s) (\<lambda>x. x\<lparr>sendq := sendq x @ [t]\<rparr>) s2"
    using assms(1-3) r s2(1) l pn unfolding send_now_def Let_def s1_def[symmetric]
    by (auto simp: bindR_def retR_def kt wait_for_receiver_def own_box_def split: if_splits)
  let ?o = "own_box t (dest_thread (sends s t) = - 1) s"
  have oc: "?o \<noteq> Of_thread c" using tc by (auto simp: own_box_def)
  have "actions (execs s' t) = actions (execs s t)"
    using k(6)[OF tc] z(2)[of t] by (simp add: s' s2)
  moreover have "Event_queue s' = Event_queue s" "pools s' = pools s" "links s' = links s"
    using k(7,9,10) z by (simp_all add: s' s2)
  moreover have "buses s' = buses s"
    using duplicate_thread_buses[OF d] z by (simp add: s' s2 upd_box_def split: box.split)
  moreover have "sends s' c = sends s t" using key0[of c] by (simp add: s' s2 key_def)
  moreover have "sendq (box_q ?o s') = sendq (box_q ?o s) @ [t]"
    using box0[OF oc] box0[OF bc] by (auto simp: s' s2 box_q_upd_box)
  moreover have "send_without_recv (box_q b s') = send_without_recv (box_q b s) @ [c]"
    using box0[OF bc] by (auto simp: s' s2 box_q_upd_box)
  ultimately show ?thesis by (simp add: Let_def c)
qed

text \<open>Thread 0 sends synchronously to task 1, which has not reached its receive.\<close>

definition ex_rendez_vous :: sim where
  "ex_rendez_vous = ex_sim\<lparr>sends := (\<lambda>_. ex_sim_send\<lparr>dest_thread := - 1, rendez_vous := True\<rparr>),
     execs := (\<lambda>t. (ex_sim_exec t)\<lparr>actions := [AC_SEND (ex_sim_send\<lparr>dest_thread := - 1, rendez_vous := True\<rparr>)]\<rparr>)\<rparr>"

lemma ex_waits: "\<exists>s'. send_now (Of_task 1) 0 ex_rendez_vous = retR s'"
  by (simp add: send_now_def wait_for_receiver_def locate_receiver_def locate_receiver_real_MPI_transfer_def
      ex_rendez_vous_def ex_sim_defs eval_msg upd_account_def bindR_def retR_def)

theorem rendez_vous_waits_without_resources_witness:
  "\<exists>s'. send_now (Of_task 1) 0 ex_rendez_vous = retR s' \<and> sendq (box_q (Of_task 0) s') = [0] \<and>
     send_without_recv (box_q (Of_task 1) s') = [3] \<and> Event_queue s' = []"
proof -
  obtain s' where h: "send_now (Of_task 1) 0 ex_rendez_vous = retR s'" using ex_waits by blast
  have e: "own_box 0 (dest_thread (sends ex_rendez_vous 0) = - 1) ex_rendez_vous = Of_task 0" "box_q x ex_rendez_vous = ex_sim_queues"
    "Event_queue ex_rendez_vous = []" "next_tid ex_rendez_vous = 3" for x
    by (simp_all add: own_box_def box_q_def ex_rendez_vous_def ex_sim_defs split: box.split)
  have "existing (Of_task 1) ex_rendez_vous" by (simp add: existing_def)
  from rendez_vous_waits_without_resources[OF h _ _ _ _ this, where as = "[]"]
  show ?thesis using h by (auto simp: Let_def e) (auto simp: ex_rendez_vous_def ex_sim_defs)
qed

end
