(* ===== verification/CollProps.thy ===== *)
theory CollProps
  imports Collectives MatchProps
begin

text \<open>
  What the collective operations guarantee: one thread stands for each machine, nobody goes on before the last thread has arrived, everybody
  goes on exactly once when the operation ends; and operations without blocking of threads with different histories never meet.
\<close>

section \<open>One thread of every machine\<close>

text \<open>What the loop over the cursor computes: each thread of the queue in turn.\<close>

fun chosen :: "(tid \<Rightarrow> int) \<Rightarrow> tid list \<Rightarrow> (tid \<times> int) list \<Rightarrow> tid list \<times> (tid \<times> int) list" where
  "chosen mach [] ms = ([], ms)"
| "chosen mach (t # ts) ms =
     (if kq_query (mach t) ms = None then chosen mach ts (kq_insert t (mach t) ms)
      else case chosen mach ts ms of (q, ms') \<Rightarrow> (t # q, ms'))"

lemma kq_query_None: "kq_query k q = None \<longleftrightarrow> k \<notin> snd ` set q"
  by (force simp: kq_query_def find_None_iff)

lemma mset_kq_insert: "mset (kq_insert x k q) = {#(x, k)#} + mset q"
  by (simp add: kq_insert_def seq_insert_def mset_ins_before)

lemma set_kq_insert: "set (kq_insert x k q) = insert (x, k) (set q)"
  using arg_cong[OF mset_kq_insert, of set_mset] by simp

lemma extract_at_distinct:
  assumes "distinct (P @ t # R)"
  shows "extract_at (length P) (P @ t # R) = (P @ R, if P = [] then None else Some (length P - 1))"
proof -
  have "takeWhile (\<lambda>x. x \<noteq> t) (P @ t # R) = P" using assms by (subst takeWhile_append2) auto
  then show ?thesis by (simp add: extract_at_def nth_append)
qed

lemma pick_machines_chosen:
  assumes "distinct (P @ R)"
  shows "pick_machines (length R) mach (if R = [] then c else Some (length P)) (P @ R) ms =
    Inr (P @ fst (chosen mach R ms), snd (chosen mach R ms))"
  using assms
proof (induction R arbitrary: P c ms)
  case (Cons t R)
  show ?case
  proof (cases "kq_query (mach t) ms = None")
    case True
    define cur where "cur = after_cursor (if P = [] then None else Some (length P - 1)) (P @ R)"
    have "(if cur = None \<and> 0 < length R \<and> P @ R \<noteq> [] then Some 0 else cur) = (if R = [] then cur else Some (length P))"
      by (cases P; cases R) (auto simp: cur_def after_cursor_def)
    moreover have "pick_machines (length (t # R)) mach (Some (length P)) (P @ t # R) ms = pick_machines (length R) mach
        (if cur = None \<and> 0 < length R \<and> P @ R \<noteq> [] then Some 0 else cur) (P @ R) (kq_insert t (mach t) ms)"
      using True Cons.prems by (simp add: extract_at_distinct Let_def nth_append cur_def)
    ultimately have "pick_machines (length (t # R)) mach (Some (length P)) (P @ t # R) ms =
        pick_machines (length R) mach (if R = [] then cur else Some (length P)) (P @ R) (kq_insert t (mach t) ms)" by simp
    also have "\<dots> = Inr (P @ fst (chosen mach R (kq_insert t (mach t) ms)), snd (chosen mach R (kq_insert t (mach t) ms)))"
      by (rule Cons.IH) (use Cons.prems in simp)
    finally show ?thesis using True by simp
  next
    case False
    then obtain y where y: "kq_query (mach t) ms = Some y" by blast
    define cur where "cur = after_cursor (Some (length P)) (P @ t # R)"
    have "(if cur = None \<and> 0 < length R \<and> P @ t # R \<noteq> [] then Some 0 else cur) = (if R = [] then None else Some (length (P @ [t])))"
      by (cases R) (auto simp: cur_def after_cursor_def)
    moreover have "pick_machines (length (t # R)) mach (Some (length P)) (P @ t # R) ms = pick_machines (length R) mach
        (if cur = None \<and> 0 < length R \<and> P @ t # R \<noteq> [] then Some 0 else cur) (P @ t # R) ms"
      using y by (simp add: Let_def nth_append cur_def)
    ultimately have "pick_machines (length (t # R)) mach (Some (length P)) (P @ t # R) ms =
        pick_machines (length R) mach (if R = [] then None else Some (length (P @ [t]))) ((P @ [t]) @ R) ms" by simp
    also have "\<dots> = Inr ((P @ [t]) @ fst (chosen mach R ms), snd (chosen mach R ms))"
      by (rule Cons.IH) (use Cons.prems in simp)
    finally show ?thesis using y by (simp split: prod.splits)
  qed
qed simp

lemma sorted_kq_insert: "sorted (map snd q) \<Longrightarrow> sorted (map snd (kq_insert x k q))"
  using seq_insert_sorted[of "\<lambda>e. real_of_int (snd e)" q "(x, k)"]
  by (simp add: kq_insert_def sorted_wrt_map)

lemma distinct_kq_insert: "kq_query k q = None \<Longrightarrow> distinct (map snd q) \<Longrightarrow> distinct (map snd (kq_insert x k q))"
proof -
  assume a: "kq_query k q = None" "distinct (map snd q)"
  have "mset (map snd (kq_insert x k q)) = mset (k # map snd q)" by (simp add: mset_kq_insert)
  then show "distinct (map snd (kq_insert x k q))"
    using a mset_eq_imp_distinct_iff by (fastforce simp: kq_query_None)
qed

text \<open>The first thread of each machine that has none in \<open>K\<close>.\<close>

fun first_threads :: "(tid \<Rightarrow> int) \<Rightarrow> int set \<Rightarrow> tid list \<Rightarrow> (tid \<times> int) set" where
  "first_threads mach K [] = {}"
| "first_threads mach K (t # q) = (if mach t \<in> K then first_threads mach K q
     else insert (t, mach t) (first_threads mach (insert (mach t) K) q))"

lemma ex_split_Cons: "(\<exists>xs ys. t # q = xs @ x # ys \<and> P xs) \<longleftrightarrow> (x = t \<and> P []) \<or> (\<exists>xs ys. q = xs @ x # ys \<and> P (t # xs))"
  by (auto simp: Cons_eq_append_conv)

lemma first_threads_iff:
  "(x, m) \<in> first_threads mach K q \<longleftrightarrow> m = mach x \<and> (\<exists>xs ys. q = xs @ x # ys \<and> mach x \<notin> K \<union> mach ` set xs)"
proof (induction q arbitrary: K)
  case (Cons t q)
  have "(\<exists>xs ys. t # q = xs @ x # ys \<and> mach x \<notin> K \<union> mach ` set xs) \<longleftrightarrow>
      (x = t \<and> mach x \<notin> K) \<or> (\<exists>xs ys. q = xs @ x # ys \<and> mach x \<notin> insert (mach t) K \<union> mach ` set xs)"
    unfolding ex_split_Cons[where P = "\<lambda>xs. mach x \<notin> K \<union> mach ` set xs"] by simp
  then show ?case using Cons.IH[of "insert (mach t) K"] by (cases "mach t \<in> K") (auto simp: insert_absorb Cons.IH)
qed simp

lemma first_threads_disjoint: "(t, m) \<in> first_threads mach K q \<Longrightarrow> m = mach t \<and> mach t \<notin> K \<and> t \<in> set q"
  by (auto simp: first_threads_iff)

lemma chosen_machines:
  assumes "chosen mach q ms = (q2, ms2)"
  shows "set ms2 = set ms \<union> first_threads mach (snd ` set ms) q \<and> (sorted (map snd ms) \<longrightarrow> sorted (map snd ms2)) \<and>
    (distinct (map snd ms) \<longrightarrow> distinct (map snd ms2)) \<and>
    (distinct q \<longrightarrow> q2 = filter (\<lambda>t. (t, mach t) \<notin> first_threads mach (snd ` set ms) q) q)"
  using assms
proof (induction q arbitrary: ms q2)
  case (Cons t q)
  define new where "new = (kq_query (mach t) ms = None)"
  define ms1 where "ms1 = (if new then kq_insert t (mach t) ms else ms)"
  obtain q1 where rest: "chosen mach q ms1 = (q1, ms2)" and q2: "q2 = (if new then q1 else t # q1)"
    using Cons.prems by (auto simp: new_def ms1_def split: if_splits prod.splits)
  have m: "snd ` set ms1 = insert (mach t) (snd ` set ms)"
    by (auto simp: ms1_def set_kq_insert new_def kq_query_None image_iff)
  have step: "first_threads mach (snd ` set ms) (t # q) =
      (if new then insert (t, mach t) (first_threads mach (snd ` set ms1) q) else first_threads mach (snd ` set ms1) q)"
    unfolding first_threads.simps m by (auto simp: new_def kq_query_None insert_absorb)
  note IH = Cons.IH[OF rest]
  have "set ms2 = set ms \<union> first_threads mach (snd ` set ms) (t # q)"
    unfolding step IH[THEN conjunct1] by (auto simp: ms1_def set_kq_insert)
  moreover have "sorted (map snd ms) \<longrightarrow> sorted (map snd ms2)" "distinct (map snd ms) \<longrightarrow> distinct (map snd ms2)"
    using IH by (auto simp: ms1_def new_def sorted_kq_insert distinct_kq_insert)
  moreover have "q2 = filter (\<lambda>t'. (t', mach t') \<notin> first_threads mach (snd ` set ms) (t # q)) (t # q)" if d: "distinct (t # q)"
  proof -
    have "(t', mach t') \<notin> first_threads mach (snd ` set ms) (t # q) \<longleftrightarrow>
        (t', mach t') \<notin> first_threads mach (snd ` set ms1) q" if "t' \<in> set q" for t'
      using that d unfolding step by auto
    then have "q1 = filter (\<lambda>t'. (t', mach t') \<notin> first_threads mach (snd ` set ms) (t # q)) q"
      using IH d by (simp cong: filter_cong)
    moreover have "(t, mach t) \<in> first_threads mach (snd ` set ms) (t # q) \<longleftrightarrow> new"
      using d first_threads_disjoint[of t "mach t" mach "snd ` set ms1" q] unfolding step by auto
    ultimately show ?thesis using q2 by simp
  qed
  ultimately show ?case by blast
qed simp_all

text \<open>
  Property C25. When the last thread has arrived, every machine of the operation is represented by exactly one thread, in the
  order of the machines: the machine of the root by the root and every other machine by its thread that arrived first; the others stay in the queue
  in their order. The loop over the cursor does not fail, although taking out the first element loses the cursor.
\<close>

theorem one_thread_of_each_machine:
  assumes "distinct q" "r \<notin> set q"
  shows "\<exists>q2 ms2. pick_machines (length q) mach (if q = [] then None else Some 0) q [(r, mach r)] = Inr (q2, ms2) \<and>
    set ms2 = insert (r, mach r) {(t, mach t) | t xs ys. q = xs @ t # ys \<and> mach t \<notin> mach ` set (r # xs)} \<and>
    sorted (map snd ms2) \<and> distinct (map snd ms2) \<and> q2 = filter (\<lambda>t. (t, mach t) \<notin> set ms2) q"
proof -
  obtain q2 ms2 where c: "chosen mach q [(r, mach r)] = (q2, ms2)" by fastforce
  have p: "pick_machines (length q) mach (if q = [] then None else Some 0) q [(r, mach r)] = Inr (q2, ms2)"
    using pick_machines_chosen[of "[]" q mach None "[(r, mach r)]"] assms(1) c by (cases q) simp_all
  have f: "first_threads mach {mach r} q = {(t, mach t) | t xs ys. q = xs @ t # ys \<and> mach t \<notin> mach ` set (r # xs)}"
  proof (rule set_eqI)
    fix e :: "tid \<times> int"
    obtain a b where e: "e = (a, b)" by fastforce
    show "e \<in> first_threads mach {mach r} q \<longleftrightarrow>
        e \<in> {(t, mach t) | t xs ys. q = xs @ t # ys \<and> mach t \<notin> mach ` set (r # xs)}"
      unfolding e first_threads_iff by simp
  qed
  have s: "set ms2 = insert (r, mach r) (first_threads mach {mach r} q)" "sorted (map snd ms2)" "distinct (map snd ms2)"
    "q2 = filter (\<lambda>t. (t, mach t) \<notin> first_threads mach {mach r} q) q"
    using chosen_machines[OF c] assms(1) by auto
  have "(t, mach t) \<notin> set ms2 \<longleftrightarrow> (t, mach t) \<notin> first_threads mach {mach r} q" if "t \<in> set q" for t
    using that assms(2) s(1) by auto
  then have "q2 = filter (\<lambda>t. (t, mach t) \<notin> set ms2) q"
    by (subst s(4)) (simp cong: filter_cong)
  then show ?thesis using p s(1,2,3) unfolding f by blast
qed

theorem one_thread_of_each_machine_witness:
  "\<exists>q2 ms2. pick_machines (length [4, 1, 2, 5 :: nat]) (\<lambda>t. int (t div 2)) (if [4, 1, 2, 5 :: nat] = [] then None else Some 0) [4, 1, 2, 5]
     [(3, int (3 div 2))] = Inr (q2, ms2) \<and> sorted (map snd ms2)"
proof -
  have d: "distinct [4, 1, 2, 5 :: nat]" "3 \<notin> set [4, 1, 2, 5 :: nat]" by simp_all
  from one_thread_of_each_machine[OF d, of "\<lambda>t. int (t div 2)"] show ?thesis by blast
qed

section \<open>Going on\<close>

text \<open>There is an action after the first one, and it is not the end of the thread.\<close>

definition goes_on :: "action list \<Rightarrow> action list \<Rightarrow> bool" where
  "goes_on as us = (case tl as @ us of [] \<Rightarrow> False | a # _ \<Rightarrow> a \<noteq> AC_DEAD)"

text \<open>Only the thread \<open>t\<close> is changed, and not its account.\<close>

definition only_goes_on :: "tid \<Rightarrow> 'z coll_sim_scheme \<Rightarrow> 'z coll_sim_scheme \<Rightarrow> bool" where
  "only_goes_on t s s' \<longleftrightarrow> communicators s' = communicators s \<and> colls s' = colls s \<and>
     (\<forall>u. u \<noteq> t \<longrightarrow> execs s' u = execs s u \<and> unread s' u = unread s u) \<and> account (execs s' t) = account (execs s t) \<and>
     node_of_task s' = node_of_task s \<and> machine_of_node s' = machine_of_node s \<and>
     (\<forall>u. task_of (threads s' u) = task_of (threads s u)) \<and> scheduler s' = scheduler s \<and> current_time s' = current_time s"

lemma only_goes_on_trans: "only_goes_on t s s' \<Longrightarrow> only_goes_on t s' s'' \<Longrightarrow> only_goes_on t s s''"
  by (simp add: only_goes_on_def)

lemma only_goes_on_set_actions: "only_goes_on t s (set_actions t as s) \<and> ready (set_actions t as s) = ready s"
  by (auto simp: only_goes_on_def set_actions_def Let_def upd_exec_def upd_thread_def split: list.split action.split)

lemma more_actions_goes:
  assumes "goes_on (a # actions (execs s t)) (unread s t)"
  shows "\<exists>s'. more_actions t s = (True, s') \<and> only_goes_on t s s' \<and> ready s' = ready s \<and>
    (\<exists>b bs. actions (execs s' t) = b # bs \<and> b \<noteq> AC_DEAD)"
proof (cases "actions (execs s t)")
  case Nil
  with assms obtain b bs where b: "unread s t = b # bs" "b \<noteq> AC_DEAD" by (auto simp: goes_on_def split: list.splits)
  define s1 where "s1 = s\<lparr>unread := (unread s)(t := bs)\<rparr>"
  have "only_goes_on t s s1 \<and> ready s1 = ready s" by (simp add: s1_def only_goes_on_def)
  moreover note only_goes_on_set_actions[of t s1 "[b]"]
  moreover have "more_actions t s = (True, set_actions t [b] s1)"
    using Nil b by (simp add: more_actions_def READ_get_next_action_def Let_def s1_def split: action.split)
  ultimately show ?thesis using b(2) by (auto intro: only_goes_on_trans)
next
  case (Cons b bs)
  with assms have "b \<noteq> AC_DEAD" by (simp add: goes_on_def)
  with Cons have "more_actions t s = (True, s)" by (simp add: more_actions_def Let_def split: action.split)
  then show ?thesis using Cons \<open>b \<noteq> AC_DEAD\<close> by (simp add: only_goes_on_def)
qed

lemma more_actions_stops:
  assumes "\<not> goes_on (a # actions (execs s t)) (unread s t)"
  shows "\<exists>s'. more_actions t s = (False, s') \<and> only_goes_on t s s' \<and> ready s' = ready s"
proof (cases "actions (execs s t)")
  case Nil
  show ?thesis
  proof (cases "unread s t")
    case u: Nil
    then show ?thesis using Nil
      by (simp add: more_actions_def READ_get_next_action_def Let_def only_goes_on_def upd_thread_def)
  next
    case (Cons b bs)
    with Nil assms have b: "b = AC_DEAD" by (simp add: goes_on_def)
    define s1 where "s1 = s\<lparr>unread := (unread s)(t := bs)\<rparr>"
    have "only_goes_on t s s1 \<and> ready s1 = ready s" by (simp add: s1_def only_goes_on_def)
    moreover note only_goes_on_set_actions[of t s1 "[b]"]
    moreover have "more_actions t s = (False, set_actions t [b] s1)"
      using Nil b Cons by (simp add: more_actions_def READ_get_next_action_def Let_def s1_def)
    ultimately show ?thesis by (auto intro: only_goes_on_trans)
  qed
next
  case (Cons b bs)
  with assms have "b = AC_DEAD" by (simp add: goes_on_def)
  with Cons have "more_actions t s = (False, s)" by (simp add: more_actions_def Let_def)
  then show ?thesis by (simp add: only_goes_on_def)
qed

lemma to_ready_fifo:
  assumes "actions (execs s t) = b # bs" "b \<noteq> AC_DEAD" "\<And>m. sch_policy (scheduler s m) = P_FIFO" "loose_cpu s t"
  shows "\<exists>s'. SCHEDULER_thread_to_ready t s = Inr s' \<and> only_goes_on t s s' \<and>
    ready s' = (ready s)(get_node_of_thread t s := ready s (get_node_of_thread t s) @ [(t, 0)])"
proof -
  have more: "more_actions t s = (True, s)" using assms(1,2) by (simp add: more_actions_def Let_def split: action.split)
  define s2 where "s2 = (if works (actions (execs s t)) then s else set_actions t (AC_WORK 0 # actions (execs s t)) s)"
  define s3 where "s3 = upd_exec t (\<lambda>x. x\<lparr>put_into_ready := current_time s\<rparr>) s2"
  have 2: "only_goes_on t s s2 \<and> ready s2 = ready s" "loose_cpu s2 t"
    using only_goes_on_set_actions[of t s] assms(4) by (simp_all add: s2_def only_goes_on_def)
  then have 3: "only_goes_on t s s3" "ready s3 = ready s" "loose_cpu s3 t"
    by (simp_all add: s3_def only_goes_on_def upd_exec_def)
  then have p: "sch_policy (sch_of t s3) = P_FIFO" "get_node_of_thread t s3 = get_node_of_thread t s"
    using assms(3) by (simp_all add: sch_of_def only_goes_on_def get_node_of_thread_def)
  define s4 where "s4 = upd_ready (get_node_of_thread t s) (\<lambda>q. q @ [(t, 0)]) s3\<lparr>reload_done := True\<rparr>"
  have "SCHEDULER_thread_to_ready t s = Inr s4"
    using p 3(3) by (simp add: SCHEDULER_thread_to_ready_def more Let_def s2_def[symmetric] s3_def[symmetric]
        policy_thread_to_ready_def FIFO_thread_to_ready_def s4_def)
  moreover have "only_goes_on t s s4" using 3(1) by (simp add: s4_def only_goes_on_def upd_ready_def)
  moreover have "ready s4 = (ready s)(get_node_of_thread t s := ready s (get_node_of_thread t s) @ [(t, 0)])"
    using 3(2) by (simp add: s4_def upd_ready_def)
  ultimately show ?thesis by blast
qed

lemma resume_fifo:
  assumes "actions (execs s t) = a # as" "\<And>m. sch_policy (scheduler s m) = P_FIFO"
  shows "\<exists>s'. resume t s = Inr s' \<and> only_goes_on t s s' \<and>
    ready s' = (if goes_on (a # as) (unread s t)
      then (ready s)(get_node_of_thread t s := ready s (get_node_of_thread t s) @ [(t, 0)]) else ready s)"
proof -
  define s1 where "s1 = set_actions t as s"
  have n: "next_action t s = Inr s1" using assms(1) by (simp add: next_action_def s1_def)
  have 1: "only_goes_on t s s1" "ready s1 = ready s" "goes_on (a # as) (unread s t) = goes_on (a # actions (execs s1 t)) (unread s1 t)"
    using only_goes_on_set_actions[of t s as] by (simp_all add: s1_def)
  show ?thesis
  proof (cases "goes_on (a # as) (unread s t)")
    case True
    then obtain s2 b bs where 2: "more_actions t s1 = (True, s2)" "only_goes_on t s1 s2" "ready s2 = ready s1"
        "actions (execs s2 t) = b # bs" "b \<noteq> AC_DEAD"
      using more_actions_goes[of a s1 t] 1(3) by auto
    define s3 where "s3 = set_loose_cpu t True s2"
    have 3: "only_goes_on t s s3" "ready s3 = ready s"
      using only_goes_on_trans[OF 1(1) 2(2)] 1(2) 2(3) by (simp_all add: s3_def only_goes_on_def set_loose_cpu_def)
    have "actions (execs s3 t) = b # bs" "loose_cpu s3 t" using 2(4) by (simp_all add: s3_def set_loose_cpu_def)
    moreover have "\<And>m. sch_policy (scheduler s3 m) = P_FIFO" using 3(1) assms(2) by (simp add: only_goes_on_def)
    ultimately obtain s4 where 4: "SCHEDULER_thread_to_ready t s3 = Inr s4" "only_goes_on t s3 s4"
        "ready s4 = (ready s3)(get_node_of_thread t s3 := ready s3 (get_node_of_thread t s3) @ [(t, 0)])"
      using to_ready_fifo[of s3 t b bs] 2(5) by blast
    have nd: "get_node_of_thread t s3 = get_node_of_thread t s" using 3(1) by (simp add: only_goes_on_def get_node_of_thread_def)
    have "resume t s = Inr (s4\<lparr>reload_done := True\<rparr>)" by (simp add: resume_def n 2(1) s3_def[symmetric] 4(1))
    moreover have "only_goes_on t s (s4\<lparr>reload_done := True\<rparr>)"
      using only_goes_on_trans[OF 3(1) 4(2)] by (simp add: only_goes_on_def)
    ultimately show ?thesis using True 4(3) by (simp add: nd 3(2))
  next
    case False
    then obtain s2 where "more_actions t s1 = (False, s2)" "only_goes_on t s1 s2" "ready s2 = ready s1"
      using more_actions_stops[of a s1 t] 1(3) by auto
    then show ?thesis using False only_goes_on_trans[OF 1(1)] 1(2) by (simp add: resume_def n)
  qed
qed


text \<open>What a thread accounts for an operation that ends now.\<close>

definition accounted :: "timer \<Rightarrow> t_coll \<Rightarrow> t_account \<Rightarrow> t_account" where
  "accounted now x c = c\<lparr>
     block_due_group_operations := (with_resources x - arrive_to_collective x) + block_due_group_operations c,
     group_operations_time := (now - with_resources x) + group_operations_time c\<rparr>"

lemma close_threads_fifo:
  assumes "distinct ts" "\<And>t. t \<in> set ts \<Longrightarrow> actions (execs s t) \<noteq> []" "\<And>m. sch_policy (scheduler s m) = P_FIFO"
    "communicators s k = Some c"
  shows "\<exists>s'. close_threads k ts s = Inr s' \<and>
    (\<forall>nd. ready s' nd = ready s nd @ map (\<lambda>t. (t, 0))
       (filter (\<lambda>t. get_node_of_thread t s = nd \<and> goes_on (actions (execs s t)) (unread s t)) ts)) \<and>
    communicators s' = (communicators s)(k \<mapsto> c\<lparr>comm_threads := if ts = [] then comm_threads c else []\<rparr>) \<and>
    (\<forall>t. account (execs s' t) = (if t \<in> set ts then accounted (current_time s) (colls s t) (account (execs s t))
       else account (execs s t)))"
  using assms
proof (induction ts arbitrary: s c)
  case Nil
  then show ?case by (auto simp: fun_upd_idem)
next
  case (Cons t ts)
  define s1 where "s1 = set_last_paraver t (account_glop t (upd_comms k (\<lambda>c. c\<lparr>comm_threads := ts\<rparr>) s))"
  have s1: "actions (execs s1 u) = actions (execs s u)" "unread s1 = unread s" "scheduler s1 = scheduler s" "ready s1 = ready s"
    "get_node_of_thread u s1 = get_node_of_thread u s" "current_time s1 = current_time s"
    "account (execs s1 u) = (if u = t then accounted (current_time s) (colls s t) (account (execs s t)) else account (execs s u))"
    "communicators s1 = (communicators s)(k \<mapsto> c\<lparr>comm_threads := ts\<rparr>)" "u \<noteq> t \<Longrightarrow> colls s1 u = colls s u" for u
    using Cons.prems(4)
    by (auto simp: s1_def set_last_paraver_def account_glop_def upd_coll_def upd_account_def upd_exec_def upd_thread_def Let_def
        upd_comms_def accounted_def get_node_of_thread_def)
  obtain a as where a: "actions (execs s1 t) = a # as" using Cons.prems(2)[of t] s1(1) by (cases "actions (execs s t)") auto
  obtain s2 where 2: "resume t s1 = Inr s2" "only_goes_on t s1 s2" "ready s2 = (if goes_on (a # as) (unread s1 t)
      then (ready s1)(get_node_of_thread t s1 := ready s1 (get_node_of_thread t s1) @ [(t, 0)]) else ready s1)"
    using resume_fifo[of s1 t a as] a Cons.prems(3) s1(3) by auto
  have t: "t \<notin> set ts" "distinct ts" using Cons.prems(1) by auto
  have kept: "execs s2 u = execs s1 u" "unread s2 u = unread s u" "colls s2 u = colls s u" if "u \<noteq> t" for u
    using 2(2) that s1 by (auto simp: only_goes_on_def)
  have nd: "get_node_of_thread u s2 = get_node_of_thread u s" for u
    using 2(2) s1(5) by (simp add: only_goes_on_def get_node_of_thread_def)
  have "\<exists>s'. close_threads k ts s2 = Inr s' \<and>
    (\<forall>nd. ready s' nd = ready s2 nd @ map (\<lambda>t. (t, 0))
       (filter (\<lambda>t. get_node_of_thread t s2 = nd \<and> goes_on (actions (execs s2 t)) (unread s2 t)) ts)) \<and>
    communicators s' = (communicators s2)(k \<mapsto> (c\<lparr>comm_threads := ts\<rparr>)\<lparr>comm_threads := if ts = [] then comm_threads (c\<lparr>comm_threads := ts\<rparr>) else []\<rparr>) \<and>
    (\<forall>t. account (execs s' t) = (if t \<in> set ts then accounted (current_time s2) (colls s2 t) (account (execs s2 t))
       else account (execs s2 t)))"
  proof (rule Cons.IH[OF t(2)])
    show "actions (execs s2 u) \<noteq> []" if "u \<in> set ts" for u
      using that Cons.prems(2)[of u] kept(1)[of u] t(1) s1(1)[of u] by (cases "u = t") auto
    show "sch_policy (scheduler s2 m) = P_FIFO" for m using 2(2) Cons.prems(3) s1(3) by (simp add: only_goes_on_def)
    show "communicators s2 k = Some (c\<lparr>comm_threads := ts\<rparr>)" using 2(2) s1(8) by (simp add: only_goes_on_def)
  qed
  then obtain s' where s': "close_threads k ts s2 = Inr s'"
    "\<And>nd. ready s' nd = ready s2 nd @ map (\<lambda>t. (t, 0))
       (filter (\<lambda>t. get_node_of_thread t s2 = nd \<and> goes_on (actions (execs s2 t)) (unread s2 t)) ts)"
    "communicators s' = (communicators s2)(k \<mapsto> (c\<lparr>comm_threads := ts\<rparr>)\<lparr>comm_threads := if ts = [] then comm_threads (c\<lparr>comm_threads := ts\<rparr>) else []\<rparr>)"
    "\<And>t. account (execs s' t) = (if t \<in> set ts then accounted (current_time s2) (colls s2 t) (account (execs s2 t))
       else account (execs s2 t))" by blast
  have "close_threads k (t # ts) s = Inr s'" using s'(1) by (simp add: s1_def[symmetric] 2(1))
  moreover have "ready s' n = ready s n @ map (\<lambda>t. (t, 0))
       (filter (\<lambda>t. get_node_of_thread t s = n \<and> goes_on (actions (execs s t)) (unread s t)) (t # ts))" for n
  proof -
    have "filter (\<lambda>t. get_node_of_thread t s2 = n \<and> goes_on (actions (execs s2 t)) (unread s2 t)) ts =
        filter (\<lambda>t. get_node_of_thread t s = n \<and> goes_on (actions (execs s t)) (unread s t)) ts"
      using t(1) kept nd s1(1) by (intro filter_cong) (metis refl, metis)
    then show ?thesis using s'(2)[of n] 2(3) a s1 by auto
  qed
  moreover have "communicators s' = (communicators s)(k \<mapsto> c\<lparr>comm_threads := []\<rparr>)"
    using s'(3) 2(2) s1(8) by (cases "ts = []") (simp_all add: only_goes_on_def)
  moreover have "account (execs s' u) = (if u \<in> set (t # ts) then accounted (current_time s) (colls s u) (account (execs s u))
       else account (execs s u))" for u
  proof -
    have "account (execs s2 u) = account (execs s1 u)" "current_time s2 = current_time s"
      using 2(2) s1(6) by (cases "u = t"; simp add: only_goes_on_def)+
    then show ?thesis using s'(4)[of u] t(1) s1(7)[of u] kept(3)[of u] by auto
  qed
  ultimately show ?case by auto
qed



section \<open>Waiting for the others\<close>

fun arrivals :: "t_global_op \<Rightarrow> tid list \<Rightarrow> 'z coll_sim_scheme \<Rightarrow> 'z coll_sim_scheme res" where
  "arrivals g [] s = Inr s"
| "arrivals g (u # us) s = bindE (glop_arrive g u s) (arrivals g us)"

text \<open>
  Property C23. As long as threads of the communicator are missing, an arrival at a blocking operation only queues the thread: apart
  from the communicator, the times of arrival and those of the trace, the state is the same, so no timer is set, no link or bus is
  taken and no thread becomes ready.
\<close>

theorem nobody_leaves_before_the_last:
  assumes "\<not> async g" "communicators s (comm_id g) = Some c" "length (comm_threads c) + length us < comm_size c"
  shows "\<exists>c' xs ths. arrivals g us s = Inr (s\<lparr>communicators := (communicators s)(comm_id g \<mapsto> c'), colls := xs, threads := ths\<rparr>) \<and>
    comm_threads c' = comm_threads c @ us \<and> comm_size c' = comm_size c \<and> (in_flight_op c' \<longleftrightarrow> us \<noteq> [] \<or> in_flight_op c) \<and>
    (\<forall>t. xs t = (colls s t)\<lparr>arrive_to_collective := if t \<in> set us then current_time s else arrive_to_collective (colls s t)\<rparr>) \<and>
    (\<forall>t. ths t = (threads s t)\<lparr>last_paraver := if t \<in> set us then current_time s else last_paraver (threads s t)\<rparr>)"
  using assms
proof (induction us arbitrary: s c)
  case Nil
  then show ?case by (intro exI[of _ c] exI[of _ "colls s"] exI[of _ "threads s"]) (simp add: fun_upd_idem)
next
  case (Cons u us)
  define c1 where "c1 = (if root_rank g = 1 then set_root False (nb_glob_index (colls s u)) u else id)
      (count_node (machine_of_node s (get_node_of_thread u s)) (get_node_of_thread u s) (c\<lparr>in_flight_op := True\<rparr>))"
  have c1: "comm_threads c1 = comm_threads c" "comm_size c1 = comm_size c" "in_flight_op c1"
    by (simp_all add: c1_def set_root_def count_node_def)
  define c2 where "c2 = c1\<lparr>comm_threads := comm_threads c @ [u]\<rparr>"
  define xs1 where "xs1 = (colls s)(u := (colls s u)\<lparr>arrive_to_collective := current_time s\<rparr>)"
  define ths1 where "ths1 = (threads s)(u := (threads s u)\<lparr>last_paraver := current_time s\<rparr>)"
  define s1 where "s1 = s\<lparr>communicators := (communicators s)(comm_id g \<mapsto> c2), colls := xs1, threads := ths1\<rparr>"
  have arr: "glop_arrive g u s = Inr s1"
    using Cons.prems by (simp add: glop_arrive_def Let_def upd_coll_def upd_comms_def locate_communicator_def c1_def[symmetric] c1
        threads_queue_def set_threads_def s1_def c2_def xs1_def ths1_def set_last_paraver_def upd_thread_def)
  have "length (comm_threads c2) + length us < comm_size c2" using Cons.prems(3) c1 by (simp add: c2_def)
  moreover have "communicators s1 (comm_id g) = Some c2" by (simp add: s1_def)
  moreover note Cons.IH[OF Cons.prems(1)]
  ultimately obtain c' xs ths where r: "arrivals g us s1 = Inr (s1\<lparr>communicators := (communicators s1)(comm_id g \<mapsto> c'), colls := xs, threads := ths\<rparr>)"
    "comm_threads c' = comm_threads c2 @ us" "comm_size c' = comm_size c2" "in_flight_op c' \<longleftrightarrow> us \<noteq> [] \<or> in_flight_op c2"
    "\<forall>t. xs t = (colls s1 t)\<lparr>arrive_to_collective := if t \<in> set us then current_time s1 else arrive_to_collective (colls s1 t)\<rparr>"
    "\<forall>t. ths t = (threads s1 t)\<lparr>last_paraver := if t \<in> set us then current_time s1 else last_paraver (threads s1 t)\<rparr>"
    by blast
  have "arrivals g (u # us) s = Inr (s\<lparr>communicators := (communicators s)(comm_id g \<mapsto> c'), colls := xs, threads := ths\<rparr>)"
    using r(1) by (simp add: arr s1_def)
  moreover have "xs t = (colls s t)\<lparr>arrive_to_collective := if t \<in> set (u # us) then current_time s else arrive_to_collective (colls s t)\<rparr>"
    "ths t = (threads s t)\<lparr>last_paraver := if t \<in> set (u # us) then current_time s else last_paraver (threads s t)\<rparr>" for t
    using r(5,6)[THEN spec[of _ t]] by (simp_all add: s1_def xs1_def ths1_def)
  moreover have "comm_threads c' = comm_threads c @ u # us" "comm_size c' = comm_size c" "in_flight_op c' \<longleftrightarrow> u # us \<noteq> [] \<or> in_flight_op c"
    using r(2-4) by (simp_all add: c2_def c1)
  ultimately show ?case by blast
qed


section \<open>Indexes\<close>

lemma kq_query_insert: "kq_query i q = None \<Longrightarrow> kq_query j (kq_insert x i q) = (if j = i then Some x else kq_query j q)"
proof (induction q)
  case (Cons e q)
  then have "snd e \<noteq> i" "kq_query i q = None" by (auto simp: kq_query_def split: if_splits)
  with Cons.IH show ?case by (cases e) (auto simp: kq_query_def kq_insert_def seq_insert_def)
qed (simp add: kq_query_def kq_insert_def seq_insert_def)

lemma kq_query_set: "kq_query i q \<noteq> None \<Longrightarrow> kq_query j (kq_set i x q) = (if j = i then Some x else kq_query j q)"
  by (induction q) (auto simp: kq_query_def)

lemma set_actions_keeps_colls:
  "communicators (set_actions t as s) = communicators s" "colls (set_actions t as s) = colls s"
  by (auto simp: set_actions_def Let_def upd_exec_def upd_thread_def split: list.split action.split)

lemma more_actions_keeps_colls:
  "communicators (snd (more_actions t s)) = communicators s" "colls (snd (more_actions t s)) = colls s"
  by (auto simp: more_actions_def READ_get_next_action_def Let_def upd_thread_def set_actions_keeps_colls split: list.split action.split)

lemma duplicate_keeps_colls: "duplicate_thread t s = Inr (c, s') \<Longrightarrow> communicators s' = communicators s \<and> colls s' = colls s"
proof -
  have a: "init_scheduler_parameters d u = Inr v \<Longrightarrow> communicators v = communicators u \<and> colls v = colls u" for d u v
    by (auto simp: init_scheduler_parameters_def set_par_def upd_exec_def split: sch_policy.splits option.splits)
  have b: "copy_parameters e d u = Inr v \<Longrightarrow> communicators v = communicators u \<and> colls v = colls u" for e d u v
    by (auto simp: copy_parameters_def set_par_def upd_exec_def split: sch_policy.splits sch_par.splits if_splits)
  have d: "communicators (clone_thread t d u) = communicators u \<and> colls (clone_thread t d u) = colls u" for t d u
    by (simp add: clone_thread_def)
  assume "duplicate_thread t s = Inr (c, s')"
  then obtain s1 s2 where "init_scheduler_parameters c (clone_thread t c (s\<lparr>next_tid := next_tid s + 1\<rparr>)) = Inr s1"
      "copy_parameters t c s1 = Inr s2" "communicators s' = communicators s2" "colls s' = colls s2"
    by (cases "actions (execs s t)") (auto simp: duplicate_thread_def Let_def bindE_eq_Inr set_actions_keeps_colls)
  then show ?thesis using a[of c _ s1] b[of t c s1 s2] d[of t c "s\<lparr>next_tid := next_tid s + 1\<rparr>"] by simp
qed


text \<open>One thread at an operation without blocking whose queues nobody has opened.\<close>

lemma copy_arrives:
  assumes "GLOBAL_operation tm g t s = retR s'" "async g" "communicators s (comm_id g) = Some c" "comm_size c \<noteq> 1"
    "startup_done (execs s t)" "\<forall>t s s'. tm t s = retR s' \<longrightarrow> communicators s' = communicators s \<and> colls s' = colls s"
    "kq_query (nb_glob_index_master (colls s t)) (nb_threads c) = None" "t \<noteq> next_tid s"
  shows "\<exists>c' u. communicators s' (comm_id g) = Some c' \<and> comm_size c' = comm_size c \<and>
    (\<forall>j. kq_query j (nb_threads c') = (if j = nb_glob_index_master (colls s t) then Some [u] else kq_query j (nb_threads c))) \<and>
    (\<forall>v. v \<noteq> next_tid s \<longrightarrow> nb_glob_index_master (colls s' v) = nb_glob_index_master (colls s v) + (if v = t then 1 else 0))"
proof -
  define i where "i = nb_glob_index_master (colls s t)"
  define s1 where "s1 = upd_account t (\<lambda>a. a\<lparr>n_group_operations := n_group_operations a + 1\<rparr>) s"
  have s1: "communicators s1 = communicators s" "colls s1 = colls s" "startup_done (execs s1 t)" "next_tid s1 = next_tid s"
    using assms(5) by (simp_all add: s1_def upd_account_def upd_exec_def)
  define s2 where "s2 = upd_exec t (\<lambda>x. x\<lparr>startup_done := False\<rparr>) s1"
  obtain u s7 where leave: "leave_copy tm t (comm_id g) s1 = retR (u, s7)" and arr: "glop_arrive g u s7 = Inr s'"
    using assms(1,2,3) s1 by (auto simp: GLOBAL_operation_def Let_def s1_def[symmetric] glop_startup_phase_def bindR_eq_retR split: if_splits)
  obtain s3 s4 s6 where d: "duplicate_coll t s2 = Inr (u, s3)" and n: "next_action t (set_last_paraver t s3) = Inr s4" and
    m: "(if fst (more_actions t s4) then tm t (set_loose_cpu t False (snd (more_actions t s4))) else retR (snd (more_actions t s4))) = retR s6" and
    e: "nb_glob_index_master (colls s6 t) = i \<longrightarrow> s7 = upd_comms (comm_id g) (\<lambda>c. c\<lparr>nb_threads := kq_insert [] i (nb_threads c),
           nb_machine_threads := kq_insert [] i (nb_machine_threads c), nb_with_links := kq_insert [] i (nb_with_links c)\<rparr>)
         (upd_coll u (\<lambda>x. x\<lparr>nb_glob_index := i\<rparr>)
           (upd_coll t (\<lambda>x. x\<lparr>n_nonblock_glob_in_flight := n_nonblock_glob_in_flight x + 1, nb_glob_index_master := i + 1\<rparr>) s6))"
    using leave by (auto simp: leave_copy_def Let_def s2_def[symmetric] bindR_eq_retR case_prod_beta)
  have u: "u = next_tid s" "communicators s3 = communicators s" "colls s3 = (colls s)(u := colls s t)"
    using d s1 duplicate_keeps_colls[of t s2] duplicate_thread_copy(1)[of t s2]
    by (auto simp: duplicate_coll_def bindE_eq_Inr s2_def upd_exec_def)
  have "communicators s4 = communicators s3 \<and> colls s4 = colls s3"
    using n by (auto simp: next_action_def set_last_paraver_def upd_thread_def set_actions_def upd_exec_def Let_def
        split: list.splits action.splits)
  then have s6: "communicators s6 = communicators s" "colls s6 = colls s3"
    using m assms(6) u more_actions_keeps_colls[of t s4] by (auto simp: set_loose_cpu_def split: if_splits)
  have tu: "t \<noteq> u" using assms(8) u(1) by simp
  define c7 where "c7 = c\<lparr>nb_threads := kq_insert [] i (nb_threads c),
           nb_machine_threads := kq_insert [] i (nb_machine_threads c), nb_with_links := kq_insert [] i (nb_with_links c)\<rparr>"
  have "nb_glob_index_master (colls s6 t) = i" using s6(2) u(3) tu by (simp add: i_def)
  then have s7: "communicators s7 (comm_id g) = Some c7" "nb_glob_index (colls s7 u) = i"
      "nb_glob_index_master (colls s7 t) = i + 1" "v \<noteq> t \<Longrightarrow> v \<noteq> u \<Longrightarrow> nb_glob_index_master (colls s7 v) = nb_glob_index_master (colls s v)" for v
    using e assms(3) s6 u(3) tu by (simp_all add: upd_comms_def upd_coll_def c7_def)
  have q7: "kq_query j (nb_threads c7) = (if j = i then Some [] else kq_query j (nb_threads c))" for j
    using kq_query_insert[of i "nb_threads c" j] assms(7) by (simp add: c7_def i_def)
  define c8 where "c8 = (if root_rank g = 1 then set_root True i u else id)
      (count_node (machine_of_node s7 (get_node_of_thread u s7)) (get_node_of_thread u s7) c7)"
  have c8: "nb_threads c8 = nb_threads c7" "comm_size c8 = comm_size c" by (simp_all add: c8_def set_root_def count_node_def c7_def)
  have s': "communicators s' (comm_id g) = Some (set_threads True i [u] c8)" "colls s' v = (if v = u then (colls s7 u)\<lparr>arrive_to_collective := current_time s7\<rparr> else colls s7 v)" for v
    using arr assms(2,4) s7(1,2) c8 q7[of i]
    by (auto simp: glop_arrive_def Let_def upd_coll_def upd_comms_def locate_communicator_def c8_def[symmetric]
        threads_queue_def kq_the_def)
  have "kq_query j (nb_threads (set_threads True i [u] c8)) = (if j = i then Some [u] else kq_query j (nb_threads c))" for j
    using kq_query_set[of i "nb_threads c7" j "[u]"] q7 c8 by (simp add: set_threads_def)
  moreover have "nb_glob_index_master (colls s' v) = nb_glob_index_master (colls s v) + (if v = t then 1 else 0)" if "v \<noteq> next_tid s" for v
    using s'(2)[of v] s7(3) s7(4)[of v] that u(1) tu by (cases "v = t") (auto simp: i_def)
  moreover have "comm_size (set_threads True i [u] c8) = comm_size c" using c8(2) by (simp add: set_threads_def)
  ultimately show ?thesis using s'(1) unfolding i_def by blast
qed

text \<open>
  The operations without blocking of a communicator are told apart by a counter of each thread, which counts its operations
  on all communicators. Two threads that did different numbers of them before never meet: each waits in a queue of its own, and the
  difference stays.
\<close>

theorem different_counters_never_meet:
  assumes "async g" "communicators s (comm_id g) = Some c" "comm_size c = 2"
    "GLOBAL_operation tm g t s = retR s1" "GLOBAL_operation tm g u s1 = retR s2" "startup_done (execs s t)" "startup_done (execs s1 u)"
    "\<forall>t s s'. tm t s = retR s' \<longrightarrow> communicators s' = communicators s \<and> colls s' = colls s"
    "t \<noteq> u" "t \<noteq> next_tid s" "u \<noteq> next_tid s" "t \<noteq> next_tid s1" "u \<noteq> next_tid s1"
    "i = nb_glob_index_master (colls s t)" "j = nb_glob_index_master (colls s u)" "i \<noteq> j"
    "kq_query i (nb_threads c) = None" "kq_query j (nb_threads c) = None"
  shows "\<exists>c2 t' u'. communicators s2 (comm_id g) = Some c2 \<and> comm_size c2 = 2 \<and>
    kq_query i (nb_threads c2) = Some [t'] \<and> kq_query j (nb_threads c2) = Some [u'] \<and>
    nb_glob_index_master (colls s2 t) - nb_glob_index_master (colls s2 u) = i - j"
proof -
  obtain c1 t' where 1: "communicators s1 (comm_id g) = Some c1" "comm_size c1 = comm_size c"
    "\<And>l. kq_query l (nb_threads c1) = (if l = i then Some [t'] else kq_query l (nb_threads c))"
    "\<And>v. v \<noteq> next_tid s \<Longrightarrow> nb_glob_index_master (colls s1 v) = nb_glob_index_master (colls s v) + (if v = t then 1 else 0)"
    using copy_arrives[OF assms(4,1,2) _ assms(6,8) _ assms(10)] assms(3,14,17) by auto
  have j: "nb_glob_index_master (colls s1 u) = j" using 1(4)[OF assms(11)] assms(9,15) by simp
  have "kq_query (nb_glob_index_master (colls s1 u)) (nb_threads c1) = None" using 1(3)[of j] assms(16,18) j by simp
  then obtain c2 u' where 2: "communicators s2 (comm_id g) = Some c2" "comm_size c2 = comm_size c1"
    "\<And>l. kq_query l (nb_threads c2) = (if l = j then Some [u'] else kq_query l (nb_threads c1))"
    "\<And>v. v \<noteq> next_tid s1 \<Longrightarrow> nb_glob_index_master (colls s2 v) = nb_glob_index_master (colls s1 v) + (if v = u then 1 else 0)"
    using copy_arrives[OF assms(5,1) 1(1) _ assms(7,8) _ assms(13)] assms(3) 1(2) j by auto
  have "nb_glob_index_master (colls s2 t) = i + 1" "nb_glob_index_master (colls s2 u) = j + 1"
    using 2(4)[OF assms(12)] 2(4)[OF assms(13)] 1(4)[OF assms(10)] j assms(9,14) by auto
  moreover have "kq_query i (nb_threads c2) = Some [t']" using 2(3)[of i] 1(3)[of i] assms(16) by simp
  ultimately show ?thesis using 2(1,2,3) 1(2) assms(3) by auto
qed


section \<open>An example\<close>

text \<open>Threads 0 and 1 of tasks 0 and 1 have the communicator 0; thread 0 did an operation without blocking before.\<close>

definition ex_glop :: "int \<Rightarrow> t_global_op" where
  "ex_glop synch = \<lparr>glop_id = 0, comm_id = 0, root_rank = 0, root_thid = 0, bytes_send = 8, bytes_recvd = 8, synch_type = synch\<rparr>"

definition ex_comm :: "tid list \<Rightarrow> t_communicator" where
  "ex_comm ts = \<lparr>communicator_id = 0, comm_size = 2, comm_ranks = [0, 1], comm_threads = ts, machines_threads = [],
     m_threads_with_links = [], nodes_per_machine = (\<lambda>_. []), tasks_per_node = [], current_root = None, in_flight_op = False,
     nb_threads = [], nb_machine_threads = [], nb_current_root = [], nb_with_links = [], same_machine = True, same_node = False,
     sharing_node = False\<rparr>"

definition ex_coll_thread :: "tid \<Rightarrow> t_coll" where
  "ex_coll_thread t = \<lparr>nb_glob_index = 0, nb_glob_index_master = (if t = 0 then 1 else 0), n_nonblock_glob_in_flight = 0,
     n_nonblock_glob_waiting = 0, n_nonblock_glob_done = 0, nonblock_glop_done_threads = [], arrive_to_collective = 1, sync_time = 2,
     with_resources = 3, conclude_communication = 0, blckd_in_global_op = False\<rparr>"

definition ex_coll :: "int \<Rightarrow> tid list \<Rightarrow> coll_sim" where
  "ex_coll synch ts = comm_sim.extend (sim.extend (ex_sim\<lparr>execs := (\<lambda>t. (ex_sim_exec t)\<lparr>startup_done := True,
       actions := [AC_GLOBAL_OP (ex_glop synch), AC_WORK 7]\<rparr>)\<rparr>) \<lparr>p2p_comms = []\<rparr>)
     \<lparr>communicators = [0 \<mapsto> ex_comm ts], colls = ex_coll_thread, Global_op = [(''MPI_Barrier'', 0)], machine_glops = (\<lambda>_. [(ex_info, 0)]),
      wan_glops = [(ex_info, 0)], machine_glop_model = (\<lambda>_. 0), wan_glop_model = 0, number_machines = 2, number_of_nodes = (\<lambda>_. 2),
      host_sync = (\<lambda>_. None), kernel_sync = (\<lambda>_. None), kernel_by_comm = (\<lambda>_. - 1), external_glop = None\<rparr>"

lemmas ex_coll_defs = ex_coll_def ex_glop_def ex_comm_def ex_coll_thread_def sim.defs comm_sim.defs ex_sim_defs


theorem nobody_leaves_before_the_last_witness:
  "\<exists>c' xs ths. arrivals (ex_glop 1) [1] (ex_coll 1 []) =
     Inr (ex_coll 1 []\<lparr>communicators := (communicators (ex_coll 1 []))(0 \<mapsto> c'), colls := xs, threads := ths\<rparr>) \<and> comm_threads c' = [1]"
proof -
  have h: "\<not> async (ex_glop 1)" "communicators (ex_coll 1 []) (comm_id (ex_glop 1)) = Some (ex_comm [])"
    "length (comm_threads (ex_comm [])) + length [1 :: tid] < comm_size (ex_comm [])"
    by (simp_all add: async_def GLOBAL_OP_ASYN_def ex_coll_defs)
  from nobody_leaves_before_the_last[OF h] show ?thesis by (auto simp: ex_glop_def ex_comm_def)
qed

lemma run_returns_iff: "(case x of Some (Inr s) \<Rightarrow> P s | _ \<Rightarrow> False) \<longleftrightarrow> (\<exists>s. x = retR s \<and> P s)"
  by (auto simp: retR_def split: option.split sum.split)

lemma ex_copies:
  "case GLOBAL_operation (\<lambda>_ s. retR s) (ex_glop 0) 0 (ex_coll 0 []) of Some (Inr s1) \<Rightarrow> startup_done (execs s1 1) \<and> next_tid s1 = 4 \<and>
      (case GLOBAL_operation (\<lambda>_ s. retR s) (ex_glop 0) 1 s1 of Some (Inr s2) \<Rightarrow> True | _ \<Rightarrow> False) | _ \<Rightarrow> False"
  by (simp add: GLOBAL_operation_def upd_account_def upd_exec_def to_int_def locate_communicator_def check_glop_def async_def
      GLOBAL_OP_ASYN_def glop_startup_phase_def leave_copy_def duplicate_coll_def eval_msg next_action_def more_actions_def
      set_last_paraver_def set_loose_cpu_def upd_coll_def upd_comms_def kq_query_def kq_insert_def seq_insert_def
      glop_arrive_def count_node_def threads_queue_def kq_the_def set_threads_def set_root_def bindR_def retR_def ex_coll_defs)

theorem different_counters_never_meet_witness:
  "\<exists>s1 s2 c2 t' u'. GLOBAL_operation (\<lambda>_ s. retR s) (ex_glop 0) 0 (ex_coll 0 []) = retR s1 \<and>
     GLOBAL_operation (\<lambda>_ s. retR s) (ex_glop 0) 1 s1 = retR s2 \<and> communicators s2 0 = Some c2 \<and>
     kq_query 1 (nb_threads c2) = Some [t'] \<and> kq_query 0 (nb_threads c2) = Some [u']"
proof -
  obtain s1 s2 where r: "GLOBAL_operation (\<lambda>_ s. retR s) (ex_glop 0) 0 (ex_coll 0 []) = retR s1"
      "GLOBAL_operation (\<lambda>_ s. retR s) (ex_glop 0) 1 s1 = retR s2" "startup_done (execs s1 1)" "next_tid s1 = 4"
    using ex_copies unfolding run_returns_iff by blast
  have h: "async (ex_glop 0)" "communicators (ex_coll 0 []) (comm_id (ex_glop 0)) = Some (ex_comm [])" "comm_size (ex_comm []) = 2"
    by (simp_all add: async_def GLOBAL_OP_ASYN_def ex_coll_defs)
  have m: "startup_done (execs (ex_coll 0 []) 0)" "(1::int) = nb_glob_index_master (colls (ex_coll 0 []) 0)"
    "(0::int) = nb_glob_index_master (colls (ex_coll 0 []) 1)" "kq_query 1 (nb_threads (ex_comm [])) = None"
    "kq_query 0 (nb_threads (ex_comm [])) = None" "next_tid (ex_coll 0 []) = 3"
    by (simp_all add: ex_coll_defs kq_query_def)
  have "\<exists>c2 t' u'. communicators s2 (comm_id (ex_glop 0)) = Some c2 \<and> comm_size c2 = 2 \<and>
    kq_query 1 (nb_threads c2) = Some [t'] \<and> kq_query 0 (nb_threads c2) = Some [u'] \<and>
    nb_glob_index_master (colls s2 0) - nb_glob_index_master (colls s2 1) = 1 - 0"
    by (rule different_counters_never_meet[OF h r(1,2) m(1) r(3) _ _ _ _ _ _ m(2,3) _ m(4,5)]) (simp_all add: m(6) r(4))
  with r(1,2) show ?thesis by (auto simp: ex_glop_def)
qed

end
