(* ===== verification/OneSided.thy ===== *)
theory OneSided
  imports CollProps
begin

text \<open>
  One-sided operations and copies of memory (\<^verbatim>\<open>model/memory.c\<close>: \<open>ONE_SIDED_operation\<close>, the functions \<open>os_*\<close>,
  \<open>MEMORY_*\<close>; \<^verbatim>\<open>model/task.c\<close>: the construction of windows). A window is in one mode at a time: fence, lock, or post and start.
  An access leaves a copy of the thread that transfers the data (\<open>really_RMA\<close>, theory \<open>Sends\<close>); at its end \<open>os_completed\<close> looks
  for those who wait for it. The functions \<open>os_post\<close>, \<open>are_there_pending_start\<close> and \<open>are_there_pending_waits\<close> call each other.
\<close>

section \<open>Windows\<close>

definition WINDOW_MODE_NONE :: int where "WINDOW_MODE_NONE = 0"
definition WINDOW_MODE_FENCE :: int where "WINDOW_MODE_FENCE = 1"
definition WINDOW_MODE_LOCK :: int where "WINDOW_MODE_LOCK = 2"
definition WINDOW_MODE_POST :: int where "WINDOW_MODE_POST = 3"
definition MPI_OS_GETPUT :: int where "MPI_OS_GETPUT = 0"
definition MPI_OS_FENCE :: int where "MPI_OS_FENCE = 1"
definition MPI_OS_LOCK :: int where "MPI_OS_LOCK = 2"
definition MPI_OS_POST :: int where "MPI_OS_POST = 3"
definition MPI_OS_LOCK_LOCK :: int where "MPI_OS_LOCK_LOCK = 0"
definition MPI_OS_LOCK_UNLOCK :: int where "MPI_OS_LOCK_UNLOCK = 1"
definition MPI_OS_LOCK_SHARED :: int where "MPI_OS_LOCK_SHARED = 0"
definition MPI_OS_LOCK_EXCLUS :: int where "MPI_OS_LOCK_EXCLUS = 1"
definition MPI_OS_POST_POST :: int where "MPI_OS_POST_POST = 0"
definition MPI_OS_POST_START :: int where "MPI_OS_POST_START = 1"
definition MPI_OS_POST_COMPLETE :: int where "MPI_OS_POST_COMPLETE = 2"
definition MPI_OS_POST_WAIT :: int where "MPI_OS_POST_WAIT = 3"

record t_window =
  global_ranks :: "taskid list"
  win_mode :: int
  fence_tasks :: "tid list"
  fence_operations :: "tid list"
  task_with_lock :: "taskid option"
  lock_mode :: int
  threads_with_lock :: "tid list"
  threads_waiting_lock :: "tid list"
  threads_waiting_unlock :: "tid list"
  lock_operations :: "tid list"
  post_done :: "tid list"
  start_done :: "tid list"
  pending_of_post :: "tid list"
  pending_rma_to_complete :: "tid list"
  complete_done :: "tid list"
  pending_wait_to_complete :: "tid list"
  post_operations :: "tid list"

record os_sim = coll_sim +
  windows :: "int \<Rightarrow> t_window option"
  local_memory_startup :: "nodeid \<Rightarrow> real"
  remote_memory_startup :: "nodeid \<Rightarrow> real"

definition upd_win :: "int \<Rightarrow> (t_window \<Rightarrow> t_window) \<Rightarrow> 'z os_sim_scheme \<Rightarrow> 'z os_sim_scheme" where
  "upd_win k f s = s\<lparr>windows := (windows s)(k := map_option f (windows s k))\<rparr>"

definition new_window_definition :: "int \<Rightarrow> 'z os_sim_scheme \<Rightarrow> 'z os_sim_scheme res" where
  "new_window_definition k s = (case windows s k of
      Some _ \<Rightarrow> Inl (Panic ''Redefinition of window'')
    | None \<Rightarrow> Inr (s\<lparr>windows := (windows s)(k \<mapsto>
        \<lparr>global_ranks = [], win_mode = WINDOW_MODE_NONE, fence_tasks = [], fence_operations = [], task_with_lock = None,
         lock_mode = MPI_OS_LOCK_SHARED, threads_with_lock = [], threads_waiting_lock = [], threads_waiting_unlock = [],
         lock_operations = [], post_done = [], start_done = [], pending_of_post = [], pending_rma_to_complete = [],
         complete_done = [], pending_wait_to_complete = [], post_operations = []\<rparr>)\<rparr>))"

text \<open>The identifier \<open>- 1\<close> stands for all tasks. What is stored is one more than the task.\<close>

definition add_identificator_to_window :: "int \<Rightarrow> taskid \<Rightarrow> 'z os_sim_scheme \<Rightarrow> 'z os_sim_scheme res" where
  "add_identificator_to_window k tk s = (case windows s k of
      None \<Rightarrow> Inl (Panic ''Unable to locate window'')
    | Some _ \<Rightarrow>
        if tk = - 1 then Inr (upd_win k (\<lambda>w. w\<lparr>global_ranks := global_ranks w @ map (\<lambda>i. int i + 1) [0..<nat (tasks_count s)]\<rparr>) s)
        else if tk > tasks_count s then Inl (Panic ''Specified rank not valid in this Ptask'')
        else Inr (upd_win k (\<lambda>w. w\<lparr>global_ranks := global_ranks w @ [tk + 1]\<rparr>) s))"

definition no_more_identificator_to_window :: "int \<Rightarrow> 'z os_sim_scheme \<Rightarrow> 'z os_sim_scheme res" where
  "no_more_identificator_to_window k s = (case windows s k of None \<Rightarrow> Inl (Panic ''Unable to locate window'') | Some _ \<Rightarrow> Inr s)"

definition os_of :: "tid \<Rightarrow> 'z os_sim_scheme \<Rightarrow> t_mpi_os res" where
  "os_of t s = (case actions (execs s t) of [] \<Rightarrow> Inl NullDeref | AC_MPI_OS m # _ \<Rightarrow> Inr m | _ # _ \<Rightarrow> Inl Uninit)"

definition locate_window :: "int \<Rightarrow> 'z os_sim_scheme \<Rightarrow> t_window res" where
  "locate_window k s = (case windows s k of
     None \<Rightarrow> Inl (Panic ''Unable to locate window with identificator'') | Some w \<Rightarrow> Inr w)"

text \<open>The first rank of an empty window is read through NULL.\<close>

definition from_rank_to_task :: "t_window \<Rightarrow> int \<Rightarrow> taskid res" where
  "from_rank_to_task w r =
     (if 0 \<le> r \<and> r < int (length (global_ranks w)) then Inr (global_ranks w ! nat r)
      else if r = 0 then Inl NullDeref else Inl (Panic ''Unable to locate rank in window''))"

definition get_node_for_task_by_name :: "taskid \<Rightarrow> 'z os_sim_scheme \<Rightarrow> nodeid res" where
  "get_node_for_task_by_name tk s =
     (if tk < 0 \<or> tk \<ge> tasks_count s then Inl (Panic ''Incorrect task identifier'') else Inr (node_of_task s tk))"

definition from_taskid_to_task :: "taskid \<Rightarrow> 'z os_sim_scheme \<Rightarrow> taskid res" where
  "from_taskid_to_task tk s = (if 0 \<le> tk \<and> tk < tasks_count s then Inr tk else Inl (Panic ''Unable to locate task''))"

text \<open>The target of the operation of a thread, for the senders that wake waiters.\<close>

definition rma_target :: "'z os_sim_scheme \<Rightarrow> tid \<Rightarrow> taskid res" where
  "rma_target s t = bindE (os_of t s) (\<lambda>m. bindE (locate_window (window_id m) s) (\<lambda>w.
     bindE (from_rank_to_task w (target_rank m)) (\<lambda>k. bindE (get_node_for_task_by_name k s) (\<lambda>_. Inr k))))"

section \<open>Fences\<close>

text \<open>The threads at the fence go on.\<close>

fun leave_fence :: "int \<Rightarrow> tid \<Rightarrow> tid list \<Rightarrow> 'z os_sim_scheme \<Rightarrow> 'z os_sim_scheme res" where
  "leave_fence k t [] s = Inr s"
| "leave_fence k t (u # us) s =
     bindE (next_action u (set_last_paraver u (upd_win k (\<lambda>w. w\<lparr>fence_tasks := us\<rparr>) s))) (\<lambda>s1.
     let (more, s2) = more_actions u s1 in
     bindE (if more then SCHEDULER_thread_to_ready u (set_loose_cpu t False s2) else Inr s2) (leave_fence k t us))"

definition os_fence :: "bool \<Rightarrow> int \<Rightarrow> tid \<Rightarrow> 'z os_sim_scheme \<Rightarrow> 'z os_sim_scheme res" where
  "os_fence end_operation k t s =
     bindE (locate_window k s) (\<lambda>w.
     if end_operation \<or> length (fence_tasks w) + 1 = length (global_ranks w) \<and> fence_operations w = []
     then
       bindE (continue_thread t s) (\<lambda>s1.
       bindE (if end_operation then q_extract t (fence_tasks w) else Inr (fence_tasks w)) (\<lambda>q.
       bindE (leave_fence k t q (upd_win k (\<lambda>w. w\<lparr>fence_tasks := q\<rparr>) s1)) (\<lambda>s2.
       Inr (upd_win k (\<lambda>w. w\<lparr>win_mode := WINDOW_MODE_NONE\<rparr>) s2))))
     else Inr (upd_win k (\<lambda>w. w\<lparr>fence_tasks := fence_tasks w @ [t]\<rparr>) (set_last_paraver t s)))"

section \<open>Accesses\<close>

definition register_operation :: "tid \<Rightarrow> t_window \<Rightarrow> t_window" where
  "register_operation t w =
     (if win_mode w = WINDOW_MODE_FENCE then w\<lparr>fence_operations := fence_operations w @ [t]\<rparr>
      else if win_mode w = WINDOW_MODE_LOCK then w\<lparr>lock_operations := lock_operations w @ [t]\<rparr>
      else if win_mode w = WINDOW_MODE_POST then w\<lparr>post_operations := post_operations w @ [t]\<rparr>
      else w)"

definition rma_startup :: "nodeid \<Rightarrow> nodeid \<Rightarrow> 'z sim_scheme \<Rightarrow> real \<times> 'z sim_scheme" where
  "rma_startup ns nd s =
     (let (r, s1) = RANDOM_GenerateRandom (if ns = nd then R_memory_latency else R_network_latency) s
      in ((if ns = nd then local_startup (plat s) ns else remote_startup (plat s) ns) + r, s1))"

definition start_rma :: "tid \<Rightarrow> 'z os_sim_scheme \<Rightarrow> 'z os_sim_scheme run" where
  "start_rma t s =
     bindR (Some (duplicate_coll t (upd_exec t (\<lambda>x. x\<lparr>startup_done := False\<rparr>) s))) (\<lambda>(c, s1).
     bindR (Some (rma_target s1 c)) (\<lambda>target.
     bindR (really_RMA_to (\<lambda>_. Some target) c s1) (\<lambda>s2. Some (continue_thread t s2))))"

definition os_getput :: "t_mpi_os \<Rightarrow> tid \<Rightarrow> 'z os_sim_scheme \<Rightarrow> 'z os_sim_scheme run" where
  "os_getput m t s =
     (if startup_done (execs s t) then start_rma t s
      else
        let s1 = upd_win (window_id m) (register_operation t) s in
        bindR (Some (rma_target s1 t)) (\<lambda>target.
        let (startup, s2) = rma_startup (get_node_of_thread t s1) (node_of_task s1 target) s1 in
        if startup \<noteq> 0
        then Some (SCHEDULER_thread_to_ready_return M_RMA t startup 0
               (upd_account t (pay_latency startup) (upd_exec t (\<lambda>e. e\<lparr>doing_startup := True\<rparr>) (set_loose_cpu t False s2))))
        else start_rma t s2))"

section \<open>Locks\<close>

definition os_lock :: "int \<Rightarrow> t_mpi_os \<Rightarrow> tid \<Rightarrow> 'z os_sim_scheme \<Rightarrow> 'z os_sim_scheme res" where
  "os_lock k m t s =
     bindE (locate_window k s) (\<lambda>w.
     bindE (from_rank_to_task w (target_rank m)) (\<lambda>i.
     bindE (from_taskid_to_task i s) (\<lambda>tk.
     if task_with_lock w = None \<or>
        task_with_lock w = Some tk \<and> os_mode m = MPI_OS_LOCK_SHARED \<and> lock_mode w = MPI_OS_LOCK_SHARED
     then continue_thread t (upd_win k (\<lambda>w. w\<lparr>task_with_lock := Some tk, lock_mode := os_mode m,
            threads_with_lock := threads_with_lock w @ [t]\<rparr>) s)
     else Inr (upd_win k (\<lambda>w. w\<lparr>threads_waiting_lock := threads_waiting_lock w @ [t]\<rparr>) (set_last_paraver t s)))))"

text \<open>All who wait for the lock ask again; each in the window of its own operation.\<close>

fun ask_again :: "tid list \<Rightarrow> 'z os_sim_scheme \<Rightarrow> 'z os_sim_scheme res" where
  "ask_again [] s = Inr s"
| "ask_again (t # ts) s =
     bindE (os_of t s) (\<lambda>m.
     bindE (if windows s (window_id m) = None then Inl NullDeref else os_lock (window_id m) m t s) (ask_again ts))"

definition os_unlock :: "int \<Rightarrow> tid \<Rightarrow> 'z os_sim_scheme \<Rightarrow> 'z os_sim_scheme res" where
  "os_unlock k t s =
     bindE (locate_window k s) (\<lambda>w.
     if \<exists>u\<in>set (lock_operations w). task_of (threads s u) = task_of (threads s t)
     then Inr (upd_win k (\<lambda>w. w\<lparr>threads_waiting_unlock := threads_waiting_unlock w @ [t]\<rparr>) s)
     else
       bindE (q_extract t (threads_with_lock w)) (\<lambda>q.
       bindE (continue_thread t (upd_win k (\<lambda>w. w\<lparr>threads_with_lock := q\<rparr>) s)) (\<lambda>s1.
       if q = [] then
         let s2 = upd_win k (\<lambda>w. w\<lparr>task_with_lock := None\<rparr>) s1 in
         if threads_waiting_lock w \<noteq> []
         then ask_again (threads_waiting_lock w)
                (fold set_last_paraver (threads_waiting_lock w) (upd_win k (\<lambda>w. w\<lparr>threads_waiting_lock := []\<rparr>) s2))
         else Inr (upd_win k (\<lambda>w. w\<lparr>win_mode := WINDOW_MODE_NONE\<rparr>) s2)
       else Inr (upd_win k (\<lambda>w. w\<lparr>win_mode := WINDOW_MODE_NONE\<rparr>) s1))))"

section \<open>Post, start, complete and wait\<close>

definition same_task :: "'z os_sim_scheme \<Rightarrow> tid \<Rightarrow> tid list \<Rightarrow> bool" where
  "same_task s t q \<longleftrightarrow> (\<exists>u\<in>set q. task_of (threads s u) = task_of (threads s t))"

fun rank_listed :: "t_window \<Rightarrow> taskid \<Rightarrow> int list \<Rightarrow> bool res" where
  "rank_listed w tk [] = Inr False"
| "rank_listed w tk (r # rs) = bindE (from_rank_to_task w r) (\<lambda>i. if tk = i then Inr True else rank_listed w tk rs)"

text \<open>All tasks the start waits for have posted, and each of them for this task.\<close>

fun there_is_a_post_for_this_start :: "t_window \<Rightarrow> tid \<Rightarrow> int list \<Rightarrow> 'z os_sim_scheme \<Rightarrow> bool res" where
  "there_is_a_post_for_this_start w t [] s = Inr True"
| "there_is_a_post_for_this_start w t (r # rs) s =
     bindE (from_rank_to_task w r) (\<lambda>tk.
     case List.find (\<lambda>u. task_of (threads s u) = tk) (post_done w) of
       None \<Rightarrow> Inr False
     | Some u \<Rightarrow>
         bindE (os_of u s) (\<lambda>m2.
         bindE (rank_listed w (task_of (threads s t)) (post_ranks m2)) (\<lambda>listed.
         if listed then there_is_a_post_for_this_start w t rs s
         else Inl (Panic ''RMA, start with no corresponing post''))))"

text \<open>The completes are counted, several of one task too.\<close>

fun missing_completes :: "t_window \<Rightarrow> int list \<Rightarrow> 'z os_sim_scheme \<Rightarrow> int res" where
  "missing_completes w [] s = Inr 0"
| "missing_completes w (r # rs) s =
     bindE (from_rank_to_task w r) (\<lambda>tk.
     bindE (missing_completes w rs s) (\<lambda>n.
     Inr (n + 1 - int (length (filter (\<lambda>u. task_of (threads s u) = tk) (complete_done w))))))"

definition there_are_all_completes_for_this_wait :: "t_window \<Rightarrow> tid \<Rightarrow> 'z os_sim_scheme \<Rightarrow> bool res" where
  "there_are_all_completes_for_this_wait w t s =
     (case List.find (\<lambda>u. task_of (threads s u) = task_of (threads s t)) (post_done w) of
        None \<Rightarrow> Inl (Panic ''Unable to locate post for a given wait'')
      | Some u \<Rightarrow> bindE (os_of u s) (\<lambda>m. bindE (missing_completes w (post_ranks m) s) (\<lambda>n. Inr (n = 0))))"

text \<open>A start that could begin is no longer pending.\<close>

definition forget_started :: "'z os_sim_scheme \<Rightarrow> t_window \<Rightarrow> t_window" where
  "forget_started s w = w\<lparr>pending_of_post := fold (\<lambda>c q. case twin_thread (execs s c) of Some t \<Rightarrow> remove1 t q | None \<Rightarrow> q)
     (start_done w) (pending_of_post w)\<rparr>"

definition os_start :: "t_mpi_os \<Rightarrow> t_window \<Rightarrow> tid \<Rightarrow> 'z os_sim_scheme \<Rightarrow> 'z os_sim_scheme res" where
  "os_start m w t s =
     (let k = window_id m in
      if same_task s t (start_done w) then Inl (Panic ''Invalid RMA start operation. Recursive start not allowed'')
      else bindE (there_is_a_post_for_this_start w t (post_ranks m) s) (\<lambda>there.
        if there then
          bindE (duplicate_coll t s) (\<lambda>(c, s1).
          continue_thread t (set_last_paraver t (upd_win k (\<lambda>w. w\<lparr>start_done := start_done w @ [c]\<rparr>) s1)))
        else Inr (upd_win k (\<lambda>w. w\<lparr>pending_of_post := pending_of_post w @ [t]\<rparr>) (set_last_paraver t s))))"

definition free_threads :: "tid list \<Rightarrow> 'z world_scheme \<Rightarrow> 'z world_scheme" where
  "free_threads ts s = fold (\<lambda>c. upd_exec c (\<lambda>x. x\<lparr>freed := True\<rparr>)) ts s"

definition os_wait :: "t_mpi_os \<Rightarrow> t_window \<Rightarrow> tid \<Rightarrow> 'z os_sim_scheme \<Rightarrow> 'z os_sim_scheme res" where
  "os_wait m w t s =
     (let k = window_id m in
      bindE (there_are_all_completes_for_this_wait w t s) (\<lambda>all.
      if \<not> all then Inr (upd_win k (\<lambda>w. w\<lparr>pending_wait_to_complete := pending_wait_to_complete w @ [t]\<rparr>) (set_last_paraver t s))
      else
        (case List.find (\<lambda>u. task_of (threads s u) = task_of (threads s t)) (post_done w) of
           None \<Rightarrow> Inl (Panic ''Unable to locate a thread when complete in start list'')
         | Some c \<Rightarrow>
             let q = remove1 c (post_done w); s1 = upd_win k (\<lambda>w. w\<lparr>post_done := q\<rparr>) (set_last_paraver t s) in
             continue_thread t (if q = []
               then upd_win k (\<lambda>w. w\<lparr>complete_done := [], win_mode := WINDOW_MODE_NONE\<rparr>) (free_threads (complete_done w) s1)
               else s1))))"

text \<open>
  \<open>os_post\<close> of a thread, the loop of \<open>are_there_pending_start\<close> at a position of \<open>pending_of_post\<close>, and the loop of
  \<open>are_there_pending_waits\<close>. A start that still has to wait is put behind the queue the loop is running over.
\<close>

datatype os_call = Call_post tid | Call_starts nat | Call_waits "tid list"

partial_function (option) os_run :: "os_call \<Rightarrow> int \<Rightarrow> 'z os_sim_scheme \<Rightarrow> 'z os_sim_scheme run" where
  "os_run call k s = (case call of
      Call_waits ts \<Rightarrow> (case ts of [] \<Rightarrow> retR s | t # us \<Rightarrow> bindR (os_run (Call_post t) k s) (os_run (Call_waits us) k))
    | Call_starts i \<Rightarrow>
        bindR (Some (locate_window k s)) (\<lambda>w.
        if i < length (pending_of_post w)
        then bindR (os_run (Call_post (pending_of_post w ! i)) k s) (os_run (Call_starts (Suc i)) k)
        else retR (upd_win k (forget_started s) s))
    | Call_post t \<Rightarrow>
        bindR (Some (os_of t s)) (\<lambda>m.
        bindR (Some (locate_window k s)) (\<lambda>w.
        if os_op m = MPI_OS_POST_POST then
          if same_task s t (post_done w) then failR (Panic ''Invalid RMA post operation. Recursive post not allowed'')
          else bindR (Some (duplicate_coll t s)) (\<lambda>(c, s1).
            bindR (os_run (Call_starts 0) k (upd_win k (\<lambda>w. w\<lparr>post_done := post_done w @ [c]\<rparr>) s1)) (\<lambda>s2.
            Some (continue_thread t s2)))
        else if os_op m = MPI_OS_POST_START then Some (os_start (m\<lparr>window_id := k\<rparr>) w t s)
        else if os_op m = MPI_OS_POST_COMPLETE then
          let s1 = set_last_paraver t s in
          if same_task s t (post_operations w)
          then retR (upd_win k (\<lambda>w. w\<lparr>pending_rma_to_complete := pending_rma_to_complete w @ [t]\<rparr>) s1)
          else (case List.find (\<lambda>c. twin_thread (execs s c) = Some t) (start_done w) of
              None \<Rightarrow> failR (Panic ''Unable to locate a thread when complete in start list'')
            | Some c \<Rightarrow>
                bindR (os_run (Call_waits (pending_wait_to_complete w)) k
                   (upd_win k (\<lambda>w. w\<lparr>start_done := remove1 c (start_done w), complete_done := complete_done w @ [c],
                       pending_wait_to_complete := []\<rparr>) s1)) (\<lambda>s2.
                Some (continue_thread t s2)))
        else if os_op m = MPI_OS_POST_WAIT then Some (os_wait (m\<lparr>window_id := k\<rparr>) w t s)
        else failR (Panic ''Invalid operation for RMA post mode''))))"

definition os_post :: "tid \<Rightarrow> int \<Rightarrow> 'z os_sim_scheme \<Rightarrow> 'z os_sim_scheme run" where
  "os_post t k s = os_run (Call_post t) k s"

section \<open>The operations\<close>

text \<open>The first operation decides the mode; accesses open a fence.\<close>

definition mode_of_first :: "int \<Rightarrow> int" where
  "mode_of_first which =
     (if which = MPI_OS_GETPUT \<or> which = MPI_OS_FENCE then WINDOW_MODE_FENCE
      else if which = MPI_OS_LOCK then WINDOW_MODE_LOCK
      else if which = MPI_OS_POST then WINDOW_MODE_POST else WINDOW_MODE_NONE)"

definition ONE_SIDED_operation :: "tid \<Rightarrow> 'z os_sim_scheme \<Rightarrow> 'z os_sim_scheme run" where
  "ONE_SIDED_operation t s =
     bindR (Some (os_of t s)) (\<lambda>m.
     bindR (Some (locate_window (window_id m) s)) (\<lambda>w.
     let which = which_os m; k = window_id m;
         mode = (if win_mode w = WINDOW_MODE_NONE then mode_of_first which else win_mode w) in
     if mode = WINDOW_MODE_NONE then failR (Panic ''Unable to change to window mode based on operation'')
     else
       let s1 = upd_win k (\<lambda>w. w\<lparr>win_mode := mode\<rparr>) s in
       if mode = WINDOW_MODE_FENCE then
         (if which = MPI_OS_GETPUT then os_getput m t s1
          else if which = MPI_OS_FENCE then Some (os_fence False k t s1)
          else failR (Panic ''Invalid window operation in this window mode''))
       else if mode = WINDOW_MODE_LOCK then
         (if which = MPI_OS_GETPUT then os_getput m t s1
          else if which = MPI_OS_LOCK then
            (if os_op m = MPI_OS_LOCK_LOCK then Some (os_lock k m t s1)
             else if os_op m = MPI_OS_LOCK_UNLOCK then Some (os_unlock k t s1)
             else retR s1)
          else failR (Panic ''Invalid operation in RMA lock mode''))
       else if mode = WINDOW_MODE_POST then
         (if which = MPI_OS_GETPUT then os_getput m t s1
          else if which = MPI_OS_POST then os_post t k s1
          else failR (Panic ''Invalid operation in POST mode''))
       else retR s1))"

text \<open>The access of the copy \<open>c\<close> is over; \<open>t\<close> is the thread that asked for it.\<close>

definition completed_in_fence :: "tid \<Rightarrow> int \<Rightarrow> 'z os_sim_scheme \<Rightarrow> 'z os_sim_scheme res" where
  "completed_in_fence t k s =
     bindE (locate_window k s) (\<lambda>w.
     if win_mode w = WINDOW_MODE_FENCE then
       bindE (q_extract t (fence_operations w)) (\<lambda>q.
       let s1 = upd_win k (\<lambda>w. w\<lparr>fence_operations := q\<rparr>) s in
       if length (fence_tasks w) = length (global_ranks w) \<and> q = [] then os_fence True k t s1 else Inr s1)
     else Inr s)"

definition completed_in_lock :: "tid \<Rightarrow> tid \<Rightarrow> int \<Rightarrow> 'z os_sim_scheme \<Rightarrow> 'z os_sim_scheme res" where
  "completed_in_lock c t k s =
     bindE (locate_window k s) (\<lambda>w.
     if win_mode w = WINDOW_MODE_LOCK then
       bindE (q_extract t (lock_operations w)) (\<lambda>q.
       let s1 = upd_win k (\<lambda>w. w\<lparr>lock_operations := q\<rparr>) s in
       case List.find (\<lambda>u. task_of (threads s u) = task_of (threads s c)) (threads_waiting_unlock w) of
         None \<Rightarrow> Inr s1 | Some u \<Rightarrow> os_unlock k u s1)
     else Inr s)"

definition completed_in_post :: "tid \<Rightarrow> tid \<Rightarrow> int \<Rightarrow> 'z os_sim_scheme \<Rightarrow> 'z os_sim_scheme run" where
  "completed_in_post c t k s =
     bindR (Some (locate_window k s)) (\<lambda>w.
     if win_mode w = WINDOW_MODE_POST then
       bindR (Some (q_extract t (post_operations w))) (\<lambda>q.
       let s1 = upd_win k (\<lambda>w. w\<lparr>post_operations := q\<rparr>) s in
       case List.find (\<lambda>u. task_of (threads s u) = task_of (threads s c)) (pending_rma_to_complete w) of
         None \<Rightarrow> retR s1
       | Some u \<Rightarrow>
           let s2 = upd_win k (\<lambda>w. w\<lparr>pending_rma_to_complete := remove1 u (pending_rma_to_complete w)\<rparr>) s1 in
           bindR (Some (os_of u s2)) (\<lambda>m.
             if windows s2 (window_id m) = None then failR NullDeref else os_post u (window_id m) s2))
     else retR s)"

definition os_completed :: "tid \<Rightarrow> 'z os_sim_scheme \<Rightarrow> 'z os_sim_scheme run" where
  "os_completed c s =
     bindR (Some (os_of c s)) (\<lambda>m.
     bindR (Some (locate_window (window_id m) s)) (\<lambda>_.
     case twin_thread (execs s c) of
       None \<Rightarrow> failR (Panic ''Can't find element to extract from queue'')
     | Some t \<Rightarrow>
         bindR (Some (completed_in_fence t (window_id m) s)) (\<lambda>s1.
         bindR (Some (completed_in_lock c t (window_id m) s1)) (\<lambda>s2.
         bindR (completed_in_post c t (window_id m) s2) (\<lambda>s3.
         Some (delete_duplicate_thread c s3))))))"

end
