(* ===== verification/Frames.thy ===== *)
theory Frames
  imports SchedQueues
begin

text \<open>
  The scheduler works on the fields of \<open>world\<close>: what the theories above it add to the state (the platform, buses, communicators,
  windows, semaphores) stays. It keeps the nodes of the threads and the clock, too.
\<close>

definition outer :: "'z world_scheme \<Rightarrow> 'z world_scheme \<Rightarrow> bool" where
  "outer s s' \<longleftrightarrow> world.more s' = world.more s"

lemma outer_refl [simp]: "outer s s"
  by (simp add: outer_def)

lemma outer_trans: "outer s s' \<Longrightarrow> outer s' s'' \<Longrightarrow> outer s s''"
  by (simp add: outer_def)

lemma calm_outer: "calm 0 0 s s' \<Longrightarrow> outer s s'"
  by (simp add: calm_def outer_def)

lemma outer_upd [simp]:
  "outer s (upd_ready nd f s')  = outer s s'" "outer s (s'\<lparr>reload_done := v\<rparr>) = outer s s'" "outer s (upd_exec t g s') = outer s s'"
  "outer s (set_loose_cpu t v s') = outer s s'" "outer s (upd_thread t h s') = outer s s'" "outer s (upd_account t k s') = outer s s'"
  "outer s (set_par t p s') = outer s s'" "outer s (s'\<lparr>unread := w\<rparr>) = outer s s'"
  by (simp_all add: outer_def upd_ready_def upd_exec_def set_loose_cpu_def upd_thread_def upd_account_def set_par_def)

lemma outer_set_actions [simp]: "outer s (set_actions t as s') = outer s s'"
  using calm_set_actions[of 0 0 s' t as] by (auto simp: calm_def outer_def)

lemma outer_try_preempt: "try_preempt w t s = Inr (x, s') \<Longrightarrow> outer s s'"
  by (rule calm_outer) (rule calm_try_preempt)

lemma outer_more_actions: "more_actions t s = (mo, s') \<Longrightarrow> outer s s'"
  by (rule calm_outer) (rule calm_more_actions)

lemma outer_policy: "policy_thread_to_ready t s = Inr s' \<Longrightarrow> outer s s'"
proof -
  have fifo: "FIFO_thread_to_ready t s = Inr s' \<Longrightarrow> outer s s'"
    by (auto simp: FIFO_thread_to_ready_def Let_def)
  have pre: thesis if "bindE (try_preempt w u v) K = Inr s'" "\<And>out p v1. outer v v1 \<Longrightarrow> K ((out, p), v1) = Inr s' \<Longrightarrow> thesis"
    for w u v K thesis
    using that(1) that(2)[OF outer_try_preempt] by (auto simp: bindE_eq_Inr)
  have prio: "outer s s'" if h: "PRIO_FIFO_thread_to_ready t s = Inr s'"
  proof (rule pre[OF h[unfolded PRIO_FIFO_thread_to_ready_def Let_def]], simp only: prod.case)
    fix out v1 assume "outer s v1" "(case out of None \<Rightarrow> Inr v1
      | Some u \<Rightarrow> (case prio_of (par u v1) of None \<Rightarrow> Inl NullDeref
          | Some p \<Rightarrow> if actions (execs v1 u) = [] then Inl (Panic ''Thread to ready without actions'')
              else Inr (insert_by_priority (loose_cpu v1 u \<or> lost_cpu_on_send (sch_of t s)) (get_node_of_thread t s) u p v1))) = Inr s'"
    then show "outer s s'"
      by (cases out; cases "prio_of (par (the out) v1)") (auto simp: insert_by_priority_def split: if_splits)
  qed
  have ss: "outer s s'" if h: "SS_MPI_CP_thread_to_ready t s = Inr s'"
  proof -
    obtain p f where "par t s = Par_ss p f" using h by (cases "par t s") (auto simp: SS_MPI_CP_thread_to_ready_def)
    note h = h[unfolded SS_MPI_CP_thread_to_ready_def this sch_par.case Let_def]
    show ?thesis
    proof (rule pre[OF h], simp only: prod.case)
      fix out p v1 assume "outer s v1"
      moreover assume "(case out of None \<Rightarrow> Inr v1
        | Some u \<Rightarrow> (case prio_of (par u v1) of None \<Rightarrow> Inl NullDeref
          | Some q \<Rightarrow> if actions (execs v1 u) = [] then Inl (Panic ''Thread to ready without actions'')
              else if loose_cpu v1 u \<or> lost_cpu_on_send (sch_of t s) then
                (if p then Inr (insert_by_priority True (get_node_of_thread t s) u q v1)
                 else if q = 0 then Inr (insert_by_priority False (get_node_of_thread t s) u q v1)
                 else Inr (upd_ready (get_node_of_thread t s) (seq_insert_back snd (u, q)) v1))
              else Inr (insert_by_priority False (get_node_of_thread t s) u q v1))) = Inr s'"
      ultimately show "outer s s'"
        by (cases out; cases "prio_of (par (the out) v1)") (auto simp: insert_by_priority_def split: if_splits)
    qed
  qed
  have svr4: "outer s s'" if h: "svr4_thread_to_ready t s = Inr s'"
  proof -
    obtain p q f where p: "par t s = Par_svr4 p q f" using h by (cases "par t s") (auto simp: svr4_thread_to_ready_def)
    define s0 where "s0 = (if f then set_par t (Par_svr4 (ts_tqexp p) q False) s else s)"
    have 0: "outer s s0" by (simp add: s0_def)
    have "bindE (try_preempt (priority_preemptive (sch_of t s)) t s0) (\<lambda>((out, _), s1).
        case out of None \<Rightarrow> Inr s1
        | Some u \<Rightarrow> (case par u s1 of Par_svr4 p1 _ _ \<Rightarrow> Inr (insert_by_priority (loose_cpu s1 u) (get_node_of_thread t s) u (real_of_int (BEST_PRIO - p1)) s1)
            | _ \<Rightarrow> Inl NullDeref)) = Inr s'"
      using h by (simp add: svr4_thread_to_ready_def p Let_def s0_def split: if_splits)
    then show ?thesis
    proof (rule pre, simp only: prod.case)
      fix out v1 assume "outer s0 v1" "(case out of None \<Rightarrow> Inr v1
        | Some u \<Rightarrow> (case par u v1 of Par_svr4 p1 _ _ \<Rightarrow> Inr (insert_by_priority (loose_cpu v1 u) (get_node_of_thread t s) u (real_of_int (BEST_PRIO - p1)) v1)
            | _ \<Rightarrow> Inl NullDeref)) = Inr s'"
      then show "outer s s'" using outer_trans[OF 0]
        by (cases out; cases "par (the out) v1") (auto simp: insert_by_priority_def)
    qed
  qed
  show "policy_thread_to_ready t s = Inr s' \<Longrightarrow> outer s s'"
    using fifo prio ss svr4 by (auto simp: policy_thread_to_ready_def RR_thread_to_ready_def split: sch_policy.splits if_splits)
qed

lemma outer_thread_to_ready: "SCHEDULER_thread_to_ready t s = Inr s' \<Longrightarrow> outer s s'"
proof -
  assume h: "SCHEDULER_thread_to_ready t s = Inr s'"
  obtain m s1 where m: "more_actions t s = (m, s1)" by fastforce
  define s2 where "s2 = (if works (actions (execs s1 t)) then s1 else set_actions t (AC_WORK 0 # actions (execs s1 t)) s1)"
  define s3 where "s3 = upd_exec t (\<lambda>x. x\<lparr>put_into_ready := current_time s\<rparr>) s2"
  obtain s4 where "policy_thread_to_ready t s3 = Inr s4" "s' = s4\<lparr>reload_done := True\<rparr>"
    using h by (auto simp: SCHEDULER_thread_to_ready_def Let_def m s2_def[symmetric] s3_def[symmetric] bindE_eq_Inr split: if_splits)
  moreover have "outer s s3" using outer_more_actions[OF m] by (simp add: s3_def s2_def)
  ultimately show ?thesis using outer_policy[of t s3 s4] outer_trans[of s s3 s4] by simp
qed

lemma outer_ready_if_more: "ready_if_more b t s = Inr s' \<Longrightarrow> outer s s'"
  by (auto simp: ready_if_more_def split: prod.splits if_splits
      dest!: outer_thread_to_ready outer_more_actions intro: outer_trans) (metis outer_trans outer_upd(4))+

lemma outer_next_action: "next_action t s = Inr s' \<Longrightarrow> outer s s'"
  by (auto simp: next_action_def split: list.splits)

lemma outer_continue: "continue_thread t s = Inr s' \<Longrightarrow> outer s s'"
  by (auto simp: continue_thread_def bindE_eq_Inr dest!: outer_next_action outer_ready_if_more intro: outer_trans)

lemma outer_ready_return: "SCHEDULER_thread_to_ready_return m t ti i s = Inr s' \<Longrightarrow> outer s s'"
  by (auto simp: SCHEDULER_thread_to_ready_return_def Let_def split: if_splits dest!: outer_thread_to_ready)
    (metis outer_refl outer_set_actions outer_trans)+

end
