(* ===== verification/OneSidedProps.thy ===== *)
theory OneSidedProps
  imports OneSided Frames SendProps
begin

text \<open>
  Properties of the one-sided operations: which of them touch the locks of a window and that a lock that is not shared has one
  holder at most (for the operations, the ends of accesses, and everything that leaves the windows alone), what the first unlock
  of a shared lock does to the mode, and the loop over pending starts that does not end.
\<close>

section \<open>What leaves the windows alone\<close>

lemma outer_windows:
  fixes s s' :: "'z os_sim_scheme"
  assumes "outer s s'"
  shows "windows s' = windows s"
  using assms unfolding outer_def by (cases s; cases s'; simp)

lemma sim_more_windows:
  fixes s s' :: "'z os_sim_scheme"
  assumes "sim.more s' = sim.more s"
  shows "windows s' = windows s"
  using assms by (cases s; cases s'; simp)

lemma net_sim_more:
  fixes s s' :: "'z sim_scheme"
  assumes "net.more s' = net.more s"
  shows "sim.more s' = sim.more s"
  using assms by (cases s; cases s'; simp)

lemma take_bus_more: "take_bus w b m t s = (ok, s') \<Longrightarrow> sim.more s' = sim.more s"
  by (auto simp: take_bus_def upd_bus_def START_BUS_WAIT_TIME_def upd_account_def upd_exec_def split: if_splits)

lemma RMA_more: "really_RMA_to w t s = retR s' \<Longrightarrow> sim.more s' = sim.more s"
proof -
  assume h: "really_RMA_to w t s = retR s'"
  let ?nd = "get_node_of_thread t s" let ?m = "machine_of_node s ?nd"
  obtain x where x: "w t = Some x" using h by (cases "w t") (auto simp: really_RMA_to_def)
  obtain ok s1 where l: "LINKS_get_network_links t ?nd (node_of_task s x) s = Inr (ok, s1)"
    and r: "(if \<not> ok then retR s1
      else let (got, s2) = (if ?nd \<noteq> node_of_task s x then take_bus False (MachBus ?m) ?m t s1 else (True, s1)) in
        if \<not> got then retR s2
        else bindR (Some (transferencia (rma_size s t)
               (if ?nd \<noteq> node_of_task s x then INTERNAL_NETWORK_COM_TYPE else MEMORY_COMMUNICATION_TYPE) t 0 s2)) (\<lambda>((ti, _), s3).
             Some (com_timer (current_time s3 + ti) t RMA_TIMER_OUT s3))) = retR s'"
    using h x by (cases "LINKS_get_network_links t ?nd (node_of_task s x) s") (auto simp: really_RMA_to_def Let_def bindR_def retR_def)
  have 1: "sim.more s1 = sim.more s" by (rule net_sim_more[OF keeps_more]) (rule LINKS_get_network_links_keeps[OF l])
  show ?thesis
  proof (cases ok)
    case True
    obtain got s2 where b: "(if ?nd \<noteq> node_of_task s x then take_bus False (MachBus ?m) ?m t s1 else (True, s1)) = (got, s2)" by fastforce
    have 2: "sim.more s2 = sim.more s1" using b by (auto split: if_splits dest: take_bus_more)
    show ?thesis
    proof (cases got)
      case True
      obtain ti y s3 where "transferencia (rma_size s t)
               (if ?nd \<noteq> node_of_task s x then INTERNAL_NETWORK_COM_TYPE else MEMORY_COMMUNICATION_TYPE) t 0 s2 = Inr ((ti, y), s3)"
        "com_timer (current_time s3 + ti) t RMA_TIMER_OUT s3 = Inr s'"
        using r \<open>ok\<close> True unfolding b by (auto simp: bindR_eq_retR)
      then have "quiet s2 s'" by (blast intro: quiet_trans transferencia_quiet com_timer_quiet)
      then show ?thesis using 1 2 by (simp add: quiet_def)
    qed (use r \<open>ok\<close> 1 2 in \<open>simp add: b\<close>)
  qed (use r 1 in simp)
qed

lemma duplicate_coll_windows: "duplicate_coll t s = Inr (c, s') \<Longrightarrow> windows s' = windows s"
proof -
  have a: "init_scheduler_parameters d u = Inr v \<Longrightarrow> outer u v" for d and u v :: "'z os_sim_scheme"
    by (auto simp: init_scheduler_parameters_def split: sch_policy.splits option.splits)
  have b: "copy_parameters e d u = Inr v \<Longrightarrow> outer u v" for e d and u v :: "'z os_sim_scheme"
    by (auto simp: copy_parameters_def split: sch_policy.splits sch_par.splits if_splits)
  assume "duplicate_coll t s = Inr (c, s')"
  then obtain v where d: "duplicate_thread t s = Inr (c, v)" "windows s' = windows v"
    by (auto simp: duplicate_coll_def bindE_eq_Inr)
  then obtain s1 s2 where "init_scheduler_parameters c (clone_thread t c (s\<lparr>next_tid := next_tid s + 1\<rparr>)) = Inr s1"
      "copy_parameters t c s1 = Inr s2" "outer s2 v"
    by (cases "actions (execs s t)") (auto simp: duplicate_thread_def Let_def bindE_eq_Inr)
  moreover have "windows (clone_thread t c (s\<lparr>next_tid := next_tid s + 1\<rparr>)) = windows s" by (simp add: clone_thread_def)
  ultimately show ?thesis using a b d(2) outer_windows by metis
qed

lemma delete_windows: "delete_duplicate_thread t s = Inr s' \<Longrightarrow> windows s' = windows s"
  by (auto simp: delete_duplicate_thread_def SCHEDULER_free_parameters_def upd_exec_def upd_thread_def upd_account_def split: option.splits)

lemma windows_simps [simp]:
  "windows (set_last_paraver t s) = windows s" "windows (upd_exec t f s) = windows s" "windows (upd_account t g s) = windows s"
  "windows (set_loose_cpu t b s) = windows s" "windows (upd_win k h s) = (windows s)(k := map_option h (windows s k))"
  "windows (free_threads ts s) = windows s" "windows (fold set_last_paraver ts s) = windows s"
proof -
  show "windows (free_threads ts s) = windows s"
    unfolding free_threads_def by (induction ts arbitrary: s) (simp_all add: upd_exec_def)
  show "windows (fold set_last_paraver ts s) = windows s"
    by (induction ts arbitrary: s) (simp_all add: set_last_paraver_def upd_thread_def)
qed (simp_all add: set_last_paraver_def upd_exec_def upd_account_def upd_thread_def set_loose_cpu_def upd_win_def)

lemma continue_windows: "continue_thread t s = Inr s' \<Longrightarrow> windows s' = windows s"
  by (rule outer_windows) (rule outer_continue)

section \<open>Locks\<close>

text \<open>The lock of every window: the task it is for, its mode and the threads that hold it.\<close>

definition lock_of :: "t_window \<Rightarrow> taskid option \<times> int \<times> tid list" where
  "lock_of w = (task_with_lock w, lock_mode w, threads_with_lock w)"

definition locks :: "'z os_sim_scheme \<Rightarrow> int \<Rightarrow> (taskid option \<times> int \<times> tid list) option" where
  "locks s k = map_option lock_of (windows s k)"

lemma locks_windows: "windows s' = windows s \<Longrightarrow> locks s' = locks s"
  by (simp add: locks_def fun_eq_iff)

lemma locks_upd_win: "(\<And>w. lock_of (f w) = lock_of w) \<Longrightarrow> locks (upd_win k f s) = locks s"
  by (auto simp: locks_def fun_eq_iff upd_win_def option.map_comp comp_def)

definition exclusive :: "taskid option \<times> int \<times> tid list \<Rightarrow> bool" where
  "exclusive l \<longleftrightarrow> (case l of (tk, mode, ts) \<Rightarrow> (tk = None \<longrightarrow> ts = []) \<and> (mode \<noteq> MPI_OS_LOCK_SHARED \<longrightarrow> length ts \<le> 1))"

definition locks_ok :: "'z os_sim_scheme \<Rightarrow> bool" where
  "locks_ok s \<longleftrightarrow> (\<forall>k l. locks s k = Some l \<longrightarrow> exclusive l)"


lemmas locks_upds = locks_upd_win locks_windows[OF windows_simps(1)] locks_windows[OF windows_simps(2)] locks_windows[OF windows_simps(3)]
  locks_windows[OF windows_simps(4)] locks_windows[OF windows_simps(6)] locks_windows[OF windows_simps(7)]

lemma leave_fence_locks: "leave_fence k t us s = Inr s' \<Longrightarrow> locks s' = locks s"
proof (induction us arbitrary: s)
  case (Cons u us)
  define s0 where "s0 = set_last_paraver u (upd_win k (\<lambda>w. w\<lparr>fence_tasks := us\<rparr>) s)"
  obtain s1 where n: "next_action u s0 = Inr s1" using Cons.prems by (auto simp: s0_def bindE_eq_Inr)
  obtain mo s2 where m: "more_actions u s1 = (mo, s2)" by fastforce
  obtain s3 where 3: "(if mo then SCHEDULER_thread_to_ready u (set_loose_cpu t False s2) else Inr s2) = Inr s3" "leave_fence k t us s3 = Inr s'"
    using Cons.prems by (auto simp: s0_def[symmetric] n m bindE_eq_Inr)
  have "outer s0 s1" by (rule outer_next_action[OF n])
  moreover have "outer s1 s2" by (rule outer_more_actions[OF m])
  moreover have "outer s2 s3" using 3(1) outer_thread_to_ready[of u "set_loose_cpu t False s2" s3] by (auto simp: outer_def set_loose_cpu_def split: if_splits)
  ultimately have "locks s3 = locks s0" by (blast intro: outer_trans locks_windows outer_windows)
  also have "locks s0 = locks s" by (simp add: s0_def locks_upds lock_of_def)
  finally show ?case using Cons.IH[OF 3(2)] by simp
qed simp

lemma os_fence_locks: "os_fence e k t s = Inr s' \<Longrightarrow> locks s' = locks s"
  by (auto simp: os_fence_def bindE_eq_Inr locks_upds lock_of_def split: if_splits
      dest!: leave_fence_locks locks_windows[OF continue_windows])

lemma start_rma_locks: "start_rma t s = retR s' \<Longrightarrow> locks s' = locks s"
  by (auto simp: start_rma_def bindR_eq_retR locks_upds
      dest!: locks_windows[OF continue_windows] locks_windows[OF sim_more_windows[OF RMA_more]] locks_windows[OF duplicate_coll_windows])

lemma rma_startup_windows: "rma_startup ns nd s = (x, s') \<Longrightarrow> windows s' = windows s"
  by (auto simp: rma_startup_def RANDOM_GenerateRandom_def split: if_splits)

lemma os_getput_locks: "os_getput m t s = retR s' \<Longrightarrow> locks s' = locks s"
proof (cases "startup_done (execs s t)")
  case True
  assume "os_getput m t s = retR s'"
  with True show ?thesis by (simp add: os_getput_def start_rma_locks)
next
  case False
  assume h: "os_getput m t s = retR s'"
  define s1 where "s1 = upd_win (window_id m) (register_operation t) s"
  have 1: "locks s1 = locks s" by (simp add: s1_def locks_upds lock_of_def register_operation_def)
  obtain target where tg: "rma_target s1 t = Inr target" using h False by (auto simp: os_getput_def s1_def bindR_eq_retR Let_def)
  obtain x s2 where x: "rma_startup (get_node_of_thread t s1) (node_of_task s1 target) s1 = (x, s2)" by fastforce
  have 2: "locks s2 = locks s1" by (rule locks_windows[OF rma_startup_windows[OF x]])
  have r: "(if x \<noteq> 0 then Some (SCHEDULER_thread_to_ready_return M_RMA t x 0
       (upd_account t (pay_latency x) (upd_exec t (\<lambda>e. e\<lparr>doing_startup := True\<rparr>) (set_loose_cpu t False s2))))
     else start_rma t s2) = retR s'"
    using h False by (simp add: os_getput_def s1_def[symmetric] tg x bindR_eq_retR Let_def)
  show ?thesis
  proof (cases "x = 0")
    case True
    with r show ?thesis using start_rma_locks[of t s2 s'] 1 2 by simp
  next
    case False
    with r have "locks s' = locks (upd_account t (pay_latency x) (upd_exec t (\<lambda>e. e\<lparr>doing_startup := True\<rparr>) (set_loose_cpu t False s2)))"
      by (intro locks_windows outer_windows) (auto dest: outer_ready_return)
    then show ?thesis using 1 2 by (simp add: locks_upds)
  qed
qed

lemma os_start_locks: "os_start m w t s = Inr s' \<Longrightarrow> locks s' = locks s"
  by (auto simp: os_start_def Let_def bindE_eq_Inr locks_upds lock_of_def split: if_splits
      dest!: locks_windows[OF continue_windows] locks_windows[OF duplicate_coll_windows])

lemma os_wait_locks: "os_wait m w t s = Inr s' \<Longrightarrow> locks s' = locks s"
  by (auto simp: os_wait_def Let_def bindE_eq_Inr locks_upds lock_of_def split: if_splits option.splits
      dest!: locks_windows[OF continue_windows])

lemma os_run_locks: "os_run call k s = Some (Inr s') \<Longrightarrow> locks s' = locks s"
proof -
  have "\<forall>s'. r = Inr s' \<longrightarrow> locks s' = locks s" if "os_run call k s = Some r" for r
    using that
  proof (induction call k s r rule: os_run.raw_induct[rotated, consumes 1, case_names step])
    case (step rec call k s r)
    have IH: "rec c k u = retR u' \<Longrightarrow> locks u' = locks u" for c k u u' using step(1) by (auto simp: retR_def)
    show ?case
    proof (intro allI impI)
      fix s' assume "r = Inr s'"
      show "locks s' = locks s"
      proof (cases call)
        case (Call_waits ts)
        then show ?thesis using step(2) \<open>r = Inr s'\<close> IH by (cases ts) (auto simp: bindR_eq_retR retR_def[symmetric])
      next
        case (Call_starts i)
        then show ?thesis using step(2) \<open>r = Inr s'\<close>
          by (auto simp: bindR_eq_retR retR_def[symmetric] locks_upds lock_of_def forget_started_def split: if_splits dest!: IH)
      next
        case (Call_post t)
        then show ?thesis using step(2) \<open>r = Inr s'\<close>
          by (auto simp: bindR_eq_retR retR_def[symmetric] locks_upds lock_of_def Let_def split: if_splits option.splits
              dest!: IH locks_windows[OF continue_windows] locks_windows[OF duplicate_coll_windows] os_start_locks os_wait_locks)
      qed
    qed
  qed
  then show "os_run call k s = Some (Inr s') \<Longrightarrow> locks s' = locks s" by blast
qed

lemma locks_okI: "locks s' = locks s \<Longrightarrow> locks_ok s \<Longrightarrow> locks_ok s'"
  by (simp add: locks_ok_def)

lemma locks_ok_alt: "locks_ok s \<longleftrightarrow> (\<forall>k w. windows s k = Some w \<longrightarrow> exclusive (lock_of w))"
  unfolding locks_ok_def locks_def by (simp del: split_paired_All) blast

lemma locks_ok_upd: "locks_ok s \<Longrightarrow> (\<And>w. windows s k = Some w \<Longrightarrow> exclusive (lock_of w) \<Longrightarrow> exclusive (lock_of (f w))) \<Longrightarrow>
    locks_ok (upd_win k f s)"
  unfolding locks_ok_alt by auto

lemma locks_ok_window: "locks_ok s \<Longrightarrow> windows s k = Some w \<Longrightarrow> exclusive (lock_of w)"
  by (simp add: locks_ok_alt)

lemma locate_window_eq_Inr [simp]: "locate_window k s = Inr w \<longleftrightarrow> windows s k = Some w"
  by (auto simp: locate_window_def split: option.splits)

lemma os_lock_ok: "os_lock k m t s = Inr s' \<Longrightarrow> locks_ok s \<Longrightarrow> locks_ok s'"
proof -
  assume h: "os_lock k m t s = Inr s'" and ok: "locks_ok s"
  obtain w i tk where w: "windows s k = Some w" and
    r: "(if task_with_lock w = None \<or> task_with_lock w = Some tk \<and> os_mode m = MPI_OS_LOCK_SHARED \<and> lock_mode w = MPI_OS_LOCK_SHARED
     then continue_thread t (upd_win k (\<lambda>w. w\<lparr>task_with_lock := Some tk, lock_mode := os_mode m,
            threads_with_lock := threads_with_lock w @ [t]\<rparr>) s)
     else Inr (upd_win k (\<lambda>w. w\<lparr>threads_waiting_lock := threads_waiting_lock w @ [t]\<rparr>) (set_last_paraver t s))) = Inr s'"
    using h by (auto simp: os_lock_def bindE_eq_Inr)
  show ?thesis
  proof (cases "task_with_lock w = None \<or> task_with_lock w = Some tk \<and> os_mode m = MPI_OS_LOCK_SHARED \<and> lock_mode w = MPI_OS_LOCK_SHARED")
    case True
    have "locks_ok (upd_win k (\<lambda>w. w\<lparr>task_with_lock := Some tk, lock_mode := os_mode m, threads_with_lock := threads_with_lock w @ [t]\<rparr>) s)"
      by (rule locks_ok_upd[OF ok]) (use True w in \<open>auto simp: exclusive_def lock_of_def\<close>)
    with r True show ?thesis by (auto dest!: continue_windows intro: locks_okI locks_windows)
  next
    case False
    then have "s' = upd_win k (\<lambda>w. w\<lparr>threads_waiting_lock := threads_waiting_lock w @ [t]\<rparr>) (set_last_paraver t s)" using r by auto
    then have "locks s' = locks s" by (simp add: locks_upds lock_of_def)
    with ok show ?thesis by (rule locks_okI[rotated])
  qed
qed

lemma ask_again_ok: "ask_again ts s = Inr s' \<Longrightarrow> locks_ok s \<Longrightarrow> locks_ok s'"
  by (induction ts arbitrary: s) (auto simp: bindE_eq_Inr dest: os_lock_ok split: if_splits)

lemma q_extract_length: "q_extract t q = Inr q' \<Longrightarrow> length q' \<le> length q"
  by (auto simp: q_extract_def length_remove1 split: if_splits)

lemma q_extract_Nil [simp]: "q_extract t [] \<noteq> Inr q"
  by (simp add: q_extract_def)

lemma os_unlock_ok: "os_unlock k t s = Inr s' \<Longrightarrow> locks_ok s \<Longrightarrow> locks_ok s'"
proof -
  assume h: "os_unlock k t s = Inr s'" and ok: "locks_ok s"
  obtain w where w: "windows s k = Some w" using h by (auto simp: os_unlock_def bindE_eq_Inr)
  show ?thesis
  proof (cases "\<exists>u\<in>set (lock_operations w). task_of (threads s u) = task_of (threads s t)")
    case True
    then have "s' = upd_win k (\<lambda>w. w\<lparr>threads_waiting_unlock := threads_waiting_unlock w @ [t]\<rparr>) s"
      using h w by (simp add: os_unlock_def locate_window_def)
    then have "locks s' = locks s" by (simp add: locks_upds lock_of_def)
    then show ?thesis using ok by (rule locks_okI)
  next
    case False
    then obtain q s1 where q: "q_extract t (threads_with_lock w) = Inr q"
      and c: "continue_thread t (upd_win k (\<lambda>w. w\<lparr>threads_with_lock := q\<rparr>) s) = Inr s1"
      and r: "(if q = [] then
         let s2 = upd_win k (\<lambda>w. w\<lparr>task_with_lock := None\<rparr>) s1 in
         if threads_waiting_lock w \<noteq> []
         then ask_again (threads_waiting_lock w)
                (fold set_last_paraver (threads_waiting_lock w) (upd_win k (\<lambda>w. w\<lparr>threads_waiting_lock := []\<rparr>) s2))
         else Inr (upd_win k (\<lambda>w. w\<lparr>win_mode := WINDOW_MODE_NONE\<rparr>) s2)
       else Inr (upd_win k (\<lambda>w. w\<lparr>win_mode := WINDOW_MODE_NONE\<rparr>) s1)) = Inr s'"
      using h w by (auto simp: os_unlock_def locate_window_def bindE_eq_Inr)
    have x: "exclusive (lock_of w)" using ok w by (rule locks_ok_window)
    have l: "length q \<le> length (threads_with_lock w)" "threads_with_lock w \<noteq> []" using q_extract_length[OF q] q by auto
    have 1: "locks_ok s1"
      by (rule locks_okI[OF locks_windows[OF continue_windows[OF c]]], rule locks_ok_upd[OF ok])
         (use w x l in \<open>auto simp: exclusive_def lock_of_def\<close>)
    have wq: "windows s1 k = Some (w\<lparr>threads_with_lock := q\<rparr>)" using continue_windows[OF c] w by simp
    have 2: "q = [] \<Longrightarrow> locks_ok (upd_win k (\<lambda>w. w\<lparr>task_with_lock := None\<rparr>) s1)"
      by (rule locks_ok_upd[OF 1]) (use wq in \<open>auto simp: exclusive_def lock_of_def\<close>)
    have keep: "locks_ok (upd_win k (\<lambda>w. w\<lparr>win_mode := v\<rparr>) u)" if "locks_ok u" for u :: "'a os_sim_scheme" and v
      by (rule locks_okI[OF locks_upd_win that]) (simp add: lock_of_def)
    show ?thesis
    proof (cases "q = [] \<and> threads_waiting_lock w \<noteq> []")
      case True
      let ?s3 = "fold set_last_paraver (threads_waiting_lock w) (upd_win k (\<lambda>w. w\<lparr>threads_waiting_lock := []\<rparr>) (upd_win k (\<lambda>w. w\<lparr>task_with_lock := None\<rparr>) s1))"
      have "ask_again (threads_waiting_lock w) ?s3 = Inr s'" using r True by (simp add: Let_def)
      moreover have "locks ?s3 = locks (upd_win k (\<lambda>w. w\<lparr>task_with_lock := None\<rparr>) s1)"
        by (simp add: locks_upds lock_of_def)
      then have "locks_ok ?s3" by (rule locks_okI) (use 2 True in blast)
      ultimately show ?thesis by (rule ask_again_ok)
    next
      case False
      then have "s' = upd_win k (\<lambda>w. w\<lparr>win_mode := WINDOW_MODE_NONE\<rparr>) (if q = [] then upd_win k (\<lambda>w. w\<lparr>task_with_lock := None\<rparr>) s1 else s1)"
        using r by (auto simp: Let_def)
      then show ?thesis using 1 2 keep by simp
    qed
  qed
qed

lemma os_post_locks: "os_post t k s = retR s' \<Longrightarrow> locks s' = locks s"
  by (simp add: os_post_def retR_def os_run_locks)

lemma bindR_SomeE:
  assumes "bindR (Some r) f = retR y"
  obtains x where "r = Inr x"
  using assms by (cases r) (auto simp: bindR_def retR_def)

lemma os_calls: "bindR (Some (Inr x)) f = f x"
  by (simp add: bindR_def)

lemma ONE_SIDED_locks_ok: "ONE_SIDED_operation t s = retR s' \<Longrightarrow> locks_ok s \<Longrightarrow> locks_ok s'"
proof -
  assume h: "ONE_SIDED_operation t s = retR s'" and ok: "locks_ok s"
  obtain m where m: "os_of t s = Inr m"
    using h unfolding ONE_SIDED_operation_def by (rule bindR_SomeE)
  obtain w where "locate_window (window_id m) s = Inr w"
    using h unfolding ONE_SIDED_operation_def m os_calls by (rule bindR_SomeE)
  then have w: "windows s (window_id m) = Some w" by simp
  define mode where "mode = (if win_mode w = WINDOW_MODE_NONE then mode_of_first (which_os m) else win_mode w)"
  define s1 where "s1 = upd_win (window_id m) (\<lambda>w. w\<lparr>win_mode := mode\<rparr>) s"
  have 1: "locks_ok s1" by (rule locks_okI[OF _ ok]) (simp add: s1_def locks_upds lock_of_def)
  have "(if mode = WINDOW_MODE_NONE then failR (Panic ''Unable to change to window mode based on operation'')
     else if mode = WINDOW_MODE_FENCE then
         (if which_os m = MPI_OS_GETPUT then os_getput m t s1
          else if which_os m = MPI_OS_FENCE then Some (os_fence False (window_id m) t s1)
          else failR (Panic ''Invalid window operation in this window mode''))
     else if mode = WINDOW_MODE_LOCK then
         (if which_os m = MPI_OS_GETPUT then os_getput m t s1
          else if which_os m = MPI_OS_LOCK then
            (if os_op m = MPI_OS_LOCK_LOCK then Some (os_lock (window_id m) m t s1)
             else if os_op m = MPI_OS_LOCK_UNLOCK then Some (os_unlock (window_id m) t s1)
             else retR s1)
          else failR (Panic ''Invalid operation in RMA lock mode''))
     else if mode = WINDOW_MODE_POST then
         (if which_os m = MPI_OS_GETPUT then os_getput m t s1
          else if which_os m = MPI_OS_POST then os_post t (window_id m) s1
          else failR (Panic ''Invalid operation in POST mode''))
     else retR s1) = retR s'"
    using h unfolding ONE_SIDED_operation_def Let_def locate_window_def m os_calls w option.case mode_def[symmetric] s1_def[symmetric] by assumption
  then have "s' = s1 \<or> os_getput m t s1 = retR s' \<or> os_fence False (window_id m) t s1 = Inr s' \<or> os_lock (window_id m) m t s1 = Inr s' \<or>
      os_unlock (window_id m) t s1 = Inr s' \<or> os_post t (window_id m) s1 = retR s'"
    by (simp add: retR_def failR_def split: if_splits)
  then show ?thesis
    by (elim disjE) (use 1 in \<open>auto dest: os_lock_ok os_unlock_ok os_getput_locks os_fence_locks os_post_locks intro: locks_okI\<close>)
qed

lemma completed_in_fence_locks: "completed_in_fence t k s = Inr s' \<Longrightarrow> locks s' = locks s"
  by (auto simp: completed_in_fence_def bindE_eq_Inr Let_def locks_upds lock_of_def split: if_splits dest!: os_fence_locks)

lemma completed_in_lock_ok: "completed_in_lock c t k s = Inr s' \<Longrightarrow> locks_ok s \<Longrightarrow> locks_ok s'"
proof -
  assume h: "completed_in_lock c t k s = Inr s'" and ok: "locks_ok s"
  have "locks_ok (upd_win k (\<lambda>w. w\<lparr>lock_operations := v\<rparr>) s)" for v
    by (rule locks_okI[OF locks_upd_win ok]) (simp add: lock_of_def)
  then show ?thesis using h ok by (auto simp: completed_in_lock_def bindE_eq_Inr Let_def split: if_splits option.splits dest: os_unlock_ok)
qed

lemma completed_in_post_locks: "completed_in_post c t k s = retR s' \<Longrightarrow> locks s' = locks s"
  by (auto simp: completed_in_post_def bindR_eq_retR Let_def locks_upds lock_of_def split: if_splits option.splits dest!: os_post_locks)

lemma os_completed_locks_ok: "os_completed c s = retR s' \<Longrightarrow> locks_ok s \<Longrightarrow> locks_ok s'"
proof -
  assume "os_completed c s = retR s'" and ok: "locks_ok s"
  then obtain t k s1 s2 s3 where "completed_in_fence t k s = Inr s1" "completed_in_lock c t k s1 = Inr s2"
    "completed_in_post c t k s2 = retR s3" "delete_duplicate_thread c s3 = Inr s'"
    by (auto simp: os_completed_def bindR_eq_retR split: option.splits)
  then show ?thesis
    using ok completed_in_fence_locks completed_in_lock_ok completed_in_post_locks delete_windows locks_windows locks_okI by metis
qed

text \<open>The steps of the simulation, for the windows: an operation, the end of an access, and all that leaves the windows alone.\<close>

inductive window_step :: "'z os_sim_scheme \<Rightarrow> 'z os_sim_scheme \<Rightarrow> bool" where
  operation: "ONE_SIDED_operation t s = retR s' \<Longrightarrow> window_step s s'"
| completed: "os_completed c s = retR s' \<Longrightarrow> window_step s s'"
| elsewhere: "windows s' = windows s \<Longrightarrow> window_step s s'"

inductive_cases window_stepE: "window_step s s'"

lemma window_step_locks_ok: "window_step s s' \<Longrightarrow> locks_ok s \<Longrightarrow> locks_ok s'"
  by (elim window_stepE) (blast intro: ONE_SIDED_locks_ok os_completed_locks_ok locks_okI[OF locks_windows])+

lemma window_steps_locks_ok: "window_step\<^sup>*\<^sup>* s s' \<Longrightarrow> locks_ok s \<Longrightarrow> locks_ok s'"
  by (induction rule: rtranclp_induct) (auto dest: window_step_locks_ok)

text \<open>
  Property C27. A lock that is not shared has at most one holder, and a window nobody has locked has none, in every state that
  operations on windows, the ends of their accesses and any other steps can reach from windows without holders.
\<close>

theorem exclusive_lock_has_one_holder:
  assumes "window_step\<^sup>*\<^sup>* s s'" "\<forall>k w. windows s k = Some w \<longrightarrow> threads_with_lock w = []" "windows s' k = Some w"
  shows "(lock_mode w \<noteq> MPI_OS_LOCK_SHARED \<longrightarrow> length (threads_with_lock w) \<le> 1) \<and> (task_with_lock w = None \<longrightarrow> threads_with_lock w = [])"
proof -
  have "locks_ok s" using assms(2) by (auto simp: locks_ok_alt exclusive_def lock_of_def)
  with assms(1) have "locks_ok s'" by (rule window_steps_locks_ok)
  then show ?thesis using assms(3) by (auto simp: locks_ok_alt exclusive_def lock_of_def)
qed

section \<open>A shared lock\<close>

text \<open>
  The first of two holders of a shared lock that unlocks puts the window back to no mode while the other one still
  holds the lock, so that the next access of the other one opens a fence.
\<close>

theorem early_unlock_leaves_lock_mode:
  assumes "windows s k = Some w" "threads_with_lock w = [t, u]" "t \<noteq> u"
    "\<not> (\<exists>v\<in>set (lock_operations w). task_of (threads s v) = task_of (threads s t))" "os_unlock k t s = Inr s'"
  shows "\<exists>w'. windows s' k = Some w' \<and> win_mode w' = WINDOW_MODE_NONE \<and> threads_with_lock w' = [u] \<and>
    task_with_lock w' = task_with_lock w \<and> threads_waiting_lock w' = threads_waiting_lock w"
proof -
  have q: "q_extract t (threads_with_lock w) = Inr [u]" using assms(2,3) by (simp add: q_extract_def)
  obtain s1 where c: "continue_thread t (upd_win k (\<lambda>w. w\<lparr>threads_with_lock := [u]\<rparr>) s) = Inr s1"
    and r: "s' = upd_win k (\<lambda>w. w\<lparr>win_mode := WINDOW_MODE_NONE\<rparr>) s1"
    using assms(5) assms(4) by (auto simp: os_unlock_def locate_window_def assms(1) q bindE_eq_Inr)
  have "windows s' k = Some (w\<lparr>threads_with_lock := [u], win_mode := WINDOW_MODE_NONE\<rparr>)"
    using continue_windows[OF c] assms(1) by (simp add: r)
  then show ?thesis by simp
qed

section \<open>Starts that still have to wait\<close>

definition still_waits :: "int \<Rightarrow> t_window \<Rightarrow> 'z os_sim_scheme \<Rightarrow> tid \<Rightarrow> bool" where
  "still_waits k w s t \<longleftrightarrow> (\<exists>m. os_of t s = Inr m \<and> os_op m = MPI_OS_POST_START \<and> \<not> same_task s t (start_done w) \<and>
     there_is_a_post_for_this_start w t (post_ranks m) s = Inr False)"

lemma there_is_a_post_cong:
  assumes "\<And>u. actions (execs s' u) = actions (execs s u)" "\<And>u. task_of (threads s' u) = task_of (threads s u)"
    "post_done w' = post_done w" "global_ranks w' = global_ranks w"
  shows "there_is_a_post_for_this_start w' t rs s' = there_is_a_post_for_this_start w t rs s"
proof -
  have r: "from_rank_to_task w' = from_rank_to_task w" using assms(4) by (simp add: from_rank_to_task_def fun_eq_iff)
  have l: "rank_listed w' tk qs = rank_listed w tk qs" for tk qs by (induction qs) (simp_all add: r cong: if_cong)
  show ?thesis using assms(1-3) by (induction rs) (simp_all add: r l os_of_def cong: if_cong option.case_cong)
qed

definition wait_again :: "int \<Rightarrow> tid \<Rightarrow> 'z os_sim_scheme \<Rightarrow> 'z os_sim_scheme" where
  "wait_again k t s = upd_win k (\<lambda>w. w\<lparr>pending_of_post := pending_of_post w @ [t]\<rparr>) (set_last_paraver t s)"

lemma wait_again_simps [simp]:
  "actions (execs (wait_again k t s) u) = actions (execs s u)" "task_of (threads (wait_again k t s) u) = task_of (threads s u)"
  "windows (wait_again k t s) k = map_option (\<lambda>w. w\<lparr>pending_of_post := pending_of_post w @ [t]\<rparr>) (windows s k)"
  by (simp_all add: wait_again_def upd_win_def set_last_paraver_def upd_thread_def)

lemma still_waits_again:
  "still_waits k (w\<lparr>pending_of_post := q\<rparr>) (wait_again k t s) u \<longleftrightarrow> still_waits k w s u"
  using there_is_a_post_cong[of "wait_again k t s" s "w\<lparr>pending_of_post := q\<rparr>" w]
  by (simp add: still_waits_def os_of_def same_task_def)

lemma start_waits_again:
  assumes "windows s k = Some w" "still_waits k w s t" "os_of t s = Inr m"
  shows "os_start (m\<lparr>window_id := k\<rparr>) w t s = Inr (wait_again k t s)"
  using assms by (auto simp: os_start_def still_waits_def wait_again_def Let_def)

definition all_wait :: "int \<Rightarrow> nat \<Rightarrow> 'z os_sim_scheme \<Rightarrow> bool" where
  "all_wait k i s \<longleftrightarrow> (\<exists>w. windows s k = Some w \<and> i < length (pending_of_post w) \<and> (\<forall>t\<in>set (drop i (pending_of_post w)). still_waits k w s t))"

text \<open>
  Property C28. A thread that posts while a start still has to wait for another post never gets past
  \<open>are_there_pending_start\<close>: the start is put behind the queue the loop runs over, again and again, and the simulator hangs.
\<close>

theorem start_that_still_waits_hangs:
  assumes "windows s k = Some w" "pending_of_post w \<noteq> []"
    "\<forall>t\<in>set (pending_of_post w). \<exists>m. os_of t s = Inr m \<and> os_op m = MPI_OS_POST_START \<and> \<not> same_task s t (start_done w) \<and>
       there_is_a_post_for_this_start w t (post_ranks m) s = Inr False"
  shows "os_run (Call_starts 0) k s = None"
proof -
  have "(\<forall>i. call = Call_starts i \<longrightarrow> \<not> all_wait k i s) \<and>
      (\<forall>t w. call = Call_post t \<and> windows s k = Some w \<and> still_waits k w s t \<longrightarrow> r = Inr (wait_again k t s))"
    if "os_run call k s = Some r" for call k r and s :: "'a os_sim_scheme"
    using that
  proof (induction call k s r rule: os_run.raw_induct[rotated, consumes 1, case_names step])
    case (step rec call k s r)
    show ?case
    proof (intro conjI allI impI notI)
      fix i assume c: "call = Call_starts i" and "all_wait k i s"
      then obtain w where w: "windows s k = Some w" "i < length (pending_of_post w)" "\<And>t. t \<in> set (drop i (pending_of_post w)) \<Longrightarrow> still_waits k w s t"
        by (auto simp: all_wait_def)
      let ?t = "pending_of_post w ! i"
      have t: "?t \<in> set (drop i (pending_of_post w))" using w(2) by (metis hd_drop_conv_nth hd_in_set drop_eq_Nil not_less)
      have b: "bindR (rec (Call_post ?t) k s) (rec (Call_starts (Suc i)) k) = Some r"
        using step(2) w(1,2) by (simp add: c bindR_def locate_window_def)
      then obtain x where x: "rec (Call_post ?t) k s = Some x" by (cases "rec (Call_post ?t) k s") auto
      have "x = Inr (wait_again k ?t s)" using step(1)[OF x] w(1) w(3)[OF t] by blast
      then have "rec (Call_starts (Suc i)) k (wait_again k ?t s) = Some r" using b x by (simp add: bindR_def)
      then have "\<not> all_wait k (Suc i) (wait_again k ?t s)" using step(1) by blast
      moreover have "all_wait k (Suc i) (wait_again k ?t s)"
        unfolding all_wait_def
        using w(1,2) w(3)[OF t] w(3) set_drop_subset_set_drop[of i "Suc i" "pending_of_post w"] by (auto simp: still_waits_again)
      ultimately show False by contradiction
    next
      fix t w assume "call = Call_post t \<and> windows s k = Some w \<and> still_waits k w s t"
      then obtain m where m: "call = Call_post t" "windows s k = Some w" "still_waits k w s t" "os_of t s = Inr m" "os_op m = MPI_OS_POST_START"
        by (auto simp: still_waits_def)
      then show "r = Inr (wait_again k t s)"
        using step(2) start_waits_again[OF m(2,3,4)]
        by (simp add: bindR_def locate_window_def MPI_OS_POST_START_def MPI_OS_POST_POST_def)
    qed
  qed
  moreover have "all_wait k 0 s" using assms by (auto simp: all_wait_def still_waits_def)
  ultimately show ?thesis by (cases "os_run (Call_starts 0) k s") auto
qed

section \<open>Examples\<close>

definition ex_win :: t_window where
  "ex_win = \<lparr>global_ranks = [0, 1], win_mode = WINDOW_MODE_NONE, fence_tasks = [], fence_operations = [], task_with_lock = None,
     lock_mode = MPI_OS_LOCK_SHARED, threads_with_lock = [], threads_waiting_lock = [], threads_waiting_unlock = [],
     lock_operations = [], post_done = [], start_done = [], pending_of_post = [], pending_rma_to_complete = [],
     complete_done = [], pending_wait_to_complete = [], post_operations = []\<rparr>"

definition ex_rma :: "int \<Rightarrow> int \<Rightarrow> int \<Rightarrow> int list \<Rightarrow> t_mpi_os" where
  "ex_rma which op mode ranks = \<lparr>which_os = which, os_op = op, target_rank = 0, window_id = 0, os_size = 8, os_mode = mode, post_ranks = ranks\<rparr>"

definition ex_os :: "t_window \<Rightarrow> (tid \<Rightarrow> t_mpi_os) \<Rightarrow> os_sim" where
  "ex_os w m = coll_sim.extend (ex_coll 1 []\<lparr>execs := (\<lambda>t. (ex_sim_exec t)\<lparr>startup_done := True, actions := [AC_MPI_OS (m t), AC_WORK 7]\<rparr>)\<rparr>)
     \<lparr>windows = [0 \<mapsto> w], local_memory_startup = (\<lambda>_. 0), remote_memory_startup = (\<lambda>_. 0)\<rparr>"

lemmas eval_go = ready_if_more_def SCHEDULER_thread_to_ready_def works_def policy_thread_to_ready_def FIFO_thread_to_ready_def
  upd_ready_def set_loose_cpu_def continue_thread_def

lemmas ex_os_defs = ex_os_def ex_rma_def ex_win_def coll_sim.defs ex_coll_defs

theorem start_that_still_waits_hangs_witness:
  "os_run (Call_starts 0) 0 (ex_os (ex_win\<lparr>pending_of_post := [0]\<rparr>) (\<lambda>_. ex_rma MPI_OS_POST MPI_OS_POST_START 0 [1])) = None"
  by (rule start_that_still_waits_hangs[where w = "ex_win\<lparr>pending_of_post := [0]\<rparr>"])
     (simp_all add: ex_os_defs os_of_def same_task_def from_rank_to_task_def)

theorem early_unlock_leaves_lock_mode_witness:
  "\<exists>s' w'. os_unlock 0 0 (ex_os (ex_win\<lparr>task_with_lock := Some 0, threads_with_lock := [0, 1], win_mode := WINDOW_MODE_LOCK\<rparr>)
      (\<lambda>_. ex_rma MPI_OS_LOCK MPI_OS_LOCK_UNLOCK 0 [])) = Inr s' \<and>
     windows s' 0 = Some w' \<and> win_mode w' = WINDOW_MODE_NONE \<and> threads_with_lock w' = [1] \<and> task_with_lock w' = Some 0"
proof -
  define w where "w = ex_win\<lparr>task_with_lock := Some 0, threads_with_lock := [0, 1], win_mode := WINDOW_MODE_LOCK\<rparr>"
  define s where "s = ex_os w (\<lambda>_. ex_rma MPI_OS_LOCK MPI_OS_LOCK_UNLOCK 0 [])"
  have "case os_unlock 0 0 s of Inr _ \<Rightarrow> True | _ \<Rightarrow> False"
    by (simp add: os_unlock_def s_def w_def q_extract_def upd_win_def continue_thread_def eval_go eval_msg next_action_def
      more_actions_def ex_os_defs set_last_paraver_def locate_window_def)
  then obtain s' where r: "os_unlock 0 0 s = Inr s'" by (auto split: sum.splits)
  have h: "windows s 0 = Some w" "threads_with_lock w = [0, 1]" "(0::tid) \<noteq> 1" "task_with_lock w = Some 0"
    "\<not> (\<exists>v\<in>set (lock_operations w). task_of (threads s v) = task_of (threads s 0))"
    by (simp_all add: s_def w_def ex_os_defs)
  from early_unlock_leaves_lock_mode[OF h(1,2,3,5) r] r h(4) show ?thesis by (auto simp: s_def w_def)
qed

theorem exclusive_lock_has_one_holder_witness:
  "\<exists>s' w. ONE_SIDED_operation 0 (ex_os ex_win (\<lambda>_. ex_rma MPI_OS_LOCK MPI_OS_LOCK_LOCK MPI_OS_LOCK_EXCLUS [])) = retR s' \<and>
     windows s' 0 = Some w \<and> lock_mode w = MPI_OS_LOCK_EXCLUS \<and> threads_with_lock w \<noteq> [] \<and> length (threads_with_lock w) \<le> 1"
proof -
  define s where "s = ex_os ex_win (\<lambda>_. ex_rma MPI_OS_LOCK MPI_OS_LOCK_LOCK MPI_OS_LOCK_EXCLUS [])"
  have "case ONE_SIDED_operation 0 s of Some (Inr s') \<Rightarrow> \<exists>w. windows s' 0 = Some w \<and> lock_mode w = MPI_OS_LOCK_EXCLUS \<and> threads_with_lock w \<noteq> [] | _ \<Rightarrow> False"
    by (simp add: ONE_SIDED_operation_def os_of_def os_lock_def from_rank_to_task_def from_taskid_to_task_def s_def upd_win_def
      continue_thread_def eval_go eval_msg next_action_def more_actions_def ex_os_defs set_last_paraver_def locate_window_def
      bindR_def mode_of_first_def MPI_OS_GETPUT_def MPI_OS_LOCK_def MPI_OS_FENCE_def WINDOW_MODE_NONE_def WINDOW_MODE_LOCK_def
      WINDOW_MODE_FENCE_def MPI_OS_LOCK_LOCK_def MPI_OS_LOCK_EXCLUS_def MPI_OS_LOCK_SHARED_def)
  then obtain s' w where r: "ONE_SIDED_operation 0 s = retR s'" "windows s' 0 = Some w" "lock_mode w = MPI_OS_LOCK_EXCLUS" "threads_with_lock w \<noteq> []"
    unfolding run_returns_iff by blast
  have "window_step\<^sup>*\<^sup>* s s'" by (rule r_into_rtranclp) (rule window_step.operation[OF r(1)])
  moreover have "\<forall>k w. windows s k = Some w \<longrightarrow> threads_with_lock w = []" by (simp add: s_def ex_os_defs)
  ultimately have "length (threads_with_lock w) \<le> 1"
    using exclusive_lock_has_one_holder[of s s' 0 w] r by (auto simp: MPI_OS_LOCK_EXCLUS_def MPI_OS_LOCK_SHARED_def)
  with r show ?thesis unfolding s_def by blast
qed

end
