(* ===== verification/Ports.thy ===== *)
theory Ports
  imports OneSided
begin

text \<open>
  Semaphores (\<^verbatim>\<open>model/semaphore.c\<close>), ports (\<^verbatim>\<open>model/ports.c\<close>) and copies of memory segments (\<open>MEMORY_*\<close> of
  \<^verbatim>\<open>model/memory.c\<close>). A pointer to a port is a number; \<open>None\<close> in \<open>ports\<close> means not allocated or freed. The module that asked
  for a transfer is told its end by \<open>FS_general\<close>, an argument here.
\<close>

section \<open>State\<close>

record t_semaphore =
  counter :: int
  sem_threads :: "tid list"

record t_port =
  portid :: int
  port_thread :: tid
  port_send :: "tid list"
  port_recv :: "tid list"
  sending :: int

record port_sim = os_sim +
  semaphores :: "taskid \<Rightarrow> int \<Rightarrow> t_semaphore option"
  ports :: "nat \<Rightarrow> t_port option"
  Port_queue :: "nat list"
  next_port :: nat
  size_port :: "tid \<Rightarrow> int"
  to_module :: "tid \<Rightarrow> modul option"
  port_of :: "tid \<Rightarrow> nat option"
  copy_segment_size :: "tid \<Rightarrow> int"
  local_port_startup :: "nodeid \<Rightarrow> real"
  remote_port_startup :: "nodeid \<Rightarrow> real"

definition MAX_SEMAPHORES :: int where "MAX_SEMAPHORES = 100"
definition FS_PORT_SEND_END :: int where "FS_PORT_SEND_END = 3"
definition FS_PORT_RECV_END :: int where "FS_PORT_RECV_END = 4"
definition FS_COPY_SEGMENT_END :: int where "FS_COPY_SEGMENT_END = 5"

section \<open>Semaphores\<close>

definition SEMAPHORE_Init :: "'z port_sim_scheme \<Rightarrow> 'z port_sim_scheme" where
  "SEMAPHORE_Init s = s\<lparr>semaphores := \<lambda>tk k. if 0 \<le> tk \<and> tk < tasks_count s \<and> 1 \<le> k \<and> k \<le> MAX_SEMAPHORES
     then Some \<lparr>counter = 0, sem_threads = []\<rparr> else None\<rparr>"

definition set_sem :: "taskid \<Rightarrow> int \<Rightarrow> t_semaphore \<Rightarrow> 'z port_sim_scheme \<Rightarrow> 'z port_sim_scheme" where
  "set_sem tk k x s = s\<lparr>semaphores := (semaphores s)(tk := (semaphores s tk)(k \<mapsto> x))\<rparr>"

text \<open>The waiter goes on if the thread that signals has a next operation.\<close>

definition SEMAPHORE_signal :: "int \<Rightarrow> tid \<Rightarrow> 'z port_sim_scheme \<Rightarrow> 'z port_sim_scheme res" where
  "SEMAPHORE_signal k t s =
     (let tk = task_of (threads s t) in
      case semaphores s tk k of
        None \<Rightarrow> Inl (Panic ''Invalid semaphore identification'')
      | Some x \<Rightarrow>
          if counter x \<ge> 0 then Inr (set_sem tk k (x\<lparr>counter := counter x + 1\<rparr>) s)
          else
            let (goes, s1) = more_actions t (set_sem tk k (x\<lparr>counter := counter x + 1, sem_threads := tl (sem_threads x)\<rparr>) s) in
            if \<not> goes then Inr s1
            else (case sem_threads x of [] \<Rightarrow> Inl NullDeref | u # _ \<Rightarrow> SCHEDULER_thread_to_ready u s1))"

definition SEMAPHORE_wait :: "int \<Rightarrow> tid \<Rightarrow> 'z port_sim_scheme \<Rightarrow> 'z port_sim_scheme res" where
  "SEMAPHORE_wait k t s =
     (let tk = task_of (threads s t) in
      case semaphores s tk k of
        None \<Rightarrow> Inl (Panic ''Invalid semaphore identification'')
      | Some x \<Rightarrow>
          if counter x > 0 then ready_if_more False t (set_sem tk k (x\<lparr>counter := counter x - 1\<rparr>) s)
          else Inr (set_sem tk k (x\<lparr>counter := counter x - 1, sem_threads := sem_threads x @ [t]\<rparr>)
                 (set_loose_cpu t True (set_last_paraver t s))))"

fun signals :: "nat \<Rightarrow> int \<Rightarrow> tid \<Rightarrow> 'z port_sim_scheme \<Rightarrow> 'z port_sim_scheme res" where
  "signals 0 k t s = Inr s"
| "signals (Suc n) k t s = bindE (SEMAPHORE_signal k t s) (signals n k t)"

definition SEMAPHORE_signal_n :: "int \<Rightarrow> int \<Rightarrow> tid \<Rightarrow> 'z port_sim_scheme \<Rightarrow> 'z port_sim_scheme res" where
  "SEMAPHORE_signal_n k n = signals (nat n) k"

section \<open>Ports\<close>

definition upd_port :: "nat \<Rightarrow> (t_port \<Rightarrow> t_port) \<Rightarrow> 'z port_sim_scheme \<Rightarrow> 'z port_sim_scheme" where
  "upd_port p f s = s\<lparr>ports := (ports s)(p := map_option f (ports s p))\<rparr>"

definition set_port_of :: "tid \<Rightarrow> nat option \<Rightarrow> 'z port_sim_scheme \<Rightarrow> 'z port_sim_scheme" where
  "set_port_of t p s = s\<lparr>port_of := (port_of s)(t := p)\<rparr>"

definition set_transfer :: "tid \<Rightarrow> int \<Rightarrow> modul \<Rightarrow> 'z port_sim_scheme \<Rightarrow> 'z port_sim_scheme" where
  "set_transfer t z md s = s\<lparr>size_port := (size_port s)(t := z), to_module := (to_module s)(t \<mapsto> md)\<rparr>"

definition locate_port :: "int \<Rightarrow> 'z port_sim_scheme \<Rightarrow> (nat \<times> t_port) option" where
  "locate_port i s = (case List.find (\<lambda>p. map_option portid (ports s p) = Some i) (Port_queue s) of
      None \<Rightarrow> None | Some p \<Rightarrow> map_option (Pair p) (ports s p))"

text \<open>With \<open>extra_assert\<close> every port is refused.\<close>

definition PORT_create :: "int \<Rightarrow> tid \<Rightarrow> 'z port_sim_scheme \<Rightarrow> (bool \<times> 'z port_sim_scheme) res" where
  "PORT_create i t s =
     (if extra_assert (plat s) then (case locate_port i s of Some _ \<Rightarrow> Inl AssertFailed | None \<Rightarrow> Inr (False, s))
      else Inr (True, s\<lparr>ports := (ports s)(next_port s \<mapsto> \<lparr>portid = i, port_thread = t, port_send = [], port_recv = [], sending = 0\<rparr>),
             Port_queue := Port_queue s @ [next_port s], next_port := next_port s + 1\<rparr>))"

definition PORT_delete :: "int \<Rightarrow> 'z port_sim_scheme \<Rightarrow> bool \<times> 'z port_sim_scheme" where
  "PORT_delete i s = (case locate_port i s of
      None \<Rightarrow> (False, s)
    | Some (p, x) \<Rightarrow>
        if port_send x \<noteq> [] \<or> port_recv x \<noteq> [] \<or> sending x \<noteq> 0 then (False, s)
        else (True, s\<lparr>Port_queue := remove1 p (Port_queue s), ports := (ports s)(p := None)\<rparr>))"

text \<open>
  The time of a transfer: the destination of a send is read from the next operation of the thread, which has to be there. The
  type of the communication is a truth value: inside the node or not.
\<close>

definition transfer_time :: "int \<Rightarrow> bool \<Rightarrow> tid \<Rightarrow> 'z port_sim_scheme \<Rightarrow> (timer \<times> 'z port_sim_scheme) res" where
  "transfer_time z remote t s =
     (if actions (execs s t) = [] then Inl NullDeref
      else bindE (transferencia z (if remote then INTERNAL_NETWORK_COM_TYPE else MEMORY_COMMUNICATION_TYPE) t 0 s) (\<lambda>((ti, _), s1).
        Inr (ti, s1)))"

definition module_timer :: "modul \<Rightarrow> timer \<Rightarrow> tid \<Rightarrow> 'z sim_scheme \<Rightarrow> 'z sim_scheme res" where
  "module_timer md ti t s = bindE (EVENT_timer ti False md (Some t) 0 s) (\<lambda>(r, s1).
     Inr (s1\<lparr>thread_event := (thread_event s1)(t := r)\<rparr>))"

definition really_port_send_of :: "nat \<times> tid \<times> tid \<Rightarrow> 'z port_sim_scheme \<Rightarrow> 'z port_sim_scheme res" where
  "really_port_send_of b s = (case b of (p, ts, tr) \<Rightarrow>
      let ns = get_node_of_thread ts s; nr = get_node_of_thread tr s;
          (ok, s1) = LINKS_get_port_links ts ns tr nr s
      in if ok then
           bindE (transfer_time (size_port s1 ts) (ns \<noteq> nr) ts s1) (\<lambda>(ti, s2).
           if ports s2 p = None then Inl Dangling
           else
             let s3 = upd_port p (\<lambda>x. x\<lparr>sending := sending x + 1\<rparr>) (set_port_of ts (Some p) s2) in
             bindE (module_timer M_PORT (current_time s3 + ti) ts s3) (\<lambda>s4. module_timer M_PORT (current_time s4 + ti) tr s4))
         else if port_send_link (threads s1 ts) = L_NIL
         then Inr (upd_pool (NodePool ns) (\<lambda>q. q\<lparr>wait_outlink_port := wait_outlink_port q @ [b]\<rparr>) s1)
         else Inr (upd_pool (NodePool nr) (\<lambda>q. q\<lparr>wait_inlink_port := wait_inlink_port q @ [b]\<rparr>) s1))"

definition no_port_links :: "tid \<Rightarrow> 'z net_scheme \<Rightarrow> 'z net_scheme" where
  "no_port_links t s = Links.upd_thread t (\<lambda>th. th\<lparr>port_send_link := L_NIL, port_recv_link := L_NIL\<rparr>) s"

definition port_startup :: "nodeid \<Rightarrow> tid list \<Rightarrow> 'z port_sim_scheme \<Rightarrow> real" where
  "port_startup nd partners s = (case partners of
      [] \<Rightarrow> remote_port_startup s nd
    | u # _ \<Rightarrow> if nd = get_node_of_thread u s then local_port_startup s nd else remote_port_startup s nd)"

definition port_pays :: "action \<Rightarrow> real \<Rightarrow> tid \<Rightarrow> 'z port_sim_scheme \<Rightarrow> 'z port_sim_scheme res" where
  "port_pays a startup t s = SCHEDULER_thread_to_ready_return M_PORT t startup 0
     (upd_exec t (\<lambda>x. x\<lparr>doing_startup := True\<rparr>) (set_actions t (a # actions (execs s t)) s))"

definition PORT_send :: "modul \<Rightarrow> int \<Rightarrow> tid \<Rightarrow> int \<Rightarrow> 'z port_sim_scheme \<Rightarrow> (bool \<times> 'z port_sim_scheme) res" where
  "PORT_send md i t z s = (case locate_port i s of
      None \<Rightarrow> Inr (False, s)
    | Some (p, x) \<Rightarrow>
        let startup = port_startup (get_node_of_thread t s) (port_recv x) s in
        if startup \<noteq> 0 \<and> \<not> startup_done (execs s t)
        then bindE (port_pays (AC_PORT_SEND md i z) startup t s) (\<lambda>s1. Inr (True, s1))
        else
          let s1 = set_transfer t z md (set_loose_cpu t True (upd_exec t (\<lambda>e. e\<lparr>startup_done := False\<rparr>) s)) in
          case port_recv x of
            [] \<Rightarrow> Inr (True, upd_port p (\<lambda>x. x\<lparr>port_send := port_send x @ [t]\<rparr>) s1)
          | r # rs \<Rightarrow>
              bindE (really_port_send_of (p, t, r)
                (no_port_links r (no_port_links t (upd_port p (\<lambda>x. x\<lparr>port_recv := rs\<rparr>) s1)))) (\<lambda>s2. Inr (True, s2)))"

definition PORT_receive :: "modul \<Rightarrow> int \<Rightarrow> tid \<Rightarrow> int \<Rightarrow> 'z port_sim_scheme \<Rightarrow> (bool \<times> 'z port_sim_scheme) res" where
  "PORT_receive md i t z s = (case locate_port i s of
      None \<Rightarrow> Inr (False, s)
    | Some (p, x) \<Rightarrow>
        let startup = port_startup (get_node_of_thread t s) (port_send x) s in
        if startup \<noteq> 0 \<and> \<not> startup_done (execs s t)
        then bindE (port_pays (AC_PORT_RECV md i z) startup t s) (\<lambda>s1. Inr (True, s1))
        else
          let s1 = set_transfer t z md (set_loose_cpu t True (upd_exec t (\<lambda>e. e\<lparr>startup_done := False\<rparr>) s)) in
          case port_send x of
            [] \<Rightarrow> Inr (True, upd_port p (\<lambda>x. x\<lparr>port_recv := port_recv x @ [t]\<rparr>) s1)
          | u # us \<Rightarrow>
              bindE (really_port_send_of (p, u, t)
                (no_port_links u (no_port_links t (upd_port p (\<lambda>x. x\<lparr>port_send := us\<rparr>) s1)))) (\<lambda>s2. Inr (True, s2)))"

text \<open>The end of a transfer, for the module that asked for it.\<close>

definition port_to_next_module :: "(int \<Rightarrow> tid \<Rightarrow> 'z port_sim_scheme \<Rightarrow> 'z port_sim_scheme run) \<Rightarrow> tid \<Rightarrow> 'z port_sim_scheme
    \<Rightarrow> 'z port_sim_scheme run" where
  "port_to_next_module fs t s =
     (if to_module s t = Some M_FS then
        let sender = (port_send_link (threads s t) \<noteq> L_NIL);
            s1 = Links.upd_thread t (\<lambda>th. if sender then th\<lparr>port_send_link := L_NIL\<rparr> else th\<lparr>port_recv_link := L_NIL\<rparr>) s;
            s2 = s1\<lparr>size_port := (size_port s1)(t := 0), to_module := (to_module s1)(t := None)\<rparr>;
            s3 = (case actions (execs s2 t) of
                AC_PORT_SEND _ _ _ # as \<Rightarrow> set_actions t as s2 | AC_PORT_RECV _ _ _ # as \<Rightarrow> set_actions t as s2 | _ \<Rightarrow> s2)
        in fs (if sender then FS_PORT_SEND_END else FS_PORT_RECV_END) t s3
      else failR (Panic ''Invalid module identifier in Port''))"

definition one_sending_less :: "tid \<Rightarrow> 'z port_sim_scheme \<Rightarrow> 'z port_sim_scheme res" where
  "one_sending_less t s = (case port_of s t of
      None \<Rightarrow> Inl NullDeref
    | Some p \<Rightarrow> if ports s p = None then Inl Dangling
        else Inr (set_port_of t None (upd_port p (\<lambda>x. x\<lparr>sending := sending x - 1\<rparr>) s)))"

definition PORT_general :: "'z port_sim_scheme handlers \<Rightarrow> (int \<Rightarrow> tid \<Rightarrow> 'z port_sim_scheme \<Rightarrow> 'z port_sim_scheme run)
    \<Rightarrow> tid \<Rightarrow> 'z port_sim_scheme \<Rightarrow> 'z port_sim_scheme run" where
  "PORT_general hs fs t s =
     (if port_send_link (threads s t) = L_NUL then bindR (Some (one_sending_less t s)) (port_to_next_module fs t)
      else if port_recv_link (threads s t) = L_NUL then port_to_next_module fs t (set_port_of t None s)
      else if port_recv_link (threads s t) = L_NIL then
        (case port_send_link (threads s t) of
           Lk l \<Rightarrow> bindR (LINKS_free_network_link hs l t s) (\<lambda>s1. bindR (Some (one_sending_less t s1)) (port_to_next_module fs t))
         | _ \<Rightarrow> failR NullDeref)
      else
        (case port_recv_link (threads s t) of
           Lk l \<Rightarrow> bindR (LINKS_free_network_link hs l t s) (port_to_next_module fs t)
         | _ \<Rightarrow> failR NullDeref))"

section \<open>Copies of memory segments\<close>

definition really_copy_segment_of :: "tid \<times> nodeid \<times> nodeid \<Rightarrow> int \<Rightarrow> 'z port_sim_scheme \<Rightarrow> 'z port_sim_scheme res" where
  "really_copy_segment_of b z s = (case b of (t, ns, nd) \<Rightarrow>
      let (ok, s1) = LINKS_get_memory_copy_links t ns nd s in
      if ok then bindE (transfer_time z (ns \<noteq> nd) t s1) (\<lambda>(ti, s2). module_timer M_MEM (current_time s2 + ti) t s2)
      else if copy_segment_link_source (threads s1 t) = L_NIL
      then Inr (upd_pool (NodePool ns) (\<lambda>q. q\<lparr>wait_out_copy_segment := wait_out_copy_segment q @ [b]\<rparr>) s1)
      else Inr (upd_pool (NodePool nd) (\<lambda>q. q\<lparr>wait_in_copy_segment := wait_in_copy_segment q @ [b]\<rparr>) s1))"

definition MEMORY_copy_segment :: "modul \<Rightarrow> nodeid \<Rightarrow> nodeid \<Rightarrow> int \<Rightarrow> tid \<Rightarrow> 'z port_sim_scheme \<Rightarrow> 'z port_sim_scheme res" where
  "MEMORY_copy_segment md ns nd z t s =
     (let startup = (if ns = nd then local_memory_startup s ns else remote_memory_startup s ns) in
      if startup \<noteq> 0 \<and> \<not> startup_done (execs s t)
      then SCHEDULER_thread_to_ready_return M_MEM t startup 0
             (upd_exec t (\<lambda>x. x\<lparr>doing_startup := True\<rparr>) (set_actions t (AC_MEMORY_COPY md ns nd z # actions (execs s t)) s))
      else
        let s1 = Links.upd_thread t (\<lambda>th. th\<lparr>copy_segment_link_source := L_NIL, copy_segment_link_dest := L_NIL\<rparr>)
              (upd_exec t (\<lambda>x. x\<lparr>startup_done := False\<rparr>) s);
            s2 = s1\<lparr>copy_segment_size := (copy_segment_size s1)(t := z), to_module := (to_module s1)(t \<mapsto> md)\<rparr>
        in really_copy_segment_of (t, ns, nd) z (set_loose_cpu t True s2))"

definition mem_to_next_module :: "(int \<Rightarrow> tid \<Rightarrow> 'z port_sim_scheme \<Rightarrow> 'z port_sim_scheme run) \<Rightarrow> tid \<Rightarrow> 'z port_sim_scheme
    \<Rightarrow> 'z port_sim_scheme run" where
  "mem_to_next_module fs t s =
     (if to_module s t = Some M_FS then fs FS_COPY_SEGMENT_END t s else failR (Panic ''Invalid module identifier in MEMORY''))"

definition free_slot :: "'z port_sim_scheme handlers \<Rightarrow> slot \<Rightarrow> tid \<Rightarrow> 'z port_sim_scheme \<Rightarrow> 'z port_sim_scheme run" where
  "free_slot hs l t s = (case l of Lk i \<Rightarrow> LINKS_free_network_link hs i t s | _ \<Rightarrow> failR NullDeref)"

definition MEMORY_general :: "'z port_sim_scheme handlers \<Rightarrow> (int \<Rightarrow> tid \<Rightarrow> 'z port_sim_scheme \<Rightarrow> 'z port_sim_scheme run)
    \<Rightarrow> tid \<Rightarrow> 'z port_sim_scheme \<Rightarrow> 'z port_sim_scheme run" where
  "MEMORY_general hs fs t s =
     (if copy_segment_link_source (threads s t) \<noteq> L_NUL then
        bindR (free_slot hs (copy_segment_link_source (threads s t)) t s) (\<lambda>s1.
        bindR (free_slot hs (copy_segment_link_dest (threads s1 t)) t s1) (mem_to_next_module fs t))
      else mem_to_next_module fs t s)"

section \<open>The modules\<close>

text \<open>A copy that waited for links continues with the size of its thread.\<close>

definition port_others :: "'z port_sim_scheme others \<Rightarrow> 'z port_sim_scheme others" where
  "port_others g = (coll_others g)\<lparr>other_port_send := \<lambda>b s. Some (really_port_send_of b s),
     other_copy_segment := \<lambda>b s. Some (really_copy_segment_of b (copy_segment_size s (fst b)) s)\<rparr>"

definition port_ops :: "'z port_sim_scheme ops \<Rightarrow> 'z port_sim_scheme ops" where
  "port_ops M = M\<lparr>do_sem_wait := \<lambda>k t s. Some (SEMAPHORE_wait k t s), do_sem_signal := \<lambda>k t s. Some (SEMAPHORE_signal k t s),
     do_sem_signal_n := \<lambda>k n t s. Some (SEMAPHORE_signal_n k n t s),
     do_port_send := \<lambda>md i z t s. Some (bindE (PORT_send md i t z s) (\<lambda>(_, s1). Inr s1)),
     do_port_recv := \<lambda>md i z t s. Some (bindE (PORT_receive md i t z s) (\<lambda>(_, s1). Inr s1)),
     do_memory_copy := \<lambda>md ns nd z t s. Some (MEMORY_copy_segment md ns nd z t s),
     do_mpi_os := ONE_SIDED_operation\<rparr>"

end
