(* ===== verification/PortProps.thy ===== *)
theory PortProps
  imports Ports OneSidedProps
begin

text \<open>
  Properties of semaphores, in every run and in the order of signals and waits, and the loss of the operations on ports that have
  a startup.
\<close>

section \<open>Semaphores\<close>

lemma outer_semaphores:
  fixes s s' :: "'z port_sim_scheme"
  assumes "outer s s'"
  shows "semaphores s' = semaphores s"
  using assms unfolding outer_def by (cases s; cases s'; simp)

lemma semaphores_simps [simp]:
  "semaphores (set_last_paraver t s) = semaphores s" "semaphores (upd_exec t f s) = semaphores s"
  "semaphores (set_loose_cpu t b s) = semaphores s" "semaphores (set_sem tk k x s) = (semaphores s)(tk := (semaphores s tk)(k \<mapsto> x))"
  by (simp_all add: set_last_paraver_def upd_exec_def upd_thread_def set_loose_cpu_def set_sem_def)

lemma SEMAPHORE_signal_cases:
  assumes "SEMAPHORE_signal k t s = Inr s'"
  obtains x where "semaphores s (task_of (threads s t)) k = Some x"
    "semaphores s' = (semaphores s)(task_of (threads s t) := (semaphores s (task_of (threads s t)))(k \<mapsto>
       \<lparr>counter = counter x + 1, sem_threads = if counter x \<ge> 0 then sem_threads x else tl (sem_threads x)\<rparr>))"
proof -
  let ?tk = "task_of (threads s t)"
  obtain x where x: "semaphores s ?tk k = Some x" using assms by (auto simp: SEMAPHORE_signal_def Let_def split: option.splits)
  show thesis
  proof (rule that[OF x], cases "counter x \<ge> 0")
    case True
    then show "semaphores s' = (semaphores s)(?tk := (semaphores s ?tk)(k \<mapsto>
       \<lparr>counter = counter x + 1, sem_threads = if counter x \<ge> 0 then sem_threads x else tl (sem_threads x)\<rparr>))"
      using assms x by (cases x) (auto simp: SEMAPHORE_signal_def)
  next
    case False
    define s0 where "s0 = set_sem ?tk k (x\<lparr>counter := counter x + 1, sem_threads := tl (sem_threads x)\<rparr>) s"
    obtain goes s1 where m: "more_actions t s0 = (goes, s1)" by fastforce
    have "outer s0 s'"
      using assms x False outer_more_actions[OF m]
      by (auto simp: SEMAPHORE_signal_def s0_def[symmetric] m split: if_splits list.splits dest!: outer_thread_to_ready intro: outer_trans)
    then have "semaphores s' = semaphores s0" by (rule outer_semaphores)
    then show "semaphores s' = (semaphores s)(?tk := (semaphores s ?tk)(k \<mapsto>
       \<lparr>counter = counter x + 1, sem_threads = if counter x \<ge> 0 then sem_threads x else tl (sem_threads x)\<rparr>))"
      using False by (cases x) (simp add: s0_def)
  qed
qed

lemma SEMAPHORE_wait_cases:
  assumes "SEMAPHORE_wait k t s = Inr s'"
  obtains x where "semaphores s (task_of (threads s t)) k = Some x"
    "semaphores s' = (semaphores s)(task_of (threads s t) := (semaphores s (task_of (threads s t)))(k \<mapsto>
       \<lparr>counter = counter x - 1, sem_threads = if counter x > 0 then sem_threads x else sem_threads x @ [t]\<rparr>))"
proof -
  let ?tk = "task_of (threads s t)"
  obtain x where x: "semaphores s ?tk k = Some x" using assms by (auto simp: SEMAPHORE_wait_def Let_def split: option.splits)
  show thesis
  proof (rule that[OF x], cases "counter x > 0")
    case True
    then have "outer (set_sem ?tk k (x\<lparr>counter := counter x - 1\<rparr>) s) s'"
      using assms x by (auto simp: SEMAPHORE_wait_def dest!: outer_ready_if_more)
    from outer_semaphores[OF this] True show "semaphores s' = (semaphores s)(?tk := (semaphores s ?tk)(k \<mapsto>
       \<lparr>counter = counter x - 1, sem_threads = if counter x > 0 then sem_threads x else sem_threads x @ [t]\<rparr>))"
      by (cases x) simp
  next
    case False
    then show "semaphores s' = (semaphores s)(?tk := (semaphores s ?tk)(k \<mapsto>
       \<lparr>counter = counter x - 1, sem_threads = if counter x > 0 then sem_threads x else sem_threads x @ [t]\<rparr>))"
      using assms x by (cases x) (auto simp: SEMAPHORE_wait_def)
  qed
qed

text \<open>What happened to a semaphore, in order.\<close>

datatype sem_event = Signalled taskid int | Waited taskid int tid

inductive sem_run :: "'z port_sim_scheme \<Rightarrow> sem_event list \<Rightarrow> 'z port_sim_scheme \<Rightarrow> bool" for s0 where
  begins: "sem_run s0 [] s0"
| signal: "sem_run s0 es s \<Longrightarrow> SEMAPHORE_signal k t s = Inr s' \<Longrightarrow> sem_run s0 (es @ [Signalled (task_of (threads s t)) k]) s'"
| waits: "sem_run s0 es s \<Longrightarrow> SEMAPHORE_wait k t s = Inr s' \<Longrightarrow> sem_run s0 (es @ [Waited (task_of (threads s t)) k t]) s'"
| others: "sem_run s0 es s \<Longrightarrow> semaphores s' = semaphores s \<Longrightarrow> sem_run s0 es s'"

fun signalled :: "taskid \<Rightarrow> int \<Rightarrow> sem_event list \<Rightarrow> nat" where
  "signalled tk k [] = 0"
| "signalled tk k (Signalled tk' k' # es) = (if tk' = tk \<and> k' = k then 1 else 0) + signalled tk k es"
| "signalled tk k (Waited tk' k' t # es) = signalled tk k es"

fun waited :: "taskid \<Rightarrow> int \<Rightarrow> sem_event list \<Rightarrow> tid list" where
  "waited tk k [] = []"
| "waited tk k (Signalled tk' k' # es) = waited tk k es"
| "waited tk k (Waited tk' k' t # es) = (if tk' = tk \<and> k' = k then t # waited tk k es else waited tk k es)"

lemma signalled_append [simp]: "signalled tk k (es @ fs) = signalled tk k es + signalled tk k fs"
  by (induction es rule: signalled.induct) auto

lemma waited_append [simp]: "waited tk k (es @ fs) = waited tk k es @ waited tk k fs"
  by (induction es rule: signalled.induct) auto

text \<open>\<open>SEMAPHORE_signal_n\<close> is a run of signals.\<close>

lemma signals_run: "signals n k t s = Inr s' \<Longrightarrow> sem_run s0 es s \<Longrightarrow> \<exists>fs. sem_run s0 fs s' \<and> length fs = length es + n"
proof (induction n arbitrary: s es)
  case (Suc n)
  then obtain s1 where 1: "SEMAPHORE_signal k t s = Inr s1" "signals n k t s1 = Inr s'" by (auto simp: bindE_eq_Inr)
  from Suc.IH[OF 1(2) sem_run.signal[OF Suc.prems(2) 1(1)]] show ?case by auto
qed auto

text \<open>
  Property C29. Semaphores count and are fair: after any run from \<open>SEMAPHORE_Init\<close> the counter of a semaphore is the number of
  signals minus the number of waits, and the threads that still wait are those whose wait came after as many waits as there were
  signals: the first signal releases the first wait, the second the second, and so on.
\<close>

theorem signals_release_waits_in_order:
  assumes "sem_run (SEMAPHORE_Init s) es s'" "0 \<le> tk" "tk < tasks_count s" "1 \<le> k" "k \<le> MAX_SEMAPHORES"
  shows "semaphores s' tk k = Some \<lparr>counter = int (signalled tk k es) - int (length (waited tk k es)),
    sem_threads = drop (signalled tk k es) (waited tk k es)\<rparr>"
  using assms(1)
proof (induction rule: sem_run.induct)
  case begins
  then show ?case using assms(2-5) by (simp add: SEMAPHORE_Init_def)
next
  case (signal es u k' t u')
  from signal.hyps(2) show ?case
    by (rule SEMAPHORE_signal_cases) (use signal.IH in \<open>auto simp: tl_drop drop_Suc\<close>)
next
  case (waits es u k' t u')
  from waits.hyps(2) show ?case
    by (rule SEMAPHORE_wait_cases) (use waits.IH in auto)
next
  case (others es u u')
  then show ?case by simp
qed

section \<open>Startups of ports\<close>

lemma outer_ports:
  fixes s s' :: "'z port_sim_scheme"
  assumes "outer s s'"
  shows "ports s' = ports s" "port_of s' = port_of s" "to_module s' = to_module s"
  using assms unfolding outer_def by (cases s; cases s'; simp)+

lemma actions_set_actions: "actions (execs (set_actions t as s) t) = as"
  by (simp add: set_actions_def Let_def upd_exec_def upd_thread_def split: list.split action.split)

text \<open>
  A send on a port that has a startup to pay is lost: the module pushes the startup and the send before the operation,
  but the scheduler then steps to the action after it. No thread is put into the port and the thread goes on with what follows.
\<close>

theorem startup_swallows_port_send:
  assumes "actions (execs s t) = AC_PORT_SEND md i z # as" "locate_port i s = Some (p, x)"
    "port_startup (get_node_of_thread t s) (port_recv x) s \<noteq> 0" "\<not> startup_done (execs s t)"
    "op_round (port_ops M) t s = retR (b, s')"
  shows "actions (execs s' t) = as \<and> ports s' = ports s \<and> port_of s' = port_of s \<and> to_module s' = to_module s"
proof -
  have m: "more_actions t s = (True, s)" using assms(1) by (simp add: more_actions_def Let_def)
  obtain s1 where s1: "port_pays (AC_PORT_SEND md i z) (port_startup (get_node_of_thread t s) (port_recv x) s) t s = Inr s1"
      "s' = set_actions t as s1"
    using assms(5) unfolding op_round_def m Let_def
    by (auto simp: assms(1-4) port_ops_def PORT_send_def stop_with_def bindR_eq_retR bindE_eq_Inr Let_def)
  have "outer s (upd_exec t (\<lambda>x. x\<lparr>doing_startup := True\<rparr>) (set_actions t (AC_PORT_SEND md i z # actions (execs s t)) s))" by simp
  then have "outer s s1" using outer_ready_return[OF s1(1)[unfolded port_pays_def]] by (rule outer_trans)
  then have "outer s s'" by (simp add: s1(2))
  from outer_ports[OF this] show ?thesis using actions_set_actions[of t as s1] s1(2) by simp
qed

section \<open>An example\<close>

text \<open>The port 5, with a startup of 3 on every node.\<close>

definition ex_port :: "nat \<Rightarrow> action list \<Rightarrow> port_sim" where
  "ex_port n as = os_sim.extend (ex_os ex_win (\<lambda>_. ex_rma 0 0 0 [])\<lparr>execs := (\<lambda>t. (ex_sim_exec t)\<lparr>actions := as\<rparr>)\<rparr>)
     \<lparr>semaphores = (\<lambda>_ _. None), ports = [0 \<mapsto> \<lparr>portid = 5, port_thread = 0, port_send = [], port_recv = [], sending = 0\<rparr>],
      Port_queue = [0], next_port = 1, size_port = (\<lambda>_. 0), to_module = (\<lambda>_. None), port_of = (\<lambda>_. None),
      copy_segment_size = (\<lambda>_. 0), local_port_startup = (\<lambda>_. 3), remote_port_startup = (\<lambda>_. 3)\<rparr>"

lemmas ex_port_defs = ex_port_def os_sim.defs ex_os_defs

theorem startup_swallows_port_send_witness:
  "\<exists>b s'. op_round (port_ops ex_ops) 0 (ex_port 1 [AC_PORT_SEND M_FS 5 8, AC_WORK 7]) = retR (b, s') \<and>
     actions (execs s' 0) = [AC_WORK 7] \<and> ports s' = [0 \<mapsto> \<lparr>portid = 5, port_thread = 0, port_send = [], port_recv = [], sending = 0\<rparr>]"
proof -
  define s where "s = ex_port 1 [AC_PORT_SEND M_FS 5 8, AC_WORK 7]"
  have "case op_round (port_ops ex_ops) 0 s of Some (Inr _) \<Rightarrow> True | _ \<Rightarrow> False"
    by (simp add: op_round_def more_actions_def s_def ex_port_defs stop_with_def port_ops_def PORT_send_def locate_port_def
      port_startup_def port_pays_def SCHEDULER_thread_to_ready_return_def bindR_def retR_def eval_msg eval_go)
  then obtain b s' where r: "op_round (port_ops ex_ops) 0 s = retR (b, s')" unfolding run_returns_iff by auto
  from startup_swallows_port_send[OF _ _ _ _ r] have "actions (execs s' 0) = [AC_WORK 7] \<and> ports s' = ports s"
    by (simp add: s_def ex_port_defs locate_port_def port_startup_def get_node_of_thread_def)
  with r show ?thesis unfolding s_def by (auto simp: ex_port_defs)
qed

theorem signals_release_waits_in_order_witness:
  "\<exists>s'. sem_run (SEMAPHORE_Init (ex_port 1 [AC_WORK 7])) [Waited 0 3 0] s' \<and> semaphores s' 0 3 = Some \<lparr>counter = - 1, sem_threads = [0]\<rparr>"
proof -
  define s where "s = ex_port 1 [AC_WORK 7]"
  have "case SEMAPHORE_wait 3 0 (SEMAPHORE_Init s) of Inr _ \<Rightarrow> True | _ \<Rightarrow> False"
    by (simp add: SEMAPHORE_wait_def SEMAPHORE_Init_def MAX_SEMAPHORES_def s_def ex_port_defs)
  then obtain s' where r: "SEMAPHORE_wait 3 0 (SEMAPHORE_Init s) = Inr s'" by (auto split: sum.splits)
  have t: "task_of (threads (SEMAPHORE_Init s) 0) = 0" "0 < tasks_count s" by (simp_all add: SEMAPHORE_Init_def s_def ex_port_defs)
  have "sem_run (SEMAPHORE_Init s) ([] @ [Waited (task_of (threads (SEMAPHORE_Init s) 0)) 3 0]) s'"
    by (rule sem_run.waits[OF sem_run.begins r])
  then have run: "sem_run (SEMAPHORE_Init s) [Waited 0 3 0] s'" by (simp add: t)
  from signals_release_waits_in_order[OF run, of 0 3] t(2) run show ?thesis
    unfolding s_def by (auto simp: MAX_SEMAPHORES_def)
qed

end
