(* ===== verification/FileSystem.thy ===== *)
theory FileSystem
  imports Ports
begin

text \<open>
  The file system (\<^verbatim>\<open>model/fs.c\<close>): accesses with and without blocking, alone and collective, over the disks of a node.
  An operation leaves a copy of its thread that goes through barrier, disk and scatter; timers and returning copies come back
  to \<open>FS_general\<close>. The collective operations are called through the argument \<open>glop\<close>, which is \<open>GLOBAL_operation\<close> at the end.
  \<open>fresh_synch\<close> is what the memory of a new action holds in the field \<open>synch_type\<close>, which \<open>create_barrier\<close> and
  \<open>create_scatter\<close> do not write; fields read after \<open>READ_free_action\<close> have their old values. In C a copy shares the account of
  its thread; here it begins with the same numbers.
\<close>

section \<open>State\<close>

definition MPI_IO_Metadata :: int where "MPI_IO_Metadata = 0"
definition MPI_IO_Block_NonCollective :: int where "MPI_IO_Block_NonCollective = 1"
definition MPI_IO_Block_Collective :: int where "MPI_IO_Block_Collective = 2"
definition MPI_IO_NonBlock_NonCollective_Begin :: int where "MPI_IO_NonBlock_NonCollective_Begin = 3"
definition MPI_IO_NonBlock_NonCollective_End :: int where "MPI_IO_NonBlock_NonCollective_End = 4"
definition MPI_IO_NonBlock_Collective_Begin :: int where "MPI_IO_NonBlock_Collective_Begin = 5"
definition MPI_IO_NonBlock_Collective_End :: int where "MPI_IO_NonBlock_Collective_End = 6"
definition IO_Metadata :: int where "IO_Metadata = 100"
definition IO_Block_NonCollective :: int where "IO_Block_NonCollective = 101"
definition IO_Block_Collective :: int where "IO_Block_Collective = 102"
definition IO_NonBlock_NonCollective :: int where "IO_NonBlock_NonCollective = 103"
definition IO_NonBlock_Collective :: int where "IO_NonBlock_Collective = 104"
definition FS_OPERATION :: int where "FS_OPERATION = 1"

datatype io_stage = IN_BARRIER | IN_IO | IN_SCATTER

record t_fh_commid =
  fh_communicator :: int
  fh_threads :: "tid list"
  fh_copy :: "tid list"
  fh_stage :: "io_stage option"
  fh_counter :: int

record t_file_system_parameters =
  disk_latency :: real
  disk_bandwidth :: real
  block_size :: real
  concurrent_requests :: int
  hit_ratio :: real

record fs_sim = port_sim +
  fs_par :: t_file_system_parameters
  IO_disks :: "nodeid \<Rightarrow> nat"
  IO_disks_threads :: "nodeid \<Rightarrow> tid list"
  IO_blocking_point :: "tid \<Rightarrow> int"
  MPI_IO_request_thread :: "(tid \<times> int) list"
  MPI_IO_fh_to_commid :: "int \<Rightarrow> t_fh_commid option"
  fresh_synch :: int
  randomines :: "nat \<Rightarrow> real"
  drawn :: nat

definition FS_Parameters :: "real \<Rightarrow> real \<Rightarrow> real \<Rightarrow> int \<Rightarrow> real \<Rightarrow> 'z fs_sim_scheme \<Rightarrow> 'z fs_sim_scheme" where
  "FS_Parameters lat bw block conc hit s = s\<lparr>fs_par := \<lparr>disk_latency = lat, disk_bandwidth = bw, block_size = block,
     concurrent_requests = conc, hit_ratio = hit\<rparr>\<rparr>"

text \<open>A token for each request a node may have on its disks.\<close>

definition FS_Init :: "nodeid list \<Rightarrow> 'z fs_sim_scheme \<Rightarrow> 'z fs_sim_scheme" where
  "FS_Init nds s = s\<lparr>IO_disks := \<lambda>nd. if nd \<in> set nds then nat (concurrent_requests (fs_par s)) else IO_disks s nd\<rparr>"

definition MAX_IO_OPERATIONS :: int where "MAX_IO_OPERATIONS = 32"

definition Operation_Name :: "string list" where
  "Operation_Name = [''MPI_File_open'', ''MPI_File_preallocate'', ''MPI_File_read'', ''MPI_File_read_at'', ''MPI_File_read_shared'',
     ''MPI_File_write'', ''MPI_File_write_at'', ''MPI_File_write_shared'', ''MPI_File_read_all'', ''MPI_File_read_at_all'',
     ''MPI_File_read_ordered'', ''MPI_File_write_all'', ''MPI_File_write_at_all'', ''MPI_File_write_ordered'', ''MPI_File_iread'',
     ''MPI_File_iread_at'', ''MPI_File_iread_shared'', ''MPI_File_iwrite'', ''MPI_File_iwrite_at'', ''MPI_File_iwrite_shared'',
     ''MPI_Wait'', ''MPI_File_read_all_begin'', ''MPI_File_read_at_all_begin'', ''MPI_File_read_ordered_begin'',
     ''MPI_File_write_all_begin'', ''MPI_File_write_at_all_begin'', ''MPI_File_write_ordered_begin'', ''MPI_File_read_all_end'',
     ''MPI_File_read_at_all_end'', ''MPI_File_read_ordered_end'', ''MPI_File_write_all_end'', ''MPI_File_write_at_all_end'',
     ''MPI_File_write_ordered_end'']"

definition FS_new_io_operation :: "int \<Rightarrow> string \<Rightarrow> unit res" where
  "FS_new_io_operation i name =
     (if 0 \<le> i \<and> i \<le> MAX_IO_OPERATIONS then
        (if Operation_Name ! nat i \<noteq> name then Inl (Die ''Incorrect IO operation name'') else Inr ())
      else Inl (Die ''Invalid operation identicator''))"

section \<open>Files\<close>

definition io_of :: "tid \<Rightarrow> 'z world_scheme \<Rightarrow> t_mpi_io res" where
  "io_of t s = (case actions (execs s t) of [] \<Rightarrow> Inl NullDeref | AC_MPI_IO m # _ \<Rightarrow> Inr m | _ # _ \<Rightarrow> Inl Uninit)"

definition get_fh_commid :: "int \<Rightarrow> 'z fs_sim_scheme \<Rightarrow> t_fh_commid res" where
  "get_fh_commid fh s = (case MPI_IO_fh_to_commid s fh of
     None \<Rightarrow> Inl (Panic ''Unable to locate communicator for given fh'') | Some f \<Rightarrow> Inr f)"

definition upd_fh :: "int \<Rightarrow> (t_fh_commid \<Rightarrow> t_fh_commid) \<Rightarrow> 'z fs_sim_scheme \<Rightarrow> 'z fs_sim_scheme" where
  "upd_fh fh f s = s\<lparr>MPI_IO_fh_to_commid := (MPI_IO_fh_to_commid s)(fh := map_option f (MPI_IO_fh_to_commid s fh))\<rparr>"

definition glop_named :: "string \<Rightarrow> int \<Rightarrow> int \<Rightarrow> 'z fs_sim_scheme \<Rightarrow> t_global_op res" where
  "glop_named name comm z s =
     (let i = get_global_op_id_by_name name s in
      if i = - 1 then Inl (Panic ''Unable to locate operation in Global Operation definition'')
      else Inr \<lparr>glop_id = i, comm_id = comm, root_rank = 0, root_thid = 1, bytes_send = z, bytes_recvd = z, synch_type = fresh_synch s\<rparr>)"

definition create_barrier :: "tid \<Rightarrow> 'z fs_sim_scheme \<Rightarrow> t_global_op res" where
  "create_barrier t s = bindE (io_of t s) (\<lambda>m. glop_named ''MPI_Barrier'' (io_commid m) 4 s)"

definition create_scatter :: "t_mpi_io \<Rightarrow> 'z fs_sim_scheme \<Rightarrow> t_global_op res" where
  "create_scatter m s = bindE (get_fh_commid (io_fh m) s) (\<lambda>f. glop_named ''MPI_Scatter'' (fh_communicator f) (io_size m) s)"

definition create_fh_to_communicator :: "tid \<Rightarrow> 'z fs_sim_scheme \<Rightarrow> 'z fs_sim_scheme res" where
  "create_fh_to_communicator t s =
     bindE (io_of t s) (\<lambda>m.
     if communicators s (io_commid m) = None then Inl (Panic ''MPI IO communication trough an invalid communicator'')
     else Inr (case MPI_IO_fh_to_commid s (io_fh m) of
         None \<Rightarrow> s\<lparr>MPI_IO_fh_to_commid := (MPI_IO_fh_to_commid s)(io_fh m \<mapsto>
              \<lparr>fh_communicator = io_commid m, fh_threads = [], fh_copy = [], fh_stage = None, fh_counter = 0\<rparr>)\<rparr>
       | Some _ \<Rightarrow> upd_fh (io_fh m) (\<lambda>f. f\<lparr>fh_communicator := io_commid m\<rparr>) s))"

section \<open>The time of an access\<close>

definition draw :: "'z fs_sim_scheme \<Rightarrow> real \<times> 'z fs_sim_scheme" where
  "draw s = (randomines s (drawn s), s\<lparr>drawn := drawn s + 1\<rparr>)"

definition trunc :: "real \<Rightarrow> int" where
  "trunc x = (if x \<ge> 0 then \<lfloor>x\<rfloor> else \<lceil>x\<rceil>)"

definition num_blocks :: "real \<Rightarrow> int \<Rightarrow> int" where
  "num_blocks block z =
     (let n = trunc (real_of_int z / (block * 1024)) in if real_of_int n * block * 1024 \<noteq> real_of_int z then n + 1 else n)"

text \<open>The latency is in seconds; what is added for the blocks is not scaled to nanoseconds.\<close>

definition disk_time :: "t_file_system_parameters \<Rightarrow> int \<Rightarrow> timer" where
  "disk_time p z = disk_latency p * 1000000000 +
     (if disk_bandwidth p \<noteq> 0 then block_size p / (1024 * disk_bandwidth p) * real_of_int (num_blocks (block_size p) z) else 0)"

text \<open>The draw decides between disk and cache; the size is asked for only when it counts.\<close>

definition access_time :: "int res \<Rightarrow> 'z fs_sim_scheme \<Rightarrow> (timer \<times> 'z fs_sim_scheme) res" where
  "access_time want s =
     (let (r, s1) = draw s; p = fs_par s in
      if r > hit_ratio p then Inr (0, s1)
      else if disk_bandwidth p = 0 then Inr (disk_time p 0, s1)
      else bindE want (\<lambda>z. if block_size p = 0 then Inl NotANumber else Inr (disk_time p z, s1)))"

definition compute_IO_time :: "tid \<Rightarrow> 'z fs_sim_scheme \<Rightarrow> (timer \<times> 'z fs_sim_scheme) res" where
  "compute_IO_time t s = access_time (bindE (io_of t s) (\<lambda>m. Inr (io_size m))) s"

fun requested :: "tid list \<Rightarrow> 'z fs_sim_scheme \<Rightarrow> int res" where
  "requested [] s = Inr 0"
| "requested (t # ts) s = bindE (io_of t s) (\<lambda>m. bindE (requested ts s) (\<lambda>z. Inr (io_size m + z)))"

definition compute_IO_collective_time :: "tid list \<Rightarrow> 'z fs_sim_scheme \<Rightarrow> (timer \<times> 'z fs_sim_scheme) res" where
  "compute_IO_collective_time ts s = access_time (requested ts s) s"

section \<open>Copies of threads\<close>

text \<open>The copy has the operations of the thread, and all that it keeps elsewhere.\<close>

definition duplicate_thread_fs :: "tid \<Rightarrow> 'z fs_sim_scheme \<Rightarrow> (tid \<times> 'z fs_sim_scheme) res" where
  "duplicate_thread_fs t s =
     (let c = next_tid s in
      bindE (init_scheduler_parameters c (clone_thread t c (s\<lparr>next_tid := c + 1\<rparr>))) (\<lambda>s1.
      bindE (copy_parameters t c s1) (\<lambda>s2.
      Inr (c, (upd_exec c (\<lambda>x. x\<lparr>account := account (execs s t)\<rparr>) (set_actions c (actions (execs s t)) s2))
        \<lparr>colls := (colls s2)(c := colls s2 t), size_port := (size_port s2)(c := size_port s2 t),
         to_module := (to_module s2)(c := to_module s2 t), port_of := (port_of s2)(c := port_of s2 t),
         copy_segment_size := (copy_segment_size s2)(c := copy_segment_size s2 t),
         IO_blocking_point := (IO_blocking_point s2)(c := IO_blocking_point s2 t)\<rparr>))))"

definition delete_duplicate_thread_fs :: "tid \<Rightarrow> 'z world_scheme \<Rightarrow> 'z world_scheme" where
  "delete_duplicate_thread_fs c s = upd_exec c (\<lambda>x. x\<lparr>freed := True\<rparr>) (SCHEDULER_free_parameters c s)"

definition Next_Action_to_thread :: "tid \<Rightarrow> 'z world_scheme \<Rightarrow> 'z world_scheme res" where
  "Next_Action_to_thread t s = bindE (next_action t s) (ready_if_more False t)"

definition twin_of :: "tid \<Rightarrow> 'z world_scheme \<Rightarrow> tid res" where
  "twin_of c s = (case twin_thread (execs s c) of None \<Rightarrow> Inl NullDeref | Some t \<Rightarrow> Inr t)"

section \<open>Disks\<close>

definition fs_timer :: "timer \<Rightarrow> tid \<Rightarrow> int \<Rightarrow> 'z sim_scheme \<Rightarrow> 'z sim_scheme res" where
  "fs_timer ti c info s = bindE (EVENT_timer (current_time s + ti) False M_FS (Some c) info s) (\<lambda>(r, s1).
     Inr (s1\<lparr>thread_event := (thread_event s1)(c := r)\<rparr>))"

text \<open>A token of the node, if requests are limited; otherwise the copy waits and remembers where.\<close>

definition take_disk :: "nodeid \<Rightarrow> tid \<Rightarrow> int \<Rightarrow> 'z fs_sim_scheme \<Rightarrow> bool \<times> 'z fs_sim_scheme" where
  "take_disk nd c point s =
     (if concurrent_requests (fs_par s) = 0 then (True, s)
      else if IO_disks s nd = 0
      then (False, set_last_paraver c (s\<lparr>IO_disks_threads := (IO_disks_threads s)(nd := IO_disks_threads s nd @ [c]),
             IO_blocking_point := (IO_blocking_point s)(c := point)\<rparr>))
      else (True, s\<lparr>IO_disks := (IO_disks s)(nd := IO_disks s nd - 1)\<rparr>))"

definition access_alone :: "tid \<Rightarrow> tid \<Rightarrow> int \<Rightarrow> 'z fs_sim_scheme \<Rightarrow> 'z fs_sim_scheme res" where
  "access_alone who c point s =
     bindE (compute_IO_time who s) (\<lambda>(ti, s1).
     bindE (fs_timer ti c point s1) (\<lambda>s2.
     Inr (upd_thread c (\<lambda>th. th\<lparr>last_paraver := (if point = IO_NonBlock_NonCollective then current_time s2 + ti + 1 else current_time s2)\<rparr>) s2)))"

definition access_together :: "int \<Rightarrow> tid \<Rightarrow> int \<Rightarrow> 'z fs_sim_scheme \<Rightarrow> 'z fs_sim_scheme res" where
  "access_together fh c point s =
     bindE (get_fh_commid fh s) (\<lambda>f.
     bindE (compute_IO_collective_time (fh_threads f) s) (\<lambda>(ti, s1).
     bindE (fs_timer ti c point s1) (\<lambda>s2.
     Inr (upd_thread c (\<lambda>th. th\<lparr>last_paraver := current_time s2 + ti\<rparr>) s2))))"

text \<open>The disk of the node goes to the first that waits for it.\<close>

definition free_disk_token :: "nodeid \<Rightarrow> 'z fs_sim_scheme \<Rightarrow> 'z fs_sim_scheme res" where
  "free_disk_token nd s =
     (if concurrent_requests (fs_par s) = 0 then Inr s
      else case IO_disks_threads s nd of
        [] \<Rightarrow> Inr (s\<lparr>IO_disks := (IO_disks s)(nd := IO_disks s nd + 1)\<rparr>)
      | c # cs \<Rightarrow>
          let s1 = s\<lparr>IO_disks_threads := (IO_disks_threads s)(nd := cs)\<rparr>; point = IO_blocking_point s c in
          if point = IO_Block_NonCollective then
            bindE (twin_of c s1) (\<lambda>t. access_alone t c point (set_last_paraver t s1))
          else if point = IO_NonBlock_NonCollective then access_alone c c point (set_last_paraver c s1)
          else if point = IO_NonBlock_Collective then
            bindE (io_of c s1) (\<lambda>m. access_together (io_fh m) c point (set_last_paraver c s1))
          else if point = IO_Block_Collective then
            bindE (twin_of c s1) (\<lambda>t. bindE (io_of t s1) (\<lambda>m. access_together (io_fh m) c point (set_last_paraver c s1)))
          else Inl (Panic ''Unknown blocking IO point''))"

text \<open>All copies have met in the barrier and go to the disks; writes take no time.\<close>

fun go_to_disks :: "bool \<Rightarrow> int \<Rightarrow> int \<Rightarrow> tid list \<Rightarrow> 'z fs_sim_scheme \<Rightarrow> 'z fs_sim_scheme res" where
  "go_to_disks reads fh point [] s = Inr s"
| "go_to_disks reads fh point (c # cs) s =
     (if reads then
        (case take_disk (get_node_of_thread c s) c point s of (ok, s1) \<Rightarrow>
           if ok then bindE (access_together fh c point s1) (go_to_disks reads fh point cs) else go_to_disks reads fh point cs s1)
      else bindE (fs_timer 0 c point s) (go_to_disks reads fh point cs))"

section \<open>Requests without blocking\<close>

definition thread_already_waiting :: "tid \<Rightarrow> int \<Rightarrow> 'z fs_sim_scheme \<Rightarrow> bool" where
  "thread_already_waiting t r s \<longleftrightarrow> (t, r) \<in> set (MPI_IO_request_thread s)"

definition forget_request :: "tid \<Rightarrow> int \<Rightarrow> 'z fs_sim_scheme \<Rightarrow> 'z fs_sim_scheme" where
  "forget_request t r s = s\<lparr>MPI_IO_request_thread := remove1 (t, r) (MPI_IO_request_thread s)\<rparr>"

definition note_request :: "tid \<Rightarrow> int \<Rightarrow> 'z fs_sim_scheme \<Rightarrow> 'z fs_sim_scheme" where
  "note_request t r s = s\<lparr>MPI_IO_request_thread := MPI_IO_request_thread s @ [(t, r)]\<rparr>"

text \<open>Who comes second, the wait or the end of the access, finds the request of the other one.\<close>

definition io_end :: "t_mpi_io \<Rightarrow> tid \<Rightarrow> 'z fs_sim_scheme \<Rightarrow> 'z fs_sim_scheme res" where
  "io_end m t s =
     (if thread_already_waiting t (io_request m) s
      then Next_Action_to_thread t (set_last_paraver t (forget_request t (io_request m) s))
      else Inr (set_last_paraver t (note_request t (io_request m) s)))"

definition access_over :: "t_mpi_io \<Rightarrow> tid \<Rightarrow> tid \<Rightarrow> 'z fs_sim_scheme \<Rightarrow> 'z fs_sim_scheme res" where
  "access_over m c t s =
     (if thread_already_waiting t (io_request m) s
      then Next_Action_to_thread t (delete_duplicate_thread_fs c (set_last_paraver t (forget_request t (io_request m) s)))
      else Inr (note_request t (io_request m) (delete_duplicate_thread_fs c s)))"

section \<open>A new operation\<close>

type_synonym 's glop = "t_global_op \<Rightarrow> tid \<Rightarrow> 's \<Rightarrow> 's run"

definition io_metadata :: "'z fs_sim_scheme glop \<Rightarrow> tid \<Rightarrow> 'z fs_sim_scheme \<Rightarrow> 'z fs_sim_scheme run" where
  "io_metadata glop t s =
     bindR (Some (create_fh_to_communicator t s)) (\<lambda>s1.
     bindR (Some (duplicate_thread_fs t s1)) (\<lambda>(c, s2).
     bindR (Some (create_barrier t s2)) (\<lambda>g.
     glop g c (set_actions c [AC_GLOBAL_OP g, AC_FS IO_Metadata] s2))))"

definition io_block_noncollective :: "t_mpi_io \<Rightarrow> tid \<Rightarrow> 'z fs_sim_scheme \<Rightarrow> 'z fs_sim_scheme res" where
  "io_block_noncollective m t s =
     (if io_op m \<in> {2, 3, 4} then
        bindE (duplicate_thread_fs t s) (\<lambda>(c, s1).
        case take_disk (get_node_of_thread t s) c IO_Block_NonCollective s1 of (ok, s2) \<Rightarrow>
          if ok then access_alone t c IO_Block_NonCollective s2 else Inr s2)
      else if io_op m \<in> {5, 6, 7} then Next_Action_to_thread t s
      else Inl (Panic ''Non valid operation for Blocking Non Collective''))"

text \<open>The first thread of the next operation on a file starts its count.\<close>

definition join_file :: "tid \<Rightarrow> t_fh_commid \<Rightarrow> t_fh_commid" where
  "join_file t f = f\<lparr>fh_counter := (if fh_threads f = [] then 1 else fh_counter f + 1), fh_threads := fh_threads f @ [t]\<rparr>"

definition io_block_collective :: "'z fs_sim_scheme glop \<Rightarrow> t_mpi_io \<Rightarrow> tid \<Rightarrow> 'z fs_sim_scheme \<Rightarrow> 'z fs_sim_scheme run" where
  "io_block_collective glop m t s =
     (if io_op m \<notin> {8, 9, 10, 11, 12, 13} then failR (Panic ''Non valid operation for Blocking Collective'')
      else
        bindR (Some (duplicate_thread_fs t s)) (\<lambda>(c, s1).
        bindR (Some (create_barrier t s1)) (\<lambda>g0.
        bindR (Some (get_fh_commid (io_fh m) s1)) (\<lambda>f.
        let s2 = upd_fh (io_fh m) (\<lambda>f. join_file t (f\<lparr>fh_stage := Some IN_BARRIER\<rparr>)) s1;
            g = g0\<lparr>comm_id := fh_communicator f\<rparr>
        in glop g c (set_actions c [AC_GLOBAL_OP g, AC_FS IO_Block_Collective] s2)))))"

definition io_nonblock_noncollective_begin :: "t_mpi_io \<Rightarrow> tid \<Rightarrow> 'z fs_sim_scheme \<Rightarrow> 'z fs_sim_scheme res" where
  "io_nonblock_noncollective_begin m t s =
     (if io_op m \<in> {14, 15, 16} then
        bindE (duplicate_thread_fs t s) (\<lambda>(c, s1).
        bindE (Next_Action_to_thread t (set_last_paraver t (set_actions c [AC_MPI_IO m] (set_last_paraver c s1)))) (\<lambda>s2.
        case take_disk (get_node_of_thread t s) c IO_NonBlock_NonCollective s2 of (ok, s3) \<Rightarrow>
          if ok then access_alone c c IO_NonBlock_NonCollective s3 else Inr s3))
      else if io_op m \<in> {17, 18, 19} then Next_Action_to_thread t (set_last_paraver t (note_request t (io_request m) s))
      else Inl (Panic ''Non valid operation for NonBlocking NonCollective begin''))"

text \<open>The case of the writes (24 to 26) runs into the panic of the default.\<close>

definition io_nonblock_collective_begin :: "'z fs_sim_scheme glop \<Rightarrow> t_mpi_io \<Rightarrow> tid \<Rightarrow> 'z fs_sim_scheme \<Rightarrow> 'z fs_sim_scheme run" where
  "io_nonblock_collective_begin glop m t s =
     (if io_op m \<notin> {21, 22, 23} then failR (Panic ''Non valid operation for NonBlocking Collective'')
      else
        bindR (Some (duplicate_thread_fs t s)) (\<lambda>(c, s1).
        let s2 = upd_exec c (\<lambda>x. x\<lparr>threadid := int (length (task_threads s1 (task_of (threads s1 c)))) + 1\<rparr>) s1 in
        bindR (Some (create_barrier t s2)) (\<lambda>g0.
        bindR (Some (get_fh_commid (io_fh m) s2)) (\<lambda>f.
        let g = g0\<lparr>comm_id := fh_communicator f\<rparr>;
            s3 = set_actions c [AC_GLOBAL_OP g, AC_FS IO_NonBlock_Collective, AC_MPI_IO m]
                   (upd_fh (io_fh m) (\<lambda>f. f\<lparr>fh_stage := Some IN_BARRIER\<rparr>) s2)
        in bindR (Some (duplicate_thread_fs t s3)) (\<lambda>(c2, s4).
           bindR (glop g c (upd_fh (io_fh m) (join_file c2) (set_actions c2 [AC_MPI_IO m] s4))) (\<lambda>s5.
           Some (Next_Action_to_thread t (set_last_paraver t s5))))))))"

definition fs_operation :: "'z fs_sim_scheme glop \<Rightarrow> tid \<Rightarrow> 'z fs_sim_scheme \<Rightarrow> 'z fs_sim_scheme run" where
  "fs_operation glop t s =
     bindR (Some (io_of t s)) (\<lambda>m.
     let w = which_io m in
     if w = MPI_IO_Metadata then io_metadata glop t s
     else if w = MPI_IO_Block_NonCollective then Some (io_block_noncollective m t s)
     else if w = MPI_IO_Block_Collective then io_block_collective glop m t s
     else if w = MPI_IO_NonBlock_NonCollective_Begin then Some (io_nonblock_noncollective_begin m t s)
     else if w = MPI_IO_NonBlock_Collective_Begin then io_nonblock_collective_begin glop m t s
     else if w = MPI_IO_NonBlock_NonCollective_End \<or> w = MPI_IO_NonBlock_Collective_End then Some (io_end m t s)
     else failR (Panic ''Invalid operation in FS module''))"

section \<open>The copies come back\<close>

definition scatter_file :: "'z fs_sim_scheme glop \<Rightarrow> t_global_op \<Rightarrow> action list \<Rightarrow> int \<Rightarrow> tid \<Rightarrow> 'z fs_sim_scheme \<Rightarrow> 'z fs_sim_scheme run" where
  "scatter_file glop g as fh c s =
     bindR (glop g c (set_actions c (AC_GLOBAL_OP g # as) s)) (\<lambda>s1.
     retR (upd_fh fh (\<lambda>f. f\<lparr>fh_counter := fh_counter f - 1,
       fh_stage := (if fh_counter f - 1 = 0 then Some IN_SCATTER else fh_stage f)\<rparr>) s1))"

definition block_collective :: "'z fs_sim_scheme glop \<Rightarrow> tid \<Rightarrow> 'z fs_sim_scheme \<Rightarrow> 'z fs_sim_scheme run" where
  "block_collective glop c s =
     bindR (Some (twin_of c s)) (\<lambda>t.
     bindR (Some (io_of t s)) (\<lambda>m.
     bindR (Some (get_fh_commid (io_fh m) s)) (\<lambda>f.
     let fh = io_fh m; reads = (io_op m \<in> {8, 9, 10}) in
     case fh_stage f of
       None \<Rightarrow> failR Uninit
     | Some IN_BARRIER \<Rightarrow>
         let s1 = upd_fh fh (\<lambda>f. f\<lparr>fh_copy := fh_copy f @ [c]\<rparr>) s in
         if length (fh_copy f) + 1 = length (fh_threads f)
         then bindR (Some (go_to_disks reads fh IO_Block_Collective (fh_copy f @ [c]) s1)) (\<lambda>s2.
           retR (upd_fh fh (\<lambda>f. f\<lparr>fh_stage := Some IN_IO\<rparr>) s2))
         else retR s1
     | Some IN_IO \<Rightarrow>
         bindR (Some (q_extract c (fh_copy f))) (\<lambda>q.
         bindR (Some (create_scatter m s)) (\<lambda>g.
         bindR (scatter_file glop g [AC_FS IO_Block_Collective] fh c (upd_fh fh (\<lambda>f. f\<lparr>fh_copy := q\<rparr>) s)) (\<lambda>s1.
         if reads then Some (free_disk_token (get_node_of_thread c s) s1) else retR s1)))
     | Some IN_SCATTER \<Rightarrow>
         bindR (Some (q_extract t (fh_threads f))) (\<lambda>q.
         if io_op m \<notin> {8, 9, 10, 11, 12, 13} then failR (Panic ''Non valid operation for Blocking Collective'')
         else Some (Next_Action_to_thread t (set_last_paraver t (delete_duplicate_thread_fs c
                (upd_fh fh (\<lambda>f. f\<lparr>fh_threads := q\<rparr>) s))))))))"

text \<open>The operation of the copy is behind the return to this module, if that is still there. Writes fall through to the scatter.\<close>

definition nonblock_collective :: "'z fs_sim_scheme glop \<Rightarrow> tid \<Rightarrow> 'z fs_sim_scheme \<Rightarrow> 'z fs_sim_scheme run" where
  "nonblock_collective glop c s0 =
     bindR (Some (twin_of c s0)) (\<lambda>t.
     let s = (case actions (execs s0 c) of AC_FS _ # as \<Rightarrow> set_actions c as s0 | _ \<Rightarrow> s0) in
     bindR (Some (io_of c s)) (\<lambda>m.
     bindR (Some (get_fh_commid (io_fh m) s)) (\<lambda>f.
     let fh = io_fh m; reads = (io_op m \<in> {21, 22, 23});
         scatter = (\<lambda>q. bindR (Some (q_extract c q)) (\<lambda>q1.
           bindR (Some (create_scatter m s)) (\<lambda>g0.
           let g = g0\<lparr>comm_id := fh_communicator f\<rparr> in
           bindR (scatter_file glop g (AC_FS IO_NonBlock_Collective # actions (execs s c)) fh c
                    (upd_fh fh (\<lambda>f. f\<lparr>fh_copy := q1\<rparr>) s)) (\<lambda>s1.
           if reads then Some (free_disk_token (get_node_of_thread c s) s1) else retR s1))))
     in case fh_stage f of
       None \<Rightarrow> failR Uninit
     | Some IN_BARRIER \<Rightarrow>
         if \<not> reads then scatter (fh_copy f @ [c])
         else
           let s1 = upd_fh fh (\<lambda>f. f\<lparr>fh_copy := fh_copy f @ [c]\<rparr>) s in
           if length (fh_copy f) + 1 = length (fh_threads f)
           then bindR (Some (go_to_disks True fh IO_NonBlock_Collective (fh_copy f @ [c]) s1)) (\<lambda>s2.
             retR (upd_fh fh (\<lambda>f. f\<lparr>fh_stage := Some IN_IO\<rparr>) s2))
           else retR s1
     | Some IN_IO \<Rightarrow> scatter (fh_copy f)
     | Some IN_SCATTER \<Rightarrow>
         if io_op m \<notin> {21, 22, 23, 24, 25, 26} then failR (Panic ''Non valid operation for NonBlocking Collective'')
         else Some (access_over m c t (upd_fh fh (\<lambda>f. f\<lparr>fh_threads := tl (fh_threads f)\<rparr>) s)))))"

definition metadata_over :: "tid \<Rightarrow> 'z fs_sim_scheme \<Rightarrow> 'z fs_sim_scheme res" where
  "metadata_over c s = bindE (twin_of c s) (\<lambda>t. Next_Action_to_thread t (set_last_paraver t (delete_duplicate_thread_fs c s)))"

definition block_noncollective :: "tid \<Rightarrow> 'z fs_sim_scheme \<Rightarrow> 'z fs_sim_scheme res" where
  "block_noncollective c s =
     bindE (twin_of c s) (\<lambda>t.
     bindE (Next_Action_to_thread t (delete_duplicate_thread_fs c (set_last_paraver t s))) (free_disk_token (get_node_of_thread c s)))"

definition nonblock_noncollective :: "tid \<Rightarrow> 'z fs_sim_scheme \<Rightarrow> 'z fs_sim_scheme res" where
  "nonblock_noncollective c s =
     bindE (twin_of c s) (\<lambda>t. bindE (io_of c s) (\<lambda>m. bindE (access_over m c t s) (free_disk_token (get_node_of_thread c s))))"

definition FS_general :: "'z fs_sim_scheme glop \<Rightarrow> int \<Rightarrow> tid \<Rightarrow> 'z fs_sim_scheme \<Rightarrow> 'z fs_sim_scheme run" where
  "FS_general glop v t s =
     (if v = FS_OPERATION then fs_operation glop t s
      else if v = IO_Block_Collective then block_collective glop t s
      else if v = IO_Metadata then Some (metadata_over t s)
      else if v = IO_Block_NonCollective then Some (block_noncollective t s)
      else if v = IO_NonBlock_NonCollective then Some (nonblock_noncollective t s)
      else if v = IO_NonBlock_Collective then nonblock_collective glop t s
      else if v = FS_PORT_SEND_END \<or> v = FS_PORT_RECV_END then retR s
      else failR (Panic ''Unexpected operation in FS module''))"

section \<open>The modules together\<close>

definition fs_ops :: "(tid \<Rightarrow> 'z fs_sim_scheme \<Rightarrow> 'z fs_sim_scheme run) \<Rightarrow> 'z fs_sim_scheme ops \<Rightarrow> 'z fs_sim_scheme ops" where
  "fs_ops timer_out M = (port_ops M)\<lparr>do_fs := FS_general (GLOBAL_operation timer_out),
     do_mpi_io := FS_general (GLOBAL_operation timer_out) FS_OPERATION\<rparr>"

definition port_module :: "(tid \<Rightarrow> 'z fs_sim_scheme \<Rightarrow> 'z fs_sim_scheme run) \<Rightarrow> (tid \<Rightarrow> taskid option) \<Rightarrow> 'z fs_sim_scheme others
    \<Rightarrow> tid \<Rightarrow> 'z fs_sim_scheme \<Rightarrow> 'z fs_sim_scheme run" where
  "port_module timer_out w g = PORT_general (send_handlers w (port_others g)) (FS_general (GLOBAL_operation timer_out))"

definition memory_module :: "(tid \<Rightarrow> 'z fs_sim_scheme \<Rightarrow> 'z fs_sim_scheme run) \<Rightarrow> (tid \<Rightarrow> taskid option) \<Rightarrow> 'z fs_sim_scheme others
    \<Rightarrow> tid \<Rightarrow> 'z fs_sim_scheme \<Rightarrow> 'z fs_sim_scheme run" where
  "memory_module timer_out w g = MEMORY_general (send_handlers w (port_others g)) (FS_general (GLOBAL_operation timer_out))"

end
