(* ===== verification/Randoms.thy ===== *)
theory Randoms
  imports Prelude "HOL-Library.Word"
begin

text \<open>
  The random numbers (\<^verbatim>\<open>utils/aleatorias.c\<close>, \<^verbatim>\<open>utils/random.c\<close>): two shift register generators of 31 and 29 bits on
  32-bit words, and the distributions over them. \<open>float\<close> is \<open>real\<close>; a logarithm of zero is the fault \<open>NotANumber\<close>.
\<close>

unbundle bit_operations_syntax

section \<open>The generator\<close>

record seeds =
  I1 :: "32 word"
  I2 :: "32 word"

definition Mask1 :: "32 word" where "Mask1 = 2147483647"
definition Mask2 :: "32 word" where "Mask2 = 536870911"
definition Norm :: real where "Norm = 4656612873 / 10000000000000000000"

definition srandomine :: "32 word \<Rightarrow> 32 word \<Rightarrow> seeds" where
  "srandomine seed1 seed2 = \<lparr>I1 = seed1 AND Mask1, I2 = seed2 AND Mask2\<rparr>"

text \<open>One register: \<open>q\<close>, \<open>s\<close> and \<open>r\<close> are the shifts of the feedback.\<close>

definition shift_register :: "nat \<Rightarrow> nat \<Rightarrow> nat \<Rightarrow> 32 word \<Rightarrow> 32 word \<Rightarrow> 32 word" where
  "shift_register q s r m i = (let b = (push_bit q i XOR i) AND m in (push_bit s i XOR drop_bit r b) AND m)"

definition next_seeds :: "seeds \<Rightarrow> seeds" where
  "next_seeds g = \<lparr>I1 = shift_register 13 12 19 Mask1 (I1 g), I2 = shift_register 2 17 12 Mask2 (I2 g)\<rparr>"

definition drawn_word :: "seeds \<Rightarrow> 32 word" where
  "drawn_word g = I1 g XOR push_bit 2 (I2 g)"

definition randomine :: "seeds \<Rightarrow> real \<times> seeds" where
  "randomine g = (let g1 = next_seeds g in (real (unat (drawn_word g1)) * Norm, g1))"

section \<open>Distributions\<close>

text \<open>The jumps at the end of \<open>rnorm\<close> and \<open>erlng\<close>.\<close>

definition clamp :: "real \<Rightarrow> real \<Rightarrow> real \<Rightarrow> real" where
  "clamp lo hi v = (if v - lo < 0 then lo else if v - lo = 0 then v else if v - hi \<le> 0 then v else hi)"

definition rnorm :: "real \<Rightarrow> real \<Rightarrow> real \<Rightarrow> real \<Rightarrow> seeds \<Rightarrow> (real \<times> seeds) res" where
  "rnorm p1 p2 p3 p4 g =
     (let (ra, g1) = randomine g; (rb, g2) = randomine g1 in
      if ra = 0 then Inl NotANumber
      else Inr (clamp p2 p3 (sqrt (- 2 * ln ra) * cos (6283 / 1000 * rb) * p4 + p1), g2))"

fun product_of_draws :: "nat \<Rightarrow> real \<Rightarrow> seeds \<Rightarrow> real \<times> seeds" where
  "product_of_draws 0 r g = (r, g)"
| "product_of_draws (Suc k) r g = (let (x, g1) = randomine g in product_of_draws k (r * x) g1)"

definition erlng :: "real \<Rightarrow> real \<Rightarrow> real \<Rightarrow> real \<Rightarrow> seeds \<Rightarrow> (real \<times> seeds) res" where
  "erlng p1 p2 p3 p4 g =
     (let (r, g1) = product_of_draws (nat \<lfloor>p4\<rfloor>) 1 g in
      if r = 0 then Inl NotANumber else Inr (clamp p2 p3 (- p1 * ln r), g1))"

definition expo :: "real \<Rightarrow> real \<Rightarrow> real \<Rightarrow> seeds \<Rightarrow> (real \<times> seeds) res" where
  "expo mean lo hi g =
     (let (r, g1) = randomine g; v = - mean * ln r; v1 = (if v < lo then lo else v); v2 = (if v1 > hi then hi else v1) in
      if r = 0 then Inl NotANumber else Inr (v2, g1))"

definition unform :: "real \<Rightarrow> real \<Rightarrow> seeds \<Rightarrow> real \<times> seeds" where
  "unform lo hi g = (let (r, g1) = randomine g in (lo + (hi - lo) * r, g1))"

datatype t_rand_type = NO_DISTRIBUTION | NORMAL_DISTRIBUTION real real | UNIFORM_DISTRIBUTION real real

text \<open>An unknown name leaves the distribution as it was.\<close>

definition RANDOM_Init_Distribution :: "string \<Rightarrow> real \<Rightarrow> real \<Rightarrow> t_rand_type \<Rightarrow> bool \<times> t_rand_type" where
  "RANDOM_Init_Distribution name p1 p2 rt =
     (if name = ''NONE'' then (True, NO_DISTRIBUTION)
      else if name = ''NORMAL'' then (True, NORMAL_DISTRIBUTION p1 p2)
      else if name = ''UNIFORM'' then (True, UNIFORM_DISTRIBUTION p1 p2)
      else (False, rt))"

definition INT_MAX :: real where "INT_MAX = 2147483647"

definition GenerateRandom :: "t_rand_type \<Rightarrow> seeds \<Rightarrow> (real \<times> seeds) res" where
  "GenerateRandom rt g = (case rt of
      NORMAL_DISTRIBUTION mean stdev \<Rightarrow> rnorm mean (- INT_MAX) INT_MAX stdev g
    | UNIFORM_DISTRIBUTION lo hi \<Rightarrow> Inr (unform lo hi g)
    | NO_DISTRIBUTION \<Rightarrow> Inr (0, g))"

section \<open>The registers run through cycles\<close>

definition masked :: "seeds \<Rightarrow> bool" where
  "masked g \<longleftrightarrow> I1 g AND Mask1 = I1 g \<and> I2 g AND Mask2 = I2 g"

lemma masks: "Mask1 = mask 31" "Mask2 = mask 29"
  by (simp_all add: Mask1_def Mask2_def mask_numeral)

lemma bit_register:
  assumes "n < k" "k \<le> 32" "s + r = k" "q \<le> r"
  shows "bit (shift_register q s r (mask k) i) n \<longleftrightarrow> (if s \<le> n then bit i (n - s) else bit i (n + r - q) \<noteq> bit i (n + r))"
  using assms
  by (auto simp: shift_register_def Let_def bit_simps not_le less_diff_conv ac_simps)

lemma masked_bit: "x AND mask k = x \<Longrightarrow> bit x n \<Longrightarrow> n < k" for x :: "32 word"
  by (drule arg_cong[of _ _ "\<lambda>w. bit w n"]) (auto simp: bit_simps)

text \<open>The upper bits come back from below; with them the lower ones, each from one that is known.\<close>

lemma register_inj:
  assumes same: "shift_register q s r (mask k) i = shift_register q s r (mask k) j"
    and "i AND mask k = i" "j AND mask k = j" and k: "k \<le> 32" "s + r = k" "0 < q" "q \<le> r"
  shows "i = j"
proof -
  have reg: "(if s \<le> n then bit i (n - s) else bit i (n + r - q) \<noteq> bit i (n + r)) =
      (if s \<le> n then bit j (n - s) else bit j (n + r - q) \<noteq> bit j (n + r))" if "n < k" for n
    using bit_register[OF that k(1,2,4), of i] bit_register[OF that k(1,2,4), of j] same by simp
  have same: "bit i n = bit j n" if "n < k" for n
    using that
  proof (induction n rule: less_induct)
    case (less n)
    show ?case
    proof (cases "n < r")
      case True
      then show ?thesis using reg[of "n + s"] k(2) by simp
    next
      case False
      then have "\<not> s \<le> n - r" "n - r < k" "n - r + r = n" using less.prems k by auto
      then have "(bit i (n - q) \<noteq> bit i n) = (bit j (n - q) \<noteq> bit j n)" using reg[of "n - r"] by simp
      moreover have "bit i (n - q) = bit j (n - q)" using less.IH[of "n - q"] less.prems False k by simp
      ultimately show ?thesis by blast
    qed
  qed
  show ?thesis
    by (rule bit_word_eqI) (use same masked_bit assms(2,3) in blast)
qed

lemma next_seeds_masked: "masked (next_seeds g)"
  by (simp add: masked_def next_seeds_def shift_register_def Let_def ac_simps)

lemma next_seeds_inj: "masked g \<Longrightarrow> masked h \<Longrightarrow> next_seeds g = next_seeds h \<Longrightarrow> g = h"
  unfolding next_seeds_def masked_def masks
  using register_inj[of 13 12 19 31 "I1 g" "I1 h"] register_inj[of 2 17 12 29 "I2 g" "I2 h"]
  by (cases g; cases h) simp

text \<open>
  Property C30. Whatever the seeds, the generator returns to them after a positive number of draws: the registers are permuted, no
  state is lost and no draw ends in a shorter cycle.
\<close>

theorem draws_return_to_the_seeds:
  "\<exists>n > 0. (next_seeds ^^ n) (srandomine a b) = srandomine a b"
proof -
  let ?g = "srandomine a b"
  let ?f = "\<lambda>n. (next_seeds ^^ n) ?g"
  have m: "masked (?f n)" for n
  proof (cases n)
    case 0
    then show ?thesis by (simp add: masked_def srandomine_def ac_simps)
  qed (simp add: next_seeds_masked)
  have "finite (UNIV :: (32 word \<times> 32 word) set)" by simp
  then have "finite (range (\<lambda>n. (I1 (?f n), I2 (?f n))))" by (rule rev_finite_subset) simp
  moreover have "infinite (UNIV :: nat set)" by simp
  ultimately have "\<not> inj (\<lambda>n. (I1 (?f n), I2 (?f n)))" using finite_imageD by blast
  then obtain x y where "x \<noteq> y" "I1 (?f x) = I1 (?f y)" "I2 (?f x) = I2 (?f y)" by (auto simp: inj_def)
  then obtain i j where ij: "i < j" "I1 (?f i) = I1 (?f j)" "I2 (?f i) = I2 (?f j)" by (metis linorder_neqE_nat)
  then have "?f i = ?f j" by (cases "?f i"; cases "?f j") simp
  then have "?f 0 = ?f (j - i)" using ij(1)
  proof (induction i arbitrary: j)
    case (Suc i)
    then have "next_seeds (?f i) = next_seeds (?f (j - 1))" by (cases j) simp_all
    then have "?f i = ?f (j - 1)" using next_seeds_inj m by blast
    with Suc.IH[of "j - 1"] Suc.prems(2) show ?case by simp
  qed simp
  with ij(1) show ?thesis by (intro exI[of _ "j - i"]) simp
qed

section \<open>Ranges\<close>

lemma drawn_small: "masked g \<Longrightarrow> unat (drawn_word g) < 2 ^ 31"
proof -
  assume m: "masked g"
  have "drawn_word g AND mask 31 = drawn_word g"
  proof (rule bit_word_eqI)
    fix n assume n: "n < LENGTH(32)"
    have "bit (I1 g) n \<Longrightarrow> n < 31" "bit (I2 g) (n - 2) \<Longrightarrow> n - 2 < 29"
      using m masked_bit[of "I1 g" 31] masked_bit[of "I2 g" 29] by (simp_all add: masked_def masks)
    then show "bit (drawn_word g AND mask 31) n = bit (drawn_word g) n"
      by (auto simp: drawn_word_def bit_simps)
  qed
  then have "take_bit 31 (drawn_word g) = drawn_word g" by (simp add: take_bit_eq_mask)
  then have "unat (take_bit 31 (drawn_word g)) = unat (drawn_word g)" by simp
  then show ?thesis by (metis take_bit_nat_less_exp unsigned_take_bit_eq)
qed

lemma randomine_range: "0 \<le> fst (randomine g) \<and> fst (randomine g) < 1"
proof -
  let ?n = "real (unat (drawn_word (next_seeds g)))"
  have "unat (drawn_word (next_seeds g)) < 2 ^ 31" by (rule drawn_small) (rule next_seeds_masked)
  then have "?n \<le> real (2 ^ 31 - 1)" by (intro of_nat_mono) simp
  then have "?n * Norm \<le> 2147483647 * Norm" by (intro mult_right_mono) (simp_all add: Norm_def)
  also have "\<dots> < 1" by (simp add: Norm_def)
  finally have "?n * Norm < 1" .
  moreover have "0 \<le> ?n * Norm" by (intro mult_nonneg_nonneg of_nat_0_le_iff) (simp add: Norm_def)
  moreover have "fst (randomine g) = ?n * Norm" by (simp only: randomine_def Let_def fst_conv)
  ultimately show ?thesis by simp
qed

lemma product_range: "0 \<le> r \<Longrightarrow> r \<le> 1 \<Longrightarrow> 0 \<le> fst (product_of_draws k r g) \<and> fst (product_of_draws k r g) \<le> 1"
proof (induction k arbitrary: r g)
  case (Suc k)
  have "0 \<le> fst (randomine g)" "fst (randomine g) \<le> 1" using randomine_range[of g] by simp_all
  then show ?case using Suc by (auto intro!: Suc.IH mult_nonneg_nonneg mult_le_one split: prod.splits)
qed simp

lemma clamp_range: "lo \<le> hi \<Longrightarrow> lo \<le> clamp lo hi v \<and> clamp lo hi v \<le> hi"
  by (auto simp: clamp_def)

lemma rnorm_in: "lo \<le> hi \<Longrightarrow> rnorm m lo hi d g = Inr (v, g') \<Longrightarrow> lo \<le> v \<and> v \<le> hi"
  using clamp_range by (auto simp: rnorm_def Let_def split: prod.splits if_splits)

lemma erlng_in: "lo \<le> hi \<Longrightarrow> erlng m lo hi d g = Inr (v, g') \<Longrightarrow> lo \<le> v \<and> v \<le> hi"
  using clamp_range by (auto simp: erlng_def Let_def split: prod.splits if_splits)

lemma expo_in: "lo \<le> hi \<Longrightarrow> expo m lo hi g = Inr (v, g') \<Longrightarrow> lo \<le> v \<and> v \<le> hi"
  by (auto simp: expo_def Let_def split: prod.splits if_splits)

lemma unform_in: "lo \<le> hi \<Longrightarrow> lo \<le> fst (unform lo hi g) \<and> fst (unform lo hi g) \<le> hi"
proof -
  assume "lo \<le> hi"
  then have "(hi - lo) * fst (randomine g) \<le> (hi - lo) * 1" "0 \<le> (hi - lo) * fst (randomine g)"
    using randomine_range[of g] by (intro mult_left_mono mult_nonneg_nonneg; simp)+
  then show ?thesis by (cases "randomine g") (simp add: unform_def)
qed



end
