(* ===== verification/Eee.thy ===== *)
theory Eee
  imports Prelude
begin

text \<open>
  The multi-level network with energy efficient Ethernet (\<^verbatim>\<open>eee_model/eee_configuration.c\<close>, \<^verbatim>\<open>eee_model/eee_communic.c\<close>, and
  its part of \<open>COMMUNIC_send\<close>): the wiring of the switches, the way of a message up and down the fat tree, links that sleep
  and wake. Links are addressed by side, level, switch and number; the pointer \<open>partner_link\<close> is such an address. A message is what
  a thread keeps of its way. \<open>exit\<close> is the fault \<open>Die\<close>, a division by zero \<open>OutOfBounds\<close>.
\<close>

section \<open>State\<close>

datatype side = In_links | Out_links

type_synonym eee_ref = "side \<times> nat \<times> nat \<times> nat"

record eee_link =
  inlink_next_free_time :: real
  outlink_next_free_time :: real
  last_inlink_off_time :: real
  last_outlink_off_time :: real
  stats_total_inlink_on_time :: real
  stats_total_outlink_on_time :: real
  partner_link :: "eee_ref option"

text \<open>\<open>N_in_links\<close> and \<open>N_out_links\<close> of a level are those of each of its switches.\<close>

record eee_net =
  N_nodes :: nat
  N_levels :: nat
  switches_per_level :: "nat \<Rightarrow> nat"
  N_in_links :: "nat \<Rightarrow> nat"
  N_out_links :: "nat \<Rightarrow> nat"
  eee_links :: "eee_ref \<Rightarrow> eee_link option"
  node_messages :: "int \<Rightarrow> nat"

record eee_par =
  T_w :: "nat \<Rightarrow> real"
  T_s :: "nat \<Rightarrow> real"
  T_pdt :: "nat \<Rightarrow> real"
  T_eee_lat :: "nat \<Rightarrow> real"
  T_eee_bw :: "nat \<Rightarrow> real"
  T_eee_hop_lat :: "nat \<Rightarrow> real"
  eee_frame_header_size :: int

definition EEE_UP :: int where "EEE_UP = 1"
definition EEE_DOWN :: int where "EEE_DOWN = - 1"

record eee_msg =
  eee_send_done :: bool
  current_level :: int
  routing_dir :: int
  link_transmit_done :: bool
  nw_switch_done :: bool
  eee_done_reset_var :: bool
  eee_linkid :: nat
  eee_switchid :: nat
  messages_in_flight :: nat
  eee_doing_startup :: bool
  eee_startup_done :: bool
  eee_loose_cpu :: bool

section \<open>The wiring\<close>

text \<open>The links of a level in the order of the loops over switches and links; the counter \<open>eee_partner_j\<close> is the position.\<close>

definition slots :: "nat \<Rightarrow> nat \<Rightarrow> (nat \<times> nat) list" where
  "slots switches links = concat (map (\<lambda>j. map (Pair j) [0..<links]) [0..<switches])"

text \<open>Switches and links of each level for \<open>n\<close> nodes (the first loops of \<open>configure_switches\<close>).\<close>

definition level_switches :: "nat \<Rightarrow> nat \<Rightarrow> nat" where
  "level_switches n i = (if i = 2 then 2 else if i = 1 then 2 * 2 else n div 4)"

definition level_in :: "nat \<Rightarrow> nat \<Rightarrow> nat \<Rightarrow> nat" where
  "level_in levels n i =
     (if i = 0 then n div level_switches n i
      else if i = levels - 1 then level_switches n (i - 1)
      else level_switches n (i - 1) div level_switches n i)"

definition level_out :: "nat \<Rightarrow> nat \<Rightarrow> nat \<Rightarrow> nat" where
  "level_out levels n i =
     (if i = 0 then 1 else if i = levels - 1 then 0 else if i + 1 = levels - 1 then level_switches n (i + 1) else 1)"

definition in_partner :: "nat \<Rightarrow> nat \<Rightarrow> nat \<Rightarrow> nat \<Rightarrow> eee_ref option" where
  "in_partner levels n i p =
     (if i = 0 then None
      else if i = levels - 1 then Some (Out_links, i - 1, p mod level_switches n (i - 1), p div level_switches n (i - 1))
      else Some (Out_links, i - 1, p, 0))"

definition out_partner :: "nat \<Rightarrow> nat \<Rightarrow> nat \<Rightarrow> nat \<Rightarrow> eee_ref res" where
  "out_partner levels n i p =
     (if i = levels - 1 then Inl (Die ''Error:: CANNOT BE HERE'')
      else if i \<noteq> levels - 2
      then (if level_in levels n (i + 1) = 0 then Inl OutOfBounds
            else Inr (In_links, i + 1, p div level_in levels n (i + 1), p mod level_in levels n (i + 1)))
      else Inr (In_links, i + 1, p mod level_out levels n i, p div level_out levels n i))"

definition idle_link :: "eee_ref option \<Rightarrow> eee_link" where
  "idle_link p = \<lparr>inlink_next_free_time = 0, outlink_next_free_time = 0, last_inlink_off_time = - 1, last_outlink_off_time = - 1,
     stats_total_inlink_on_time = 0, stats_total_outlink_on_time = 0, partner_link = p\<rparr>"

definition in_entries :: "nat \<Rightarrow> nat \<Rightarrow> nat \<Rightarrow> (eee_ref \<times> eee_link) list" where
  "in_entries levels n i =
     map (\<lambda>(p, j, k). ((In_links, i, j, k), idle_link (in_partner levels n i p)))
       (enumerate 0 (slots (level_switches n i) (level_in levels n i)))"

fun out_entries :: "nat \<Rightarrow> nat \<Rightarrow> nat \<Rightarrow> (nat \<times> nat \<times> nat) list \<Rightarrow> (eee_ref \<times> eee_link) list res" where
  "out_entries levels n i [] = Inr []"
| "out_entries levels n i ((p, j, k) # ps) =
     bindE (out_partner levels n i p) (\<lambda>q. bindE (out_entries levels n i ps) (\<lambda>es.
     Inr (((Out_links, i, j, k), idle_link (Some q)) # es)))"

fun wire_out :: "nat \<Rightarrow> nat \<Rightarrow> nat list \<Rightarrow> (eee_ref \<times> eee_link) list res" where
  "wire_out levels n [] = Inr []"
| "wire_out levels n (i # is) =
     bindE (out_entries levels n i (enumerate 0 (slots (level_switches n i) (level_out levels n i)))) (\<lambda>es.
     bindE (wire_out levels n is) (\<lambda>es'. Inr (es @ es')))"

text \<open>The test at the end: the partner of the partner of a link is the link; the answer says whether any link passed it.\<close>

fun links_paired :: "(eee_ref \<Rightarrow> eee_link option) \<Rightarrow> eee_ref list \<Rightarrow> bool res" where
  "links_paired links [] = Inr False"
| "links_paired links (a # as) =
     (case links a of None \<Rightarrow> Inl OutOfBounds
      | Some l \<Rightarrow> (case partner_link l of
          None \<Rightarrow> (if fst a = In_links \<and> fst (snd a) = 0 then links_paired links as else Inl NullDeref)
        | Some b \<Rightarrow> (case links b of None \<Rightarrow> Inl OutOfBounds
            | Some l' \<Rightarrow> (if partner_link l' = Some a then bindE (links_paired links as) (\<lambda>_. Inr True)
                         else Inl (Die ''Test Unsuccessful!!!!!!!'')))))"

definition configure_switches :: "nat \<Rightarrow> nat \<Rightarrow> eee_net res" where
  "configure_switches levels n =
     (if levels < 3 then Inl OutOfBounds
      else if levels > 3 then Inl Uninit
      else
        bindE (wire_out levels n [0..<levels]) (\<lambda>outs.
        let ins = concat (map (in_entries levels n) [0..<levels]);
            links = map_of (ins @ outs)
        in bindE (links_paired links (map fst outs)) (\<lambda>a.
           bindE (links_paired links (map fst ins)) (\<lambda>b.
           if a \<or> b
           then Inr \<lparr>N_nodes = n, N_levels = levels, switches_per_level = level_switches n, N_in_links = level_in levels n,
                  N_out_links = level_out levels n, eee_links = links, node_messages = \<lambda>_. 0\<rparr>
           else Inl (Die ''Test Unsuccessful!'')))))"

section \<open>Transmission over a link\<close>

definition link_at :: "eee_ref \<Rightarrow> eee_net \<Rightarrow> eee_link res" where
  "link_at a net = (case eee_links net a of None \<Rightarrow> Inl OutOfBounds | Some l \<Rightarrow> Inr l)"

definition upd_link :: "eee_ref \<Rightarrow> (eee_link \<Rightarrow> eee_link) \<Rightarrow> eee_net \<Rightarrow> eee_net" where
  "upd_link a f net = net\<lparr>eee_links := (eee_links net)(a := map_option f (eee_links net a))\<rparr>"

text \<open>Upwards the level above and bandwidth over 10^9, downwards the level itself and bandwidth over 10^6.\<close>

definition eee_calc_nw_bw_lat :: "eee_par \<Rightarrow> eee_msg \<Rightarrow> int \<Rightarrow> real res" where
  "eee_calc_nw_bw_lat par m z =
     (if routing_dir m = EEE_UP then
        (let i = nat (current_level m + 1); bw = T_eee_bw par i * (1024 * 1024) / 1000000000 in
         Inr (if T_eee_bw par i = 0 then T_eee_lat par i else T_eee_lat par i + real_of_int z / bw))
      else if routing_dir m = EEE_DOWN then
        (let i = nat (current_level m); bw = T_eee_bw par i * (1024 * 1024) / 1000000 in
         Inr (if T_eee_bw par i = 0 then T_eee_lat par i else T_eee_lat par i + real_of_int z / bw))
      else Inl (Die ''EEE_ERROR::eee_calc_nw_bw_lat::Cant be here''))"

text \<open>What a link adds that went off at \<open>off\<close>: nothing if it still is on, else the time to wake up, after the time to fall asleep.\<close>

definition sleeping :: "eee_par \<Rightarrow> nat \<Rightarrow> real \<Rightarrow> real \<Rightarrow> bool" where
  "sleeping par i now off \<longleftrightarrow> off < now \<and> now - off < T_s par i"

definition wake_time :: "eee_par \<Rightarrow> nat \<Rightarrow> real \<Rightarrow> real \<Rightarrow> real" where
  "wake_time par i now off =
     (if off < now then T_w par i + (if sleeping par i now off then T_s par i - (now - off) else 0) else 0)"

definition pdt_time :: "eee_par \<Rightarrow> nat \<Rightarrow> real \<Rightarrow> real \<Rightarrow> real \<Rightarrow> real" where
  "pdt_time par i now off free = (if off < now then T_pdt par i else now - free)"

text \<open>First hop: the incoming direction of the link of the node. The index of the times is the level above.\<close>

definition take_in_link :: "eee_par \<Rightarrow> eee_ref \<Rightarrow> int \<Rightarrow> real \<Rightarrow> eee_msg \<Rightarrow> eee_net \<Rightarrow> (bool \<times> real \<times> eee_net) res" where
  "take_in_link par a z now m net =
     bindE (link_at a net) (\<lambda>l.
     let i = nat (current_level m + 1); free = inlink_next_free_time l; off = last_inlink_off_time l in
     if free \<le> now then
       bindE (eee_calc_nw_bw_lat par m (eee_frame_header_size par)) (\<lambda>d.
       bindE (eee_calc_nw_bw_lat par m z) (\<lambda>p.
       let w = wake_time par i now off; f = now + d + p + w in
       Inr (True, d + w, upd_link a (\<lambda>l. l\<lparr>inlink_next_free_time := f, last_inlink_off_time := f + T_pdt par i,
         stats_total_inlink_on_time := stats_total_inlink_on_time l + (d + w + (p + w) + pdt_time par i now off free)\<rparr>) net)))
     else if free - now = 0 then Inl (Die '':::::::Next Call cannot be Zero!'')
     else Inr (False, free - now, net))"

text \<open>Up: the out link of the switch; its partner gets the time on, and the message moves to the switch of the partner.\<close>

definition take_out_link :: "eee_par \<Rightarrow> eee_ref \<Rightarrow> int \<Rightarrow> real \<Rightarrow> eee_msg \<Rightarrow> eee_net \<Rightarrow> (bool \<times> real \<times> nat \<times> eee_net) res" where
  "take_out_link par a z now m net =
     bindE (link_at a net) (\<lambda>l.
     let i = nat (current_level m); free = outlink_next_free_time l; off = last_outlink_off_time l in
     if free \<le> now then
       bindE (eee_calc_nw_bw_lat par m (eee_frame_header_size par)) (\<lambda>d.
       bindE (eee_calc_nw_bw_lat par m z) (\<lambda>p.
       let w = wake_time par i now off; f = now + d + p + w;
           on = stats_total_outlink_on_time l + (d + w + (p + w) + pdt_time par i now off free);
           net1 = upd_link a (\<lambda>l. l\<lparr>outlink_next_free_time := f, last_outlink_off_time := f + T_pdt par i,
             stats_total_outlink_on_time := on\<rparr>) net
       in case partner_link l of
            None \<Rightarrow> Inl NullDeref
          | Some b \<Rightarrow> bindE (link_at b net1) (\<lambda>_.
              Inr (True, d + w, fst (snd (snd b)), upd_link b (\<lambda>l. l\<lparr>stats_total_inlink_on_time := on\<rparr>) net1))))
     else Inr (False, free - now, eee_switchid m, net))"

text \<open>Down: the outgoing direction of an in link. The last hop takes the time of the whole message.\<close>

definition take_down_link :: "eee_par \<Rightarrow> eee_ref \<Rightarrow> int \<Rightarrow> real \<Rightarrow> eee_msg \<Rightarrow> eee_net \<Rightarrow> (bool \<times> real \<times> nat \<times> eee_net) res" where
  "take_down_link par a z now m net =
     bindE (link_at a net) (\<lambda>l.
     let i = nat (current_level m); free = outlink_next_free_time l; off = last_outlink_off_time l in
     if free \<le> now then
       bindE (eee_calc_nw_bw_lat par m (eee_frame_header_size par)) (\<lambda>d.
       bindE (eee_calc_nw_bw_lat par m z) (\<lambda>p.
       let w = wake_time par i now off; f = now + d + p + w;
           d1 = (if current_level m = 0 then d + p else d) + w;
           pdt = (if sleeping par i now off then 0 else pdt_time par i now off free);
           on = stats_total_outlink_on_time l + (d1 + (p + w) + pdt);
           net1 = upd_link a (\<lambda>l. l\<lparr>outlink_next_free_time := f, last_outlink_off_time := f + T_pdt par i,
             stats_total_outlink_on_time := on\<rparr>) net
       in if current_level m = 0 then Inr (True, d1, eee_switchid m, net1)
          else case partner_link l of
            None \<Rightarrow> Inl NullDeref
          | Some b \<Rightarrow> bindE (link_at b net1) (\<lambda>_.
              Inr (True, d1, fst (snd (snd b)), upd_link b (\<lambda>l. l\<lparr>stats_total_inlink_on_time := on\<rparr>) net1))))
     else Inr (False, free - now, eee_switchid m, net))"

text \<open>Level and flags after a transmission, or after one that has to wait.\<close>

definition after_transmit :: "bool \<Rightarrow> int \<Rightarrow> eee_msg \<Rightarrow> eee_msg res" where
  "after_transmit ok org m =
     (let m1 = (if ok then m\<lparr>current_level := current_level m + (if routing_dir m = EEE_UP then 1
                  else if routing_dir m = EEE_DOWN then - 1 else 0)\<rparr> else m);
          m2 = (if current_level m1 = - 1 \<and> ok then m1\<lparr>eee_send_done := True\<rparr> else m1)
      in if ok then
           (if (link_transmit_done m2 \<or> \<not> nw_switch_done m2) \<and> org \<noteq> - 1 \<and> routing_dir m2 = EEE_UP
            then Inl (Die ''Cannot Be HERE!!!!'')
            else Inr (m2\<lparr>link_transmit_done := True, nw_switch_done := False\<rparr>))
         else Inr (m2\<lparr>link_transmit_done := False, nw_switch_done := True\<rparr>))"

text \<open>The numbers \<open>s\<close> and \<open>r\<close> are the identifiers of the nodes minus one.\<close>

definition link_transmit :: "eee_par \<Rightarrow> int \<Rightarrow> int \<Rightarrow> int \<Rightarrow> real \<Rightarrow> eee_msg \<times> eee_net \<Rightarrow> (real \<times> eee_msg \<times> eee_net) res" where
  "link_transmit par s r z now st =
     (case st of (m, net) \<Rightarrow>
      if s < 0 \<or> r < 0 then Inl (Die ''EEE ERROR::::NOT POSSIBLE for Node ID to be Negative'')
      else if eee_frame_header_size par < 0 then Inl (Die ''eee_frame_header_size cannot be negative!'')
      else if current_level m = - 1 then
        (if switches_per_level net 0 = 0 \<or> N_nodes net div switches_per_level net 0 = 0 then Inl OutOfBounds
         else
           let links = N_nodes net div switches_per_level net 0;
               m1 = m\<lparr>eee_switchid := nat s div links, eee_linkid := nat s mod links\<rparr>
           in if s = r then Inr (0, m1\<lparr>eee_send_done := True\<rparr>, net)
              else
                let m2 = m1\<lparr>messages_in_flight := messages_in_flight m1 + 1\<rparr>;
                    net1 = net\<lparr>node_messages := (node_messages net)(s := node_messages net s + 1, r := node_messages net r + 1)\<rparr>
                in if routing_dir m = EEE_UP then
                     bindE (take_in_link par (In_links, 0, eee_switchid m2, eee_linkid m2) z now m2 net1) (\<lambda>(ok, d, net2).
                     bindE (after_transmit ok (- 1) m2) (\<lambda>m3. Inr (d, m3, net2)))
                   else if routing_dir m = EEE_DOWN then Inl OutOfBounds
                   else Inl (Die ''EEE Error: Routing Dir incorrect: Not supposed to be here''))
      else if routing_dir m = EEE_UP then
        (if current_level m = int (N_levels net) - 1
         then Inl (Die ''EEE Error: Current Level cannot be Last when routing is UP'')
         else
           bindE (take_out_link par (Out_links, nat (current_level m), eee_switchid m, eee_linkid m) z now m net) (\<lambda>(ok, d, sw, net1).
           bindE (after_transmit ok (current_level m) (m\<lparr>eee_switchid := sw\<rparr>)) (\<lambda>m1. Inr (d, m1, net1))))
      else if routing_dir m = EEE_DOWN then
        bindE (take_down_link par (In_links, nat (current_level m), eee_switchid m, eee_linkid m) z now m net) (\<lambda>(ok, d, sw, net1).
        bindE (after_transmit ok (current_level m) (m\<lparr>eee_switchid := sw\<rparr>)) (\<lambda>m1. Inr (d, m1, net1)))
      else Inl (Die ''EEE Error: Routing Dir incorrect: Not supposed to be here''))"

section \<open>Routing in a switch\<close>

text \<open>The nodes below a switch of a level.\<close>

definition div_function :: "eee_net \<Rightarrow> int \<Rightarrow> nat" where
  "div_function net level = fold (\<lambda>i f. f * N_in_links net i) [0..<nat (level + 1)] 1"

definition turn_around :: "int \<Rightarrow> int \<Rightarrow> eee_msg \<Rightarrow> eee_net \<Rightarrow> eee_msg res" where
  "turn_around s r m net =
     (let f = div_function net (current_level m) in
      if f = 0 then Inl OutOfBounds
      else if nat s div f = nat r div f then
        (if routing_dir m = EEE_UP then Inr (m\<lparr>routing_dir := EEE_DOWN\<rparr>)
         else if current_level m \<noteq> int (N_levels net) - 1 then Inl (Die ''NW_SWITCH ERROR!!! Cant be here!'')
         else Inr m)
      else Inr m)"

text \<open>The link the message takes next.\<close>

definition next_link :: "int \<Rightarrow> eee_msg \<Rightarrow> eee_net \<Rightarrow> nat res" where
  "next_link r m net =
     (let i = nat (current_level m) in
      if routing_dir m = EEE_UP then
        (if current_level m = int (N_levels net) - 1 then Inl (Die ''ERROR! Not supposed to be here'')
         else if N_out_links net i = 0 then Inl OutOfBounds
         else Inr (nat r mod N_out_links net i))
      else if routing_dir m = EEE_DOWN then
        (if current_level m - 1 = - 1 then
           (if switches_per_level net 0 = 0 \<or> N_nodes net div switches_per_level net 0 = 0 then Inl OutOfBounds
            else Inr (nat r mod (N_nodes net div switches_per_level net 0)))
         else
           let f = div_function net (current_level m - 1) in
           if f = 0 \<or> N_in_links net i = 0 then Inl OutOfBounds
           else
             let q = nat r div f; k = q mod N_in_links net i in
             bindE (link_at (In_links, i, eee_switchid m, k) net) (\<lambda>l.
             case partner_link l of None \<Rightarrow> Inl NullDeref
             | Some b \<Rightarrow> if fst (snd (snd b)) \<noteq> q then Inl (Die ''Error in nw_switch(), switch calc error!'') else Inr k))
      else Inl (Die ''EEE_ERROR::Cant be here!''))"

definition nw_switch :: "eee_par \<Rightarrow> int \<Rightarrow> int \<Rightarrow> eee_msg \<times> eee_net \<Rightarrow> (real \<times> eee_msg \<times> eee_net) res" where
  "nw_switch par s r st =
     (case st of (m, net) \<Rightarrow>
      if s < 0 \<or> r < 0 then Inl (Die ''EEE ERROR::::NOT POSSIBLE for Node ID to be Negative'')
      else
        bindE (turn_around s r m net) (\<lambda>m1.
        bindE (next_link r m1 net) (\<lambda>k.
        if nw_switch_done m1 \<or> \<not> link_transmit_done m1 then Inl (Die ''EEE_ERROR:Cannot Be Here!!!'')
        else Inr (T_eee_hop_lat par (nat (current_level m1)),
                  m1\<lparr>eee_linkid := k, nw_switch_done := True, link_transmit_done := False\<rparr>, net))))"

section \<open>A call of the network\<close>

definition eee_network :: "eee_par \<Rightarrow> int \<Rightarrow> int \<Rightarrow> int \<Rightarrow> real \<Rightarrow> eee_msg \<times> eee_net \<Rightarrow> (real \<times> eee_msg \<times> eee_net) res" where
  "eee_network par s r z now st =
     (case st of (m, net) \<Rightarrow>
      if eee_send_done m then Inl (Die ''Inside network but sending was over!'')
      else
        let m1 = (if current_level m = - 1 then m\<lparr>routing_dir := EEE_UP\<rparr>
                  else if current_level m = int (N_levels net) - 1 then m\<lparr>routing_dir := EEE_DOWN\<rparr> else m)
        in if \<not> link_transmit_done m1 then link_transmit par s r z now (m1, net)
           else if \<not> nw_switch_done m1 then nw_switch par s r (m1, net)
           else Inl (Die ''Error in fn eee-network: Not supposed to be here''))"

text \<open>
  The beginning of \<open>COMMUNIC_send\<close>: the answer is the time after which the thread comes back here, or nothing when the
  send goes on with its startup.
\<close>

definition eee_send :: "eee_par \<Rightarrow> int \<Rightarrow> int \<Rightarrow> int \<Rightarrow> real \<Rightarrow> eee_msg \<times> eee_net \<Rightarrow> (real option \<times> eee_msg \<times> eee_net) res" where
  "eee_send par s r z now st =
     (case st of (m0, net) \<Rightarrow>
      let m = (if eee_done_reset_var m0
               then m0\<lparr>eee_doing_startup := False, eee_startup_done := False, eee_loose_cpu := False, link_transmit_done := False,
                       nw_switch_done := True, eee_done_reset_var := False\<rparr>
               else m0)
      in if eee_send_done m then Inr (None, m, net)
         else
           bindE (eee_network par s r z now (m, net)) (\<lambda>(d, m1, net1).
           Inr (Some d, if eee_send_done m1 then m1\<lparr>eee_done_reset_var := True\<rparr>
                        else m1\<lparr>eee_doing_startup := True, eee_startup_done := False, eee_loose_cpu := False\<rparr>, net1)))"

end
