(* ===== verification/EeeProps.thy ===== *)
theory EeeProps
  imports Eee
begin

text \<open>
  The wiring of the energy efficient network is a fat tree exactly when it passes its own test, and in it every message
  goes up to the lowest common switch and down to its node.
\<close>

section \<open>The wiring is a tree\<close>

lemma set_slots [simp]: "x \<in> set (slots s t) \<longleftrightarrow> fst x < s \<and> snd x < t"
  by (cases x) (force simp: slots_def)

lemma slots_Suc: "slots (Suc s) t = slots s t @ map (Pair s) [0..<t]"
  by (simp add: slots_def)

lemma length_slots: "length (slots s t) = s * t"
  by (induction s) (simp_all add: slots_Suc, simp add: slots_def)

lemma enumerate_row: "enumerate b (map (Pair s) [0..<t]) = map (\<lambda>(j, k). (b + k, j, k)) (map (Pair s) [0..<t])"
  by (rule nth_equalityI) (simp_all add: nth_enumerate_eq)

lemma enumerate_slots: "enumerate 0 (slots s t) = map (\<lambda>(j, k). (j * t + k, j, k)) (slots s t)"
proof (induction s)
  case (Suc s)
  have "enumerate 0 (slots (Suc s) t) = enumerate 0 (slots s t) @ enumerate (s * t) (map (Pair s) [0..<t])"
    by (simp add: slots_Suc enumerate_append_eq length_slots)
  then show ?case by (simp add: Suc enumerate_row slots_Suc)
qed (simp add: slots_def)

lemma map_of_row: "map_of (map (\<lambda>(j, k). ((S, i, j, k), f j k)) xs) (S', i', j, k) =
    (if S' = S \<and> i' = i \<and> (j, k) \<in> set xs then Some (f j k) else None)"
  by (induction xs) auto

text \<open>Wired as a tree over \<open>n\<close> nodes: who the partner of a link is.\<close>

definition tree_partner :: "nat \<Rightarrow> eee_ref \<Rightarrow> eee_ref option option" where
  "tree_partner n a = (let q = n div 4; b = q div 4 in case a of
      (In_links, i, j, k) \<Rightarrow>
        if i = 0 then (if j < q \<and> k < n div q then Some None else None)
        else if i = 1 then (if j < 4 \<and> k < b then Some (Some (Out_links, 0, j * b + k, 0)) else None)
        else if i = 2 then (if j < 2 \<and> k < 4 then Some (Some (Out_links, 1, k, j)) else None) else None
    | (Out_links, i, j, k) \<Rightarrow>
        if i = 0 then (if j < q \<and> k = 0 then Some (Some (In_links, 1, j div b, j mod b)) else None)
        else if i = 1 then (if j < 4 \<and> k < 2 then Some (Some (In_links, 2, k, j)) else None) else None)"

definition tree_net :: "nat \<Rightarrow> eee_net" where
  "tree_net n = \<lparr>N_nodes = n, N_levels = 3, switches_per_level = level_switches n, N_in_links = level_in 3 n,
     N_out_links = level_out 3 n, eee_links = (\<lambda>a. map_option idle_link (tree_partner n a)), node_messages = \<lambda>_. 0\<rparr>"

lemma levels3: "[0..<3] = [0, 1, Suc (Suc 0)]"
  by (simp add: upt_rec numeral_3_eq_3)

lemma in_entries_slots: "in_entries levels n i =
    map (\<lambda>(j, k). ((In_links, i, j, k), idle_link (in_partner levels n i (j * level_in levels n i + k))))
      (slots (level_switches n i) (level_in levels n i))"
  by (simp add: in_entries_def enumerate_slots split_def o_def)

lemma level_facts:
  "level_switches n 0 = n div 4" "level_switches n (Suc 0) = 4" "level_switches n 2 = 2"
  "level_in 3 n 0 = n div (n div 4)" "level_in 3 n (Suc 0) = n div 4 div 4" "level_in 3 n 2 = 4"
  "level_out 3 n 0 = 1" "level_out 3 n (Suc 0) = 2" "level_out 3 n 2 = 0"
  by (simp_all add: level_switches_def level_in_def level_out_def)

lemma out_entries_all:
  "\<forall>x \<in> set ps. case x of (p, j, k) \<Rightarrow> out_partner levels n i p = Inr (f j k) \<Longrightarrow>
   out_entries levels n i ps = Inr (map (\<lambda>(p, j, k). ((Out_links, i, j, k), idle_link (Some (f j k)))) ps)"
  by (induction ps) (auto split: prod.splits)

lemma out_partner0: "out_partner 3 n 0 p =
    (if n div 4 div 4 = 0 then Inl OutOfBounds else Inr (In_links, 1, p div (n div 4 div 4), p mod (n div 4 div 4)))"
  by (simp add: out_partner_def level_facts)

lemma out_partner1: "out_partner 3 n (Suc 0) p = Inr (In_links, 2, p mod 2, p div 2)"
  by (simp add: out_partner_def level_facts)

lemma out_entries0:
  assumes "n div 4 div 4 \<noteq> 0 \<or> n div 4 = 0"
  shows "out_entries 3 n 0 (enumerate 0 (slots (n div 4) 1)) =
    Inr (map (\<lambda>(j, k). ((Out_links, 0, j, k), idle_link (Some (In_links, 1, j div (n div 4 div 4), j mod (n div 4 div 4)))))
      (slots (n div 4) 1))"
proof -
  have "out_entries 3 n 0 (enumerate 0 (slots (n div 4) 1)) =
      Inr (map (\<lambda>(p, j, k). ((Out_links, 0, j, k), idle_link (Some (In_links, 1, j div (n div 4 div 4), j mod (n div 4 div 4)))))
        (enumerate 0 (slots (n div 4) 1)))"
    using assms by (intro out_entries_all) (auto simp: enumerate_slots out_partner0)
  then show ?thesis by (simp add: enumerate_slots o_def split_def)
qed

lemma out_entries1:
  "out_entries 3 n (Suc 0) (enumerate 0 (slots 4 2)) =
    Inr (map (\<lambda>(j, k). ((Out_links, Suc 0, j, k), idle_link (Some (In_links, 2, k, j)))) (slots 4 2))"
proof -
  have "out_entries 3 n (Suc 0) (enumerate 0 (slots 4 2)) =
      Inr (map (\<lambda>(p, j, k). ((Out_links, Suc 0, j, k), idle_link (Some (In_links, 2, k, j)))) (enumerate 0 (slots 4 2)))"
    by (intro out_entries_all) (auto simp: enumerate_slots out_partner1)
  then show ?thesis by (simp add: enumerate_slots o_def split_def)
qed

lemma no_slots: "slots s 0 = []"
  by (induction s) (simp_all add: slots_def)

definition tree_outs :: "nat \<Rightarrow> (eee_ref \<times> eee_link) list" where
  "tree_outs n =
     map (\<lambda>(j, k). ((Out_links, 0, j, k), idle_link (Some (In_links, 1, j div (n div 4 div 4), j mod (n div 4 div 4))))) (slots (n div 4) 1)
     @ map (\<lambda>(j, k). ((Out_links, Suc 0, j, k), idle_link (Some (In_links, 2, k, j)))) (slots 4 2)"

definition tree_ins :: "nat \<Rightarrow> (eee_ref \<times> eee_link) list" where
  "tree_ins n =
     map (\<lambda>(j, k). ((In_links, 0, j, k), idle_link None)) (slots (n div 4) (n div (n div 4)))
     @ map (\<lambda>(j, k). ((In_links, Suc 0, j, k), idle_link (Some (Out_links, 0, j * (n div 4 div 4) + k, 0)))) (slots 4 (n div 4 div 4))
     @ map (\<lambda>(j, k). ((In_links, 2, j, k), idle_link (Some (Out_links, Suc 0, k, j)))) (slots 2 4)"

lemma wire_out_tree: "n div 4 div 4 \<noteq> 0 \<or> n div 4 = 0 \<Longrightarrow> wire_out 3 n [0..<3] = Inr (tree_outs n)"
  using out_entries0[of n] out_entries1[of n]
  by (simp add: levels3 level_facts tree_outs_def no_slots flip: numeral_2_eq_2)

lemma in_partner_facts: "in_partner 3 n 0 p = None" "in_partner 3 n (Suc 0) p = Some (Out_links, 0, p, 0)"
    "in_partner 3 n 2 p = Some (Out_links, Suc 0, p mod 4, p div 4)"
  by (simp_all add: in_partner_def level_facts)

lemma ins_tree: "concat (map (in_entries 3 n) [0..<3]) = tree_ins n"
proof -
  have "map (\<lambda>(j, k). ((In_links, 2, j, k), idle_link (in_partner 3 n 2 (j * 4 + k)))) (slots 2 4) =
      map (\<lambda>(j, k). ((In_links, 2, j, k), idle_link (Some (Out_links, Suc 0, k, j)))) (slots 2 4)"
    by (rule map_cong) (auto simp: in_partner_facts)
  then show ?thesis
    by (simp add: levels3 in_entries_slots level_facts in_partner_facts tree_ins_def flip: numeral_2_eq_2)
qed

lemma links_tree: "map_of (tree_ins n @ tree_outs n) = (\<lambda>a. map_option idle_link (tree_partner n a))"
proof
  fix a :: eee_ref
  obtain S i j k where a: "a = (S, i, j, k)" by (cases a) auto
  show "map_of (tree_ins n @ tree_outs n) a = map_option idle_link (tree_partner n a)"
    unfolding a tree_ins_def tree_outs_def map_of_append map_add_def map_of_row
    by (cases S) (auto simp: tree_partner_def Let_def)
qed

lemma links_tree': "map_of (tree_outs n) ++ map_of (tree_ins n) = (\<lambda>a. map_option idle_link (tree_partner n a))"
  using links_tree[of n] by simp

section \<open>The test\<close>

definition passes :: "(eee_ref \<Rightarrow> eee_link option) \<Rightarrow> eee_ref \<Rightarrow> bool" where
  "passes links a \<longleftrightarrow> (\<exists>l. links a = Some l \<and>
     (partner_link l = None \<and> fst a = In_links \<and> fst (snd a) = 0 \<or>
      (\<exists>b l'. partner_link l = Some b \<and> links b = Some l' \<and> partner_link l' = Some a)))"

lemma passesI: "links a = Some l \<Longrightarrow> partner_link l = Some b \<Longrightarrow> links b = Some l' \<Longrightarrow> partner_link l' = Some a \<Longrightarrow> passes links a"
  unfolding passes_def by blast

lemma links_paired_pass: "\<forall>a \<in> set as. passes links a \<Longrightarrow>
    links_paired links as = Inr (\<exists>a \<in> set as. \<exists>l. links a = Some l \<and> partner_link l \<noteq> None)"
  by (induction as) (auto simp: passes_def)

lemma links_paired_fail:
  "\<forall>a \<in> set as. passes links a \<Longrightarrow> links b = Some l \<Longrightarrow> partner_link l = Some c \<Longrightarrow> links c = None \<Longrightarrow>
   links_paired links (as @ b # bs) = Inl OutOfBounds"
  by (induction as) (auto simp: passes_def)

lemma tree_pairs:
  assumes "4 dvd n div 4" "tree_partner n a = Some (Some c)"
  shows "tree_partner n c = Some (Some a)"
proof -
  obtain S i j k where a: "a = (S, i, j, k)" by (cases a) auto
  obtain b where b: "n div 4 = 4 * b" "n div 4 div 4 = b" using assms(1) by auto
  have row: "j * b + k < 4 * b" "(j * b + k) div b = j" "(j * b + k) mod b = k" if "j < 4" "k < b" for j k
  proof -
    have "j * b + k < (j + 1) * b" using that by simp
    also have "\<dots> \<le> 4 * b" using that by (intro mult_right_mono) simp_all
    finally show "j * b + k < 4 * b" .
    show "(j * b + k) div b = j" "(j * b + k) mod b = k" using that by simp_all
  qed
  have home: "j div b < 4" "j mod b < b" "j div b * b + j mod b = j" if "j < 4 * b" for j
    using that by (auto simp: less_mult_imp_div_less intro: gr0I)
  show ?thesis
    using assms(2) unfolding a tree_partner_def Let_def b
    by (auto simp: row home split: side.splits if_splits)
qed

lemma slots_2_4: "slots 2 4 = [(0, 0), (0, 1), (0, 2), (0, 3), (1, 0), (1, 1), (1, 2), (1, 3)]"
  by code_simp

lemma tree_passes: "4 dvd n div 4 \<Longrightarrow> tree_partner n a \<noteq> None \<Longrightarrow> passes (\<lambda>a. map_option idle_link (tree_partner n a)) a"
proof -
  assume d: "4 dvd n div 4" and "tree_partner n a \<noteq> None"
  then obtain c where c: "tree_partner n a = Some c" by auto
  show ?thesis
  proof (cases c)
    case None
    then have "fst a = In_links \<and> fst (snd a) = 0"
      using c by (auto simp: tree_partner_def Let_def split: side.splits prod.splits if_splits)
    then show ?thesis using c None by (simp add: passes_def idle_link_def)
  next
    case (Some e)
    then have "tree_partner n e = Some (Some a)" using tree_pairs[OF d, of a e] c by simp
    then show ?thesis using c Some
      by (intro passesI[where b = e and l = "idle_link (Some e)" and l' = "idle_link (Some a)"]) (simp_all add: idle_link_def)
  qed
qed

lemma in_tree: "a \<in> fst ` set (tree_ins n @ tree_outs n) \<Longrightarrow> tree_partner n a \<noteq> None"
proof -
  assume "a \<in> fst ` set (tree_ins n @ tree_outs n)"
  then have "map_of (tree_ins n @ tree_outs n) a \<noteq> None" by (simp only: map_of_eq_None_iff) simp
  then show ?thesis by (simp only: links_tree) simp
qed

lemma slots_split: "m < s \<Longrightarrow> slots s 1 = slots m 1 @ (m, 0) # map (\<lambda>j. (j, 0)) [Suc m..<s]"
proof -
  assume "m < s"
  then have "[0..<s] = [0..<m] @ m # [Suc m..<s]" by (metis le0 less_imp_add_positive less_imp_le_nat upt_add_eq_append upt_conv_Cons)
  then show ?thesis by (simp add: slots_def)
qed

lemma wide_tree_fails:
  assumes "\<not> 4 dvd n div 4"
  shows "configure_switches 3 n = Inl OutOfBounds"
proof (cases "n div 4 div 4 = 0")
  case True
  moreover have "n div 4 \<noteq> 0" using assms by (metis dvd_0_right)
  ultimately have "out_entries 3 n 0 (enumerate 0 (slots (n div 4) 1)) = Inl OutOfBounds"
    using slots_split[of 0 "n div 4"] by (simp add: no_slots out_partner0 slots_def)
  then show ?thesis by (simp add: configure_switches_def levels3 level_facts)
next
  case False
  let ?b = "n div 4 div 4" and ?links = "\<lambda>a. map_option idle_link (tree_partner n a)"
  have less: "4 * ?b < n div 4" using assms by (metis dvd_triv_left le_neq_implies_less times_div_less_eq_dividend)
  have "\<forall>a \<in> set (map (\<lambda>(j, k). (Out_links, 0, j, k)) (slots (4 * ?b) 1)). passes ?links a"
  proof
    fix a assume "a \<in> set (map (\<lambda>(j, k). (Out_links, 0 :: nat, j, k)) (slots (4 * ?b) 1))"
    then obtain j where j: "a = (Out_links, 0, j, 0)" "j < 4 * ?b" by auto
    moreover have "j div ?b < 4" "j mod ?b < ?b" using j(2) False by (auto simp: less_mult_imp_div_less)
    moreover have "j div ?b * ?b + j mod ?b = j" by (rule div_mult_mod_eq)
    ultimately show "passes ?links a" using less by (simp add: passes_def tree_partner_def Let_def idle_link_def)
  qed
  moreover have "tree_partner n (Out_links, 0, 4 * ?b, 0) = Some (Some (In_links, 1, 4, 0))"
    using False less by (simp add: tree_partner_def Let_def)
  moreover have "tree_partner n (In_links, 1, 4, 0) = None" by (simp add: tree_partner_def Let_def)
  ultimately have "links_paired ?links (map (\<lambda>(j, k). (Out_links, 0, j, k)) (slots (4 * ?b) 1) @ (Out_links, 0, 4 * ?b, 0) # bs) =
      Inl OutOfBounds" for bs
    by (intro links_paired_fail[where c = "(In_links, 1, 4, 0)" and l = "idle_link (Some (In_links, 1, 4, 0))"]) (simp_all add: idle_link_def)
  then have "links_paired ?links (map fst (tree_outs n)) = Inl OutOfBounds"
    using slots_split[OF less] by (simp add: tree_outs_def split_def o_def)
  then show ?thesis
    using False by (simp add: configure_switches_def wire_out_tree ins_tree links_tree' Let_def)
qed

text \<open>
  Property C32. Switches are configured exactly when the number of switches of the first level, a quarter of the nodes, is a multiple of
  four; then they form the tree of \<open>tree_partner\<close>, and otherwise the test of the wiring follows a pointer outside an array or
  a division by zero comes before it.
\<close>

theorem switches_form_a_tree:
  "configure_switches 3 n = (if 4 dvd n div 4 then Inr (tree_net n) else Inl OutOfBounds)"
proof (cases "4 dvd n div 4")
  case True
  let ?links = "\<lambda>a. map_option idle_link (tree_partner n a)"
  have "n div 4 div 4 \<noteq> 0 \<or> n div 4 = 0" using True by auto
  note w = wire_out_tree[OF this]
  have p: "\<forall>a \<in> set (map fst (tree_outs n)). passes ?links a" "\<forall>a \<in> set (map fst (tree_ins n)). passes ?links a"
    using in_tree[of _ n] tree_passes[OF True] by auto
  have "(In_links, 2, 0, 0) \<in> set (map fst (tree_ins n))" by (simp add: tree_ins_def slots_2_4)
  moreover have "tree_partner n (In_links, 2, 0, 0) = Some (Some (Out_links, 1, 0, 0))" by (simp add: tree_partner_def Let_def)
  ultimately have "\<exists>a \<in> set (map fst (tree_ins n)). \<exists>l. ?links a = Some l \<and> partner_link l \<noteq> None"
    by (intro bexI[of _ "(In_links, 2, 0, 0)"]) (simp_all add: idle_link_def)
  then have "links_paired ?links (map fst (tree_ins n)) = Inr True"
    using links_paired_pass[OF p(2)] by simp
  then show ?thesis
    using True links_paired_pass[OF p(1)] by (simp add: configure_switches_def w ins_tree links_tree' Let_def tree_net_def)
qed (simp add: wide_tree_fails)

section \<open>The way of a message\<close>

definition wired :: "nat \<Rightarrow> eee_net \<Rightarrow> bool" where
  "wired n net \<longleftrightarrow> N_nodes net = n \<and> N_levels net = 3 \<and> switches_per_level net = level_switches n \<and> N_in_links net = level_in 3 n \<and>
     N_out_links net = level_out 3 n \<and> (\<forall>a. map_option partner_link (eee_links net a) = tree_partner n a)"

text \<open>Steps of others leave the wiring as it is.\<close>

definition same_wiring :: "eee_net \<Rightarrow> eee_net \<Rightarrow> bool" where
  "same_wiring net net' \<longleftrightarrow> N_nodes net' = N_nodes net \<and> N_levels net' = N_levels net \<and>
     switches_per_level net' = switches_per_level net \<and> N_in_links net' = N_in_links net \<and> N_out_links net' = N_out_links net \<and>
     (\<forall>a. map_option partner_link (eee_links net' a) = map_option partner_link (eee_links net a))"

lemma wired_tree: "wired n (tree_net n)"
proof -
  have "partner_link \<circ> idle_link = id" by (rule ext) (simp add: idle_link_def)
  then show ?thesis by (simp add: wired_def tree_net_def option.map_comp option.map_id)
qed

lemma wired_same: "wired n net \<Longrightarrow> same_wiring net net' \<Longrightarrow> wired n net'"
  by (simp add: wired_def same_wiring_def)

lemma wired_upd: "wired n net \<Longrightarrow> (\<And>l. partner_link (f l) = partner_link l) \<Longrightarrow> wired n (upd_link a f net)"
  by (auto simp: wired_def upd_link_def option.map_comp o_def)

lemma wired_messages: "wired n net \<Longrightarrow> wired n (net\<lparr>node_messages := c\<rparr>)"
  by (simp add: wired_def)

lemma wired_link: "wired n net \<Longrightarrow> tree_partner n a = Some p \<Longrightarrow> \<exists>l. eee_links net a = Some l \<and> partner_link l = p"
  unfolding wired_def by (metis map_option_eq_Some)

lemma linked: "wired n net \<Longrightarrow> tree_partner n a = Some p \<Longrightarrow> \<exists>l. link_at a net = Inr l \<and> partner_link l = p"
  using wired_link[of n net a p] by (auto simp: link_at_def)

lemma calc_known: "routing_dir m \<in> {EEE_UP, EEE_DOWN} \<Longrightarrow> \<exists>d. eee_calc_nw_bw_lat par m z = Inr d"
  by (auto simp: eee_calc_nw_bw_lat_def Let_def)

lemma bind_link: "wired n net \<Longrightarrow> tree_partner n b = Some c \<Longrightarrow> (\<And>l. partner_link (f l) = partner_link l) \<Longrightarrow>
    bindE (link_at b (upd_link a f net)) (\<lambda>_. k) = k"
  using linked[OF wired_upd[of n net f a]] by fastforce

lemma in_link_answers:
  assumes w: "wired n net" and "tree_partner n a = Some p" and "routing_dir m \<in> {EEE_UP, EEE_DOWN}"
  shows "\<exists>ok d net'. take_in_link par a z now m net = Inr (ok, d, net') \<and> wired n net' \<and> (\<not> ok \<longrightarrow> 0 < d)"
proof -
  obtain l where l: "link_at a net = Inr l" using linked[OF w assms(2)] by blast
  obtain d e where de: "eee_calc_nw_bw_lat par m (eee_frame_header_size par) = Inr d" "eee_calc_nw_bw_lat par m z = Inr e"
    using calc_known[OF assms(3)] by metis
  show ?thesis
  proof (cases "inlink_next_free_time l \<le> now")
    case True
    show ?thesis unfolding take_in_link_def Let_def l de bindE_Inr if_P[OF True]
      by (intro exI conjI, rule refl, rule wired_upd[OF w]) simp_all
  qed (use w in \<open>auto simp: take_in_link_def Let_def l intro: exI[of _ False]\<close>)
qed

lemma out_link_answers:
  assumes w: "wired n net" and "tree_partner n a = Some (Some b)" and "tree_partner n b \<noteq> None"
    and "routing_dir m \<in> {EEE_UP, EEE_DOWN}"
  shows "\<exists>ok d sw net'. take_out_link par a z now m net = Inr (ok, d, sw, net') \<and> wired n net' \<and>
    sw = (if ok then fst (snd (snd b)) else eee_switchid m) \<and> (\<not> ok \<longrightarrow> 0 < d)"
proof -
  obtain l where l: "link_at a net = Inr l" "partner_link l = Some b" using linked[OF w assms(2)] by blast
  obtain c where c: "tree_partner n b = Some c" using assms(3) by blast
  obtain d e where de: "eee_calc_nw_bw_lat par m (eee_frame_header_size par) = Inr d" "eee_calc_nw_bw_lat par m z = Inr e"
    using calc_known[OF assms(4)] by metis
  show ?thesis
  proof (cases "outlink_next_free_time l \<le> now")
    case True
    show ?thesis unfolding take_out_link_def Let_def l de bindE_Inr if_P[OF True] option.case
      by (subst bind_link[OF w c], simp, intro exI conjI, rule refl, (rule wired_upd)+, rule w) simp_all
  qed (use w in \<open>auto simp: take_out_link_def Let_def l intro: exI[of _ False]\<close>)
qed

lemma down_link_answers:
  assumes w: "wired n net" and "tree_partner n a = Some p" and "current_level m \<noteq> 0 \<longrightarrow> (\<exists>b. p = Some b \<and> tree_partner n b \<noteq> None)"
    and "routing_dir m \<in> {EEE_UP, EEE_DOWN}"
  shows "\<exists>ok d sw net'. take_down_link par a z now m net = Inr (ok, d, sw, net') \<and> wired n net' \<and>
    sw = (if ok \<and> current_level m \<noteq> 0 then fst (snd (snd (the p))) else eee_switchid m) \<and> (\<not> ok \<longrightarrow> 0 < d)"
proof -
  obtain l where l: "link_at a net = Inr l" "partner_link l = p" using linked[OF w assms(2)] by blast
  obtain d e where de: "eee_calc_nw_bw_lat par m (eee_frame_header_size par) = Inr d" "eee_calc_nw_bw_lat par m z = Inr e"
    using calc_known[OF assms(4)] by metis
  show ?thesis
  proof (cases "outlink_next_free_time l \<le> now")
    case free: True
    show ?thesis
    proof (cases "current_level m = 0")
      case True
      show ?thesis unfolding take_down_link_def Let_def l de bindE_Inr if_P[OF free] if_P[OF True]
        by (intro exI conjI, rule refl, rule wired_upd[OF w]) (simp_all add: True)
    next
      case False
      then obtain b c where b: "p = Some b" "tree_partner n b = Some c" using assms(3) by blast
      show ?thesis unfolding take_down_link_def Let_def l de bindE_Inr if_P[OF free] if_not_P[OF False] b(1) option.case
        by (subst bind_link[OF w b(2)], simp, intro exI conjI, rule refl, (rule wired_upd)+, rule w) (simp_all add: False)
    qed
  qed (use w in \<open>auto simp: take_down_link_def Let_def l intro: exI[of _ False]\<close>)
qed

text \<open>
  In a tree of \<open>16 * m\<close> nodes a switch of level 0 has 4 of them, one of level 1 \<open>4 * m\<close>, and the two of level 2 all. A message
  from \<open>s\<close> to \<open>r\<close> turns around at the lowest level where both are below the same switch.
\<close>

definition nodes_below :: "nat \<Rightarrow> nat \<Rightarrow> nat" where
  "nodes_below m l = (if l = 0 then 4 else if l = 1 then 4 * m else 16 * m)"

definition meeting_level :: "nat \<Rightarrow> nat \<Rightarrow> nat \<Rightarrow> nat" where
  "meeting_level m s r = (if s div 4 = r div 4 then 0 else if s div (4 * m) = r div (4 * m) then 1 else 2)"

definition up_switch :: "nat \<Rightarrow> nat \<Rightarrow> nat \<Rightarrow> nat \<Rightarrow> nat" where
  "up_switch m s r l = (if l = 0 then s div 4 else if l = 1 then s div (4 * m) else r mod 2)"

definition down_switch :: "nat \<Rightarrow> nat \<Rightarrow> nat \<Rightarrow> nat" where
  "down_switch m r l = (if l = 0 then r div 4 else if l = 1 then r div (4 * m) else r mod 2)"

definition up_link :: "nat \<Rightarrow> nat \<Rightarrow> nat" where
  "up_link r l = (if l = 0 then 0 else r mod 2)"

definition down_link :: "nat \<Rightarrow> nat \<Rightarrow> nat \<Rightarrow> nat" where
  "down_link m r l = (if l = 0 then r mod 4 else if l = 1 then r div 4 mod m else r div (4 * m))"

lemma meeting_le: "meeting_level m s r \<le> 2"
  by (simp add: meeting_level_def)

lemma tree_facts:
  assumes "0 < m"
  shows "level_switches (16 * m) 0 = 4 * m" "16 * m div (4 * m) = 4"
    "level_in 3 (16 * m) 0 = 4" "level_in 3 (16 * m) (Suc 0) = m" "level_in 3 (16 * m) 2 = 4"
  using assms by (simp_all add: level_facts)

lemma tree_links:
  assumes "0 < m"
  shows "j < 4 * m \<Longrightarrow> k < 4 \<Longrightarrow> tree_partner (16 * m) (In_links, 0, j, k) = Some None"
    "j < 4 * m \<Longrightarrow> tree_partner (16 * m) (Out_links, 0, j, 0) = Some (Some (In_links, 1, j div m, j mod m))"
    "j < 4 \<Longrightarrow> k < 2 \<Longrightarrow> tree_partner (16 * m) (Out_links, Suc 0, j, k) = Some (Some (In_links, 2, k, j))"
    "j < 4 \<Longrightarrow> k < m \<Longrightarrow> tree_partner (16 * m) (In_links, Suc 0, j, k) = Some (Some (Out_links, 0, j * m + k, 0))"
    "j < 2 \<Longrightarrow> k < 4 \<Longrightarrow> tree_partner (16 * m) (In_links, 2, j, k) = Some (Some (Out_links, 1, k, j))"
  using assms by (simp_all add: tree_partner_def Let_def)

lemma below:
  fixes m s :: nat
  assumes "0 < m" "s < 16 * m"
  shows "s div 4 < 4 * m" "s div (4 * m) < 4" "s div 4 div m = s div (4 * m)" "s div 4 mod m < m"
    "s div (4 * m) * m + s div 4 mod m = s div 4" "s div (16 * m) = 0"
proof -
  show a: "s div 4 < 4 * m" "s div (4 * m) < 4" using assms by (auto simp: less_mult_imp_div_less)
  show b: "s div 4 div m = s div (4 * m)" by (simp add: div_mult2_eq)
  show "s div 4 mod m < m" using assms by simp
  show "s div (4 * m) * m + s div 4 mod m = s div 4" unfolding b[symmetric] by (rule div_mult_mod_eq)
  show "s div (16 * m) = 0" using assms by simp
qed

lemma apart: "0 < m \<Longrightarrow> s < 16 * m \<Longrightarrow> r < 16 * m \<Longrightarrow> l \<le> meeting_level m s r \<Longrightarrow>
    s div nodes_below m l = r div nodes_below m l \<longleftrightarrow> l = meeting_level m s r"
  using below(6)[of m s] below(6)[of m r]
  by (auto simp: nodes_below_def meeting_level_def le_Suc_eq numeral_2_eq_2 split: if_splits)

lemma at_the_top: "0 < m \<Longrightarrow> s < 16 * m \<Longrightarrow> r < 16 * m \<Longrightarrow> up_switch m s r (meeting_level m s r) = down_switch m r (meeting_level m s r)"
  by (simp add: up_switch_def down_switch_def meeting_level_def)

lemma level_cases: "l \<le> 2 \<Longrightarrow> l = 0 \<or> l = Suc 0 \<or> l = 2" for l :: nat
  by auto

lemma div_function_below: "0 < m \<Longrightarrow> wired (16 * m) net \<Longrightarrow> l \<le> 2 \<Longrightarrow> div_function net (int l) = nodes_below m l"
proof -
  assume a: "0 < m" "wired (16 * m) net" "l \<le> 2"
  have n: "nat (1 + 1) = 2" "nat (0 + 1) = 1" "nat (2 + 1) = 3" by simp_all
  have i: "N_in_links net 0 = 4" "N_in_links net (Suc 0) = m" "N_in_links net 2 = 4"
    using a(2) tree_facts[OF a(1)] by (simp_all add: wired_def)
  show ?thesis
    using level_cases[OF a(3)] i by (elim disjE) (simp_all add: div_function_def nodes_below_def n levels3 upt_rec numeral_2_eq_2)
qed

lemma route_down:
  assumes "0 < m" "wired (16 * m) net" "r < 16 * m" "l \<le> 2"
    and msg: "current_level msg = int l" "routing_dir msg = EEE_DOWN" "eee_switchid msg = down_switch m r l"
  shows "next_link (int r) msg net = Inr (down_link m r l)"
proof -
  note b = below[OF assms(1,3)]
  have net: "N_nodes net div switches_per_level net 0 = 4" "switches_per_level net 0 \<noteq> 0" "N_in_links net (Suc 0) = m" "N_in_links net 2 = 4"
    using assms(2) tree_facts[OF assms(1)] assms(1) by (simp_all add: wired_def)
  have d: "EEE_DOWN \<noteq> EEE_UP" by (simp add: EEE_UP_def EEE_DOWN_def)
  have f: "div_function net 0 = 4" "div_function net 1 = 4 * m"
    using div_function_below[OF assms(1,2), of 0] div_function_below[OF assms(1,2), of 1] by (simp_all add: nodes_below_def)
  consider "l = 0" | "l = Suc 0" | "l = 2" using level_cases[OF assms(4)] by blast
  then show ?thesis
  proof cases
    case 1
    then show ?thesis using msg d net by (simp add: next_link_def down_link_def)
  next
    case 2
    obtain k where "link_at (In_links, Suc 0, r div (4 * m), r div 4 mod m) net = Inr k"
        "partner_link k = Some (Out_links, 0, r div (4 * m) * m + r div 4 mod m, 0)"
      using linked[OF assms(2) tree_links(4)[OF assms(1) b(2,4)]] by blast
    then show ?thesis using 2 msg d net f assms(1) b(5) by (simp add: next_link_def down_link_def down_switch_def Let_def)
  next
    case 3
    obtain k where "link_at (In_links, 2, r mod 2, r div (4 * m)) net = Inr k" "partner_link k = Some (Out_links, 1, r div (4 * m), r mod 2)"
      using linked[OF assms(2) tree_links(5)[OF assms(1) _ b(2), of "r mod 2"]] by auto
    then show ?thesis using 3 msg d net f assms(1) b(2) by (simp add: next_link_def down_link_def down_switch_def Let_def)
  qed
qed

inductive on_way :: "nat \<Rightarrow> nat \<Rightarrow> nat \<Rightarrow> nat \<Rightarrow> eee_msg \<Rightarrow> bool" for m s r where
  at_node: "\<lbrakk>\<not> eee_send_done msg; \<not> eee_done_reset_var msg; current_level msg = - 1; \<not> link_transmit_done msg; nw_switch_done msg\<rbrakk>
    \<Longrightarrow> on_way m s r 0 msg"
| came_up: "\<lbrakk>\<not> eee_send_done msg; \<not> eee_done_reset_var msg; current_level msg = int l; link_transmit_done msg; \<not> nw_switch_done msg;
    routing_dir msg = EEE_UP; eee_switchid msg = up_switch m s r l; l \<le> meeting_level m s r\<rbrakk> \<Longrightarrow> on_way m s r (2 * l + 1) msg"
| goes_up: "\<lbrakk>\<not> eee_send_done msg; \<not> eee_done_reset_var msg; current_level msg = int l; \<not> link_transmit_done msg; nw_switch_done msg;
    routing_dir msg = EEE_UP; eee_switchid msg = up_switch m s r l; eee_linkid msg = up_link r l; l < meeting_level m s r\<rbrakk>
    \<Longrightarrow> on_way m s r (2 * l + 2) msg"
| goes_down: "\<lbrakk>\<not> eee_send_done msg; \<not> eee_done_reset_var msg; current_level msg = int l; \<not> link_transmit_done msg; nw_switch_done msg;
    routing_dir msg = EEE_DOWN; eee_switchid msg = down_switch m r l; eee_linkid msg = down_link m r l; l \<le> meeting_level m s r\<rbrakk>
    \<Longrightarrow> on_way m s r (4 * meeting_level m s r + 2 - 2 * l) msg"
| came_down: "\<lbrakk>\<not> eee_send_done msg; \<not> eee_done_reset_var msg; current_level msg = int l; link_transmit_done msg; \<not> nw_switch_done msg;
    routing_dir msg = EEE_DOWN; eee_switchid msg = down_switch m r l; l < meeting_level m s r\<rbrakk>
    \<Longrightarrow> on_way m s r (4 * meeting_level m s r + 1 - 2 * l) msg"

definition arrived :: "nat \<Rightarrow> eee_msg \<Rightarrow> bool" where
  "arrived r msg \<longleftrightarrow> eee_send_done msg \<and> eee_done_reset_var msg \<and> current_level msg = - 1 \<and> eee_switchid msg = r div 4 \<and> eee_linkid msg = r mod 4"

text \<open>A call moves a message on or tells it to wait.\<close>

definition moved :: "eee_msg \<Rightarrow> eee_msg \<Rightarrow> bool" where
  "moved msg msg' \<longleftrightarrow> current_level msg' \<noteq> current_level msg \<or> link_transmit_done msg' \<noteq> link_transmit_done msg"

definition steps_to :: "nat \<Rightarrow> nat \<Rightarrow> nat \<Rightarrow> nat \<Rightarrow> eee_msg \<Rightarrow> real \<Rightarrow> eee_msg \<Rightarrow> bool" where
  "steps_to m s r k msg d msg' \<longleftrightarrow>
     moved msg msg' \<and> (if k = 4 * meeting_level m s r + 2 then arrived r msg' else on_way m s r (k + 1) msg') \<or>
     \<not> moved msg msg' \<and> on_way m s r k msg' \<and> 0 < d"

lemma dirs: "EEE_UP \<noteq> EEE_DOWN" "EEE_DOWN \<noteq> EEE_UP"
  by (simp_all add: EEE_UP_def EEE_DOWN_def)

definition routable :: "nat \<Rightarrow> nat \<Rightarrow> nat \<Rightarrow> eee_par \<Rightarrow> eee_net \<Rightarrow> bool" where
  "routable m s r par net \<longleftrightarrow> 0 < m \<and> wired (16 * m) net \<and> s < 16 * m \<and> r < 16 * m \<and> s \<noteq> r \<and> 0 \<le> eee_frame_header_size par"

lemma routableD:
  assumes "routable m s r par net"
  shows "0 < m" "wired (16 * m) net" "s < 16 * m" "r < 16 * m" "s \<noteq> r" "0 \<le> eee_frame_header_size par"
  using assms by (simp_all add: routable_def)

abbreviation answers :: "nat \<Rightarrow> nat \<Rightarrow> nat \<Rightarrow> eee_par \<Rightarrow> eee_net \<Rightarrow> int \<Rightarrow> real \<Rightarrow> nat \<Rightarrow> eee_msg \<Rightarrow> bool" where
  "answers m s r par net z now k msg \<equiv> \<exists>d msg' net'. eee_send par (int s) (int r) z now (msg, net) = Inr (Some d, msg', net') \<and>
     wired (16 * m) net' \<and> steps_to m s r k msg d msg'"

lemma net_facts:
  assumes "routable m s r par net"
  shows "N_levels net = 3" "N_nodes net div switches_per_level net 0 = 4" "switches_per_level net 0 \<noteq> 0"
    "N_out_links net 0 = 1" "N_out_links net (Suc 0) = 2"
  using routableD(1,2)[OF assms] tree_facts[OF routableD(1)[OF assms]] by (simp_all add: wired_def level_facts)

lemma at_node_answers:
  assumes rt: "routable m s r par net"
    and "\<not> eee_send_done msg" "\<not> eee_done_reset_var msg" "current_level msg = - 1" "\<not> link_transmit_done msg" "nw_switch_done msg"
  shows "answers m s r par net z now 0 msg"
proof -
  note tree = routableD[OF rt]
  let ?m = "msg\<lparr>routing_dir := EEE_UP, eee_switchid := s div 4, eee_linkid := s mod 4, messages_in_flight := messages_in_flight msg + 1\<rparr>"
  let ?net = "net\<lparr>node_messages := (node_messages net)(int s := node_messages net (int s) + 1, int r := node_messages net (int r) + 1)\<rparr>"
  have "\<exists>ok d net'. take_in_link par (In_links, 0, s div 4, s mod 4) z now ?m ?net = Inr (ok, d, net') \<and>
      wired (16 * m) net' \<and> (\<not> ok \<longrightarrow> 0 < d)"
    by (rule in_link_answers[OF wired_messages[OF tree(2)] tree_links(1)[OF tree(1) below(1)[OF tree(1,3)]]]) simp_all
  then obtain ok d net' where t: "take_in_link par (In_links, 0, s div 4, s mod 4) z now ?m ?net = Inr (ok, d, net')"
      "wired (16 * m) net'" "\<not> ok \<longrightarrow> 0 < d"
    by blast
  have e: "eee_send par (int s) (int r) z now (msg, net) = Inr (Some d,
      (if ok then ?m\<lparr>current_level := 0, link_transmit_done := True, nw_switch_done := False\<rparr>
       else ?m\<lparr>link_transmit_done := False, nw_switch_done := True\<rparr>)\<lparr>eee_doing_startup := True, eee_startup_done := False, eee_loose_cpu := False\<rparr>, net')"
    using assms t(1) tree(5,6) net_facts[OF rt]
    by (cases ok) (simp_all add: eee_send_def eee_network_def link_transmit_def after_transmit_def Let_def nat_div_distrib dirs)
  show ?thesis
  proof (cases ok)
    case True
    have "on_way m s r (2 * 0 + 1) (?m\<lparr>current_level := 0, link_transmit_done := True, nw_switch_done := False,
        eee_doing_startup := True, eee_startup_done := False, eee_loose_cpu := False\<rparr>)"
      using assms by (intro came_up) (simp_all add: up_switch_def)
    then show ?thesis using e t True assms by (simp add: steps_to_def moved_def)
  next
    case False
    then show ?thesis using e t assms by (simp add: steps_to_def moved_def on_way.at_node)
  qed
qed

lemma came_up_answers:
  assumes rt: "routable m s r par net"
    and msg: "\<not> eee_send_done msg" "\<not> eee_done_reset_var msg" "current_level msg = int l" "link_transmit_done msg" "\<not> nw_switch_done msg"
    "routing_dir msg = EEE_UP" "eee_switchid msg = up_switch m s r l" and l: "l \<le> meeting_level m s r"
  shows "answers m s r par net z now (2 * l + 1) msg"
proof -
  note tree = routableD[OF rt]
  show ?thesis
  proof (cases "l = meeting_level m s r")
    case True
    let ?m = "msg\<lparr>routing_dir := EEE_DOWN\<rparr>"
    have l2: "l \<le> 2" using True meeting_le by simp
    have "next_link (int r) ?m net = Inr (down_link m r l)"
      using msg at_the_top[OF tree(1,3,4)] True by (intro route_down[OF tree(1,2,4) l2]) simp_all
    moreover have "s div nodes_below m l = r div nodes_below m l" "nodes_below m l \<noteq> 0"
      using apart[OF tree(1,3,4) l] True tree(1) by (simp_all add: nodes_below_def)
    ultimately have "eee_send par (int s) (int r) z now (msg, net) = Inr (Some (T_eee_hop_lat par l),
        ?m\<lparr>eee_linkid := down_link m r l, nw_switch_done := True, link_transmit_done := False,
          eee_doing_startup := True, eee_startup_done := False, eee_loose_cpu := False\<rparr>, net)"
      using msg net_facts[OF rt] div_function_below[OF tree(1,2) l2] div_function_below[OF tree(1,2), of 2, simplified] l2
      by (cases "l = 2") (simp_all add: eee_send_def eee_network_def nw_switch_def turn_around_def Let_def dirs)
    moreover have "on_way m s r (4 * meeting_level m s r + 2 - 2 * l) (?m\<lparr>eee_linkid := down_link m r l, nw_switch_done := True,
        link_transmit_done := False, eee_doing_startup := True, eee_startup_done := False, eee_loose_cpu := False\<rparr>)"
      using msg at_the_top[OF tree(1,3,4)] True by (intro on_way.goes_down) simp_all
    ultimately show ?thesis using msg tree(2) True by (simp add: steps_to_def moved_def)
  next
    case False
    then have l2: "l < 2" using meeting_le[of m s r] l by simp
    have "s div nodes_below m l \<noteq> r div nodes_below m l" "nodes_below m l \<noteq> 0"
      using apart[OF tree(1,3,4) l] False tree(1) by (simp_all add: nodes_below_def)
    moreover have "next_link (int r) msg net = Inr (up_link r l)"
      using msg l2 net_facts[OF rt] by (auto simp: next_link_def up_link_def Let_def less_2_cases_iff)
    ultimately have "eee_send par (int s) (int r) z now (msg, net) = Inr (Some (T_eee_hop_lat par l),
        msg\<lparr>eee_linkid := up_link r l, nw_switch_done := True, link_transmit_done := False,
          eee_doing_startup := True, eee_startup_done := False, eee_loose_cpu := False\<rparr>, net)"
      using msg net_facts[OF rt] div_function_below[OF tree(1,2), of l] l2
      by (simp add: eee_send_def eee_network_def nw_switch_def turn_around_def Let_def dirs)
    moreover have "on_way m s r (2 * l + 2) (msg\<lparr>eee_linkid := up_link r l, nw_switch_done := True, link_transmit_done := False,
          eee_doing_startup := True, eee_startup_done := False, eee_loose_cpu := False\<rparr>)"
      using msg False l by (intro on_way.goes_up) simp_all
    ultimately show ?thesis using msg tree(2) False l by (simp add: steps_to_def moved_def)
  qed
qed

lemma goes_up_answers:
  assumes rt: "routable m s r par net"
    and msg: "\<not> eee_send_done msg" "\<not> eee_done_reset_var msg" "current_level msg = int l" "\<not> link_transmit_done msg" "nw_switch_done msg"
    "routing_dir msg = EEE_UP" "eee_switchid msg = up_switch m s r l" "eee_linkid msg = up_link r l" and l: "l < meeting_level m s r"
  shows "answers m s r par net z now (2 * l + 2) msg"
proof -
  note tree = routableD[OF rt]
  have l2: "l < 2" using meeting_le[of m s r] l by simp
  note b = below[OF tree(1,3)]
  have "\<exists>e. tree_partner (16 * m) (Out_links, l, up_switch m s r l, up_link r l) = Some (Some e) \<and> tree_partner (16 * m) e \<noteq> None \<and>
      fst (snd (snd e)) = up_switch m s r (Suc l)"
  proof (cases "l = 0")
    case True
    then show ?thesis using tree_links(2,4)[OF tree(1)] b(1-5) by (simp add: up_switch_def up_link_def)
  next
    case False
    then have "l = Suc 0" using l2 by simp
    then show ?thesis
      using tree_links(3)[OF tree(1) b(2), of "r mod 2"] tree_links(5)[OF tree(1) _ b(2), of "r mod 2"]
      by (simp add: up_switch_def up_link_def)
  qed
  then obtain e where e: "tree_partner (16 * m) (Out_links, l, up_switch m s r l, up_link r l) = Some (Some e)"
      "tree_partner (16 * m) e \<noteq> None" "fst (snd (snd e)) = up_switch m s r (Suc l)" by blast
  have "\<exists>ok d sw net'. take_out_link par (Out_links, l, up_switch m s r l, up_link r l) z now msg net = Inr (ok, d, sw, net') \<and>
      wired (16 * m) net' \<and> sw = (if ok then fst (snd (snd e)) else eee_switchid msg) \<and> (\<not> ok \<longrightarrow> 0 < d)"
    by (rule out_link_answers[OF tree(2) e(1,2)]) (simp add: msg)
  then obtain ok d net' where t: "take_out_link par (Out_links, l, up_switch m s r l, up_link r l) z now msg net =
        Inr (ok, d, if ok then up_switch m s r (Suc l) else up_switch m s r l, net')" "wired (16 * m) net'" "\<not> ok \<longrightarrow> 0 < d"
    unfolding e(3) msg(7) by blast
  let ?next = "(if ok then msg\<lparr>eee_switchid := up_switch m s r (Suc l), current_level := int (Suc l), link_transmit_done := True, nw_switch_done := False\<rparr>
      else msg\<lparr>eee_switchid := up_switch m s r l, link_transmit_done := False, nw_switch_done := True\<rparr>)
      \<lparr>eee_doing_startup := True, eee_startup_done := False, eee_loose_cpu := False\<rparr>"
  have "eee_send par (int s) (int r) z now (msg, net) = Inr (Some d, ?next, net')"
    using msg t(1) tree(6) net_facts[OF rt] l2
    by (cases ok) (simp_all add: eee_send_def eee_network_def link_transmit_def after_transmit_def Let_def dirs)
  moreover have "on_way m s r (2 * Suc l + 1) ?next" if ok
    using msg that l by (intro came_up) simp_all
  moreover have "on_way m s r (2 * l + 2) ?next" if "\<not> ok"
    using msg that l by (intro on_way.goes_up) simp_all
  ultimately show ?thesis using msg t(2,3) l by (cases ok) (simp_all add: steps_to_def moved_def)
qed

lemma goes_down_answers:
  assumes rt: "routable m s r par net"
    and msg: "\<not> eee_send_done msg" "\<not> eee_done_reset_var msg" "current_level msg = int l" "\<not> link_transmit_done msg" "nw_switch_done msg"
    "routing_dir msg = EEE_DOWN" "eee_switchid msg = down_switch m r l" "eee_linkid msg = down_link m r l" and l: "l \<le> meeting_level m s r"
  shows "answers m s r par net z now (4 * meeting_level m s r + 2 - 2 * l) msg"
proof -
  note tree = routableD[OF rt]
  have l2: "l \<le> 2" using meeting_le[of m s r] l by simp
  note b = below[OF tree(1,4)]
  have same: "msg\<lparr>routing_dir := EEE_DOWN\<rparr> = msg" by (cases msg) (use msg(6) in simp)
  let ?a = "(In_links, l, down_switch m r l, down_link m r l)"
  have "\<exists>p. tree_partner (16 * m) ?a = Some p \<and> (l \<noteq> 0 \<longrightarrow> (\<exists>e. p = Some e \<and> tree_partner (16 * m) e \<noteq> None \<and>
      fst (snd (snd e)) = down_switch m r (l - 1)))"
    using level_cases[OF l2]
  proof (elim disjE)
    assume "l = 0"
    then show ?thesis using tree_links(1)[OF tree(1) b(1), of "r mod 4"] by (simp add: down_switch_def down_link_def)
  next
    assume "l = Suc 0"
    then show ?thesis using tree_links(4)[OF tree(1) b(2,4)] tree_links(2)[OF tree(1) b(1)] b(5)
      by (simp add: down_switch_def down_link_def)
  next
    assume "l = 2"
    then show ?thesis
      using tree_links(3)[OF tree(1) b(2), of "r mod 2"] tree_links(5)[OF tree(1) _ b(2), of "r mod 2"]
      by (simp add: down_switch_def down_link_def)
  qed
  then obtain p where p: "tree_partner (16 * m) ?a = Some p"
      "l \<noteq> 0 \<longrightarrow> (\<exists>e. p = Some e \<and> tree_partner (16 * m) e \<noteq> None \<and> fst (snd (snd e)) = down_switch m r (l - 1))" by blast
  have "\<exists>ok d sw net'. take_down_link par ?a z now msg net = Inr (ok, d, sw, net') \<and> wired (16 * m) net' \<and>
      sw = (if ok \<and> current_level msg \<noteq> 0 then fst (snd (snd (the p))) else eee_switchid msg) \<and> (\<not> ok \<longrightarrow> 0 < d)"
    by (rule down_link_answers[OF tree(2) p(1)]) (use p(2) in \<open>auto simp: msg(3,6)\<close>)
  then obtain ok d sw net' where k: "take_down_link par ?a z now msg net = Inr (ok, d, sw, net')" "wired (16 * m) net'"
      "sw = (if ok \<and> current_level msg \<noteq> 0 then fst (snd (snd (the p))) else eee_switchid msg)" "\<not> ok \<longrightarrow> 0 < d" by blast
  have "sw = (if ok then down_switch m r (l - 1) else down_switch m r l)"
    using p(2) msg(3,7) unfolding k(3) by auto
  note t = k(1)[unfolded this] k(2,4)
  show ?thesis
  proof (cases ok)
    case False
    have "eee_send par (int s) (int r) z now (msg, net) = Inr (Some d, msg\<lparr>eee_switchid := down_switch m r l, link_transmit_done := False,
        nw_switch_done := True, eee_doing_startup := True, eee_startup_done := False, eee_loose_cpu := False\<rparr>, net')"
      using msg t(1) tree(6) net_facts[OF rt] False
      by (cases "l = 2") (simp_all add: same eee_send_def eee_network_def link_transmit_def after_transmit_def Let_def dirs)
    moreover have "on_way m s r (4 * meeting_level m s r + 2 - 2 * l) (msg\<lparr>eee_switchid := down_switch m r l, link_transmit_done := False,
        nw_switch_done := True, eee_doing_startup := True, eee_startup_done := False, eee_loose_cpu := False\<rparr>)"
      using msg l by (intro on_way.goes_down) simp_all
    ultimately show ?thesis using msg t(2,3) False by (simp add: steps_to_def moved_def)
  next
    case ok: True
    show ?thesis
    proof (cases l)
      case 0
      have "eee_send par (int s) (int r) z now (msg, net) = Inr (Some d, msg\<lparr>eee_switchid := down_switch m r 0, current_level := - 1,
          eee_send_done := True, link_transmit_done := True, nw_switch_done := False, eee_done_reset_var := True\<rparr>, net')"
        using msg t(1) tree(6) net_facts[OF rt] ok 0
        by (simp add: eee_send_def eee_network_def link_transmit_def after_transmit_def Let_def dirs)
      then show ?thesis using msg t(2) 0
        by (simp add: steps_to_def moved_def arrived_def down_switch_def down_link_def)
    next
      case (Suc l')
      let ?next = "msg\<lparr>eee_switchid := down_switch m r l', current_level := int l', link_transmit_done := True, nw_switch_done := False,
          eee_doing_startup := True, eee_startup_done := False, eee_loose_cpu := False\<rparr>"
      have nat_level: "nat (1 + int l') = Suc l'" by simp
      have "eee_send par (int s) (int r) z now (msg, net) = Inr (Some d, ?next, net')"
        using msg t(1) tree(6) net_facts[OF rt] ok Suc nat_level
        by (cases "l' = 1") (simp_all add: same numeral_2_eq_2 eee_send_def eee_network_def link_transmit_def after_transmit_def Let_def dirs)
      moreover have "on_way m s r (4 * meeting_level m s r + 1 - 2 * l') ?next"
        using msg Suc l by (intro on_way.came_down) simp_all
      moreover have "4 * meeting_level m s r + 2 - 2 * l + 1 = 4 * meeting_level m s r + 1 - 2 * l'"
          "4 * meeting_level m s r + 2 - 2 * l \<noteq> 4 * meeting_level m s r + 2"
        using Suc l by simp_all
      ultimately show ?thesis using msg t(2) Suc l by (simp add: steps_to_def moved_def)
    qed
  qed
qed

lemma came_down_answers:
  assumes rt: "routable m s r par net"
    and msg: "\<not> eee_send_done msg" "\<not> eee_done_reset_var msg" "current_level msg = int l" "link_transmit_done msg" "\<not> nw_switch_done msg"
    "routing_dir msg = EEE_DOWN" "eee_switchid msg = down_switch m r l" and l: "l < meeting_level m s r"
  shows "answers m s r par net z now (4 * meeting_level m s r + 1 - 2 * l) msg"
proof -
  note tree = routableD[OF rt]
  have l2: "l < 2" using meeting_le[of m s r] l by simp
  have "next_link (int r) msg net = Inr (down_link m r l)"
    using msg l2 by (intro route_down[OF tree(1,2,4)]) simp_all
  moreover have "s div nodes_below m l \<noteq> r div nodes_below m l" "nodes_below m l \<noteq> 0"
    using apart[OF tree(1,3,4), of l] l tree(1) by (simp_all add: nodes_below_def)
  ultimately have "eee_send par (int s) (int r) z now (msg, net) = Inr (Some (T_eee_hop_lat par l),
      msg\<lparr>eee_linkid := down_link m r l, nw_switch_done := True, link_transmit_done := False,
        eee_doing_startup := True, eee_startup_done := False, eee_loose_cpu := False\<rparr>, net)"
    using msg net_facts[OF rt] div_function_below[OF tree(1,2), of l] l2
    by (simp add: eee_send_def eee_network_def nw_switch_def turn_around_def Let_def dirs)
  moreover have "on_way m s r (4 * meeting_level m s r + 2 - 2 * l) (msg\<lparr>eee_linkid := down_link m r l, nw_switch_done := True,
      link_transmit_done := False, eee_doing_startup := True, eee_startup_done := False, eee_loose_cpu := False\<rparr>)"
    using msg l by (intro on_way.goes_down) simp_all
  moreover have "4 * meeting_level m s r + 1 - 2 * l + 1 = 4 * meeting_level m s r + 2 - 2 * l"
    "4 * meeting_level m s r + 1 - 2 * l \<noteq> 4 * meeting_level m s r + 2" using l by simp_all
  ultimately show ?thesis using msg tree(2) l by (simp add: steps_to_def moved_def)
qed

lemma call_answers: "on_way m s r k msg \<Longrightarrow> routable m s r par net \<Longrightarrow> answers m s r par net z now k msg"
  by (induction rule: on_way.induct)
    (blast intro: at_node_answers came_up_answers goes_up_answers goes_down_answers came_down_answers)+

lemma on_way_bound: "on_way m s r k msg \<Longrightarrow> k \<le> 4 * meeting_level m s r + 2 \<and> \<not> eee_send_done msg"
  by (induction rule: on_way.induct) auto

text \<open>A run of calls of one message, with the steps of others between them; the number counts the calls that moved it.\<close>

inductive eee_course :: "eee_par \<Rightarrow> int \<Rightarrow> int \<Rightarrow> int \<Rightarrow> eee_msg \<times> eee_net \<Rightarrow> nat \<Rightarrow> eee_msg \<times> eee_net \<Rightarrow> bool" for par s r z st where
  start: "eee_course par s r z st 0 st"
| others: "eee_course par s r z st k (msg, net) \<Longrightarrow> same_wiring net net' \<Longrightarrow> eee_course par s r z st k (msg, net')"
| call: "eee_course par s r z st k (msg, net) \<Longrightarrow> eee_send par s r z now (msg, net) = Inr (Some d, msg', net') \<Longrightarrow>
    eee_course par s r z st (if moved msg msg' then k + 1 else k) (msg', net')"

lemma done_returns: "arrived r msg \<Longrightarrow> eee_send par s' r' z now (msg, net) \<noteq> Inr (Some d, x)"
  by (simp add: arrived_def eee_send_def)

lemma course_on_way:
  assumes "eee_course par (int s) (int r) z st k (msg, net)" "0 < m" "wired (16 * m) (snd st)" "on_way m s r 0 (fst st)"
    and "s < 16 * m" "r < 16 * m" "s \<noteq> r" "0 \<le> eee_frame_header_size par"
  shows "wired (16 * m) net \<and> (if k = 4 * meeting_level m s r + 3 then arrived r msg else on_way m s r k msg)"
  using assms(1)
proof (induction k "(msg, net)" arbitrary: msg net rule: eee_course.induct)
  case start
  then show ?case using assms(3,4) by simp
next
  case (others k msg net net')
  then show ?case using wired_same by blast
next
  case (call k msg net now d msg' net')
  have not_yet: "k \<noteq> 4 * meeting_level m s r + 3" using call done_returns by metis
  then have w: "on_way m s r k msg" "wired (16 * m) net" using call by simp_all
  have "wired (16 * m) net' \<and> steps_to m s r k msg d msg'"
    using call_answers[OF w(1), of par net z now] w(2) assms(2,5-8) call by (auto simp: routable_def)
  then show ?case using not_yet w(1) by (auto simp: steps_to_def split: if_splits)
qed

definition ready_to_go :: "eee_msg \<Rightarrow> bool" where
  "ready_to_go msg \<longleftrightarrow> \<not> eee_send_done msg \<and> \<not> eee_done_reset_var msg \<and> current_level msg = - 1 \<and>
     \<not> link_transmit_done msg \<and> nw_switch_done msg"

text \<open>
  Property C33. In a network of \<open>16 * m\<close> nodes a message between two nodes gets there, whatever the clock says at its calls and whatever other
  messages do to the links between them: no call ends in one of the errors, each call moves the message on or tells it to wait for a
  positive time, it is there after exactly \<open>4 * h + 3\<close> calls that moved it, \<open>h\<close> the level of the lowest common switch, and then it has
  come over the link of its node.
\<close>

theorem messages_arrive:
  assumes "configure_switches 3 (16 * m) = Inr net\<^sub>0" and "ready_to_go msg\<^sub>0"
    and "s < 16 * m" "r < 16 * m" "s \<noteq> r" "0 \<le> eee_frame_header_size par"
    and "eee_course par (int s) (int r) z (msg\<^sub>0, net\<^sub>0) k (msg, net)"
  shows "(eee_send_done msg \<longleftrightarrow> k = 4 * meeting_level m s r + 3) \<and> k \<le> 4 * meeting_level m s r + 3 \<and>
    (if eee_send_done msg then eee_switchid msg = r div 4 \<and> eee_linkid msg = r mod 4
     else \<exists>d msg' net'. eee_send par (int s) (int r) z now (msg, net) = Inr (Some d, msg', net') \<and> (moved msg msg' \<or> 0 < d))"
proof -
  have m: "0 < m" using assms(3) by (cases m) simp_all
  have "net\<^sub>0 = tree_net (16 * m)" using assms(1) switches_form_a_tree[of "16 * m"] by simp
  then have "wired (16 * m) net \<and> (if k = 4 * meeting_level m s r + 3 then arrived r msg else on_way m s r k msg)"
    using assms(2) by (intro course_on_way[OF assms(7) m _ _ assms(3-6)]) (auto simp: wired_tree ready_to_go_def intro: on_way.at_node)
  then consider "k = 4 * meeting_level m s r + 3" "arrived r msg" | "k \<noteq> 4 * meeting_level m s r + 3" "on_way m s r k msg" "wired (16 * m) net"
    by (auto split: if_splits)
  then show ?thesis
  proof cases
    case 1
    then show ?thesis by (simp add: arrived_def)
  next
    case 2
    then obtain d msg' net' where "eee_send par (int s) (int r) z now (msg, net) = Inr (Some d, msg', net')" "steps_to m s r k msg d msg'"
      using call_answers[OF 2(2), of par net z now] 2(3) m assms(3-6) by (auto simp: routable_def)
    moreover have "k \<le> 4 * meeting_level m s r + 2" "\<not> eee_send_done msg" using on_way_bound[OF 2(2)] by simp_all
    ultimately show ?thesis using 2(1) by (auto simp: steps_to_def)
  qed
qed

definition ex_eee_par :: eee_par where
  "ex_eee_par = \<lparr>T_w = \<lambda>_. 1, T_s = \<lambda>_. 1, T_pdt = \<lambda>_. 2, T_eee_lat = \<lambda>_. 3, T_eee_bw = \<lambda>_. 0, T_eee_hop_lat = \<lambda>_. 1, eee_frame_header_size = 4\<rparr>"

definition ex_eee_msg :: eee_msg where
  "ex_eee_msg = \<lparr>eee_send_done = False, current_level = - 1, routing_dir = 0, link_transmit_done = False, nw_switch_done = True,
     eee_done_reset_var = False, eee_linkid = 0, eee_switchid = 0, messages_in_flight = 0, eee_doing_startup = False,
     eee_startup_done = False, eee_loose_cpu = False\<rparr>"

theorem messages_arrive_witness:
  "\<exists>d msg' net'. eee_send ex_eee_par (int 2) (int 7) 100 5 (ex_eee_msg, tree_net (16 * 2)) = Inr (Some d, msg', net') \<and>
     (moved ex_eee_msg msg' \<or> 0 < d)"
proof -
  have "configure_switches 3 (16 * 2) = Inr (tree_net (16 * 2))" using switches_form_a_tree[of "16 * 2"] by simp
  moreover have "ready_to_go ex_eee_msg" by (simp add: ready_to_go_def ex_eee_msg_def)
  moreover have "0 \<le> eee_frame_header_size ex_eee_par" by (simp add: ex_eee_par_def)
  ultimately show ?thesis
    using messages_arrive[of 2 "tree_net (16 * 2)" ex_eee_msg 2 7 ex_eee_par 100 0 ex_eee_msg "tree_net (16 * 2)" 5]
    by (simp add: eee_course.start ex_eee_msg_def)
qed

end
