(* ===== verification/Platform.thy ===== *)
theory Platform
  imports Queue
begin

text \<open>
  The construction of the platform (\<^verbatim>\<open>model/simulator.c\<close>, \<^verbatim>\<open>model/machine.c\<close>, \<^verbatim>\<open>model/node.c\<close>, \<^verbatim>\<open>model/cpu.c\<close>): machines with
  ranges of nodes, nodes with processors and links, connections between machines, and the checks of what a configuration defines. A function
  that returns \<open>t_boolean\<close> gives the answer and the state, which an error may leave half changed. What is not written yet is \<open>None\<close>.
\<close>

section \<open>State\<close>

record p_cpu =
  p_cpuid :: int
  p_is_gpu :: bool
  p_cpu_is_used :: bool
  p_unique_number :: "nat option"

datatype p_link_type = P_IN_LINK | P_OUT_LINK

record p_link =
  p_linkid :: nat
  p_type :: p_link_type

record node_values =
  v_arch :: string
  v_local_startup :: real
  v_remote_startup :: real
  v_relative :: real
  v_bandwidth :: real
  v_external_net_startup :: real
  v_local_port_startup :: real
  v_remote_port_startup :: real
  v_local_memory_startup :: real
  v_remote_memory_startup :: real

record node_sizes =
  no_processors :: int
  no_mem_buses :: int
  no_mem_in_links :: int
  no_mem_out_links :: int
  no_input :: int
  no_output :: int

record acc_values =
  acc_startup :: real
  acc_memory_startup :: real
  acc_bandwidth :: real
  acc_max_messages :: int
  acc_relative :: real

record p_node =
  p_nodeid :: nat
  p_machine :: nat
  p_Cpus :: "(p_cpu \<times> real) list"
  p_free_in_links :: "p_link list"
  p_free_out_links :: "p_link list"
  p_infinite_net_links :: bool
  p_infinite_mem_links :: bool
  p_half_duplex_links :: "bool option"
  p_max_memory_messages :: "int option"
  p_in_mem_links :: "int option"
  p_out_mem_links :: "int option"
  p_values :: "node_values option"
  p_accelerator :: bool
  p_acc :: "acc_values option"
  p_has_accelerated_task :: "bool option"
  p_used_node :: "bool option"
  p_initialized :: bool

record p_machine =
  machine_id :: nat
  number_of_nodes :: int
  loaded_nodes :: "int option"
  first_node_id :: "int option"
  machine_name :: "string option"
  instrumented_arch :: "string option"
  remote_bandwidth :: real
  num_messages_on_network :: int
  machine_global_op_model :: int
  external_in_links :: "p_link list"
  external_out_links :: "p_link list"
  connections :: "(nat \<times> real) list"

record d_connection =
  source_id :: nat
  destination_id :: nat
  d_bandwidth :: real
  tags :: "int list"
  first_message_size :: int
  first_size_condition :: int
  operation :: int
  second_message_size :: int
  second_size_condition :: int
  d_communicators :: "int list"
  d_startup :: real
  d_flight_time :: real
  infinite_links :: bool
  d_half_duplex :: bool
  d_in_links :: "p_link list"
  d_out_links :: "p_link list"

record sim_platform =
  Machines :: "p_machine list"
  nodes :: "p_node list"
  Dedicated_Connections :: "d_connection list"
  machines_loaded :: int
  connections_loaded :: int
  last_node_id :: int
  last_node_unid :: int
  wan_name :: "string option"
  traffic_function :: int
  max_traffic_value :: real
  wan_bandwidth :: real
  wan_global_op_model :: int
  wan_flight_times :: "real list list"

definition MAX_NODES :: int where "MAX_NODES = 256"
definition NO_NODE_ID :: int where "NO_NODE_ID = - 1"

text \<open>\<open>GOP_MODEL_CTE\<close> is 1.\<close>

definition SIMULATOR_Init :: sim_platform where
  "SIMULATOR_Init = \<lparr>Machines = [], nodes = [], Dedicated_Connections = [], machines_loaded = 0, connections_loaded = 0, last_node_id = 0,
     last_node_unid = 0, wan_name = None, traffic_function = 0, max_traffic_value = 0, wan_bandwidth = 0,
     wan_global_op_model = 1, wan_flight_times = []\<rparr>"

section \<open>Nodes\<close>

definition NODE_Init_Empty_Node :: "nat \<Rightarrow> nat \<Rightarrow> p_node" where
  "NODE_Init_Empty_Node mach i = \<lparr>p_nodeid = i, p_machine = mach, p_Cpus = [], p_free_in_links = [], p_free_out_links = [],
     p_infinite_net_links = False, p_infinite_mem_links = False, p_half_duplex_links = None, p_max_memory_messages = None,
     p_in_mem_links = None, p_out_mem_links = None, p_values = None, p_accelerator = False, p_acc = None,
     p_has_accelerated_task = None, p_used_node = None, p_initialized = False\<rparr>"

definition insert_cpu :: "int \<Rightarrow> bool \<Rightarrow> (p_cpu \<times> real) list \<Rightarrow> (p_cpu \<times> real) list" where
  "insert_cpu i gpu = seq_insert snd (\<lparr>p_cpuid = i, p_is_gpu = gpu, p_cpu_is_used = False, p_unique_number = None\<rparr>, real_of_int i)"

definition new_links :: "p_link_type \<Rightarrow> nat \<Rightarrow> p_link list" where
  "new_links ty k = map (\<lambda>j. \<lparr>p_linkid = j + 1, p_type = ty\<rparr>) [0..<k]"

definition NODE_Fill_Node_Fields :: "node_sizes \<Rightarrow> node_values \<Rightarrow> p_node \<Rightarrow> p_node" where
  "NODE_Fill_Node_Fields z v node =
     (let half = (no_input z = 0 \<or> no_output z = 0);
          k = max (no_input z) (no_output z);
          ins = (if half then k else no_input z);
          outs = (if half then k else no_output z)
      in node\<lparr>p_Cpus := fold (\<lambda>j. insert_cpu (int j + 1) False) [0..<nat (no_processors z)] (p_Cpus node),
           p_infinite_net_links := p_infinite_net_links node \<or> no_input z = 0 \<and> no_output z = 0,
           p_half_duplex_links := Some half,
           p_free_in_links := p_free_in_links node @ new_links P_IN_LINK (nat ins),
           p_free_out_links := p_free_out_links node @ new_links P_OUT_LINK (nat outs),
           p_max_memory_messages := Some (no_mem_buses z), p_in_mem_links := Some (no_mem_in_links z),
           p_out_mem_links := Some (no_mem_out_links z), p_values := Some v,
           p_has_accelerated_task := Some False, p_used_node := Some False, p_initialized := True\<rparr>)"

definition NODE_set_acc :: "nat \<Rightarrow> acc_values \<Rightarrow> sim_platform \<Rightarrow> sim_platform res" where
  "NODE_set_acc i a s =
     (if i < length (nodes s)
      then Inr (s\<lparr>nodes := (nodes s)[i := (nodes s ! i)\<lparr>p_accelerator := True, p_acc := Some a,
             p_Cpus := insert_cpu (int (length (p_Cpus (nodes s ! i))) + 1) True (p_Cpus (nodes s ! i))\<rparr>]\<rparr>)
      else Inl OutOfBounds)"

definition NODE_get_acc_node :: "sim_platform \<Rightarrow> nat" where
  "NODE_get_acc_node s = length (filter p_accelerator (nodes s))"

definition SIMULATOR_get_number_of_nodes :: "sim_platform \<Rightarrow> nat" where
  "SIMULATOR_get_number_of_nodes s = length (nodes s)"

definition SIMULATOR_get_cpus_per_node :: "sim_platform \<Rightarrow> int list" where
  "SIMULATOR_get_cpus_per_node s = map (\<lambda>node. int (length (p_Cpus node))) (nodes s)"

definition check_full_nodes :: "sim_platform \<Rightarrow> unit res" where
  "check_full_nodes s = (if \<exists>node \<in> set (nodes s). p_Cpus node = [] then Inl (Panic ''Node non initialized'') else Inr ())"

text \<open>Processors are numbered through all nodes, from 1.\<close>

fun number_cpus :: "nat \<Rightarrow> (p_cpu \<times> real) list \<Rightarrow> (p_cpu \<times> real) list" where
  "number_cpus k [] = []"
| "number_cpus k ((c, p) # cs) = (c\<lparr>p_unique_number := Some k\<rparr>, p) # number_cpus (k + 1) cs"

fun number_nodes :: "nat \<Rightarrow> p_node list \<Rightarrow> p_node list" where
  "number_nodes k [] = []"
| "number_nodes k (node # ns) = node\<lparr>p_Cpus := number_cpus k (p_Cpus node)\<rparr> # number_nodes (k + length (p_Cpus node)) ns"

definition CPU_Get_Unique_CPU_IDs :: "sim_platform \<Rightarrow> sim_platform" where
  "CPU_Get_Unique_CPU_IDs s = s\<lparr>nodes := number_nodes 1 (nodes s)\<rparr>"

section \<open>Machines and the wide area network\<close>

definition MACHINE_Init_Empty_Machine :: "sim_platform \<Rightarrow> nat \<Rightarrow> p_machine" where
  "MACHINE_Init_Empty_Machine s i = \<lparr>machine_id = i, number_of_nodes = MAX_NODES, loaded_nodes = None, first_node_id = None,
     machine_name = None, instrumented_arch = None, remote_bandwidth = 0, num_messages_on_network = 0,
     machine_global_op_model = wan_global_op_model s, external_in_links = [\<lparr>p_linkid = 0, p_type = P_IN_LINK\<rparr>],
     external_out_links = [\<lparr>p_linkid = 1, p_type = P_OUT_LINK\<rparr>], connections = []\<rparr>"

text \<open>The array of nodes grows; from the first node of the machine on its nodes are initialised.\<close>

definition MACHINE_Fill_Machine_Fields :: "nat \<Rightarrow> string \<Rightarrow> string \<Rightarrow> int \<Rightarrow> int \<Rightarrow> real \<Rightarrow> int \<Rightarrow> int \<Rightarrow> sim_platform \<Rightarrow> sim_platform" where
  "MACHINE_Fill_Machine_Fields i name arch k first bw buses model s =
     (let total = length (nodes s) + nat k in
      s\<lparr>Machines := (Machines s)[i := (Machines s ! i)\<lparr>machine_name := Some name, instrumented_arch := Some arch, number_of_nodes := k,
           loaded_nodes := Some 0, remote_bandwidth := bw, num_messages_on_network := buses, machine_global_op_model := model,
           first_node_id := Some first\<rparr>],
        nodes := take (nat first) (nodes s) @ map (NODE_Init_Empty_Node i) [nat first..<total]\<rparr>)"

definition SIMULATOR_set_number_of_machines :: "int \<Rightarrow> sim_platform \<Rightarrow> sim_platform" where
  "SIMULATOR_set_number_of_machines k s =
     s\<lparr>Machines := map (MACHINE_Init_Empty_Machine s) [0..<nat k], wan_flight_times := replicate (nat k) (replicate (nat k) 0)\<rparr>"

definition Initialize_Empty_Dedicated_Connection :: d_connection where
  "Initialize_Empty_Dedicated_Connection = \<lparr>source_id = 0, destination_id = 0, d_bandwidth = 0, tags = [], first_message_size = 0,
     first_size_condition = 0, operation = 0, second_message_size = 0, second_size_condition = 0, d_communicators = [], d_startup = 0,
     d_flight_time = 0, infinite_links = False, d_half_duplex = False, d_in_links = [\<lparr>p_linkid = 0, p_type = P_IN_LINK\<rparr>],
     d_out_links = [\<lparr>p_linkid = 1, p_type = P_OUT_LINK\<rparr>]\<rparr>"

definition SIMULATOR_set_number_of_dedicated_connections :: "int \<Rightarrow> sim_platform \<Rightarrow> sim_platform" where
  "SIMULATOR_set_number_of_dedicated_connections k s =
     s\<lparr>Dedicated_Connections := replicate (nat k) Initialize_Empty_Dedicated_Connection\<rparr>"

definition SIMULATOR_set_wan_global_op_model :: "int \<Rightarrow> sim_platform \<Rightarrow> sim_platform" where
  "SIMULATOR_set_wan_global_op_model model s =
     s\<lparr>wan_global_op_model := model, Machines := map (\<lambda>mc. mc\<lparr>machine_global_op_model := model\<rparr>) (Machines s)\<rparr>"

definition SIMULATOR_set_wan_definition ::
    "string option \<Rightarrow> int \<Rightarrow> int \<Rightarrow> int \<Rightarrow> real \<Rightarrow> real \<Rightarrow> int \<Rightarrow> sim_platform \<Rightarrow> bool \<times> sim_platform" where
  "SIMULATOR_set_wan_definition name machines conns traffic max_traffic bw model s =
     (let s1 = s\<lparr>wan_name := name\<rparr> in
      if machines \<le> 0 then (False, s1)
      else
        let s2 = SIMULATOR_set_number_of_machines machines s1 in
        if conns < 0 then (False, s2)
        else
          let s3 = SIMULATOR_set_number_of_dedicated_connections conns s2 in
          if traffic < 1 \<or> 4 < traffic then (False, s3)
          else
            let s4 = s3\<lparr>traffic_function := traffic, max_traffic_value := max_traffic, wan_bandwidth := bw\<rparr> in
            if model < 1 \<or> 4 < model then (False, s4) else (True, SIMULATOR_set_wan_global_op_model model s4))"

definition SIMULATOR_machine_exists :: "int \<Rightarrow> sim_platform \<Rightarrow> bool" where
  "SIMULATOR_machine_exists i s \<longleftrightarrow> 0 \<le> i \<and> i < int (length (Machines s))"

definition SIMULATOR_set_machine_definition :: "int \<Rightarrow> string \<Rightarrow> string \<Rightarrow> int \<Rightarrow> real \<Rightarrow> int \<Rightarrow> int \<Rightarrow> sim_platform \<Rightarrow> bool \<times> sim_platform" where
  "SIMULATOR_set_machine_definition i name arch k bw buses model s =
     (if i < 0 \<or> \<not> SIMULATOR_machine_exists i s \<or> k \<le> 0 \<or> bw < 0 \<or> buses < 0 \<or> model < 1 \<or> 3 < model then (False, s)
      else (True, (MACHINE_Fill_Machine_Fields (nat i) name arch k (last_node_unid s) bw buses model s)
        \<lparr>last_node_unid := last_node_unid s + k, machines_loaded := machines_loaded s + 1\<rparr>))"

section \<open>Definitions of nodes\<close>

definition node_values_ok :: "node_sizes \<Rightarrow> node_values \<Rightarrow> bool" where
  "node_values_ok z v \<longleftrightarrow> 0 < no_processors z \<and> 0 \<le> no_mem_buses z \<and> 0 \<le> no_mem_in_links z \<and> 0 \<le> no_mem_out_links z \<and>
     0 \<le> no_input z \<and> 0 \<le> no_output z \<and> 0 \<le> v_local_startup v \<and> 0 \<le> v_remote_startup v \<and> 0 \<le> v_relative v \<and>
     0 \<le> v_bandwidth v \<and> 0 \<le> v_external_net_startup v"

definition fill_node :: "int \<Rightarrow> node_sizes \<Rightarrow> node_values \<Rightarrow> sim_platform \<Rightarrow> sim_platform res" where
  "fill_node i z v s =
     (if 0 \<le> i \<and> i < int (length (nodes s))
      then Inr (s\<lparr>nodes := (nodes s)[nat i := NODE_Fill_Node_Fields z v (nodes s ! nat i)]\<rparr>)
      else Inl OutOfBounds)"

definition count_loaded :: "int \<Rightarrow> int \<Rightarrow> sim_platform \<Rightarrow> sim_platform" where
  "count_loaded mach k s = s\<lparr>Machines := (Machines s)[nat mach := (Machines s ! nat mach)
     \<lparr>loaded_nodes := map_option (\<lambda>l. l + k) (loaded_nodes (Machines s ! nat mach))\<rparr>]\<rparr>"

text \<open>Without an identifier the node is the next one of the platform, whatever its machine.\<close>

definition SIMULATOR_set_node_definition :: "int \<Rightarrow> int \<Rightarrow> node_sizes \<Rightarrow> node_values \<Rightarrow> sim_platform \<Rightarrow> (bool \<times> sim_platform) res" where
  "SIMULATOR_set_node_definition i mach z v s0 =
     (let j = (if i = NO_NODE_ID then last_node_id s0 else i);
          s = (if i = NO_NODE_ID then s0\<lparr>last_node_id := last_node_id s0 + 1\<rparr> else s0)
      in if \<not> SIMULATOR_machine_exists mach s then Inr (False, s)
         else case loaded_nodes (Machines s ! nat mach) of
           None \<Rightarrow> Inl Uninit
         | Some l \<Rightarrow>
             if l + 1 > number_of_nodes (Machines s ! nat mach) then Inr (False, s)
             else if \<not> node_values_ok z v then Inr (False, s)
             else bindE (fill_node j z v s) (\<lambda>s1. Inr (True, count_loaded mach 1 s1)))"

fun fill_next :: "nat \<Rightarrow> node_sizes \<Rightarrow> node_values \<Rightarrow> sim_platform \<Rightarrow> sim_platform res" where
  "fill_next 0 z v s = Inr s"
| "fill_next (Suc k) z v s =
     bindE (fill_node (last_node_id s) z v s) (\<lambda>s1. fill_next k z v (s1\<lparr>last_node_id := last_node_id s1 + 1\<rparr>))"

definition SIMULATOR_set_multiple_node_definition :: "int \<Rightarrow> int \<Rightarrow> node_sizes \<Rightarrow> node_values \<Rightarrow> sim_platform \<Rightarrow> (bool \<times> sim_platform) res" where
  "SIMULATOR_set_multiple_node_definition mach k z v s =
     (if \<not> SIMULATOR_machine_exists mach s then Inr (False, s)
      else case loaded_nodes (Machines s ! nat mach) of
        None \<Rightarrow> Inl Uninit
      | Some l \<Rightarrow>
          if l + k > number_of_nodes (Machines s ! nat mach) \<or> k \<le> 0 \<or> \<not> node_values_ok z v then Inr (False, s)
          else bindE (fill_next (nat k) z v s) (\<lambda>s1. Inr (True, count_loaded mach k s1)))"

definition SIMULATOR_node_exists :: "int \<Rightarrow> sim_platform \<Rightarrow> bool" where
  "SIMULATOR_node_exists i s \<longleftrightarrow> 0 \<le> i \<and> i < int (SIMULATOR_get_number_of_nodes s)"

definition SIMULATOR_set_acc_nodes :: "int \<Rightarrow> acc_values \<Rightarrow> sim_platform \<Rightarrow> sim_platform res" where
  "SIMULATOR_set_acc_nodes i a s =
     (if \<not> SIMULATOR_node_exists i s then Inl (Die ''Wrong accelerator node id'')
      else if acc_startup a < 0 \<or> acc_memory_startup a < 0 \<or> acc_bandwidth a < 0 \<or> acc_max_messages a < 0 \<or> acc_relative a < 0
      then Inl (Die ''invalid value in accelerator node'')
      else NODE_set_acc (nat i) a s)"

section \<open>Dedicated connections\<close>

definition SIMULATOR_dedicated_connection_exists :: "int \<Rightarrow> sim_platform \<Rightarrow> bool" where
  "SIMULATOR_dedicated_connection_exists i s \<longleftrightarrow> 0 \<le> i \<and> i < int (length (Dedicated_Connections s))"

definition d_conn_check_operand :: "char \<Rightarrow> int option" where
  "d_conn_check_operand c = (if c = CHR ''<'' then Some 0 else if c = CHR ''='' then Some 1 else if c = CHR ''>'' then Some 2 else None)"

definition d_conn_check_condition :: "char \<Rightarrow> int option" where
  "d_conn_check_condition c = (if c = CHR 0x26 then Some 0 else if c = CHR ''|'' then Some 1 else None)"

record connection_fields =
  c_bandwidth :: real
  c_tags_size :: int
  c_tags :: "int list option"
  c_first_size :: int
  c_first_cond :: char
  c_operation :: char
  c_second_size :: int
  c_second_cond :: char
  c_comms_size :: int
  c_comms :: "int list option"
  c_startup :: real
  c_flight_time :: real

text \<open>The connection joins the queues of both machines, by its number. A list shorter than its size is read beyond its end.\<close>

definition attach :: "nat \<Rightarrow> nat \<Rightarrow> p_machine list \<Rightarrow> p_machine list" where
  "attach i mach ms = ms[mach := (ms ! mach)\<lparr>connections := seq_insert snd (i, real i) (connections (ms ! mach))\<rparr>]"

definition SIMULATOR_set_dedicated_connection_definition :: "int \<Rightarrow> int \<Rightarrow> int \<Rightarrow> connection_fields \<Rightarrow> sim_platform \<Rightarrow> (bool \<times> sim_platform) res" where
  "SIMULATOR_set_dedicated_connection_definition i src dst c s =
     (if \<not> (0 < i \<or> i < int (length (Dedicated_Connections s))) then Inl AssertFailed
      else if \<not> SIMULATOR_dedicated_connection_exists i s \<or> \<not> SIMULATOR_machine_exists src s \<or> \<not> SIMULATOR_machine_exists dst s \<or>
        c_bandwidth c < 0 \<or> c_tags_size c < 0 \<or> c_tags c = None \<or> c_first_size c < 0 \<or> d_conn_check_operand (c_first_cond c) = None \<or>
        d_conn_check_condition (c_operation c) = None \<or> c_second_size c < 0 \<or> d_conn_check_operand (c_second_cond c) = None \<or>
        c_comms_size c < 0 \<or> c_comms c = None \<or> c_startup c < 0 \<or> c_flight_time c < 0 then Inr (False, s)
      else if int (length (the (c_tags c))) < c_tags_size c \<or> int (length (the (c_comms c))) < c_comms_size c then Inl OutOfBounds
      else Inr (True, s\<lparr>Dedicated_Connections := (Dedicated_Connections s)[nat i := (Dedicated_Connections s ! nat i)
             \<lparr>source_id := nat src, destination_id := nat dst, d_bandwidth := c_bandwidth c,
              tags := take (nat (c_tags_size c)) (the (c_tags c)), first_message_size := c_first_size c,
              first_size_condition := the (d_conn_check_operand (c_first_cond c)), operation := the (d_conn_check_condition (c_operation c)),
              second_message_size := c_second_size c, second_size_condition := the (d_conn_check_operand (c_second_cond c)),
              d_communicators := take (nat (c_comms_size c)) (the (c_comms c)), d_startup := c_startup c, d_flight_time := c_flight_time c,
              d_half_duplex := False, infinite_links := True\<rparr>],
           Machines := attach (nat i) (nat dst) (attach (nat i) (nat src) (Machines s)), connections_loaded := connections_loaded s + 1\<rparr>))"

section \<open>The check of a configuration\<close>

fun machines_complete :: "p_machine list \<Rightarrow> unit res" where
  "machines_complete [] = Inr ()"
| "machines_complete (mc # ms) = (case loaded_nodes mc of None \<Rightarrow> Inl Uninit
     | Some l \<Rightarrow> if l \<noteq> number_of_nodes mc then Inl (Die ''Check your configuration file'') else machines_complete ms)"

definition SIMULATOR_check_correct_definitions :: "sim_platform \<Rightarrow> unit res" where
  "SIMULATOR_check_correct_definitions s =
     (if int (length (Machines s)) \<noteq> machines_loaded s then Inl (Die ''Check your configuration file'')
      else bindE (machines_complete (Machines s)) (\<lambda>_.
        if int (length (Dedicated_Connections s)) \<noteq> connections_loaded s then Inl (Die ''Check your configuration file'') else Inr ()))"

end
