(* ===== verification/PlatformProps.thy ===== *)
theory PlatformProps
  imports Platform
begin

text \<open>
  Whatever a configuration defines after the wide area network, the platform stays well built; but a node goes to the machine it is
  named for only when the nodes are defined in the order of the machines.
\<close>

section \<open>Well built platforms\<close>

definition node_ok :: "nat \<Rightarrow> nat \<Rightarrow> p_node \<Rightarrow> bool" where
  "node_ok machines i node \<longleftrightarrow> p_nodeid node = i \<and> p_machine node < machines \<and> sorted (map snd (p_Cpus node)) \<and>
     (p_initialized node \<longrightarrow> p_Cpus node \<noteq> [] \<and> p_values node \<noteq> None \<and>
        (\<not> p_infinite_net_links node \<longrightarrow> p_free_in_links node \<noteq> [] \<and> p_free_out_links node \<noteq> []))"

definition range_ok :: "p_node list \<Rightarrow> nat \<Rightarrow> p_machine \<Rightarrow> bool" where
  "range_ok ns i mc \<longleftrightarrow> (\<forall>f. first_node_id mc = Some f \<longrightarrow> 0 \<le> f \<and> 0 \<le> number_of_nodes mc \<and> f + number_of_nodes mc \<le> int (length ns) \<and>
     (\<forall>j. f \<le> int j \<and> int j < f + number_of_nodes mc \<longrightarrow> p_machine (ns ! j) = i))"

definition machine_ok :: "nat \<Rightarrow> p_machine \<Rightarrow> bool" where
  "machine_ok conns mc \<longleftrightarrow> (\<forall>l. loaded_nodes mc = Some l \<longrightarrow> 0 \<le> l \<and> l \<le> number_of_nodes mc) \<and>
     sorted (map snd (connections mc)) \<and> (\<forall>c \<in> set (connections mc). fst c < conns)"

definition well_built :: "sim_platform \<Rightarrow> bool" where
  "well_built s \<longleftrightarrow> last_node_unid s = int (length (nodes s)) \<and>
     (\<forall>i < length (nodes s). node_ok (length (Machines s)) i (nodes s ! i)) \<and>
     (\<forall>i < length (Machines s). range_ok (nodes s) i (Machines s ! i) \<and> machine_ok (length (Dedicated_Connections s)) (Machines s ! i))"

lemma well_builtI:
  assumes "last_node_unid s = int (length (nodes s))"
    and "\<And>i. i < length (nodes s) \<Longrightarrow> node_ok (length (Machines s)) i (nodes s ! i)"
    and "\<And>i. i < length (Machines s) \<Longrightarrow> range_ok (nodes s) i (Machines s ! i)"
    and "\<And>i. i < length (Machines s) \<Longrightarrow> machine_ok (length (Dedicated_Connections s)) (Machines s ! i)"
  shows "well_built s"
  using assms by (simp add: well_built_def)

lemma well_builtD:
  assumes "well_built s"
  shows "last_node_unid s = int (length (nodes s))"
    and "i < length (nodes s) \<Longrightarrow> node_ok (length (Machines s)) i (nodes s ! i)"
    and "i < length (Machines s) \<Longrightarrow> range_ok (nodes s) i (Machines s ! i)"
    and "i < length (Machines s) \<Longrightarrow> machine_ok (length (Dedicated_Connections s)) (Machines s ! i)"
  using assms by (simp_all add: well_built_def)

text \<open>A configuration: the network first, then definitions of machines, nodes, accelerators and connections in any order.\<close>

inductive configured :: "sim_platform \<Rightarrow> bool" where
  wan: "SIMULATOR_set_wan_definition name k conns traffic mx bw model SIMULATOR_Init = (True, s) \<Longrightarrow> configured s"
| machine: "configured s \<Longrightarrow> SIMULATOR_set_machine_definition i name arch k bw buses model s = (b, s') \<Longrightarrow> configured s'"
| node: "configured s \<Longrightarrow> SIMULATOR_set_node_definition i mach z v s = Inr (b, s') \<Longrightarrow> configured s'"
| nodes: "configured s \<Longrightarrow> SIMULATOR_set_multiple_node_definition mach k z v s = Inr (b, s') \<Longrightarrow> configured s'"
| acc: "configured s \<Longrightarrow> SIMULATOR_set_acc_nodes i a s = Inr s' \<Longrightarrow> configured s'"
| connection: "configured s \<Longrightarrow> SIMULATOR_set_dedicated_connection_definition i src dst c s = Inr (b, s') \<Longrightarrow> configured s'"

section \<open>Every definition keeps the platform well built\<close>

lemma insert_cpu_sorted: "sorted (map snd cs) \<Longrightarrow> sorted (map snd (insert_cpu i g cs))"
  unfolding insert_cpu_def seq_insert_def by (rule sorted_ins_le)

lemma insert_cpu_nonempty: "insert_cpu i g cs \<noteq> []"
  by (simp add: insert_cpu_def seq_insert_def ins_before_def)

lemma insert_cpus: "sorted (map snd cs) \<Longrightarrow> sorted (map snd (fold (\<lambda>j. insert_cpu (int j + 1) False) js cs)) \<and>
    (js \<noteq> [] \<longrightarrow> fold (\<lambda>j. insert_cpu (int j + 1) False) js cs \<noteq> [])"
proof (induction js arbitrary: cs)
  case (Cons j js)
  then show ?case using Cons.IH[OF insert_cpu_sorted[OF Cons.prems]] insert_cpu_nonempty by (cases js) auto
qed simp

lemma filled_ok: "node_ok m i node \<Longrightarrow> node_values_ok z v \<Longrightarrow> node_ok m i (NODE_Fill_Node_Fields z v node)"
  using insert_cpus[of "p_Cpus node" "[0..<nat (no_processors z)]"]
  by (auto simp: node_ok_def NODE_Fill_Node_Fields_def node_values_ok_def new_links_def Let_def max_def)

lemma fill_machine: "p_machine (NODE_Fill_Node_Fields z v node) = p_machine node"
  by (simp add: NODE_Fill_Node_Fields_def Let_def)

text \<open>A change of one node that keeps its machine.\<close>

lemma well_built_node:
  assumes "well_built s" "i < length (nodes s)" "node_ok (length (Machines s)) i node" "p_machine node = p_machine (nodes s ! i)"
  shows "well_built (s\<lparr>nodes := (nodes s)[i := node]\<rparr>)"
proof (rule well_builtI)
  fix j assume "j < length (Machines (s\<lparr>nodes := (nodes s)[i := node]\<rparr>))"
  then have "range_ok (nodes s) j (Machines s ! j)" using well_builtD(3)[OF assms(1)] by simp
  moreover have "p_machine ((nodes s)[i := node] ! k) = p_machine (nodes s ! k)" for k
    using assms(2,4) by (cases "k = i") simp_all
  ultimately show "range_ok (nodes (s\<lparr>nodes := (nodes s)[i := node]\<rparr>)) j (Machines (s\<lparr>nodes := (nodes s)[i := node]\<rparr>) ! j)"
    by (simp add: range_ok_def)
qed (use assms well_builtD[OF assms(1)] in \<open>auto simp: nth_list_update\<close>)

text \<open>A change of one machine that keeps its range.\<close>

lemma well_built_machine:
  assumes "well_built s" "machine_ok (length (Dedicated_Connections s)) mc"
    and "first_node_id mc = first_node_id (Machines s ! i)" "number_of_nodes mc = number_of_nodes (Machines s ! i)"
  shows "well_built (s\<lparr>Machines := (Machines s)[i := mc]\<rparr>)"
proof (rule well_builtI)
  fix j assume j: "j < length (Machines (s\<lparr>Machines := (Machines s)[i := mc]\<rparr>))"
  show "range_ok (nodes (s\<lparr>Machines := (Machines s)[i := mc]\<rparr>)) j (Machines (s\<lparr>Machines := (Machines s)[i := mc]\<rparr>) ! j)"
    using j well_builtD(3)[OF assms(1), of j] assms(3,4) by (cases "j = i") (simp_all add: range_ok_def)
  show "machine_ok (length (Dedicated_Connections (s\<lparr>Machines := (Machines s)[i := mc]\<rparr>))) (Machines (s\<lparr>Machines := (Machines s)[i := mc]\<rparr>) ! j)"
    using j well_builtD(4)[OF assms(1), of j] assms(2) by (cases "j = i") simp_all
qed (use well_builtD[OF assms(1)] in simp_all)

lemma counter_changes: "well_built s \<Longrightarrow> well_built (s\<lparr>last_node_id := k\<rparr>)" "well_built s \<Longrightarrow> well_built (s\<lparr>connections_loaded := k\<rparr>)"
  by (simp_all add: well_built_def)

lemma fill_node_ok: "well_built s \<Longrightarrow> node_values_ok z v \<Longrightarrow> fill_node i z v s = Inr s' \<Longrightarrow>
    well_built s' \<and> Machines s' = Machines s \<and> length (nodes s') = length (nodes s)"
  by (auto simp: fill_node_def fill_machine split: if_splits intro!: well_built_node filled_ok well_builtD(2))

lemma fill_next_ok: "well_built s \<Longrightarrow> node_values_ok z v \<Longrightarrow> fill_next k z v s = Inr s' \<Longrightarrow> well_built s' \<and> Machines s' = Machines s"
proof (induction k arbitrary: s)
  case (Suc k)
  then obtain s1 where s1: "fill_node (last_node_id s) z v s = Inr s1" "fill_next k z v (s1\<lparr>last_node_id := last_node_id s1 + 1\<rparr>) = Inr s'"
    by (auto simp: bindE_eq_Inr)
  then show ?case using Suc.IH[OF counter_changes(1) Suc.prems(2) s1(2)] fill_node_ok[OF Suc.prems(1,2) s1(1)] by simp
qed simp

lemma count_loaded_ok:
  assumes "well_built s" "nat mach < length (Machines s)" "loaded_nodes (Machines s ! nat mach) = Some l" "0 \<le> k"
    and "l + k \<le> number_of_nodes (Machines s ! nat mach)"
  shows "well_built (count_loaded mach k s)"
  unfolding count_loaded_def
  by (rule well_built_machine) (use assms well_builtD(4)[OF assms(1,2)] in \<open>auto simp: machine_ok_def\<close>)

text \<open>The shapes of the definitions: refused, or done.\<close>

lemma refused1:
  "(if P then (False, s) else (True, s1)) = (b, s') \<Longrightarrow> s' = s \<or> \<not> P \<and> s' = s1"
  by (simp split: if_splits)

lemma refused2:
  "(if P then Inr (False, s) else case x of None \<Rightarrow> Inl Uninit
      | Some l \<Rightarrow> if Q l then Inr (False, s) else bindE f (\<lambda>s1. Inr (True, g s1))) = Inr (b, s') \<Longrightarrow>
   s' = s \<or> (\<exists>l s2. \<not> P \<and> x = Some l \<and> \<not> Q l \<and> f = Inr s2 \<and> s' = g s2)"
  by (auto simp: bindE_eq_Inr split: if_splits option.splits)

lemma refused3:
  "(if P then Inr (False, s) else case x of None \<Rightarrow> Inl Uninit
      | Some l \<Rightarrow> if Q l then Inr (False, s) else if R then Inr (False, s) else bindE f (\<lambda>s1. Inr (True, g s1))) = Inr (b, s') \<Longrightarrow>
   s' = s \<or> (\<exists>l s2. \<not> P \<and> x = Some l \<and> \<not> Q l \<and> \<not> R \<and> f = Inr s2 \<and> s' = g s2)"
  by (auto simp: bindE_eq_Inr split: if_splits option.splits)

lemma refused4:
  "(if A then Inl AssertFailed else if P then Inr (False, s) else if C then Inl OutOfBounds else Inr (True, s1)) = Inr (b, s') \<Longrightarrow>
   s' = s \<or> \<not> P \<and> s' = s1"
  by (simp split: if_splits)

lemma loaded_ok:
  assumes "well_built s1" "well_built s2" "Machines s2 = Machines s1" "SIMULATOR_machine_exists mach s1"
    and "loaded_nodes (Machines s1 ! nat mach) = Some l" "l + k \<le> number_of_nodes (Machines s1 ! nat mach)" "0 \<le> k"
  shows "well_built (count_loaded mach k s2)"
  by (rule count_loaded_ok) (use assms in \<open>auto simp: SIMULATOR_machine_exists_def nat_less_iff\<close>)

lemma node_definition_ok:
  assumes "well_built s" "SIMULATOR_set_node_definition i mach z v s = Inr (b, s')"
  shows "well_built s'"
proof -
  define s1 where "s1 = (if i = NO_NODE_ID then s\<lparr>last_node_id := last_node_id s + 1\<rparr> else s)"
  have w: "well_built s1" using assms(1) counter_changes by (simp add: s1_def)
  from refused3[OF assms(2)[unfolded SIMULATOR_set_node_definition_def Let_def, folded s1_def]]
  show ?thesis
  proof (elim disjE exE conjE)
    fix l s2
    assume l: "\<not> \<not> SIMULATOR_machine_exists mach s1" "loaded_nodes (Machines s1 ! nat mach) = Some l"
      "\<not> number_of_nodes (Machines s1 ! nat mach) < l + 1" "\<not> \<not> node_values_ok z v"
      and f: "fill_node (if i = NO_NODE_ID then last_node_id s else i) z v s1 = Inr s2" and s': "s' = count_loaded mach 1 s2"
    have "well_built s2 \<and> Machines s2 = Machines s1" using fill_node_ok[OF w _ f] l(4) by simp
    then show ?thesis unfolding s' by (intro loaded_ok[OF w]) (use l in \<open>auto simp: not_less not_le\<close>)
  qed (use w in simp)
qed

lemma nodes_definition_ok:
  assumes w: "well_built s" and "SIMULATOR_set_multiple_node_definition mach k z v s = Inr (b, s')"
  shows "well_built s'"
  using refused2[OF assms(2)[unfolded SIMULATOR_set_multiple_node_definition_def]]
proof (elim disjE exE conjE)
  fix l s2
  assume l: "\<not> \<not> SIMULATOR_machine_exists mach s" "loaded_nodes (Machines s ! nat mach) = Some l"
    "\<not> (number_of_nodes (Machines s ! nat mach) < l + k \<or> k \<le> 0 \<or> \<not> node_values_ok z v)"
    and f: "fill_next (nat k) z v s = Inr s2" and s': "s' = count_loaded mach k s2"
  have "well_built s2 \<and> Machines s2 = Machines s" using fill_next_ok[OF w _ f] l(3) by simp
  then show ?thesis unfolding s' by (intro loaded_ok[OF w]) (use l in \<open>auto simp: not_less not_le\<close>)
qed (use w in simp)

lemma acc_definition_ok: "well_built s \<Longrightarrow> SIMULATOR_set_acc_nodes i a s = Inr s' \<Longrightarrow> well_built s'"
proof -
  assume w: "well_built s" and "SIMULATOR_set_acc_nodes i a s = Inr s'"
  then have i: "nat i < length (nodes s)" and "NODE_set_acc (nat i) a s = Inr s'"
    by (auto simp: SIMULATOR_set_acc_nodes_def NODE_set_acc_def split: if_splits)
  moreover have "node_ok (length (Machines s)) (nat i) (nodes s ! nat i)" using well_builtD(2)[OF w i] .
  ultimately show ?thesis
    using insert_cpu_sorted insert_cpu_nonempty
    by (auto simp: NODE_set_acc_def node_ok_def intro!: well_built_node[OF w])
qed

lemma attach_length: "length (attach i m ms) = length ms"
  by (simp add: attach_def)

lemma attach_ok: "\<forall>j < length ms. machine_ok n (ms ! j) \<Longrightarrow> i < n \<Longrightarrow> j < length ms \<Longrightarrow> machine_ok n (attach i m ms ! j)"
  using sorted_ins_le[of snd "connections (ms ! m)" "(i, real i)"]
  by (cases "j = m") (auto simp: attach_def machine_ok_def seq_insert_def)

lemma attach_range: "range_ok ns j (attach i m ms ! j) = range_ok ns j (ms ! j)"
proof (cases "m < length ms")
  case True
  then show ?thesis by (cases "j = m") (simp_all add: attach_def range_ok_def)
qed (simp add: attach_def list_update_beyond)

lemma connection_definition_ok:
  assumes w: "well_built s" and "SIMULATOR_set_dedicated_connection_definition i src dst c s = Inr (b, s')"
  shows "well_built s'"
proof -
  let ?ms = "attach (nat i) (nat dst) (attach (nat i) (nat src) (Machines s))"
  have "s' = s \<or> SIMULATOR_dedicated_connection_exists i s \<and> Machines s' = ?ms \<and> nodes s' = nodes s \<and>
      last_node_unid s' = last_node_unid s \<and> length (Dedicated_Connections s') = length (Dedicated_Connections s)"
    using refused4[OF assms(2)[unfolded SIMULATOR_set_dedicated_connection_definition_def]] by fastforce
  then consider "s' = s" | "nat i < length (Dedicated_Connections s)" "Machines s' = ?ms" "nodes s' = nodes s"
      "last_node_unid s' = last_node_unid s" "length (Dedicated_Connections s') = length (Dedicated_Connections s)"
    unfolding SIMULATOR_dedicated_connection_exists_def by linarith
  then show ?thesis
  proof cases
    case 2
    have "\<forall>j < length (attach (nat i) (nat src) (Machines s)).
        machine_ok (length (Dedicated_Connections s)) (attach (nat i) (nat src) (Machines s) ! j)"
      using well_builtD(4)[OF w] 2(1) by (auto simp: attach_length intro!: attach_ok)
    then show ?thesis
      using 2 well_builtD(1-3)[OF w] by (intro well_builtI) (simp_all add: attach_length attach_range attach_ok)
  qed (use w in simp)
qed

lemma machine_definition_ok:
  assumes w: "well_built s" and "SIMULATOR_set_machine_definition i name arch k bw buses model s = (b, s')"
  shows "well_built s'"
proof -
  let ?s = "(MACHINE_Fill_Machine_Fields (nat i) name arch k (last_node_unid s) bw buses model s)
        \<lparr>last_node_unid := last_node_unid s + k, machines_loaded := machines_loaded s + 1\<rparr>"
  have "s' = s \<or> SIMULATOR_machine_exists i s \<and> 0 < k \<and> s' = ?s"
    using refused1[OF assms(2)[unfolded SIMULATOR_set_machine_definition_def]] by linarith
  then consider "s' = s" | "0 \<le> i" "nat i < length (Machines s)" "0 < k" "s' = ?s"
    unfolding SIMULATOR_machine_exists_def by linarith
  then show ?thesis
  proof cases
    case 2
    let ?new = "map (NODE_Init_Empty_Node (nat i)) [length (nodes s)..<length (nodes s) + nat k]"
    have s': "nodes s' = nodes s @ ?new" "length (Machines s') = length (Machines s)" "last_node_unid s' = last_node_unid s + k"
        "Dedicated_Connections s' = Dedicated_Connections s"
      using 2(4) well_builtD(1)[OF w] by (simp_all add: MACHINE_Fill_Machine_Fields_def Let_def)
    have old: "Machines s' ! j = Machines s ! j" if "j \<noteq> nat i" for j
      using 2(4) that by (simp add: MACHINE_Fill_Machine_Fields_def Let_def)
    have this': "first_node_id (Machines s' ! nat i) = Some (int (length (nodes s)))" "number_of_nodes (Machines s' ! nat i) = k"
        "loaded_nodes (Machines s' ! nat i) = Some 0" "connections (Machines s' ! nat i) = connections (Machines s ! nat i)"
      using 2(2,4) well_builtD(1)[OF w] by (simp_all add: MACHINE_Fill_Machine_Fields_def Let_def)
    show ?thesis
    proof (rule well_builtI)
      show "last_node_unid s' = int (length (nodes s'))" using s' 2(3) well_builtD(1)[OF w] by simp
    next
      fix j assume j: "j < length (nodes s')"
      show "node_ok (length (Machines s')) j (nodes s' ! j)"
      proof (cases "j < length (nodes s)")
        case True
        then show ?thesis using s' well_builtD(2)[OF w] by (simp add: nth_append)
      next
        case False
        then show ?thesis using s' j 2(2) by (simp add: nth_append node_ok_def NODE_Init_Empty_Node_def)
      qed
    next
      fix j assume j: "j < length (Machines s')"
      show "range_ok (nodes s') j (Machines s' ! j)"
      proof (cases "j = nat i")
        case True
        then show ?thesis
          using this' s'(1) 2(3) by (auto simp: range_ok_def nth_append NODE_Init_Empty_Node_def)
      next
        case False
        then show ?thesis using old s'(1,2) j well_builtD(3)[OF w, of j] by (auto simp: range_ok_def nth_append)
      qed
    next
      fix j assume "j < length (Machines s')"
      then show "machine_ok (length (Dedicated_Connections s')) (Machines s' ! j)"
        using well_builtD(4)[OF w, of j] this' s' old 2(3) by (cases "j = nat i") (auto simp: machine_ok_def)
    qed
  qed (use w in simp)
qed

lemma wan_definition_ok: "SIMULATOR_set_wan_definition name k conns traffic mx bw model SIMULATOR_Init = (True, s) \<Longrightarrow> well_built s"
  by (auto simp: SIMULATOR_set_wan_definition_def SIMULATOR_Init_def Let_def SIMULATOR_set_wan_global_op_model_def
      SIMULATOR_set_number_of_machines_def SIMULATOR_set_number_of_dedicated_connections_def MACHINE_Init_Empty_Machine_def
      well_built_def range_ok_def machine_ok_def MAX_NODES_def split: if_splits)



section \<open>Nodes out of order\<close>

definition two_machines :: "sim_platform" where
  "two_machines = snd (SIMULATOR_set_machine_definition 1 ''b'' [] 1 0 0 1 (snd (SIMULATOR_set_machine_definition 0 ''a'' [] 1 0 0 1
     (snd (SIMULATOR_set_wan_definition None 2 0 1 0 0 1 SIMULATOR_Init)))))"

text \<open>
  Property C35. Nodes are taken in the order of their definitions and not from the machine they are defined for: with two machines of one node,
  when the node of the second is defined first, the first machine gets its processors and values and the second those of the first. The
  check of the configuration finds nothing wrong.
\<close>

theorem nodes_out_of_order_are_swapped:
  assumes "node_values_ok z0 v0" "node_values_ok z1 v1"
  shows "\<exists>s1 s2. SIMULATOR_set_node_definition NO_NODE_ID 1 z1 v1 two_machines = Inr (True, s1) \<and>
    SIMULATOR_set_node_definition NO_NODE_ID 0 z0 v0 s1 = Inr (True, s2) \<and> SIMULATOR_check_correct_definitions s2 = Inr () \<and>
    map p_machine (nodes s2) = [0, 1] \<and> map p_values (nodes s2) = [Some v1, Some v0] \<and>
    map (\<lambda>node. length (p_Cpus node)) (nodes s2) = [nat (no_processors z1), nat (no_processors z0)]"
proof -
  have cpus: "length (fold (\<lambda>j. insert_cpu (int j + 1) False) js cs) = length js + length cs" for js cs
    by (induction js arbitrary: cs) (simp_all add: insert_cpu_def seq_insert_def)
  have s: "nodes two_machines = [NODE_Init_Empty_Node 0 0, NODE_Init_Empty_Node 1 1]" "last_node_id two_machines = 0"
      "map number_of_nodes (Machines two_machines) = [1, 1]" "map loaded_nodes (Machines two_machines) = [Some 0, Some 0]"
      "Dedicated_Connections two_machines = []" "machines_loaded two_machines = 2" "connections_loaded two_machines = 0"
    by (simp_all add: two_machines_def SIMULATOR_set_machine_definition_def SIMULATOR_machine_exists_def MACHINE_Fill_Machine_Fields_def
        SIMULATOR_set_wan_definition_def SIMULATOR_Init_def SIMULATOR_set_number_of_machines_def SIMULATOR_set_number_of_dedicated_connections_def
        SIMULATOR_set_wan_global_op_model_def MACHINE_Init_Empty_Machine_def Let_def numeral_2_eq_2)
  obtain m0 m1 where m: "Machines two_machines = [m0, m1]" "number_of_nodes m0 = 1" "number_of_nodes m1 = 1"
      "loaded_nodes m0 = Some 0" "loaded_nodes m1 = Some 0"
    using s(3,4) by (auto simp: Cons_eq_map_conv map_eq_Cons_conv)
  show ?thesis
    using assms s m cpus
    by (simp add: SIMULATOR_set_node_definition_def NO_NODE_ID_def SIMULATOR_machine_exists_def fill_node_def count_loaded_def
        NODE_Fill_Node_Fields_def NODE_Init_Empty_Node_def SIMULATOR_check_correct_definitions_def Let_def)
qed

definition ex_sizes :: node_sizes where
  "ex_sizes = \<lparr>no_processors = 4, no_mem_buses = 0, no_mem_in_links = 1, no_mem_out_links = 0, no_input = 1, no_output = 1\<rparr>"

definition ex_values :: node_values where
  "ex_values = \<lparr>v_arch = ''x'', v_local_startup = 0, v_remote_startup = 0, v_relative = 1, v_bandwidth = 0, v_external_net_startup = 0,
     v_local_port_startup = 0, v_remote_port_startup = 0, v_local_memory_startup = 0, v_remote_memory_startup = 0\<rparr>"

theorem nodes_out_of_order_are_swapped_witness:
  "\<exists>s1 s2. SIMULATOR_set_node_definition NO_NODE_ID 1 ex_sizes (ex_values\<lparr>v_relative := 2\<rparr>) two_machines = Inr (True, s1) \<and>
    SIMULATOR_set_node_definition NO_NODE_ID 0 ex_sizes ex_values s1 = Inr (True, s2) \<and>
    map (v_relative \<circ> the \<circ> p_values) (nodes s2) = [2, 1]"
proof -
  have "node_values_ok ex_sizes ex_values" "node_values_ok ex_sizes (ex_values\<lparr>v_relative := 2\<rparr>)"
    by (simp_all add: node_values_ok_def ex_sizes_def ex_values_def)
  from nodes_out_of_order_are_swapped[OF this] show ?thesis
  proof (elim exE conjE)
    fix s1 s2
    assume d: "SIMULATOR_set_node_definition NO_NODE_ID 1 ex_sizes (ex_values\<lparr>v_relative := 2\<rparr>) two_machines = Inr (True, s1)"
      "SIMULATOR_set_node_definition NO_NODE_ID 0 ex_sizes ex_values s1 = Inr (True, s2)"
      and v: "map p_values (nodes s2) = [Some (ex_values\<lparr>v_relative := 2\<rparr>), Some ex_values]"
    have "map (v_relative \<circ> the) (map p_values (nodes s2)) = [2, 1]" unfolding v by (simp add: ex_values_def)
    then have "map (v_relative \<circ> the \<circ> p_values) (nodes s2) = [2, 1]" by (simp add: o_assoc)
    with d show ?thesis by (intro exI[of _ s1] exI[of _ s2] conjI)
  qed
qed

end
