(* ===== verification/TaskMapping.thy ===== *)
theory TaskMapping
  imports Platform
begin

text \<open>
  The mapping of the tasks of an application to nodes (\<^verbatim>\<open>model/task.c\<close>): filling nodes, so many tasks for each node, interleaved; what
  a task takes from its node; and what a communicator is told of the places of its ranks. Where C writes through the pointer \<open>cpu\<close> that
  was never set, the outcome is the argument \<open>stray\<close>. The array \<open>n_cpus_per_node\<close>, which is counted down and not used, is left out.
\<close>

section \<open>State\<close>

definition MAP_NO_PREDEFINED :: int where "MAP_NO_PREDEFINED = - 1"
definition MAP_FILL_NODES :: int where "MAP_FILL_NODES = 1"
definition MAP_N_TASKS_PER_NODE :: int where "MAP_N_TASKS_PER_NODE = 2"
definition MAP_INTERLEAVED :: int where "MAP_INTERLEAVED = 3"

record m_task =
  m_taskid :: nat
  m_accelerator :: bool
  m_nodeid :: "int option"
  m_half_duplex :: "bool option"
  m_free_in_links :: "p_link list"
  m_free_out_links :: "p_link list"

record mapping_state =
  m_nodes :: "p_node list"
  task_mapping :: "int list"
  tasks_in_node :: "int list"
  last_task_assigned :: nat

definition start_mapping :: "nat \<Rightarrow> p_node list \<Rightarrow> mapping_state" where
  "start_mapping tasks ns = \<lparr>m_nodes = ns, task_mapping = replicate tasks (- 1), tasks_in_node = replicate (length ns) 0, last_task_assigned = 0\<rparr>"

section \<open>Tasks with an accelerator\<close>

text \<open>The first node with an accelerator that no other task has.\<close>

fun find_acc :: "(nat \<Rightarrow> bool) \<Rightarrow> nat \<Rightarrow> p_node list \<Rightarrow> nat option res" where
  "find_acc ok i [] = Inr None"
| "find_acc ok i (node # ns) =
     (if ok i \<and> p_accelerator node
      then (case p_has_accelerated_task node of None \<Rightarrow> Inl Uninit | Some taken \<Rightarrow> if taken then find_acc ok (i + 1) ns else Inr (Some i))
      else find_acc ok (i + 1) ns)"

definition use_node :: "nat \<Rightarrow> p_node list \<Rightarrow> p_node list" where
  "use_node i ns = ns[i := (ns ! i)\<lparr>p_used_node := Some True\<rparr>]"

definition map_acc_task :: "unit res \<Rightarrow> (nat \<Rightarrow> mapping_state \<Rightarrow> bool) \<Rightarrow> nat \<Rightarrow> mapping_state \<Rightarrow> mapping_state res" where
  "map_acc_task stray ok t st =
     bindE (find_acc (\<lambda>i. ok i st) 0 (m_nodes st)) (\<lambda>r. case r of
       None \<Rightarrow> Inr st
     | Some i \<Rightarrow>
         if length (task_mapping st) \<le> t then Inl OutOfBounds
         else bindE stray (\<lambda>_. Inr (st\<lparr>task_mapping := (task_mapping st)[t := int i],
           tasks_in_node := (tasks_in_node st)[i := tasks_in_node st ! i + 1], last_task_assigned := last_task_assigned st + 1,
           m_nodes := (use_node i (m_nodes st))[i := (use_node i (m_nodes st) ! i)\<lparr>p_has_accelerated_task := Some True\<rparr>]\<rparr>)))"

fun map_acc_tasks :: "unit res \<Rightarrow> (nat \<Rightarrow> nat \<Rightarrow> mapping_state \<Rightarrow> bool) \<Rightarrow> nat \<Rightarrow> m_task list \<Rightarrow> mapping_state \<Rightarrow> mapping_state res" where
  "map_acc_tasks stray ok t [] st = Inr st"
| "map_acc_tasks stray ok t (tk # tks) st =
     bindE (if m_accelerator tk then map_acc_task stray (ok t) t st else Inr st) (map_acc_tasks stray ok (t + 1) tks)"

text \<open>All applications, each from the first entry of the array on.\<close>

fun map_acc_ptasks :: "unit res \<Rightarrow> (nat \<Rightarrow> nat \<Rightarrow> mapping_state \<Rightarrow> bool) \<Rightarrow> m_task list list \<Rightarrow> mapping_state \<Rightarrow> mapping_state res" where
  "map_acc_ptasks stray ok [] st = Inr st"
| "map_acc_ptasks stray ok (p # ps) st = bindE (map_acc_tasks stray ok 0 p st) (map_acc_ptasks stray ok ps)"

section \<open>Filling nodes\<close>

definition skip_mapped :: "int list \<Rightarrow> nat \<Rightarrow> nat" where
  "skip_mapped mp la = la + length (takeWhile (\<lambda>x. x \<noteq> - 1) (drop la mp))"

text \<open>One task for each processor; the loop over the processors does not ask whether there are tasks left.\<close>

fun fill_cpus :: "int \<Rightarrow> (p_cpu \<times> real) list \<Rightarrow> int list \<Rightarrow> nat \<Rightarrow> ((p_cpu \<times> real) list \<times> int list \<times> nat) res" where
  "fill_cpus i [] mp la = Inr ([], mp, la)"
| "fill_cpus i ((c, p) # cs) mp la =
     (let l = skip_mapped mp la in
      if length mp \<le> l then Inl OutOfBounds
      else if mp ! l = - 1
      then bindE (fill_cpus i cs (mp[l := i]) (l + 1)) (\<lambda>(cs', mp', l'). Inr ((c\<lparr>p_cpu_is_used := True\<rparr>, p) # cs', mp', l'))
      else bindE (fill_cpus i cs mp l) (\<lambda>(cs', mp', l'). Inr ((c, p) # cs', mp', l')))"

fun fill_nodes :: "nat \<Rightarrow> p_node list \<Rightarrow> int list \<Rightarrow> nat \<Rightarrow> (p_node list \<times> int list) res" where
  "fill_nodes i [] mp la = Inr ([], mp)"
| "fill_nodes i (node # ns) mp la =
     (if length mp \<le> la then Inr (node # ns, mp)
      else
        bindE (fill_cpus (int i) (p_Cpus node) mp la) (\<lambda>(cs, mp1, la1).
        bindE (fill_nodes (i + 1) ns mp1 la1) (\<lambda>(ns', mp2).
        Inr (node\<lparr>p_Cpus := cs, p_used_node := (if mp1 \<noteq> mp then Some True else p_used_node node)\<rparr> # ns', mp2))))"

text \<open>Tasks that are left go to the last node.\<close>

definition TASK_Map_Filling_Nodes :: "unit res \<Rightarrow> nat \<Rightarrow> m_task list list \<Rightarrow> p_node list \<Rightarrow> (int list \<times> p_node list) res" where
  "TASK_Map_Filling_Nodes stray tasks ptasks ns =
     bindE (map_acc_ptasks stray (\<lambda>t i st. t < tasks) ptasks (start_mapping tasks ns)) (\<lambda>st.
     bindE (fill_nodes 0 (m_nodes st) (task_mapping st) 0) (\<lambda>(ns', mp).
     Inr (map (\<lambda>x. if x = - 1 then int (length ns) - 1 else x) mp, ns')))"

section \<open>So many tasks for each node\<close>

text \<open>A processor takes tasks until the node is full.\<close>

fun take_tasks :: "int \<Rightarrow> int \<Rightarrow> int list \<Rightarrow> int \<Rightarrow> int list \<times> int" where
  "take_tasks i n [] k = ([], k)"
| "take_tasks i n (x # xs) k =
     (if x = - 1 then (if k + 1 = n then (i # xs, k + 1) else (case take_tasks i n xs (k + 1) of (ys, k') \<Rightarrow> (i # ys, k')))
      else (case take_tasks i n xs k of (ys, k') \<Rightarrow> (x # ys, k')))"

fun take_cpus :: "int \<Rightarrow> int \<Rightarrow> (p_cpu \<times> real) list \<Rightarrow> int list \<Rightarrow> int \<Rightarrow> (p_cpu \<times> real) list \<times> int list \<times> int" where
  "take_cpus i n [] mp k = ([], mp, k)"
| "take_cpus i n ((c, p) # cs) mp k =
     (case take_tasks i n mp k of (mp1, k1) \<Rightarrow>
        let c1 = (if mp1 \<noteq> mp then c\<lparr>p_cpu_is_used := True\<rparr> else c)
        in if k1 = n then ((c1, p) # cs, mp1, k1)
           else (case take_cpus i n cs mp1 k1 of (cs', mp2, k2) \<Rightarrow> ((c1, p) # cs', mp2, k2)))"

fun take_nodes :: "nat \<Rightarrow> int \<Rightarrow> p_node list \<Rightarrow> int list \<Rightarrow> int list \<Rightarrow> p_node list \<times> int list" where
  "take_nodes i n (node # ns) (k # ks) mp =
     (if k = n then (case take_nodes (i + 1) n ns ks mp of (ns', mp') \<Rightarrow> (node # ns', mp'))
      else (case take_cpus (int i) n (p_Cpus node) mp k of (cs, mp1, k1) \<Rightarrow>
              case take_nodes (i + 1) n ns ks mp1 of (ns', mp') \<Rightarrow>
                (node\<lparr>p_Cpus := cs, p_used_node := (if mp1 \<noteq> mp then Some True else p_used_node node)\<rparr> # ns', mp')))"
| "take_nodes i n ns ks mp = (ns, mp)"

text \<open>The answer \<open>None\<close> is NULL.\<close>

definition TASK_Map_N_Tasks_Per_Node :: "unit res \<Rightarrow> int \<Rightarrow> m_task list list \<Rightarrow> p_node list \<Rightarrow> (int list \<times> p_node list) option res" where
  "TASK_Map_N_Tasks_Per_Node stray n ptasks ns =
     (let total = sum_list (map length ptasks) in
      if n * int (length ns) < int total then Inr None
      else
        bindE (map_acc_ptasks stray (\<lambda>t i st. tasks_in_node st ! i < n) ptasks (start_mapping total ns)) (\<lambda>st.
        case take_nodes 0 n (m_nodes st) (tasks_in_node st) (task_mapping st) of (ns', mp) \<Rightarrow> Inr (Some (mp, ns'))))"

section \<open>Interleaved\<close>

fun interleave_nodes :: "unit res \<Rightarrow> nat \<Rightarrow> nat list \<Rightarrow> mapping_state \<Rightarrow> mapping_state res" where
  "interleave_nodes stray m [] st = Inr st"
| "interleave_nodes stray m (i # js) st =
     (if length (task_mapping st) \<le> last_task_assigned st then Inr st
      else
        let l = skip_mapped (task_mapping st) (last_task_assigned st) in
        if length (task_mapping st) \<le> l then Inl OutOfBounds
        else if task_mapping st ! l = - 1
        then bindE stray (\<lambda>_. interleave_nodes stray m js
               (st\<lparr>task_mapping := (task_mapping st)[l := int (i mod m)], last_task_assigned := l + 1, m_nodes := use_node i (m_nodes st)\<rparr>))
        else interleave_nodes stray m js (st\<lparr>last_task_assigned := l\<rparr>))"

fun interleave_rounds :: "unit res \<Rightarrow> nat \<Rightarrow> nat \<Rightarrow> mapping_state \<Rightarrow> mapping_state res" where
  "interleave_rounds stray m 0 st = Inr st"
| "interleave_rounds stray m (Suc k) st =
     (if length (task_mapping st) \<le> last_task_assigned st then Inr st
      else bindE (interleave_nodes stray m [0..<m] st) (interleave_rounds stray m k))"

definition TASK_Map_Interleaved :: "unit res \<Rightarrow> nat \<Rightarrow> m_task list list \<Rightarrow> p_node list \<Rightarrow> (int list \<times> p_node list) res" where
  "TASK_Map_Interleaved stray tasks ptasks ns =
     bindE (map_acc_ptasks stray (\<lambda>t i st. t < tasks) ptasks (start_mapping tasks ns)) (\<lambda>st.
     bindE (interleave_rounds stray (length ns) tasks st) (\<lambda>st'.
     Inr (task_mapping st', m_nodes st')))"

section \<open>What a task takes from its node\<close>

text \<open>With unlimited memory links the numbers of links are those of the task before.\<close>

fun Update_Node_Info :: "int \<Rightarrow> int \<Rightarrow> m_task list \<Rightarrow> int list \<Rightarrow> p_node list \<Rightarrow> (m_task list \<times> p_node list) res" where
  "Update_Node_Info ins outs [] mp ns = Inr ([], ns)"
| "Update_Node_Info ins outs (tk # tks) [] ns = Inl OutOfBounds"
| "Update_Node_Info ins outs (tk # tks) (x # mp) ns =
     (if x < 0 \<or> int (length ns) \<le> x then Inl OutOfBounds
      else
        let node = ns ! nat x in
        case (p_in_mem_links node, p_out_mem_links node) of
          (Some a, Some b) \<Rightarrow>
            let free = (a = 0 \<and> b = 0); half = (\<not> free \<and> (a = 0 \<or> b = 0));
                ins1 = (if free then ins else if half then max a b else a);
                outs1 = (if free then outs else if half then max a b else b);
                tk1 = tk\<lparr>m_nodeid := Some x, m_half_duplex := (if half then Some True else m_half_duplex tk),
                         m_free_in_links := new_links P_IN_LINK (nat ins1), m_free_out_links := new_links P_OUT_LINK (nat outs1)\<rparr>;
                ns1 = (if free then ns[nat x := node\<lparr>p_infinite_mem_links := True\<rparr>] else ns)
            in bindE (Update_Node_Info ins1 outs1 tks mp ns1) (\<lambda>(tks', ns'). Inr (tk1 # tks', ns'))
        | _ \<Rightarrow> Inl Uninit)"

section \<open>The tasks of an application\<close>

definition TASK_New_Task :: "nat \<Rightarrow> nat \<Rightarrow> bool \<Rightarrow> p_node list \<Rightarrow> m_task res" where
  "TASK_New_Task acc_tasks t acc ns =
     (if length (filter p_accelerator ns) < acc_tasks then Inl (Die ''Cannot map accelerator tasks'')
      else Inr \<lparr>m_taskid = t, m_accelerator = acc, m_nodeid = None, m_half_duplex = None, m_free_in_links = [], m_free_out_links = []\<rparr>)"

fun new_tasks :: "nat list \<Rightarrow> nat list \<Rightarrow> p_node list \<Rightarrow> m_task list res" where
  "new_tasks accs [] ns = Inr []"
| "new_tasks accs (t # ts) ns =
     bindE (TASK_New_Task (length accs) t (t \<in> set accs) ns) (\<lambda>tk. bindE (new_tasks accs ts ns) (\<lambda>tks. Inr (tk # tks)))"

text \<open>Application \<open>k\<close> of the queue \<open>ptasks\<close> gets its tasks, a mapping and what it takes from the nodes.\<close>

definition TASK_Initialize_Ptask_Mapping ::
    "unit res \<Rightarrow> nat list \<Rightarrow> int \<Rightarrow> int \<Rightarrow> nat \<Rightarrow> nat \<Rightarrow> m_task list list \<Rightarrow> p_node list \<Rightarrow> (m_task list \<times> p_node list) res" where
  "TASK_Initialize_Ptask_Mapping stray accs map_definition per_node k tasks ptasks ns =
     bindE (new_tasks accs [0..<tasks] ns) (\<lambda>tks.
     let ptasks' = ptasks[k := tks] in
     bindE (if map_definition = MAP_FILL_NODES then TASK_Map_Filling_Nodes stray tasks ptasks' ns
            else if map_definition = MAP_N_TASKS_PER_NODE then
              bindE (TASK_Map_N_Tasks_Per_Node stray per_node ptasks' ns) (\<lambda>r. case r of
                None \<Rightarrow> Inl (Die ''tasks per node mapping not applicable'') | Some x \<Rightarrow> Inr x)
            else if map_definition = MAP_INTERLEAVED then TASK_Map_Interleaved stray tasks ptasks' ns
            else Inl (Die ''Unknow predefined map value'')) (\<lambda>(mp, ns1).
     Update_Node_Info 0 0 tks mp ns1))"

text \<open>An application with its mapping in the configuration (\<open>TASK_New_Ptask\<close>).\<close>

definition TASK_New_Ptask :: "nat list \<Rightarrow> nat \<Rightarrow> int list \<Rightarrow> p_node list \<Rightarrow> (m_task list \<times> p_node list) res" where
  "TASK_New_Ptask accs tasks mp ns = bindE (new_tasks accs [0..<tasks] ns) (\<lambda>tks. Update_Node_Info 0 0 tks mp ns)"

section \<open>The places of a communicator\<close>

fun places :: "int list \<Rightarrow> m_task list \<Rightarrow> p_node list \<Rightarrow> (nat \<times> nat) list res" where
  "places [] tks ns = Inr []"
| "places (r # rs) tks ns =
     (if r < 0 \<or> int (length tks) \<le> r then Inl Uninit
      else case m_nodeid (tks ! nat r) of None \<Rightarrow> Inl Uninit
      | Some x \<Rightarrow> if x < 0 \<or> int (length ns) \<le> x then Inl OutOfBounds
          else bindE (places rs tks ns) (\<lambda>ps. Inr ((p_nodeid (ns ! nat x), p_machine (ns ! nat x)) # ps)))"

fun changes :: "nat \<Rightarrow> nat list \<Rightarrow> nat" where
  "changes x0 [] = 0"
| "changes x0 (x # xs) = (if x \<noteq> x0 then 1 else 0) + changes x xs"

definition count_places :: "nat list \<Rightarrow> nat" where
  "count_places xs = 1 + changes (hd (sort xs)) (sort xs)"

record locality =
  same_machine :: bool
  same_node :: bool
  sharing_node :: bool

text \<open>Of a communicator without ranks the first entry of an empty array is read.\<close>

definition communicator_locality :: "int list \<Rightarrow> m_task list \<Rightarrow> p_node list \<Rightarrow> locality res" where
  "communicator_locality ranks tks ns =
     bindE (places ranks tks ns) (\<lambda>ps.
     if ps = [] then Inl OutOfBounds
     else Inr \<lparr>same_machine = (count_places (map snd ps) = 1), same_node = (count_places (map fst ps) = 1),
            sharing_node = (count_places (map fst ps) < length ranks)\<rparr>)"

end
