(* ===== verification/TaskMappingProps.thy ===== *)
theory TaskMappingProps
  imports TaskMapping
begin

text \<open>
  Where the tasks of an application go: closed forms of the three mappings for applications without accelerator tasks, with the cases in
  which C reads or writes out of its variables, and what the flags of a communicator mean.
\<close>

section \<open>Without accelerator tasks\<close>

lemma no_acc_tasks: "\<forall>tk \<in> set tks. \<not> m_accelerator tk \<Longrightarrow> map_acc_tasks stray ok t tks st = Inr st"
  by (induction tks arbitrary: t) auto

lemma no_acc_ptasks: "\<forall>p \<in> set ptasks. \<forall>tk \<in> set p. \<not> m_accelerator tk \<Longrightarrow> map_acc_ptasks stray ok ptasks st = Inr st"
  by (induction ptasks) (auto simp: no_acc_tasks)

lemma skip_at_free: "mp ! k = - 1 \<Longrightarrow> k < length mp \<Longrightarrow> skip_mapped mp k = k"
  by (simp add: skip_mapped_def Cons_nth_drop_Suc[symmetric])

abbreviation unmapped :: "nat \<Rightarrow> int list" where "unmapped m \<equiv> replicate m (- 1)"

section \<open>So many tasks for each node\<close>

lemma take_tasks_mapped: "\<forall>x \<in> set xs. x \<noteq> - 1 \<Longrightarrow>
    take_tasks i n (xs @ ys) k = (xs @ fst (take_tasks i n ys k), snd (take_tasks i n ys k))"
  by (induction xs) (auto split: prod.splits)

lemma take_tasks_all_mapped: "\<forall>x \<in> set xs. x \<noteq> - 1 \<Longrightarrow> take_tasks i n xs k = (xs, k)"
  using take_tasks_mapped[of xs i n "[]" k] by simp

lemma take_tasks_free: "k < n \<Longrightarrow> take_tasks i (int n) (unmapped m) (int k) =
    (replicate (min m (n - k)) i @ unmapped (m - (n - k)), int (min (k + m) n))"
proof (induction m arbitrary: k)
  case (Suc m)
  show ?case
  proof (cases "Suc k = n")
    case True
    then show ?thesis by auto
  next
    case False
    then have "Suc k < n" "n - k = Suc (n - Suc k)" using Suc.prems by simp_all
    then show ?thesis using Suc.IH[of "Suc k"] False by (simp add: ac_simps)
  qed
qed simp

lemma take_cpus_all_mapped: "\<forall>x \<in> set xs. x \<noteq> - 1 \<Longrightarrow> fst (snd (take_cpus i n cs xs k)) = xs"
  by (induction i n cs xs k rule: take_cpus.induct) (auto simp: take_tasks_all_mapped Let_def split: prod.splits)

lemma take_cpus_block:
  assumes "\<forall>x \<in> set xs. x \<noteq> - 1" "0 < n" "0 \<le> i" "cs \<noteq> []"
  shows "fst (snd (take_cpus i (int n) cs (xs @ unmapped m) 0)) = xs @ replicate (min m n) i @ unmapped (m - n)"
proof -
  obtain c p cs' where cs: "cs = (c, p) # cs'" using assms(4) by (metis list.exhaust prod.exhaust)
  have t: "take_tasks i (int n) (xs @ unmapped m) 0 = (xs @ replicate (min m n) i @ unmapped (m - n), int (min m n))"
    using take_tasks_free[of 0 n i m] assms(2) by (simp add: take_tasks_mapped[OF assms(1)])
  show ?thesis
  proof (cases "n \<le> m")
    case True
    then show ?thesis by (simp add: cs t Let_def)
  next
    case False
    then have "\<forall>x \<in> set (xs @ replicate m i). x \<noteq> - 1" using assms(1,3) by auto
    from take_cpus_all_mapped[OF this] obtain a b where "take_cpus i (int n) cs' (xs @ replicate m i) (int m) = (a, xs @ replicate m i, b)"
      by (metis prod.collapse)
    then show ?thesis using False by (simp add: cs t Let_def)
  qed
qed

lemma blocks_extend:
  assumes "0 < n"
  shows "map (\<lambda>j. int (j div n)) [0..<i * n] @ replicate (min m n) (int i) = map (\<lambda>j. int (j div n)) [0..<i * n + min m n]"
proof (rule nth_equalityI)
  fix j assume j: "j < length (map (\<lambda>j. int (j div n)) [0..<i * n] @ replicate (min m n) (int i))"
  show "(map (\<lambda>j. int (j div n)) [0..<i * n] @ replicate (min m n) (int i)) ! j = map (\<lambda>j. int (j div n)) [0..<i * n + min m n] ! j"
  proof (cases "j < i * n")
    case False
    then have "j - i * n < min m n" "j div n = i" using j assms by (auto intro!: div_nat_eqI simp: algebra_simps)
    with False j show ?thesis by (simp add: nth_append)
  qed (simp add: nth_append)
qed simp

lemma take_nodes_blocks:
  assumes "0 < n" "\<forall>node \<in> set ns. p_Cpus node \<noteq> []" "m \<le> n * length ns"
  shows "snd (take_nodes i (int n) ns (replicate (length ns) 0) (map (\<lambda>j. int (j div n)) [0..<i * n] @ unmapped m)) =
    map (\<lambda>j. int (j div n)) [0..<i * n + m]"
  using assms
proof (induction ns arbitrary: i m)
  case (Cons node ns)
  let ?xs = "map (\<lambda>j. int (j div n)) [0..<i * n]"
  obtain cs mp k where c: "take_cpus (int i) (int n) (p_Cpus node) (?xs @ unmapped m) 0 = (cs, mp, k)" by (metis prod.exhaust)
  have "mp = ?xs @ replicate (min m n) (int i) @ unmapped (m - n)"
    using take_cpus_block[of ?xs n "int i" "p_Cpus node" m] Cons.prems(1,2) c by simp
  then have mp: "mp = map (\<lambda>j. int (j div n)) [0..<i * n + min m n] @ unmapped (m - n)"
    using blocks_extend[OF Cons.prems(1), of i m] by (simp flip: append_assoc)
  show ?case
  proof (cases "n \<le> m")
    case True
    then have "mp = map (\<lambda>j. int (j div n)) [0..<(i + 1) * n] @ unmapped (m - n)" using mp by (simp add: add.commute)
    moreover have "m - n \<le> n * length ns" using Cons.prems(3) by simp
    ultimately have "snd (take_nodes (i + 1) (int n) ns (replicate (length ns) 0) mp) = map (\<lambda>j. int (j div n)) [0..<i * n + m]"
      using Cons.IH[of "m - n" "i + 1"] Cons.prems(1,2) True by (simp add: algebra_simps)
    then show ?thesis using Cons.prems(1) c by (auto split: prod.splits)
  next
    case False
    have "snd (take_nodes j q ns' ks xs) = xs" if "\<forall>x \<in> set xs. x \<noteq> - 1" for j q ns' ks xs
      using that by (induction j q ns' ks xs rule: take_nodes.induct)
        (auto split: prod.splits dest: take_cpus_all_mapped[where xs = xs], (metis fst_conv snd_conv take_cpus_all_mapped)+)
    from this[of mp "i + 1" "int n" ns "replicate (length ns) 0"] False mp show ?thesis
      using Cons.prems(1) c by (auto split: prod.splits)
  qed
qed simp

text \<open>
  Property C37. With so many tasks for each node, no accelerator tasks and a processor in each node, the mapping is NULL exactly when the
  tasks of all applications do not fit; otherwise the tasks go to the nodes in blocks, whatever the number of processors.
\<close>

theorem n_tasks_per_node_maps_blocks:
  assumes "\<forall>p \<in> set ptasks. \<forall>tk \<in> set p. \<not> m_accelerator tk" "\<forall>node \<in> set ns. p_Cpus node \<noteq> []" "0 < n"
  shows "if n * length ns < sum_list (map length ptasks) then TASK_Map_N_Tasks_Per_Node stray (int n) ptasks ns = Inr None
    else \<exists>ns'. TASK_Map_N_Tasks_Per_Node stray (int n) ptasks ns =
      Inr (Some (map (\<lambda>j. int (j div n)) [0..<sum_list (map length ptasks)], ns'))"
proof (cases "n * length ns < sum_list (map length ptasks)")
  case True
  then have "int n * int (length ns) < int (sum_list (map length ptasks))" by (metis of_nat_less_iff of_nat_mult)
  with True show ?thesis by (simp add: TASK_Map_N_Tasks_Per_Node_def Let_def)
next
  case False
  then have "\<not> int n * int (length ns) < int (sum_list (map length ptasks))" by (metis of_nat_less_iff of_nat_mult)
  with False show ?thesis
    using take_nodes_blocks[OF assms(3,2), of "sum_list (map length ptasks)" 0]
    by (auto simp: TASK_Map_N_Tasks_Per_Node_def Let_def no_acc_ptasks[OF assms(1)] start_mapping_def split: prod.splits)
qed

definition ex_task :: "nat \<Rightarrow> m_task" where
  "ex_task t = \<lparr>m_taskid = t, m_accelerator = False, m_nodeid = None, m_half_duplex = None, m_free_in_links = [], m_free_out_links = []\<rparr>"

definition ex_node :: "nat \<Rightarrow> nat \<Rightarrow> p_node" where
  "ex_node cpus i = (NODE_Init_Empty_Node 0 i)\<lparr>p_Cpus := map (\<lambda>j. (\<lparr>p_cpuid = int j + 1, p_is_gpu = False, p_cpu_is_used = False,
     p_unique_number = None\<rparr>, real j + 1)) [0..<cpus]\<rparr>"

theorem n_tasks_per_node_maps_blocks_witness:
  "\<exists>ns'. TASK_Map_N_Tasks_Per_Node (Inr ()) 2 [map ex_task [0..<3], map ex_task [0..<2]] (map (ex_node 1) [0..<3]) =
    Inr (Some ([0, 0, 1, 1, 2], ns'))"
proof -
  have "\<forall>p \<in> set [map ex_task [0..<3], map ex_task [0..<2]]. \<forall>tk \<in> set p. \<not> m_accelerator tk"
    "\<forall>node \<in> set (map (ex_node 1) [0..<3]). p_Cpus node \<noteq> []"
    by (auto simp: ex_task_def ex_node_def)
  from n_tasks_per_node_maps_blocks[OF this, of 2 "Inr ()"] show ?thesis by (simp add: upt_rec)
qed

section \<open>Interleaved\<close>

definition interleaved :: "nat \<Rightarrow> nat \<Rightarrow> nat \<Rightarrow> mapping_state \<Rightarrow> bool" where
  "interleaved m tasks k st \<longleftrightarrow> k \<le> tasks \<and> last_task_assigned st = k \<and>
     task_mapping st = map (\<lambda>j. int (j mod m)) [0..<k] @ unmapped (tasks - k)"

lemma interleaved_step:
  assumes "interleaved m tasks k st" "k < tasks" "k mod m = i"
  shows "interleaved m tasks (k + 1) (st\<lparr>task_mapping := (task_mapping st)[k := int (i mod m)], last_task_assigned := k + 1, m_nodes := ns\<rparr>)"
proof -
  have "unmapped (tasks - k) = - 1 # unmapped (tasks - (k + 1))" using assms(2) by (simp add: Suc_diff_Suc flip: replicate_Suc)
  then show ?thesis using assms by (auto simp: interleaved_def list_update_append)
qed

lemma interleave_pass:
  assumes "interleaved m tasks k st" "k mod m = i" "i \<le> m" "0 < m" "k < tasks \<Longrightarrow> i < m"
  shows "\<exists>st'. interleave_nodes (Inr ()) m [i..<m] st = Inr st' \<and> interleaved m tasks (min tasks (k + (m - i))) st'"
  using assms
proof (induction "m - i" arbitrary: i k st)
  case (Suc d)
  then have i: "[i..<m] = i # [i + 1..<m]" "i < m" by (simp_all add: upt_rec)
  show ?case
  proof (cases "k < tasks")
    case True
    let ?st = "st\<lparr>task_mapping := (task_mapping st)[k := int (i mod m)], last_task_assigned := k + 1, m_nodes := use_node i (m_nodes st)\<rparr>"
    have st: "last_task_assigned st = k" "length (task_mapping st) = tasks" "task_mapping st ! k = - 1"
      using Suc.prems(1) True by (auto simp: interleaved_def nth_append)
    have next': "interleaved m tasks (k + 1) ?st" using interleaved_step[OF Suc.prems(1) True Suc.prems(2)] .
    have step: "interleave_nodes (Inr ()) m [i..<m] st = interleave_nodes (Inr ()) m [i + 1..<m] ?st"
      unfolding i(1) using True by (simp add: st skip_at_free Let_def bindE_Inr)
    show ?thesis
    proof (cases "i + 1 = m")
      case True
      have k: "min tasks (k + (m - i)) = k + 1" using True \<open>k < tasks\<close> by (simp add: min_def flip: True)
      have "interleave_nodes (Inr ()) m [i..<m] st = Inr ?st" unfolding step using True by simp
      then show ?thesis unfolding k by (intro exI[of _ ?st] conjI) (assumption, rule next')
    next
      case False
      then have "(k + 1) mod m = i + 1" using Suc.prems(2) by (simp add: mod_Suc)
      moreover have "k + 1 + (m - (i + 1)) = k + (m - i)" using i(2) by simp
      ultimately show ?thesis using Suc.hyps(1)[OF _ next', of "i + 1"] Suc.hyps(2) False i(2) Suc.prems(4) step by simp
    qed
  next
    case False
    then have "interleave_nodes (Inr ()) m [i..<m] st = Inr st" "k = tasks"
      using Suc.prems(1) unfolding i(1) by (auto simp: interleaved_def)
    then show ?thesis using Suc.prems(1) by auto
  qed
next
  case 0
  then have "k mod m < m" using mod_less_divisor[of m k] by blast
  then show ?case using 0 by simp
qed

lemma interleave_all:
  assumes "0 < m" "interleaved m tasks (min tasks (r * m)) st"
  shows "\<exists>st'. interleave_rounds (Inr ()) m d st = Inr st' \<and> interleaved m tasks (min tasks ((r + d) * m)) st'"
  using assms(2)
proof (induction d arbitrary: r st)
  case (Suc d)
  have len: "last_task_assigned st = min tasks (r * m)" "length (task_mapping st) = tasks"
    using Suc.prems by (auto simp: interleaved_def)
  show ?case
  proof (cases "tasks \<le> r * m")
    case True
    then have "min tasks (r * m) = tasks" "min tasks ((r + Suc d) * m) = tasks" by (simp_all add: min_def algebra_simps)
    then show ?thesis using len Suc.prems by auto
  next
    case False
    then obtain st' where st': "interleave_nodes (Inr ()) m [0..<m] st = Inr st'" "interleaved m tasks (min tasks ((r + 1) * m)) st'"
      using interleave_pass[OF Suc.prems, of 0] assms(1) by (auto simp: min_def algebra_simps)
    from Suc.IH[OF st'(2)] show ?thesis using False len st'(1) by (simp add: bindE_Inr)
  qed
qed simp

text \<open>
  Interleaved, task \<open>i\<close> goes to node \<open>i mod nodes\<close>; but every task that is mapped writes through a pointer to a processor that
  was never set, so the result is that of this write as soon as there is a task and a node.
\<close>

theorem interleaved_maps_modulo:
  assumes "\<forall>p \<in> set ptasks. \<forall>tk \<in> set p. \<not> m_accelerator tk" "ns \<noteq> []" "0 < tasks"
  shows "\<exists>ns'. TASK_Map_Interleaved (Inr ()) tasks ptasks ns = Inr (map (\<lambda>i. int (i mod length ns)) [0..<tasks], ns')"
    and "TASK_Map_Interleaved (Inl e) tasks ptasks ns = Inl e"
proof -
  let ?st = "start_mapping tasks ns"
  have "interleaved (length ns) tasks (min tasks (0 * length ns)) ?st" by (simp add: interleaved_def start_mapping_def)
  from interleave_all[OF _ this, of tasks] assms(2) obtain st where
    "interleave_rounds (Inr ()) (length ns) tasks ?st = Inr st" "interleaved (length ns) tasks (min tasks (tasks * length ns)) st" by auto
  moreover have "min tasks (tasks * length ns) = tasks" using assms(2) by (cases ns) auto
  ultimately show "\<exists>ns'. TASK_Map_Interleaved (Inr ()) tasks ptasks ns = Inr (map (\<lambda>i. int (i mod length ns)) [0..<tasks], ns')"
    by (simp add: TASK_Map_Interleaved_def no_acc_ptasks[OF assms(1)] bindE_Inr interleaved_def)
  obtain t' w' where "tasks = Suc t'" "length ns = Suc w'" using assms(2,3) by (cases tasks; cases ns) auto
  then show "TASK_Map_Interleaved (Inl e) tasks ptasks ns = Inl e"
    by (simp add: TASK_Map_Interleaved_def no_acc_ptasks[OF assms(1)] start_mapping_def bindE_Inr upt_rec[of 0 "Suc w'"]
        skip_mapped_def Let_def bindE_def del: upt_Suc)
qed

theorem interleaved_maps_modulo_witness:
  "(\<exists>ns'. TASK_Map_Interleaved (Inr ()) 5 [map ex_task [0..<5]] (map (ex_node 1) [0..<2]) = Inr ([0, 1, 0, 1, 0], ns')) \<and>
   TASK_Map_Interleaved (Inl Uninit) 5 [map ex_task [0..<5]] (map (ex_node 1) [0..<2]) = Inl Uninit"
proof -
  have a: "\<forall>p \<in> set [map ex_task [0..<5]]. \<forall>tk \<in> set p. \<not> m_accelerator tk" "map (ex_node 1) [0..<2] \<noteq> []" "(0::nat) < 5"
    by (auto simp: ex_task_def)
  have "map (\<lambda>i. int (i mod length (map (ex_node 1) [0..<2]))) [0..<5] = [0, 1, 0, 1, 0]" by code_simp
  with interleaved_maps_modulo[OF a] show ?thesis by (metis (no_types))
qed

section \<open>Filling nodes\<close>

definition cpus_of :: "p_node list \<Rightarrow> nat" where
  "cpus_of ns = sum_list (map (\<lambda>node. length (p_Cpus node)) ns)"

fun cpu_slots :: "nat \<Rightarrow> p_node list \<Rightarrow> int list" where
  "cpu_slots i [] = []"
| "cpu_slots i (node # ns) = replicate (length (p_Cpus node)) (int i) @ cpu_slots (i + 1) ns"

text \<open>The tasks end inside a node.\<close>

definition ends_inside :: "nat \<Rightarrow> p_node list \<Rightarrow> bool" where
  "ends_inside m ns \<longleftrightarrow> (\<exists>j < length ns. cpus_of (take j ns) < m \<and> m < cpus_of (take (j + 1) ns))"

lemma ends_inside_Cons: "ends_inside m (node # ns) \<longleftrightarrow>
    0 < m \<and> m < length (p_Cpus node) \<or> length (p_Cpus node) < m \<and> ends_inside (m - length (p_Cpus node)) ns"
proof -
  have "(\<exists>j < length ns. cpus_of (take j ns) < m - length (p_Cpus node) \<and> m - length (p_Cpus node) < cpus_of (take (j + 1) ns)) \<longleftrightarrow>
      (\<exists>j < length ns. length (p_Cpus node) + cpus_of (take j ns) < m \<and> m < length (p_Cpus node) + cpus_of (take (j + 1) ns))"
    by (intro ex_cong) auto
  then show ?thesis by (auto simp: ends_inside_def cpus_of_def Ex_less_Suc2)
qed

lemma slots_length: "length (cpu_slots i ns) = cpus_of ns"
  by (induction ns arbitrary: i) (simp_all add: cpus_of_def)

lemma fill_cpus_free:
  assumes "\<forall>x \<in> set xs. x \<noteq> - 1" "0 \<le> i"
  shows "if m < length cs then fill_cpus i cs (xs @ unmapped m) (length xs) = Inl OutOfBounds
    else \<exists>cs'. fill_cpus i cs (xs @ unmapped m) (length xs) = Inr (cs', xs @ replicate (length cs) i @ unmapped (m - length cs), length xs + length cs)"
  using assms
proof (induction cs arbitrary: xs m)
  case (Cons cp cs)
  obtain c p where cp: "cp = (c, p)" by (cases cp)
  show ?case
  proof (cases m)
    case 0
    then show ?thesis by (simp add: cp skip_mapped_def)
  next
    case (Suc m')
    have "fill_cpus i (cp # cs) (xs @ unmapped m) (length xs) =
        bindE (fill_cpus i cs ((xs @ [i]) @ unmapped m') (length (xs @ [i]))) (\<lambda>(cs', mp', l'). Inr ((c\<lparr>p_cpu_is_used := True\<rparr>, p) # cs', mp', l'))"
      using skip_at_free[of "xs @ unmapped m" "length xs"] by (simp add: cp Suc Let_def nth_append list_update_append)
    moreover have "\<forall>x \<in> set (xs @ [i]). x \<noteq> - 1" using Cons.prems by auto
    from Cons.IH[OF this Cons.prems(2), of m'] Suc
    have "if m < length (cp # cs) then fill_cpus i cs ((xs @ [i]) @ unmapped m') (length (xs @ [i])) = Inl OutOfBounds
      else \<exists>cs'. fill_cpus i cs ((xs @ [i]) @ unmapped m') (length (xs @ [i])) =
        Inr (cs', xs @ replicate (length (cp # cs)) i @ unmapped (m - length (cp # cs)), length xs + length (cp # cs))" by (cases "m' < length cs") simp_all
    ultimately show ?thesis by (auto simp: bindE_def split: if_splits)
  qed
qed simp

lemma fill_nodes_free:
  assumes "\<forall>x \<in> set xs. x \<noteq> - 1"
  shows "if ends_inside m ns then fill_nodes i ns (xs @ unmapped m) (length xs) = Inl OutOfBounds
    else \<exists>ns'. fill_nodes i ns (xs @ unmapped m) (length xs) = Inr (ns', xs @ take m (cpu_slots i ns) @ unmapped (m - cpus_of ns))"
  using assms
proof (induction ns arbitrary: i xs m)
  case (Cons node ns)
  let ?c = "length (p_Cpus node)"
  have cpus: "cpus_of (node # ns) = ?c + cpus_of ns" by (simp add: cpus_of_def)
  consider "m = 0" | "0 < m" "m < ?c" | "0 < m" "?c \<le> m" by linarith
  then show ?case
  proof cases
    case 2
    then show ?thesis using fill_cpus_free[OF Cons.prems, of "int i" m "p_Cpus node"] by (simp add: ends_inside_Cons bindE_def)
  next
    case 3
    let ?ys = "xs @ replicate ?c (int i)"
    obtain cs' where cs': "fill_cpus (int i) (p_Cpus node) (xs @ unmapped m) (length xs) =
        Inr (cs', ?ys @ unmapped (m - ?c), length ?ys)"
      using fill_cpus_free[OF Cons.prems, of "int i" m "p_Cpus node"] 3 by auto
    have "\<forall>x \<in> set ?ys. x \<noteq> - 1" using Cons.prems by auto
    note IH = Cons.IH[OF this, of "m - ?c" "i + 1"]
    have inside: "ends_inside m (node # ns) = ends_inside (m - ?c) ns" using 3 ends_inside_Cons[of m node ns] by (cases "m = ?c") (simp_all add: ends_inside_def)
    have t: "take m (cpu_slots i (node # ns)) = replicate ?c (int i) @ take (m - ?c) (cpu_slots (i + 1) ns)" using 3 by simp
    show ?thesis
    proof (cases "ends_inside (m - ?c) ns")
      case True
      then show ?thesis using IH 3 cs' inside by (simp add: bindE_def)
    next
      case False
      then show ?thesis using IH 3 cs' inside t cpus by (auto simp: bindE_def)
    qed
  qed (simp add: ends_inside_Cons)
qed (simp add: ends_inside_def cpus_of_def)

text \<open>
  Property C36. Filling nodes, without accelerator tasks, works exactly when the tasks end at the end of a node or do not fit: each processor
  in turn takes a task and what is left goes to the last node. When the tasks end inside a node the loop over its processors reads, and
  may write, past the array.
\<close>

theorem filling_ends_with_a_node:
  assumes "\<forall>p \<in> set ptasks. \<forall>tk \<in> set p. \<not> m_accelerator tk"
  shows "if ends_inside tasks ns then TASK_Map_Filling_Nodes stray tasks ptasks ns = Inl OutOfBounds
    else \<exists>ns'. TASK_Map_Filling_Nodes stray tasks ptasks ns =
      Inr (take tasks (cpu_slots 0 ns) @ replicate (tasks - cpus_of ns) (int (length ns) - 1), ns')"
proof -
  have "\<forall>x \<in> set (cpu_slots i ns). x \<noteq> - 1" for i by (induction ns arbitrary: i) auto
  then have "\<forall>x \<in> set (take tasks (cpu_slots 0 ns)). x \<noteq> - 1" by (auto dest: in_set_takeD)
  then have "map (\<lambda>x. if x = - 1 then int (length ns) - 1 else x) (take tasks (cpu_slots 0 ns)) = take tasks (cpu_slots 0 ns)"
    by (intro map_idI) auto
  then show ?thesis
    using fill_nodes_free[of "[]" tasks ns 0]
    by (auto simp: TASK_Map_Filling_Nodes_def no_acc_ptasks[OF assms] start_mapping_def bindE_def split: if_splits)
qed

theorem filling_ends_with_a_node_witness:
  "TASK_Map_Filling_Nodes (Inr ()) 3 [map ex_task [0..<3]] (map (ex_node 2) [0..<2]) = Inl OutOfBounds \<and>
   (\<exists>ns'. TASK_Map_Filling_Nodes (Inr ()) 5 [map ex_task [0..<5]] (map (ex_node 2) [0..<2]) = Inr ([0, 0, 1, 1, 1], ns'))"
proof -
  have acc: "\<forall>p \<in> set [map ex_task js]. \<forall>tk \<in> set p. \<not> m_accelerator tk" for js by (auto simp: ex_task_def)
  have "ends_inside 3 (map (ex_node 2) [0..<2])" "\<not> ends_inside 5 (map (ex_node 2) [0..<2])"
    by (simp_all add: upt_rec ends_inside_Cons) (simp_all add: ends_inside_def ex_node_def)
  moreover have "take 5 (cpu_slots 0 (map (ex_node 2) [0..<2])) @ replicate (5 - cpus_of (map (ex_node 2) [0..<2])) (int (length (map (ex_node 2) [0..<2])) - 1) =
      [0, 0, 1, 1, 1]" by code_simp
  ultimately show ?thesis
    using filling_ends_with_a_node[OF acc, of 3 "map (ex_node 2) [0..<2]" "Inr ()" "[0..<3]"]
      filling_ends_with_a_node[OF acc, of 5 "map (ex_node 2) [0..<2]" "Inr ()" "[0..<5]"] by (metis (no_types))
qed

section \<open>The places of a communicator\<close>

lemma changes_sorted: "sorted (x # xs) \<Longrightarrow> changes x xs + 1 = card (set (x # xs))"
proof (induction xs arbitrary: x)
  case (Cons y ys)
  have "x < y \<Longrightarrow> x \<notin> set (y # ys)" using Cons.prems by auto
  then show ?case using Cons.IH[of y] Cons.prems by (cases "x = y") (auto simp: card_insert_if)
qed simp

lemma count_places_card: "xs \<noteq> [] \<Longrightarrow> count_places xs = card (set xs)"
proof -
  assume "xs \<noteq> []"
  then obtain y ys where y: "sort xs = y # ys" by (metis list.exhaust set_empty set_sort)
  have "count_places xs = 1 + changes y (y # ys)" by (simp only: count_places_def y list.sel)
  also have "\<dots> = card (set (sort xs))" using changes_sorted[of y ys] sorted_sort[of xs] unfolding y by simp
  finally show ?thesis by simp
qed

definition rank_node :: "m_task list \<Rightarrow> p_node list \<Rightarrow> int \<Rightarrow> p_node" where
  "rank_node tks ns r = ns ! nat (the (m_nodeid (tks ! nat r)))"

definition rank_ok :: "m_task list \<Rightarrow> p_node list \<Rightarrow> int \<Rightarrow> bool" where
  "rank_ok tks ns r \<longleftrightarrow> 0 \<le> r \<and> r < int (length tks) \<and> (\<exists>x. m_nodeid (tks ! nat r) = Some x \<and> 0 \<le> x \<and> x < int (length ns))"

lemma places_of_ranks: "\<forall>r \<in> set ranks. rank_ok tks ns r \<Longrightarrow>
    places ranks tks ns = Inr (map (\<lambda>r. (p_nodeid (rank_node tks ns r), p_machine (rank_node tks ns r))) ranks)"
  by (induction ranks) (auto simp: rank_ok_def rank_node_def bindE_def)

lemma one_place: "xs \<noteq> [] \<Longrightarrow> card (set xs) = 1 \<longleftrightarrow> (\<forall>x \<in> set xs. \<forall>y \<in> set xs. x = y)"
  by (cases xs) (auto simp: card_1_singleton_iff)

lemma not_distinct_map: "\<not> distinct (map f xs) \<longleftrightarrow> (\<exists>i < length xs. \<exists>j < i. f (xs ! i) = f (xs ! j))"
proof
  assume "\<not> distinct (map f xs)"
  then obtain i j where ij: "i < length xs" "j < length xs" "i \<noteq> j" "f (xs ! i) = f (xs ! j)"
    unfolding distinct_conv_nth by (auto simp: nth_map)
  then consider "j < i" | "i < j" by linarith
  then show "\<exists>i < length xs. \<exists>j < i. f (xs ! i) = f (xs ! j)" using ij(1,2,4) by cases fastforce+
next
  assume "\<exists>i < length xs. \<exists>j < i. f (xs ! i) = f (xs ! j)"
  then obtain i j where "i < length xs" "j < i" "f (xs ! i) = f (xs ! j)" by blast
  then have "i < length (map f xs)" "j < length (map f xs)" "i \<noteq> j" "map f xs ! i = map f xs ! j" by simp_all
  then show "\<not> distinct (map f xs)" by (metis nth_eq_iff_index_eq)
qed

text \<open>
  Property C38. The flags of a communicator say what their names do, for ranks whose tasks have a node: the ranks are all on one machine, all on
  one node, two of them share a node. A communicator of one rank is on one node and shares none.
\<close>

theorem communicator_flags:
  assumes "\<forall>r \<in> set ranks. rank_ok tks ns r" "ranks \<noteq> []"
  shows "communicator_locality ranks tks ns = Inr
    \<lparr>same_machine = (\<forall>r \<in> set ranks. \<forall>q \<in> set ranks. p_machine (rank_node tks ns r) = p_machine (rank_node tks ns q)),
     same_node = (\<forall>r \<in> set ranks. \<forall>q \<in> set ranks. p_nodeid (rank_node tks ns r) = p_nodeid (rank_node tks ns q)),
     sharing_node = (\<exists>i < length ranks. \<exists>j < i. p_nodeid (rank_node tks ns (ranks ! i)) = p_nodeid (rank_node tks ns (ranks ! j)))\<rparr>"
proof -
  let ?n = "map (\<lambda>r. p_nodeid (rank_node tks ns r)) ranks" and ?m = "map (\<lambda>r. p_machine (rank_node tks ns r)) ranks"
  have one: "card (set ?n) = 1 \<longleftrightarrow> (\<forall>r \<in> set ranks. \<forall>q \<in> set ranks. p_nodeid (rank_node tks ns r) = p_nodeid (rank_node tks ns q))"
      "card (set ?m) = 1 \<longleftrightarrow> (\<forall>r \<in> set ranks. \<forall>q \<in> set ranks. p_machine (rank_node tks ns r) = p_machine (rank_node tks ns q))"
    using one_place[of ?n] one_place[of ?m] assms(2) by simp_all
  have "card (set ?n) < length ranks \<longleftrightarrow> \<not> distinct ?n"
    using card_length[of ?n] by (metis card_distinct distinct_card le_neq_implies_less length_map less_irrefl)
  then have share: "card (set ?n) < length ranks \<longleftrightarrow>
      (\<exists>i < length ranks. \<exists>j < i. p_nodeid (rank_node tks ns (ranks ! i)) = p_nodeid (rank_node tks ns (ranks ! j)))"
    unfolding not_distinct_map .
  show ?thesis
    unfolding communicator_locality_def places_of_ranks[OF assms(1)] bindE_Inr
    using assms(2) one share by (simp add: o_def count_places_card)
qed

definition on_node :: "nat \<Rightarrow> nat \<Rightarrow> m_task" where
  "on_node t x = (ex_task t)\<lparr>m_nodeid := Some (int x)\<rparr>"

theorem communicator_flags_witness:
  "communicator_locality [0, 1, 2] [on_node 0 0, on_node 1 0, on_node 2 1] [ex_node 1 0, ex_node 1 1] =
    Inr \<lparr>same_machine = True, same_node = False, sharing_node = True\<rparr>"
proof -
  define tks ns where "tks = [on_node 0 0, on_node 1 0, on_node 2 1]" and "ns = [ex_node 1 0, ex_node 1 1]"
  have ok: "\<forall>r \<in> set [0, 1, 2]. rank_ok tks ns r" by (simp add: rank_ok_def on_node_def tks_def ns_def)
  have n: "p_nodeid (ex_node c i) = i" "p_machine (ex_node c i) = 0" for c i by (simp_all add: ex_node_def NODE_Init_Empty_Node_def)
  have f: "p_nodeid (rank_node tks ns 0) = 0" "p_nodeid (rank_node tks ns 1) = 0" "p_nodeid (rank_node tks ns 2) = 1"
      "p_machine (rank_node tks ns 0) = 0" "p_machine (rank_node tks ns 1) = 0" "p_machine (rank_node tks ns 2) = 0"
    by (simp_all add: rank_node_def on_node_def n tks_def ns_def)
  have "\<exists>i < length [0, 1, 2::int]. \<exists>j < i. p_nodeid (rank_node tks ns ([0, 1, 2] ! i)) = p_nodeid (rank_node tks ns ([0, 1, 2] ! j))"
    by (rule exI[of _ 1]) (simp add: f)
  then have "communicator_locality [0, 1, 2] tks ns = Inr \<lparr>same_machine = True, same_node = False, sharing_node = True\<rparr>"
    unfolding communicator_flags[OF ok list.distinct(2)] by (simp add: f)
  then show ?thesis by (simp only: tks_def ns_def)
qed

end
