(* ===== verification/CText.thy ===== *)
theory CText
  imports Prelude
begin

text \<open>
  What the trace files need of the C library: lines of a file, \<open>printf\<close> and \<open>scanf\<close> for the conversions of \<^verbatim>\<open>Dimemas_Generation.h\<close> and
  \<^verbatim>\<open>file_data_access.h\<close>, \<open>strtok\<close> and \<open>atoi\<close>. A format is the string of the source, which \<open>directives\<close> takes apart. Integers that a
  conversion cannot represent are undefined in C (\<open>Overflow\<close>); doubles are reals, rounded to the decimals that are printed, half to even;
  infinities, NaN and hexadecimal numbers are left out. Files are text, without null characters.
\<close>

section \<open>Characters and numbers\<close>

abbreviation NL :: char where "NL \<equiv> CHR 0x0A"

definition is_space :: "char \<Rightarrow> bool" where
  "is_space c \<longleftrightarrow> c \<in> {CHR '' '', CHR 0x09, NL, CHR 0x0B, CHR 0x0C, CHR 0x0D}"

definition code_of :: "char \<Rightarrow> nat" where "code_of = of_char"

definition is_digit :: "char \<Rightarrow> bool" where
  "is_digit c \<longleftrightarrow> 48 \<le> code_of c \<and> code_of c \<le> 57"

definition digit :: "nat \<Rightarrow> char" where
  "digit n = char_of (48 + n)"

definition digit_value :: "char \<Rightarrow> nat" where
  "digit_value c = code_of c - 48"

fun show_nat :: "nat \<Rightarrow> string" where
  "show_nat n = (if n < 10 then [digit n] else show_nat (n div 10) @ [digit (n mod 10)])"

declare show_nat.simps [simp del]

definition show_int :: "int \<Rightarrow> string" where
  "show_int i = (if i < 0 then CHR ''-'' # show_nat (nat (- i)) else show_nat (nat i))"

definition round_even :: "real \<Rightarrow> int" where
  "round_even x = (let f = \<lfloor>x\<rfloor> in if x - of_int f < 1 / 2 \<or> x - of_int f = 1 / 2 \<and> even f then f else f + 1)"

definition pad :: "nat \<Rightarrow> string \<Rightarrow> string" where
  "pad k s = replicate (k - length s) (CHR ''0'') @ s"

definition show_fixed :: "nat \<Rightarrow> real \<Rightarrow> string" where
  "show_fixed k x = (let n = nat (round_even (\<bar>x\<bar> * 10 ^ k)) in
     (if x < 0 then ''-'' else []) @ show_nat (n div 10 ^ k) @ CHR ''.'' # pad k (show_nat (n mod 10 ^ k)))"

definition read_digits :: "nat \<Rightarrow> string \<Rightarrow> nat" where
  "read_digits = foldl (\<lambda>n c. 10 * n + digit_value c)"

definition sign_of :: "string \<Rightarrow> bool \<times> string" where
  "sign_of s = (case s of [] \<Rightarrow> (False, s) | c # cs \<Rightarrow> if c = CHR ''-'' then (True, cs) else if c = CHR ''+'' then (False, cs) else (False, s))"

text \<open>Leading white space, a sign, digits; what follows is left.\<close>

definition scan_int :: "string \<Rightarrow> (int \<times> string) option" where
  "scan_int s = (case sign_of (dropWhile is_space s) of (neg, t) \<Rightarrow>
     let ds = takeWhile is_digit t; v = int (read_digits 0 ds) in
     if ds = [] then None else Some (if neg then - v else v, dropWhile is_digit t))"

definition fraction_of :: "string \<Rightarrow> string \<times> string" where
  "fraction_of s = (case s of [] \<Rightarrow> ([], s) | c # cs \<Rightarrow> if c = CHR ''.'' then (takeWhile is_digit cs, dropWhile is_digit cs) else ([], s))"

definition exponent_of :: "string \<Rightarrow> (int \<times> string) option" where
  "exponent_of s = (case s of [] \<Rightarrow> Some (0, s) | c # cs \<Rightarrow> if c = CHR ''e'' \<or> c = CHR ''E'' then
     (case sign_of cs of (neg, t) \<Rightarrow> let ds = takeWhile is_digit t; v = int (read_digits 0 ds) in
        if ds = [] then None else Some (if neg then - v else v, dropWhile is_digit t)) else Some (0, s))"

definition scan_real :: "string \<Rightarrow> (real \<times> string) option" where
  "scan_real s = (case sign_of (dropWhile is_space s) of (neg, t) \<Rightarrow>
     let ds = takeWhile is_digit t; (fs, r) = fraction_of (dropWhile is_digit t) in
     if ds = [] \<and> fs = [] then None
     else case exponent_of r of None \<Rightarrow> None | Some (e, r') \<Rightarrow>
       let v = real (read_digits 0 (ds @ fs)) / 10 ^ length fs * 10 ^ nat e / 10 ^ nat (- e) in Some (if neg then - v else v, r'))"

section \<open>Formats\<close>

datatype directive =
    CLit char
  | CBlank
  | CInt nat
  | CUnsigned nat
  | CReal nat
  | CChar
  | CWord
  | CUntil char

text \<open>The conversions the program uses: \<open>%d\<close>, \<open>%ld\<close>, \<open>%lld\<close>, \<open>%llu\<close>, \<open>%zu\<close>, \<open>%lf\<close>, \<open>%.9f\<close>, \<open>%c\<close>, \<open>%s\<close>, \<open>%[^x]\<close>.\<close>

definition conversions :: "(string \<times> directive) list" where
  "conversions = [(''d'', CInt 32), (''ld'', CInt 64), (''lld'', CInt 64), (''llu'', CUnsigned 64), (''zu'', CUnsigned 64), (''lf'', CReal 6),
     (''.9f'', CReal 9), (''c'', CChar), (''s'', CWord)]"

fun strip :: "string \<Rightarrow> string \<Rightarrow> string option" where
  "strip [] s = Some s"
| "strip (c # cs) (x # xs) = (if c = x then strip cs xs else None)"
| "strip (c # cs) [] = None"

fun first_conversion :: "(string \<times> directive) list \<Rightarrow> string \<Rightarrow> (directive \<times> string) option" where
  "first_conversion [] s = None"
| "first_conversion ((name, d) # ds) s = (case strip name s of None \<Rightarrow> first_conversion ds s | Some r \<Rightarrow> Some (d, r))"

definition until :: "string \<Rightarrow> (directive \<times> string) option" where
  "until s = (case s of [] \<Rightarrow> None | c # r \<Rightarrow> map_option (\<lambda>r'. (CUntil c, r')) (strip '']'' r))"

definition conversion :: "string \<Rightarrow> (directive \<times> string) option" where
  "conversion s = (case strip ''[^'' s of None \<Rightarrow> first_conversion conversions s | Some r \<Rightarrow> until r)"

lemma strip_length: "strip cs s = Some r \<Longrightarrow> length r \<le> length s"
  by (induction cs s rule: strip.induct) (auto split: if_splits)

lemma first_conversion_length: "first_conversion ds s = Some (d, r) \<Longrightarrow> length r \<le> length s"
  by (induction ds s rule: first_conversion.induct) (auto split: option.splits dest: strip_length)

lemma until_length: "until s = Some (d, r) \<Longrightarrow> length r \<le> length s"
  by (auto simp: until_def split: list.splits dest!: strip_length)

lemma conversion_length: "conversion s = Some (d, r) \<Longrightarrow> length r \<le> length s"
  unfolding conversion_def by (fastforce split: option.splits dest: first_conversion_length until_length strip_length)

function directives :: "string \<Rightarrow> directive list" where
  "directives [] = []"
| "directives (c # s) =
     (if c = CHR ''%'' then (case conversion s of None \<Rightarrow> [] | Some (d, r) \<Rightarrow> d # directives r)
      else if is_space c then CBlank # directives s
      else CLit c # directives s)"
  by pat_completeness auto
termination by (relation "measure length") (auto dest: conversion_length)

section \<open>Printing and scanning\<close>

datatype c_value = I int | R real | C char | S string

text \<open>White space of a format is printed as it is; the program prints only line feeds.\<close>

fun emit :: "directive list \<Rightarrow> c_value list \<Rightarrow> string" where
  "emit [] vs = []"
| "emit (CLit c # ds) vs = c # emit ds vs"
| "emit (CBlank # ds) vs = NL # emit ds vs"
| "emit (CReal k # ds) (R x # vs) = show_fixed k x @ emit ds vs"
| "emit (CInt w # ds) (I i # vs) = show_int i @ emit ds vs"
| "emit (CWord # ds) (S s # vs) = s @ emit ds vs"
| "emit ds vs = []"

definition fprintf :: "string \<Rightarrow> c_value list \<Rightarrow> string" where
  "fprintf fmt vs = emit (directives fmt) vs"

definition fits :: "nat \<Rightarrow> int \<Rightarrow> bool" where
  "fits w i \<longleftrightarrow> - (2 ^ (w - 1)) \<le> i \<and> i < 2 ^ (w - 1)"

text \<open>What was converted until the input ends or does not match. A minus before \<open>%llu\<close> negates modulo the width.\<close>

fun c_scan :: "directive list \<Rightarrow> string \<Rightarrow> c_value list res" where
  "c_scan [] s = Inr []"
| "c_scan (CLit c # ds) [] = Inr []"
| "c_scan (CLit c # ds) (x # s) = (if x = c then c_scan ds s else Inr [])"
| "c_scan (CBlank # ds) s = c_scan ds (dropWhile is_space s)"
| "c_scan (CInt w # ds) s = (case scan_int s of None \<Rightarrow> Inr [] | Some (i, r) \<Rightarrow>
     if fits w i then bindE (c_scan ds r) (\<lambda>vs. Inr (I i # vs)) else Inl Overflow)"
| "c_scan (CUnsigned w # ds) s = (case scan_int s of None \<Rightarrow> Inr [] | Some (i, r) \<Rightarrow>
     if \<bar>i\<bar> < 2 ^ w then bindE (c_scan ds r) (\<lambda>vs. Inr (I (i mod 2 ^ w) # vs)) else Inl Overflow)"
| "c_scan (CReal k # ds) s = (case scan_real s of None \<Rightarrow> Inr [] | Some (x, r) \<Rightarrow> bindE (c_scan ds r) (\<lambda>vs. Inr (R x # vs)))"
| "c_scan (CChar # ds) [] = Inr []"
| "c_scan (CChar # ds) (x # s) = bindE (c_scan ds s) (\<lambda>vs. Inr (C x # vs))"
| "c_scan (CWord # ds) s = (let t = dropWhile is_space s; w = takeWhile (\<lambda>c. \<not> is_space c) t in
     if w = [] then Inr [] else bindE (c_scan ds (drop (length w) t)) (\<lambda>vs. Inr (S w # vs)))"
| "c_scan (CUntil c # ds) s = (let w = takeWhile (\<lambda>x. x \<noteq> c) s in
     if w = [] then Inr [] else bindE (c_scan ds (drop (length w) s)) (\<lambda>vs. Inr (S w # vs)))"

definition sscanf :: "string \<Rightarrow> string \<Rightarrow> c_value list res" where
  "sscanf s fmt = c_scan (directives fmt) s"

fun split_at :: "char \<Rightarrow> string \<Rightarrow> string list" where
  "split_at c [] = [[]]"
| "split_at c (x # xs) = (if x = c then [] # split_at c xs else (case split_at c xs of [] \<Rightarrow> [[x]] | w # ws \<Rightarrow> (x # w) # ws))"

text \<open>The tokens between delimiters, as \<open>strtok\<close> gives them one after the other.\<close>

definition tokens :: "char \<Rightarrow> string \<Rightarrow> string list" where
  "tokens c s = filter (\<lambda>w. w \<noteq> []) (split_at c s)"

definition atoi :: "string \<Rightarrow> int res" where
  "atoi s = (case scan_int s of None \<Rightarrow> Inr 0 | Some (i, r) \<Rightarrow> if fits 32 i then Inr i else Inl Overflow)"

section \<open>Lines of a file\<close>

definition getline :: "string \<Rightarrow> nat \<Rightarrow> string option" where
  "getline file p = (if length file \<le> p then None
     else let l = takeWhile (\<lambda>c. c \<noteq> NL) (drop p file) in Some (if length l < length (drop p file) then l @ [NL] else l))"

section \<open>Reading back what was printed\<close>

lemma digit_simps [simp]:
  "n < 10 \<Longrightarrow> is_digit (digit n)" "n < 10 \<Longrightarrow> digit_value (digit n) = n"
  by (simp_all add: is_digit_def digit_def digit_value_def code_of_def of_char_of)

lemma not_digit [simp]: "\<not> is_digit NL" "\<not> is_digit (CHR '':'')" "\<not> is_digit (CHR ''.'')" "\<not> is_digit (CHR ''-'')" "\<not> is_digit (CHR ''('')"
    "\<not> is_digit (CHR '','')" "is_digit (CHR ''0'')"
  by (simp_all add: is_digit_def code_of_def)

lemma digit_not_space: "is_digit c \<Longrightarrow> \<not> is_space c"
  by (auto simp: is_digit_def is_space_def code_of_def)

lemma digit_not_sign: "is_digit c \<Longrightarrow> c \<noteq> CHR ''-'' \<and> c \<noteq> CHR ''+''"
  by (auto simp: is_digit_def code_of_def)

lemma show_nat_digits: "\<forall>c \<in> set (show_nat n). is_digit c"
  by (induction n rule: show_nat.induct) (subst show_nat.simps, auto)

lemma show_nat_nonempty [simp]: "show_nat n \<noteq> []"
  by (subst show_nat.simps) simp

lemma read_digits_append: "read_digits n (xs @ ys) = read_digits (read_digits n xs) ys"
  by (simp add: read_digits_def)

lemma read_show_nat [simp]: "read_digits 0 (show_nat n) = n"
proof (induction n rule: show_nat.induct)
  case (1 n)
  then show ?case by (subst show_nat.simps) (auto simp: read_digits_append, simp_all add: read_digits_def)
qed

definition no_digit :: "string \<Rightarrow> bool" where
  "no_digit r \<longleftrightarrow> (case r of [] \<Rightarrow> True | c # _ \<Rightarrow> \<not> is_digit c)"

lemma no_digit_simps [simp]: "no_digit []" "no_digit (c # r) = (\<not> is_digit c)"
  by (simp_all add: no_digit_def)

lemma digits_then: "\<forall>c \<in> set ds. is_digit c \<Longrightarrow> no_digit r \<Longrightarrow> takeWhile is_digit (ds @ r) = ds \<and> dropWhile is_digit (ds @ r) = r"
  by (cases r) simp_all

lemma show_nat_Cons: obtains c cs where "show_nat n = c # cs" "is_digit c"
  using show_nat_digits[of n] by (cases "show_nat n") auto

lemma scan_show_int [simp]: "no_digit r \<Longrightarrow> scan_int (show_int i @ r) = Some (i, r)"
proof -
  assume r: "no_digit r"
  obtain c cs where c: "show_nat (nat \<bar>i\<bar>) = c # cs" "is_digit c" by (rule show_nat_Cons)
  note ds = digits_then[OF show_nat_digits[of "nat \<bar>i\<bar>"] r]
  have nospace: "dropWhile is_space (show_nat (nat \<bar>i\<bar>) @ r) = show_nat (nat \<bar>i\<bar>) @ r" using c digit_not_space by simp
  show ?thesis
  proof (cases "i < 0")
    case True
    have "\<not> is_space (CHR ''-'')" by (simp add: is_space_def)
    then show ?thesis using True ds by (simp add: scan_int_def show_int_def sign_of_def Let_def)
  next
    case False
    have "sign_of (show_nat (nat \<bar>i\<bar>) @ r) = (False, show_nat (nat \<bar>i\<bar>) @ r)" using c digit_not_sign by (simp add: sign_of_def)
    then show ?thesis using False ds nospace by (simp add: scan_int_def show_int_def Let_def)
  qed
qed

lemma scan_int_step [simp]: "no_digit r \<Longrightarrow> fits w i \<Longrightarrow> c_scan (CInt w # ds) (show_int i @ r) = bindE (c_scan ds r) (\<lambda>vs. Inr (I i # vs))"
  by simp

text \<open>A double is read back as its decimals.\<close>

definition decimals :: "nat \<Rightarrow> real \<Rightarrow> real" where
  "decimals k x = (let v = real (nat (round_even (\<bar>x\<bar> * 10 ^ k))) / 10 ^ k in if x < 0 then - v else v)"

lemma read_digits_zeros: "read_digits 0 (replicate k (CHR ''0'') @ s) = read_digits 0 s"
proof (induction k)
  case (Suc k)
  have "read_digits 0 (CHR ''0'' # replicate k (CHR ''0'') @ s) = read_digits 0 (replicate k (CHR ''0'') @ s)"
    by (simp add: read_digits_def digit_value_def code_of_def)
  then show ?case using Suc by simp
qed simp

lemma read_digits_shift: "read_digits n s = n * 10 ^ length s + read_digits 0 s"
proof (induction s arbitrary: n)
  case (Cons c s)
  have "read_digits n (c # s) = read_digits (10 * n + digit_value c) s" "read_digits 0 (c # s) = read_digits (digit_value c) s" for n
    by (simp_all add: read_digits_def)
  then show ?case using Cons[of "10 * n + digit_value c"] Cons[of "digit_value c"] by (simp add: algebra_simps)
qed (simp add: read_digits_def)

lemma show_nat_length: "0 < k \<Longrightarrow> n < 10 ^ k \<Longrightarrow> length (show_nat n) \<le> k"
proof (induction k arbitrary: n)
  case (Suc k)
  show ?case
  proof (cases "n < 10")
    case True
    then show ?thesis by (subst show_nat.simps) simp
  next
    case False
    then have "0 < k" using Suc.prems by (cases k) auto
    moreover have "n div 10 < 10 ^ k" using Suc.prems(2) by (simp add: less_mult_imp_div_less mult.commute)
    ultimately have "length (show_nat (n div 10)) \<le> k" using Suc.IH by blast
    then show ?thesis using False by (subst show_nat.simps) simp
  qed
qed simp

lemma pad_length: "0 < k \<Longrightarrow> n < 10 ^ k \<Longrightarrow> length (pad k (show_nat n)) = k"
  using show_nat_length[of k n] by (simp add: pad_def)

lemma pad_digits: "\<forall>c \<in> set (pad k (show_nat n)). is_digit c"
  using show_nat_digits by (auto simp: pad_def)

lemma read_fixed: "0 < k \<Longrightarrow> read_digits 0 (show_nat (n div 10 ^ k) @ pad k (show_nat (n mod 10 ^ k))) = n"
proof -
  assume k: "0 < k"
  have "read_digits 0 (pad k (show_nat (n mod 10 ^ k))) = n mod 10 ^ k" by (simp add: pad_def read_digits_zeros)
  then show ?thesis using pad_length[OF k, of "n mod 10 ^ k"] div_mult_mod_eq[of n "10 ^ k"]
    by (simp add: read_digits_append read_digits_shift[of "n div 10 ^ k"])
qed

definition no_exponent :: "string \<Rightarrow> bool" where
  "no_exponent r \<longleftrightarrow> (case r of [] \<Rightarrow> True | c # _ \<Rightarrow> c \<noteq> CHR ''e'' \<and> c \<noteq> CHR ''E'')"

lemma scan_show_fixed:
  assumes "0 < k" "no_digit r" "no_exponent r"
  shows "scan_real (show_fixed k x @ r) = Some (decimals k x, r)"
proof -
  define n where "n = nat (round_even (\<bar>x\<bar> * 10 ^ k))"
  define a b where "a = show_nat (n div 10 ^ k)" and "b = pad k (show_nat (n mod 10 ^ k))"
  obtain c cs where c: "a = c # cs" "is_digit c" unfolding a_def by (rule show_nat_Cons)
  have ab: "read_digits 0 (a @ b) = n" "length b = k" unfolding a_def b_def using read_fixed pad_length assms(1) by simp_all
  have "no_digit (CHR ''.'' # b @ r)" by simp
  note da = digits_then[OF show_nat_digits[of "n div 10 ^ k", folded a_def] this]
  note db = digits_then[OF pad_digits[of k "n mod 10 ^ k", folded b_def] assms(2)]
  have ex: "exponent_of r = Some (0, r)" using assms(3) by (auto simp: exponent_of_def no_exponent_def split: list.splits)
  have minus: "\<not> is_space (CHR ''-'')" by (simp add: is_space_def)
  have shown: "show_fixed k x @ r = (if x < 0 then ''-'' else []) @ a @ CHR ''.'' # b @ r"
    by (simp add: show_fixed_def a_def b_def n_def Let_def)
  have sign: "sign_of (dropWhile is_space (show_fixed k x @ r)) = (x < 0, a @ CHR ''.'' # b @ r)"
    unfolding shown using c digit_not_space digit_not_sign minus by (auto simp: sign_of_def)
  have fr: "fraction_of (dropWhile is_digit (a @ CHR ''.'' # b @ r)) = (b, r)" using da db by (simp add: fraction_of_def)
  have "a \<noteq> []" using c by simp
  then show ?thesis
    unfolding scan_real_def sign using fr ex da ab by (simp add: decimals_def n_def Let_def)
qed

lemma takeWhile_until: "c \<notin> set s \<Longrightarrow> takeWhile (\<lambda>x. x \<noteq> c) (s @ c # r) = s"
  by (induction s) auto

lemma scan_until [simp]: "s \<noteq> [] \<Longrightarrow> c \<notin> set s \<Longrightarrow> c_scan (CUntil c # ds) (s @ c # r) = bindE (c_scan ds (c # r)) (\<lambda>vs. Inr (S s # vs))"
  by (simp add: takeWhile_until)

lemma NL_not_shown [simp]: "NL \<notin> set (show_int i)" "CHR '':'' \<notin> set (show_int i)"
proof -
  have "NL \<notin> set (show_nat n)" "CHR '':'' \<notin> set (show_nat n)" for n
    using show_nat_digits[of n] not_digit(1,2) by blast+
  then show "NL \<notin> set (show_int i)" "CHR '':'' \<notin> set (show_int i)" by (simp_all add: show_int_def)
qed

lemma show_int_nonempty [simp]: "show_int i \<noteq> []"
  by (simp add: show_int_def)

section \<open>Tokens\<close>

lemma split_at_no: "c \<notin> set s \<Longrightarrow> split_at c s = [s]"
  by (induction s) auto

lemma split_at_append: "c \<notin> set s \<Longrightarrow> split_at c (s @ c # r) = s # split_at c r"
proof (induction s)
  case (Cons x s)
  have "split_at c r \<noteq> []" by (cases r) (auto split: list.splits)
  then show ?case using Cons by auto
qed simp

fun join :: "char \<Rightarrow> string list \<Rightarrow> string" where
  "join c [] = []"
| "join c [w] = w"
| "join c (w # ws) = w @ c # join c ws"

lemma tokens_join: "\<forall>w \<in> set ws. w \<noteq> [] \<and> c \<notin> set w \<Longrightarrow> tokens c (join c ws) = ws"
  by (induction c ws rule: join.induct) (auto simp: tokens_def split_at_no split_at_append)

lemma atoi_show [simp]: "fits 32 i \<Longrightarrow> atoi (show_int i) = Inr i"
  using scan_show_int[of "[]" i] by (simp add: atoi_def)

section \<open>Lines\<close>

lemma getline_nonempty: "getline file p = Some l \<Longrightarrow> l \<noteq> [] \<and> p < length file"
proof -
  assume g: "getline file p = Some l"
  then have p: "p < length file" by (auto simp: getline_def split: if_splits)
  then obtain c cs where "drop p file = c # cs" by (metis Cons_nth_drop_Suc)
  then show ?thesis using g p by (auto simp: getline_def Let_def split: if_splits)
qed

lemma getline_less: "getline file p = Some l \<Longrightarrow> length file - (p + length l) < length file - p"
  by (drule getline_nonempty) (cases l, auto)

lemma getline_length: "getline file p = Some l \<Longrightarrow> p + length l \<le> length file"
proof -
  assume g: "getline file p = Some l"
  have t: "length (takeWhile (\<lambda>c. c \<noteq> NL) (drop p file)) \<le> length (drop p file)" by (rule length_takeWhile_le)
  show ?thesis using g t by (auto simp: getline_def Let_def split: if_splits)
qed

text \<open>A line in the middle of a file, from some character on.\<close>

lemma getline_at:
  assumes "file = pre @ (w @ [NL]) @ post" "NL \<notin> set w" "k \<le> length w"
  shows "getline file (length pre + k) = Some (drop k w @ [NL])"
proof -
  have d: "drop (length pre + k) file = drop k w @ NL # post" using assms(1,3) by simp
  have "NL \<notin> set (drop k w)" using assms(2) by (meson in_set_dropD)
  then have "takeWhile (\<lambda>c. c \<noteq> NL) (drop k w @ NL # post) = drop k w" by (rule takeWhile_until)
  then show ?thesis using assms(1,3) unfolding getline_def d by (simp add: Let_def)
qed

end
