(* ===== verification/TraceFormat.thy ===== *)
theory TraceFormat
  imports CText Queue
begin

text \<open>
  The text of a trace: what \<^verbatim>\<open>common_utilities/Dimemas_Generation.c\<close> writes and what \<^verbatim>\<open>input/file_data_access.c\<close> makes of a line: records
  of actions, definitions of communicators, the header, the offsets. A function that answers \<open>FALSE\<close> after reporting an error gives \<open>None\<close>.
\<close>

section \<open>Actions\<close>

record send_desc =
  s_mess_size :: int
  s_dest :: int
  s_dest_thread :: int
  s_mess_tag :: int
  s_communic_id :: int
  s_rendez_vous :: bool
  s_immediate :: bool

record recv_desc =
  r_mess_size :: int
  r_ori :: int
  r_ori_thread :: int
  r_mess_tag :: int
  r_communic_id :: int

record global_op_desc =
  glop_id :: int
  g_comm_id :: int
  root_rank :: int
  root_thid :: int
  bytes_send :: int
  bytes_recvd :: int
  synch_type :: int

datatype file_action =
    NOOP
  | WORK real
  | GPU_BURST real
  | SEND send_desc
  | RECV recv_desc
  | IRECV recv_desc
  | WAIT recv_desc
  | GLOBAL_OP global_op_desc
  | EVENT int int

text \<open>The options of the simulation for rendezvous.\<close>

record sync_options =
  RD_SYNC_use_trace_sync :: bool
  RD_SYNC_message_size :: int

definition UseRendezVous :: "sync_options \<Rightarrow> bool \<Rightarrow> int \<Rightarrow> bool \<Rightarrow> bool" where
  "UseRendezVous par trace_rendez_vous msg_size is_acc_comm \<longleftrightarrow>
     RD_SYNC_use_trace_sync par \<and> trace_rendez_vous \<or>
     0 \<le> RD_SYNC_message_size par \<and> RD_SYNC_message_size par \<le> msg_size \<or> is_acc_comm"

section \<open>The writer\<close>

definition NX_GENERIC_SEND_STRING :: string where "NX_GENERIC_SEND_STRING = ''2:%d:%d:%d:%d:%d:%lld:%d:%d'' @ [NL]"
definition NX_SEND_STRING :: string where "NX_SEND_STRING = ''2:%d:%d:%d:%d:%d:%lld:%d:0'' @ [NL]"
definition NX_ISEND_STRING :: string where "NX_ISEND_STRING = ''2:%d:%d:%d:%d:%d:%lld:%d:2'' @ [NL]"
definition NX_ISEND_READY_STRING :: string where "NX_ISEND_READY_STRING = ''2:%d:%d:%d:%d:%d:%lld:%d:3'' @ [NL]"
definition NX_BSEND_STRING :: string where "NX_BSEND_STRING = ''2:%d:%d:%d:%d:%d:%lld:%d:1'' @ [NL]"
definition NX_GENERIC_RECV_STRING :: string where "NX_GENERIC_RECV_STRING = ''3:%d:%d:%d:%d:%d:%lld:%d:%d'' @ [NL]"
definition NX_RECV_STRING :: string where "NX_RECV_STRING = ''3:%d:%d:%d:%d:%d:%lld:%d:0'' @ [NL]"
definition NX_IRECV_STRING :: string where "NX_IRECV_STRING = ''3:%d:%d:%d:%d:%d:%lld:%d:1'' @ [NL]"
definition NX_WAIT_STRING :: string where "NX_WAIT_STRING = ''3:%d:%d:%d:%d:%d:%lld:%d:2'' @ [NL]"
definition CPU_BURST_STRING :: string where "CPU_BURST_STRING = ''1:%d:%d:%.9f'' @ [NL]"
definition COMMUNICATOR_STRING :: string where "COMMUNICATOR_STRING = ''d:1:%lld:%d''"
definition USER_EVENT_STRING :: string where "USER_EVENT_STRING = ''20:%d:%d:%lld:%lld'' @ [NL]"
definition BLOCK_BEGIN_STRING :: string where "BLOCK_BEGIN_STRING = ''20:%d:%d:%lld:%lld'' @ [NL]"
definition BLOCK_END_STRING :: string where "BLOCK_END_STRING = ''20:%d:%d:%lld:0'' @ [NL]"
definition GLOBAL_OP_STRING :: string where "GLOBAL_OP_STRING = ''10:%d:%d:%d:%d:%d:%d:%lld:%lld:%d'' @ [NL]"
definition GLOBAL_OP_WAIT_STRING :: string where "GLOBAL_OP_WAIT_STRING = ''10:%d:%d:%d:%d:%d:%d:%lld:%lld:2'' @ [NL]"
definition NOOP_STRING :: string where "NOOP_STRING = ''0:%d:%d'' @ [NL]"
definition GPU_BURST_STRING :: string where "GPU_BURST_STRING = ''11:%d:%d:%.9f'' @ [NL]"

definition Dimemas_NX_Generic_Send :: "int \<Rightarrow> int \<Rightarrow> int \<Rightarrow> int \<Rightarrow> int \<Rightarrow> int \<Rightarrow> int \<Rightarrow> int \<Rightarrow> string" where
  "Dimemas_NX_Generic_Send task thread task_r thread_r commid sz tag synchronism =
     fprintf NX_GENERIC_SEND_STRING [I task, I thread, I task_r, I thread_r, I sz, I tag, I commid, I synchronism]"

definition Dimemas_NX_Send :: "int \<Rightarrow> int \<Rightarrow> int \<Rightarrow> int \<Rightarrow> int \<Rightarrow> int \<Rightarrow> int \<Rightarrow> string" where
  "Dimemas_NX_Send task thread task_r thread_r commid sz tag =
     fprintf NX_SEND_STRING [I task, I thread, I task_r, I thread_r, I sz, I tag, I commid]"

definition Dimemas_NX_ImmediateSend :: "int \<Rightarrow> int \<Rightarrow> int \<Rightarrow> int \<Rightarrow> int \<Rightarrow> int \<Rightarrow> int \<Rightarrow> string" where
  "Dimemas_NX_ImmediateSend task thread task_r thread_r commid sz tag =
     fprintf NX_ISEND_STRING [I task, I thread, I task_r, I thread_r, I sz, I tag, I commid]"

definition Dimemas_NX_ImmediateReadySend :: "int \<Rightarrow> int \<Rightarrow> int \<Rightarrow> int \<Rightarrow> int \<Rightarrow> int \<Rightarrow> int \<Rightarrow> string" where
  "Dimemas_NX_ImmediateReadySend task thread task_r thread_r commid sz tag =
     fprintf NX_ISEND_READY_STRING [I task, I thread, I task_r, I thread_r, I sz, I tag, I commid]"

definition Dimemas_NX_BlockingSend :: "int \<Rightarrow> int \<Rightarrow> int \<Rightarrow> int \<Rightarrow> int \<Rightarrow> int \<Rightarrow> int \<Rightarrow> string" where
  "Dimemas_NX_BlockingSend task thread task_r thread_r commid sz tag =
     fprintf NX_BSEND_STRING [I task, I thread, I task_r, I thread_r, I sz, I tag, I commid]"

definition Dimemas_NX_Generic_Recv :: "int \<Rightarrow> int \<Rightarrow> int \<Rightarrow> int \<Rightarrow> int \<Rightarrow> int \<Rightarrow> int \<Rightarrow> int \<Rightarrow> string" where
  "Dimemas_NX_Generic_Recv task thread task_s thread_s commid sz tag ty =
     fprintf NX_GENERIC_RECV_STRING [I task, I thread, I task_s, I thread_s, I sz, I tag, I commid, I ty]"

definition Dimemas_NX_Recv :: "int \<Rightarrow> int \<Rightarrow> int \<Rightarrow> int \<Rightarrow> int \<Rightarrow> int \<Rightarrow> int \<Rightarrow> string" where
  "Dimemas_NX_Recv task thread task_s thread_s commid sz tag =
     fprintf NX_RECV_STRING [I task, I thread, I task_s, I thread_s, I sz, I tag, I commid]"

definition Dimemas_NX_Irecv :: "int \<Rightarrow> int \<Rightarrow> int \<Rightarrow> int \<Rightarrow> int \<Rightarrow> int \<Rightarrow> int \<Rightarrow> string" where
  "Dimemas_NX_Irecv task thread task_s thread_s commid sz tag =
     fprintf NX_IRECV_STRING [I task, I thread, I task_s, I thread_s, I sz, I tag, I commid]"

definition Dimemas_NX_Wait :: "int \<Rightarrow> int \<Rightarrow> int \<Rightarrow> int \<Rightarrow> int \<Rightarrow> int \<Rightarrow> int \<Rightarrow> string" where
  "Dimemas_NX_Wait task thread task_s thread_s commid sz tag =
     fprintf NX_WAIT_STRING [I task, I thread, I task_s, I thread_s, I sz, I tag, I commid]"

definition Dimemas_CPU_Burst :: "int \<Rightarrow> int \<Rightarrow> real \<Rightarrow> string" where
  "Dimemas_CPU_Burst task thread burst_time = fprintf CPU_BURST_STRING [I task, I thread, R burst_time]"

definition Dimemas_GPU_Burst :: "int \<Rightarrow> int \<Rightarrow> real \<Rightarrow> string" where
  "Dimemas_GPU_Burst task thread burst_time = fprintf GPU_BURST_STRING [I task, I thread, R burst_time]"

definition Dimemas_Communicator_Definition :: "int \<Rightarrow> int list \<Rightarrow> string" where
  "Dimemas_Communicator_Definition commid TaskList =
     fprintf COMMUNICATOR_STRING [I commid, I (int (length TaskList))] @ concat (map (\<lambda>t. fprintf '':%d'' [I t]) TaskList) @ [NL]"

definition Dimemas_User_Event :: "int \<Rightarrow> int \<Rightarrow> int \<Rightarrow> int \<Rightarrow> string" where
  "Dimemas_User_Event task thread ty val = fprintf USER_EVENT_STRING [I task, I thread, I ty, I val]"

definition Dimemas_Block_Begin :: "int \<Rightarrow> int \<Rightarrow> int \<Rightarrow> int \<Rightarrow> string" where
  "Dimemas_Block_Begin task thread ty val = fprintf BLOCK_BEGIN_STRING [I task, I thread, I ty, I val]"

definition Dimemas_Block_End :: "int \<Rightarrow> int \<Rightarrow> int \<Rightarrow> string" where
  "Dimemas_Block_End task thread block = fprintf BLOCK_END_STRING [I task, I thread, I block]"

definition Dimemas_Global_OP :: "int \<Rightarrow> int \<Rightarrow> int \<Rightarrow> int \<Rightarrow> int \<Rightarrow> int \<Rightarrow> int \<Rightarrow> int \<Rightarrow> int \<Rightarrow> string" where
  "Dimemas_Global_OP task thread opid commid rt thd sendsize recvsize synchronize =
     fprintf GLOBAL_OP_STRING [I task, I thread, I opid, I commid, I rt, I thd, I sendsize, I recvsize, I synchronize]"

definition Dimemas_Global_OP_Wait :: "int \<Rightarrow> int \<Rightarrow> int \<Rightarrow> int \<Rightarrow> int \<Rightarrow> int \<Rightarrow> int \<Rightarrow> int \<Rightarrow> string" where
  "Dimemas_Global_OP_Wait task thread opid commid rt thd sendsize recvsize =
     fprintf GLOBAL_OP_WAIT_STRING [I task, I thread, I opid, I commid, I rt, I thd, I sendsize, I recvsize]"

definition Dimemas_NOOP :: "int \<Rightarrow> int \<Rightarrow> string" where
  "Dimemas_NOOP task thread = fprintf NOOP_STRING [I task, I thread]"

section \<open>Records\<close>

definition ACTION_REGEXP :: string where "ACTION_REGEXP = ''%d:%d:%d:%[^'' @ [NL] @ '']'' @ [NL]"
definition NOOP_REGEXP :: string where "NOOP_REGEXP = ''0:%d:%d'' @ [NL]"
definition OFFSET_REGEXP :: string where "OFFSET_REGEXP = ''s:%d:%[^'' @ [NL] @ '']'' @ [NL]"
definition DEFINITION_REGEXP :: string where "DEFINITION_REGEXP = ''d:%d:%[^'' @ [NL] @ '']'' @ [NL]"
definition COMMUNICATOR_REGEXP :: string where "COMMUNICATOR_REGEXP = ''%d:%d:%s''"
definition CPU_BURST_REGEXP :: string where "CPU_BURST_REGEXP = ''%lf''"
definition GPU_BURST_REGEXP :: string where "GPU_BURST_REGEXP = ''%lf''"
definition MSG_SEND_REGEXP_MPI :: string where "MSG_SEND_REGEXP_MPI = ''%d:%lld:%d:%d:%c''"
definition MSG_SEND_REGEXP_SS :: string where "MSG_SEND_REGEXP_SS = ''%d:%d:%lld:%d:%d:%c''"
definition MSG_RECV_REGEXP_MPI :: string where "MSG_RECV_REGEXP_MPI = ''%d:%lld:%d:%d:%d''"
definition MSG_RECV_REGEXP_SS :: string where "MSG_RECV_REGEXP_SS = ''%d:%d:%lld:%d:%d:%d''"
definition GLOBAL_OP_REGEXP :: string where "GLOBAL_OP_REGEXP = ''%d:%d:%d:%d:%ld:%ld:%d''"
definition EVENT_REGEXP :: string where "EVENT_REGEXP = ''%llu:%llu''"

definition DAP_read_CPU_burst :: "string \<Rightarrow> file_action option res" where
  "DAP_read_CPU_burst s = bindE (sscanf s CPU_BURST_REGEXP) (\<lambda>vs. case vs of [R duration] \<Rightarrow> Inr (Some (WORK duration)) | _ \<Rightarrow> Inr None)"

definition DAP_read_GPU_burst :: "string \<Rightarrow> file_action option res" where
  "DAP_read_GPU_burst s = bindE (sscanf s GPU_BURST_REGEXP) (\<lambda>vs. case vs of [R duration] \<Rightarrow> Inr (Some (GPU_BURST duration)) | _ \<Rightarrow> Inr None)"

definition send_action :: "sync_options \<Rightarrow> int \<Rightarrow> int \<Rightarrow> int \<Rightarrow> int \<Rightarrow> int \<Rightarrow> int \<Rightarrow> int \<Rightarrow> char \<Rightarrow> file_action" where
  "send_action par ori ori_thread dest dest_thread sz tag comm sync =
     (let dt = (if dest_thread = - 2 then - 1 else dest_thread);
          is_acc_comm = (ori = dest \<and> ori_thread \<noteq> dt)
      in SEND \<lparr>s_mess_size = sz, s_dest = dest, s_dest_thread = dt, s_mess_tag = tag, s_communic_id = comm,
           s_rendez_vous = UseRendezVous par (odd (code_of sync)) sz is_acc_comm, s_immediate = odd (code_of sync div 2)\<rparr>)"

definition DAP_read_msg_send :: "sync_options \<Rightarrow> string \<Rightarrow> int \<Rightarrow> int \<Rightarrow> file_action option res" where
  "DAP_read_msg_send par s ori ori_thread =
     bindE (sscanf s MSG_SEND_REGEXP_SS) (\<lambda>vs. case vs of
       [I dest, I dest_thread, I sz, I tag, I comm, C sync] \<Rightarrow> Inr (Some (send_action par ori ori_thread dest dest_thread sz tag comm sync))
     | _ \<Rightarrow> bindE (sscanf s MSG_SEND_REGEXP_MPI) (\<lambda>vs. case vs of
         [I dest, I sz, I tag, I comm, C sync] \<Rightarrow> Inr (Some (send_action par ori ori_thread dest (- 1) sz tag comm sync))
       | _ \<Rightarrow> Inr None))"

text \<open>The kind of action is set for the types 0, 1 and 2 only.\<close>

definition recv_action :: "int \<Rightarrow> int \<Rightarrow> int \<Rightarrow> int \<Rightarrow> int \<Rightarrow> int \<Rightarrow> file_action option res" where
  "recv_action src src_thread sz tag comm rcvt =
     (let d = \<lparr>r_mess_size = sz, r_ori = src, r_ori_thread = (if src_thread = - 2 then - 1 else src_thread), r_mess_tag = tag, r_communic_id = comm\<rparr>
      in if rcvt = 0 then Inr (Some (RECV d)) else if rcvt = 1 then Inr (Some (IRECV d)) else if rcvt = 2 then Inr (Some (WAIT d)) else Inl Uninit)"

definition DAP_read_msg_recv :: "string \<Rightarrow> file_action option res" where
  "DAP_read_msg_recv s =
     bindE (sscanf s MSG_RECV_REGEXP_SS) (\<lambda>vs. case vs of
       [I src, I src_thread, I sz, I tag, I comm, I rcvt] \<Rightarrow> recv_action src src_thread sz tag comm rcvt
     | _ \<Rightarrow> bindE (sscanf s MSG_RECV_REGEXP_MPI) (\<lambda>vs. case vs of
         [I src, I sz, I tag, I comm, I rcvt] \<Rightarrow> recv_action src (- 1) sz tag comm rcvt
       | _ \<Rightarrow> Inr None))"

definition DAP_read_global_op :: "string \<Rightarrow> file_action option res" where
  "DAP_read_global_op s =
     bindE (sscanf s GLOBAL_OP_REGEXP) (\<lambda>vs. case vs of
       [I opid, I comm, I rt, I thd, I sent, I recvd, I synch] \<Rightarrow> Inr (Some (GLOBAL_OP \<lparr>glop_id = opid, g_comm_id = comm,
          root_rank = rt, root_thid = thd, bytes_send = sent, bytes_recvd = recvd, synch_type = synch\<rparr>))
     | [I opid, I comm, I rt, I thd, I sent, I recvd] \<Rightarrow> Inr (Some (GLOBAL_OP \<lparr>glop_id = opid, g_comm_id = comm,
          root_rank = rt, root_thid = thd, bytes_send = sent, bytes_recvd = recvd, synch_type = 1\<rparr>))
     | _ \<Rightarrow> Inr None)"

definition DAP_read_event :: "string \<Rightarrow> file_action option res" where
  "DAP_read_event s = bindE (sscanf s EVENT_REGEXP) (\<lambda>vs. case vs of [I ty, I val] \<Rightarrow> Inr (Some (EVENT ty val)) | _ \<Rightarrow> Inr None)"

text \<open>What kind of line it is, as \<open>DAP_read_action\<close> finds it out.\<close>

datatype trace_line = Action int int int string | Noop int int | Offsets int string | Malformed

definition action_fields :: "c_value list \<Rightarrow> (int \<times> int \<times> int \<times> string) option" where
  "action_fields vs = (case vs of [I opid, I task, I thread, S fs] \<Rightarrow> Some (opid, task, thread, fs) | _ \<Rightarrow> None)"

definition noop_fields :: "c_value list \<Rightarrow> (int \<times> int) option" where
  "noop_fields vs = (case vs of [I task, I thread] \<Rightarrow> Some (task, thread) | _ \<Rightarrow> None)"

definition offset_fields :: "c_value list \<Rightarrow> (int \<times> string) option" where
  "offset_fields vs = (case vs of [I task, S fs] \<Rightarrow> Some (task, fs) | _ \<Rightarrow> None)"

definition classify :: "string \<Rightarrow> trace_line res" where
  "classify l =
     bindE (sscanf l ACTION_REGEXP) (\<lambda>vs. case action_fields vs of Some (opid, task, thread, fs) \<Rightarrow> Inr (Action opid task thread fs)
     | None \<Rightarrow> bindE (sscanf l NOOP_REGEXP) (\<lambda>vs. case noop_fields vs of Some (task, thread) \<Rightarrow> Inr (Noop task thread)
     | None \<Rightarrow> bindE (sscanf l OFFSET_REGEXP) (\<lambda>vs. case offset_fields vs of Some (task, fs) \<Rightarrow> Inr (Offsets task fs) | None \<Rightarrow> Inr Malformed)))"

definition read_fields :: "sync_options \<Rightarrow> int \<Rightarrow> int \<Rightarrow> int \<Rightarrow> string \<Rightarrow> file_action option res" where
  "read_fields par opid task thread s =
     (if opid = 1 then DAP_read_CPU_burst s
      else if opid = 2 then DAP_read_msg_send par s task thread
      else if opid = 3 then DAP_read_msg_recv s
      else if opid = 10 then DAP_read_global_op s
      else if opid = 20 then DAP_read_event s
      else if opid = 11 then DAP_read_GPU_burst s
      else Inr None)"

section \<open>Header and definitions\<close>

record trace_header =
  h_app_name :: string
  h_tasks_count :: int
  h_threads_count :: "int list"
  h_comms_count :: int
  h_offsets_offset :: int

definition HEADER_REGEXP :: string where "HEADER_REGEXP = ''#DIMEMAS:\"%[^\"]\":%[^:]:%s''"

fun map_res :: "('a \<Rightarrow> 'b res) \<Rightarrow> 'a list \<Rightarrow> 'b list res" where
  "map_res f [] = Inr []"
| "map_res f (x # xs) = bindE (f x) (\<lambda>y. bindE (map_res f xs) (\<lambda>ys. Inr (y # ys)))"

definition read_offsets_hint :: "string \<Rightarrow> (int \<times> int) option res" where
  "read_offsets_hint s =
     bindE (sscanf s ''%d,%zu'') (\<lambda>vs. case vs of [I present, I off] \<Rightarrow> Inr (Some (present, off))
     | _ \<Rightarrow> bindE (sscanf s ''%d'') (\<lambda>vs. case vs of [I present] \<Rightarrow> Inr (Some (present, 0)) | _ \<Rightarrow> Inr None))"

text \<open>A list of threads that is longer than the number of tasks is written past its array.\<close>

definition read_ptask_info :: "string \<Rightarrow> (int \<times> int list \<times> int) option res" where
  "read_ptask_info s =
     bindE (sscanf s ''%d(%[^)]),%d'') (\<lambda>vs. case vs of [I tasks, S threads, I comms] \<Rightarrow>
       bindE (map_res atoi (tokens (CHR '','') threads)) (\<lambda>ns.
         if tasks < int (length ns) then Inl OutOfBounds
         else if int (length ns) \<noteq> tasks then Inr None else Inr (Some (tasks, ns, comms)))
     | _ \<Rightarrow> Inr None)"

definition DAP_read_header :: "string \<Rightarrow> trace_header option res" where
  "DAP_read_header file = (case getline file 0 of None \<Rightarrow> Inr None | Some l \<Rightarrow>
     bindE (sscanf l HEADER_REGEXP) (\<lambda>vs. case vs of [S name, S hint, S info] \<Rightarrow>
       bindE (read_offsets_hint hint) (\<lambda>h. case h of None \<Rightarrow> Inr None | Some (present, off) \<Rightarrow>
         if present = 1 \<and> off \<noteq> 0 \<or> present = 0 \<and> off = 0
         then bindE (read_ptask_info info) (\<lambda>p. case p of None \<Rightarrow> Inr None | Some (tasks, ns, comms) \<Rightarrow>
           Inr (Some \<lparr>h_app_name = name, h_tasks_count = tasks, h_threads_count = ns, h_comms_count = comms, h_offsets_offset = off\<rparr>))
         else Inr None)
     | _ \<Rightarrow> Inr None))"

text \<open>Ranks beyond the announced number are written past their array.\<close>

definition DAP_read_communicator :: "string \<Rightarrow> (int \<times> int list) option res" where
  "DAP_read_communicator s =
     bindE (sscanf s COMMUNICATOR_REGEXP) (\<lambda>vs. case vs of [I comm, I n, S ranks] \<Rightarrow>
       bindE (map_res atoi (tokens (CHR '':'') ranks)) (\<lambda>rs.
         if n < int (length rs) then Inl OutOfBounds
         else if int (length rs) \<noteq> n then Inr None else Inr (Some (comm, rs)))
     | _ \<Rightarrow> Inr None)"

text \<open>
  Definitions up to the first line that is none; the queue of communicators is ordered by their numbers. A communicator
  that cannot be read is left out.
\<close>

function read_definitions :: "string \<Rightarrow> nat \<Rightarrow> ((int \<times> int list) \<times> real) list \<Rightarrow> (((int \<times> int list) \<times> real) list \<times> nat) option res" where
  "read_definitions file p comms = (case getline file p of None \<Rightarrow> Inr None | Some l \<Rightarrow>
     bindE (sscanf l DEFINITION_REGEXP) (\<lambda>vs. case vs of [I ty, S fs] \<Rightarrow>
       if ty = 1 then bindE (DAP_read_communicator fs) (\<lambda>c. read_definitions file (p + length l)
         (case c of None \<Rightarrow> comms | Some comm \<Rightarrow> seq_insert snd (comm, real_of_int (fst comm)) comms))
       else if ty = 2 \<or> ty = 3 then read_definitions file (p + length l) comms
       else Inr None
     | _ \<Rightarrow> Inr (Some (comms, p))))"
  by pat_completeness auto
termination
  by (relation "measure (\<lambda>(file, p, comms). length file - p)") (auto dest!: getline_less)

declare read_definitions.simps [simp del]

definition DAP_read_definitions :: "string \<Rightarrow> nat \<Rightarrow> (((int \<times> int list) \<times> real) list \<times> nat) option res" where
  "DAP_read_definitions file p = read_definitions file p []"

end
