(* ===== verification/TraceFile.thy ===== *)
theory TraceFile
  imports TraceFormat
begin

text \<open>
  Trace files as the simulator reads them (\<^verbatim>\<open>input/file_data_access.c\<close>, \<^verbatim>\<open>io/dimemas_io.c\<close>): where the records of each thread begin, the
  streams that threads share, the next record of a thread. A file is its contents, a stream a position in it. Offsets are natural
  numbers; the search for a thread answers 0 after an error, as the code does. What the arrays held before is \<open>None\<close>.
\<close>

section \<open>State\<close>

record fp_share =
  last_task_id :: int
  last_thread_id :: int
  fp :: "nat option"

record app_struct =
  a_ptask_id :: int
  a_file :: string
  threads_count :: "nat list"
  offsets_offset :: nat
  records_offset :: nat
  threads_offsets :: "nat list list"
  app_streams :: "fp_share list"
  streams_idxs :: "nat list list"
  current_threads_offsets :: "nat list list"
  last_current_threads_offsets :: "nat list list"
  app_comms :: "((int \<times> int list) \<times> real) list"
  thread_trace_sizes :: "int option list"
  ops_to_be_ignored :: "nat list list"
  counter_ops_already_ignored :: "nat list"

record io_state =
  IO_MaximumFileDescriptors :: nat
  IO_OpenedFileDescriptors :: nat

record data_access =
  apps :: "app_struct list"
  io_init :: bool
  io :: io_state

definition total_threads_count :: "app_struct \<Rightarrow> nat" where
  "total_threads_count a = sum_list (threads_count a)"

definition set2 :: "nat \<Rightarrow> nat \<Rightarrow> 'a \<Rightarrow> 'a list list \<Rightarrow> 'a list list" where
  "set2 t j x xss = xss[t := (xss ! t)[j := x]]"

definition IO_available_streams :: "io_state \<Rightarrow> nat" where
  "IO_available_streams s = IO_MaximumFileDescriptors s - IO_OpenedFileDescriptors s"

definition IO_fopen :: "io_state \<Rightarrow> bool \<times> io_state" where
  "IO_fopen s = (if IO_OpenedFileDescriptors s = IO_MaximumFileDescriptors s then (False, s)
     else (True, s\<lparr>IO_OpenedFileDescriptors := IO_OpenedFileDescriptors s + 1\<rparr>))"

definition IO_fclose :: "io_state \<Rightarrow> io_state" where
  "IO_fclose s = s\<lparr>IO_OpenedFileDescriptors := IO_OpenedFileDescriptors s - 1\<rparr>"

section \<open>Where the records of a thread begin\<close>

definition SEEK_THRESHOLD :: nat where "SEEK_THRESHOLD = 2048"

text \<open>Task and thread of a record; the whole scan of a line fails on anything else.\<close>

definition record_key :: "string \<Rightarrow> (int \<times> int) option res" where
  "record_key l =
     bindE (sscanf l ACTION_REGEXP) (\<lambda>vs. case action_fields vs of Some (opid, task, thread, fs) \<Rightarrow> Inr (Some (task, thread))
     | None \<Rightarrow> bindE (sscanf l NOOP_REGEXP) (\<lambda>vs. Inr (noop_fields vs)))"

function scan_lines :: "string \<Rightarrow> int \<times> int \<Rightarrow> nat \<Rightarrow> nat res" where
  "scan_lines file key p = (case getline file p of None \<Rightarrow> Inr 0 | Some l \<Rightarrow>
     if l = [NL] then scan_lines file key (p + length l)
     else bindE (record_key l) (\<lambda>k. case k of None \<Rightarrow> Inr 0
       | Some k' \<Rightarrow> if k' = key then Inr p else scan_lines file key (p + length l)))"
  by pat_completeness auto
termination by (relation "measure (\<lambda>(file, key, p). length file - p)") (auto dest!: getline_less)

declare scan_lines.simps [simp del]

text \<open>Line by line when the bounds are near, otherwise by halves. The first line from the seek on is thrown away.\<close>

function DAP_locate_thread_offset :: "string \<Rightarrow> int \<times> int \<Rightarrow> nat \<Rightarrow> nat \<Rightarrow> nat res" where
  "DAP_locate_thread_offset file key lower upper =
     (if upper \<le> lower then Inr 0
      else if upper - lower < SEEK_THRESHOLD
      then (if lower = 0 then Inr 0
            else case getline file (lower - 1) of None \<Rightarrow> Inr 0 | Some l \<Rightarrow> scan_lines file key (lower - 1 + length l))
      else
        let half = lower + (upper - lower) div 2 in
        case getline file half of None \<Rightarrow> Inr 0 | Some l \<Rightarrow>
        case getline file (half + length l) of None \<Rightarrow> Inr 0 | Some l' \<Rightarrow>
        bindE (record_key l') (\<lambda>k. case k of None \<Rightarrow> Inr 0 | Some (task, thread) \<Rightarrow>
          if task < fst key then DAP_locate_thread_offset file key half upper
          else if fst key < task then DAP_locate_thread_offset file key lower half
          else if thread < snd key then DAP_locate_thread_offset file key half upper
          else DAP_locate_thread_offset file key lower half))"
  by pat_completeness auto
termination
  by (relation "measure (\<lambda>(file, key, lower, upper). upper - lower)") (auto simp: SEEK_THRESHOLD_def)

declare DAP_locate_thread_offset.simps [simp del]

definition thread_keys :: "nat list \<Rightarrow> (nat \<times> nat) list" where
  "thread_keys cs = concat (map (\<lambda>t. map (\<lambda>j. (t, j)) [0..<cs ! t]) [0..<length cs])"

definition set_offsets :: "nat \<Rightarrow> nat \<Rightarrow> nat \<Rightarrow> app_struct \<Rightarrow> app_struct" where
  "set_offsets t j off a = a\<lparr>current_threads_offsets := set2 t j off (current_threads_offsets a), threads_offsets := set2 t j off (threads_offsets a)\<rparr>"

fun locate_offsets :: "nat \<Rightarrow> (nat \<times> nat) list \<Rightarrow> app_struct \<Rightarrow> app_struct option res" where
  "locate_offsets la [] a = Inr (Some a)"
| "locate_offsets la ((t, j) # ks) a =
     bindE (if t = 0 \<and> j = 0 then Inr (records_offset a)
            else DAP_locate_thread_offset (a_file a) (int t, int j) la (length (a_file a))) (\<lambda>off.
     if off = 0 then Inr None else locate_offsets off ks (set_offsets t j off a))"

definition DAP_locate_offsets :: "app_struct \<Rightarrow> app_struct option res" where
  "DAP_locate_offsets a = locate_offsets (records_offset a) (thread_keys (threads_count a)) a"

section \<open>Offsets at the end of the file\<close>

text \<open>\<open>strtoul\<close> with base 0: hexadecimal after 0x, octal after 0.\<close>

definition hex_value :: "char \<Rightarrow> nat option" where
  "hex_value c = (let k = code_of c in if 48 \<le> k \<and> k \<le> 57 then Some (k - 48) else if 65 \<le> k \<and> k \<le> 70 then Some (k - 55)
     else if 97 \<le> k \<and> k \<le> 102 then Some (k - 87) else None)"

fun read_base :: "nat \<Rightarrow> nat \<Rightarrow> string \<Rightarrow> nat" where
  "read_base b n [] = n"
| "read_base b n (c # cs) = (case hex_value c of None \<Rightarrow> n | Some d \<Rightarrow> if d < b then read_base b (b * n + d) cs else n)"

definition strtoul :: "string \<Rightarrow> nat" where
  "strtoul s = (case sign_of (dropWhile is_space s) of (neg, t) \<Rightarrow>
     let v = (if take 2 t \<in> {''0x'', ''0X''} then read_base 16 0 (drop 2 t) else if take 1 t = ''0'' then read_base 8 0 t else read_base 10 0 t) in
     if 2 ^ 64 \<le> v then 2 ^ 64 - 1 else if neg then (2 ^ 64 - v) mod 2 ^ 64 else v)"

text \<open>
  The size of the first thread of a task: the entry is found by the number of threads of this task alone and may lie outside the array
  of all threads.
\<close>

definition set_trace_size :: "nat \<Rightarrow> int \<Rightarrow> app_struct \<Rightarrow> app_struct res" where
  "set_trace_size t first a =
     (let i = threads_count a ! t * t;
          s1 = (thread_trace_sizes a)[i := Some first];
          s2 = (if 0 < i then s1[i - 1 := map_option (\<lambda>x. first - x) (s1 ! (i - 1))] else s1);
          s3 = (if i + 1 = total_threads_count a then s2[i := Some (int (offsets_offset a) - first)] else s2)
      in if total_threads_count a \<le> i then Inl OutOfBounds else Inr (a\<lparr>thread_trace_sizes := s3\<rparr>))"

fun read_thread_offsets :: "nat \<Rightarrow> nat \<Rightarrow> string list \<Rightarrow> app_struct \<Rightarrow> app_struct option" where
  "read_thread_offsets t j [] a = (if j < threads_count a ! t then None else Some a)"
| "read_thread_offsets t j (w # ws) a = (if threads_count a ! t \<le> j then None else read_thread_offsets t (j + 1) ws (set_offsets t j (strtoul w) a))"

fun read_task_offsets :: "nat list \<Rightarrow> nat \<Rightarrow> app_struct \<Rightarrow> app_struct option res" where
  "read_task_offsets [] p a = Inr (Some a)"
| "read_task_offsets (t # ts) p a = (case getline (a_file a) p of None \<Rightarrow> Inr None | Some l \<Rightarrow>
     bindE (sscanf l OFFSET_REGEXP) (\<lambda>vs. case vs of [I task, S fs] \<Rightarrow>
       if task \<noteq> int t then Inr None
       else (case tokens (CHR '':'') fs of [] \<Rightarrow> Inl NullDeref | w # ws \<Rightarrow>
         bindE (atoi w) (\<lambda>first. bindE (set_trace_size t first a) (\<lambda>a1.
         case read_thread_offsets t 0 (w # ws) a1 of None \<Rightarrow> Inr None | Some a2 \<Rightarrow> read_task_offsets ts (p + length l) a2)))
     | _ \<Rightarrow> Inr None))"

definition DAP_read_offsets :: "app_struct \<Rightarrow> app_struct option res" where
  "DAP_read_offsets a = read_task_offsets [0..<length (threads_count a)] (offsets_offset a)
     (a\<lparr>thread_trace_sizes := replicate (total_threads_count a) None\<rparr>)"

section \<open>An application\<close>

text \<open>The offsets are not written yet; they are read only after they are located.\<close>

definition DAP_initialize_app :: "int \<Rightarrow> string \<Rightarrow> trace_header \<Rightarrow> app_struct" where
  "DAP_initialize_app ptask_id file h =
     (let cs = map nat (h_threads_count h) in
      \<lparr>a_ptask_id = ptask_id, a_file = file, threads_count = cs, offsets_offset = nat (h_offsets_offset h), records_offset = 0,
       threads_offsets = map (\<lambda>n. replicate n 0) cs, app_streams = [], streams_idxs = [],
       current_threads_offsets = map (\<lambda>n. replicate n 0) cs, last_current_threads_offsets = map (\<lambda>n. replicate n 0) cs,
       app_comms = [], thread_trace_sizes = [], ops_to_be_ignored = map (\<lambda>n. []) cs, counter_ops_already_ignored = map (\<lambda>n. 0) cs\<rparr>)"

definition read_app :: "int \<Rightarrow> string \<Rightarrow> app_struct option res" where
  "read_app ptask_id file =
     bindE (DAP_read_header file) (\<lambda>h. case h of None \<Rightarrow> Inr None | Some hd' \<Rightarrow>
     bindE (DAP_read_definitions file (length (the (getline file 0)))) (\<lambda>d. case d of None \<Rightarrow> Inr None | Some (comms, p) \<Rightarrow>
     let a = (DAP_initialize_app ptask_id file hd')\<lparr>app_comms := comms, records_offset := p\<rparr> in
     if offsets_offset a = 0 then DAP_locate_offsets a else DAP_read_offsets a))"

definition MAX_NUM_APP :: nat where "MAX_NUM_APP = 100"

text \<open>After an error the file stays open.\<close>

definition DAP_add_ptask :: "int \<Rightarrow> string \<Rightarrow> data_access \<Rightarrow> (bool \<times> data_access) res" where
  "DAP_add_ptask ptask_id file s =
     (if MAX_NUM_APP \<le> length (apps s) then Inr (False, s)
      else case IO_fopen (io s) of (False, i) \<Rightarrow> Inr (False, s)
      | (True, i) \<Rightarrow> bindE (read_app ptask_id file) (\<lambda>r. case r of None \<Rightarrow> Inr (False, s\<lparr>io := i\<rparr>)
          | Some a \<Rightarrow> Inr (True, s\<lparr>io := IO_fclose i, apps := apps s @ [a]\<rparr>)))"

definition DAP_locate_app_struct :: "int \<Rightarrow> data_access \<Rightarrow> nat option" where
  "DAP_locate_app_struct ptask_id s = (let k = length (takeWhile (\<lambda>a. a_ptask_id a \<noteq> ptask_id) (apps s)) in if k < length (apps s) then Some k else None)"

section \<open>Streams\<close>

definition DAP_allocate_streams :: "nat \<Rightarrow> app_struct \<Rightarrow> app_struct" where
  "DAP_allocate_streams n a =
     a\<lparr>app_streams := replicate n \<lparr>last_task_id = 0, last_thread_id = 0, fp = None\<rparr>,
       streams_idxs := map (\<lambda>t. map (\<lambda>j. (sum_list (take t (threads_count a)) + j) * n div total_threads_count a) [0..<threads_count a ! t])
         [0..<length (threads_count a)]\<rparr>"

text \<open>The streams of an application: a whole number of times the descriptors that are left, when these are not enough for all.\<close>

definition streams_per_app :: "nat \<Rightarrow> nat \<Rightarrow> app_struct \<Rightarrow> nat" where
  "streams_per_app whole available a =
     (if whole \<le> available then total_threads_count a else (total_threads_count a div whole) * available)"

fun allocate_all :: "(app_struct \<Rightarrow> nat) \<Rightarrow> app_struct list \<Rightarrow> bool \<times> app_struct list" where
  "allocate_all f [] = (True, [])"
| "allocate_all f (a # as) = (if f a = 0 then (False, a # as)
     else (case allocate_all f as of (ok, as') \<Rightarrow> (ok, DAP_allocate_streams (f a) a # as')))"

definition DAP_io_init :: "data_access \<Rightarrow> bool \<times> data_access" where
  "DAP_io_init s =
     (if io_init s then (True, s)
      else
        let whole = sum_list (map total_threads_count (apps s));
            available = (2 ^ 64 + IO_available_streams (io s) - 2) mod 2 ^ 64
        in case allocate_all (streams_per_app whole available) (apps s) of (ok, as) \<Rightarrow> (ok, s\<lparr>apps := as, io_init := ok\<rparr>))"

definition set_stream :: "nat \<Rightarrow> nat \<Rightarrow> nat \<Rightarrow> nat \<Rightarrow> app_struct \<Rightarrow> app_struct" where
  "set_stream k t j p a = a\<lparr>app_streams := (app_streams a)[k := \<lparr>last_task_id = int t, last_thread_id = int j, fp = Some p\<rparr>]\<rparr>"

text \<open>The position of the stream of a thread, ready to be read; without one there are no descriptors left.\<close>

definition DAP_get_stream :: "nat \<Rightarrow> nat \<Rightarrow> io_state \<times> app_struct \<Rightarrow> (nat \<times> nat) option \<times> io_state \<times> app_struct" where
  "DAP_get_stream t j st = (case st of (i, a) \<Rightarrow>
     let k = streams_idxs a ! t ! j; s = app_streams a ! k in
     case fp s of
       None \<Rightarrow> (case IO_fopen i of (False, i') \<Rightarrow> (None, i, a)
                | (True, i') \<Rightarrow> let p = threads_offsets a ! t ! j in (Some (k, p), i', set_stream k t j p a))
     | Some p \<Rightarrow>
         if last_task_id s = int t \<and> last_thread_id s = int j then (Some (k, p), i, a)
         else let q = current_threads_offsets a ! t ! j in (Some (k, q), i, set_stream k t j q a))"

definition DAP_reset_app_stream_fps :: "app_struct \<Rightarrow> app_struct" where
  "DAP_reset_app_stream_fps a = a\<lparr>app_streams :=
     fold (\<lambda>(t, j) ss. ss[streams_idxs a ! t ! j := (ss ! (streams_idxs a ! t ! j))\<lparr>last_task_id := - 1, last_thread_id := - 1\<rparr>])
       (thread_keys (threads_count a)) (app_streams a)\<rparr>"

definition DAP_restart_fps :: "nat \<Rightarrow> nat \<Rightarrow> app_struct \<Rightarrow> app_struct" where
  "DAP_restart_fps t j a = DAP_reset_app_stream_fps (a\<lparr>
     current_threads_offsets := set2 t j (threads_offsets a ! t ! j) (current_threads_offsets a),
     last_current_threads_offsets := set2 t j (threads_offsets a ! t ! j) (last_current_threads_offsets a)\<rparr>)"

definition DATA_ACCESS_reload_ptask :: "app_struct \<Rightarrow> app_struct" where
  "DATA_ACCESS_reload_ptask a = DAP_reset_app_stream_fps (a\<lparr>current_threads_offsets := threads_offsets a\<rparr>)"

definition DAP_get_offset :: "nat \<Rightarrow> nat \<Rightarrow> io_state \<times> app_struct \<Rightarrow> nat \<times> io_state \<times> app_struct" where
  "DAP_get_offset t j st = (case DAP_get_stream t j st of (r, i, a) \<Rightarrow> (last_current_threads_offsets a ! t ! j, i, a))"

section \<open>The next record of a thread\<close>

datatype read_result = Failed | NoMoreActions | Next file_action

definition step_offset :: "nat \<Rightarrow> nat \<Rightarrow> int \<Rightarrow> app_struct \<Rightarrow> app_struct" where
  "step_offset t j n a = a\<lparr>last_current_threads_offsets := set2 t j (current_threads_offsets a ! t ! j) (last_current_threads_offsets a),
     current_threads_offsets := set2 t j (nat (int (current_threads_offsets a ! t ! j) + n)) (current_threads_offsets a)\<rparr>"

text \<open>With the deadlock analysis a line of the first thread of a task may be passed over; \<open>getline\<close> answers -1 at the end of the file.\<close>

definition skip_ignored :: "bool \<Rightarrow> nat \<Rightarrow> nat \<Rightarrow> nat \<Rightarrow> app_struct \<Rightarrow> nat \<times> app_struct" where
  "skip_ignored with_deadlock_analysis t j p a =
     (if j = 0 \<and> with_deadlock_analysis \<and> counter_ops_already_ignored a ! t < length (ops_to_be_ignored a ! t) \<and> p \<in> set (ops_to_be_ignored a ! t)
      then
        let n = (case getline (a_file a) p of None \<Rightarrow> - 1 | Some l \<Rightarrow> int (length l)) in
        (nat (max (int p) (int p + n)),
         (step_offset t j n a)\<lparr>counter_ops_already_ignored := (counter_ops_already_ignored a)[t := counter_ops_already_ignored a ! t + 1]\<rparr>)
      else (p, a))"

function next_line :: "string \<Rightarrow> nat \<Rightarrow> string option \<times> nat" where
  "next_line file p = (case getline file p of None \<Rightarrow> (None, p) | Some l \<Rightarrow>
     if l = [NL] then next_line file (p + length l) else (Some l, p + length l))"
  by pat_completeness auto
termination by (relation "measure (\<lambda>(file, p). length file - p)") (auto dest!: getline_less)

declare next_line.simps [simp del]

text \<open>The offset of a thread is moved by the length of its record alone, not by the empty lines before it.\<close>

definition take_line :: "sync_options \<Rightarrow> nat \<Rightarrow> nat \<Rightarrow> string \<Rightarrow> app_struct \<Rightarrow> (read_result \<times> app_struct) res" where
  "take_line par t j l a =
     bindE (classify l) (\<lambda>c. case c of
       Malformed \<Rightarrow> Inr (Failed, a)
     | Offsets task fs \<Rightarrow> Inr (NoMoreActions, a)
     | Noop task thread \<Rightarrow> if task \<noteq> int t \<or> thread \<noteq> int j then Inr (NoMoreActions, a) else Inr (Next NOOP, step_offset t j (int (length l)) a)
     | Action opid task thread fs \<Rightarrow>
         if task \<noteq> int t \<or> thread \<noteq> int j then Inr (NoMoreActions, a)
         else bindE (read_fields par opid task thread fs) (\<lambda>r. case r of
           None \<Rightarrow> Inr (Failed, a) | Some x \<Rightarrow> Inr (Next x, step_offset t j (int (length l)) a)))"

definition DAP_read_action :: "sync_options \<Rightarrow> bool \<Rightarrow> nat \<Rightarrow> nat \<Rightarrow> io_state \<times> app_struct \<Rightarrow> (read_result \<times> io_state \<times> app_struct) res" where
  "DAP_read_action par with_deadlock_analysis t j st = (case DAP_get_stream t j st of
     (None, i, a) \<Rightarrow> Inr (Failed, i, a)
   | (Some (k, p), i, a) \<Rightarrow>
       (case skip_ignored with_deadlock_analysis t j p a of (p1, a1) \<Rightarrow>
        case next_line (a_file a1) p1 of
          (None, p2) \<Rightarrow> Inr (NoMoreActions, i, set_stream k t j p2 a1)
        | (Some l, p2) \<Rightarrow> bindE (take_line par t j l (set_stream k t j p2 a1)) (\<lambda>(r, a2). Inr (r, i, a2))))"

definition DATA_ACCESS_get_next_action ::
    "sync_options \<Rightarrow> bool \<Rightarrow> int \<Rightarrow> nat \<Rightarrow> nat \<Rightarrow> data_access \<Rightarrow> (read_result \<times> data_access) res" where
  "DATA_ACCESS_get_next_action par with_deadlock_analysis ptask_id t j s0 = (case DAP_io_init s0 of
     (False, s) \<Rightarrow> Inr (Failed, s)
   | (True, s) \<Rightarrow> (case DAP_locate_app_struct ptask_id s of None \<Rightarrow> Inr (Failed, s)
       | Some k \<Rightarrow> bindE (DAP_read_action par with_deadlock_analysis t j (io s, apps s ! k)) (\<lambda>(r, i, a).
           Inr (r, s\<lparr>io := i, apps := (apps s)[k := a]\<rparr>))))"

end
