(* ===== verification/TraceFormatProps.thy ===== *)
theory TraceFormatProps
  imports TraceFormat
begin

text \<open>
  What the writer of traces prints, the reader of the simulator gets back: every kind of record, and the definitions of communicators.
\<close>

section \<open>Formats\<close>

lemma conversion_rules [simp]:
  "conversion (CHR ''d'' # r) = Some (CInt 32, r)"
  "conversion (CHR ''l'' # CHR ''d'' # r) = Some (CInt 64, r)"
  "conversion (CHR ''l'' # CHR ''l'' # CHR ''d'' # r) = Some (CInt 64, r)"
  "conversion (CHR ''l'' # CHR ''l'' # CHR ''u'' # r) = Some (CUnsigned 64, r)"
  "conversion (CHR ''z'' # CHR ''u'' # r) = Some (CUnsigned 64, r)"
  "conversion (CHR ''l'' # CHR ''f'' # r) = Some (CReal 6, r)"
  "conversion (CHR ''.'' # CHR ''9'' # CHR ''f'' # r) = Some (CReal 9, r)"
  "conversion (CHR ''c'' # r) = Some (CChar, r)"
  "conversion (CHR ''s'' # r) = Some (CWord, r)"
  "conversion (CHR ''['' # CHR ''^'' # c # CHR '']'' # r) = Some (CUntil c, r)"
  by (simp_all add: conversion_def conversions_def until_def)

lemma colon_rules [simp]: "\<not> is_space (CHR '':'')" "is_space NL"
  by (simp_all add: is_space_def)

lemma plain_rules [simp]: "\<not> is_space (CHR ''0'')" "\<not> is_space (CHR ''1'')" "\<not> is_space (CHR ''2'')" "\<not> is_space (CHR ''3'')"
    "\<not> is_space (CHR ''d'')" "\<not> is_space (CHR ''s'')"
  by (simp_all add: is_space_def)

lemma regexp_directives [simp]:
  "directives ACTION_REGEXP = [CInt 32, CLit (CHR '':''), CInt 32, CLit (CHR '':''), CInt 32, CLit (CHR '':''), CUntil NL, CBlank]"
  "directives NOOP_REGEXP = [CLit (CHR ''0''), CLit (CHR '':''), CInt 32, CLit (CHR '':''), CInt 32, CBlank]"
  "directives OFFSET_REGEXP = [CLit (CHR ''s''), CLit (CHR '':''), CInt 32, CLit (CHR '':''), CUntil NL, CBlank]"
  "directives DEFINITION_REGEXP = [CLit (CHR ''d''), CLit (CHR '':''), CInt 32, CLit (CHR '':''), CUntil NL, CBlank]"
  "directives COMMUNICATOR_REGEXP = [CInt 32, CLit (CHR '':''), CInt 32, CLit (CHR '':''), CWord]"
  "directives CPU_BURST_REGEXP = [CReal 6]" "directives GPU_BURST_REGEXP = [CReal 6]"
  "directives MSG_SEND_REGEXP_SS = [CInt 32, CLit (CHR '':''), CInt 32, CLit (CHR '':''), CInt 64, CLit (CHR '':''), CInt 32, CLit (CHR '':''), CInt 32, CLit (CHR '':''), CChar]"
  "directives MSG_RECV_REGEXP_SS = [CInt 32, CLit (CHR '':''), CInt 32, CLit (CHR '':''), CInt 64, CLit (CHR '':''), CInt 32, CLit (CHR '':''), CInt 32, CLit (CHR '':''), CInt 32]"
  "directives GLOBAL_OP_REGEXP = [CInt 32, CLit (CHR '':''), CInt 32, CLit (CHR '':''), CInt 32, CLit (CHR '':''), CInt 32, CLit (CHR '':''), CInt 64, CLit (CHR '':''), CInt 64, CLit (CHR '':''), CInt 32]"
  "directives EVENT_REGEXP = [CUnsigned 64, CLit (CHR '':''), CUnsigned 64]"
  by (simp_all add: ACTION_REGEXP_def NOOP_REGEXP_def OFFSET_REGEXP_def DEFINITION_REGEXP_def COMMUNICATOR_REGEXP_def CPU_BURST_REGEXP_def
      GPU_BURST_REGEXP_def MSG_SEND_REGEXP_SS_def MSG_RECV_REGEXP_SS_def GLOBAL_OP_REGEXP_def EVENT_REGEXP_def)

section \<open>The text of a record\<close>

lemma show_small: "show_int 0 = ''0''" "show_int 1 = ''1''" "show_int 2 = ''2''" "show_int 3 = ''3''" "show_int 10 = ''10''" "show_int 11 = ''11''" "show_int 20 = ''20''"
  by code_simp+

definition action_text :: "int \<Rightarrow> int \<Rightarrow> int \<Rightarrow> string \<Rightarrow> string" where
  "action_text opid task thread fs = show_int opid @ CHR '':'' # show_int task @ CHR '':'' # show_int thread @ CHR '':'' # fs @ [NL]"


lemma record_texts:
  "Dimemas_NX_Generic_Send task thread task_r thread_r commid sz tag synch = action_text 2 task thread
     (show_int task_r @ CHR '':'' # show_int thread_r @ CHR '':'' # show_int sz @ CHR '':'' # show_int tag @ CHR '':'' # show_int commid @ CHR '':'' # show_int synch)"
  "Dimemas_NX_Send task thread task_r thread_r commid sz tag = Dimemas_NX_Generic_Send task thread task_r thread_r commid sz tag 0"
  "Dimemas_NX_BlockingSend task thread task_r thread_r commid sz tag = Dimemas_NX_Generic_Send task thread task_r thread_r commid sz tag 1"
  "Dimemas_NX_ImmediateSend task thread task_r thread_r commid sz tag = Dimemas_NX_Generic_Send task thread task_r thread_r commid sz tag 2"
  "Dimemas_NX_ImmediateReadySend task thread task_r thread_r commid sz tag = Dimemas_NX_Generic_Send task thread task_r thread_r commid sz tag 3"
  "Dimemas_NX_Generic_Recv task thread task_r thread_r commid sz tag ty = action_text 3 task thread
     (show_int task_r @ CHR '':'' # show_int thread_r @ CHR '':'' # show_int sz @ CHR '':'' # show_int tag @ CHR '':'' # show_int commid @ CHR '':'' # show_int ty)"
  "Dimemas_NX_Recv task thread task_r thread_r commid sz tag = Dimemas_NX_Generic_Recv task thread task_r thread_r commid sz tag 0"
  "Dimemas_NX_Irecv task thread task_r thread_r commid sz tag = Dimemas_NX_Generic_Recv task thread task_r thread_r commid sz tag 1"
  "Dimemas_NX_Wait task thread task_r thread_r commid sz tag = Dimemas_NX_Generic_Recv task thread task_r thread_r commid sz tag 2"
  "Dimemas_CPU_Burst task thread t = action_text 1 task thread (show_fixed 9 t)"
  "Dimemas_GPU_Burst task thread t = action_text 11 task thread (show_fixed 9 t)"
  "Dimemas_User_Event task thread a b = action_text 20 task thread (show_int a @ CHR '':'' # show_int b)"
  "Dimemas_Block_Begin task thread a b = Dimemas_User_Event task thread a b"
  "Dimemas_Block_End task thread a = Dimemas_User_Event task thread a 0"
  "Dimemas_Global_OP task thread opid commid rt thd sent recvd synch = action_text 10 task thread
     (show_int opid @ CHR '':'' # show_int commid @ CHR '':'' # show_int rt @ CHR '':'' # show_int thd @ CHR '':'' # show_int sent @ CHR '':'' #
      show_int recvd @ CHR '':'' # show_int synch)"
  "Dimemas_Global_OP_Wait task thread opid commid rt thd sent recvd = Dimemas_Global_OP task thread opid commid rt thd sent recvd 2"
  by (simp_all add: Dimemas_NX_Generic_Send_def Dimemas_NX_Send_def Dimemas_NX_BlockingSend_def Dimemas_NX_ImmediateSend_def
      Dimemas_NX_ImmediateReadySend_def Dimemas_NX_Generic_Recv_def Dimemas_NX_Recv_def Dimemas_NX_Irecv_def Dimemas_NX_Wait_def
      Dimemas_CPU_Burst_def Dimemas_GPU_Burst_def Dimemas_User_Event_def Dimemas_Block_Begin_def Dimemas_Block_End_def
      Dimemas_Global_OP_def Dimemas_Global_OP_Wait_def fprintf_def NX_GENERIC_SEND_STRING_def NX_SEND_STRING_def NX_BSEND_STRING_def
      NX_ISEND_STRING_def NX_ISEND_READY_STRING_def NX_GENERIC_RECV_STRING_def NX_RECV_STRING_def NX_IRECV_STRING_def NX_WAIT_STRING_def
      CPU_BURST_STRING_def GPU_BURST_STRING_def USER_EVENT_STRING_def BLOCK_BEGIN_STRING_def BLOCK_END_STRING_def GLOBAL_OP_STRING_def
      GLOBAL_OP_WAIT_STRING_def action_text_def show_small)

lemma noop_text: "Dimemas_NOOP task thread = ''0:'' @ show_int task @ CHR '':'' # show_int thread @ [NL]"
  by (simp add: Dimemas_NOOP_def fprintf_def NOOP_STRING_def)

section \<open>Reading a record\<close>

lemma fits_mono: "fits 32 i \<Longrightarrow> fits 64 i"
  by (simp add: fits_def)

lemma fits_code [simp]: "fits 32 0" "fits 32 1" "fits 32 2" "fits 32 3" "fits 32 10" "fits 32 11" "fits 32 20"
  by (simp_all add: fits_def)

lemma scan_show_int_end [simp]: "scan_int (show_int i) = Some (i, [])"
  using scan_show_int[of "[]" i] by simp

lemma scan_int_end [simp]: "fits w i \<Longrightarrow> c_scan (CInt w # ds) (show_int i) = bindE (c_scan ds []) (\<lambda>vs. Inr (I i # vs))"
  using scan_int_step[of "[]" w i ds] by simp

lemma scan_unsigned_step [simp]: "no_digit r \<Longrightarrow> \<bar>i\<bar> < 2 ^ w \<Longrightarrow>
    c_scan (CUnsigned w # ds) (show_int i @ r) = bindE (c_scan ds r) (\<lambda>vs. Inr (I (i mod 2 ^ w) # vs))"
  by simp

lemma scan_unsigned_end [simp]: "\<bar>i\<bar> < 2 ^ w \<Longrightarrow> c_scan (CUnsigned w # ds) (show_int i) = bindE (c_scan ds []) (\<lambda>vs. Inr (I (i mod 2 ^ w) # vs))"
  using scan_unsigned_step[of "[]" i w ds] by simp

lemma classify_action:
  assumes "fits 32 opid" "fits 32 task" "fits 32 thread" "fs \<noteq> []" "NL \<notin> set fs"
  shows "classify (action_text opid task thread fs) = Inr (Action opid task thread fs)"
  using assms scan_until[of fs NL "[CBlank]" "[]"] by (simp add: classify_def action_text_def sscanf_def action_fields_def)

lemma classify_noop:
  assumes "fits 32 task" "fits 32 thread"
  shows "classify (Dimemas_NOOP task thread) = Inr (Noop task thread)"
proof -
  have "c_scan (directives ACTION_REGEXP) (show_int 0 @ CHR '':'' # show_int task @ CHR '':'' # show_int thread @ [NL]) = Inr [I 0, I task, I thread]"
    using assms by simp
  then have "sscanf (Dimemas_NOOP task thread) ACTION_REGEXP = Inr [I 0, I task, I thread]"
    by (simp only: sscanf_def noop_text show_small append.simps)
  moreover have "sscanf (Dimemas_NOOP task thread) NOOP_REGEXP = Inr [I task, I thread]"
    using assms by (simp add: sscanf_def noop_text)
  ultimately show ?thesis by (simp add: classify_def action_fields_def noop_fields_def)
qed

definition reads_back :: "sync_options \<Rightarrow> string \<Rightarrow> int \<Rightarrow> int \<Rightarrow> file_action \<Rightarrow> bool" where
  "reads_back par l task thread a \<longleftrightarrow> (\<exists>opid fs. classify l = Inr (Action opid task thread fs) \<and> read_fields par opid task thread fs = Inr (Some a))"

lemma reads_action:
  assumes "fits 32 opid" "fits 32 task" "fits 32 thread" "fs \<noteq> []" "NL \<notin> set fs" "read_fields par opid task thread fs = Inr (Some a)"
  shows "reads_back par (action_text opid task thread fs) task thread a"
  unfolding reads_back_def using classify_action[OF assms(1-5)] assms(6) by blast

lemma fixed_text: "NL \<notin> set (show_fixed 9 x)" "show_fixed 9 x \<noteq> []"
proof -
  have "NL \<notin> set (show_nat n)" "NL \<notin> set (pad k (show_nat n))" for n k
    using show_nat_digits[of n] pad_digits[of k n] not_digit(1) by blast+
  then show "NL \<notin> set (show_fixed 9 x)" "show_fixed 9 x \<noteq> []" by (simp_all add: show_fixed_def Let_def)
qed

lemma scan_burst: "scan_real (show_fixed 9 x) = Some (decimals 9 x, [])"
  using scan_show_fixed[of 9 "[]" x] by (simp add: no_exponent_def)

lemma sync_digit:
  assumes "0 \<le> synch" "synch < 4"
  shows "\<exists>c. show_int synch = [c] \<and> odd (code_of c) = odd synch \<and> odd (code_of c div 2) = odd (synch div 2)"
proof -
  consider "synch = 0" | "synch = 1" | "synch = 2" | "synch = 3" using assms by linarith
  then show ?thesis by cases (simp_all add: show_small code_of_def)
qed

lemma records_read_back:
  assumes "fits 32 task" "fits 32 thread" "fits 32 other" "fits 32 other_thread" "fits 32 commid" "fits 32 sz" "fits 32 tag"
    and "0 \<le> synch" "synch < 4" "fits 32 opid" "fits 32 rt" "fits 32 thd" "fits 64 sent" "fits 64 recvd" "fits 32 kind" "fits 64 ty" "fits 64 val"
  defines "to \<equiv> (if other_thread = - 2 then - 1 else other_thread)"
  defines "msg \<equiv> \<lparr>r_mess_size = sz, r_ori = other, r_ori_thread = to, r_mess_tag = tag, r_communic_id = commid\<rparr>"
  shows "reads_back par (Dimemas_NX_Generic_Send task thread other other_thread commid sz tag synch) task thread
      (SEND \<lparr>s_mess_size = sz, s_dest = other, s_dest_thread = to, s_mess_tag = tag, s_communic_id = commid,
         s_rendez_vous = UseRendezVous par (odd synch) sz (task = other \<and> thread \<noteq> to), s_immediate = odd (synch div 2)\<rparr>)"
    and "reads_back par (Dimemas_NX_Recv task thread other other_thread commid sz tag) task thread (RECV msg)"
    and "reads_back par (Dimemas_NX_Irecv task thread other other_thread commid sz tag) task thread (IRECV msg)"
    and "reads_back par (Dimemas_NX_Wait task thread other other_thread commid sz tag) task thread (WAIT msg)"
    and "reads_back par (Dimemas_CPU_Burst task thread t) task thread (WORK (decimals 9 t))"
    and "reads_back par (Dimemas_GPU_Burst task thread t) task thread (GPU_BURST (decimals 9 t))"
    and "reads_back par (Dimemas_User_Event task thread ty val) task thread (EVENT (ty mod 2 ^ 64) (val mod 2 ^ 64))"
    and "reads_back par (Dimemas_Global_OP task thread opid commid rt thd sent recvd kind) task thread
      (GLOBAL_OP \<lparr>glop_id = opid, g_comm_id = commid, root_rank = rt, root_thid = thd, bytes_send = sent, bytes_recvd = recvd, synch_type = kind\<rparr>)"
    and "classify (Dimemas_NOOP task thread) = Inr (Noop task thread)"
proof -
  obtain c where c: "show_int synch = [c]" "odd (code_of c) = odd synch" "odd (code_of c div 2) = odd (synch div 2)"
    using sync_digit[OF assms(8,9)] by blast
  have sz: "fits 64 sz" using fits_mono assms(6) by blast
  have "c \<noteq> NL" using NL_not_shown(1)[of synch] c(1) by auto
  then show "reads_back par (Dimemas_NX_Generic_Send task thread other other_thread commid sz tag synch) task thread
      (SEND \<lparr>s_mess_size = sz, s_dest = other, s_dest_thread = to, s_mess_tag = tag, s_communic_id = commid,
         s_rendez_vous = UseRendezVous par (odd synch) sz (task = other \<and> thread \<noteq> to), s_immediate = odd (synch div 2)\<rparr>)"
    unfolding record_texts to_def using assms(1-7) sz c
    by (intro reads_action) (simp_all add: read_fields_def DAP_read_msg_send_def sscanf_def send_action_def Let_def)
  have recv: "reads_back par (Dimemas_NX_Generic_Recv task thread other other_thread commid sz tag r) task thread a"
    if "fits 32 r" "recv_action other other_thread sz tag commid r = Inr (Some a)" for r a
    unfolding record_texts using assms(1-7) sz that
    by (intro reads_action) (simp_all add: read_fields_def DAP_read_msg_recv_def sscanf_def)
  show "reads_back par (Dimemas_NX_Recv task thread other other_thread commid sz tag) task thread (RECV msg)"
    "reads_back par (Dimemas_NX_Irecv task thread other other_thread commid sz tag) task thread (IRECV msg)"
    "reads_back par (Dimemas_NX_Wait task thread other other_thread commid sz tag) task thread (WAIT msg)"
    unfolding record_texts(7-9) by (rule recv; simp add: recv_action_def msg_def to_def)+
  show "reads_back par (Dimemas_CPU_Burst task thread t) task thread (WORK (decimals 9 t))"
    unfolding record_texts using assms(1,2) fixed_text
    by (intro reads_action) (simp_all add: read_fields_def DAP_read_CPU_burst_def sscanf_def scan_burst)
  show "reads_back par (Dimemas_GPU_Burst task thread t) task thread (GPU_BURST (decimals 9 t))"
    unfolding record_texts using assms(1,2) fixed_text
    by (intro reads_action) (simp_all add: read_fields_def DAP_read_GPU_burst_def sscanf_def scan_burst)
  have e: "\<bar>ty\<bar> < 2 ^ 64" "\<bar>val\<bar> < 2 ^ 64" using assms(16,17) by (auto simp: fits_def)
  show "reads_back par (Dimemas_User_Event task thread ty val) task thread (EVENT (ty mod 2 ^ 64) (val mod 2 ^ 64))"
    unfolding record_texts(12) using assms(1,2) e by (intro reads_action) (simp_all add: read_fields_def DAP_read_event_def sscanf_def del: c_scan.simps(6) power_numeral)
  show "reads_back par (Dimemas_Global_OP task thread opid commid rt thd sent recvd kind) task thread
      (GLOBAL_OP \<lparr>glop_id = opid, g_comm_id = commid, root_rank = rt, root_thid = thd, bytes_send = sent, bytes_recvd = recvd, synch_type = kind\<rparr>)"
    unfolding record_texts(15) using assms(1,2,5,10-15) by (intro reads_action) (simp_all add: read_fields_def DAP_read_global_op_def sscanf_def)
  show "classify (Dimemas_NOOP task thread) = Inr (Noop task thread)" using assms(1,2) by (rule classify_noop)
qed



section \<open>Communicators\<close>

lemma ranks_join: "concat (map (\<lambda>t. CHR '':'' # show_int t) ts) = (if ts = [] then [] else CHR '':'' # join (CHR '':'') (map show_int ts))"
proof (induction ts)
  case (Cons t ts)
  then show ?case by (cases ts) simp_all
qed simp

lemma atoi_all: "\<forall>t \<in> set ts. fits 32 t \<Longrightarrow> map_res atoi (map show_int ts) = Inr ts"
  by (induction ts) simp_all

lemma join_chars: "set (join c ws) \<subseteq> insert c (\<Union>w \<in> set ws. set w)"
  by (induction c ws rule: join.induct) auto

lemma join_word: "\<forall>c \<in> set (join (CHR '':'') (map show_int ts)). \<not> is_space c"
proof -
  have "\<not> is_space c" if "c \<in> set (show_int i)" for c i
    using that show_nat_digits digit_not_space by (fastforce simp: show_int_def is_space_def split: if_splits)
  then show ?thesis using join_chars[of "CHR '':''" "map show_int ts"] by fastforce
qed

text \<open>The definition of a communicator of at least one rank is read back.\<close>

lemma communicators_read_back:
  assumes "fits 32 commid" "fits 32 (int (length ts))" "\<forall>t \<in> set ts. fits 32 t" "ts \<noteq> []"
  shows "\<exists>fs. sscanf (Dimemas_Communicator_Definition commid ts) DEFINITION_REGEXP = Inr [I 1, S fs] \<and>
    DAP_read_communicator fs = Inr (Some (commid, ts))"
proof -
  let ?ranks = "join (CHR '':'') (map show_int ts)"
  let ?fs = "show_int commid @ CHR '':'' # show_int (int (length ts)) @ CHR '':'' # ?ranks"
  have l: "Dimemas_Communicator_Definition commid ts = ''d:'' @ show_int 1 @ CHR '':'' # ?fs @ [NL]"
    using assms(4) by (simp add: Dimemas_Communicator_Definition_def COMMUNICATOR_STRING_def fprintf_def show_small ranks_join)
  have nl: "NL \<notin> set ?fs" using join_word[of ts] colon_rules(2) by (auto simp: NL_not_shown)
  have w: "takeWhile (\<lambda>c. \<not> is_space c) ?ranks = ?ranks" "dropWhile is_space ?ranks = ?ranks"
    using join_word[of ts] by (simp_all add: takeWhile_eq_all_conv dropWhile_eq_self_iff)
  have ne: "?ranks \<noteq> []" using assms(4) by (cases ts; cases "tl ts") auto
  have t: "tokens (CHR '':'') ?ranks = map show_int ts" by (rule tokens_join) simp
  have "sscanf ?fs COMMUNICATOR_REGEXP = Inr [I commid, I (int (length ts)), S ?ranks]"
    using assms(1,2) ne by (simp add: sscanf_def Let_def w)
  then have "DAP_read_communicator ?fs = Inr (Some (commid, ts))"
    using t atoi_all[OF assms(3)] by (simp add: DAP_read_communicator_def)
  moreover have "sscanf (Dimemas_Communicator_Definition commid ts) DEFINITION_REGEXP = Inr [I 1, S ?fs]"
    using scan_until[of ?fs NL "[CBlank]" "[]"] nl unfolding l by (simp add: sscanf_def)
  ultimately show ?thesis by blast
qed

end
