(* ===== verification/TraceFileProps.thy ===== *)
theory TraceFileProps
  imports TraceFile TraceFormatProps
begin

text \<open>
  The search by halves finds the first record of each thread, and threads that share streams read their own records in order, however
  their reads interleave: together, the simulator reads what the generator wrote.
\<close>

section \<open>A file made of lines\<close>

definition line_ok :: "string \<Rightarrow> bool" where
  "line_ok l \<longleftrightarrow> (\<exists>w. l = w @ [NL] \<and> w \<noteq> [] \<and> NL \<notin> set w)"

definition start_of :: "string \<Rightarrow> string list \<Rightarrow> nat \<Rightarrow> nat" where
  "start_of pre ls i = length pre + length (concat (take i ls))"

text \<open>Definitions and records, all lines complete and none empty.\<close>

definition lined :: "string \<Rightarrow> string \<Rightarrow> string list \<Rightarrow> bool" where
  "lined file pre ls \<longleftrightarrow> file = pre @ concat ls \<and> (\<exists>p. pre = p @ [NL]) \<and> (\<forall>l \<in> set ls. line_ok l)"

lemma start_Suc: "i < length ls \<Longrightarrow> start_of pre ls (i + 1) = start_of pre ls i + length (ls ! i)"
  by (simp add: start_of_def take_Suc_conv_app_nth)

lemma start_0 [simp]: "start_of pre ls 0 = length pre"
  by (simp add: start_of_def)

lemma start_end: "lined file pre ls \<Longrightarrow> start_of pre ls (length ls) = length file"
  by (simp add: start_of_def lined_def)

lemma start_mono: "i \<le> j \<Longrightarrow> start_of pre ls i \<le> start_of pre ls j"
proof (induction j)
  case (Suc j)
  show ?case
  proof (cases "i = Suc j")
    case False
    then have "start_of pre ls i \<le> start_of pre ls j" using Suc by simp
    also have "\<dots> \<le> start_of pre ls (Suc j)" by (cases "j < length ls") (simp_all add: start_of_def take_Suc_conv_app_nth)
    finally show ?thesis .
  qed simp
qed simp

lemma line_nonempty: "line_ok l \<Longrightarrow> 1 < length l"
  by (auto simp: line_ok_def neq_Nil_conv)

lemma start_strict:
  assumes "lined file pre ls" "i < j" "j \<le> length ls"
  shows "start_of pre ls i < start_of pre ls j"
proof -
  have "1 < length (ls ! i)" using assms line_nonempty by (auto simp: lined_def)
  then have "start_of pre ls i < start_of pre ls (i + 1)" using start_Suc[of i ls pre] assms by linarith
  then show ?thesis using start_mono[of "i + 1" j pre ls] assms(2) by simp
qed

lemma concat_split: "i < length ls \<Longrightarrow> concat ls = concat (take i ls) @ ls ! i @ concat (drop (i + 1) ls)"
proof -
  assume "i < length ls"
  then have "concat ls = concat (take i ls @ ls ! i # drop (i + 1) ls)" using id_take_nth_drop[of i ls] by simp
  then show ?thesis by simp
qed

lemma getline_inside:
  assumes "lined file pre ls" "i < length ls" "k < length (ls ! i)"
  shows "getline file (start_of pre ls i + k) = Some (drop k (ls ! i))" "start_of pre ls i + k + length (drop k (ls ! i)) = start_of pre ls (i + 1)"
proof -
  have "line_ok (ls ! i)" using assms(1,2) by (simp add: lined_def)
  then obtain w where w: "ls ! i = w @ [NL]" "NL \<notin> set w" unfolding line_ok_def by blast
  have "file = (pre @ concat (take i ls)) @ (w @ [NL]) @ concat (drop (i + 1) ls)"
    using assms(1) w(1) concat_split[OF assms(2)] by (simp add: lined_def)
  from getline_at[OF this w(2), of k] show "getline file (start_of pre ls i + k) = Some (drop k (ls ! i))"
    using assms(3) w(1) by (simp add: start_of_def)
  show "start_of pre ls i + k + length (drop k (ls ! i)) = start_of pre ls (i + 1)" using start_Suc[OF assms(2)] assms(3) by simp
qed

lemma getline_line: "lined file pre ls \<Longrightarrow> i < length ls \<Longrightarrow> getline file (start_of pre ls i) = Some (ls ! i)"
  using getline_inside(1)[of "file" pre ls i 0] line_nonempty[of "ls ! i"] unfolding lined_def by force

lemma getline_end: "lined file pre ls \<Longrightarrow> getline file (start_of pre ls (length ls)) = None"
  using start_end[of "file" pre ls] by (simp add: getline_def)

lemma position_in_line:
  assumes "lined file pre ls" "length pre \<le> p" "p < length file"
  shows "\<exists>i k. i < length ls \<and> k < length (ls ! i) \<and> p = start_of pre ls i + k"
proof -
  define i where "i = Max {i. i \<le> length ls \<and> start_of pre ls i \<le> p}"
  have fin: "finite {i. i \<le> length ls \<and> start_of pre ls i \<le> p}" and "0 \<in> {i. i \<le> length ls \<and> start_of pre ls i \<le> p}"
    using assms(2) by auto
  then have i: "i \<in> {i. i \<le> length ls \<and> start_of pre ls i \<le> p}" unfolding i_def by (metis Max_in empty_iff)
  then have "i < length ls" using start_end[OF assms(1)] assms(3) by (auto simp: le_less)
  moreover have "p < start_of pre ls (i + 1)"
  proof (rule ccontr)
    assume "\<not> p < start_of pre ls (i + 1)"
    then have "i + 1 \<in> {i. i \<le> length ls \<and> start_of pre ls i \<le> p}" using \<open>i < length ls\<close> by simp
    then have "i + 1 \<le> i" unfolding i_def using Max_ge[OF fin] by blast
    then show False by simp
  qed
  ultimately show ?thesis using i start_Suc[of i ls pre] by (intro exI[of _ i] exI[of _ "p - start_of pre ls i"]) auto
qed

text \<open>Throwing away the line before a position goes to the first line from there on.\<close>

lemma discard_line:
  assumes l: "lined file pre ls" and p: "length pre \<le> p" "p < length file"
  shows "\<exists>w i. getline file (p - 1) = Some w \<and> p - 1 + length w = start_of pre ls i \<and> i \<le> length ls \<and> p \<le> start_of pre ls i \<and>
    (\<forall>j \<le> length ls. p \<le> start_of pre ls j \<longrightarrow> i \<le> j)"
proof -
  obtain i k where i: "i < length ls" "k < length (ls ! i)" "p = start_of pre ls i + k" using position_in_line[OF l p] by blast
  have least: "i' \<le> j" if "p = start_of pre ls i'" "i' \<le> length ls" "j \<le> length ls" "p \<le> start_of pre ls j" for i' j
    using that start_strict[OF l, of j i'] by (metis linorder_not_less)
  show ?thesis
  proof (cases k)
    case (Suc k')
    have "p \<le> start_of pre ls j \<Longrightarrow> i + 1 \<le> j" for j using start_mono[of j i pre ls] i(3) Suc by (metis Suc_eq_plus1 add_Suc_right leD le_add1 less_Suc_eq_le linorder_not_less not_less_eq_eq order_trans)
    moreover have "p - 1 = start_of pre ls i + k'" using i(3) Suc by simp
    ultimately show ?thesis
      using getline_inside[OF l i(1), of k'] i Suc start_Suc[OF i(1), of pre] by (intro exI[of _ "drop k' (ls ! i)"] exI[of _ "i + 1"]) simp
  next
    case 0
    then have p_start: "p = start_of pre ls i" using i(3) by simp
    show ?thesis
    proof (cases i)
      case 0
      obtain q where q: "pre = q @ [NL]" using l by (auto simp: lined_def)
      have "getline file (p - 1) = Some [NL]"
        using getline_at[of "file" q "[]" "concat ls" 0] l q p_start 0 by (simp add: lined_def)
      then show ?thesis using p_start i(1) q 0 by (intro exI[of _ "[NL]"] exI[of _ 0]) simp
    next
      case (Suc i')
      let ?k = "length (ls ! i') - 1"
      have i': "i' < length ls" "?k < length (ls ! i')" using i(1) Suc line_nonempty[of "ls ! i'"] l by (auto simp: lined_def)
      have "p - 1 = start_of pre ls i' + ?k" using p_start Suc start_Suc[OF i'(1), of pre] i'(2) by simp
      then show ?thesis
        using getline_inside[OF l i'] least[OF p_start] i(1) p_start Suc by (intro exI[of _ "drop ?k (ls ! i')"] exI[of _ i]) simp
    qed
  qed
qed

section \<open>The search by halves\<close>

definition before :: "int \<times> int \<Rightarrow> int \<times> int \<Rightarrow> bool" where
  "before a b \<longleftrightarrow> fst a < fst b \<or> fst a = fst b \<and> snd a < snd b"

text \<open>Records of the threads in order.\<close>

definition ordered_keys :: "string list \<Rightarrow> (nat \<Rightarrow> int \<times> int) \<Rightarrow> bool" where
  "ordered_keys ls K \<longleftrightarrow> (\<forall>i < length ls. record_key (ls ! i) = Inr (Some (K i))) \<and> (\<forall>i j. i < j \<longrightarrow> j < length ls \<longrightarrow> \<not> before (K j) (K i))"

definition first_of :: "string list \<Rightarrow> (nat \<Rightarrow> int \<times> int) \<Rightarrow> int \<times> int \<Rightarrow> nat \<Rightarrow> bool" where
  "first_of ls K key m \<longleftrightarrow> m < length ls \<and> K m = key \<and> (\<forall>i < m. K i \<noteq> key)"

lemma before_total: "a \<noteq> b \<Longrightarrow> before a b \<or> before b a"
  by (auto simp: before_def prod_eq_iff)

lemma scan_lines_finds:
  assumes l: "lined file pre ls" and K: "ordered_keys ls K" and m: "first_of ls K key m"
  shows "i \<le> m \<Longrightarrow> scan_lines file key (start_of pre ls i) = Inr (start_of pre ls m)"
proof (induction "m - i" arbitrary: i)
  case 0
  then have "i = m" by simp
  have "ls ! m \<noteq> [NL]" using l m line_nonempty[of "ls ! m"] by (auto simp: lined_def first_of_def)
  with \<open>i = m\<close> show ?case using getline_line[OF l, of m] K m by (subst scan_lines.simps) (simp add: ordered_keys_def first_of_def)
next
  case (Suc d)
  then have i: "i < m" "i < length ls" using m by (auto simp: first_of_def)
  have "ls ! i \<noteq> [NL]" using l i line_nonempty[of "ls ! i"] by (auto simp: lined_def)
  moreover have "scan_lines file key (start_of pre ls i + length (ls ! i)) = Inr (start_of pre ls m)"
    using Suc.hyps(1)[of "i + 1"] Suc.hyps(2) i start_Suc[OF i(2), of pre] by simp
  ultimately show ?case using getline_line[OF l i(2)] K m i by (subst scan_lines.simps) (simp add: ordered_keys_def first_of_def)
qed

lemma locate_finds:
  assumes l: "lined file pre ls" and K: "ordered_keys ls K" and m: "first_of ls K key m" and short: "\<forall>x \<in> set ls. length x < 1024"
  shows "length pre \<le> lower \<Longrightarrow> lower \<le> start_of pre ls m \<Longrightarrow> lower < upper \<Longrightarrow> upper \<le> length file \<Longrightarrow>
    DAP_locate_thread_offset file key lower upper = Inr (start_of pre ls m)"
proof (induction "upper - lower" arbitrary: lower upper rule: less_induct)
  case less
  show ?case
  proof (cases "upper - lower < SEEK_THRESHOLD")
    case True
    have "lower < length file" "lower \<noteq> 0" using less.prems l by (auto simp: lined_def)
    from discard_line[OF l less.prems(1) this(1)] obtain w i where w: "getline file (lower - 1) = Some w" "lower - 1 + length w = start_of pre ls i"
      and "\<forall>j \<le> length ls. lower \<le> start_of pre ls j \<longrightarrow> i \<le> j" by blast
    then have "i \<le> m" using less.prems(2) m by (simp add: first_of_def)
    from scan_lines_finds[OF l K m this] show ?thesis
      using True less.prems(3) w \<open>lower \<noteq> 0\<close> by (subst DAP_locate_thread_offset.simps) simp
  next
    case False
    define half where "half = lower + (upper - lower) div 2"
    have h: "lower < half" "half + 1024 \<le> upper" using False by (simp_all add: half_def SEEK_THRESHOLD_def)
    obtain i k where i: "i < length ls" "k < length (ls ! i)" "half = start_of pre ls i + k"
      using position_in_line[OF l, of half] h less.prems(1,4) by auto
    note first = getline_inside[OF l i(1,2), folded i(3)]
    have "length (ls ! i) < 1024" using short i(1) by simp
    then have "start_of pre ls (i + 1) < start_of pre ls (length ls)" using first(2) h(2) less.prems(4) start_end[OF l] by simp
    then have i1: "i + 1 < length ls" using start_mono[of "length ls" "i + 1" pre ls] i(1) by (metis leD le_less_linear)
    note second = getline_line[OF l i1, folded first(2)]
    have k1: "record_key (ls ! (i + 1)) = Inr (Some (K (i + 1)))" using K i1 by (simp add: ordered_keys_def)
    have lower': "DAP_locate_thread_offset file key lower half = Inr (start_of pre ls m)"
      by (rule less.hyps) (use h less.prems in auto)
    have upper': "DAP_locate_thread_offset file key half upper = Inr (start_of pre ls m)" if "before (K (i + 1)) key"
    proof (rule less.hyps)
      have "\<not> m \<le> i + 1"
      proof
        assume "m \<le> i + 1"
        then consider "m = i + 1" | "m < i + 1" by linarith
        then show False
        proof cases
          case 1
          then show False using that m by (auto simp: before_def first_of_def)
        next
          case 2
          then show False using that K m i1 by (auto simp: ordered_keys_def first_of_def)
        qed
      qed
      then show "half \<le> start_of pre ls m" using start_mono[of "i + 1" m pre ls] first(2) i(2,3) by simp
    qed (use h less.prems in auto)
    obtain task thread where tt: "K (i + 1) = (task, thread)" by fastforce
    show ?thesis
      using False less.prems(3) first(1) second k1 lower' upper' tt
      by (subst DAP_locate_thread_offset.simps) (auto simp: Let_def before_def simp flip: half_def)
  qed
qed

section \<open>Arrays of offsets\<close>

definition shaped :: "nat list \<Rightarrow> 'a list list \<Rightarrow> bool" where
  "shaped cs xss \<longleftrightarrow> length xss = length cs \<and> (\<forall>t < length cs. length (xss ! t) = cs ! t)"

definition is_thread :: "nat list \<Rightarrow> nat \<times> nat \<Rightarrow> bool" where
  "is_thread cs k \<longleftrightarrow> fst k < length cs \<and> snd k < cs ! fst k"

lemma set2_shaped: "shaped cs xss \<Longrightarrow> shaped cs (set2 t j x xss)"
proof -
  assume s: "shaped cs xss"
  have "length (set2 t j x xss ! u) = cs ! u" if "u < length cs" for u
    using s that by (cases "u = t") (simp_all add: shaped_def set2_def)
  then show ?thesis using s by (simp add: shaped_def) (simp add: set2_def)
qed

lemma set2_lookup: "shaped cs xss \<Longrightarrow> is_thread cs k \<Longrightarrow>
    set2 t j x xss ! fst k ! snd k = (if k = (t, j) then x else xss ! fst k ! snd k)"
  by (cases k; cases "fst k = t") (auto simp: shaped_def is_thread_def set2_def)

lemma thread_keys_iff: "k \<in> set (thread_keys cs) \<longleftrightarrow> is_thread cs k"
  by (cases k) (force simp: thread_keys_def is_thread_def)

section \<open>All offsets\<close>

definition int_key :: "nat \<times> nat \<Rightarrow> int \<times> int" where "int_key k = (int (fst k), int (snd k))"

lemma int_key_eq [simp]: "int_key a = int_key b \<longleftrightarrow> a = b"
  by (auto simp: int_key_def prod_eq_iff)

definition with_offsets :: "(nat \<times> nat \<Rightarrow> nat) \<Rightarrow> (nat \<times> nat) list \<Rightarrow> app_struct \<Rightarrow> app_struct" where
  "with_offsets off ks a = fold (\<lambda>k. set_offsets (fst k) (snd k) (off k)) ks a"

lemma with_offsets_simps [simp]:
  "a_file (with_offsets off ks a) = a_file a" "threads_count (with_offsets off ks a) = threads_count a"
  "app_streams (with_offsets off ks a) = app_streams a" "streams_idxs (with_offsets off ks a) = streams_idxs a"
  by (induction ks arbitrary: a) (simp_all add: with_offsets_def set_offsets_def)

lemma with_offsets_lookup:
  assumes "shaped cs (threads_offsets a)" "shaped cs (current_threads_offsets a)"
  shows "shaped cs (threads_offsets (with_offsets off ks a)) \<and> shaped cs (current_threads_offsets (with_offsets off ks a)) \<and>
    (\<forall>k. is_thread cs k \<longrightarrow>
      threads_offsets (with_offsets off ks a) ! fst k ! snd k = (if k \<in> set ks then off k else threads_offsets a ! fst k ! snd k) \<and>
      current_threads_offsets (with_offsets off ks a) ! fst k ! snd k = (if k \<in> set ks then off k else current_threads_offsets a ! fst k ! snd k))"
  using assms
proof (induction ks arbitrary: a)
  case (Cons k ks)
  let ?a = "set_offsets (fst k) (snd k) (off k) a"
  have "shaped cs (threads_offsets ?a)" "shaped cs (current_threads_offsets ?a)" using Cons.prems by (simp_all add: set_offsets_def set2_shaped)
  moreover have "with_offsets off (k # ks) a = with_offsets off ks ?a" by (simp add: with_offsets_def)
  moreover have "threads_offsets ?a ! fst k' ! snd k' = (if k' = k then off k else threads_offsets a ! fst k' ! snd k')"
      "current_threads_offsets ?a ! fst k' ! snd k' = (if k' = k then off k else current_threads_offsets a ! fst k' ! snd k')" if "is_thread cs k'" for k'
    using set2_lookup[OF Cons.prems(1) that] set2_lookup[OF Cons.prems(2) that] by (simp_all add: set_offsets_def)
  ultimately show ?case using Cons.IH[of ?a] by auto
qed (simp add: with_offsets_def)

lemma locate_offsets_all:
  assumes l: "lined (a_file a) pre ls" and K: "ordered_keys ls K" and short: "\<forall>x \<in> set ls. length x < 1024"
    and first: "\<forall>k \<in> set ks. first_of ls K (int_key k) (M k)"
    and ordered: "sorted_wrt (\<lambda>x y. M x \<le> M y) ks" and la: "length pre \<le> la" "\<forall>k \<in> set ks. la \<le> start_of pre ls (M k)"
    and zero: "(0, 0) \<in> set ks \<longrightarrow> M (0, 0) = 0" "records_offset a = length pre"
  shows "locate_offsets la ks a = Inr (Some (with_offsets (\<lambda>k. start_of pre ls (M k)) ks a))"
  using l first ordered la zero
proof (induction ks arbitrary: la a)
  case (Cons k ks)
  obtain t j where k: "k = (t, j)" by fastforce
  let ?off = "start_of pre ls (M k)"
  have m: "first_of ls K (int t, int j) (M k)" using Cons.prems(2) k by (simp add: int_key_def)
  have "?off < length (a_file a)"
    using start_strict[OF Cons.prems(1), of "M k" "length ls"] start_end[OF Cons.prems(1)] m by (simp add: first_of_def)
  then have found: "DAP_locate_thread_offset (a_file a) (int t, int j) la (length (a_file a)) = Inr ?off"
    using locate_finds[OF Cons.prems(1) K m short Cons.prems(4)] Cons.prems(5) by simp
  have "t = 0 \<and> j = 0 \<longrightarrow> records_offset a = ?off" using Cons.prems(6,7) k by auto
  with found have this_off: "(if t = 0 \<and> j = 0 then Inr (records_offset a) else DAP_locate_thread_offset (a_file a) (int t, int j) la (length (a_file a))) = Inr ?off"
    by simp
  have "?off \<noteq> 0" using Cons.prems(1) start_mono[of 0 "M k" pre ls] by (auto simp: lined_def)
  moreover have "locate_offsets ?off ks (set_offsets t j ?off a) = Inr (Some (with_offsets (\<lambda>k. start_of pre ls (M k)) ks (set_offsets t j ?off a)))"
    using Cons.prems start_mono by (intro Cons.IH) (auto simp: set_offsets_def intro: order_trans[OF _ start_mono])
  ultimately show ?case
    unfolding k locate_offsets.simps this_off[unfolded k] bindE_Inr by (simp add: with_offsets_def)
qed (simp add: with_offsets_def)

section \<open>The next record\<close>

text \<open>What a thread makes of a line.\<close>

definition own_line :: "sync_options \<Rightarrow> nat \<times> nat \<Rightarrow> string \<Rightarrow> file_action \<Rightarrow> bool" where
  "own_line par k l x \<longleftrightarrow> reads_back par l (int (fst k)) (int (snd k)) x \<or> classify l = Inr (Noop (int (fst k)) (int (snd k))) \<and> x = NOOP"

definition foreign_line :: "nat \<times> nat \<Rightarrow> string \<Rightarrow> bool" where
  "foreign_line k l \<longleftrightarrow> (\<forall>par a. take_line par (fst k) (snd k) l a = Inr (NoMoreActions, a))"

lemma take_own_line: "own_line par k l x \<Longrightarrow> take_line par (fst k) (snd k) l a = Inr (Next x, step_offset (fst k) (snd k) (int (length l)) a)"
  by (auto simp: own_line_def reads_back_def take_line_def)

lemma other_line_foreign: "own_line par k' l x \<Longrightarrow> k' \<noteq> k \<Longrightarrow> foreign_line k l"
  by (cases k; cases k') (auto simp: own_line_def reads_back_def take_line_def foreign_line_def)

lemma next_line_start:
  assumes "lined file pre ls" "i \<le> length ls"
  shows "next_line file (start_of pre ls i) = (if i < length ls then (Some (ls ! i), start_of pre ls (i + 1)) else (None, start_of pre ls i))"
proof (cases "i < length ls")
  case True
  have "line_ok (ls ! i)" using assms(1) True by (simp add: lined_def)
  then have "ls ! i \<noteq> [NL]" using line_nonempty by fastforce
  then show ?thesis using getline_line[OF assms(1) True] start_Suc[OF True, of pre] True by (subst next_line.simps) simp
next
  case False
  then have "i = length ls" using assms(2) by simp
  then show ?thesis using getline_end[OF assms(1)] by (subst next_line.simps) simp
qed

text \<open>
  The abstract machine: each thread has its own list of actions.
\<close>

fun next_actions :: "(nat \<times> nat \<Rightarrow> file_action list) \<Rightarrow> (nat \<times> nat) list \<Rightarrow> read_result list" where
  "next_actions progs [] = []"
| "next_actions progs (k # ks) = (case progs k of [] \<Rightarrow> NoMoreActions # next_actions progs ks
     | x # xs \<Rightarrow> Next x # next_actions (progs(k := xs)) ks)"

text \<open>The simulator reads for one thread after the other.\<close>

fun read_run :: "sync_options \<Rightarrow> (nat \<times> nat) list \<Rightarrow> io_state \<times> app_struct \<Rightarrow> (read_result list \<times> io_state \<times> app_struct) res" where
  "read_run par [] st = Inr ([], st)"
| "read_run par (k # ks) st = bindE (DAP_read_action par False (fst k) (snd k) st) (\<lambda>(r, st1).
     bindE (read_run par ks st1) (\<lambda>(rs, st2). Inr (r # rs, st2)))"

definition holds_program :: "sync_options \<Rightarrow> string list \<Rightarrow> (nat \<times> nat \<Rightarrow> nat) \<Rightarrow> (nat \<times> nat \<Rightarrow> file_action list) \<Rightarrow> nat \<times> nat \<Rightarrow> bool" where
  "holds_program par ls M prog k \<longleftrightarrow> M k + length (prog k) \<le> length ls \<and> (\<forall>c < length (prog k). own_line par k (ls ! (M k + c)) (prog k ! c)) \<and>
     (\<forall>i. M k + length (prog k) \<le> i \<longrightarrow> i < length ls \<longrightarrow> foreign_line k (ls ! i))"

text \<open>Where a thread may stand with the actions \<open>rest\<close> before it.\<close>

definition stands :: "string \<Rightarrow> string list \<Rightarrow> nat \<Rightarrow> file_action list \<Rightarrow> file_action list \<Rightarrow> nat \<Rightarrow> bool" where
  "stands pre ls m full rest p \<longleftrightarrow> (\<exists>i. i \<le> length ls \<and> p = start_of pre ls i \<and>
     (if rest = [] then m + length full \<le> i else i + length rest = m + length full))"

definition stream_at :: "app_struct \<Rightarrow> nat \<times> nat \<Rightarrow> fp_share" where
  "stream_at a k = app_streams a ! (streams_idxs a ! fst k ! snd k)"

definition reader_inv :: "nat list \<Rightarrow> string \<Rightarrow> string list \<Rightarrow> (nat \<times> nat \<Rightarrow> nat) \<Rightarrow> (nat \<times> nat \<Rightarrow> file_action list) \<Rightarrow>
    (nat \<times> nat \<Rightarrow> file_action list) \<Rightarrow> io_state \<times> app_struct \<Rightarrow> bool" where
  "reader_inv cs pre ls M full progs st \<longleftrightarrow> (case st of (i, a) \<Rightarrow>
     lined (a_file a) pre ls \<and> shaped cs (current_threads_offsets a) \<and>
     length (filter (\<lambda>s. fp s = None) (app_streams a)) + IO_OpenedFileDescriptors i \<le> IO_MaximumFileDescriptors i \<and>
     (\<forall>k. is_thread cs k \<longrightarrow> (\<exists>c. c \<le> length (full k) \<and> progs k = drop c (full k)) \<and> streams_idxs a ! fst k ! snd k < length (app_streams a) \<and>
        stands pre ls (M k) (full k) (progs k) (current_threads_offsets a ! fst k ! snd k) \<and>
        (fp (stream_at a k) = None \<longrightarrow> stands pre ls (M k) (full k) (progs k) (threads_offsets a ! fst k ! snd k)) \<and>
        (\<forall>p. fp (stream_at a k) = Some p \<longrightarrow> last_task_id (stream_at a k) = int (fst k) \<longrightarrow> last_thread_id (stream_at a k) = int (snd k) \<longrightarrow>
           stands pre ls (M k) (full k) (progs k) p)))"

lemma count_update: "k < length ss \<Longrightarrow>
    length (filter P (ss[k := x])) + (if P (ss ! k) then 1 else 0) = length (filter P ss) + (if P x then 1 else 0)"
proof (induction ss arbitrary: k)
  case (Cons s ss)
  then show ?case by (cases k) auto
qed simp

definition opened :: "app_struct \<Rightarrow> io_state \<Rightarrow> bool" where
  "opened a i \<longleftrightarrow> length (filter (\<lambda>s. fp s = None) (app_streams a)) + IO_OpenedFileDescriptors i \<le> IO_MaximumFileDescriptors i"

lemma reader_invD:
  assumes "reader_inv cs pre ls M full progs (i, a)"
  shows "lined (a_file a) pre ls" "shaped cs (current_threads_offsets a)" "opened a i"
    and "is_thread cs k \<Longrightarrow> \<exists>c. c \<le> length (full k) \<and> progs k = drop c (full k)"
    and "is_thread cs k \<Longrightarrow> streams_idxs a ! fst k ! snd k < length (app_streams a)"
    and "is_thread cs k \<Longrightarrow> stands pre ls (M k) (full k) (progs k) (current_threads_offsets a ! fst k ! snd k)"
    and "is_thread cs k \<Longrightarrow> fp (stream_at a k) = None \<Longrightarrow> stands pre ls (M k) (full k) (progs k) (threads_offsets a ! fst k ! snd k)"
    and "is_thread cs k \<Longrightarrow> fp (stream_at a k) = Some p \<Longrightarrow> last_task_id (stream_at a k) = int (fst k) \<Longrightarrow>
      last_thread_id (stream_at a k) = int (snd k) \<Longrightarrow> stands pre ls (M k) (full k) (progs k) p"
  using assms by (simp_all add: reader_inv_def opened_def del: split_paired_All)

lemma reader_inv_step:
  assumes inv: "reader_inv cs pre ls M full progs (i, a)" and k: "is_thread cs k"
    and p: "stands pre ls (M k) (full k) rest p" "stands pre ls (M k) (full k) rest q" "\<exists>c. c \<le> length (full k) \<and> rest = drop c (full k)"
    and io: "opened (set_stream (streams_idxs a ! fst k ! snd k) (fst k) (snd k) p a) i'"
  shows "reader_inv cs pre ls M full (progs(k := rest)) (i', (set_stream (streams_idxs a ! fst k ! snd k) (fst k) (snd k) p a)
    \<lparr>last_current_threads_offsets := x, current_threads_offsets := set2 (fst k) (snd k) q (current_threads_offsets a)\<rparr>)"
proof -
  let ?n = "streams_idxs a ! fst k ! snd k"
  let ?a = "(set_stream ?n (fst k) (snd k) p a)
    \<lparr>last_current_threads_offsets := x, current_threads_offsets := set2 (fst k) (snd k) q (current_threads_offsets a)\<rparr>"
  note D = reader_invD[OF inv]
  have n: "?n < length (app_streams a)" using D(5) k .
  have own: "stream_at ?a k = \<lparr>last_task_id = int (fst k), last_thread_id = int (snd k), fp = Some p\<rparr>"
    using n by (simp add: stream_at_def set_stream_def)
  have cur: "current_threads_offsets ?a ! fst k' ! snd k' = (if k' = k then q else current_threads_offsets a ! fst k' ! snd k')" if "is_thread cs k'" for k'
    using set2_lookup[OF D(2) that, of "fst k" "snd k" q] by simp
  have other: "(stream_at ?a k' = stream_at a k') \<or>
      (stream_at ?a k' = \<lparr>last_task_id = int (fst k), last_thread_id = int (snd k), fp = Some p\<rparr>)" for k'
    using n by (cases "streams_idxs a ! fst k' ! snd k' = ?n") (simp_all add: stream_at_def set_stream_def)
  have "(\<exists>c. c \<le> length (full k') \<and> (progs(k := rest)) k' = drop c (full k')) \<and> streams_idxs ?a ! fst k' ! snd k' < length (app_streams ?a) \<and>
        stands pre ls (M k') (full k') ((progs(k := rest)) k') (current_threads_offsets ?a ! fst k' ! snd k') \<and>
        (fp (stream_at ?a k') = None \<longrightarrow> stands pre ls (M k') (full k') ((progs(k := rest)) k') (threads_offsets ?a ! fst k' ! snd k')) \<and>
        (\<forall>p. fp (stream_at ?a k') = Some p \<longrightarrow> last_task_id (stream_at ?a k') = int (fst k') \<longrightarrow> last_thread_id (stream_at ?a k') = int (snd k') \<longrightarrow>
           stands pre ls (M k') (full k') ((progs(k := rest)) k') p)" if k': "is_thread cs k'" for k'
  proof (cases "k' = k")
    case True
    then show ?thesis using own cur[OF k] p n by (simp add: set_stream_def)
  next
    case False
    then have "\<not> (fst k' = fst k \<and> snd k' = snd k)" by (simp add: prod_eq_iff)
    then show ?thesis using D(4,5,6,7,8)[OF k'] cur[OF k'] other[of k'] False by (auto simp: set_stream_def)
  qed
  moreover have "lined (a_file ?a) pre ls" using D(1) by (simp add: set_stream_def)
  moreover have "shaped cs (current_threads_offsets ?a)" using set2_shaped[OF D(2)] by simp
  moreover have "opened ?a i'" using io by (simp add: opened_def)
  ultimately show ?thesis unfolding reader_inv_def opened_def by (simp del: split_paired_All)
qed

lemma get_stream_stands:
  assumes inv: "reader_inv cs pre ls M full progs (i, a)" and k: "is_thread cs k"
  shows "\<exists>p i' a'. DAP_get_stream (fst k) (snd k) (i, a) = (Some (streams_idxs a ! fst k ! snd k, p), i', a') \<and>
    stands pre ls (M k) (full k) (progs k) p \<and> a_file a' = a_file a \<and>
    (\<forall>q. set_stream (streams_idxs a ! fst k ! snd k) (fst k) (snd k) q a' = set_stream (streams_idxs a ! fst k ! snd k) (fst k) (snd k) q a \<and>
         opened (set_stream (streams_idxs a ! fst k ! snd k) (fst k) (snd k) q a) i')"
proof -
  let ?n = "streams_idxs a ! fst k ! snd k"
  note D = reader_invD[OF inv]
  have n: "?n < length (app_streams a)" using D(5) k .
  have twice: "set_stream ?n t j q (set_stream ?n t j p a) = set_stream ?n t j q a" for t j q p by (simp add: set_stream_def)
  have counted: "length (filter (\<lambda>s. fp s = None) (app_streams (set_stream ?n t j q a))) + (if fp (stream_at a k) = None then 1 else 0) =
      length (filter (\<lambda>s. fp s = None) (app_streams a))" for t j q
    using count_update[OF n, of "\<lambda>s. fp s = None"] by (simp add: set_stream_def stream_at_def)
  show ?thesis
  proof (cases "fp (stream_at a k)")
    case None
    with counted[of 0 0 0] have "length (filter (\<lambda>s. fp s = None) (app_streams (set_stream ?n 0 0 0 a))) + 1 =
        length (filter (\<lambda>s. fp s = None) (app_streams a))" by simp
    then have "0 < length (filter (\<lambda>s. fp s = None) (app_streams a))" by linarith
    then have "IO_OpenedFileDescriptors i < IO_MaximumFileDescriptors i" using D(3) unfolding opened_def by linarith
    then have "IO_fopen i = (True, i\<lparr>IO_OpenedFileDescriptors := IO_OpenedFileDescriptors i + 1\<rparr>)" by (simp add: IO_fopen_def)
    moreover have "opened (set_stream ?n (fst k) (snd k) q a) (i\<lparr>IO_OpenedFileDescriptors := IO_OpenedFileDescriptors i + 1\<rparr>)" for q
      using D(3) counted[of "fst k" "snd k" q] None by (simp add: opened_def)
    ultimately show ?thesis
      using D(7)[OF k None] None twice by (simp add: DAP_get_stream_def stream_at_def[symmetric] Let_def) (simp add: set_stream_def)
  next
    case (Some p)
    have o: "opened (set_stream ?n (fst k) (snd k) q a) i" for q using D(3) counted[of "fst k" "snd k" q] Some by (simp add: opened_def)
    show ?thesis
    proof (cases "last_task_id (stream_at a k) = int (fst k) \<and> last_thread_id (stream_at a k) = int (snd k)")
      case True
      then show ?thesis using D(8)[OF k Some] o Some by (simp add: DAP_get_stream_def stream_at_def[symmetric] Let_def)
    next
      case False
      then show ?thesis
        using D(6)[OF k] o Some twice by (simp add: DAP_get_stream_def stream_at_def[symmetric] Let_def) (auto simp: set_stream_def)
    qed
  qed
qed

lemma stands_unique: "stands pre ls m full rest p \<Longrightarrow> rest \<noteq> [] \<Longrightarrow> stands pre ls m full rest q \<Longrightarrow> p = q"
  by (auto simp: stands_def) (metis add_right_cancel)

text \<open>One read takes the next action of its thread and keeps the others where they are.\<close>

lemma read_action_simulates:
  assumes inv: "reader_inv cs pre ls M full progs (i, a)" and k: "is_thread cs k" and prog: "holds_program par ls M full k"
  shows "\<exists>st'. DAP_read_action par False (fst k) (snd k) (i, a) = Inr (case progs k of [] \<Rightarrow> NoMoreActions | x # _ \<Rightarrow> Next x, st') \<and>
    reader_inv cs pre ls M full (progs(k := tl (progs k))) st'"
proof -
  let ?n = "streams_idxs a ! fst k ! snd k"
  note D = reader_invD[OF inv]
  obtain p i' a' where g: "DAP_get_stream (fst k) (snd k) (i, a) = (Some (?n, p), i', a')"
    and p: "stands pre ls (M k) (full k) (progs k) p" and f: "a_file a' = a_file a"
    and s: "\<And>q. set_stream ?n (fst k) (snd k) q a' = set_stream ?n (fst k) (snd k) q a" "\<And>q. opened (set_stream ?n (fst k) (snd k) q a) i'"
    using get_stream_stands[OF inv k] by blast
  have no_skip: "skip_ignored False (fst k) (snd k) p a' = (p, a')" by (simp add: skip_ignored_def)
  obtain c where c: "c \<le> length (full k)" "progs k = drop c (full k)" using D(4)[OF k] by blast
  have same: "set2 (fst k) (snd k) (current_threads_offsets a ! fst k ! snd k) (current_threads_offsets a) = current_threads_offsets a"
    by (simp add: set2_def)
  obtain r where r: "r \<le> length ls" "p = start_of pre ls r" "if progs k = [] then M k + length (full k) \<le> r else r + length (progs k) = M k + length (full k)"
    using p by (auto simp: stands_def)
  have line: "next_line (a_file a) p = (if r < length ls then (Some (ls ! r), start_of pre ls (r + 1)) else (None, p))"
    unfolding r(2) by (rule next_line_start[OF D(1) r(1)])
  have stay: "reader_inv cs pre ls M full (progs(k := tl (progs k))) (i', set_stream ?n (fst k) (snd k) q a)"
    if "progs k = []" "stands pre ls (M k) (full k) [] q" for q
  proof -
    have "\<exists>c. c \<le> length (full k) \<and> [] = drop c (full k)" using c that(1) by metis
    from reader_inv_step[OF inv k that(2) D(6)[OF k, unfolded that(1)] this s(2), of "last_current_threads_offsets a"]
    show ?thesis using that(1) same by (simp add: set_stream_def)
  qed
  show ?thesis
  proof (cases "progs k")
    case Nil
    show ?thesis
    proof (cases "r < length ls")
      case True
      then have "foreign_line k (ls ! r)" using prog r(3) Nil by (simp add: holds_program_def)
      then have "DAP_read_action par False (fst k) (snd k) (i, a) = Inr (NoMoreActions, i', set_stream ?n (fst k) (snd k) (start_of pre ls (r + 1)) a)"
        using g no_skip line f s(1) True by (simp add: DAP_read_action_def foreign_line_def)
      moreover have "stands pre ls (M k) (full k) [] (start_of pre ls (r + 1))"
        using r(3) Nil True unfolding stands_def by (intro exI[of _ "r + 1"]) simp
      ultimately show ?thesis using stay[OF Nil] Nil by simp
    next
      case False
      then have "DAP_read_action par False (fst k) (snd k) (i, a) = Inr (NoMoreActions, i', set_stream ?n (fst k) (snd k) p a)"
        using g no_skip line f s(1) by (simp add: DAP_read_action_def)
      then show ?thesis using stay[OF Nil] p Nil by simp
    qed
  next
    case (Cons x xs)
    have "length (full k) - c = Suc (length xs)" using c(2) Cons by (metis length_drop length_Cons)
    then have rc: "c < length (full k)" "r = M k + c" "x = full k ! c" "xs = drop (c + 1) (full k)"
      using r(3) Cons c(2) by (auto simp: drop_Suc nth_via_drop simp flip: tl_drop) 
    then have own: "own_line par k (ls ! r) x" and rl: "r < length ls" using prog by (auto simp: holds_program_def)
    have cur: "current_threads_offsets a ! fst k ! snd k = start_of pre ls r"
      using stands_unique[OF p _ D(6)[OF k]] Cons r(2) by simp
    have after: "stands pre ls (M k) (full k) xs (start_of pre ls (r + 1))"
      using r(3) Cons rl unfolding stands_def by (intro exI[of _ "r + 1"]) auto
    let ?a = "set_stream ?n (fst k) (snd k) (start_of pre ls (r + 1)) a"
    have "DAP_read_action par False (fst k) (snd k) (i, a) = Inr (Next x, i', step_offset (fst k) (snd k) (int (length (ls ! r))) ?a)"
      using g no_skip line f s(1) rl take_own_line[OF own] by (simp add: DAP_read_action_def)
    moreover have "step_offset (fst k) (snd k) (int (length (ls ! r))) ?a =
        ?a\<lparr>last_current_threads_offsets := set2 (fst k) (snd k) (start_of pre ls r) (last_current_threads_offsets a),
           current_threads_offsets := set2 (fst k) (snd k) (start_of pre ls (r + 1)) (current_threads_offsets a)\<rparr>"
      using cur start_Suc[OF rl, of pre] by (simp add: step_offset_def set_stream_def nat_int_add)
    moreover have "\<exists>c. c \<le> length (full k) \<and> xs = drop c (full k)" using rc by (intro exI[of _ "c + 1"]) simp
    from reader_inv_step[OF inv k after after this s(2)]
    have "reader_inv cs pre ls M full (progs(k := tl (progs k))) (i', ?a\<lparr>last_current_threads_offsets := y,
        current_threads_offsets := set2 (fst k) (snd k) (start_of pre ls (r + 1)) (current_threads_offsets a)\<rparr>)" for y using Cons by simp
    ultimately show ?thesis using Cons by simp
  qed
qed

text \<open>
  Threads that share streams read their own actions in their order, however their reads interleave: the reader refines
  a machine in which each thread has a list of its own. A thread whose actions are used up gets the answer that there are no more, again and again.
\<close>

lemma reading_refines_lists:
  assumes "reader_inv cs pre ls M full progs st" "\<forall>k \<in> set sched. is_thread cs k \<and> holds_program par ls M full k"
  shows "\<exists>st'. read_run par sched st = Inr (next_actions progs sched, st')"
  using assms
proof (induction sched arbitrary: progs st)
  case (Cons k sched)
  obtain i a where st: "st = (i, a)" by fastforce
  obtain st1 where st1: "DAP_read_action par False (fst k) (snd k) st = Inr (case progs k of [] \<Rightarrow> NoMoreActions | x # _ \<Rightarrow> Next x, st1)"
    "reader_inv cs pre ls M full (progs(k := tl (progs k))) st1"
    using read_action_simulates[of cs pre ls M full progs i a k par] Cons.prems st by auto
  moreover obtain st2 where "read_run par sched st1 = Inr (next_actions (progs(k := tl (progs k))) sched, st2)"
    using Cons.IH[OF st1(2)] Cons.prems(2) unfolding list.set by blast
  ultimately show ?case by (cases "progs k") (simp_all add: fun_upd_idem)
qed simp

section \<open>From the writer to the reader\<close>

text \<open>The records of a program, thread after thread, each with the action it stands for.\<close>

definition all_records :: "(nat \<times> nat) list \<Rightarrow> (nat \<times> nat \<Rightarrow> (string \<times> file_action) list) \<Rightarrow> ((nat \<times> nat) \<times> string \<times> file_action) list" where
  "all_records ks prog = concat (map (\<lambda>k. map (Pair k) (prog k)) ks)"

definition first_record :: "(nat \<times> nat) list \<Rightarrow> (nat \<times> nat \<Rightarrow> (string \<times> file_action) list) \<Rightarrow> nat \<times> nat \<Rightarrow> nat" where
  "first_record ks prog k = length (all_records (takeWhile (\<lambda>k'. k' \<noteq> k) ks) prog)"

definition trace_lines :: "nat list \<Rightarrow> (nat \<times> nat \<Rightarrow> (string \<times> file_action) list) \<Rightarrow> string list" where
  "trace_lines cs prog = map (fst \<circ> snd) (all_records (thread_keys cs) prog)"

definition written :: "sync_options \<Rightarrow> nat list \<Rightarrow> (nat \<times> nat \<Rightarrow> (string \<times> file_action) list) \<Rightarrow> bool" where
  "written par cs prog \<longleftrightarrow> (\<forall>k. is_thread cs k \<longrightarrow> prog k \<noteq> [] \<and>
     (\<forall>(l, x) \<in> set (prog k). line_ok l \<and> length l < 1024 \<and> own_line par k l x))"

lemma writtenD:
  assumes "written par cs prog" "is_thread cs k"
  shows "prog k \<noteq> []" "r \<in> set (prog k) \<Longrightarrow> line_ok (fst r) \<and> length (fst r) < 1024 \<and> own_line par k (fst r) (snd r)"
  using assms by (auto simp: written_def case_prod_beta simp del: split_paired_All)

definition earlier :: "nat \<times> nat \<Rightarrow> nat \<times> nat \<Rightarrow> bool" where
  "earlier a b \<longleftrightarrow> fst a < fst b \<or> fst a = fst b \<and> snd a < snd b"

lemma thread_keys_sorted: "sorted_wrt earlier (thread_keys cs)"
proof -
  have "sorted_wrt earlier (concat (map (\<lambda>t. map (\<lambda>j. (t, j)) [0..<cs ! t]) ts))" if "sorted_wrt (<) ts" for ts
    using that by (induction ts) (auto simp: sorted_wrt_append sorted_wrt_map earlier_def)
  then show ?thesis unfolding thread_keys_def by simp
qed

lemma thread_keys_distinct: "distinct (thread_keys cs)"
proof -
  have "distinct xs" if "sorted_wrt earlier xs" for xs
    using that by (induction xs) (auto simp: earlier_def)
  then show ?thesis using thread_keys_sorted by blast
qed

lemma all_records_append: "all_records (xs @ ys) prog = all_records xs prog @ all_records ys prog"
  by (simp add: all_records_def)

lemma all_records_keys: "r \<in> set (all_records ks prog) \<Longrightarrow> fst r \<in> set ks \<and> snd r \<in> set (prog (fst r))"
  by (auto simp: all_records_def)

lemma records_split:
  assumes "k \<in> set ks" "distinct ks"
  shows "\<exists>xs ys. all_records ks prog = all_records xs prog @ map (Pair k) (prog k) @ all_records ys prog \<and>
    first_record ks prog k = length (all_records xs prog) \<and> k \<notin> set xs \<and> k \<notin> set ys \<and> ks = xs @ k # ys"
proof -
  obtain xs ys where ks: "ks = xs @ k # ys" "k \<notin> set xs" using split_list_first[OF assms(1)] by blast
  have "takeWhile (\<lambda>k'. k' \<noteq> k) ks = xs" unfolding ks(1) using ks(2) by (subst takeWhile_append2) auto
  then show ?thesis using ks assms(2) by (intro exI[of _ xs] exI[of _ ys]) (auto simp: first_record_def all_records_def)
qed

lemma record_key_own: "own_line par k l x \<Longrightarrow> record_key l = Inr (Some (int_key k))"
  unfolding own_line_def reads_back_def classify_def record_key_def int_key_def
  by (auto simp: bindE_eq_Inr split: option.splits)

lemma program_is_held:
  assumes w: "written par cs prog" and k: "is_thread cs k"
  shows "holds_program par (trace_lines cs prog) (first_record (thread_keys cs) prog) (map snd \<circ> prog) k"
proof -
  obtain xs ys where s: "all_records (thread_keys cs) prog = all_records xs prog @ map (Pair k) (prog k) @ all_records ys prog"
    "first_record (thread_keys cs) prog k = length (all_records xs prog)" "k \<notin> set ys" "thread_keys cs = xs @ k # ys"
    using records_split[OF k[folded thread_keys_iff] thread_keys_distinct] by blast
  let ?m = "length (all_records xs prog)" and ?recs = "all_records (thread_keys cs) prog"
  have len: "?m + length (prog k) \<le> length ?recs" by (simp add: s(1))
  have own: "own_line par k (trace_lines cs prog ! (?m + c)) (snd (prog k ! c))" if c: "c < length (prog k)" for c
  proof -
    have "?recs ! (?m + c) = (k, prog k ! c)" using c by (simp add: s(1) nth_append)
    then have "trace_lines cs prog ! (?m + c) = fst (prog k ! c)" using c len by (simp add: trace_lines_def)
    moreover have "prog k ! c \<in> set (prog k)" using c by simp
    ultimately show ?thesis using writtenD(2)[OF w k, of "prog k ! c"] by simp
  qed
  have foreign: "foreign_line k (trace_lines cs prog ! i)" if i: "?m + length (prog k) \<le> i" "i < length ?recs" for i
  proof -
    define d where "d = i - (?m + length (prog k))"
    then have d: "i = ?m + (length (prog k) + d)" using i(1) by simp
    then have "?recs ! i = all_records ys prog ! d" "d < length (all_records ys prog)" using i(2) by (simp_all add: s(1) nth_append)
    then have "?recs ! i \<in> set (all_records ys prog)" by simp
    then have r: "fst (?recs ! i) \<in> set ys" "snd (?recs ! i) \<in> set (prog (fst (?recs ! i)))" using all_records_keys by blast+
    obtain k' l x where kx: "?recs ! i = (k', l, x)" by (metis prod.exhaust)
    have "k' \<noteq> k" "is_thread cs k'" using r(1) s(3,4) kx thread_keys_iff[of k' cs] by auto
    moreover have "own_line par k' l x" using writtenD(2)[OF w \<open>is_thread cs k'\<close>, of "(l, x)"] r(2) kx by simp
    moreover have "trace_lines cs prog ! i = l" using i kx by (simp add: trace_lines_def)
    ultimately show ?thesis using other_line_foreign by blast
  qed
  show ?thesis using len own foreign by (auto simp: holds_program_def s(2)) (simp_all add: trace_lines_def)
qed

lemma program_order:
  assumes w: "written par cs prog"
  shows "ordered_keys (trace_lines cs prog) (\<lambda>i. int_key (fst (all_records (thread_keys cs) prog ! i)))"
    and "is_thread cs k \<Longrightarrow> first_of (trace_lines cs prog) (\<lambda>i. int_key (fst (all_records (thread_keys cs) prog ! i))) (int_key k)
      (first_record (thread_keys cs) prog k)"
    and "sorted_wrt (\<lambda>x y. first_record (thread_keys cs) prog x \<le> first_record (thread_keys cs) prog y) (thread_keys cs)"
proof -
  let ?recs = "all_records (thread_keys cs) prog"
  have key: "record_key (trace_lines cs prog ! i) = Inr (Some (int_key (fst (?recs ! i))))" if i: "i < length ?recs" for i
  proof -
    have "?recs ! i \<in> set ?recs" using i by simp
    then have r: "is_thread cs (fst (?recs ! i))" "snd (?recs ! i) \<in> set (prog (fst (?recs ! i)))" using all_records_keys thread_keys_iff by blast+
    obtain k' l x where kx: "?recs ! i = (k', l, x)" by (metis prod.exhaust)
    then have "own_line par k' l x" using writtenD(2)[OF w, of k' "(l, x)"] r by simp
    then show ?thesis using record_key_own kx i by (simp add: trace_lines_def)
  qed
  have "sorted_wrt (\<lambda>x y. \<not> earlier (fst y) (fst x)) (all_records ks prog)" if "sorted_wrt earlier ks" for ks
    using that
  proof (induction ks)
    case (Cons k ks)
    have "\<not> earlier (fst r) k" if "r \<in> set (all_records ks prog)" for r
      using all_records_keys[OF that] Cons.prems by (auto simp: earlier_def)
    moreover have "sorted_wrt (\<lambda>x y. \<not> earlier (fst y) (fst x)) (map (Pair k) zs)" for zs
      by (induction zs) (auto simp: earlier_def)
    moreover have "all_records (k # ks) prog = map (Pair k) (prog k) @ all_records ks prog" by (simp add: all_records_def)
    ultimately show ?case using Cons by (simp only: sorted_wrt_append) auto
  qed (simp add: all_records_def)
  from sorted_wrt_nth_less[OF this[OF thread_keys_sorted]]
  show "ordered_keys (trace_lines cs prog) (\<lambda>i. int_key (fst (?recs ! i)))"
    using key by (auto simp: ordered_keys_def trace_lines_def before_def earlier_def int_key_def)
  show "first_of (trace_lines cs prog) (\<lambda>i. int_key (fst (?recs ! i))) (int_key k) (first_record (thread_keys cs) prog k)" if k: "is_thread cs k"
  proof -
    obtain xs ys where s: "?recs = all_records xs prog @ map (Pair k) (prog k) @ all_records ys prog"
      "first_record (thread_keys cs) prog k = length (all_records xs prog)" "k \<notin> set xs"
      using records_split[OF k[folded thread_keys_iff] thread_keys_distinct] by blast
    have ne: "prog k \<noteq> []" by (rule writtenD(1)[OF w k])
    have "fst (?recs ! i) \<noteq> k" if "i < length (all_records xs prog)" for i
    proof -
      have "?recs ! i \<in> set (all_records xs prog)" using that by (simp add: s(1) nth_append)
      then show ?thesis using all_records_keys s(3) by metis
    qed
    then show ?thesis using ne by (auto simp: first_of_def s(1,2) trace_lines_def nth_append)
  qed
  show "sorted_wrt (\<lambda>x y. first_record (thread_keys cs) prog x \<le> first_record (thread_keys cs) prog y) (thread_keys cs)"
  proof -
    have "first_record ks prog (ks ! i) \<le> first_record ks prog (ks ! j)" if "i < j" "j < length ks" "distinct ks" for i j ks
    proof -
      have pos: "takeWhile (\<lambda>k'. k' \<noteq> ks ! n) ks = take n ks" if "n < length ks" for n
        using that \<open>distinct ks\<close> by (intro takeWhile_eq_take_P_nth) (auto simp: nth_eq_iff_index_eq)
      have "all_records (take j ks) prog = all_records (take i ks) prog @ all_records (drop i (take j ks)) prog"
        using that(1) all_records_append[of "take i ks" "drop i (take j ks)" prog] append_take_drop_id[of i "take j ks"] by (simp add: min_def)
      then show ?thesis using pos that by (simp add: first_record_def)
    qed
    then show ?thesis using thread_keys_distinct by (auto simp: sorted_wrt_iff_nth_less)
  qed
qed

lemma trace_lines_ok: "written par cs prog \<Longrightarrow> \<forall>l \<in> set (trace_lines cs prog). line_ok l \<and> length l < 1024"
proof
  fix l assume w: "written par cs prog" and "l \<in> set (trace_lines cs prog)"
  then obtain r where r: "r \<in> set (all_records (thread_keys cs) prog)" "l = fst (snd r)" by (auto simp: trace_lines_def)
  then have "is_thread cs (fst r)" "snd r \<in> set (prog (fst r))" using all_records_keys thread_keys_iff by blast+
  then show "line_ok l \<and> length l < 1024" using writtenD(2)[OF w, of "fst r" "snd r"] r(2) by simp
qed

lemma first_record_0: "0 < length cs \<Longrightarrow> 0 < cs ! 0 \<Longrightarrow> first_record (thread_keys cs) prog (0, 0) = 0"
proof -
  assume "0 < length cs" "0 < cs ! 0"
  then have "[0..<length cs] = 0 # [1..<length cs]" "[0..<cs ! 0] = 0 # [1..<cs ! 0]" by (simp_all add: upt_conv_Cons)
  then obtain ks where "thread_keys cs = (0, 0) # ks" by (simp add: thread_keys_def)
  then show ?thesis by (simp add: first_record_def all_records_def)
qed

lemma stream_index:
  assumes "is_thread cs k" "0 < n" "threads_count a = cs"
  shows "streams_idxs (DAP_allocate_streams n a) ! fst k ! snd k < n"
proof -
  have "sum_list (take (fst k) cs) + cs ! fst k = sum_list (take (fst k + 1) cs)"
    using assms(1) by (simp add: take_Suc_conv_app_nth is_thread_def)
  also have "\<dots> \<le> sum_list cs" by (metis append_take_drop_id le_add1 sum_list_append)
  finally have "sum_list (take (fst k) cs) + snd k < sum_list cs" using assms(1) by (simp add: is_thread_def)
  then show ?thesis using assms by (simp add: DAP_allocate_streams_def is_thread_def total_threads_count_def less_mult_imp_div_less)
qed

text \<open>
  Property C39. From the writer to the simulator: a trace of lines that are read back one by one (as those of the generator are), thread after
  thread and without empty lines, is found by the search by halves, and then the threads get exactly the actions that were written, in their order, with any
  number of shared streams that can be opened and in every order of reads.
\<close>

theorem simulator_reads_what_was_written:
  assumes w: "written par cs prog" and a: "a_file a = pre @ concat (trace_lines cs prog)" "pre = h @ [NL]"
    and b: "threads_count a = cs" "records_offset a = length pre" "shaped cs (threads_offsets a)" "shaped cs (current_threads_offsets a)"
    and n: "0 < n" "n + IO_OpenedFileDescriptors i \<le> IO_MaximumFileDescriptors i" and sched: "\<forall>k \<in> set sched. is_thread cs k"
  shows "\<exists>a' st. DAP_locate_offsets a = Inr (Some a') \<and>
    read_run par sched (i, DAP_allocate_streams n a') = Inr (next_actions (map snd \<circ> prog) sched, st)"
proof -
  let ?ls = "trace_lines cs prog" and ?M = "first_record (thread_keys cs) prog"
  let ?a = "with_offsets (\<lambda>k. start_of pre ?ls (?M k)) (thread_keys cs) a"
  have l: "lined (a_file a) pre ?ls" using a trace_lines_ok[OF w] by (auto simp: lined_def)
  note order = program_order[OF w]
  have zero: "(0, 0) \<in> set (thread_keys cs) \<longrightarrow> ?M (0, 0) = 0" using first_record_0 thread_keys_iff by (auto simp: is_thread_def)
  have "DAP_locate_offsets a = Inr (Some ?a)"
    unfolding DAP_locate_offsets_def b(1)
  proof (rule locate_offsets_all[OF l order(1)])
    show "\<forall>x \<in> set ?ls. length x < 1024" using trace_lines_ok[OF w] by blast
    show "\<forall>k \<in> set (thread_keys cs). first_of ?ls (\<lambda>i. int_key (fst (all_records (thread_keys cs) prog ! i))) (int_key k) (?M k)"
      using order(2) thread_keys_iff by blast
    show "\<forall>k \<in> set (thread_keys cs). records_offset a \<le> start_of pre ?ls (?M k)" unfolding b(2) by (simp add: start_of_def)
  qed (use order(3) zero b(2) in simp_all)
  moreover have "reader_inv cs pre ?ls ?M (map snd \<circ> prog) (map snd \<circ> prog) (i, DAP_allocate_streams n ?a)"
  proof -
    note off = with_offsets_lookup[OF b(3,4), of "\<lambda>k. start_of pre ?ls (?M k)" "thread_keys cs"]
    have there: "stands pre ?ls (?M k) ((map snd \<circ> prog) k) ((map snd \<circ> prog) k) (start_of pre ?ls (?M k))" if "is_thread cs k" for k
      using program_is_held[OF w that] unfolding stands_def holds_program_def by (intro exI[of _ "?M k"]) auto
    have "stream_at (DAP_allocate_streams n ?a) k = \<lparr>last_task_id = 0, last_thread_id = 0, fp = None\<rparr>" if "is_thread cs k" for k
      using stream_index[OF that n(1), of ?a] b(1) by (simp add: stream_at_def) (simp add: DAP_allocate_streams_def)
    moreover have "length (filter (\<lambda>s. fp s = None) (app_streams (DAP_allocate_streams n ?a))) = n" by (simp add: DAP_allocate_streams_def)
    moreover have "app_streams (DAP_allocate_streams n ?a) = replicate n \<lparr>last_task_id = 0, last_thread_id = 0, fp = None\<rparr>"
      "current_threads_offsets (DAP_allocate_streams n ?a) = current_threads_offsets ?a"
      "threads_offsets (DAP_allocate_streams n ?a) = threads_offsets ?a" "a_file (DAP_allocate_streams n ?a) = a_file a"
      by (simp_all add: DAP_allocate_streams_def)
    ultimately show ?thesis
      unfolding reader_inv_def
      using l off there n(2) stream_index[OF _ n(1), of cs _ ?a] b(1) thread_keys_iff by (auto simp del: split_paired_All)
  qed
  from reading_refines_lists[OF this] program_is_held[OF w] sched
  have "\<exists>st. read_run par sched (i, DAP_allocate_streams n ?a) = Inr (next_actions (map snd \<circ> prog) sched, st)" by blast
  ultimately show ?thesis by blast
qed

definition ex_program :: "nat \<times> nat \<Rightarrow> (string \<times> file_action) list" where
  "ex_program k = (if k = (0, 0) then [(Dimemas_User_Event 0 0 5 7, EVENT 5 7), (Dimemas_NOOP 0 0, NOOP)] else [(Dimemas_NOOP 1 0, NOOP)])"

definition ex_app :: app_struct where
  "ex_app = \<lparr>a_ptask_id = 1, a_file = ''h'' @ [NL] @ concat (trace_lines [1, 1] ex_program), threads_count = [1, 1], offsets_offset = 0, records_offset = 2,
     threads_offsets = [[0], [0]], app_streams = [], streams_idxs = [], current_threads_offsets = [[0], [0]],
     last_current_threads_offsets = [[0], [0]], app_comms = [], thread_trace_sizes = [], ops_to_be_ignored = [[], []],
     counter_ops_already_ignored = [0, 0]\<rparr>"

lemma ex_lines: "line_ok (Dimemas_User_Event 0 0 5 7)" "line_ok (Dimemas_NOOP 0 0)" "line_ok (Dimemas_NOOP 1 0)"
    "length (Dimemas_User_Event 0 0 5 7) < 1024" "length (Dimemas_NOOP 0 0) < 1024" "length (Dimemas_NOOP 1 0) < 1024"
proof -
  have e: "Dimemas_User_Event 0 0 5 7 = ''20:0:0:5:7'' @ [NL]" "Dimemas_NOOP 0 0 = ''0:0:0'' @ [NL]" "Dimemas_NOOP 1 0 = ''0:1:0'' @ [NL]"
    by code_simp+
  show "line_ok (Dimemas_User_Event 0 0 5 7)" "line_ok (Dimemas_NOOP 0 0)" "line_ok (Dimemas_NOOP 1 0)"
    "length (Dimemas_User_Event 0 0 5 7) < 1024" "length (Dimemas_NOOP 0 0) < 1024" "length (Dimemas_NOOP 1 0) < 1024"
    unfolding e line_ok_def by simp_all
qed

lemma ex_written: "written par [1, 1] ex_program"
proof -
  have e: "own_line par (0, 0) (Dimemas_User_Event 0 0 5 7) (EVENT 5 7)"
    using records_read_back(7)[of 0 0 0 0 0 0 0 0 0 0 0 0 0 0 5 7 par] by (simp add: own_line_def fits_def)
  have n: "own_line par (0, 0) (Dimemas_NOOP 0 0) NOOP" "own_line par (1, 0) (Dimemas_NOOP 1 0) NOOP"
    using classify_noop[of 0 0] classify_noop[of 1 0] by (simp_all add: own_line_def fits_def)
  have "k = (0, 0) \<or> k = (1, 0)" if "is_thread [1, 1] k" for k
    using that by (cases k) (auto simp: is_thread_def less_Suc_eq)
  then show ?thesis using e n ex_lines unfolding written_def ex_program_def by fastforce
qed

theorem simulator_reads_what_was_written_witness:
  "\<exists>a' st. DAP_locate_offsets ex_app = Inr (Some a') \<and>
     read_run \<lparr>RD_SYNC_use_trace_sync = False, RD_SYNC_message_size = 0\<rparr> [(0, 0), (1, 0), (0, 0), (1, 0)]
       (\<lparr>IO_MaximumFileDescriptors = 1, IO_OpenedFileDescriptors = 0\<rparr>, DAP_allocate_streams 1 a') =
     Inr ([Next (EVENT 5 7), Next NOOP, Next NOOP, NoMoreActions], st)"
proof -
  have a: "a_file ex_app = (''h'' @ [NL]) @ concat (trace_lines [1, 1] ex_program)" "''h'' @ [NL] = ''h'' @ [NL]"
    "threads_count ex_app = [1, 1]" "records_offset ex_app = length (''h'' @ [NL])" by (simp_all add: ex_app_def)
  have s: "shaped [1, 1] (threads_offsets ex_app)" "shaped [1, 1] (current_threads_offsets ex_app)"
    by (auto simp: shaped_def ex_app_def less_Suc_eq)
  have t: "\<forall>k \<in> set [(0, 0), (1, 0), (0, 0), (1, 0)]. is_thread [1, 1] k" by (simp add: is_thread_def)
  have "next_actions (map snd \<circ> ex_program) [(0, 0), (1, 0), (0, 0), (1, 0)] = [Next (EVENT 5 7), Next NOOP, Next NOOP, NoMoreActions]"
    by (simp add: ex_program_def)
  then show ?thesis
    using simulator_reads_what_was_written[OF ex_written a s, of 1 "\<lparr>IO_MaximumFileDescriptors = 1, IO_OpenedFileDescriptors = 0\<rparr>", OF _ _ t] by simp
qed

section \<open>Sharing between applications\<close>

text \<open>
  When there are fewer descriptors than threads, an application that has not all the threads gets no stream at all, since the division of the code is
  one of integers: reading ends before it starts.
\<close>

theorem streams_are_not_shared_between_applications:
  assumes "\<not> io_init s" "a \<in> set (apps s)" "total_threads_count a < sum_list (map total_threads_count (apps s))"
    and "(2 ^ 64 + IO_available_streams (io s) - 2) mod 2 ^ 64 < sum_list (map total_threads_count (apps s))"
  shows "\<not> fst (DAP_io_init s)"
proof -
  have "\<not> fst (allocate_all f as)" if "a \<in> set as" "f a = 0" for f as
    using that by (induction as) (auto split: prod.splits)
  moreover have "streams_per_app (sum_list (map total_threads_count (apps s))) ((2 ^ 64 + IO_available_streams (io s) - 2) mod 2 ^ 64) a = 0"
    using assms(3,4) by (simp add: streams_per_app_def)
  ultimately show ?thesis using assms(1,2) by (simp add: DAP_io_init_def Let_def case_prod_beta)
qed

end
