(* ===== verification/Spec2Isabelle.thy ===== *)
theory Spec2Isabelle
  imports ListHeap Deadlock LinkProps SendProps SchedProps CollProps OneSidedProps PortProps FileSystem Randoms EeeProps
    PlatformProps TaskMappingProps TraceFileProps
begin

text \<open>
  Dimemas simulates a message passing program on a parametric machine. The trace of the program is a
  list of actions for each thread (bursts of computation, sends, receives, events, collective operations);
  the simulator replays them over nodes with processors, links and buses, in the order of a queue of timed
  events. This development models the core of the simulator, \<^verbatim>\<open>src/Simulator/sched\<close>,
  \<^verbatim>\<open>src/Simulator/model\<close> and \<^verbatim>\<open>src/Simulator/utils\<close>, and proves what makes it correct and where it is not.

  \<^bold>\<open>How C is modelled.\<close> Structures are records and global variables are fields of a state record, which
  grows from theory to theory: \<open>engine\<close> (the clock and the event queue), \<open>net\<close> (links and the threads as the
  links see them), \<open>world\<close> (threads, actions, message queues, processors, ready queues), \<open>sim\<close> (the
  platform, buses, random numbers), \<open>comm_sim\<close> and \<open>coll_sim\<close> (communicators and collective operations), \<open>os_sim\<close> (windows), \<open>port_sim\<close> (semaphores, ports)
  and \<open>fs_sim\<close> (disks and files). A pointer to a structure is an identifier and a pointer that may be NULL is
  an \<open>option\<close>. Code without loops over the state returns \<open>fault + 'a\<close>; code whose loops may not end returns
  an option of that, where \<open>None\<close> means that it does not return. \<open>panic\<close>, \<open>die\<close> and failing asserts are
  faults, and so is what the C standard leaves undefined (NULL, freed memory, fields that were never
  written, accesses outside a block). \<open>double\<close> is \<open>real\<close>. Formatted output, Paraver records and debug messages have
  no effect on the simulation and are left out.

  \<^bold>\<open>Queues.\<close> \<open>ListHeap\<close> models \<^verbatim>\<open>utils/list.c\<close> with a heap of items: links in both directions, the cursor
  \<open>curr\<close>, allocation. Its refinement to sequences (theory \<open>Queue\<close>: \<open>seq_insert\<close>, \<open>seq_insert_back\<close>,
  \<open>seq_insert_first\<close>) is proved there, and the theories above it use sequences. The locales \<open>ordered_insert\<close> and \<open>stable_insert\<close>
  (theory \<open>Queue\<close>) state the contract of insertion by priority and are interpreted there on the three functions.

  \<^bold>\<open>Deadlocks.\<close> \<open>Graph\<close> models \<^verbatim>\<open>utils/graph.c\<close>, the dependencies between ranks, and \<open>Deadlock\<close>
  \<^verbatim>\<open>utils/deadlock_analysis.c\<close>, the analyser that watches the communications and looks for cycles. The main
  results: the search for cycles is exact and ends, and through every run the analyser answers true exactly at the event that closes
  a cycle. Errors: the chain buffer overflows, two receives from each other pass for a match.

  \<^bold>\<open>Events.\<close> \<open>Events\<close> models \<^verbatim>\<open>sched/events.c\<close>. Runs of timers, cancellations and the manager keep the queue
  ordered and never move the clock back.

  \<^bold>\<open>Links, buses and messages.\<close> \<open>Links\<close> models \<^verbatim>\<open>model/links.c\<close>: requests and releases of the links of nodes, machines,
  connections and accelerators, the theft of links (\<open>roba_*\<close>) that prevents deadlocks, waiting queues.
  \<open>MessageCost\<close>, \<open>Sends\<close> model the transfer of a message in \<^verbatim>\<open>model/communic.c\<close>: its kind, its bandwidth, the functions
  \<open>really_send_*\<close> and the events that give the resources back. \<open>LinkProps\<close> and \<open>SendProps\<close> prove that links and buses
  are conserved through every run, that a request grants everything or queues the thread once, that links are
  acquired in one order, that a freed bus goes to the first waiter. What a release needs of those it wakes is the locale
  \<open>release_clients\<close> of \<open>Links\<close>, interpreted in \<open>SendProps\<close>.

  \<^bold>\<open>Matching.\<close> \<open>Matching\<close> models the operations of \<^verbatim>\<open>model/communic.c\<close> that bring sends and receives together:
  sends with and without rendez vous, blocking and nonblocking receives, waits, the copies of threads that travel with a message.
  \<open>MatchProps\<close> proves in which order messages are matched and what a match removes.

  \<^bold>\<open>Collective operations.\<close> \<open>CollCost\<close> models the cost of an operation and \<open>Collectives\<close> its course: arrival, choice of a thread of
  each machine, buses and links, start, end, operations without blocking, synchronisation with accelerators. \<open>CollProps\<close>: nobody
  leaves before the last arrives, at the end everybody goes on once.

  \<^bold>\<open>One-sided operations.\<close> \<open>OneSided\<close> models windows, fences, locks and post/start of \<^verbatim>\<open>model/memory.c\<close>, \<open>OneSidedProps\<close>
  proves that exclusive locks are exclusive in every run, and two errors. \<open>Frames\<close> says what the scheduler leaves alone.

  \<^bold>\<open>Semaphores, ports, files.\<close> \<open>Ports\<close> models \<^verbatim>\<open>model/semaphore.c\<close>, \<^verbatim>\<open>model/ports.c\<close> and the copies of segments of
  \<^verbatim>\<open>model/memory.c\<close>; \<open>PortProps\<close> proves that a semaphore grants its waits in order in every run, and that a port send with a
  startup is lost. \<open>FileSystem\<close> models \<^verbatim>\<open>model/fs.c\<close> and puts the modules together.

  \<^bold>\<open>Energy efficient Ethernet.\<close> \<open>Eee\<close> models the optional network of \<^verbatim>\<open>eee_model\<close>: the wiring of a fat tree, the way of a message
  through it, links that sleep. \<open>EeeProps\<close>: when the wiring is a tree, and that every message arrives.

  \<^bold>\<open>Platform.\<close> \<open>Platform\<close> models how a configuration builds machines, nodes, processors, links and connections (\<^verbatim>\<open>simulator.c\<close>,
  \<^verbatim>\<open>machine.c\<close>, \<^verbatim>\<open>node.c\<close>, \<^verbatim>\<open>cpu.c\<close>), refusals and partial changes included. \<open>PlatformProps\<close>: every platform that can be built is well formed;
  nodes defined out of order take the places of each other.

  \<^bold>\<open>Task mapping.\<close> \<open>TaskMapping\<close> models how \<^verbatim>\<open>task.c\<close> gives tasks to nodes (filling, so many for each node, interleaved, accelerators), what
  tasks take from their nodes and the flags of communicators. The write through a pointer never set is the argument \<open>stray\<close>.
  \<open>TaskMappingProps\<close>: closed forms of the mappings, with the cases that leave the arrays, and the meaning of the flags.

  \<^bold>\<open>Traces.\<close> \<open>CText\<close> models what the trace files need of the C library (lines, \<open>printf\<close>, \<open>sscanf\<close>, \<open>strtok\<close>), \<open>TraceFormat\<close> the
  records that \<^verbatim>\<open>common_utilities/Dimemas_Generation.c\<close> writes and \<^verbatim>\<open>input/file_data_access.c\<close> reads, \<open>TraceFile\<close> the offsets of the threads,
  the search by halves and the streams that threads share. \<open>TraceFormatProps\<close>: every record is read back. \<open>TraceFileProps\<close>: the search finds the
  threads, and reading refines a machine with a list of actions for each thread, so the simulator gets what was written.

  \<^bold>\<open>Random numbers.\<close> \<open>Randoms\<close> models the generator \<^verbatim>\<open>utils/aleatorias.c\<close> on words of 32 bits and the distributions of
  \<^verbatim>\<open>utils/random.c\<close>: the registers run through cycles, the distributions stay inside their bounds.

  \<^bold>\<open>Events of the trace.\<close> \<open>EventEncoding\<close> models the tables of \<^verbatim>\<open>common_utilities/EventEncoding.c\<close> between event types and operations.

  \<^bold>\<open>Scheduling.\<close> \<open>Threads\<close>, \<open>Policies\<close> and \<open>Scheduler\<close> model \<^verbatim>\<open>sched/schedule.c\<close>, the policies
  \<^verbatim>\<open>sched/SCH_*.c\<close>, and what they use of \<^verbatim>\<open>model/task.c\<close> and \<^verbatim>\<open>model/cpu.c\<close>. \<open>SchedQueues\<close> proves the invariant
  of the ready queues through every run and \<open>SchedProps\<close> that the work of a thread is conserved by preemption, how round
  robin cuts a burst, which thread is preempted, and where SVR4 is wrong.

  \<^bold>\<open>Loops.\<close> Loops over lists are structural recursion. The loops that C runs on pointers or jumps
  (\<open>ListHeap\<close>, \<open>LINKS_get_mem_links\<close>, \<open>LINKS_free_*\<close>, \<open>next_op\<close>, \<open>free_machines\<close>, \<open>os_run\<close>) are \<open>partial_function (option)\<close>, so that a result is proved and
  not assumed; no fuel is used anywhere.

  \<^bold>\<open>Not modelled.\<close> Reading configurations and the older trace formats (\<^verbatim>\<open>Simulator/input\<close>), writing Paraver traces (\<^verbatim>\<open>Simulator/prv_utils\<close>),
  the start and reset of the simulator (parts of \<^verbatim>\<open>model/simulator.c\<close>) and accounts and modules of tasks (parts of \<^verbatim>\<open>model/task.c\<close>), the Venus co-simulation, the separate
  translator \<^verbatim>\<open>prv2dim\<close> and the Java interface. What the modelled code calls of them is an argument of the definitions
  (\<open>ops\<close>, \<open>others\<close>, \<open>handlers\<close>, \<open>modules\<close>), the platform is arbitrary except in \<open>Platform\<close> and \<open>TaskMapping\<close>, and so are the random numbers where other theories draw them.
\<close>

end
